(* ===== verification/Prelude.thy ===== *)
theory Prelude
  imports "HOL-Library.Word" "HOL-Library.List_Lexorder"
begin

text \<open>
  Shared vocabulary of the development: the machine types of the C++ code, the faults a C++
  operation can end in (an exception of the standard library, a null dereference, undefined
  behaviour), the few operations of \<open>std::vector\<close> and \<open>std::string\<close> the SDK uses, and the
  arithmetic of \<open>size_t\<close>.

  \<^item> \<open>util::String\<close> and \<open>util::Vector<unsigned char>\<close> are both byte sequences
    (\<^verbatim>\<open>include/util/memory/stl/String.hpp\<close>, \<^verbatim>\<open>Vector.hpp\<close>): lists of 8-bit words. The library's
    lexicographic order on lists is the order of \<open>std::string\<close> (bytes compared as unsigned).
  \<^item> \<open>uint16_t\<close>, \<open>uint8_t\<close> are words of their width; \<open>size_t\<close> is a natural number below
    \<open>2 ^ 64\<close> whose wrap-around is written out by \<open>size_add\<close> and \<open>size_sub\<close>.
\<close>

named_theorems wire_simps \<open>lengths and decodings of serialised fields\<close>
named_theorems state_simps \<open>projections of the client state after an update\<close>

type_synonym byte = "8 word"
type_synonym bytes = "8 word list"
type_synonym u8 = "8 word"
type_synonym u16 = "16 word"
type_synonym u32 = "32 word"

section \<open>Faults\<close>

text \<open>
  \<open>OutOfRange\<close> and \<open>InvalidArgument\<close> are exceptions of the standard library (of \<open>at\<close>, \<open>substr\<close>, \<open>stoul\<close>); \<open>OutOfBounds\<close>, \<open>NullPointer\<close>,
  \<open>InvalidIterator\<close> and \<open>Uninitialised\<close> are undefined behaviour; \<open>RegexError\<close> is what
  \<open>std::regex\<close> throws, or a pattern outside the modelled fragment; \<open>AssertionFailed\<close> is a call that
  violates the precondition of a library; \<open>OutOfFuel\<close> says that the
  model's bound on the iterations of a loop was used up (the theorems show where it is not).
\<close>

datatype fault =
    OutOfRange
  | OutOfBounds
  | NullPointer
  | InvalidIterator
  | Uninitialised
  | RegexError
  | AssertionFailed
  | InvalidArgument
  | OutOfFuel

type_synonym 'a res = "fault + 'a"

definition bind_res :: "'a res \<Rightarrow> ('a \<Rightarrow> 'b res) \<Rightarrow> 'b res" where
  "bind_res r f = (case r of Inl e \<Rightarrow> Inl e | Inr x \<Rightarrow> f x)"

lemma bind_res_assoc: "bind_res (bind_res r f) g = bind_res r (\<lambda>x. bind_res (f x) g)"
  by (simp add: bind_res_def split: sum.split)

lemma bind_res_simps [simp]:
  "bind_res (Inl e) f = Inl e"
  "bind_res (Inr x) f = f x"
  by (simp_all add: bind_res_def)

lemma bind_res_Inr_iff:
  "bind_res r f = Inr y \<longleftrightarrow> (\<exists>x. r = Inr x \<and> f x = Inr y)"
  by (cases r) auto

lemma bind_res_cong [fundef_cong]:
  assumes "r = r'" and "\<And>x. r' = Inr x \<Longrightarrow> f x = f' x"
  shows "bind_res r f = bind_res r' f'"
  using assms by (cases r') auto

text \<open>Dereferencing a smart pointer: \<open>None\<close> is the null pointer.\<close>

definition deref :: "'a option \<Rightarrow> 'a res" where
  "deref p = (case p of None \<Rightarrow> Inl NullPointer | Some x \<Rightarrow> Inr x)"

lemma deref_simps [simp]: "deref None = Inl NullPointer" "deref (Some x) = Inr x"
  by (simp_all add: deref_def)

section \<open>Vectors and strings of the standard library\<close>

definition vec_at :: "bytes \<Rightarrow> nat \<Rightarrow> byte res" where
  "vec_at buf i = (if i < length buf then Inr (buf ! i) else Inl OutOfRange)"

definition vec_index :: "bytes \<Rightarrow> nat \<Rightarrow> byte res" where
  "vec_index buf i = (if i < length buf then Inr (buf ! i) else Inl OutOfBounds)"

definition vec_resize :: "nat \<Rightarrow> bytes \<Rightarrow> bytes" where
  "vec_resize n buf = take n buf @ replicate (n - length buf) 0"

definition str_substr :: "bytes \<Rightarrow> nat \<Rightarrow> bytes res" where
  "str_substr s pos = (if pos \<le> length s then Inr (drop pos s) else Inl OutOfRange)"

lemma vec_at_in: "i < length buf \<Longrightarrow> vec_at buf i = Inr (buf ! i)"
  by (simp add: vec_at_def)

lemma vec_index_in: "i < length buf \<Longrightarrow> vec_index buf i = Inr (buf ! i)"
  by (simp add: vec_index_def)

lemma length_vec_resize [simp]: "length (vec_resize n buf) = n"
  by (simp add: vec_resize_def)

lemma vec_resize_id: "length buf = n \<Longrightarrow> vec_resize n buf = buf"
  by (simp add: vec_resize_def)

text \<open>\<open>std::string::find\<close>.\<close>

fun find_text :: "bytes \<Rightarrow> bytes \<Rightarrow> nat option" where
  "find_text pat [] = (if pat = [] then Some 0 else None)"
| "find_text pat (c # s) = (if take (length pat) (c # s) = pat then Some 0 else map_option Suc (find_text pat s))"

text \<open>A string literal of the source as the bytes of its ASCII characters.\<close>

definition str :: "string \<Rightarrow> bytes" where
  "str s = map of_char s"

lemma length_str [simp]: "length (str s) = length s"
  by (simp add: str_def)

lemma str_Nil [simp]: "str [] = []"
  by (simp add: str_def)

lemma str_append: "str (s @ t) = str s @ str t"
  by (simp add: str_def)

text \<open>A name between quotation marks.\<close>

definition quoted :: "string \<Rightarrow> bytes" where
  "quoted s = 34 # str s @ [34]"

section \<open>\<open>size_t\<close>\<close>

definition size_add :: "nat \<Rightarrow> nat \<Rightarrow> nat" where
  "size_add a b = (a + b) mod 2 ^ 64"

definition size_sub :: "nat \<Rightarrow> nat \<Rightarrow> nat" where
  "size_sub a b = (a + 2 ^ 64 - b) mod 2 ^ 64"

lemma size_add_small: "a + b < 2 ^ 64 \<Longrightarrow> size_add a b = a + b"
  by (simp add: size_add_def)

lemma size_add_0 [simp]: "b < 2 ^ 64 \<Longrightarrow> size_add 0 b = b"
  by (simp add: size_add_def)

lemma size_sub_small:
  assumes "b \<le> a" "a < 2 ^ 64"
  shows "size_sub a b = a - b"
proof -
  have "a + 2 ^ 64 - b = (a - b) + 2 ^ 64"
    using assms(1) by simp
  then have "size_sub a b = (a - b) mod 2 ^ 64"
    unfolding size_sub_def by (simp only: mod_add_self2)
  moreover have "a - b < 2 ^ 64"
    using assms(2) by (rule less_imp_diff_less)
  ultimately show ?thesis by (simp only: mod_less)
qed

section \<open>Decimal numbers\<close>

text \<open>\<open>std::to_string\<close> and the stream insertion of an \<open>int\<close>.\<close>

fun nat_digits :: "nat \<Rightarrow> bytes" where
  "nat_digits n = (if n < 10 then [48 + of_nat n] else nat_digits (n div 10) @ [48 + of_nat (n mod 10)])"

declare nat_digits.simps [simp del]

definition int_digits :: "int \<Rightarrow> bytes" where
  "int_digits i = (if i < 0 then 45 # nat_digits (nat (- i)) else nat_digits (nat i))"

section \<open>Lists\<close>

lemma take_append_length [simp]: "take (length xs) (xs @ ys) = xs"
  by simp

lemma sorted_wrt_less_filter:
  "sorted_wrt (<) (map f xs) \<Longrightarrow> sorted_wrt (<) (map f (filter P xs))"
  by (induction xs) auto

lemma unat_u8_bound: "unat (x :: u8) < 256"
  using unsigned_less [of x, where ?'a = nat] by simp

lemma unat_u16_bound: "unat (x :: u16) < 65536"
  using unsigned_less [of x, where ?'a = nat] by simp

text \<open>The two bytes of a 16-bit value, most significant first, and back.\<close>

lemma unat_of_nat_u8: "n < 256 \<Longrightarrow> unat (of_nat n :: u8) = n"
  by (simp add: unat_of_nat)

lemma u16_split: "256 * (unat (x :: u16) div 256) + unat x mod 256 = unat x"
  by simp

lemma of_nat_unat_u16: "(of_nat (unat (x :: u16)) :: u16) = x"
  by simp

end
