(* ===== verification/OrderedMap.thy ===== *)
theory OrderedMap
  imports Prelude
begin

text \<open>
  \<open>util::Map\<close> is \<open>std::map\<close> (\<^verbatim>\<open>include/util/memory/stl/Map.hpp\<close>): a container ordered by key whose
  \<open>insert\<close> keeps the old entry when the key is present. The order matters to the SDK, because
  \<open>ClientState::GetSubscription\<close> and its siblings walk the map and stop at the first hit, so the
  model is the list of entries in key order. The locale \<open>std_map\<close> states the contract the rest of
  the development relies on; the list operations are shown to satisfy it.
\<close>

type_synonym ('k, 'v) std_map = "('k \<times> 'v) list"

definition map_wf :: "('k::linorder \<times> 'v) list \<Rightarrow> bool" where
  "map_wf m \<longleftrightarrow> sorted_wrt (<) (map fst m)"

definition map_find :: "('k \<times> 'v) list \<Rightarrow> 'k \<Rightarrow> 'v option" where
  "map_find m k = map_of m k"

fun map_insert :: "'k::linorder \<Rightarrow> 'v \<Rightarrow> ('k \<times> 'v) list \<Rightarrow> ('k \<times> 'v) list" where
  "map_insert k v [] = [(k, v)]"
| "map_insert k v ((k', v') # m) =
     (if k < k' then (k, v) # (k', v') # m
      else if k = k' then (k', v') # m
      else (k', v') # map_insert k v m)"

definition map_erase :: "'k \<Rightarrow> ('k \<times> 'v) list \<Rightarrow> ('k \<times> 'v) list" where
  "map_erase k m = filter (\<lambda>e. fst e \<noteq> k) m"

text \<open>Erasing through an iterator: the first entry that satisfies the test, in key order.\<close>

fun erase_first :: "('k \<times> 'v \<Rightarrow> bool) \<Rightarrow> ('k \<times> 'v) list \<Rightarrow> ('k \<times> 'v) list" where
  "erase_first P [] = []"
| "erase_first P (e # m) = (if P e then m else e # erase_first P m)"

locale std_map =
  fixes find :: "'m \<Rightarrow> 'k \<Rightarrow> 'v option"
    and ins :: "'k \<Rightarrow> 'v \<Rightarrow> 'm \<Rightarrow> 'm"
    and del :: "'k \<Rightarrow> 'm \<Rightarrow> 'm"
    and wf :: "'m \<Rightarrow> bool"
    and empty :: "'m"
  assumes find_empty: "find empty k = None"
    and wf_empty: "wf empty"
    and find_ins: "wf m \<Longrightarrow> find (ins k v m) k' = (if k' = k \<and> find m k = None then Some v else find m k')"
    and wf_ins: "wf m \<Longrightarrow> wf (ins k v m)"
    and find_del: "find (del k m) k' = (if k' = k then None else find m k')"
    and wf_del: "wf m \<Longrightarrow> wf (del k m)"
begin

lemma find_ins_same: "wf m \<Longrightarrow> find (ins k v m) k = Some (case find m k of None \<Rightarrow> v | Some x \<Rightarrow> x)"
  by (simp add: find_ins split: option.split)

lemma find_ins_other: "wf m \<Longrightarrow> k' \<noteq> k \<Longrightarrow> find (ins k v m) k' = find m k'"
  by (simp add: find_ins)

lemma ins_keeps_present: "wf m \<Longrightarrow> find m k = Some x \<Longrightarrow> find (ins k v m) = find m"
  by (rule ext) (simp add: find_ins)

lemma find_replace: "wf m \<Longrightarrow> find (ins k v (del k m)) = (find m)(k \<mapsto> v)"
  by (rule ext) (simp add: find_ins find_del wf_del)

lemma del_absent: "find m k = None \<Longrightarrow> find (del k m) = find m"
  by (rule ext) (simp add: find_del)

lemmas find_simps = find_empty find_ins find_del

end

lemma map_insert_keys: "fst ` set (map_insert k v m) = insert k (fst ` set m)"
  by (induction k v m rule: map_insert.induct) auto

lemma map_wf_Nil [simp]: "map_wf []"
  by (simp add: map_wf_def)

lemma map_wf_Cons: "map_wf (e # m) \<longleftrightarrow> (\<forall>k \<in> fst ` set m. fst e < k) \<and> map_wf m"
  by (auto simp: map_wf_def)

lemma map_wf_insert: "map_wf m \<Longrightarrow> map_wf (map_insert k v m)"
proof (induction k v m rule: map_insert.induct)
  case (1 k v)
  then show ?case by (simp add: map_wf_def)
next
  case (2 k v k' v' m)
  then show ?case
    by (auto simp: map_wf_Cons map_insert_keys)
qed

lemma map_wf_erase: "map_wf m \<Longrightarrow> map_wf (map_erase k m)"
  by (simp add: map_wf_def map_erase_def sorted_wrt_less_filter)

lemma map_find_erase: "map_find (map_erase k m) k' = (if k' = k then None else map_find m k')"
  by (induction m) (auto simp: map_find_def map_erase_def)

lemma map_find_None_below: "map_wf ((k', v') # m) \<Longrightarrow> k < k' \<Longrightarrow> map_find ((k', v') # m) k = None"
  by (fastforce simp: map_find_def map_wf_Cons map_of_eq_None_iff)

lemma map_find_insert:
  "map_wf m \<Longrightarrow>
   map_find (map_insert k v m) k'' = (if k'' = k \<and> map_find m k = None then Some v else map_find m k'')"
proof (induction k v m rule: map_insert.induct)
  case (1 k v)
  then show ?case by (simp add: map_find_def)
next
  case (2 k v k' v' m)
  show ?case
  proof (cases "k < k'")
    case True
    have "map_find ((k', v') # m) k = None"
      using "2.prems" True by (rule map_find_None_below)
    with True show ?thesis by (simp add: map_find_def)
  next
    case False
    have "map_wf m" using "2.prems" by (simp add: map_wf_Cons)
    with False "2.IH" show ?thesis by (auto simp: map_find_def)
  qed
qed

interpretation smap: std_map map_find map_insert map_erase map_wf "[]"
  by unfold_locales
    (simp_all add: map_find_insert map_find_erase map_wf_insert map_wf_erase, simp add: map_find_def)

lemma map_wf_erase_first: "map_wf m \<Longrightarrow> map_wf (erase_first P m)"
proof (induction m)
  case (Cons e m)
  have "set (erase_first P m) \<subseteq> set m" for m
    by (induction m) auto
  with Cons show ?case by (auto simp: map_wf_Cons)
qed simp

lemma map_wf_filter: "map_wf m \<Longrightarrow> map_wf (filter P m)"
  by (simp add: map_wf_def sorted_wrt_less_filter)

lemma map_wf_map_snd: "map_wf m \<Longrightarrow> map_wf (map (\<lambda>(k, v). (k, f k v)) m)"
  by (induction m) (auto simp: map_wf_Cons)

lemma map_find_in_set: "map_find m k = Some v \<Longrightarrow> (k, v) \<in> set m"
  by (simp add: map_find_def map_of_SomeD)

lemma map_find_Some_iff: "map_wf m \<Longrightarrow> map_find m k = Some v \<longleftrightarrow> (k, v) \<in> set m"
proof -
  assume "map_wf m"
  then have "distinct (map fst m)"
    by (simp add: map_wf_def strict_sorted_iff)
  then show ?thesis by (simp add: map_find_def)
qed

lemma set_map_erase: "set (map_erase k m) = {e \<in> set m. fst e \<noteq> k}"
  by (auto simp: map_erase_def)

lemma set_map_insert_subset: "set (map_insert k v m) \<subseteq> insert (k, v) (set m)"
  by (induction k v m rule: map_insert.induct) auto

lemma erase_inserted: "map_wf m \<Longrightarrow> map_find m k = None \<Longrightarrow> map_erase k (map_insert k v m) = m"
proof (induction k v m rule: map_insert.induct)
  case (1 k v)
  then show ?case by (simp add: map_erase_def)
next
  case (2 k v k' v' m)
  have absent: "map_erase k m = m" if "k \<notin> fst ` set m" for m :: "('a \<times> 'b) list"
    using that by (induction m) (auto simp: map_erase_def)
  have new: "k \<noteq> k'" and none: "map_find m k = None"
    using "2.prems"(2) by (auto simp: map_find_def split: if_splits)
  then have "k \<notin> fst ` set m"
    by (simp add: map_find_def map_of_eq_None_iff)
  with 2 new none show ?case
    using absent [of m] by (auto simp: map_erase_def map_wf_Cons)
qed

end
