(* ===== verification/ResponseCodes.thy ===== *)
theory ResponseCodes
  imports Prelude
begin

text \<open>
  \<open>ResponseCode\<close> (\<^verbatim>\<open>include/ResponseCode.hpp\<close>) and its rendering as text
  (\<^verbatim>\<open>src/ResponseCode.cpp\<close>). The enumeration has a fixed underlying type \<open>int\<close>, so a value of it is
  an integer, wrapped in a constructor; each enumerator is an abbreviation for its value. (A
  datatype with 106 constructors would say the same and cost minutes of checking.) The \<open>switch\<close> of
  the stream insertion is a table per section of the enumeration.
\<close>

datatype ResponseCode = RC (rc_value: int)

section \<open>The enumerators\<close>

abbreviation DISCOVER_ACTION_NO_INFORMATION_PRESENT :: ResponseCode where "DISCOVER_ACTION_NO_INFORMATION_PRESENT \<equiv> RC 401"
abbreviation DISCOVER_ACTION_SUCCESS :: ResponseCode where "DISCOVER_ACTION_SUCCESS \<equiv> RC 400"
abbreviation SHADOW_RECEIVED_DELTA :: ResponseCode where "SHADOW_RECEIVED_DELTA \<equiv> RC 301"
abbreviation SHADOW_REQUEST_ACCEPTED :: ResponseCode where "SHADOW_REQUEST_ACCEPTED \<equiv> RC 300"
abbreviation NETWORK_PHYSICAL_LAYER_CONNECTED :: ResponseCode where "NETWORK_PHYSICAL_LAYER_CONNECTED \<equiv> RC 203"
abbreviation NETWORK_MANUALLY_DISCONNECTED :: ResponseCode where "NETWORK_MANUALLY_DISCONNECTED \<equiv> RC 202"
abbreviation NETWORK_ATTEMPTING_RECONNECT :: ResponseCode where "NETWORK_ATTEMPTING_RECONNECT \<equiv> RC 201"
abbreviation NETWORK_RECONNECTED :: ResponseCode where "NETWORK_RECONNECTED \<equiv> RC 200"
abbreviation MQTT_NOTHING_TO_READ :: ResponseCode where "MQTT_NOTHING_TO_READ \<equiv> RC 101"
abbreviation MQTT_CONNACK_CONNECTION_ACCEPTED :: ResponseCode where "MQTT_CONNACK_CONNECTION_ACCEPTED \<equiv> RC 100"
abbreviation SUCCESS :: ResponseCode where "SUCCESS \<equiv> RC 0"
abbreviation FAILURE :: ResponseCode where "FAILURE \<equiv> RC (- 1)"
abbreviation NULL_VALUE_ERROR :: ResponseCode where "NULL_VALUE_ERROR \<equiv> RC (- 2)"
abbreviation FILE_OPEN_ERROR :: ResponseCode where "FILE_OPEN_ERROR \<equiv> RC (- 100)"
abbreviation FILE_NAME_INVALID :: ResponseCode where "FILE_NAME_INVALID \<equiv> RC (- 101)"
abbreviation MUTEX_INIT_ERROR :: ResponseCode where "MUTEX_INIT_ERROR \<equiv> RC (- 200)"
abbreviation MUTEX_LOCK_ERROR :: ResponseCode where "MUTEX_LOCK_ERROR \<equiv> RC (- 201)"
abbreviation MUTEX_UNLOCK_ERROR :: ResponseCode where "MUTEX_UNLOCK_ERROR \<equiv> RC (- 202)"
abbreviation MUTEX_DESTROY_ERROR :: ResponseCode where "MUTEX_DESTROY_ERROR \<equiv> RC (- 203)"
abbreviation THREAD_EXITING :: ResponseCode where "THREAD_EXITING \<equiv> RC (- 204)"
abbreviation NETWORK_TCP_CONNECT_ERROR :: ResponseCode where "NETWORK_TCP_CONNECT_ERROR \<equiv> RC (- 300)"
abbreviation NETWORK_TCP_SETUP_ERROR :: ResponseCode where "NETWORK_TCP_SETUP_ERROR \<equiv> RC (- 301)"
abbreviation NETWORK_TCP_UNKNOWN_HOST :: ResponseCode where "NETWORK_TCP_UNKNOWN_HOST \<equiv> RC (- 302)"
abbreviation NETWORK_TCP_NO_ENDPOINT_SPECIFIED :: ResponseCode where "NETWORK_TCP_NO_ENDPOINT_SPECIFIED \<equiv> RC (- 303)"
abbreviation NETWORK_SSL_INIT_ERROR :: ResponseCode where "NETWORK_SSL_INIT_ERROR \<equiv> RC (- 400)"
abbreviation NETWORK_SSL_ROOT_CRT_PARSE_ERROR :: ResponseCode where "NETWORK_SSL_ROOT_CRT_PARSE_ERROR \<equiv> RC (- 401)"
abbreviation NETWORK_SSL_DEVICE_CRT_PARSE_ERROR :: ResponseCode where "NETWORK_SSL_DEVICE_CRT_PARSE_ERROR \<equiv> RC (- 402)"
abbreviation NETWORK_SSL_KEY_PARSE_ERROR :: ResponseCode where "NETWORK_SSL_KEY_PARSE_ERROR \<equiv> RC (- 403)"
abbreviation NETWORK_SSL_TLS_HANDSHAKE_ERROR :: ResponseCode where "NETWORK_SSL_TLS_HANDSHAKE_ERROR \<equiv> RC (- 404)"
abbreviation NETWORK_SSL_CONNECT_ERROR :: ResponseCode where "NETWORK_SSL_CONNECT_ERROR \<equiv> RC (- 405)"
abbreviation NETWORK_SSL_CONNECT_TIMEOUT_ERROR :: ResponseCode where "NETWORK_SSL_CONNECT_TIMEOUT_ERROR \<equiv> RC (- 406)"
abbreviation NETWORK_SSL_CONNECTION_CLOSED_ERROR :: ResponseCode where "NETWORK_SSL_CONNECTION_CLOSED_ERROR \<equiv> RC (- 407)"
abbreviation NETWORK_SSL_WRITE_ERROR :: ResponseCode where "NETWORK_SSL_WRITE_ERROR \<equiv> RC (- 408)"
abbreviation NETWORK_SSL_WRITE_TIMEOUT_ERROR :: ResponseCode where "NETWORK_SSL_WRITE_TIMEOUT_ERROR \<equiv> RC (- 409)"
abbreviation NETWORK_SSL_READ_ERROR :: ResponseCode where "NETWORK_SSL_READ_ERROR \<equiv> RC (- 410)"
abbreviation NETWORK_SSL_READ_TIMEOUT_ERROR :: ResponseCode where "NETWORK_SSL_READ_TIMEOUT_ERROR \<equiv> RC (- 411)"
abbreviation NETWORK_SSL_NOTHING_TO_READ :: ResponseCode where "NETWORK_SSL_NOTHING_TO_READ \<equiv> RC (- 412)"
abbreviation NETWORK_SSL_UNKNOWN_ERROR :: ResponseCode where "NETWORK_SSL_UNKNOWN_ERROR \<equiv> RC (- 413)"
abbreviation NETWORK_SSL_SERVER_VERIFICATION_ERROR :: ResponseCode where "NETWORK_SSL_SERVER_VERIFICATION_ERROR \<equiv> RC (- 414)"
abbreviation NETWORK_DISCONNECTED_ERROR :: ResponseCode where "NETWORK_DISCONNECTED_ERROR \<equiv> RC (- 500)"
abbreviation NETWORK_RECONNECT_TIMED_OUT_ERROR :: ResponseCode where "NETWORK_RECONNECT_TIMED_OUT_ERROR \<equiv> RC (- 501)"
abbreviation NETWORK_ALREADY_CONNECTED_ERROR :: ResponseCode where "NETWORK_ALREADY_CONNECTED_ERROR \<equiv> RC (- 502)"
abbreviation NETWORK_PHYSICAL_LAYER_DISCONNECTED :: ResponseCode where "NETWORK_PHYSICAL_LAYER_DISCONNECTED \<equiv> RC (- 503)"
abbreviation NETWORK_NOTHING_TO_WRITE_ERROR :: ResponseCode where "NETWORK_NOTHING_TO_WRITE_ERROR \<equiv> RC (- 504)"
abbreviation ACTION_NOT_REGISTERED_ERROR :: ResponseCode where "ACTION_NOT_REGISTERED_ERROR \<equiv> RC (- 601)"
abbreviation ACTION_QUEUE_FULL :: ResponseCode where "ACTION_QUEUE_FULL \<equiv> RC (- 602)"
abbreviation ACTION_CREATE_FAILED :: ResponseCode where "ACTION_CREATE_FAILED \<equiv> RC (- 603)"
abbreviation MQTT_CONNECTION_ERROR :: ResponseCode where "MQTT_CONNECTION_ERROR \<equiv> RC (- 701)"
abbreviation MQTT_CONNECT_TIMEOUT_ERROR :: ResponseCode where "MQTT_CONNECT_TIMEOUT_ERROR \<equiv> RC (- 702)"
abbreviation MQTT_REQUEST_TIMEOUT_ERROR :: ResponseCode where "MQTT_REQUEST_TIMEOUT_ERROR \<equiv> RC (- 703)"
abbreviation MQTT_UNEXPECTED_CLIENT_STATE_ERROR :: ResponseCode where "MQTT_UNEXPECTED_CLIENT_STATE_ERROR \<equiv> RC (- 704)"
abbreviation MQTT_CLIENT_NOT_IDLE_ERROR :: ResponseCode where "MQTT_CLIENT_NOT_IDLE_ERROR \<equiv> RC (- 705)"
abbreviation MQTT_RX_MESSAGE_PACKET_TYPE_INVALID_ERROR :: ResponseCode where "MQTT_RX_MESSAGE_PACKET_TYPE_INVALID_ERROR \<equiv> RC (- 706)"
abbreviation MQTT_MAX_SUBSCRIPTIONS_REACHED_ERROR :: ResponseCode where "MQTT_MAX_SUBSCRIPTIONS_REACHED_ERROR \<equiv> RC (- 707)"
abbreviation MQTT_DECODE_REMAINING_LENGTH_ERROR :: ResponseCode where "MQTT_DECODE_REMAINING_LENGTH_ERROR \<equiv> RC (- 708)"
abbreviation MQTT_CONNACK_UNKNOWN_ERROR :: ResponseCode where "MQTT_CONNACK_UNKNOWN_ERROR \<equiv> RC (- 709)"
abbreviation MQTT_CONNACK_UNACCEPTABLE_PROTOCOL_VERSION_ERROR :: ResponseCode where "MQTT_CONNACK_UNACCEPTABLE_PROTOCOL_VERSION_ERROR \<equiv> RC (- 710)"
abbreviation MQTT_CONNACK_IDENTIFIER_REJECTED_ERROR :: ResponseCode where "MQTT_CONNACK_IDENTIFIER_REJECTED_ERROR \<equiv> RC (- 711)"
abbreviation MQTT_CONNACK_SERVER_UNAVAILABLE_ERROR :: ResponseCode where "MQTT_CONNACK_SERVER_UNAVAILABLE_ERROR \<equiv> RC (- 712)"
abbreviation MQTT_CONNACK_BAD_USERDATA_ERROR :: ResponseCode where "MQTT_CONNACK_BAD_USERDATA_ERROR \<equiv> RC (- 713)"
abbreviation MQTT_CONNACK_NOT_AUTHORIZED_ERROR :: ResponseCode where "MQTT_CONNACK_NOT_AUTHORIZED_ERROR \<equiv> RC (- 714)"
abbreviation MQTT_NO_SUBSCRIPTION_FOUND :: ResponseCode where "MQTT_NO_SUBSCRIPTION_FOUND \<equiv> RC (- 715)"
abbreviation MQTT_SUBSCRIPTION_NOT_ACTIVE :: ResponseCode where "MQTT_SUBSCRIPTION_NOT_ACTIVE \<equiv> RC (- 716)"
abbreviation MQTT_UNEXPECTED_PACKET_FORMAT_ERROR :: ResponseCode where "MQTT_UNEXPECTED_PACKET_FORMAT_ERROR \<equiv> RC (- 717)"
abbreviation MQTT_TOO_MANY_SUBSCRIPTIONS_IN_REQUEST :: ResponseCode where "MQTT_TOO_MANY_SUBSCRIPTIONS_IN_REQUEST \<equiv> RC (- 718)"
abbreviation MQTT_INVALID_DATA_ERROR :: ResponseCode where "MQTT_INVALID_DATA_ERROR \<equiv> RC (- 719)"
abbreviation MQTT_SUBSCRIBE_PARTIALLY_FAILED :: ResponseCode where "MQTT_SUBSCRIBE_PARTIALLY_FAILED \<equiv> RC (- 720)"
abbreviation MQTT_SUBSCRIBE_FAILED :: ResponseCode where "MQTT_SUBSCRIBE_FAILED \<equiv> RC (- 721)"
abbreviation JSON_PARSE_KEY_NOT_FOUND_ERROR :: ResponseCode where "JSON_PARSE_KEY_NOT_FOUND_ERROR \<equiv> RC (- 800)"
abbreviation JSON_PARSE_KEY_UNEXPECTED_TYPE_ERROR :: ResponseCode where "JSON_PARSE_KEY_UNEXPECTED_TYPE_ERROR \<equiv> RC (- 801)"
abbreviation JSON_PARSING_ERROR :: ResponseCode where "JSON_PARSING_ERROR \<equiv> RC (- 802)"
abbreviation JSON_MERGE_FAILED :: ResponseCode where "JSON_MERGE_FAILED \<equiv> RC (- 803)"
abbreviation JSON_DIFF_FAILED :: ResponseCode where "JSON_DIFF_FAILED \<equiv> RC (- 804)"
abbreviation SHADOW_WAIT_FOR_PUBLISH :: ResponseCode where "SHADOW_WAIT_FOR_PUBLISH \<equiv> RC (- 900)"
abbreviation SHADOW_JSON_BUFFER_TRUNCATED :: ResponseCode where "SHADOW_JSON_BUFFER_TRUNCATED \<equiv> RC (- 901)"
abbreviation SHADOW_JSON_ERROR :: ResponseCode where "SHADOW_JSON_ERROR \<equiv> RC (- 902)"
abbreviation SHADOW_JSON_EMPTY_ERROR :: ResponseCode where "SHADOW_JSON_EMPTY_ERROR \<equiv> RC (- 903)"
abbreviation SHADOW_REQUEST_MAP_EMPTY :: ResponseCode where "SHADOW_REQUEST_MAP_EMPTY \<equiv> RC (- 904)"
abbreviation SHADOW_MQTT_DISCONNECTED_ERROR :: ResponseCode where "SHADOW_MQTT_DISCONNECTED_ERROR \<equiv> RC (- 905)"
abbreviation SHADOW_UNEXPECTED_RESPONSE_TYPE :: ResponseCode where "SHADOW_UNEXPECTED_RESPONSE_TYPE \<equiv> RC (- 906)"
abbreviation SHADOW_UNEXPECTED_RESPONSE_TOPIC :: ResponseCode where "SHADOW_UNEXPECTED_RESPONSE_TOPIC \<equiv> RC (- 907)"
abbreviation SHADOW_REQUEST_REJECTED :: ResponseCode where "SHADOW_REQUEST_REJECTED \<equiv> RC (- 908)"
abbreviation SHADOW_MQTT_CLIENT_NOT_SET_ERROR :: ResponseCode where "SHADOW_MQTT_CLIENT_NOT_SET_ERROR \<equiv> RC (- 909)"
abbreviation SHADOW_NOTHING_TO_UPDATE :: ResponseCode where "SHADOW_NOTHING_TO_UPDATE \<equiv> RC (- 910)"
abbreviation SHADOW_UNEXPECTED_RESPONSE_PAYLOAD :: ResponseCode where "SHADOW_UNEXPECTED_RESPONSE_PAYLOAD \<equiv> RC (- 911)"
abbreviation SHADOW_RECEIVED_OLD_VERSION_UPDATE :: ResponseCode where "SHADOW_RECEIVED_OLD_VERSION_UPDATE \<equiv> RC (- 912)"
abbreviation WEBSOCKET_SIGN_URL_NO_MEM :: ResponseCode where "WEBSOCKET_SIGN_URL_NO_MEM \<equiv> RC (- 1000)"
abbreviation WEBSOCKET_GEN_CLIENT_KEY_ERROR :: ResponseCode where "WEBSOCKET_GEN_CLIENT_KEY_ERROR \<equiv> RC (- 1001)"
abbreviation WEBSOCKET_HANDSHAKE_ERROR :: ResponseCode where "WEBSOCKET_HANDSHAKE_ERROR \<equiv> RC (- 1002)"
abbreviation WEBSOCKET_HANDSHAKE_WRITE :: ResponseCode where "WEBSOCKET_HANDSHAKE_WRITE \<equiv> RC (- 1003)"
abbreviation WEBSOCKET_HANDSHAKE_READ :: ResponseCode where "WEBSOCKET_HANDSHAKE_READ \<equiv> RC (- 1004)"
abbreviation WEBSOCKET_HANDSHAKE_VERIFY_ERROR :: ResponseCode where "WEBSOCKET_HANDSHAKE_VERIFY_ERROR \<equiv> RC (- 1005)"
abbreviation WEBSOCKET_WSLAY_CONTEXT_INIT_ERROR :: ResponseCode where "WEBSOCKET_WSLAY_CONTEXT_INIT_ERROR \<equiv> RC (- 1006)"
abbreviation WEBSOCKET_FRAME_RECEIVE_ERROR :: ResponseCode where "WEBSOCKET_FRAME_RECEIVE_ERROR \<equiv> RC (- 1007)"
abbreviation WEBSOCKET_FRAME_TRANSMIT_ERROR :: ResponseCode where "WEBSOCKET_FRAME_TRANSMIT_ERROR \<equiv> RC (- 1008)"
abbreviation WEBSOCKET_PROTOCOL_VIOLATION :: ResponseCode where "WEBSOCKET_PROTOCOL_VIOLATION \<equiv> RC (- 1009)"
abbreviation WEBSOCKET_MAX_LIFETIME_REACHED :: ResponseCode where "WEBSOCKET_MAX_LIFETIME_REACHED \<equiv> RC (- 1010)"
abbreviation WEBSOCKET_DISCONNECT_ERROR :: ResponseCode where "WEBSOCKET_DISCONNECT_ERROR \<equiv> RC (- 1011)"
abbreviation WEBSOCKET_GET_UTC_TIME_FAILED :: ResponseCode where "WEBSOCKET_GET_UTC_TIME_FAILED \<equiv> RC (- 1012)"
abbreviation DISCOVER_ACTION_REQUEST_FAILED_ERROR :: ResponseCode where "DISCOVER_ACTION_REQUEST_FAILED_ERROR \<equiv> RC (- 1100)"
abbreviation DISCOVER_ACTION_REQUEST_TIMED_OUT_ERROR :: ResponseCode where "DISCOVER_ACTION_REQUEST_TIMED_OUT_ERROR \<equiv> RC (- 1101)"
abbreviation DISCOVER_ACTION_UNAUTHORIZED :: ResponseCode where "DISCOVER_ACTION_UNAUTHORIZED \<equiv> RC (- 1102)"
abbreviation DISCOVER_ACTION_SERVER_ERROR :: ResponseCode where "DISCOVER_ACTION_SERVER_ERROR \<equiv> RC (- 1103)"
abbreviation DISCOVER_ACTION_REQUEST_OVERLOAD :: ResponseCode where "DISCOVER_ACTION_REQUEST_OVERLOAD \<equiv> RC (- 1104)"
abbreviation DISCOVER_RESPONSE_UNEXPECTED_JSON_STRUCTURE_ERROR :: ResponseCode where "DISCOVER_RESPONSE_UNEXPECTED_JSON_STRUCTURE_ERROR \<equiv> RC (- 1200)"
abbreviation JOBS_INVALID_TOPIC_ERROR :: ResponseCode where "JOBS_INVALID_TOPIC_ERROR \<equiv> RC (- 1300)"

text \<open>All enumerators, in the order of the header.\<close>

definition response_codes :: "ResponseCode list" where
  "response_codes =
    [DISCOVER_ACTION_NO_INFORMATION_PRESENT,
     DISCOVER_ACTION_SUCCESS,
     SHADOW_RECEIVED_DELTA,
     SHADOW_REQUEST_ACCEPTED,
     NETWORK_PHYSICAL_LAYER_CONNECTED,
     NETWORK_MANUALLY_DISCONNECTED,
     NETWORK_ATTEMPTING_RECONNECT,
     NETWORK_RECONNECTED,
     MQTT_NOTHING_TO_READ,
     MQTT_CONNACK_CONNECTION_ACCEPTED,
     SUCCESS,
     FAILURE,
     NULL_VALUE_ERROR,
     FILE_OPEN_ERROR,
     FILE_NAME_INVALID,
     MUTEX_INIT_ERROR,
     MUTEX_LOCK_ERROR,
     MUTEX_UNLOCK_ERROR,
     MUTEX_DESTROY_ERROR,
     THREAD_EXITING,
     NETWORK_TCP_CONNECT_ERROR,
     NETWORK_TCP_SETUP_ERROR,
     NETWORK_TCP_UNKNOWN_HOST,
     NETWORK_TCP_NO_ENDPOINT_SPECIFIED,
     NETWORK_SSL_INIT_ERROR,
     NETWORK_SSL_ROOT_CRT_PARSE_ERROR,
     NETWORK_SSL_DEVICE_CRT_PARSE_ERROR,
     NETWORK_SSL_KEY_PARSE_ERROR,
     NETWORK_SSL_TLS_HANDSHAKE_ERROR,
     NETWORK_SSL_CONNECT_ERROR,
     NETWORK_SSL_CONNECT_TIMEOUT_ERROR,
     NETWORK_SSL_CONNECTION_CLOSED_ERROR,
     NETWORK_SSL_WRITE_ERROR,
     NETWORK_SSL_WRITE_TIMEOUT_ERROR,
     NETWORK_SSL_READ_ERROR,
     NETWORK_SSL_READ_TIMEOUT_ERROR,
     NETWORK_SSL_NOTHING_TO_READ,
     NETWORK_SSL_UNKNOWN_ERROR,
     NETWORK_SSL_SERVER_VERIFICATION_ERROR,
     NETWORK_DISCONNECTED_ERROR,
     NETWORK_RECONNECT_TIMED_OUT_ERROR,
     NETWORK_ALREADY_CONNECTED_ERROR,
     NETWORK_PHYSICAL_LAYER_DISCONNECTED,
     NETWORK_NOTHING_TO_WRITE_ERROR,
     ACTION_NOT_REGISTERED_ERROR,
     ACTION_QUEUE_FULL,
     ACTION_CREATE_FAILED,
     MQTT_CONNECTION_ERROR,
     MQTT_CONNECT_TIMEOUT_ERROR,
     MQTT_REQUEST_TIMEOUT_ERROR,
     MQTT_UNEXPECTED_CLIENT_STATE_ERROR,
     MQTT_CLIENT_NOT_IDLE_ERROR,
     MQTT_RX_MESSAGE_PACKET_TYPE_INVALID_ERROR,
     MQTT_MAX_SUBSCRIPTIONS_REACHED_ERROR,
     MQTT_DECODE_REMAINING_LENGTH_ERROR,
     MQTT_CONNACK_UNKNOWN_ERROR,
     MQTT_CONNACK_UNACCEPTABLE_PROTOCOL_VERSION_ERROR,
     MQTT_CONNACK_IDENTIFIER_REJECTED_ERROR,
     MQTT_CONNACK_SERVER_UNAVAILABLE_ERROR,
     MQTT_CONNACK_BAD_USERDATA_ERROR,
     MQTT_CONNACK_NOT_AUTHORIZED_ERROR,
     MQTT_NO_SUBSCRIPTION_FOUND,
     MQTT_SUBSCRIPTION_NOT_ACTIVE,
     MQTT_UNEXPECTED_PACKET_FORMAT_ERROR,
     MQTT_TOO_MANY_SUBSCRIPTIONS_IN_REQUEST,
     MQTT_INVALID_DATA_ERROR,
     MQTT_SUBSCRIBE_PARTIALLY_FAILED,
     MQTT_SUBSCRIBE_FAILED,
     JSON_PARSE_KEY_NOT_FOUND_ERROR,
     JSON_PARSE_KEY_UNEXPECTED_TYPE_ERROR,
     JSON_PARSING_ERROR,
     JSON_MERGE_FAILED,
     JSON_DIFF_FAILED,
     SHADOW_WAIT_FOR_PUBLISH,
     SHADOW_JSON_BUFFER_TRUNCATED,
     SHADOW_JSON_ERROR,
     SHADOW_JSON_EMPTY_ERROR,
     SHADOW_REQUEST_MAP_EMPTY,
     SHADOW_MQTT_DISCONNECTED_ERROR,
     SHADOW_UNEXPECTED_RESPONSE_TYPE,
     SHADOW_UNEXPECTED_RESPONSE_TOPIC,
     SHADOW_REQUEST_REJECTED,
     SHADOW_MQTT_CLIENT_NOT_SET_ERROR,
     SHADOW_NOTHING_TO_UPDATE,
     SHADOW_UNEXPECTED_RESPONSE_PAYLOAD,
     SHADOW_RECEIVED_OLD_VERSION_UPDATE,
     WEBSOCKET_SIGN_URL_NO_MEM,
     WEBSOCKET_GEN_CLIENT_KEY_ERROR,
     WEBSOCKET_HANDSHAKE_ERROR,
     WEBSOCKET_HANDSHAKE_WRITE,
     WEBSOCKET_HANDSHAKE_READ,
     WEBSOCKET_HANDSHAKE_VERIFY_ERROR,
     WEBSOCKET_WSLAY_CONTEXT_INIT_ERROR,
     WEBSOCKET_FRAME_RECEIVE_ERROR,
     WEBSOCKET_FRAME_TRANSMIT_ERROR,
     WEBSOCKET_PROTOCOL_VIOLATION,
     WEBSOCKET_MAX_LIFETIME_REACHED,
     WEBSOCKET_DISCONNECT_ERROR,
     WEBSOCKET_GET_UTC_TIME_FAILED,
     DISCOVER_ACTION_REQUEST_FAILED_ERROR,
     DISCOVER_ACTION_REQUEST_TIMED_OUT_ERROR,
     DISCOVER_ACTION_UNAUTHORIZED,
     DISCOVER_ACTION_SERVER_ERROR,
     DISCOVER_ACTION_REQUEST_OVERLOAD,
     DISCOVER_RESPONSE_UNEXPECTED_JSON_STRUCTURE_ERROR,
     JOBS_INVALID_TOPIC_ERROR]"

section \<open>Messages\<close>

definition general_messages :: "(ResponseCode \<times> string) list" where
  "general_messages =
    [(DISCOVER_ACTION_NO_INFORMATION_PRESENT, ''No information found for device''),
     (DISCOVER_ACTION_SUCCESS, ''Discover action successful''),
     (SHADOW_RECEIVED_DELTA, ''Received the shadow delta''),
     (SHADOW_REQUEST_ACCEPTED, ''Shadow request accepted''),
     (NETWORK_PHYSICAL_LAYER_CONNECTED, ''Physical network layer connected''),
     (NETWORK_MANUALLY_DISCONNECTED, ''Network manually disconnected''),
     (NETWORK_ATTEMPTING_RECONNECT, ''Attempting to reconnect to the network''),
     (NETWORK_RECONNECTED, ''Network reconnected''),
     (MQTT_NOTHING_TO_READ, ''No MQTT packets received''),
     (MQTT_CONNACK_CONNECTION_ACCEPTED, ''Successfully connected to MQTT server''),
     (SUCCESS, ''Success''),
     (FAILURE, ''Failure''),
     (NULL_VALUE_ERROR, ''One or more parameters were null''),
     (FILE_OPEN_ERROR, ''Error occurred while trying to open the file''),
     (FILE_NAME_INVALID, ''File name provided is invalid or of zero length''),
     (MUTEX_INIT_ERROR, ''Error occurred while initializing the mutex''),
     (MUTEX_LOCK_ERROR, ''Error occurred while locking the mutex''),
     (MUTEX_UNLOCK_ERROR, ''Error occurred while unlocking the mutex''),
     (MUTEX_DESTROY_ERROR, ''Error occurred while destroying the mutex''),
     (THREAD_EXITING, ''Thread is exiting'')]"

definition network_messages :: "(ResponseCode \<times> string) list" where
  "network_messages =
    [(NETWORK_TCP_CONNECT_ERROR, ''TCP Error occurred while opening a socket''),
     (NETWORK_TCP_SETUP_ERROR, ''Error occurred while setting up the TCP socket''),
     (NETWORK_TCP_UNKNOWN_HOST, ''Unable to find host specified''),
     (NETWORK_TCP_NO_ENDPOINT_SPECIFIED, ''No endpoint specified''),
     (NETWORK_SSL_INIT_ERROR, ''Error occurred while initializing SSL''),
     (NETWORK_SSL_ROOT_CRT_PARSE_ERROR, ''Error occurred while parsing the root CRT''),
     (NETWORK_SSL_DEVICE_CRT_PARSE_ERROR, ''Error occurred while parsing the device CRT''),
     (NETWORK_SSL_KEY_PARSE_ERROR, ''Error occurred while parsing the private key''),
     (NETWORK_SSL_TLS_HANDSHAKE_ERROR, ''Error occurred while performing the TLS handshake''),
     (NETWORK_SSL_CONNECT_ERROR, ''Error occurred during the connect attempt''),
     (NETWORK_SSL_CONNECT_TIMEOUT_ERROR, ''The connect attempt timed out''),
     (NETWORK_SSL_CONNECTION_CLOSED_ERROR, ''The SSL connection was closed''),
     (NETWORK_SSL_WRITE_ERROR, ''Error occurred during the SSL write operation''),
     (NETWORK_SSL_WRITE_TIMEOUT_ERROR, ''The SSL write operation timed out''),
     (NETWORK_SSL_READ_ERROR, ''Error occurred during the SSL read operation''),
     (NETWORK_SSL_READ_TIMEOUT_ERROR, ''The SSL read operation timed out''),
     (NETWORK_SSL_NOTHING_TO_READ, ''No SSL packets received''),
     (NETWORK_SSL_UNKNOWN_ERROR, ''Unknown error occurred during an SSL operation''),
     (NETWORK_SSL_SERVER_VERIFICATION_ERROR, ''Unable to verify server name''),
     (NETWORK_DISCONNECTED_ERROR, ''Network is disconnected''),
     (NETWORK_RECONNECT_TIMED_OUT_ERROR, ''Reconnect operation time out''),
     (NETWORK_ALREADY_CONNECTED_ERROR, ''Network is already connected''),
     (NETWORK_PHYSICAL_LAYER_DISCONNECTED, ''Physical network layer is disconnected''),
     (NETWORK_NOTHING_TO_WRITE_ERROR, ''No packets to write to the network''),
     (ACTION_NOT_REGISTERED_ERROR, ''The action attempted is not registered with the client''),
     (ACTION_QUEUE_FULL, ''The client action queue is full''),
     (ACTION_CREATE_FAILED, ''The client was unable to create the action'')]"

definition mqtt_messages :: "(ResponseCode \<times> string) list" where
  "mqtt_messages =
    [(MQTT_CONNECTION_ERROR, ''Unable to establish the MQTT connection''),
     (MQTT_CONNECT_TIMEOUT_ERROR, ''The MQTT connect operation timed out''),
     (MQTT_REQUEST_TIMEOUT_ERROR, ''The MQTT request timed out''),
     (MQTT_UNEXPECTED_CLIENT_STATE_ERROR, ''The MQTT client is in an unexpected state''),
     (MQTT_CLIENT_NOT_IDLE_ERROR, ''The MQTT client is not idle''),
     (MQTT_RX_MESSAGE_PACKET_TYPE_INVALID_ERROR, ''The MQTT message is of an invalid type''),
     (MQTT_MAX_SUBSCRIPTIONS_REACHED_ERROR, ''Reached maximum MQTT subscriptions''),
     (MQTT_DECODE_REMAINING_LENGTH_ERROR, ''Error occurred while decoding the remaining length of the MQTT message''),
     (MQTT_CONNACK_UNKNOWN_ERROR, ''MQTT connect request failed with server returning an unknown error''),
     (MQTT_CONNACK_UNACCEPTABLE_PROTOCOL_VERSION_ERROR, ''MQTT connect request failed with server returning an unacceptable protocol error''),
     (MQTT_CONNACK_IDENTIFIER_REJECTED_ERROR, ''MQTT connect request failed with server returning an identifier rejected error''),
     (MQTT_CONNACK_SERVER_UNAVAILABLE_ERROR, ''MQTT connect request failed with server returning an unavailable error''),
     (MQTT_CONNACK_BAD_USERDATA_ERROR, ''MQTT connect request failed with server returning a bad userdata error''),
     (MQTT_CONNACK_NOT_AUTHORIZED_ERROR, ''MQTT connect request failed with server returning a  not authorized error''),
     (MQTT_NO_SUBSCRIPTION_FOUND, ''No MQTT subscriptions were found for the requested topic''),
     (MQTT_SUBSCRIPTION_NOT_ACTIVE, ''The MQTT subscription specified is not active''),
     (MQTT_UNEXPECTED_PACKET_FORMAT_ERROR, ''Unable to serialize the MQTT packet as the format is unexpected''),
     (MQTT_TOO_MANY_SUBSCRIPTIONS_IN_REQUEST, ''Too many subscriptions were provided in the MQTT subscribe/unsubscribe request''),
     (MQTT_INVALID_DATA_ERROR, ''Invalid/Insufficient data was provided in the MQTT request''),
     (MQTT_SUBSCRIBE_PARTIALLY_FAILED, ''Failed to subscribe to atleast one of the topics in the subscribe request''),
     (MQTT_SUBSCRIBE_FAILED, ''Failed to subscribe to any of the topics in the subscribe request''),
     (JSON_PARSE_KEY_NOT_FOUND_ERROR, ''Unable to find the requested key in the JSON''),
     (JSON_PARSE_KEY_UNEXPECTED_TYPE_ERROR, ''The value for the JSON key was of an unexpected type''),
     (JSON_PARSING_ERROR, ''Error occurred while parsing the JSON''),
     (JSON_MERGE_FAILED, ''Failed to merge the JSON''),
     (JSON_DIFF_FAILED, ''Failed to diff the JSON'')]"

definition service_messages :: "(ResponseCode \<times> string) list" where
  "service_messages =
    [(SHADOW_WAIT_FOR_PUBLISH, ''Waiting for previously published shadow updates''),
     (SHADOW_JSON_BUFFER_TRUNCATED, ''Shadow JSON is truncated as size specified is less than the size of the JSON''),
     (SHADOW_JSON_ERROR, ''Encoding error occurred while printing the shadow JSON''),
     (SHADOW_JSON_EMPTY_ERROR, ''The shadow JSON is empty''),
     (SHADOW_REQUEST_MAP_EMPTY, ''The shadow request map is empty ''),
     (SHADOW_MQTT_DISCONNECTED_ERROR, ''The shadow's MQTT connection is inactive''),
     (SHADOW_UNEXPECTED_RESPONSE_TYPE, ''The shadow response received is of an unexpected type''),
     (SHADOW_UNEXPECTED_RESPONSE_TOPIC, ''The shadow response was received on an unexpected topic''),
     (SHADOW_REQUEST_REJECTED, ''The shadow request was rejected by the server''),
     (SHADOW_MQTT_CLIENT_NOT_SET_ERROR, ''There is no client set for this shadow''),
     (SHADOW_NOTHING_TO_UPDATE, ''There are no shadow updates to be performed''),
     (SHADOW_UNEXPECTED_RESPONSE_PAYLOAD, ''The shadow response is in an unexpected format''),
     (SHADOW_RECEIVED_OLD_VERSION_UPDATE, ''The received shadow version is older than the current one on the device''),
     (WEBSOCKET_SIGN_URL_NO_MEM, ''Internal buffer overflowed while signing WebSocket URL''),
     (WEBSOCKET_GEN_CLIENT_KEY_ERROR, ''Error occurred while generating WebSocket handshake client key''),
     (WEBSOCKET_HANDSHAKE_ERROR, ''Unable to complete WebSocket handshake''),
     (WEBSOCKET_HANDSHAKE_WRITE, ''Unable to transmit WebSocket handshake request''),
     (WEBSOCKET_HANDSHAKE_READ, ''Unable to receive WebSocket handshake request''),
     (WEBSOCKET_HANDSHAKE_VERIFY_ERROR, ''Unable to verify handshake response from the server''),
     (WEBSOCKET_WSLAY_CONTEXT_INIT_ERROR, ''Erro occurred while initializing the WebSocket WSLay context''),
     (WEBSOCKET_FRAME_RECEIVE_ERROR, ''Error occurred while receiving WebSocket frame''),
     (WEBSOCKET_FRAME_TRANSMIT_ERROR, ''Error occurred while transmitting WebSocket frame''),
     (WEBSOCKET_PROTOCOL_VIOLATION, ''Protocol violation was detected in the received WebSocket frames''),
     (WEBSOCKET_MAX_LIFETIME_REACHED, ''Max lifetime of the WebSocket connection was reached''),
     (WEBSOCKET_DISCONNECT_ERROR, ''Error occurred while disconnecting the WebSocket''),
     (WEBSOCKET_GET_UTC_TIME_FAILED, ''WebSocket wrapper is unable to get the UTC ''),
     (DISCOVER_ACTION_REQUEST_FAILED_ERROR, ''Unable to perform the discover action''),
     (DISCOVER_ACTION_REQUEST_TIMED_OUT_ERROR, ''The discover action request timed out''),
     (DISCOVER_ACTION_UNAUTHORIZED, ''The device was unauthorized to perform the discovery action''),
     (DISCOVER_ACTION_SERVER_ERROR, ''Server returned unknown error while performing the discovery action''),
     (DISCOVER_ACTION_REQUEST_OVERLOAD, ''The discovery action is overloading the server, try again after some time''),
     (DISCOVER_RESPONSE_UNEXPECTED_JSON_STRUCTURE_ERROR, ''The discover response JSON is incomplete ''),
     (JOBS_INVALID_TOPIC_ERROR, ''Invalid jobs topic'')]"

text \<open>
  The \<open>switch\<close> of \<open>operator<<\<close>: nothing is written for a value that is no enumerator. Then the
  number is appended whatever the value.
\<close>

definition rc_message :: "ResponseCode \<Rightarrow> string" where
  "rc_message rc =
     (case map_of (general_messages @ network_messages @ mqtt_messages @ service_messages) rc of
        Some s \<Rightarrow> s
      | None \<Rightarrow> [])"

definition ToString :: "ResponseCode \<Rightarrow> bytes" where
  "ToString rc = str (rc_message rc) @ str '' : SDK Code '' @ int_digits (rc_value rc) @ str ''.''"

section \<open>Properties\<close>

text \<open>
  The text of a decimal number determines the number, and holds no space; so the number can be
  read back from the end of the message.
\<close>

lemma digit_byte: "n < 10 \<Longrightarrow> m < 10 \<Longrightarrow> ((of_nat n :: byte) = of_nat m) = (n = m)"
  by (auto simp: word_of_nat_eq_iff take_bit_eq_mod)

lemma nat_digits_small: "n < 10 \<Longrightarrow> nat_digits n = [48 + of_nat n]"
  by (simp add: nat_digits.simps)

lemma nat_digits_step: "\<not> n < 10 \<Longrightarrow> nat_digits n = nat_digits (n div 10) @ [48 + of_nat (n mod 10)]"
  by (subst nat_digits.simps) simp

lemma nat_digits_nonempty [simp]: "nat_digits n \<noteq> []" "[] \<noteq> nat_digits n"
  by (cases "n < 10"; simp add: nat_digits_small nat_digits_step)+

lemma nat_digits_inj: "nat_digits n = nat_digits m \<Longrightarrow> n = m"
proof (induction n arbitrary: m rule: nat_digits.induct)
  case (1 n)
  show ?case
  proof (cases "n < 10")
    case True
    with "1.prems" show ?thesis
      by (cases "m < 10") (simp_all add: nat_digits_small nat_digits_step digit_byte)
  next
    case False
    with "1.prems" have m: "\<not> m < 10"
      by (auto simp: nat_digits_small nat_digits_step)
    with False "1.prems" have eq: "nat_digits (n div 10) = nat_digits (m div 10)" "n mod 10 = m mod 10"
      by (simp_all add: nat_digits_step digit_byte)
    with "1.IH" False have "n div 10 = m div 10" by simp
    with eq(2) show ?thesis by (metis div_mult_mod_eq)
  qed
qed

lemma digit_range: "n < 10 \<Longrightarrow> 48 \<le> (48::byte) + of_nat n \<and> (48::byte) + of_nat n \<le> 57"
proof -
  assume "n < 10"
  then have "n \<in> {0,1,2,3,4,5,6,7,8,9}" by auto
  then show ?thesis by auto
qed

lemma nat_digits_range: "b \<in> set (nat_digits n) \<Longrightarrow> 48 \<le> b \<and> b \<le> 57"
proof (induction n rule: nat_digits.induct)
  case (1 n)
  then show ?case
    using digit_range [of n] digit_range [of "n mod 10"]
    by (cases "n < 10") (auto simp: nat_digits_small nat_digits_step)
qed

lemma int_digits_no_space: "(32::byte) \<notin> set (int_digits i)"
  using nat_digits_range [of 32] by (auto simp: int_digits_def)

lemma nat_digits_not_minus: "nat_digits n \<noteq> 45 # bs"
proof
  assume "nat_digits n = 45 # bs"
  then have "(45::byte) \<in> set (nat_digits n)" by simp
  then have "(48::byte) \<le> 45" by (blast dest: nat_digits_range)
  then show False by simp
qed

lemma int_digits_inj: "int_digits i = int_digits j \<longleftrightarrow> i = j"
  using nat_digits_inj nat_digits_not_minus nat_digits_not_minus [symmetric]
  by (auto simp: int_digits_def split: if_splits dest!: nat_digits_inj)

lemma last_space:
  "x \<notin> set a \<Longrightarrow> x \<notin> set b \<Longrightarrow> p @ x # a = q @ x # b \<Longrightarrow> a = b"
proof (induction a arbitrary: b rule: rev_induct)
  case Nil
  then show ?case by (cases b rule: rev_cases) auto
next
  case (snoc y a)
  then show ?case by (cases b rule: rev_cases) auto
qed

text \<open>
  Every enumerator has a message of its own in the \<open>switch\<close>; the values are distinct.
\<close>

lemma response_codes_distinct: "distinct (map rc_value response_codes) \<and> length response_codes = 106"
  by (simp add: response_codes_def)

lemma message_codes:
  "map fst (general_messages @ network_messages @ mqtt_messages @ service_messages) = response_codes"
  by (simp add: general_messages_def network_messages_def mqtt_messages_def service_messages_def
      response_codes_def)

text \<open>the text of a response code determines the response code.\<close>

theorem ToString_inj: "ToString rc = ToString rc' \<longleftrightarrow> rc = rc'"
proof
  assume eq: "ToString rc = ToString rc'"
  let ?p = "\<lambda>r. str (rc_message r) @ str '' : SDK Code''"
  have split: "ToString r = ?p r @ 32 # (int_digits (rc_value r) @ str ''.'')" for r
    by (simp add: ToString_def str_def)
  have free: "(32::byte) \<notin> set (int_digits (rc_value r) @ str ''.'')" for r
    using int_digits_no_space by (simp add: str_def)
  have "int_digits (rc_value rc) @ str ''.'' = int_digits (rc_value rc') @ str ''.''"
    using eq free [of rc] free [of rc'] unfolding split [of rc] split [of rc'] by (rule_tac last_space)
  then have "rc_value rc = rc_value rc'"
    by (simp add: int_digits_inj)
  then show "rc = rc'" by (rule ResponseCode.expand)
qed simp

end
