(* ===== verification/Utf8.thy ===== *)
theory Utf8
  imports Prelude
begin

unbundle bit_operations_syntax

text \<open>
  The UTF-8 checks and \<open>Utf8String\<close> (\<^verbatim>\<open>src/util/Utf8String.cpp\<close>, \<^verbatim>\<open>include/util/Utf8String.hpp\<close>).

  An iterator is the list of the bytes from it to the end; \<open>it == end\<close> is the empty list. The
  arithmetic on \<open>uint32_t\<close> code points stays on 32-bit words. The abstract side is \<open>utf8_encode\<close>, the
  encoding of a Unicode scalar value written with \<open>div\<close> and \<open>mod\<close>: the code accepts exactly the
  concatenations of such encodings.
\<close>

section \<open>The code\<close>

definition is_trail :: "byte \<Rightarrow> bool" where
  "is_trail oc \<longleftrightarrow> drop_bit 6 oc = 2"

definition is_surrogate :: "u32 \<Rightarrow> bool" where
  "is_surrogate cp \<longleftrightarrow> cp \<ge> 0xd800 \<and> cp \<le> 0xdfff"

definition is_code_point_valid :: "u32 \<Rightarrow> bool" where
  "is_code_point_valid cp \<longleftrightarrow> cp \<le> 0x0010ffff \<and> \<not> is_surrogate cp"

definition sequence_length :: "byte \<Rightarrow> nat" where
  "sequence_length lead =
     (if lead < 0x80 then 1
      else if drop_bit 5 lead = 0x6 then 2
      else if drop_bit 4 lead = 0xe then 3
      else if drop_bit 3 lead = 0x1e then 4
      else 0)"

definition is_overlong_sequence :: "u32 \<Rightarrow> nat \<Rightarrow> bool" where
  "is_overlong_sequence cp len =
     (if cp < 0x80 then len \<noteq> 1
      else if cp < 0x800 then len \<noteq> 2
      else if cp < 0x10000 then len \<noteq> 3
      else False)"

datatype utf_error =
    NOT_ENOUGH_ROOM
  | INVALID_LEAD
  | INCOMPLETE_SEQUENCE
  | OVERLONG_SEQUENCE
  | INVALID_CODE_POINT

text \<open>
  \<open>UTF8_OK\<close> is the right injection: \<open>increase_safely\<close> returns the advanced iterator, the
  \<open>get_sequence\<close> functions the code point and the iterator, which stands at the last byte read.
\<close>

fun increase_safely :: "bytes \<Rightarrow> utf_error + bytes" where
  "increase_safely (b0 # b1 # rest) =
     (if is_trail b1 then Inr (b1 # rest) else Inl INCOMPLETE_SEQUENCE)"
| "increase_safely _ = Inl NOT_ENOUGH_ROOM"

fun get_sequence_1 :: "bytes \<Rightarrow> utf_error + (u32 \<times> bytes)" where
  "get_sequence_1 [] = Inl NOT_ENOUGH_ROOM"
| "get_sequence_1 (b # it) = Inr (ucast b, b # it)"

fun get_sequence_2 :: "bytes \<Rightarrow> utf_error + (u32 \<times> bytes)" where
  "get_sequence_2 [] = Inl NOT_ENOUGH_ROOM"
| "get_sequence_2 (b # it) =
     (case increase_safely (b # it) of
        Inl e \<Rightarrow> Inl e
      | Inr it1 \<Rightarrow> Inr ((push_bit 6 (ucast b) AND 0x7ff) + (ucast (hd it1) AND 0x3f), it1))"

fun get_sequence_3 :: "bytes \<Rightarrow> utf_error + (u32 \<times> bytes)" where
  "get_sequence_3 [] = Inl NOT_ENOUGH_ROOM"
| "get_sequence_3 (b # it) =
     (case increase_safely (b # it) of
        Inl e \<Rightarrow> Inl e
      | Inr it1 \<Rightarrow>
          let cp = (push_bit 12 (ucast b) AND 0xffff) + (push_bit 6 (ucast (hd it1)) AND 0xfff)
          in case increase_safely it1 of
               Inl e \<Rightarrow> Inl e
             | Inr it2 \<Rightarrow> Inr (cp + (ucast (hd it2) AND 0x3f), it2))"

fun get_sequence_4 :: "bytes \<Rightarrow> utf_error + (u32 \<times> bytes)" where
  "get_sequence_4 [] = Inl NOT_ENOUGH_ROOM"
| "get_sequence_4 (b # it) =
     (case increase_safely (b # it) of
        Inl e \<Rightarrow> Inl e
      | Inr it1 \<Rightarrow>
          let cp = (push_bit 18 (ucast b) AND 0x1fffff) + (push_bit 12 (ucast (hd it1)) AND 0x3ffff)
          in case increase_safely it1 of
               Inl e \<Rightarrow> Inl e
             | Inr it2 \<Rightarrow>
                 let cp = cp + (push_bit 6 (ucast (hd it2)) AND 0xfff)
                 in case increase_safely it2 of
                      Inl e \<Rightarrow> Inl e
                    | Inr it3 \<Rightarrow> Inr (cp + (ucast (hd it3) AND 0x3f), it3))"

text \<open>
  \<open>validate_next\<close> dereferences the iterator at once, so it is given the lead byte and what follows.
  On success it returns the code point and the iterator behind the sequence; on failure the caller's
  iterator is restored.
\<close>

definition validate_next :: "byte \<Rightarrow> bytes \<Rightarrow> utf_error + (u32 \<times> bytes)" where
  "validate_next lead rest =
     (let len = sequence_length lead; it = lead # rest in
      if len = 0 then Inl INVALID_LEAD
      else
        case (if len = 1 then get_sequence_1 it
              else if len = 2 then get_sequence_2 it
              else if len = 3 then get_sequence_3 it
              else get_sequence_4 it) of
          Inl e \<Rightarrow> Inl e
        | Inr (cp, it') \<Rightarrow>
            if is_code_point_valid cp then
              if \<not> is_overlong_sequence cp len then Inr (cp, tl it')
              else Inl OVERLONG_SEQUENCE
            else Inl INVALID_CODE_POINT)"

section \<open>What a successful step has read\<close>

lemma increase_safely_Inr:
  "increase_safely it = Inr it' \<longleftrightarrow> (\<exists>b0 b1 rest. it = b0 # b1 # rest \<and> it' = b1 # rest \<and> is_trail b1)"
  by (induction it rule: increase_safely.induct) auto

lemma validate_next_shorter:
  "validate_next b s = Inr (cp, rest) \<Longrightarrow> length rest \<le> length s"
  by (auto simp: validate_next_def Let_def increase_safely_Inr split: if_splits sum.splits prod.splits)

function find_invalid :: "bytes \<Rightarrow> bytes" where
  "find_invalid [] = []"
| "find_invalid (b # s) =
     (case validate_next b s of
        Inl e \<Rightarrow> b # s
      | Inr (cp, rest) \<Rightarrow> find_invalid rest)"
  by pat_completeness auto

termination find_invalid
  by (relation "measure length") (auto dest: validate_next_shorter)

definition is_valid :: "bytes \<Rightarrow> bool" where
  "is_valid s \<longleftrightarrow> find_invalid s = []"

record Utf8String =
  utf8_data :: bytes
  utf8_length :: nat

definition IsValidInput :: "bytes \<Rightarrow> bool" where
  "IsValidInput s \<longleftrightarrow> is_valid s"

text \<open>\<open>Create\<close> and the constructor it calls; the null pointer is \<open>None\<close>.\<close>

definition Create_Utf8String :: "bytes \<Rightarrow> Utf8String option" where
  "Create_Utf8String s =
     (if \<not> IsValidInput s then None else Some \<lparr>utf8_data = s, utf8_length = length s\<rparr>)"

text \<open>
  \<open>Create(const char *, size_t)\<close>: \<open>s\<close> holds the bytes the pointer reaches; reading more than there
  are is undefined.
\<close>

definition Create_Utf8String_n :: "bytes \<Rightarrow> nat \<Rightarrow> Utf8String option res" where
  "Create_Utf8String_n s n =
     (if length s < n then Inl OutOfBounds
      else if \<not> IsValidInput (take n s) then Inr None
      else Inr (Some \<lparr>utf8_data = take n s, utf8_length = n\<rparr>))"

abbreviation Length_utf8 :: "Utf8String \<Rightarrow> nat" where
  "Length_utf8 \<equiv> utf8_length"

abbreviation ToStdString :: "Utf8String \<Rightarrow> bytes" where
  "ToStdString \<equiv> utf8_data"

section \<open>The encoding of Unicode scalar values\<close>

definition scalar_value :: "nat \<Rightarrow> bool" where
  "scalar_value c \<longleftrightarrow> c < 0x110000 \<and> \<not> (0xd800 \<le> c \<and> c < 0xe000)"

definition utf8_encode :: "nat \<Rightarrow> bytes" where
  "utf8_encode c =
     (if c < 0x80 then [of_nat c]
      else if c < 0x800 then [of_nat (0xc0 + c div 64), of_nat (0x80 + c mod 64)]
      else if c < 0x10000 then
        [of_nat (0xe0 + c div 4096), of_nat (0x80 + c div 64 mod 64), of_nat (0x80 + c mod 64)]
      else
        [of_nat (0xf0 + c div 262144), of_nat (0x80 + c div 4096 mod 64),
         of_nat (0x80 + c div 64 mod 64), of_nat (0x80 + c mod 64)])"

section \<open>The bit operations as arithmetic\<close>

lemma byte_eq_iff: "(b :: byte) = of_nat n \<longleftrightarrow> unat b = n mod 256"
  by (auto simp: unat_of_nat word_unat_eq_iff)

lemma drop_bit_byte: "k \<le> 8 \<Longrightarrow> v < 256 \<Longrightarrow> drop_bit k (b :: byte) = of_nat v \<longleftrightarrow> unat b div 2 ^ k = v"
proof -
  assume v: "k \<le> 8" "v < 256"
  have "drop_bit k b = of_nat v \<longleftrightarrow> unat (drop_bit k b) = unat (of_nat v :: byte)"
    by (simp only: word_unat_eq_iff)
  also have "\<dots> \<longleftrightarrow> unat b div 2 ^ k = v"
    using v(2) by (simp only: unat_of_nat_u8 unat_drop_bit_eq) (simp only: drop_bit_eq_div)
  finally show ?thesis .
qed

lemma is_trail_unat: "is_trail b \<longleftrightarrow> 128 \<le> unat b \<and> unat b < 192"
  using drop_bit_byte [of 6 2 b] by (auto simp: is_trail_def)

lemma sequence_length_unat:
  "sequence_length b =
     (if unat b < 128 then 1
      else if 192 \<le> unat b \<and> unat b < 224 then 2
      else if 224 \<le> unat b \<and> unat b < 240 then 3
      else if 240 \<le> unat b \<and> unat b < 248 then 4
      else 0)"
proof -
  have "drop_bit 5 b = 6 \<longleftrightarrow> 192 \<le> unat b \<and> unat b < 224"
    "drop_bit 4 b = 14 \<longleftrightarrow> 224 \<le> unat b \<and> unat b < 240"
    "drop_bit 3 b = 30 \<longleftrightarrow> 240 \<le> unat b \<and> unat b < 248"
    using drop_bit_byte [of 5 6 b] drop_bit_byte [of 4 14 b] drop_bit_byte [of 3 30 b] by auto
  moreover have "b < 128 \<longleftrightarrow> unat b < 128"
    by (simp add: word_less_nat_alt)
  ultimately show ?thesis
    by (simp add: sequence_length_def)
qed

lemma unat_shifted_field:
  assumes "k \<le> 18" "m \<le> 32"
  shows "unat (push_bit k (ucast (b :: byte) :: u32) AND mask m) = (unat b * 2 ^ k) mod 2 ^ m"
proof -
  have "unat b * 2 ^ k < 2 ^ 8 * 2 ^ 18"
    using unat_u8_bound [of b] assms(1)
    by (intro mult_less_le_imp_less power_increasing) auto
  then have "unat (push_bit k (ucast b :: u32)) = unat b * 2 ^ k"
    using unat_u8_bound [of b]
    by (subst unsigned_push_bit_eq) (simp add: push_bit_eq_mult take_bit_eq_mod unsigned_ucast_eq)
  then show ?thesis
    using assms(2) by (simp only: unsigned_take_bit_eq flip: take_bit_eq_mask) (simp add: take_bit_eq_mod)
qed

lemma masks: "0x3f = (mask 6 :: u32)" "0x7ff = (mask 11 :: u32)" "0xfff = (mask 12 :: u32)"
  "0xffff = (mask 16 :: u32)" "0x3ffff = (mask 18 :: u32)" "0x1fffff = (mask 21 :: u32)"
  by (simp_all add: mask_eq_exp_minus_1)

lemma mod_of_sum: "r < m \<Longrightarrow> n = q * m + r \<Longrightarrow> n mod m = (r :: nat)"
  by simp

lemma unat_field:
  assumes "unat (b :: byte) = p + x" "k \<le> 18" "k \<le> m" "m \<le> 32" "x < 2 ^ (m - k)" "p = q * 2 ^ (m - k)"
  shows "unat (push_bit k (ucast b) AND mask m :: u32) = x * 2 ^ k"
proof -
  have m: "(2::nat) ^ m = 2 ^ (m - k) * 2 ^ k"
    using assms(3) by (simp flip: power_add)
  have "unat b * 2 ^ k = q * 2 ^ m + x * 2 ^ k"
    by (simp add: assms(1,6) m algebra_simps)
  moreover have "x * 2 ^ k < 2 ^ m"
    using assms(5) by (simp add: m)
  ultimately show ?thesis
    using assms(2,4) by (simp only: unat_shifted_field mod_of_sum)
qed

lemma unat_low_field: "unat (b :: byte) = 128 + y \<Longrightarrow> y < 64 \<Longrightarrow> unat (ucast b AND 0x3f :: u32) = y"
proof -
  assume y: "unat b = 128 + y" "y < 64"
  then have "unat (push_bit 0 (ucast b) AND mask 6 :: u32) = y * 2 ^ 0"
    by (intro unat_field [of b 128 y 0 6 2]) simp_all
  then show ?thesis by (simp only: masks(1) push_bit_0_id id_apply power_0 mult_1_right)
qed

lemma unat_trail_6: "unat (b :: byte) = 128 + y \<Longrightarrow> y < 64 \<Longrightarrow> unat (push_bit 6 (ucast b) AND 0xfff :: u32) = 64 * y"
  by (rule unat_field [of b 128 y 6 12 2, folded masks(3), THEN trans]) simp_all

lemma unat_trail_12: "unat (b :: byte) = 128 + y \<Longrightarrow> y < 64 \<Longrightarrow> unat (push_bit 12 (ucast b) AND 0x3ffff :: u32) = 4096 * y"
  by (rule unat_field [of b 128 y 12 18 2, folded masks(5), THEN trans]) simp_all

lemma unat_lead_2: "unat (b :: byte) = 0xc0 + x \<Longrightarrow> x < 32 \<Longrightarrow> unat (push_bit 6 (ucast b) AND 0x7ff :: u32) = 64 * x"
  by (rule unat_field [of b "0xc0" x 6 11 6, folded masks(2), THEN trans]) simp_all

lemma unat_lead_3: "unat (b :: byte) = 0xe0 + x \<Longrightarrow> x < 16 \<Longrightarrow> unat (push_bit 12 (ucast b) AND 0xffff :: u32) = 4096 * x"
  by (rule unat_field [of b "0xe0" x 12 16 14, folded masks(4), THEN trans]) simp_all

lemma unat_lead_4: "unat (b :: byte) = 0xf0 + x \<Longrightarrow> x < 8 \<Longrightarrow> unat (push_bit 18 (ucast b) AND 0x1fffff :: u32) = 262144 * x"
  by (rule unat_field [of b "0xf0" x 18 21 30, folded masks(6), THEN trans]) simp_all

lemmas unat_fields = unat_low_field unat_trail_6 unat_trail_12 unat_lead_2 unat_lead_3 unat_lead_4

lemma unat_add_small:
  "unat (x :: u32) + unat y < 2 ^ 32 \<Longrightarrow> unat (x + y) = unat x + unat y"
  by (simp add: unat_word_ariths)

lemma trail_field: "is_trail b \<Longrightarrow> \<exists>y < 64. unat b = 128 + y"
  by (rule exI [of _ "unat b - 128"]) (simp add: is_trail_unat, arith)

text \<open>The code point the bytes of a sequence stand for; \<open>x\<close> is what the lead byte carries.\<close>

lemma code_point_2:
  assumes "unat (b0 :: byte) = 0xc0 + x" "x < 32" "unat (b1 :: byte) = 128 + y" "y < 64"
  shows "unat ((push_bit 6 (ucast b0) AND 0x7ff) + (ucast b1 AND 0x3f) :: u32) = 64 * x + y"
  using assms by (subst unat_add_small) (simp_all add: unat_fields)

lemma code_point_3:
  assumes "unat (b0 :: byte) = 0xe0 + x" "x < 16" "unat (b1 :: byte) = 128 + y" "y < 64"
    "unat (b2 :: byte) = 128 + z" "z < 64"
  shows "unat ((push_bit 12 (ucast b0) AND 0xffff) + (push_bit 6 (ucast b1) AND 0xfff)
           + (ucast b2 AND 0x3f) :: u32) = 4096 * x + 64 * y + z"
  using assms by (simp add: unat_add_small unat_fields)

lemma code_point_4:
  assumes "unat (b0 :: byte) = 0xf0 + x" "x < 8" "unat (b1 :: byte) = 128 + y" "y < 64"
    "unat (b2 :: byte) = 128 + z" "z < 64" "unat (b3 :: byte) = 128 + w" "w < 64"
  shows "unat ((push_bit 18 (ucast b0) AND 0x1fffff) + (push_bit 12 (ucast b1) AND 0x3ffff)
           + (push_bit 6 (ucast b2) AND 0xfff) + (ucast b3 AND 0x3f) :: u32)
         = 262144 * x + 4096 * y + 64 * z + w"
  using assms by (simp add: unat_add_small unat_fields)

section \<open>One step reads one encoding\<close>

lemma code_point_valid_unat: "is_code_point_valid cp \<longleftrightarrow> scalar_value (unat cp)"
  by (auto simp: is_code_point_valid_def is_surrogate_def scalar_value_def word_le_nat_alt)

lemma overlong_unat:
  "is_overlong_sequence cp len =
     (if unat cp < 0x80 then len \<noteq> 1 else if unat cp < 0x800 then len \<noteq> 2
      else if unat cp < 0x10000 then len \<noteq> 3 else False)"
  by (simp add: is_overlong_sequence_def word_less_nat_alt)

lemma byte_of_unat: "unat (b :: byte) = n \<Longrightarrow> b = of_nat n"
  by auto

lemma fields_3:
  assumes "y < 64" "z < 64"
  shows "(4096 * x + 64 * y + z) div 4096 = x" "(4096 * x + 64 * y + z) div 64 mod 64 = y"
    "(4096 * x + 64 * y + z) mod 64 = (z :: nat)"
proof -
  have "(4096 * x + 64 * y + z) div 64 = 64 * x + y"
    using assms by (intro div_nat_eqI) simp_all
  then show "(4096 * x + 64 * y + z) div 64 mod 64 = y" using assms by simp
  show "(4096 * x + 64 * y + z) div 4096 = x"
    using assms by (intro div_nat_eqI) simp_all
  have "4096 * x + 64 * y + z = (64 * x + y) * 64 + z" by simp
  then show "(4096 * x + 64 * y + z) mod 64 = z" using assms(2) by (rule mod_of_sum [rotated])
qed

lemma fields_4:
  assumes "y < 64" "z < 64" "w < 64"
  shows "(262144 * x + 4096 * y + 64 * z + w) div 262144 = x"
    "(262144 * x + 4096 * y + 64 * z + w) div 4096 mod 64 = y"
    "(262144 * x + 4096 * y + 64 * z + w) div 64 mod 64 = z"
    "(262144 * x + 4096 * y + 64 * z + w) mod 64 = (w :: nat)"
proof -
  have *: "262144 * x + 4096 * y + 64 * z + w = 4096 * (64 * x + y) + 64 * z + w"
    by simp
  show "(262144 * x + 4096 * y + 64 * z + w) div 4096 mod 64 = y"
    using assms fields_3(1) [of z w "64 * x + y"] unfolding * by simp
  show "(262144 * x + 4096 * y + 64 * z + w) div 64 mod 64 = z"
    "(262144 * x + 4096 * y + 64 * z + w) mod 64 = w"
    using assms fields_3(2,3) [of z w "64 * x + y"] unfolding * by simp_all
  show "(262144 * x + 4096 * y + 64 * z + w) div 262144 = x"
    using assms by (intro div_nat_eqI) simp_all
qed

lemma encode_2: "64 * x + y < 0x800 \<Longrightarrow> 0x80 \<le> 64 * x + y \<Longrightarrow> y < 64 \<Longrightarrow>
  utf8_encode (64 * x + y) = [of_nat (0xc0 + x), of_nat (0x80 + y)]"
  by (simp add: utf8_encode_def)

lemma encode_3: "x < 16 \<Longrightarrow> 0x800 \<le> 4096 * x + 64 * y + z \<Longrightarrow> y < 64 \<Longrightarrow> z < 64 \<Longrightarrow>
  utf8_encode (4096 * x + 64 * y + z) = [of_nat (0xe0 + x), of_nat (0x80 + y), of_nat (0x80 + z)]"
  using fields_3 [of y z x] by (simp add: utf8_encode_def)

lemma encode_4: "0x10000 \<le> 262144 * x + 4096 * y + 64 * z + w \<Longrightarrow> y < 64 \<Longrightarrow> z < 64 \<Longrightarrow> w < 64 \<Longrightarrow>
  utf8_encode (262144 * x + 4096 * y + 64 * z + w) =
    [of_nat (0xf0 + x), of_nat (0x80 + y), of_nat (0x80 + z), of_nat (0x80 + w)]"
  using fields_4 [of y z w x] by (simp add: utf8_encode_def)

lemma is_trail_iff: "is_trail b \<longleftrightarrow> (\<exists>y < 64. b = of_nat (128 + y) \<and> unat b = 128 + y)"
proof
  assume "is_trail b"
  then obtain y where "y < 64" "unat b = 128 + y" by (blast dest: trail_field)
  then show "\<exists>y < 64. b = of_nat (128 + y) \<and> unat b = 128 + y" by (metis byte_of_unat)
qed (auto simp: is_trail_unat)

lemma offset: "p \<le> n \<Longrightarrow> n < p + d \<Longrightarrow> \<exists>x < d. n = p + (x :: nat)"
  by (rule exI [of _ "n - p"]) simp

lemma sequence_length_cases:
  obtains "sequence_length b = 0"
  | "sequence_length b = 1" "unat b < 128"
  | x where "sequence_length b = 2" "unat b = 0xc0 + x" "x < 32"
  | x where "sequence_length b = 3" "unat b = 0xe0 + x" "x < 16"
  | x where "sequence_length b = 4" "unat b = 0xf0 + x" "x < 8"
  using offset [of "0xc0" "unat b" 32] offset [of "0xe0" "unat b" 16] offset [of "0xf0" "unat b" 8]
  by (fastforce simp: sequence_length_unat split: if_splits)

lemma unat_widen: "unat (ucast (b :: byte) :: u32) = unat b"
  using unat_u8_bound [of b] by (simp add: unsigned_ucast_eq take_bit_nat_eq_self)

lemma unat_byte: "(b :: byte) = of_nat n \<Longrightarrow> n < 256 \<Longrightarrow> unat b = n"
  by (simp only: unat_of_nat_u8)

lemma validate_next_sound:
  assumes "validate_next b s = Inr (cp, rest)"
  shows "scalar_value (unat cp) \<and> b # s = utf8_encode (unat cp) @ rest"
proof -
  define len where "len = sequence_length b"
  note step = assms [unfolded validate_next_def Let_def, folded len_def]
  have sv: "scalar_value (unat cp)" and over: "\<not> is_overlong_sequence cp len"
    using step by (auto simp: code_point_valid_unat split: if_splits sum.splits prod.splits)
  from sequence_length_cases [of b] have "b # s = utf8_encode (unat cp) @ rest"
  proof cases
    case 1
    then show ?thesis using step by (simp add: len_def)
  next
    case 2
    then have "cp = ucast b" "s = rest" using step by (auto simp: len_def split: if_splits)
    then show ?thesis using 2 by (simp add: utf8_encode_def unat_widen)
  next
    case (3 x)
    obtain b1 where s: "s = b1 # rest" "is_trail b1"
      and cp: "cp = (push_bit 6 (ucast b) AND 0x7ff) + (ucast b1 AND 0x3f)"
      using 3 step by (auto simp: len_def increase_safely_Inr split: if_splits sum.splits prod.splits)
    from s(2) obtain y where y: "y < 64" "b1 = of_nat (128 + y)" "unat b1 = 128 + y"
      unfolding is_trail_iff by blast
    have "unat cp = 64 * x + y" unfolding cp by (rule code_point_2 [OF 3(2,3) y(3,1)])
    then show ?thesis
      using over 3 y s(1) byte_of_unat [OF 3(2)]
      by (simp add: len_def overlong_unat encode_2 split: if_splits)
  next
    case (4 x)
    obtain b1 b2 where s: "s = b1 # b2 # rest" "is_trail b1" "is_trail b2"
      and cp: "cp = (push_bit 12 (ucast b) AND 0xffff) + (push_bit 6 (ucast b1) AND 0xfff) + (ucast b2 AND 0x3f)"
      using 4 step by (auto simp: len_def Let_def increase_safely_Inr split: if_splits sum.splits prod.splits)
    from s(2,3) obtain y z where y: "y < 64" "b1 = of_nat (128 + y)" "unat b1 = 128 + y"
      and z: "z < 64" "b2 = of_nat (128 + z)" "unat b2 = 128 + z"
      unfolding is_trail_iff by blast
    have "unat cp = 4096 * x + 64 * y + z" unfolding cp by (rule code_point_3 [OF 4(2,3) y(3,1) z(3,1)])
    then show ?thesis
      using over 4 y z s(1) byte_of_unat [OF 4(2)]
      by (simp add: len_def overlong_unat encode_3 split: if_splits)
  next
    case (5 x)
    obtain b1 b2 b3 where s: "s = b1 # b2 # b3 # rest" "is_trail b1" "is_trail b2" "is_trail b3"
      and cp: "cp = (push_bit 18 (ucast b) AND 0x1fffff) + (push_bit 12 (ucast b1) AND 0x3ffff)
                + (push_bit 6 (ucast b2) AND 0xfff) + (ucast b3 AND 0x3f)"
      using 5 step by (auto simp: len_def Let_def increase_safely_Inr split: if_splits sum.splits prod.splits)
    from s(2-4) obtain y z w where y: "y < 64" "b1 = of_nat (128 + y)" "unat b1 = 128 + y"
      and z: "z < 64" "b2 = of_nat (128 + z)" "unat b2 = 128 + z"
      and w: "w < 64" "b3 = of_nat (128 + w)" "unat b3 = 128 + w"
      unfolding is_trail_iff by blast
    have "unat cp = 262144 * x + 4096 * y + 64 * z + w"
      unfolding cp by (rule code_point_4 [OF 5(2,3) y(3,1) z(3,1) w(3,1)])
    then show ?thesis
      using over 5 y z w s(1) byte_of_unat [OF 5(2)]
      by (simp add: len_def overlong_unat encode_4 split: if_splits)
  qed
  with sv show ?thesis by simp
qed

lemma scalar_value_fits: "scalar_value c \<Longrightarrow> unat (of_nat c :: u32) = c"
  by (simp add: scalar_value_def unat_of_nat)

lemma code_point_of_nat: "unat (cp :: u32) = c \<Longrightarrow> cp = of_nat c"
  by auto

lemma base_64_3: "(c :: nat) = 4096 * (c div 4096) + 64 * (c div 64 mod 64) + c mod 64"
proof -
  have "c div 4096 = c div 64 div 64" by (simp flip: div_mult2_eq)
  then show ?thesis
    using div_mult_mod_eq [of "c div 64" 64] div_mult_mod_eq [of c 64] by linarith
qed

lemma base_64_4: "(c :: nat) = 262144 * (c div 262144) + 4096 * (c div 4096 mod 64) + 64 * (c div 64 mod 64) + c mod 64"
proof -
  have "c div 262144 = c div 4096 div 64" by (simp flip: div_mult2_eq)
  then show ?thesis
    using div_mult_mod_eq [of "c div 4096" 64] base_64_3 [of c] by linarith
qed

lemma validate_next_complete:
  assumes c: "scalar_value c" and bs: "b # s = utf8_encode c @ rest"
  shows "validate_next b s = Inr (of_nat c, rest)"
proof -
  note fits = scalar_value_fits [OF c]
  have bound: "c < 0x110000" using c by (simp add: scalar_value_def)
  have ok: "is_code_point_valid (of_nat c)" by (simp add: code_point_valid_unat fits c)
  consider "c < 0x80" | "0x80 \<le> c" "c < 0x800" | "0x800 \<le> c" "c < 0x10000" | "0x10000 \<le> c"
    by linarith
  then show ?thesis
  proof cases
    case 1
    then have "b = of_nat c" "s = rest" using bs by (simp_all add: utf8_encode_def)
    moreover have "ucast (of_nat c :: byte) = (of_nat c :: u32)"
      using 1 by (intro code_point_of_nat) (simp add: unat_widen unat_of_nat_u8)
    ultimately show ?thesis
      using 1 ok by (simp add: validate_next_def Let_def sequence_length_unat unat_of_nat_u8 overlong_unat fits)
  next
    case 2
    define x y where "x = c div 64" and "y = c mod 64"
    have xy: "x < 32" "y < 64" using 2 by (auto simp: x_def y_def)
    have c2: "c = 64 * x + y" by (simp add: x_def y_def)
    have b0: "b = of_nat (0xc0 + x)" and s0: "s = of_nat (0x80 + y) # rest"
      using 2 bs by (simp_all add: utf8_encode_def flip: x_def y_def)
    have b: "unat b = 0xc0 + x" using b0 xy by (intro unat_byte) simp_all
    obtain b1 where s: "s = b1 # rest" and b1: "unat b1 = 128 + y"
      using s0 xy(2) unat_byte [OF refl, of "128 + y"] by simp
    have cp: "(push_bit 6 (ucast b) AND 0x7ff) + (ucast b1 AND 0x3f) = (of_nat c :: u32)"
      using code_point_2 [OF b xy(1) b1 xy(2)] unfolding c2 by (rule code_point_of_nat)
    have facts: "sequence_length b = 2" "is_trail b1" "\<not> is_overlong_sequence (of_nat c) 2"
      using b xy b1 2 by (simp_all add: sequence_length_unat is_trail_unat overlong_unat fits)
    show ?thesis
      by (simp add: validate_next_def s facts cp ok)
  next
    case 3
    define x y z where "x = c div 4096" and "y = c div 64 mod 64" and "z = c mod 64"
    have xyz: "x < 16" "y < 64" "z < 64" using 3 by (auto simp: x_def y_def z_def)
    have c3: "c = 4096 * x + 64 * y + z" unfolding x_def y_def z_def by (rule base_64_3)
    have b0: "b = of_nat (0xe0 + x)" and s0: "s = of_nat (0x80 + y) # of_nat (0x80 + z) # rest"
      using 3 bs by (simp_all add: utf8_encode_def flip: x_def y_def z_def)
    have b: "unat b = 0xe0 + x" using b0 xyz by (intro unat_byte) simp_all
    obtain b1 b2 where s: "s = b1 # b2 # rest" and b1: "unat b1 = 128 + y" and b2: "unat b2 = 128 + z"
      using s0 xyz unat_byte [OF refl, of "128 + y"] unat_byte [OF refl, of "128 + z"] by simp
    have cp: "(push_bit 12 (ucast b) AND 0xffff) + (push_bit 6 (ucast b1) AND 0xfff)
        + (ucast b2 AND 0x3f) = (of_nat c :: u32)"
      using code_point_3 [OF b xyz(1) b1 xyz(2) b2 xyz(3)] unfolding c3 by (rule code_point_of_nat)
    have facts: "sequence_length b = 3" "is_trail b1" "is_trail b2" "\<not> is_overlong_sequence (of_nat c) 3"
      using b xyz b1 b2 3 by (simp_all add: sequence_length_unat is_trail_unat overlong_unat fits)
    show ?thesis
      by (simp add: validate_next_def s facts cp ok)
  next
    case 4
    define x y z w where "x = c div 262144" and "y = c div 4096 mod 64" and "z = c div 64 mod 64"
      and "w = c mod 64"
    have xyzw: "x < 8" "y < 64" "z < 64" "w < 64"
      using 4 bound by (auto simp: x_def y_def z_def w_def)
    have c4: "c = 262144 * x + 4096 * y + 64 * z + w" unfolding x_def y_def z_def w_def by (rule base_64_4)
    have b0: "b = of_nat (0xf0 + x)"
      and s0: "s = of_nat (0x80 + y) # of_nat (0x80 + z) # of_nat (0x80 + w) # rest"
      using 4 bs by (simp_all add: utf8_encode_def flip: x_def y_def z_def w_def)
    have b: "unat b = 0xf0 + x" using b0 xyzw by (intro unat_byte) simp_all
    obtain b1 b2 b3 where s: "s = b1 # b2 # b3 # rest" and b1: "unat b1 = 128 + y"
      and b2: "unat b2 = 128 + z" and b3: "unat b3 = 128 + w"
      using s0 xyzw unat_byte [OF refl, of "128 + y"] unat_byte [OF refl, of "128 + z"]
        unat_byte [OF refl, of "128 + w"] by simp
    have cp: "(push_bit 18 (ucast b) AND 0x1fffff) + (push_bit 12 (ucast b1) AND 0x3ffff)
        + (push_bit 6 (ucast b2) AND 0xfff) + (ucast b3 AND 0x3f) = (of_nat c :: u32)"
      using code_point_4 [OF b xyzw(1) b1 xyzw(2) b2 xyzw(3) b3 xyzw(4)] unfolding c4
      by (rule code_point_of_nat)
    have facts: "sequence_length b = 4" "is_trail b1" "is_trail b2" "is_trail b3"
        "\<not> is_overlong_sequence (of_nat c) 4"
      using b xyzw b1 b2 b3 4 by (simp_all add: sequence_length_unat is_trail_unat overlong_unat fits)
    show ?thesis
      by (simp add: validate_next_def s facts cp ok)
  qed
qed

lemma validate_next_ascii: "b < 0x80 \<Longrightarrow> validate_next b s = Inr (ucast b, s)"
proof -
  assume "b < 0x80"
  then have b: "unat b < 128" by (simp add: word_less_nat_alt)
  then have "is_code_point_valid (ucast b)"
    by (simp add: code_point_valid_unat unat_widen scalar_value_def)
  with b show ?thesis
    by (simp add: validate_next_def Let_def sequence_length_unat overlong_unat unat_widen)
qed

section \<open>Valid strings\<close>

text \<open>
  The bytes that are accepted are exactly the concatenations of encodings of scalar values; a string
  built of accepted ones is accepted.
\<close>

lemma find_invalid_sound: "find_invalid s = [] \<Longrightarrow> \<exists>cs. list_all scalar_value cs \<and> s = concat (map utf8_encode cs)"
proof (induction s rule: find_invalid.induct)
  case 1
  show ?case by (rule exI [of _ "[]"]) simp
next
  case (2 b s)
  then obtain cp rest where step: "validate_next b s = Inr (cp, rest)" and rest: "find_invalid rest = []"
    by (auto split: sum.splits prod.splits)
  from "2.IH" [OF step refl rest] obtain cs where cs: "list_all scalar_value cs" "rest = concat (map utf8_encode cs)"
    by blast
  from validate_next_sound [OF step] cs show ?case
    by (intro exI [of _ "unat cp # cs"]) simp
qed

lemma utf8_encode_Cons: "\<exists>b bs. utf8_encode c = b # bs"
  by (simp add: utf8_encode_def)

lemma find_invalid_encode: "scalar_value c \<Longrightarrow> find_invalid (utf8_encode c @ s) = find_invalid s"
proof -
  assume c: "scalar_value c"
  obtain b bs where b: "utf8_encode c = b # bs" using utf8_encode_Cons by blast
  have "validate_next b (bs @ s) = Inr (of_nat c, s)"
    by (rule validate_next_complete [OF c]) (simp add: b)
  then show ?thesis by (simp add: b)
qed

lemma find_invalid_complete: "list_all scalar_value cs \<Longrightarrow> find_invalid (concat (map utf8_encode cs)) = []"
  by (induction cs) (simp_all add: find_invalid_encode)

text \<open>UTF-8 validation accepts exactly the encodings of sequences of Unicode scalar values.\<close>

theorem is_valid_iff_encoding:
  "is_valid s \<longleftrightarrow> (\<exists>cs. list_all scalar_value cs \<and> s = concat (map utf8_encode cs))"
  unfolding is_valid_def by (blast intro: find_invalid_sound find_invalid_complete)

lemma is_valid_append: "is_valid s \<Longrightarrow> is_valid t \<Longrightarrow> is_valid (s @ t)"
proof -
  assume "is_valid s" "is_valid t"
  then obtain cs ct where "list_all scalar_value cs" "s = concat (map utf8_encode cs)"
    "list_all scalar_value ct" "t = concat (map utf8_encode ct)"
    unfolding is_valid_def by (blast dest: find_invalid_sound)
  then have "list_all scalar_value (cs @ ct)" "s @ t = concat (map utf8_encode (cs @ ct))" by simp_all
  then show ?thesis unfolding is_valid_def by (metis find_invalid_complete)
qed

end
