(* ===== verification/Wire.thy ===== *)
theory Wire
  imports Utf8 ResponseCodes
begin

text \<open>
  The parts every MQTT packet is made of (\<^verbatim>\<open>src/mqtt/Packet.cpp\<close>, the enumerations of
  \<^verbatim>\<open>include/mqtt/Common.hpp\<close>): the fixed header, 16-bit numbers and length-prefixed strings, with
  the reading side of \<open>Packet\<close>. A buffer that is appended to is a byte list; a read takes the index
  and returns it advanced. Unchecked reads (\<open>buf[i]\<close>) beyond the end are \<open>OutOfBounds\<close>, checked ones
  (\<open>buf.at(i)\<close>) \<open>OutOfRange\<close>.
\<close>

section \<open>Enumerations\<close>

datatype QoS = QOS0 | QOS1

datatype MessageTypes =
    MT_INVALID | MT_CONNECT | MT_CONNACK | MT_PUBLISH | MT_PUBACK | MT_PUBREC | MT_PUBREL | MT_PUBCOMP
  | MT_SUBSCRIBE | MT_SUBACK | MT_UNSUBSCRIBE | MT_UNSUBACK | MT_PINGREQ | MT_PINGRESP
  | MT_DISCONNECT | MT_RESERVED

fun QoS_value :: "QoS \<Rightarrow> nat" where
  "QoS_value QOS0 = 0"
| "QoS_value QOS1 = 1"

text \<open>The enumerator of a message type by its value, as \<open>static_cast\<close> on four bits.\<close>

definition MessageTypes_of :: "nat \<Rightarrow> MessageTypes" where
  "MessageTypes_of n =
     [MT_INVALID, MT_CONNECT, MT_CONNACK, MT_PUBLISH, MT_PUBACK, MT_PUBREC, MT_PUBREL, MT_PUBCOMP,
      MT_SUBSCRIBE, MT_SUBACK, MT_UNSUBSCRIBE, MT_UNSUBACK, MT_PINGREQ, MT_PINGRESP,
      MT_DISCONNECT, MT_RESERVED] ! (n mod 16)"

section \<open>The fixed header\<close>

text \<open>The default constructor leaves the message type uninitialised: \<open>None\<close>.\<close>

record PacketFixedHeader =
  fh_message_type :: "MessageTypes option"
  fh_byte :: u8
  fh_remaining_length :: nat
  fh_is_valid :: bool

definition PacketFixedHeader_new :: PacketFixedHeader where
  "PacketFixedHeader_new =
     \<lparr>fh_message_type = None, fh_byte = 0, fh_remaining_length = 0, fh_is_valid = False\<rparr>"

definition MAX_MQTT_PACKET_REM_LEN_BYTES :: nat where
  "MAX_MQTT_PACKET_REM_LEN_BYTES = 268435455"

text \<open>
  The \<open>switch\<close> of \<open>Initialize\<close>: the first byte for a message type, \<open>None\<close> for the \<open>default\<close> branch.
\<close>

fun fixed_header_byte :: "MessageTypes \<Rightarrow> bool \<Rightarrow> QoS \<Rightarrow> bool \<Rightarrow> u8 option" where
  "fixed_header_byte MT_CONNECT dup qos retained = Some 0x10"
| "fixed_header_byte MT_CONNACK dup qos retained = Some 0x20"
| "fixed_header_byte MT_PUBLISH dup qos retained =
     Some (0x30 OR (case qos of QOS0 \<Rightarrow> 0x00 | QOS1 \<Rightarrow> 0x02)
           OR (if dup then 0x08 else 0x00) OR (if retained then 0x01 else 0x00))"
| "fixed_header_byte MT_PUBACK dup qos retained = Some 0x40"
| "fixed_header_byte MT_PUBREC dup qos retained = Some 0x50"
| "fixed_header_byte MT_PUBREL dup qos retained = Some 0x62"
| "fixed_header_byte MT_PUBCOMP dup qos retained = Some 0x70"
| "fixed_header_byte MT_SUBSCRIBE dup qos retained = Some 0x82"
| "fixed_header_byte MT_SUBACK dup qos retained = Some 0x90"
| "fixed_header_byte MT_UNSUBSCRIBE dup qos retained = Some 0xA2"
| "fixed_header_byte MT_UNSUBACK dup qos retained = Some 0xB0"
| "fixed_header_byte MT_PINGREQ dup qos retained = Some 0xC0"
| "fixed_header_byte MT_PINGRESP dup qos retained = Some 0xD0"
| "fixed_header_byte MT_DISCONNECT dup qos retained = Some 0xE0"
| "fixed_header_byte MT_INVALID dup qos retained = None"
| "fixed_header_byte MT_RESERVED dup qos retained = None"

definition Initialize_header ::
  "MessageTypes \<Rightarrow> bool \<Rightarrow> QoS \<Rightarrow> bool \<Rightarrow> nat \<Rightarrow> PacketFixedHeader \<Rightarrow> ResponseCode \<times> PacketFixedHeader" where
  "Initialize_header message_type is_duplicate qos is_retained rem_len h =
     (if MAX_MQTT_PACKET_REM_LEN_BYTES < rem_len then (FAILURE, h)
      else
        let h = h\<lparr>fh_is_valid := True, fh_remaining_length := rem_len,
                  fh_message_type := Some message_type, fh_byte := 0\<rparr>
        in case fixed_header_byte message_type is_duplicate qos is_retained of
             Some b \<Rightarrow> (SUCCESS, h\<lparr>fh_byte := b\<rparr>)
           | None \<Rightarrow> (FAILURE, h\<lparr>fh_is_valid := False\<rparr>))"

definition GetRemainingLengthByteCount :: "PacketFixedHeader \<Rightarrow> nat" where
  "GetRemainingLengthByteCount h =
     (if fh_remaining_length h < 128 then 1
      else if fh_remaining_length h < 16384 then 2
      else if fh_remaining_length h < 2097152 then 3
      else 4)"

definition Length_header :: "PacketFixedHeader \<Rightarrow> nat" where
  "Length_header h = GetRemainingLengthByteCount h + 1"

text \<open>The \<open>do ... while\<close> loop of \<open>AppendToBuffer\<close>.\<close>

function encode_remaining_length :: "nat \<Rightarrow> bytes" where
  "encode_remaining_length len =
     (let encoded_byte = of_nat (len mod 128); len' = len div 128
      in if len' > 0 then (encoded_byte OR 0x80) # encode_remaining_length len'
         else [encoded_byte])"
  by pat_completeness auto

termination encode_remaining_length
  by (relation "measure id") auto

declare encode_remaining_length.simps [simp del]

definition AppendToBuffer_header :: "PacketFixedHeader \<Rightarrow> bytes \<Rightarrow> bytes" where
  "AppendToBuffer_header h buf =
     buf @ [fh_byte h] @ (if 0 < fh_remaining_length h then encode_remaining_length (fh_remaining_length h) else [0])"

section \<open>Numbers and strings\<close>

definition AppendUInt16ToBuffer :: "bytes \<Rightarrow> u16 \<Rightarrow> bytes" where
  "AppendUInt16ToBuffer buf v = buf @ [of_nat (unat v div 256), of_nat (unat v mod 256)]"

definition ReadUInt16FromBuffer :: "bytes \<Rightarrow> nat \<Rightarrow> (u16 \<times> nat) res" where
  "ReadUInt16FromBuffer buf i =
     bind_res (vec_index buf i) (\<lambda>first_byte.
     bind_res (vec_index buf (i + 1)) (\<lambda>second_byte.
       Inr (of_nat (unat second_byte + 256 * unat first_byte), i + 2)))"

definition ReadUtf8StringFromBuffer :: "bytes \<Rightarrow> nat \<Rightarrow> (Utf8String option \<times> nat) res" where
  "ReadUtf8StringFromBuffer buf i =
     bind_res (vec_at buf i) (\<lambda>first_byte.
     bind_res (vec_at buf (i + 1)) (\<lambda>second_byte.
       let len = unat (of_nat (unat second_byte + 256 * unat first_byte) :: u16); i = i + 2
       in if 1 \<le> len \<and> len \<le> length buf - i
          then Inr (Create_Utf8String (take len (drop i buf)), i + len)
          else Inr (None, i)))"

text \<open>
  (\<open>buf.size() - extract_index\<close> does not wrap in \<open>ReadUtf8StringFromBuffer\<close>: both checked reads
  have succeeded.) Nothing at all is written for an empty string, and the length is written modulo \<open>65536\<close>.
\<close>

definition AppendUtf8StringToBuffer :: "bytes \<Rightarrow> Utf8String \<Rightarrow> bytes" where
  "AppendUtf8StringToBuffer buf s =
     (let len = Length_utf8 s
      in if len > 0 then buf @ [of_nat (len div 256), of_nat (len mod 256)] @ ToStdString s else buf)"

section \<open>Lengths\<close>

lemma encode_remaining_length_small: "n < 128 \<Longrightarrow> encode_remaining_length n = [of_nat n]"
  by (simp add: encode_remaining_length.simps)

lemma encode_remaining_length_step:
  "128 \<le> n \<Longrightarrow> encode_remaining_length n = (of_nat (n mod 128) OR 0x80) # encode_remaining_length (n div 128)"
  by (subst encode_remaining_length.simps) (simp add: Let_def)

lemma length_encode_remaining_length [wire_simps]:
  assumes "fh_remaining_length h \<le> MAX_MQTT_PACKET_REM_LEN_BYTES"
  shows "length (encode_remaining_length (fh_remaining_length h)) = GetRemainingLengthByteCount h"
proof -
  let ?n = "fh_remaining_length h"
  have n: "?n < 268435456" using assms by (simp add: MAX_MQTT_PACKET_REM_LEN_BYTES_def)
  consider "?n < 128" | "128 \<le> ?n" "?n < 16384" | "16384 \<le> ?n" "?n < 2097152" | "2097152 \<le> ?n"
    by linarith
  then show ?thesis
  proof cases
    case 1
    then show ?thesis by (simp add: encode_remaining_length_small GetRemainingLengthByteCount_def)
  next
    case 2
    then have "?n div 128 < 128" by simp
    with 2 show ?thesis
      by (simp add: encode_remaining_length_step encode_remaining_length_small GetRemainingLengthByteCount_def)
  next
    case 3
    then have "128 \<le> ?n div 128" "?n div 128 div 128 < 128" by (simp_all flip: div_mult2_eq)
    with 3 show ?thesis
      by (simp add: encode_remaining_length_step encode_remaining_length_small GetRemainingLengthByteCount_def)
  next
    case 4
    then have "128 \<le> ?n div 128" "128 \<le> ?n div 128 div 128" "?n div 128 div 128 div 128 < 128"
      using n by (simp_all flip: div_mult2_eq)
    with 4 show ?thesis
      by (simp add: encode_remaining_length_step encode_remaining_length_small GetRemainingLengthByteCount_def)
  qed
qed

lemma length_AppendToBuffer_header [wire_simps]:
  "fh_remaining_length h \<le> MAX_MQTT_PACKET_REM_LEN_BYTES \<Longrightarrow>
   length (AppendToBuffer_header h buf) = length buf + Length_header h"
  by (auto simp: AppendToBuffer_header_def Length_header_def length_encode_remaining_length)
    (simp add: GetRemainingLengthByteCount_def)

lemma length_AppendUInt16ToBuffer [wire_simps]: "length (AppendUInt16ToBuffer buf v) = length buf + 2"
  by (simp add: AppendUInt16ToBuffer_def)

definition Utf8String_ok :: "Utf8String \<Rightarrow> bool" where
  "Utf8String_ok s \<longleftrightarrow> utf8_length s = length (utf8_data s) \<and> is_valid (utf8_data s)"

lemma Create_Utf8String_ok: "Create_Utf8String s = Some u \<Longrightarrow> Utf8String_ok u \<and> utf8_data u = s"
  by (auto simp: Create_Utf8String_def IsValidInput_def Utf8String_ok_def split: if_splits)

lemma Create_Utf8String_data: "Utf8String_ok u \<Longrightarrow> Create_Utf8String (utf8_data u) = Some u"
  by (simp add: Create_Utf8String_def IsValidInput_def Utf8String_ok_def)

lemma length_AppendUtf8StringToBuffer [wire_simps]:
  "Utf8String_ok s \<Longrightarrow> length (AppendUtf8StringToBuffer buf s) =
     length buf + (if utf8_length s = 0 then 0 else utf8_length s + 2)"
  by (simp add: AppendUtf8StringToBuffer_def Utf8String_ok_def Let_def)

section \<open>Reading back what was written\<close>

text \<open>
  The contract between the writers and the readers: a field that was written is read back, wherever
  it stands in the buffer, and the index moves behind it. The locale derives that no encoding is a
  prefix of another.
\<close>

locale codec =
  fixes ok :: "'a \<Rightarrow> bool" and put :: "bytes \<Rightarrow> 'a \<Rightarrow> bytes" and get :: "bytes \<Rightarrow> nat \<Rightarrow> ('a \<times> nat) res"
  assumes put_appends: "put buf x = buf @ put [] x"
    and get_put: "ok x \<Longrightarrow> get (put buf x @ rest) (length buf) = Inr (x, length (put buf x))"
begin

lemma length_put: "length (put buf x) = length buf + length (put [] x)"
  by (subst put_appends) simp

lemma get_second:
  assumes "ok x" "ok y"
  shows "bind_res (get (put (put buf x) y @ rest) (length buf)) (\<lambda>(a, i).
         bind_res (get (put (put buf x) y @ rest) i) (\<lambda>(b, j). Inr (a, b, j)))
       = Inr (x, y, length (put (put buf x) y))"
proof -
  have "put (put buf x) y @ rest = put buf x @ (put [] y @ rest)"
    by (subst (1) put_appends) simp
  then show ?thesis
    using get_put [OF assms(1), of buf "put [] y @ rest"] get_put [OF assms(2), of "put buf x" rest]
    by simp
qed

lemma unique_decoding:
  assumes "ok x" "ok y" "put buf x @ rest = put buf y @ rest'"
  shows "x = y \<and> rest = rest'"
proof -
  have "Inr (x, length (put buf x)) = (Inr (y, length (put buf y)) :: ('a \<times> nat) res)"
    using get_put [OF assms(1), of buf rest] get_put [OF assms(2), of buf rest'] assms(3) by simp
  then have "x = y" by simp
  with assms(3) show ?thesis by simp
qed

end

lemma ReadUInt16_in:
  "i + 1 < length buf \<Longrightarrow>
   ReadUInt16FromBuffer buf i = Inr (of_nat (unat (buf ! (i + 1)) + 256 * unat (buf ! i)), i + 2)"
  by (simp add: ReadUInt16FromBuffer_def vec_index_def)

interpretation u16_codec: codec "\<lambda>_. True" AppendUInt16ToBuffer ReadUInt16FromBuffer
proof
  fix buf rest and x :: u16
  show "AppendUInt16ToBuffer buf x = buf @ AppendUInt16ToBuffer [] x"
    by (simp add: AppendUInt16ToBuffer_def)
  have b: "unat (of_nat (unat x div 256) :: byte) = unat x div 256" "unat (of_nat (unat x mod 256) :: byte) = unat x mod 256"
    using unat_u16_bound [of x] by (simp_all only: unat_of_nat_u8 div_less_iff_less_mult)
  show "ReadUInt16FromBuffer (AppendUInt16ToBuffer buf x @ rest) (length buf)
      = Inr (x, length (AppendUInt16ToBuffer buf x))"
    by (subst ReadUInt16_in) (simp_all add: AppendUInt16ToBuffer_def nth_append b)
qed

text \<open>
  For strings the contract needs what the code does not check: the string is not empty (nothing is
  written for an empty one) and shorter than \<open>65536\<close> bytes (the length is truncated).
\<close>

definition sendable :: "Utf8String \<Rightarrow> bool" where
  "sendable s \<longleftrightarrow> Utf8String_ok s \<and> 0 < utf8_length s \<and> utf8_length s < 65536"

lemma u16_of_bytes:
  assumes "n < 65536" "b0 = of_nat (n div 256)" "b1 = of_nat (n mod 256)"
  shows "unat (of_nat (unat (b1 :: byte) + 256 * unat (b0 :: byte)) :: u16) = n"
proof -
  have "unat b0 = n div 256" "unat b1 = n mod 256"
    using assms(1) unfolding assms(2,3) by (simp_all only: unat_of_nat_u8 div_less_iff_less_mult)
  then have "unat b1 + 256 * unat b0 = n" by simp
  with assms(1) show ?thesis by (simp only: unat_of_nat) simp
qed

lemma ReadUtf8_at:
  assumes "length pre = i" "unat (of_nat (unat b1 + 256 * unat b0) :: u16) = length body" "body \<noteq> []"
  shows "ReadUtf8StringFromBuffer (pre @ b0 # b1 # body @ rest) i = Inr (Create_Utf8String body, i + 2 + length body)"
  unfolding ReadUtf8StringFromBuffer_def vec_at_def
  using assms(1,3) by (simp add: nth_append Let_def assms(2) [simplified] Suc_le_eq)

lemma read_written_string:
  assumes "sendable s"
  shows "ReadUtf8StringFromBuffer (AppendUtf8StringToBuffer buf s @ rest) (length buf)
       = Inr (Some s, length (AppendUtf8StringToBuffer buf s))"
proof -
  let ?n = "utf8_length s" and ?b0 = "of_nat (utf8_length s div 256)" and ?b1 = "of_nat (utf8_length s mod 256)"
  have ok: "Utf8String_ok s" "0 < ?n" "?n < 65536" and len: "length (utf8_data s) = ?n"
    using assms by (auto simp: sendable_def Utf8String_ok_def)
  have buf: "AppendUtf8StringToBuffer buf s @ rest = buf @ ?b0 # ?b1 # utf8_data s @ rest"
    using ok(2) by (simp add: AppendUtf8StringToBuffer_def Let_def)
  have "ReadUtf8StringFromBuffer (AppendUtf8StringToBuffer buf s @ rest) (length buf)
      = Inr (Create_Utf8String (utf8_data s), length buf + 2 + length (utf8_data s))"
    unfolding buf
  proof (rule ReadUtf8_at)
    show "unat (of_nat (unat (?b1 :: byte) + 256 * unat (?b0 :: byte)) :: u16) = length (utf8_data s)"
      unfolding len by (rule u16_of_bytes [OF ok(3) refl refl])
    show "utf8_data s \<noteq> []" using ok(2) len by auto
  qed (rule refl)
  then show ?thesis
    using ok len by (simp add: Create_Utf8String_data length_AppendUtf8StringToBuffer)
qed

interpretation utf8_codec: codec
  "\<lambda>s. case s of None \<Rightarrow> False | Some u \<Rightarrow> sendable u"
  "\<lambda>buf s. case s of None \<Rightarrow> buf | Some u \<Rightarrow> AppendUtf8StringToBuffer buf u"
  ReadUtf8StringFromBuffer
proof
  fix buf rest and x :: "Utf8String option"
  show "(case x of None \<Rightarrow> buf | Some u \<Rightarrow> AppendUtf8StringToBuffer buf u)
      = buf @ (case x of None \<Rightarrow> [] | Some u \<Rightarrow> AppendUtf8StringToBuffer [] u)"
    by (simp add: AppendUtf8StringToBuffer_def Let_def split: option.split)
  assume "case x of None \<Rightarrow> False | Some u \<Rightarrow> sendable u"
  then show "ReadUtf8StringFromBuffer ((case x of None \<Rightarrow> buf | Some u \<Rightarrow> AppendUtf8StringToBuffer buf u) @ rest)
        (length buf)
      = Inr (x, length (case x of None \<Rightarrow> buf | Some u \<Rightarrow> AppendUtf8StringToBuffer buf u))"
    by (simp add: read_written_string split: option.split_asm)
qed

text \<open>what \<open>AppendUtf8StringToBuffer\<close> writes, \<open>ReadUtf8StringFromBuffer\<close> reads back at that place,
  for every string of 1 to 65535 bytes, whatever surrounds it.\<close>

theorem utf8_string_roundtrip:
  assumes "Create_Utf8String bs = Some s" "bs \<noteq> []" "length bs < 65536"
  shows "ReadUtf8StringFromBuffer (AppendUtf8StringToBuffer buf s @ rest) (length buf)
       = Inr (Some s, length buf + 2 + length bs)"
proof -
  have s: "Utf8String_ok s" "utf8_data s = bs" using assms(1) by (auto dest: Create_Utf8String_ok)
  then have "utf8_length s = length bs" by (simp add: Utf8String_ok_def)
  with s assms(2,3) show ?thesis
    by (subst read_written_string) (simp_all add: sendable_def wire_simps)
qed

lemma is_valid_ABC: "is_valid [97, 195, 169]"
proof -
  have "validate_next 97 [195, 169] = Inr (97, [195, 169])" "validate_next 195 [169] = Inr (233, [])"
    by (simp_all add: validate_next_def Let_def sequence_length_def is_trail_def is_code_point_valid_def
        is_surrogate_def is_overlong_sequence_def)
  then show ?thesis by (simp add: is_valid_def)
qed

definition sample_string :: Utf8String where
  "sample_string = \<lparr>utf8_data = [97, 195, 169], utf8_length = 3\<rparr>"

lemma Create_sample_string: "Create_Utf8String [97, 195, 169] = Some sample_string"
  by (simp add: Create_Utf8String_def IsValidInput_def is_valid_ABC sample_string_def)

theorem utf8_string_roundtrip_witness:
  "ReadUtf8StringFromBuffer (AppendUtf8StringToBuffer [1, 2] sample_string @ [7]) (length [1, 2 :: byte])
     = Inr (Some sample_string, length [1, 2 :: byte] + 2 + length [97, 195, 169 :: byte])"
  by (rule utf8_string_roundtrip) (simp_all add: Create_sample_string)

text \<open>The first byte \<open>Initialize\<close> chooses carries the message type in its upper four bits.\<close>

lemma fixed_header_byte_type:
  "fixed_header_byte t dup qos retained = Some b \<Longrightarrow> MessageTypes_of (unat (drop_bit 4 b)) = t"
  by (cases t; cases qos; cases dup; cases retained) (auto simp: MessageTypes_of_def)

text \<open>a fixed header that \<open>Initialize\<close> accepts is written in exactly \<open>Length()\<close> bytes, at most five,
  and its first byte carries the message type in the upper half.\<close>

theorem header_length_and_type:
  assumes "Initialize_header t dup qos retained n h0 = (SUCCESS, h)"
  shows "length (AppendToBuffer_header h buf) = length buf + Length_header h \<and> Length_header h \<le> 5 \<and>
    MessageTypes_of (unat (drop_bit 4 (AppendToBuffer_header h [] ! 0))) = t"
proof -
  have "fixed_header_byte t dup qos retained = Some (fh_byte h)" "fh_remaining_length h \<le> MAX_MQTT_PACKET_REM_LEN_BYTES"
    using assms by (auto simp: Initialize_header_def Let_def split: if_splits option.splits)
  moreover from this have "MessageTypes_of (unat (drop_bit 4 (AppendToBuffer_header h [] ! 0))) = t"
    by (simp add: AppendToBuffer_header_def fixed_header_byte_type)
  ultimately show ?thesis
    by (simp add: length_AppendToBuffer_header) (simp add: Length_header_def GetRemainingLengthByteCount_def)
qed

theorem header_length_and_type_witness:
  "length (AppendToBuffer_header
     \<lparr>fh_message_type = Some MT_PUBLISH, fh_byte = 0x33, fh_remaining_length = 321, fh_is_valid = True\<rparr> [9]) = 4"
  using header_length_and_type [of MT_PUBLISH False QOS1 True 321 PacketFixedHeader_new
      "\<lparr>fh_message_type = Some MT_PUBLISH, fh_byte = 0x33, fh_remaining_length = 321, fh_is_valid = True\<rparr>" "[9]"]
  by (simp add: Initialize_header_def MAX_MQTT_PACKET_REM_LEN_BYTES_def PacketFixedHeader_new_def Length_header_def
      GetRemainingLengthByteCount_def)

end
