(* ===== verification/Topics.thy ===== *)
theory Topics
  imports Wire
begin

text \<open>
  Will messages, topic filters and subscriptions (\<^verbatim>\<open>src/mqtt/Common.cpp\<close>,
  \<^verbatim>\<open>include/mqtt/Common.hpp\<close>), and the part of \<open>std::regex\<close> that the topic patterns need.

  An application callback is a \<open>std::function\<close>, here a number that names it; \<open>None\<close> is the empty
  function. The pattern that \<open>Subscription\<close> builds is kept as the string the code builds; what
  \<open>std::regex\<close> does with it is modelled for literals, the escaped dollar and starred negated bracket
  expressions. Every other pattern is a \<open>RegexError\<close>. The abstract side compares a topic with a
  filter level by level, as the MQTT standard describes it.
\<close>

section \<open>Will options\<close>

record WillOptions =
  will_struct_id :: "Utf8String option"
  will_is_retained :: bool
  will_qos :: QoS
  will_topic_name :: "Utf8String option"
  will_message :: bytes

definition WillOptions_new :: "bool \<Rightarrow> QoS \<Rightarrow> Utf8String option \<Rightarrow> bytes \<Rightarrow> WillOptions" where
  "WillOptions_new is_retained qos p_topic_name message =
     \<lparr>will_struct_id = Create_Utf8String (str ''MQTW''), will_is_retained = is_retained,
      will_qos = qos, will_topic_name = p_topic_name, will_message = message\<rparr>"

definition Create_WillOptions :: "bool \<Rightarrow> QoS \<Rightarrow> Utf8String option \<Rightarrow> bytes \<Rightarrow> WillOptions option" where
  "Create_WillOptions is_retained qos p_topic_name message =
     (if p_topic_name = None then None else Some (WillOptions_new is_retained qos p_topic_name message))"

definition copy_WillOptions :: "WillOptions \<Rightarrow> WillOptions res" where
  "copy_WillOptions source =
     bind_res (deref (will_struct_id source)) (\<lambda>sid.
     bind_res (deref (will_topic_name source)) (\<lambda>topic.
       Inr \<lparr>will_struct_id = Create_Utf8String (ToStdString sid),
            will_is_retained = will_is_retained source, will_qos = will_qos source,
            will_topic_name = Create_Utf8String (ToStdString topic),
            will_message = will_message source\<rparr>))"

definition Length_will :: "WillOptions \<Rightarrow> nat res" where
  "Length_will w =
     bind_res (deref (will_topic_name w)) (\<lambda>topic.
       Inr (size_add (Length_utf8 topic) (length (will_message w))))"

definition WriteToBuffer_will :: "WillOptions \<Rightarrow> bytes \<Rightarrow> bytes res" where
  "WriteToBuffer_will w buf =
     bind_res (deref (will_topic_name w)) (\<lambda>topic.
       let len = Length_utf8 topic;
           buf = (if len > 0 then buf @ [of_nat (len div 256), of_nat (len mod 256)] @ ToStdString topic else buf);
           len = length (will_message w)
       in Inr (if len > 0 then buf @ [of_nat (len div 256), of_nat (len mod 256)] @ will_message w else buf))"

definition SetConnectFlags :: "WillOptions \<Rightarrow> u8 \<Rightarrow> u8" where
  "SetConnectFlags w flag =
     (let flag = (if will_is_retained w then flag OR 0x20 else flag);
          flag = (case will_qos w of QOS0 \<Rightarrow> flag | QOS1 \<Rightarrow> flag OR 0x08)
      in flag OR 0x04)"

section \<open>Topic names\<close>

abbreviation slash :: byte where "slash \<equiv> 0x2F"
abbreviation plus_sign :: byte where "plus_sign \<equiv> 0x2B"
abbreviation hash_sign :: byte where "hash_sign \<equiv> 0x23"
abbreviation dollar :: byte where "dollar \<equiv> 0x24"

text \<open>
  The loop of \<open>IsValidTopicName\<close>: \<open>it\<close> runs over the name; \<open>prev\<close> is \<open>*(it - 1)\<close>, \<open>None\<close> at the
  beginning, and \<open>rest\<close> is what follows \<open>it\<close>.
\<close>

fun topic_loop :: "byte option \<Rightarrow> bytes \<Rightarrow> bool" where
  "topic_loop prev [] = True"
| "topic_loop prev (c # rest) =
     (let next_is_slash = (case rest of [] \<Rightarrow> False | n # _ \<Rightarrow> n = slash) in
      (if c = plus_sign then
         (if prev = None then next_is_slash \<or> rest = []
          else if rest = [] then prev = Some slash
          else prev = Some slash \<and> next_is_slash)
       else if c = hash_sign then
         rest = [] \<and> (prev = None \<or> prev = Some slash)
       else True)
      \<and> topic_loop (Some c) rest)"

definition IsValidTopicName :: "bytes \<Rightarrow> bool" where
  "IsValidTopicName name =
     (if length name = 1 then name ! 0 \<noteq> dollar else topic_loop None name)"

section \<open>Subscriptions\<close>

record Subscription =
  sub_is_active :: bool
  sub_packet_id :: u16
  sub_index_in_packet :: u8
  sub_max_qos :: QoS
  sub_topic_name :: Utf8String
  sub_app_handler :: "nat option"
  sub_app_handler_data :: "nat option"
  sub_topic_regex :: bytes

text \<open>The pattern: what one byte of the topic name contributes, and the whole of it.\<close>

definition SINGLE_LEVEL_REGEX_STRING :: bytes where
  "SINGLE_LEVEL_REGEX_STRING = [0x5B, 0x5E, 0x2F, 0x5D, 0x2A]"

text \<open>\<open>u8"[^\uc1bf]*"\<close>: the code point is three bytes in the execution character set.\<close>

definition MULTI_LEVEL_REGEX_STRING :: bytes where
  "MULTI_LEVEL_REGEX_STRING = [0x5B, 0x5E, 0xEC, 0x86, 0xBF, 0x5D, 0x2A]"

definition regex_of_byte :: "byte \<Rightarrow> bytes" where
  "regex_of_byte c =
     (if c = plus_sign then SINGLE_LEVEL_REGEX_STRING
      else if c = hash_sign then MULTI_LEVEL_REGEX_STRING
      else if c = dollar then [0x5C, dollar]
      else [c])"

definition topic_regex :: "bytes \<Rightarrow> bytes" where
  "topic_regex name =
     (if hash_sign \<in> set name \<or> plus_sign \<in> set name then concat (map regex_of_byte name) else [])"

definition Subscription_new :: "Utf8String \<Rightarrow> QoS \<Rightarrow> nat option \<Rightarrow> nat option \<Rightarrow> Subscription" where
  "Subscription_new topic max_qos p_app_handler p_app_handler_data =
     \<lparr>sub_is_active = False, sub_packet_id = 0, sub_index_in_packet = 0, sub_max_qos = max_qos,
      sub_topic_name = topic, sub_app_handler = p_app_handler,
      sub_app_handler_data = p_app_handler_data, sub_topic_regex = topic_regex (ToStdString topic)\<rparr>"

definition Create_Subscription :: "Utf8String option \<Rightarrow> QoS \<Rightarrow> nat option \<Rightarrow> nat option \<Rightarrow> Subscription option" where
  "Create_Subscription p_topic_name max_qos p_app_handler p_app_handler_data =
     (case p_topic_name of
        None \<Rightarrow> None
      | Some topic \<Rightarrow>
          if p_app_handler = None then None
          else if \<not> IsValidTopicName (ToStdString topic) then None
          else Some (Subscription_new topic max_qos p_app_handler p_app_handler_data))"

definition IsInSuback :: "Subscription \<Rightarrow> u16 \<Rightarrow> u8 \<Rightarrow> bool" where
  "IsInSuback s packet_id index_in_packet \<longleftrightarrow>
     packet_id = sub_packet_id s \<and> index_in_packet = sub_index_in_packet s"

definition SetAckIndex :: "u16 \<Rightarrow> u8 \<Rightarrow> Subscription \<Rightarrow> Subscription" where
  "SetAckIndex packet_id index_in_packet s =
     s\<lparr>sub_packet_id := packet_id, sub_index_in_packet := index_in_packet\<rparr>"

definition SetActive :: "bool \<Rightarrow> Subscription \<Rightarrow> Subscription" where
  "SetActive v s = s\<lparr>sub_is_active := v\<rparr>"

definition SetMaxQos :: "QoS \<Rightarrow> Subscription \<Rightarrow> Subscription" where
  "SetMaxQos q s = s\<lparr>sub_max_qos := q\<rparr>"

definition GetTopicNameLength :: "Subscription \<Rightarrow> nat" where
  "GetTopicNameLength s = Length_utf8 (sub_topic_name s)"

section \<open>Regular expressions\<close>

text \<open>
  The fragment of ECMAScript expressions that is interpreted: literal bytes, \<open>\$\<close>, and \<open>[^...]*\<close>
  without ranges, escapes or character classes in the bracket.
\<close>

datatype regex_item = Lit byte | NegStar bytes

definition regex_special :: "byte set" where
  "regex_special = {0x24, 0x28, 0x29, 0x2A, 0x2B, 0x2E, 0x3F, 0x5B, 0x5C, 0x5D, 0x5E, 0x7B, 0x7C, 0x7D, 0}"

text \<open>The members of a bracket expression up to the closing bracket, and what follows it.\<close>

fun parse_bracket :: "bytes \<Rightarrow> (bytes \<times> bytes) option" where
  "parse_bracket [] = None"
| "parse_bracket (c # s) =
     (if c = 0x5D then Some ([], s)
      else if c = 0x5B \<or> c = 0x5C \<or> c = 0x2D \<or> c = 0x5E then None
      else map_option (\<lambda>(cs, t). (c # cs, t)) (parse_bracket s))"

lemma parse_bracket_shorter: "parse_bracket s = Some (cs, t) \<Longrightarrow> length t < length s"
  by (induction s arbitrary: cs t) (force split: if_splits)+

function parse_regex :: "bytes \<Rightarrow> regex_item list res" where
  "parse_regex [] = Inr []"
| "parse_regex (c # s) =
     (if c = 0x5B then
        (case s of
           d # s' \<Rightarrow>
             if d = 0x5E then
               (case parse_bracket s' of
                  Some (cs, star # t) \<Rightarrow>
                    if star = 0x2A \<and> cs \<noteq> [] then bind_res (parse_regex t) (\<lambda>r. Inr (NegStar cs # r))
                    else Inl RegexError
                | _ \<Rightarrow> Inl RegexError)
             else Inl RegexError
         | [] \<Rightarrow> Inl RegexError)
      else if c = 0x5C then
        (case s of
           d # s' \<Rightarrow> if d = dollar then bind_res (parse_regex s') (\<lambda>r. Inr (Lit d # r)) else Inl RegexError
         | [] \<Rightarrow> Inl RegexError)
      else if c \<in> regex_special then Inl RegexError
      else bind_res (parse_regex s) (\<lambda>r. Inr (Lit c # r)))"
  by pat_completeness auto

termination parse_regex
  by (relation "measure length") (auto dest: parse_bracket_shorter)

text \<open>Matching the whole of a string.\<close>

fun re_match :: "regex_item list \<Rightarrow> bytes \<Rightarrow> bool" where
  "re_match [] s = (s = [])"
| "re_match (Lit c # r) [] = False"
| "re_match (Lit c # r) (d # s) = (c = d \<and> re_match r s)"
| "re_match (NegStar cs # r) [] = re_match r []"
| "re_match (NegStar cs # r) (d # s) = (re_match r (d # s) \<or> (d \<notin> set cs \<and> re_match (NegStar cs # r) s))"

text \<open>\<open>std::regex_match(topic.c_str(), std::regex(pattern))\<close>: the topic ends at its first zero byte.\<close>

definition regex_match :: "bytes \<Rightarrow> bytes \<Rightarrow> bool res" where
  "regex_match topic pattern =
     bind_res (parse_regex pattern) (\<lambda>r. Inr (re_match r (takeWhile (\<lambda>b. b \<noteq> 0) topic)))"

section \<open>Levels\<close>

fun levels :: "bytes \<Rightarrow> bytes list" where
  "levels [] = [[]]"
| "levels (c # s) =
     (if c = slash then [] # levels s
      else case levels s of l # ls \<Rightarrow> (c # l) # ls | [] \<Rightarrow> [[c]])"

lemma levels_nonempty [simp]: "levels s \<noteq> []"
  by (induction s) (auto split: list.splits)

text \<open>
  A filter is well formed when a single-level wildcard fills its level and a multi-level wildcard is
  the whole last level.
\<close>

definition single_level_ok :: "bytes \<Rightarrow> bool" where
  "single_level_ok l \<longleftrightarrow> (plus_sign \<in> set l \<longrightarrow> l = [plus_sign])"

fun filter_levels_ok :: "bytes list \<Rightarrow> bool" where
  "filter_levels_ok [] = True"
| "filter_levels_ok [l] = (single_level_ok l \<and> (hash_sign \<in> set l \<longrightarrow> l = [hash_sign]))"
| "filter_levels_ok (l # l' # ls) = (single_level_ok l \<and> hash_sign \<notin> set l \<and> filter_levels_ok (l' # ls))"

lemma filter_levels_ok_Cons:
  "filter_levels_ok (l # ls) \<longleftrightarrow>
     single_level_ok l \<and> (if ls = [] then hash_sign \<in> set l \<longrightarrow> l = [hash_sign] else hash_sign \<notin> set l)
     \<and> filter_levels_ok ls"
  by (cases ls) auto

lemma levels_slash [simp]: "levels (slash # s) = [] # levels s"
  by simp

lemma levels_other [simp]: "c \<noteq> slash \<Longrightarrow> levels (c # s) = (c # hd (levels s)) # tl (levels s)"
  by (cases "levels s") simp_all

declare levels.simps(2) [simp del]

lemma hd_levels_Nil: "hd (levels s) = [] \<longleftrightarrow> s = [] \<or> hd s = slash"
  by (cases s rule: list.exhaust [case_names Nil Cons]; simp; cases "hd s = slash"; simp)

lemma levels_single: "tl (levels s) = [] \<longleftrightarrow> slash \<notin> set s"
proof (induction s)
  case (Cons c s)
  then show ?case by (cases "c = slash") simp_all
qed simp

lemma levels_singleton_Nil: "hd (levels s) = [] \<and> tl (levels s) = [] \<longleftrightarrow> s = []"
  by (cases s) (auto simp: hd_levels_Nil levels_single)

text \<open>
  The loop in the middle of a level has no wildcard left to see; at the start of a level it checks
  the levels from there on.
\<close>

lemma topic_loop_levels:
  "topic_loop (Some slash) s \<longleftrightarrow> filter_levels_ok (levels s)"
  "p \<noteq> slash \<Longrightarrow> topic_loop (Some p) s \<longleftrightarrow>
     plus_sign \<notin> set (hd (levels s)) \<and> hash_sign \<notin> set (hd (levels s)) \<and> filter_levels_ok (tl (levels s))"
proof (induction s arbitrary: p)
  case Nil
  { case 1 show ?case by (simp add: single_level_ok_def) }
  { case 2 then show ?case by simp }
next
  case (Cons c s)
  have next_slash: "(case s of [] \<Rightarrow> False | n # _ \<Rightarrow> n = slash) \<or> s = [] \<longleftrightarrow> hd (levels s) = []"
    by (cases s) (auto simp: hd_levels_Nil)
  { case 1
    show ?case
    proof (cases "c = slash")
      case True
      then show ?thesis using Cons.IH(1) by (simp add: filter_levels_ok_Cons single_level_ok_def)
    next
      case False
      then show ?thesis
        using Cons.IH(2) [of c] next_slash levels_singleton_Nil [of s]
        by (auto simp: filter_levels_ok_Cons single_level_ok_def Let_def)
    qed }
  { case 2
    then show ?case
      using Cons.IH(1) Cons.IH(2) [of c] by (cases "c = slash") (auto simp: Let_def) }
qed

lemma topic_loop_start: "topic_loop None s = topic_loop (Some slash) s"
  by (cases s) (auto simp: Let_def)

text \<open>a topic filter is accepted exactly when it is not the single character \<open>$\<close>, every \<open>+\<close> fills a
  level of its own, and \<open>#\<close> occurs only as the whole last level.\<close>

theorem IsValidTopicName_levels:
  "IsValidTopicName name \<longleftrightarrow> name \<noteq> [dollar] \<and> filter_levels_ok (levels name)"
proof (cases "length name = 1")
  case True
  then obtain c where c: "name = [c]" by (auto simp: length_Suc_conv)
  have "filter_levels_ok (levels [c])"
    by (cases "c = slash") (simp_all add: filter_levels_ok_Cons single_level_ok_def)
  with c show ?thesis by (simp add: IsValidTopicName_def)
next
  case False
  then show ?thesis
    by (auto simp: IsValidTopicName_def topic_loop_start topic_loop_levels(1))
qed

section \<open>The pattern against the levels\<close>

text \<open>
  Level-wise comparison, as the code's pattern performs it: \<open>+\<close> stands for one level, \<open>#\<close> for the
  rest, of at least one level, without the three bytes the placeholder of the pattern excludes.
\<close>

abbreviation multi_level_excluded :: bytes where
  "multi_level_excluded \<equiv> [0xEC, 0x86, 0xBF]"

fun level_match :: "bytes list \<Rightarrow> bytes list \<Rightarrow> bool" where
  "level_match [] ts = (ts = [])"
| "level_match (f # fs) [] = False"
| "level_match (f # fs) (t # ts) =
     (if f = [hash_sign] then (\<forall>l \<in> set (t # ts). set l \<inter> set multi_level_excluded = {})
      else (f = [plus_sign] \<or> f = t) \<and> level_match fs ts)"

definition regex_item_of :: "byte \<Rightarrow> regex_item" where
  "regex_item_of c =
     (if c = plus_sign then NegStar [slash]
      else if c = hash_sign then NegStar multi_level_excluded
      else Lit c)"

definition plain_filter :: "bytes \<Rightarrow> bool" where
  "plain_filter f \<longleftrightarrow> (\<forall>c \<in> set f. c \<notin> regex_special - {plus_sign, dollar})"

lemma parse_regex_of_byte:
  assumes "c \<notin> regex_special - {plus_sign, dollar}"
  shows "parse_regex (regex_of_byte c @ s) = bind_res (parse_regex s) (\<lambda>r. Inr (regex_item_of c # r))"
proof -
  consider "c = plus_sign" | "c = hash_sign" | "c = dollar" | "c \<notin> regex_special" "c \<noteq> hash_sign"
    using assms by auto
  then show ?thesis
  proof cases
    case 4
    moreover from this have "c \<noteq> 0x5B" "c \<noteq> 0x5C" "c \<noteq> plus_sign" "c \<noteq> dollar"
      by (auto simp: regex_special_def)
    ultimately show ?thesis by (simp add: regex_of_byte_def regex_item_of_def)
  qed (simp_all add: regex_of_byte_def regex_item_of_def SINGLE_LEVEL_REGEX_STRING_def MULTI_LEVEL_REGEX_STRING_def)
qed

lemma parse_topic_regex:
  "plain_filter f \<Longrightarrow> parse_regex (concat (map regex_of_byte f)) = Inr (map regex_item_of f)"
  by (induction f) (simp_all add: plain_filter_def parse_regex_of_byte)

lemma re_match_Lits: "re_match (map Lit l @ r) s \<longleftrightarrow> (\<exists>s'. s = l @ s' \<and> re_match r s')"
proof (induction l arbitrary: s)
  case (Cons c l)
  then show ?case by (cases s) auto
qed simp

lemma re_match_NegStar: "re_match (NegStar cs # r) s \<longleftrightarrow> (\<exists>p s'. s = p @ s' \<and> set p \<inter> set cs = {} \<and> re_match r s')"
proof (induction s)
  case (Cons d s)
  show ?case
  proof
    assume "re_match (NegStar cs # r) (d # s)"
    then consider "re_match r (d # s)" | "d \<notin> set cs" "re_match (NegStar cs # r) s" by auto
    then show "\<exists>p s'. d # s = p @ s' \<and> set p \<inter> set cs = {} \<and> re_match r s'"
    proof cases
      case 1
      then show ?thesis by (intro exI [of _ "[]"] exI [of _ "d # s"]) simp
    next
      case 2
      with Cons.IH obtain p s' where "s = p @ s'" "set p \<inter> set cs = {}" "re_match r s'" by blast
      with 2 show ?thesis by (intro exI [of _ "d # p"] exI [of _ s']) simp
    qed
  next
    assume "\<exists>p s'. d # s = p @ s' \<and> set p \<inter> set cs = {} \<and> re_match r s'"
    then obtain p s' where *: "d # s = p @ s'" "set p \<inter> set cs = {}" "re_match r s'" by blast
    then show "re_match (NegStar cs # r) (d # s)"
      using Cons.IH by (cases p) auto
  qed
qed auto

lemma levels_no_slash: "slash \<notin> set l \<Longrightarrow> levels l = [l]"
  by (induction l) auto

lemma levels_append_slash: "slash \<notin> set l \<Longrightarrow> levels (l @ slash # s) = l # levels s"
  by (induction l) auto

lemma split_first_slash: "(slash \<notin> set s) \<or> (\<exists>l s'. s = l @ slash # s' \<and> slash \<notin> set l)"
  by (metis split_list_first)

lemma levels_bytes: "slash \<notin> X \<Longrightarrow> (\<forall>l \<in> set (levels s). set l \<inter> X = {}) \<longleftrightarrow> set s \<inter> X = {}"
proof (induction s)
  case (Cons c s)
  have "set (levels s) = insert (hd (levels s)) (set (tl (levels s)))"
    by (metis levels_nonempty list.collapse list.simps(15))
  with Cons show ?case by (cases "c = slash") auto
qed simp

lemma regex_items_plain:
  "plus_sign \<notin> set l \<Longrightarrow> hash_sign \<notin> set l \<Longrightarrow> map regex_item_of l = map Lit l"
  by (induction l) (auto simp: regex_item_of_def)

lemma filter_ok_first:
  assumes "filter_levels_ok (l # ls)"
  obtains "l = [plus_sign]" | "l = [hash_sign]" "ls = []" | "plus_sign \<notin> set l" "hash_sign \<notin> set l"
  using assms by (cases "plus_sign \<in> set l"; cases "hash_sign \<in> set l")
    (auto simp: filter_levels_ok_Cons single_level_ok_def split: if_splits)

text \<open>The two ways a topic meets the end of a level of the filter.\<close>

lemma level_match_single:
  "level_match [l] (levels s) \<longleftrightarrow>
     (if l = [hash_sign] then set s \<inter> set multi_level_excluded = {}
      else slash \<notin> set s \<and> (l = [plus_sign] \<or> l = s))"
proof -
  obtain t ts where ts: "levels s = t # ts" by (cases "levels s") simp_all
  have "ts = [] \<longleftrightarrow> slash \<notin> set s" using levels_single [of s] ts by simp
  moreover have "slash \<notin> set s \<Longrightarrow> t = s" using ts by (simp add: levels_no_slash)
  moreover have "(\<forall>l \<in> set (levels s). set l \<inter> set multi_level_excluded = {})
      \<longleftrightarrow> set s \<inter> set multi_level_excluded = {}"
    by (rule levels_bytes) simp
  ultimately show ?thesis using ts by auto
qed

lemma first_slash_unique:
  "slash \<notin> set t \<Longrightarrow> slash \<notin> set t' \<Longrightarrow> t @ slash # s = t' @ slash # s' \<Longrightarrow> t' = t \<and> s' = s"
proof -
  assume *: "slash \<notin> set t" "slash \<notin> set t'" "t @ slash # s = t' @ slash # s'"
  have "slash \<notin> set u \<Longrightarrow> takeWhile (\<lambda>c. c \<noteq> slash) (u @ slash # r) = u" for u r
    by (induction u) simp_all
  from this [OF *(1), of s] this [OF *(2), of s'] have "t = t'"
    unfolding *(3) by (rule box_equals [OF refl])
  with *(3) show ?thesis by simp
qed

lemma level_match_more:
  "l \<noteq> [hash_sign] \<Longrightarrow> ls \<noteq> [] \<Longrightarrow>
   level_match (l # ls) (levels s) \<longleftrightarrow>
     (\<exists>t s'. s = t @ slash # s' \<and> slash \<notin> set t \<and> (l = [plus_sign] \<or> l = t) \<and> level_match ls (levels s'))"
proof -
  assume l: "l \<noteq> [hash_sign]" "ls \<noteq> []"
  show ?thesis
  proof (cases "slash \<in> set s")
    case False
    with l show ?thesis by (cases ls) (auto simp: levels_no_slash)
  next
    case True
    then obtain t s' where s: "s = t @ slash # s'" "slash \<notin> set t" using split_first_slash by blast
    have "(\<exists>t' s''. s = t' @ slash # s'' \<and> slash \<notin> set t' \<and> P t' s'') \<longleftrightarrow> P t s'" for P
      using s first_slash_unique [OF s(2)] by metis
    with s l show ?thesis by (simp add: levels_append_slash)
  qed
qed

lemma re_match_last_level:
  assumes ok: "filter_levels_ok [l]" and l: "slash \<notin> set l"
  shows "re_match (map regex_item_of l) s = level_match [l] (levels s)"
  using ok
proof (cases rule: filter_ok_first)
  case 1
  then show ?thesis
    unfolding level_match_single by (simp add: regex_item_of_def re_match_NegStar)
next
  case 2
  then show ?thesis
    unfolding level_match_single by (simp add: regex_item_of_def re_match_NegStar)
next
  case 3
  then have "l \<noteq> [plus_sign]" "l \<noteq> [hash_sign]" by auto
  with 3 l show ?thesis
    unfolding level_match_single using re_match_Lits [of l "[]" s] by (auto simp: regex_items_plain)
qed

lemma re_match_levels:
  assumes "filter_levels_ok (levels f)"
  shows "re_match (map regex_item_of f) s = level_match (levels f) (levels s)"
  using assms
proof (induction "length f" arbitrary: f s rule: less_induct)
  case less
  show ?case
  proof (cases "slash \<in> set f")
    case False
    with less.prems show ?thesis by (simp add: levels_no_slash re_match_last_level)
  next
    case True
    then obtain l f' where f: "f = l @ slash # f'" "slash \<notin> set l"
      using split_first_slash by blast
    have lev: "levels f = l # levels f'" using f by (simp add: levels_append_slash)
    have ok': "filter_levels_ok (levels f')" and not_hash: "l \<noteq> [hash_sign]"
      using less.prems unfolding lev by (auto simp: filter_levels_ok_Cons)
    have IH: "re_match (map regex_item_of f') t = level_match (levels f') (levels t)" for t
      using less.hyps [OF _ ok'] f by simp
    have step: "re_match (map regex_item_of (slash # f')) u \<longleftrightarrow>
        (\<exists>t. u = slash # t \<and> level_match (levels f') (levels t))" for u
      by (cases u) (auto simp: regex_item_of_def IH)
    have ok_l: "filter_levels_ok (l # levels f')" using less.prems unfolding lev .
    then show ?thesis
      unfolding lev level_match_more [OF not_hash levels_nonempty]
    proof (cases rule: filter_ok_first)
      case 1
      then have "map regex_item_of f = NegStar [slash] # map regex_item_of (slash # f')"
        using f by (simp add: regex_item_of_def)
      with 1 show "re_match (map regex_item_of f) s =
          (\<exists>t s'. s = t @ slash # s' \<and> slash \<notin> set t \<and> (l = [plus_sign] \<or> l = t) \<and> level_match (levels f') (levels s'))"
        by (auto simp: re_match_NegStar step simp del: list.map)
    next
      case 3
      then have "map regex_item_of f = map Lit l @ map regex_item_of (slash # f')" "l \<noteq> [plus_sign]"
        using f by (simp_all add: regex_items_plain) auto
      then show "re_match (map regex_item_of f) s =
          (\<exists>t s'. s = t @ slash # s' \<and> slash \<notin> set t \<and> (l = [plus_sign] \<or> l = t) \<and> level_match (levels f') (levels s'))"
        unfolding re_match_Lits step using f(2) by (auto simp: re_match_Lits step simp del: list.map)
    qed (use not_hash in simp)
  qed
qed

lemma regex_match_levels:
  assumes "IsValidTopicName f" "plain_filter f" "plus_sign \<in> set f \<or> hash_sign \<in> set f" "0 \<notin> set topic"
  shows "regex_match topic (topic_regex f) = Inr (level_match (levels f) (levels topic))"
proof -
  have "filter_levels_ok (levels f)" using assms(1) by (simp add: IsValidTopicName_levels)
  moreover have "takeWhile (\<lambda>b. b \<noteq> 0) topic = topic" using assms(4) by (induction topic) simp_all
  moreover have "topic_regex f = concat (map regex_of_byte f)" using assms(3) by (auto simp: topic_regex_def)
  ultimately show ?thesis
    using assms(2) by (simp only: regex_match_def parse_topic_regex bind_res_simps re_match_levels)
qed

text \<open>for an accepted filter with a wildcard and no other character that is special in a regular
  expression, the pattern the subscription builds matches a topic exactly when the topic agrees with
  the filter level by level.\<close>

theorem topic_regex_matches_levels:
  assumes "IsValidTopicName f" "plain_filter f" "plus_sign \<in> set f \<or> hash_sign \<in> set f" "0 \<notin> set topic"
  shows "regex_match topic (topic_regex f) = Inr (level_match (levels f) (levels topic))"
  using assms by (rule regex_match_levels)

theorem topic_regex_matches_levels_witness:
  "regex_match [97, slash, 98] (topic_regex [97, slash, plus_sign]) = Inr True"
  using topic_regex_matches_levels [of "[97, slash, plus_sign]" "[97, slash, 98]"]
  by (simp add: IsValidTopicName_def Let_def plain_filter_def regex_special_def)

text \<open>
  Two consequences: \<open>sport/#\<close> does not cover the parent level \<open>sport\<close>, and \<open>#\<close> refuses valid topics:
  here the single character U+C548, encoded as \<open>EC 95 88\<close>, because the pattern excludes each of the
  three bytes of its placeholder.
\<close>

lemma multi_level_needs_a_level:
  "regex_match (str ''sport'') (topic_regex (str ''sport/#'')) = Inr False"
  by (simp add: str_def topic_regex_def regex_of_byte_def MULTI_LEVEL_REGEX_STRING_def regex_match_def regex_special_def)

text \<open>the pattern for \<open>#\<close> rejects a topic of one valid character, because one of its bytes is excluded.\<close>

theorem multi_level_rejects_character:
  "is_valid [0xEC, 0x95, 0x88] \<and> IsValidTopicName [hash_sign] \<and>
   regex_match [0xEC, 0x95, 0x88] (topic_regex [hash_sign]) = Inr False"
proof -
  have "validate_next 0xEC [0x95, 0x88] = Inr (0xC548, [])"
    by (simp add: validate_next_def Let_def sequence_length_def is_trail_def is_code_point_valid_def
        is_surrogate_def is_overlong_sequence_def)
  then show ?thesis
    by (simp add: is_valid_def IsValidTopicName_def topic_regex_def regex_of_byte_def
        MULTI_LEVEL_REGEX_STRING_def regex_match_def)
qed

end
