(* ===== verification/Network.thy ===== *)
theory Network
  imports ResponseCodes
begin

text \<open>
  The network interface (\<^verbatim>\<open>include/NetworkConnection.hpp\<close>, \<^verbatim>\<open>src/NetworkConnection.cpp\<close>) and the two
  transfer loops of \<open>Action\<close> (\<^verbatim>\<open>src/Action.cpp\<close>).

  \<open>NetworkConnection\<close> is an abstract class: a record of its virtual functions over a device state
  \<open>'n\<close>, chosen by the port of the SDK. An output parameter is passed in and returned, because the
  code relies on the value it had when a call leaves it alone. The device state also stands for
  whatever other threads do meanwhile: the flag \<open>p_thread_continue_\<close> of an action that runs as a
  thread is read from it by \<open>go\<close>. An action that is called directly keeps the flag of its
  constructor, which is \<open>false\<close>. Sleeping has no effect on the state.
\<close>

section \<open>The interface\<close>

record 'n NetworkConnection =
  nc_IsConnected :: "'n \<Rightarrow> bool"
  nc_ConnectInternal :: "'n \<Rightarrow> ResponseCode \<times> 'n"
  nc_DisconnectInternal :: "'n \<Rightarrow> ResponseCode \<times> 'n"
  nc_WriteInternal :: "bytes \<Rightarrow> nat \<Rightarrow> 'n \<Rightarrow> ResponseCode \<times> nat \<times> 'n"
  nc_ReadInternal :: "bytes \<Rightarrow> nat \<Rightarrow> nat \<Rightarrow> nat \<Rightarrow> 'n \<Rightarrow> ResponseCode \<times> bytes \<times> nat \<times> 'n"

text \<open>
  Each public operation holds the mutexes it needs for its whole duration, so it is one step.
\<close>

definition Connect_nc :: "'n NetworkConnection \<Rightarrow> 'n \<Rightarrow> ResponseCode \<times> 'n" where
  "Connect_nc nc n = nc_ConnectInternal nc n"

definition Write_nc :: "'n NetworkConnection \<Rightarrow> bytes \<Rightarrow> nat \<Rightarrow> 'n \<Rightarrow> ResponseCode \<times> nat \<times> 'n" where
  "Write_nc nc buf written n =
     (if nc_IsConnected nc n then nc_WriteInternal nc buf written n
      else (NETWORK_DISCONNECTED_ERROR, written, n))"

definition Read_nc ::
  "'n NetworkConnection \<Rightarrow> bytes \<Rightarrow> nat \<Rightarrow> nat \<Rightarrow> nat \<Rightarrow> 'n \<Rightarrow> ResponseCode \<times> bytes \<times> nat \<times> 'n" where
  "Read_nc nc buf offset sz size_read n =
     (if nc_IsConnected nc n then nc_ReadInternal nc buf offset sz size_read n
      else (NETWORK_DISCONNECTED_ERROR, buf, size_read, n))"

definition Disconnect_nc :: "'n NetworkConnection \<Rightarrow> 'n \<Rightarrow> ResponseCode \<times> 'n" where
  "Disconnect_nc nc n = nc_DisconnectInternal nc n"

section \<open>Reading and writing whole buffers\<close>

text \<open>
  The \<open>do ... while\<close> loops, with a bound on the iterations. The state of the reading loop is the
  buffer, \<open>total_read_bytes\<close>, \<open>cur_read_bytes\<close> and the device.
\<close>

fun read_loop ::
  "nat \<Rightarrow> ('n \<Rightarrow> bool) \<Rightarrow> 'n NetworkConnection \<Rightarrow> nat \<Rightarrow> bytes \<Rightarrow> nat \<Rightarrow> nat \<Rightarrow> 'n \<Rightarrow> (ResponseCode \<times> bytes \<times> nat \<times> 'n) res" where
  "read_loop 0 go nc bytes_to_read buf tot cur n = Inl OutOfFuel"
| "read_loop (Suc fuel) go nc bytes_to_read buf tot cur n =
     (case Read_nc nc buf tot (size_sub bytes_to_read tot) cur n of
        (rc, buf, cur, n) \<Rightarrow>
          let tot = size_add tot cur in
          if go n \<and> tot \<noteq> bytes_to_read \<and> rc = SUCCESS
          then read_loop fuel go nc bytes_to_read buf tot cur n
          else Inr (rc, buf, tot, n))"

definition ReadFromNetworkBuffer ::
  "nat \<Rightarrow> ('n \<Rightarrow> bool) \<Rightarrow> 'n NetworkConnection option \<Rightarrow> bytes \<Rightarrow> nat \<Rightarrow> 'n \<Rightarrow> (ResponseCode \<times> bytes \<times> 'n) res" where
  "ReadFromNetworkBuffer fuel go p_nc read_buf bytes_to_read n =
     (case p_nc of
        None \<Rightarrow> Inr (NULL_VALUE_ERROR, read_buf, n)
      | Some nc \<Rightarrow>
          bind_res (read_loop fuel go nc bytes_to_read (vec_resize bytes_to_read read_buf) 0 0 n)
            (\<lambda>(rc, buf, tot, n).
               Inr (if rc = SUCCESS \<and> tot \<noteq> bytes_to_read
                    then (if \<not> go n then THREAD_EXITING else FAILURE)
                    else rc, buf, n)))"

text \<open>
  The condition of the writing loop compares \<open>total_written_bytes\<close> with \<open>cur_written_bytes\<close>, not with
  \<open>bytes_to_write\<close>.
\<close>

fun write_loop ::
  "nat \<Rightarrow> ('n \<Rightarrow> bool) \<Rightarrow> 'n NetworkConnection \<Rightarrow> bytes \<Rightarrow> bytes \<Rightarrow> nat \<Rightarrow> nat \<Rightarrow> 'n \<Rightarrow> (ResponseCode \<times> nat \<times> 'n) res" where
  "write_loop 0 go nc write_buf temp_buf tot cur n = Inl OutOfFuel"
| "write_loop (Suc fuel) go nc write_buf temp_buf tot cur n =
     (case Write_nc nc temp_buf cur n of
        (rc, cur, n) \<Rightarrow>
          let tot = size_add tot cur in
          bind_res (if tot \<noteq> length write_buf then str_substr write_buf tot else Inr temp_buf)
            (\<lambda>temp_buf.
               if go n \<and> tot \<noteq> cur \<and> rc = SUCCESS
               then write_loop fuel go nc write_buf temp_buf tot cur n
               else Inr (rc, tot, n)))"

definition WriteToNetworkBuffer ::
  "nat \<Rightarrow> ('n \<Rightarrow> bool) \<Rightarrow> 'n NetworkConnection option \<Rightarrow> bytes \<Rightarrow> 'n \<Rightarrow> (ResponseCode \<times> 'n) res" where
  "WriteToNetworkBuffer fuel go p_nc write_buf n =
     (case p_nc of
        None \<Rightarrow> Inr (NULL_VALUE_ERROR, n)
      | Some nc \<Rightarrow>
          if length write_buf = 0 then Inr (NETWORK_NOTHING_TO_WRITE_ERROR, n)
          else
            bind_res (write_loop fuel go nc write_buf write_buf 0 0 n)
              (\<lambda>(rc, tot, n).
                 Inr (if rc = SUCCESS \<and> tot \<noteq> length write_buf
                      then (if \<not> go n then THREAD_EXITING else FAILURE)
                      else rc, n)))"

section \<open>What ports share\<close>

text \<open>A library that reads writes to the address of \<open>buf[i]\<close>.\<close>

definition store_at :: "bytes \<Rightarrow> nat \<Rightarrow> bytes \<Rightarrow> bytes res" where
  "store_at buf i bs =
     (if i + length bs \<le> length buf then Inr (take i buf @ bs @ drop (i + length bs) buf) else Inl OutOfBounds)"

lemma store_at_in: "i + length bs \<le> length buf \<Longrightarrow> store_at buf i bs = Inr (take i buf @ bs @ drop (i + length bs) buf)"
  by (simp add: store_at_def)

text \<open>The result of an operation of a port, or a failure that changes nothing.\<close>

definition or_failed :: "'a \<Rightarrow> 'a res \<Rightarrow> 'a" where
  "or_failed x r = (case r of Inl _ \<Rightarrow> x | Inr y \<Rightarrow> y)"

section \<open>What the write loop does\<close>

text \<open>
  One iteration, always: after it \<open>total_written_bytes\<close> equals \<open>cur_written_bytes\<close>.
\<close>

lemma WriteToNetworkBuffer_once:
  assumes "write_buf \<noteq> []" "Write_nc nc write_buf 0 n = (rc, k, n')" "k \<le> length write_buf"
    "length write_buf < 2 ^ 64"
  shows "WriteToNetworkBuffer (Suc fuel) go (Some nc) write_buf n =
    Inr (if rc = SUCCESS \<and> k \<noteq> length write_buf then (if \<not> go n' then THREAD_EXITING else FAILURE) else rc, n')"
  using assms by (simp add: WriteToNetworkBuffer_def str_substr_def)

text \<open>So one unit of fuel is enough, and more does not change the result.\<close>

lemma WriteToNetworkBuffer_fuel:
  assumes "\<And>n rc k n'. Write_nc nc buf 0 n = (rc, k, n') \<Longrightarrow> k < 2 ^ 64"
  shows "WriteToNetworkBuffer (Suc fuel) go (Some nc) buf n = WriteToNetworkBuffer 1 go (Some nc) buf n"
proof -
  obtain rc k n' where w: "Write_nc nc buf 0 n = (rc, k, n')" by (metis prod_cases3)
  with assms have "size_add 0 k = k" by auto
  with w show ?thesis by (simp add: WriteToNetworkBuffer_def Let_def)
qed

text \<open>
  A device that reports how much it took, and never more than it was given, for buffers whose length is an \<open>int\<close>.
\<close>

definition honest_writer :: "'n NetworkConnection \<Rightarrow> bool" where
  "honest_writer nc \<longleftrightarrow>
     (\<forall>buf n rc k n'. length buf < 2 ^ 31 \<longrightarrow> nc_WriteInternal nc buf 0 n = (rc, k, n') \<longrightarrow> k \<le> length buf)"

lemma Write_nc_honest:
  assumes "honest_writer nc" "Write_nc nc buf 0 n = (rc, k, n')" "length buf < 2 ^ 31"
  shows "k \<le> length buf"
proof (cases "nc_IsConnected nc n")
  case True
  then have "nc_WriteInternal nc buf 0 n = (rc, k, n')" using assms(2) by (simp add: Write_nc_def)
  with assms(1,3) show ?thesis unfolding honest_writer_def by blast
qed (use assms(2) in \<open>simp add: Write_nc_def\<close>)

text \<open>a successful \<open>WriteToNetworkBuffer\<close> has handed the whole buffer to the connection in one
  \<open>Write\<close> call that reported all bytes written.\<close>

theorem write_success_whole:
  assumes "honest_writer nc" "length buf < 2 ^ 31"
    and "WriteToNetworkBuffer fuel go (Some nc) buf n = Inr (SUCCESS, n')"
  shows "buf \<noteq> [] \<and> Write_nc nc buf 0 n = (SUCCESS, length buf, n')"
proof -
  have ne: "buf \<noteq> []" using assms(3) by (auto simp: WriteToNetworkBuffer_def)
  obtain f where f: "fuel = Suc f" using assms(3) ne by (cases fuel) (simp_all add: WriteToNetworkBuffer_def)
  obtain rc k n1 where w: "Write_nc nc buf 0 n = (rc, k, n1)" by (metis prod_cases3)
  have "k \<le> length buf" using assms(1) w assms(2) by (rule Write_nc_honest)
  moreover have "length buf < 2 ^ 64" using assms(2) by simp
  ultimately show ?thesis
    using assms(3) ne w WriteToNetworkBuffer_once [OF ne w, of f go]
    by (auto simp: f split: if_splits)
qed

text \<open>when the connection takes only a part of the buffer the rest is never sent: the function
  stops with an error after this one call, also when the thread is to continue.\<close>

theorem write_partial_not_continued:
  assumes "Write_nc nc buf 0 n = (SUCCESS, k, n')" "k < length buf" "length buf < 2 ^ 64"
  shows "WriteToNetworkBuffer (Suc fuel) go (Some nc) buf n = Inr (if go n' then FAILURE else THREAD_EXITING, n')"
proof -
  have "buf \<noteq> []" using assms(2) by auto
  then show ?thesis using assms WriteToNetworkBuffer_once [of buf nc n SUCCESS k n' fuel go] by auto
qed

section \<open>What the read loop does\<close>

text \<open>
  The documented behaviour of \<open>ReadInternal\<close>, for a device whose unread input is \<open>input n\<close>: a
  successful call copies some of it, at most \<open>size_bytes_to_read\<close>, to the buffer at the offset and
  reports how much.
\<close>

definition reads_input :: "'n NetworkConnection \<Rightarrow> ('n \<Rightarrow> bytes) \<Rightarrow> bool" where
  "reads_input nc input \<longleftrightarrow>
     (\<forall>buf off sz k0 n buf' k n'. nc_ReadInternal nc buf off sz k0 n = (SUCCESS, buf', k, n') \<longrightarrow>
        off + sz \<le> length buf \<longrightarrow>
        k \<le> sz \<and> k \<le> length (input n) \<and> input n' = drop k (input n) \<and>
        buf' = take off buf @ take k (input n) @ drop (off + k) buf)"

lemma Read_nc_input:
  assumes "reads_input nc input" "Read_nc nc buf off sz k0 n = (SUCCESS, buf', k, n')" "off + sz \<le> length buf"
  shows "k \<le> sz \<and> k \<le> length (input n) \<and> input n' = drop k (input n) \<and>
    buf' = take off buf @ take k (input n) @ drop (off + k) buf"
  using assms unfolding reads_input_def Read_nc_def by (auto split: if_splits)

lemma read_loop_input:
  assumes "reads_input nc input" "m < 2 ^ 64"
    and "read_loop fuel go nc m buf tot cur n = Inr (SUCCESS, buf', tot', n')"
    and "length buf = m" "tot \<le> m"
  shows "length buf' = m \<and> tot \<le> tot' \<and> tot' \<le> m \<and> tot' - tot \<le> length (input n) \<and>
    input n' = drop (tot' - tot) (input n) \<and>
    buf' = take tot buf @ take (tot' - tot) (input n) @ drop tot' buf"
  using assms(3-)
proof (induction fuel arbitrary: buf tot cur n)
  case (Suc fuel)
  obtain rc buf1 k n1 where r: "Read_nc nc buf tot (m - tot) cur n = (rc, buf1, k, n1)"
    by (metis prod_cases4)
  have sub: "size_sub m tot = m - tot" using Suc.prems assms(2) by (simp add: size_sub_small)
  have rc: "rc = SUCCESS" using Suc.prems r by (auto simp: sub Let_def split: if_splits)
  have step: "k \<le> m - tot" "k \<le> length (input n)" "input n1 = drop k (input n)"
    "buf1 = take tot buf @ take k (input n) @ drop (tot + k) buf"
    using Read_nc_input [OF assms(1) r [unfolded rc]] Suc.prems by auto
  have add: "size_add tot k = tot + k" using step(1) Suc.prems assms(2) by (simp add: size_add_small)
  have len: "length buf1 = m" using step Suc.prems by simp
  show ?case
  proof (cases "go n1 \<and> tot + k \<noteq> m")
    case True
    then have loop: "read_loop fuel go nc m buf1 (tot + k) k n1 = Inr (SUCCESS, buf', tot', n')"
      using Suc.prems r rc by (simp add: sub add)
    have "tot + k \<le> m" using step(1) Suc.prems(3) by simp
    note IH' = Suc.IH [OF loop len this]
    have IH: "length buf' = m" "tot + k \<le> tot'" "tot' \<le> m" "tot' - (tot + k) \<le> length (input n1)"
      "input n' = drop (tot' - (tot + k)) (input n1)"
      "buf' = take (tot + k) buf1 @ take (tot' - (tot + k)) (input n1) @ drop tot' buf1"
      using IH' by blast+
    define d where "d = tot' - (tot + k)"
    have d: "tot' - tot = k + d" "tot' = tot + k + d" using IH(2) by (simp_all add: d_def)
    have lens: "length (take tot buf) = tot" "length (take k (input n)) = k"
      using Suc.prems step by simp_all
    have parts: "take (tot + k) buf1 = take tot buf @ take k (input n)" "drop tot' buf1 = drop tot' buf"
      unfolding step(4) d(2) using lens by (simp_all add: add.commute add.left_commute)
    have "k + d \<le> length (input n)"
      using IH(4) step(2) unfolding d_def [symmetric] step(3) by simp
    moreover have "input n' = drop (k + d) (input n)"
      using IH(5) unfolding d_def [symmetric] step(3) by (simp add: add.commute)
    moreover have "buf' = take tot buf @ take (k + d) (input n) @ drop tot' buf"
      using IH(6) unfolding d_def [symmetric] step(3) parts by (simp only: take_add append_assoc)
    moreover have "tot \<le> tot'" using d(2) by simp
    ultimately show ?thesis using IH(1,3) unfolding d(1) by blast
  next
    case False
    then show ?thesis
      using Suc.prems r rc step len by (auto simp: sub add Let_def)
  qed
qed simp

lemma ReadFromNetworkBuffer_exact:
  assumes "reads_input nc input" "m < 2 ^ 64"
    and "ReadFromNetworkBuffer fuel go (Some nc) buf m n = Inr (SUCCESS, out, n')"
  shows "out = take m (input n) \<and> length out = m \<and> input n' = drop m (input n)"
proof -
  obtain tot where "read_loop fuel go nc m (vec_resize m buf) 0 0 n = Inr (SUCCESS, out, tot, n')" "tot = m"
    using assms(3) by (auto simp: ReadFromNetworkBuffer_def bind_res_Inr_iff split: if_splits)
  with read_loop_input [OF assms(1,2) this(1)] show ?thesis
    by (auto simp: vec_resize_def)
qed

text \<open>a successful \<open>ReadFromNetworkBuffer\<close> returns exactly the next \<open>bytes_to_read\<close> bytes of the
  device's input, in order, however the device cuts them, and leaves the rest unread.\<close>

theorem read_success_exact:
  assumes "reads_input nc input" "m < 2 ^ 64"
    and "ReadFromNetworkBuffer fuel go (Some nc) buf m n = Inr (SUCCESS, out, n')"
  shows "out = take m (input n) \<and> length out = m \<and> input n' = drop m (input n)"
  using assms by (rule ReadFromNetworkBuffer_exact)

text \<open>
  The loop ends when every successful read delivers something: the number of iterations is at most
  the number of bytes wanted.
\<close>

definition reads_progress :: "'n NetworkConnection \<Rightarrow> bool" where
  "reads_progress nc \<longleftrightarrow>
     (\<forall>buf off sz k0 n buf' k n'. nc_ReadInternal nc buf off sz k0 n = (SUCCESS, buf', k, n') \<longrightarrow>
        0 < sz \<longrightarrow> 0 < k \<and> k \<le> sz)"

lemma read_loop_ends:
  assumes "reads_progress nc" "m < 2 ^ 64" "tot < m" "m - tot \<le> fuel"
  shows "\<exists>y. read_loop fuel go nc m buf tot cur n = Inr y"
  using assms(3,4)
proof (induction fuel arbitrary: buf tot cur n)
  case (Suc fuel)
  obtain rc buf1 k n1 where r: "Read_nc nc buf tot (m - tot) cur n = (rc, buf1, k, n1)"
    by (metis prod_cases4)
  have sub: "size_sub m tot = m - tot" using Suc.prems assms(2) by (simp add: size_sub_small)
  show ?case
  proof (cases "rc = SUCCESS")
    case True
    then have "nc_ReadInternal nc buf tot (m - tot) cur n = (SUCCESS, buf1, k, n1)"
      using r by (auto simp: Read_nc_def split: if_splits)
    then have k: "0 < k" "k \<le> m - tot"
      using assms(1) Suc.prems(1) unfolding reads_progress_def by (metis zero_less_diff)+
    then have add: "size_add tot k = tot + k" using Suc.prems assms(2) by (simp add: size_add_small)
    show ?thesis
      using Suc.IH [of "tot + k" buf1 k n1] k Suc.prems by (cases "tot + k < m") (auto simp: r sub add Let_def)
  next
    case False
    then show ?thesis by (simp add: r sub Let_def)
  qed
qed simp

text \<open>over a connection whose successful reads always deliver something, \<open>ReadFromNetworkBuffer\<close>
  ends after at most \<open>bytes_to_read\<close> iterations.\<close>

theorem read_terminates:
  assumes "reads_progress nc" "0 < m" "m < 2 ^ 64" "m \<le> fuel"
  shows "\<exists>y. ReadFromNetworkBuffer fuel go (Some nc) buf m n = Inr y"
proof -
  obtain rc b t n' where "read_loop fuel go nc m (vec_resize m buf) 0 0 n = Inr (rc, b, t, n')"
    using read_loop_ends [OF assms(1,3,2), of fuel go "vec_resize m buf" 0 n] assms(4)
    by (auto simp: prod_eq_iff)
  then show ?thesis by (simp add: ReadFromNetworkBuffer_def)
qed

text \<open>
  A connection that, while it is connected and has input, delivers some of it. Over it a thread that
  keeps running reads what is there.
\<close>

definition delivers_some :: "'n NetworkConnection \<Rightarrow> ('n \<Rightarrow> bytes) \<Rightarrow> bool" where
  "delivers_some nc input \<longleftrightarrow>
     reads_input nc input \<and> reads_progress nc \<and>
     (\<forall>buf off sz k0 n. nc_IsConnected nc n \<and> input n \<noteq> [] \<and> 0 < sz \<longrightarrow>
        (\<exists>buf' k n'. nc_ReadInternal nc buf off sz k0 n = (SUCCESS, buf', k, n') \<and> nc_IsConnected nc n'))"

lemma read_loop_delivers_some:
  assumes "delivers_some nc input" "m < 2 ^ 64" "tot < m" "m - tot \<le> fuel" "nc_IsConnected nc n"
    and "m - tot \<le> length (input n)" "length buf = m"
  shows "\<exists>buf' n'. read_loop fuel (\<lambda>_. True) nc m buf tot cur n = Inr (SUCCESS, buf', m, n') \<and> nc_IsConnected nc n'"
  using assms(3-)
proof (induction fuel arbitrary: buf tot cur n)
  case (Suc fuel)
  have input: "reads_input nc input" and progress: "reads_progress nc" using assms(1) by (simp_all add: delivers_some_def)
  have "input n \<noteq> []" "0 < m - tot" using Suc.prems by auto
  then obtain buf1 k n1 where int: "nc_ReadInternal nc buf tot (m - tot) cur n = (SUCCESS, buf1, k, n1)" "nc_IsConnected nc n1"
    using assms(1) Suc.prems(3) unfolding delivers_some_def by blast
  then have r: "Read_nc nc buf tot (m - tot) cur n = (SUCCESS, buf1, k, n1)"
    using Suc.prems(3) by (simp add: Read_nc_def)
  have k: "0 < k" "k \<le> m - tot"
    using progress int(1) \<open>0 < m - tot\<close> unfolding reads_progress_def by blast+
  have step: "input n1 = drop k (input n)" "length buf1 = m"
    using Read_nc_input [OF input r] Suc.prems k by auto
  have sub: "size_sub m tot = m - tot" using Suc.prems(1) assms(2) by (simp add: size_sub_small)
  have add: "size_add tot k = tot + k" using k Suc.prems(1) assms(2) by (simp add: size_add_small)
  show ?case
  proof (cases "tot + k = m")
    case True
    then show ?thesis using r int(2) by (simp add: sub add Let_def)
  next
    case False
    with Suc.IH [of "tot + k" n1 buf1 k] k Suc.prems int(2) step show ?thesis
      by (auto simp: r sub add Let_def)
  qed
qed simp

lemma ReadFromNetworkBuffer_delivers_some:
  assumes "delivers_some nc input" "0 < m" "m < 2 ^ 64" "m \<le> fuel" "nc_IsConnected nc n" "m \<le> length (input n)"
  shows "\<exists>n'. ReadFromNetworkBuffer fuel (\<lambda>_. True) (Some nc) buf m n = Inr (SUCCESS, take m (input n), n') \<and>
    input n' = drop m (input n) \<and> nc_IsConnected nc n'"
proof -
  obtain out n' where "read_loop fuel (\<lambda>_. True) nc m (vec_resize m buf) 0 0 n = Inr (SUCCESS, out, m, n')" "nc_IsConnected nc n'"
    using read_loop_delivers_some [OF assms(1,3,2), of fuel n "vec_resize m buf" 0] assms(4-) by auto
  then have r: "ReadFromNetworkBuffer fuel (\<lambda>_. True) (Some nc) buf m n = Inr (SUCCESS, out, n')"
    by (simp add: ReadFromNetworkBuffer_def)
  have "reads_input nc input" using assms(1) by (simp add: delivers_some_def)
  from ReadFromNetworkBuffer_exact [OF this assms(3) r] r \<open>nc_IsConnected nc n'\<close> show ?thesis by blast
qed

text \<open>
  What the reader relies on, whatever the port: in a state that is \<open>ready\<close>, a buffer of up to \<open>read_limit\<close> bytes is
  filled with the next bytes of the input when they are there, and the state stays ready. Nothing is larger than the
  limit, which is above the size of any MQTT packet. A port that delivers the input in pieces provides it, and so
  does one that delivers at the first call all that was asked for.
\<close>

definition read_limit :: nat where
  "read_limit = 2 ^ 28"

definition delivers :: "'n NetworkConnection \<Rightarrow> ('n \<Rightarrow> bool) \<Rightarrow> ('n \<Rightarrow> bytes) \<Rightarrow> bool" where
  "delivers nc ready input \<longleftrightarrow>
     (\<forall>n. ready n \<longrightarrow> nc_IsConnected nc n) \<and>
     (\<forall>fuel buf m n. ready n \<and> 0 < m \<and> m \<le> read_limit \<and> m \<le> fuel \<and> m \<le> length (input n) \<longrightarrow>
        (\<exists>n'. ReadFromNetworkBuffer fuel (\<lambda>_. True) (Some nc) buf m n = Inr (SUCCESS, take m (input n), n') \<and>
          input n' = drop m (input n) \<and> ready n'))"

definition delivers_all :: "'n NetworkConnection \<Rightarrow> ('n \<Rightarrow> bool) \<Rightarrow> ('n \<Rightarrow> bytes) \<Rightarrow> bool" where
  "delivers_all nc ready input \<longleftrightarrow>
     (\<forall>n. ready n \<longrightarrow> nc_IsConnected nc n) \<and>
     (\<forall>buf n. ready n \<and> buf \<noteq> [] \<and> length buf \<le> read_limit \<and> length buf \<le> length (input n) \<longrightarrow>
        (\<exists>n'. nc_ReadInternal nc buf 0 (length buf) 0 n = (SUCCESS, take (length buf) (input n), length buf, n') \<and>
          input n' = drop (length buf) (input n) \<and> ready n'))"

lemma read_limit_size: "m \<le> read_limit \<Longrightarrow> m < 2 ^ 64"
  by (simp add: read_limit_def)

lemma ReadFromNetworkBuffer_delivers:
  assumes "delivers nc ready input" "0 < m" "m \<le> read_limit" "m \<le> fuel" "ready n" "m \<le> length (input n)"
  shows "\<exists>n'. ReadFromNetworkBuffer fuel (\<lambda>_. True) (Some nc) buf m n = Inr (SUCCESS, take m (input n), n') \<and>
    input n' = drop m (input n) \<and> ready n'"
  using assms unfolding delivers_def by blast

lemma delivers_from_some:
  assumes "delivers_some nc input"
  shows "delivers nc (nc_IsConnected nc) input"
  unfolding delivers_def
proof (intro conjI allI impI; (elim conjE)?)
  fix fuel buf m n assume "nc_IsConnected nc n" "0 < m" "m \<le> read_limit" "m \<le> fuel" "m \<le> length (input n)"
  then show "\<exists>n'. ReadFromNetworkBuffer fuel (\<lambda>_. True) (Some nc) buf m n = Inr (SUCCESS, take m (input n), n') \<and>
      input n' = drop m (input n) \<and> nc_IsConnected nc n'"
    by (intro ReadFromNetworkBuffer_delivers_some [OF assms] read_limit_size)
qed

lemma ReadFromNetworkBuffer_delivers_all:
  assumes "delivers_all nc ready input" "0 < m" "m \<le> read_limit" "ready n" "m \<le> length (input n)"
  shows "\<exists>n'. ReadFromNetworkBuffer (Suc fuel) go (Some nc) buf m n = Inr (SUCCESS, take m (input n), n') \<and>
    input n' = drop m (input n) \<and> ready n'"
proof -
  let ?b = "vec_resize m buf"
  have "?b \<noteq> []" using assms(2) by (metis length_vec_resize less_numeral_extra(3) list.size(3))
  then obtain n' where r: "nc_ReadInternal nc ?b 0 m 0 n = (SUCCESS, take m (input n), m, n')"
    "input n' = drop m (input n)" "ready n'"
    using assms(1) [unfolded delivers_all_def, THEN conjunct2, rule_format, of n ?b] assms(3-5) by auto
  have "nc_IsConnected nc n" using assms(1,4) by (simp add: delivers_all_def)
  with r read_limit_size [OF assms(3)] show ?thesis
    by (simp add: ReadFromNetworkBuffer_def Read_nc_def size_sub_small)
qed

lemma delivers_from_all:
  assumes "delivers_all nc ready input"
  shows "delivers nc ready input"
proof -
  have "\<exists>n'. ReadFromNetworkBuffer fuel (\<lambda>_. True) (Some nc) buf m n = Inr (SUCCESS, take m (input n), n') \<and>
      input n' = drop m (input n) \<and> ready n'"
    if "ready n" "0 < m" "m \<le> read_limit" "m \<le> fuel" "m \<le> length (input n)" for fuel buf m n
    using ReadFromNetworkBuffer_delivers_all [OF assms that(2,3,1,5)] that(2,4) by (cases fuel) simp_all
  with assms show ?thesis unfolding delivers_def by (auto simp: delivers_all_def)
qed

section \<open>A scripted device\<close>

text \<open>
  A connection that delivers given bytes in chunks, takes at most a given number of bytes per call
  and records what it took. The witnesses evaluate the code on it.
\<close>

record script_device =
  sd_connected :: bool
  sd_input :: bytes
  sd_chunk :: nat
  sd_accept :: nat
  sd_output :: "bytes list"

definition script_connection :: "script_device NetworkConnection" where
  "script_connection =
     \<lparr>nc_IsConnected = sd_connected,
      nc_ConnectInternal = (\<lambda>d. (SUCCESS, d\<lparr>sd_connected := True\<rparr>)),
      nc_DisconnectInternal = (\<lambda>d. (SUCCESS, d\<lparr>sd_connected := False\<rparr>)),
      nc_WriteInternal = (\<lambda>buf k d. let k = min (sd_accept d) (length buf)
         in (SUCCESS, k, d\<lparr>sd_output := sd_output d @ [take k buf]\<rparr>)),
      nc_ReadInternal = (\<lambda>buf off sz k d.
         let k = min (Suc (sd_chunk d)) (min sz (length (sd_input d)))
         in if k = 0 then (NETWORK_SSL_NOTHING_TO_READ, buf, 0, d)
            else (SUCCESS, take off buf @ take k (sd_input d) @ drop (off + k) buf, k,
                  d\<lparr>sd_input := drop k (sd_input d)\<rparr>))\<rparr>"

definition script :: "bytes \<Rightarrow> nat \<Rightarrow> nat \<Rightarrow> script_device" where
  "script input chunk accept =
     \<lparr>sd_connected = True, sd_input = input, sd_chunk = chunk, sd_accept = accept, sd_output = []\<rparr>"

lemma script_honest: "honest_writer script_connection"
  by (auto simp: honest_writer_def script_connection_def Let_def)

lemma script_reads_input: "reads_input script_connection sd_input"
  by (auto simp: reads_input_def script_connection_def Let_def split: if_splits)

lemma script_progress: "reads_progress script_connection"
  by (auto simp: reads_progress_def script_connection_def Let_def split: if_splits)

lemma script_delivers_some: "delivers_some script_connection sd_input"
  using script_reads_input script_progress
  by (auto simp: delivers_some_def) (auto simp: script_connection_def Let_def)

lemma script_delivers: "delivers script_connection sd_connected sd_input"
  using delivers_from_some [OF script_delivers_some] by (simp add: script_connection_def)

theorem write_success_whole_witness:
  "[1, 2, 3 :: byte] \<noteq> [] \<and> Write_nc script_connection [1, 2, 3] 0 (script [] 0 9) =
     (SUCCESS, length [1, 2, 3 :: byte], (script [] 0 9)\<lparr>sd_output := [[1, 2, 3]]\<rparr>)"
  by (rule write_success_whole [OF script_honest, of _ 1 "\<lambda>_. False"])
    (simp_all add: WriteToNetworkBuffer_def Write_nc_def script_connection_def script_def size_add_def)

theorem write_partial_not_continued_witness:
  "WriteToNetworkBuffer (Suc 0) (\<lambda>_. True) (Some script_connection) [1, 2, 3] (script [] 0 2) =
     Inr (FAILURE, (script [] 0 2)\<lparr>sd_output := [[1, 2]]\<rparr>)"
  using write_partial_not_continued [of script_connection "[1, 2, 3]" "script [] 0 2" 2
      "(script [] 0 2)\<lparr>sd_output := [[1, 2]]\<rparr>" 0 "\<lambda>_. True"]
  by (simp add: Write_nc_def script_connection_def script_def)

theorem read_success_exact_witness:
  "[1, 2, 3] = take 3 (sd_input (script [1, 2, 3, 4] 1 0)) \<and> length [1, 2, 3 :: byte] = 3 \<and>
   sd_input (script [4] 1 0) = drop 3 (sd_input (script [1, 2, 3, 4] 1 0))"
  by (rule read_success_exact [OF script_reads_input, of 3 "Suc (Suc 0)" "\<lambda>_. True" "[0, 0, 0]"])
    (simp_all add: ReadFromNetworkBuffer_def Read_nc_def script_connection_def script_def size_add_def size_sub_def
      vec_resize_def)

theorem read_terminates_witness:
  "\<exists>y. ReadFromNetworkBuffer 3 (\<lambda>_. True) (Some script_connection) [] 3 (script [1, 2, 3, 4] 1 0) = Inr y"
  by (rule read_terminates [OF script_progress]) simp_all

end
