(* ===== verification/CoreState.thy ===== *)
theory CoreState
  imports OrderedMap Network
begin

text \<open>
  The action engine: \<open>ActionType\<close> and \<open>ActionData\<close> (\<^verbatim>\<open>include/Action.hpp\<close>), \<open>ClientCoreState\<close>
  (\<^verbatim>\<open>include/ClientCoreState.hpp\<close>, \<^verbatim>\<open>src/ClientCoreState.cpp\<close>).

  The state is a record with the members of the class, to which the device, the clock and the log of
  the application callbacks that were invoked are added; \<open>ClientState\<close> extends the record as the
  class extends the base class. An action object is a value of type \<open>'a\<close>; its virtual
  \<open>PerformAction\<close> is the argument \<open>perform\<close> of the operations that call it, and the virtual
  \<open>GetNextActionId\<close> their argument \<open>next_id\<close>. Callbacks of the application are numbers; that one is
  invoked is an entry of the log. Every operation that holds a mutex for its whole duration is one
  step.
\<close>

section \<open>Action types\<close>

datatype ActionType =
    RESERVED_ACTION | CORE_PROCESS_INBOUND | CORE_PROCESS_OUTBOUND | AT_CONNECT | AT_DISCONNECT
  | AT_PUBLISH | AT_PUBACK | AT_PUBREC | AT_PUBREL | AT_PUBCOMP | AT_SUBSCRIBE | READ_INCOMING
  | KEEP_ALIVE | PUBLISH_INBOUND | AT_UNSUBSCRIBE | RECONNECT | GREENGRASS_DISCOVER

definition action_types :: "ActionType list" where
  "action_types =
     [RESERVED_ACTION, CORE_PROCESS_INBOUND, CORE_PROCESS_OUTBOUND, AT_CONNECT, AT_DISCONNECT,
      AT_PUBLISH, AT_PUBACK, AT_PUBREC, AT_PUBREL, AT_PUBCOMP, AT_SUBSCRIBE, READ_INCOMING,
      KEEP_ALIVE, PUBLISH_INBOUND, AT_UNSUBSCRIBE, RECONNECT, GREENGRASS_DISCOVER]"

fun action_type_value :: "ActionType \<Rightarrow> nat" where
  "action_type_value RESERVED_ACTION = 0"
| "action_type_value CORE_PROCESS_INBOUND = 1"
| "action_type_value CORE_PROCESS_OUTBOUND = 2"
| "action_type_value AT_CONNECT = 3"
| "action_type_value AT_DISCONNECT = 4"
| "action_type_value AT_PUBLISH = 5"
| "action_type_value AT_PUBACK = 6"
| "action_type_value AT_PUBREC = 7"
| "action_type_value AT_PUBREL = 8"
| "action_type_value AT_PUBCOMP = 9"
| "action_type_value AT_SUBSCRIBE = 10"
| "action_type_value READ_INCOMING = 11"
| "action_type_value KEEP_ALIVE = 12"
| "action_type_value PUBLISH_INBOUND = 13"
| "action_type_value AT_UNSUBSCRIBE = 14"
| "action_type_value RECONNECT = 15"
| "action_type_value GREENGRASS_DISCOVER = 16"

lemma action_types_nth: "action_types ! action_type_value t = t"
  by (cases t) (simp_all add: action_types_def)

lemma action_type_value_inject: "action_type_value t = action_type_value u \<longleftrightarrow> t = u"
  by (metis action_types_nth)

text \<open>The order of the keys of \<open>util::Map<ActionType, ...>\<close> is that of the values.\<close>

instantiation ActionType :: linorder
begin

definition less_eq_ActionType :: "ActionType \<Rightarrow> ActionType \<Rightarrow> bool" where
  "less_eq_ActionType t u \<longleftrightarrow> action_type_value t \<le> action_type_value u"

definition less_ActionType :: "ActionType \<Rightarrow> ActionType \<Rightarrow> bool" where
  "less_ActionType t u \<longleftrightarrow> action_type_value t < action_type_value u"

instance
  by standard (auto simp: less_eq_ActionType_def less_ActionType_def action_type_value_inject)

end

section \<open>Events, action data and the state\<close>

text \<open>The application callbacks, with the arguments they are given.\<close>

datatype event =
    Ev_Ack nat u16 ResponseCode
  | Ev_Message nat bytes bytes "nat option"
  | Ev_Disconnect nat bytes "nat option"
  | Ev_Reconnect nat bytes "nat option" ResponseCode
  | Ev_Resubscribe nat bytes "nat option" ResponseCode

text \<open>
  \<open>AsyncAckNotificationHandlerPtr\<close>: the bound \<open>SyncActionHandler\<close> of the state itself or a callback
  of the application; \<open>None\<close> is the empty function.
\<close>

datatype ack_handler = SyncHandler | AppHandler nat

record 'p ActionData =
  ad_async_ack_handler :: "ack_handler option"
  ad_action_id :: u16
  ad_payload :: 'p

record PendingAckData =
  pa_time_of_request :: nat
  pa_async_ack_handler :: ack_handler

definition DEFAULT_MAX_QUEUE_SIZE :: nat where
  "DEFAULT_MAX_QUEUE_SIZE = 16"

text \<open>\<open>None\<close> stands for a member the constructor leaves uninitialised.\<close>

record ('n, 'a, 'p) ClientCoreState =
  ccs_net :: 'n
  ccs_now :: nat
  ccs_events :: "event list"
  ccs_next_action_id :: u16
  ccs_max_queue_size :: nat
  ccs_ack_timeout :: "nat option"
  ccs_sync_action_response :: "ResponseCode option"
  ccs_process_queued_actions :: "bool option"
  ccs_continue_execution :: bool
  ccs_action_map :: "(ActionType \<times> 'a) list"
  ccs_pending_ack_map :: "(u16 \<times> PendingAckData) list"
  ccs_action_create_handler_map :: "(ActionType \<times> 'a option) list"
  ccs_outbound_action_queue :: "(ActionType \<times> 'p ActionData) list"
  ccs_network_connection :: "'n NetworkConnection option"
  ccs_disconnect_handler :: "nat option"
  ccs_disconnect_app_handler_data :: "nat option"
  ccs_reconnect_handler :: "nat option"
  ccs_reconnect_app_handler_data :: "nat option"
  ccs_resubscribe_handler :: "nat option"
  ccs_resubscribe_app_handler_data :: "nat option"

definition ClientCoreState_new :: "'n \<Rightarrow> nat \<Rightarrow> ('n, 'a, 'p) ClientCoreState" where
  "ClientCoreState_new net now =
     \<lparr>ccs_net = net, ccs_now = now, ccs_events = [], ccs_next_action_id = 1,
      ccs_max_queue_size = DEFAULT_MAX_QUEUE_SIZE, ccs_ack_timeout = None,
      ccs_sync_action_response = None, ccs_process_queued_actions = None,
      ccs_continue_execution = True, ccs_action_map = [], ccs_pending_ack_map = [],
      ccs_action_create_handler_map = [], ccs_outbound_action_queue = [],
      ccs_network_connection = None, ccs_disconnect_handler = None,
      ccs_disconnect_app_handler_data = None, ccs_reconnect_handler = None,
      ccs_reconnect_app_handler_data = None, ccs_resubscribe_handler = None,
      ccs_resubscribe_app_handler_data = None\<rparr>"

definition read_init :: "'a option \<Rightarrow> 'a res" where
  "read_init m = (case m of None \<Rightarrow> Inl Uninitialised | Some x \<Rightarrow> Inr x)"

lemma read_init_simps [simp]: "read_init None = Inl Uninitialised" "read_init (Some x) = Inr x"
  by (simp_all add: read_init_def)

definition log_event :: "event \<Rightarrow> ('n, 'a, 'p, 'z) ClientCoreState_scheme \<Rightarrow> ('n, 'a, 'p, 'z) ClientCoreState_scheme" where
  "log_event e st = st\<lparr>ccs_events := ccs_events st @ [e]\<rparr>"

section \<open>Identifiers and accessors\<close>

definition GetNextActionId ::
  "('n, 'a, 'p, 'z) ClientCoreState_scheme \<Rightarrow> u16 \<times> ('n, 'a, 'p, 'z) ClientCoreState_scheme" where
  "GetNextActionId st =
     (if ccs_next_action_id st = 65535 then (65535, st\<lparr>ccs_next_action_id := 1\<rparr>)
      else (ccs_next_action_id st, st\<lparr>ccs_next_action_id := ccs_next_action_id st + 1\<rparr>))"

definition SetMaxActionQueueSize ::
  "nat \<Rightarrow> ('n, 'a, 'p, 'z) ClientCoreState_scheme \<Rightarrow> ('n, 'a, 'p, 'z) ClientCoreState_scheme" where
  "SetMaxActionQueueSize k st = st\<lparr>ccs_max_queue_size := k\<rparr>"

definition SetProcessQueuedActions ::
  "bool \<Rightarrow> ('n, 'a, 'p, 'z) ClientCoreState_scheme \<Rightarrow> ('n, 'a, 'p, 'z) ClientCoreState_scheme" where
  "SetProcessQueuedActions v st = st\<lparr>ccs_process_queued_actions := Some v\<rparr>"

definition ClearRegisteredActions ::
  "('n, 'a, 'p, 'z) ClientCoreState_scheme \<Rightarrow> ('n, 'a, 'p, 'z) ClientCoreState_scheme" where
  "ClearRegisteredActions st = st\<lparr>ccs_action_map := []\<rparr>"

definition ClearOutboundActionQueue ::
  "('n, 'a, 'p, 'z) ClientCoreState_scheme \<Rightarrow> ('n, 'a, 'p, 'z) ClientCoreState_scheme" where
  "ClearOutboundActionQueue st = st\<lparr>ccs_outbound_action_queue := []\<rparr>"

section \<open>Registration of actions\<close>

text \<open>
  A create handler is a factory; \<open>None\<close> is the empty function. What a factory makes is an action
  object or, when it refuses, the null pointer.
\<close>

definition GetActionCreateHandler ::
  "ActionType \<Rightarrow> ('n, 'a, 'p, 'z) ClientCoreState_scheme \<Rightarrow> ResponseCode \<times> 'a option option" where
  "GetActionCreateHandler action_type st =
     (case map_find (ccs_action_create_handler_map st) action_type of
        None \<Rightarrow> (FAILURE, None)
      | Some h \<Rightarrow> (SUCCESS, Some h))"

definition RegisterAction ::
  "ActionType \<Rightarrow> 'a option option \<Rightarrow> ('n, 'a, 'p, 'z) ClientCoreState_scheme \<Rightarrow> ResponseCode \<times> ('n, 'a, 'p, 'z) ClientCoreState_scheme" where
  "RegisterAction action_type p_action_create_handler st =
     (case p_action_create_handler of
        None \<Rightarrow> (NULL_VALUE_ERROR, st)
      | Some factory \<Rightarrow>
          let st = st\<lparr>ccs_action_create_handler_map :=
                     map_insert action_type factory (ccs_action_create_handler_map st)\<rparr>
          in case GetActionCreateHandler action_type st of
               (rc, handler) \<Rightarrow>
                 if rc = SUCCESS then
                   (case handler of
                      Some (Some p_action) \<Rightarrow>
                        (rc, st\<lparr>ccs_action_map := map_insert action_type p_action (ccs_action_map st)\<rparr>)
                    | _ \<Rightarrow> (ACTION_CREATE_FAILED, st))
                 else (rc, st))"

section \<open>Pending acknowledgements\<close>

definition SyncActionHandler ::
  "u16 \<Rightarrow> ResponseCode \<Rightarrow> ('n, 'a, 'p, 'z) ClientCoreState_scheme \<Rightarrow> ('n, 'a, 'p, 'z) ClientCoreState_scheme" where
  "SyncActionHandler action_id rc st = st\<lparr>ccs_sync_action_response := Some rc\<rparr>"

definition run_ack_handler ::
  "ack_handler \<Rightarrow> u16 \<Rightarrow> ResponseCode \<Rightarrow> ('n, 'a, 'p, 'z) ClientCoreState_scheme \<Rightarrow> ('n, 'a, 'p, 'z) ClientCoreState_scheme" where
  "run_ack_handler h action_id rc st =
     (case h of SyncHandler \<Rightarrow> SyncActionHandler action_id rc st
      | AppHandler n \<Rightarrow> log_event (Ev_Ack n action_id rc) st)"

definition RegisterPendingAck ::
  "u16 \<Rightarrow> ack_handler option \<Rightarrow> ('n, 'a, 'p, 'z) ClientCoreState_scheme \<Rightarrow> ResponseCode \<times> ('n, 'a, 'p, 'z) ClientCoreState_scheme" where
  "RegisterPendingAck action_id p_async_ack_handler st =
     (case p_async_ack_handler of
        None \<Rightarrow> (NULL_VALUE_ERROR, st)
      | Some h \<Rightarrow>
          (SUCCESS,
           st\<lparr>ccs_pending_ack_map :=
                map_insert action_id \<lparr>pa_time_of_request = ccs_now st, pa_async_ack_handler = h\<rparr>
                  (ccs_pending_ack_map st)\<rparr>))"

definition DeletePendingAck :: "u16 \<Rightarrow> ('n, 'a, 'p, 'z) ClientCoreState_scheme \<Rightarrow> ('n, 'a, 'p, 'z) ClientCoreState_scheme" where
  "DeletePendingAck action_id st =
     (if map_find (ccs_pending_ack_map st) action_id \<noteq> None
      then st\<lparr>ccs_pending_ack_map := map_erase action_id (ccs_pending_ack_map st)\<rparr>
      else st)"

definition ForwardReceivedAck :: "u16 \<Rightarrow> ResponseCode \<Rightarrow> ('n, 'a, 'p, 'z) ClientCoreState_scheme \<Rightarrow> ('n, 'a, 'p, 'z) ClientCoreState_scheme" where
  "ForwardReceivedAck action_id rc st =
     (case map_find (ccs_pending_ack_map st) action_id of
        None \<Rightarrow> st
      | Some ack \<Rightarrow>
          let st = run_ack_handler (pa_async_ack_handler ack) action_id rc st
          in st\<lparr>ccs_pending_ack_map := map_erase action_id (ccs_pending_ack_map st)\<rparr>)"

text \<open>
  The loop of \<open>DeleteExpiredAcks\<close>. The iterator stays at the first entry: it is not advanced, and
  after \<open>erase\<close> it is used although it is invalid. \<open>duration_cast\<close> truncates to seconds.
\<close>

fun expire_loop :: "nat \<Rightarrow> nat \<Rightarrow> ('n, 'a, 'p, 'z) ClientCoreState_scheme \<Rightarrow> (('n, 'a, 'p, 'z) ClientCoreState_scheme) res" where
  "expire_loop 0 now st = Inl OutOfFuel"
| "expire_loop (Suc fuel) now st =
     (case ccs_pending_ack_map st of
        [] \<Rightarrow> Inr st
      | (action_id, ack) # rest \<Rightarrow>
          bind_res (read_init (ccs_ack_timeout st)) (\<lambda>timeout.
            if (now - pa_time_of_request ack) div 1000 > timeout then Inl InvalidIterator
            else expire_loop fuel now st))"

definition DeleteExpiredAcks :: "nat \<Rightarrow> ('n, 'a, 'p, 'z) ClientCoreState_scheme \<Rightarrow> (('n, 'a, 'p, 'z) ClientCoreState_scheme) res" where
  "DeleteExpiredAcks fuel st = expire_loop fuel (ccs_now st) st"

section \<open>Queueing and performing actions\<close>

text \<open>
  \<open>EnqueueOutboundAction\<close> returns the response, the output parameter \<open>action_id_out\<close> (passed in, for
  the case that it is left alone), the action data, which it changes, and the state.
\<close>

definition EnqueueOutboundAction ::
  "(('n, 'a, 'p, 'z) ClientCoreState_scheme \<Rightarrow> u16 \<times> ('n, 'a, 'p, 'z) ClientCoreState_scheme)
   \<Rightarrow> ActionType \<Rightarrow> 'p ActionData option \<Rightarrow> u16 \<Rightarrow> ('n, 'a, 'p, 'z) ClientCoreState_scheme
   \<Rightarrow> (ResponseCode \<times> u16 \<times> 'p ActionData option \<times> ('n, 'a, 'p, 'z) ClientCoreState_scheme) res" where
  "EnqueueOutboundAction next_id action_type p_action_data action_id_out st =
     (if length (ccs_outbound_action_queue st) \<ge> ccs_max_queue_size st
      then Inr (ACTION_QUEUE_FULL, action_id_out, p_action_data, st)
      else
        case next_id st of
          (action_id, st) \<Rightarrow>
            bind_res (deref p_action_data) (\<lambda>d.
              let d = d\<lparr>ad_action_id := action_id\<rparr>
              in Inr (SUCCESS, action_id, Some d,
                      st\<lparr>ccs_outbound_action_queue := ccs_outbound_action_queue st @ [(action_type, d)]\<rparr>)))"

text \<open>
  The synchronous \<open>PerformAction\<close>. While it waits for the condition variable it releases the lock of
  the response and other threads run: \<open>wait\<close> is what they do to the state until the wait ends, by
  notification, time-out or spuriously.
\<close>

definition PerformAction ::
  "(('n, 'a, 'p, 'z) ClientCoreState_scheme \<Rightarrow> u16 \<times> ('n, 'a, 'p, 'z) ClientCoreState_scheme)
   \<Rightarrow> ('a \<Rightarrow> 'p ActionData \<Rightarrow> ('n, 'a, 'p, 'z) ClientCoreState_scheme \<Rightarrow> (ResponseCode \<times> 'p ActionData \<times> ('n, 'a, 'p, 'z) ClientCoreState_scheme) res)
   \<Rightarrow> (('n, 'a, 'p, 'z) ClientCoreState_scheme \<Rightarrow> ('n, 'a, 'p, 'z) ClientCoreState_scheme)
   \<Rightarrow> ActionType \<Rightarrow> 'p ActionData option \<Rightarrow> ('n, 'a, 'p, 'z) ClientCoreState_scheme
   \<Rightarrow> (ResponseCode \<times> 'p ActionData option \<times> ('n, 'a, 'p, 'z) ClientCoreState_scheme) res" where
  "PerformAction next_id perform wait action_type p_action_data st =
     (case map_find (ccs_action_map st) action_type of
        None \<Rightarrow> Inr (ACTION_NOT_REGISTERED_ERROR, p_action_data, st)
      | Some action \<Rightarrow>
          let st = st\<lparr>ccs_sync_action_response := Some MQTT_REQUEST_TIMEOUT_ERROR\<rparr> in
          bind_res (deref p_action_data) (\<lambda>d.
            case next_id st of
              (action_id, st) \<Rightarrow>
                let d = d\<lparr>ad_async_ack_handler := Some SyncHandler, ad_action_id := action_id\<rparr> in
                bind_res (perform action d st) (\<lambda>(rc, d, st).
                  if rc = SUCCESS \<and> map_find (ccs_pending_ack_map st) (ad_action_id d) \<noteq> None then
                    let st = wait st in
                    bind_res (read_init (ccs_sync_action_response st)) (\<lambda>rc. Inr (rc, Some d, st))
                  else Inr (rc, Some d, st))))"

text \<open>
  One iteration of \<open>ProcessOutboundActionQueue\<close> up to the sleep, and the loop. While the thread sleeps
  the others run (\<open>others\<close>); then the flag of the thread task is read.
\<close>

definition process_outbound_once ::
  "('a \<Rightarrow> 'p ActionData \<Rightarrow> ('n, 'a, 'p, 'z) ClientCoreState_scheme \<Rightarrow> (ResponseCode \<times> 'p ActionData \<times> ('n, 'a, 'p, 'z) ClientCoreState_scheme) res) \<Rightarrow> ('n, 'a, 'p, 'z) ClientCoreState_scheme \<Rightarrow> (('n, 'a, 'p, 'z) ClientCoreState_scheme) res" where
  "process_outbound_once perform st =
     (case ccs_outbound_action_queue st of
        [] \<Rightarrow> Inr st
      | (action_type, d) # queue \<Rightarrow>
          let st = st\<lparr>ccs_outbound_action_queue := queue\<rparr>;
              handler = ad_async_ack_handler d
          in case map_find (ccs_action_map st) action_type of
               None \<Rightarrow> Inr st
             | Some action \<Rightarrow>
                 let (rc, st) =
                       (case handler of
                          None \<Rightarrow> (SUCCESS, st)
                        | Some h \<Rightarrow>
                            (case RegisterPendingAck (ad_action_id d) handler st of
                               (rc, st) \<Rightarrow>
                                 if rc \<noteq> SUCCESS then (rc, run_ack_handler h (ad_action_id d) rc st) else (rc, st)))
                 in if rc = SUCCESS then
                      bind_res (perform action d st) (\<lambda>(rc, d, st).
                        Inr (if rc \<noteq> SUCCESS then
                               (case handler of
                                  None \<Rightarrow> st
                                | Some h \<Rightarrow>
                                    run_ack_handler h (ad_action_id d) rc (DeletePendingAck (ad_action_id d) st))
                             else st))
                    else Inr st)"

fun ProcessOutboundActionQueue ::
  "nat \<Rightarrow> ('n \<Rightarrow> bool)
   \<Rightarrow> ('a \<Rightarrow> 'p ActionData \<Rightarrow> ('n, 'a, 'p, 'z) ClientCoreState_scheme \<Rightarrow> (ResponseCode \<times> 'p ActionData \<times> ('n, 'a, 'p, 'z) ClientCoreState_scheme) res)
   \<Rightarrow> (('n, 'a, 'p, 'z) ClientCoreState_scheme \<Rightarrow> ('n, 'a, 'p, 'z) ClientCoreState_scheme) \<Rightarrow> ('n, 'a, 'p, 'z) ClientCoreState_scheme \<Rightarrow> (('n, 'a, 'p, 'z) ClientCoreState_scheme) res" where
  "ProcessOutboundActionQueue 0 go perform others st = Inl OutOfFuel"
| "ProcessOutboundActionQueue (Suc fuel) go perform others st =
     bind_res (process_outbound_once perform st) (\<lambda>st.
       let st = others st in
       if go (ccs_net st) then ProcessOutboundActionQueue fuel go perform others st else Inr st)"

section \<open>Identifiers: the contract\<close>

text \<open>
  A source of 16-bit identifiers that runs through \<open>1 ... 65535\<close> and starts again; \<open>pos\<close> is the place
  in the cycle. Both the base class and \<open>ClientState\<close> provide one.
\<close>

fun take_ids :: "('s \<Rightarrow> u16 \<times> 's) \<Rightarrow> nat \<Rightarrow> 's \<Rightarrow> u16 list" where
  "take_ids next_id 0 s = []"
| "take_ids next_id (Suc k) s = (case next_id s of (i, s) \<Rightarrow> i # take_ids next_id k s)"

locale id_source =
  fixes next_id :: "'s \<Rightarrow> u16 \<times> 's" and pos :: "'s \<Rightarrow> nat" and ok :: "'s \<Rightarrow> bool"
  assumes pos_bound: "ok s \<Longrightarrow> pos s < 65535"
    and id_at_pos: "ok s \<Longrightarrow> unat (fst (next_id s)) = pos s + 1"
    and step: "ok s \<Longrightarrow> ok (snd (next_id s)) \<and> pos (snd (next_id s)) = (pos s + 1) mod 65535"
begin

lemma id_nonzero: "ok s \<Longrightarrow> fst (next_id s) \<noteq> 0"
  using id_at_pos [of s] by auto

lemma take_ids_cycle:
  "ok s \<Longrightarrow> map unat (take_ids next_id k s) = map (\<lambda>j. (pos s + j) mod 65535 + 1) [0..<k]"
proof (induction k arbitrary: s)
  case (Suc k)
  obtain i s' where n: "next_id s = (i, s')" by force
  have s': "ok s'" "pos s' = (pos s + 1) mod 65535" and i: "unat i = pos s + 1"
    using step [OF Suc.prems] id_at_pos [OF Suc.prems] n by simp_all
  have "map unat (take_ids next_id (Suc k) s)
      = (pos s + 1) # map (\<lambda>j. (pos s' + j) mod 65535 + 1) [0..<k]"
    using Suc.IH [OF s'(1)] by (simp add: n i)
  also have "\<dots> = (pos s + 1) # map (\<lambda>j. (pos s + Suc j) mod 65535 + 1) [0..<k]"
    by (simp add: s'(2) mod_simps)
  also have "\<dots> = map (\<lambda>j. (pos s + j) mod 65535 + 1) [0..<Suc k]"
    using pos_bound [OF Suc.prems]
    by (simp add: upt_conv_Cons map_Suc_upt [symmetric] comp_def del: upt_Suc)
  finally show ?case .
qed simp

lemma take_ids_distinct:
  assumes "ok s" "k \<le> 65535"
  shows "distinct (take_ids next_id k s) \<and> 0 \<notin> set (take_ids next_id k s)"
proof -
  have "inj_on (\<lambda>j. (pos s + j) mod 65535 + 1) (set [0..<k])"
  proof (rule inj_onI)
    fix i j assume ij: "i \<in> set [0..<k]" "j \<in> set [0..<k]" "(pos s + i) mod 65535 + 1 = (pos s + j) mod 65535 + 1"
    have wrap: "(pos s + l) mod 65535 = (if pos s + l < 65535 then pos s + l else pos s + l - 65535)"
      if "l < 65535" for l
      using that pos_bound [OF assms(1)] by (simp add: mod_if)
    have "i < 65535" "j < 65535" using ij assms(2) by simp_all
    with ij(3) show "i = j"
      using pos_bound [OF assms(1)] by (auto simp: wrap split: if_splits)
  qed
  then have "distinct (map unat (take_ids next_id k s))"
    by (simp add: take_ids_cycle [OF assms(1)] distinct_map)
  moreover have "0 \<notin> set (map unat (take_ids next_id k s))"
    by (auto simp: take_ids_cycle [OF assms(1)])
  ultimately show ?thesis by (force simp: distinct_map)
qed

end

interpretation action_ids: id_source GetNextActionId
  "\<lambda>st :: ('n, 'a, 'p, 'z) ClientCoreState_scheme. unat (ccs_next_action_id st) - 1"
  "\<lambda>st. ccs_next_action_id st \<noteq> 0"
proof
  fix st :: "('n, 'a, 'p, 'z) ClientCoreState_scheme"
  assume ok: "ccs_next_action_id st \<noteq> 0"
  then have pos: "0 < unat (ccs_next_action_id st)" by (simp add: unat_gt_0)
  have bound: "unat (ccs_next_action_id st) < 65536" by (rule unat_u16_bound)
  have last: "ccs_next_action_id st = 65535 \<longleftrightarrow> unat (ccs_next_action_id st) = 65535"
    by (simp add: word_unat_eq_iff)
  have succ: "ccs_next_action_id st \<noteq> 65535 \<Longrightarrow>
      unat (ccs_next_action_id st + 1) = unat (ccs_next_action_id st) + 1"
    using bound last by (simp add: unat_word_ariths)
  show "unat (ccs_next_action_id st) - 1 < 65535" using bound pos by simp
  show "unat (fst (GetNextActionId st)) = unat (ccs_next_action_id st) - 1 + 1"
    using pos by (simp add: GetNextActionId_def)
  show "ccs_next_action_id (snd (GetNextActionId st)) \<noteq> 0 \<and>
      unat (ccs_next_action_id (snd (GetNextActionId st))) - 1 = (unat (ccs_next_action_id st) - 1 + 1) mod 65535"
    using pos bound succ last
    by (cases "ccs_next_action_id st = 65535") (auto simp: GetNextActionId_def word_unat_eq_iff)
qed

section \<open>Well-formed states\<close>

definition core_ok :: "('n, 'a, 'p, 'z) ClientCoreState_scheme \<Rightarrow> bool" where
  "core_ok st \<longleftrightarrow>
     map_wf (ccs_action_map st) \<and> map_wf (ccs_pending_ack_map st) \<and>
     map_wf (ccs_action_create_handler_map st)"

lemma core_ok_new: "core_ok (ClientCoreState_new net now)"
  by (simp add: core_ok_def ClientCoreState_new_def)

lemma core_ok_log_event [simp]: "core_ok (log_event e st) = core_ok st"
  by (simp add: core_ok_def log_event_def)

lemma core_ok_run_ack_handler [simp]: "core_ok (run_ack_handler h i rc st) = core_ok st"
  by (simp add: run_ack_handler_def SyncActionHandler_def core_ok_def log_event_def split: ack_handler.split)

lemma pending_run_ack_handler [simp]: "ccs_pending_ack_map (run_ack_handler h i rc st) = ccs_pending_ack_map st"
  by (simp add: run_ack_handler_def SyncActionHandler_def log_event_def split: ack_handler.split)

lemma core_ok_RegisterAction: "core_ok st \<Longrightarrow> core_ok (snd (RegisterAction t h st))"
  by (auto simp: core_ok_def RegisterAction_def Let_def map_wf_insert split: option.splits prod.splits)

lemma core_ok_RegisterPendingAck: "core_ok st \<Longrightarrow> core_ok (snd (RegisterPendingAck i h st))"
  by (auto simp: core_ok_def RegisterPendingAck_def map_wf_insert split: option.splits)

lemma core_ok_DeletePendingAck: "core_ok st \<Longrightarrow> core_ok (DeletePendingAck i st)"
  by (auto simp: core_ok_def DeletePendingAck_def map_wf_erase)

lemma core_ok_ForwardReceivedAck: "core_ok st \<Longrightarrow> core_ok (ForwardReceivedAck i rc st)"
  unfolding ForwardReceivedAck_def Let_def
  by (auto simp: core_ok_def map_wf_erase run_ack_handler_def SyncActionHandler_def log_event_def
      split: option.splits ack_handler.splits)

text \<open>What the ack map answers after each operation.\<close>

lemma find_pending_DeletePendingAck [state_simps]:
  "map_find (ccs_pending_ack_map (DeletePendingAck i st)) j
     = (if j = i then None else map_find (ccs_pending_ack_map st) j)"
  by (auto simp: DeletePendingAck_def smap.find_del)

lemma find_pending_ForwardReceivedAck [state_simps]:
  "map_find (ccs_pending_ack_map (ForwardReceivedAck i rc st)) j
     = (if j = i then None else map_find (ccs_pending_ack_map st) j)"
  by (auto simp: ForwardReceivedAck_def smap.find_del split: option.split)

lemma find_pending_RegisterPendingAck [state_simps]:
  "core_ok st \<Longrightarrow>
   map_find (ccs_pending_ack_map (snd (RegisterPendingAck i (Some h) st))) j
     = (if j = i \<and> map_find (ccs_pending_ack_map st) i = None
        then Some \<lparr>pa_time_of_request = ccs_now st, pa_async_ack_handler = h\<rparr>
        else map_find (ccs_pending_ack_map st) j)"
  by (auto simp: RegisterPendingAck_def core_ok_def smap.find_ins)

section \<open>Properties\<close>

text \<open>registering an action type again leaves the first factory and the first action object in place,
  although the call reports success.\<close>

theorem register_action_keeps_first:
  assumes "core_ok st" "map_find (ccs_action_create_handler_map st) t = Some (Some a)"
    and "map_find (ccs_action_map st) t = Some b"
  shows "fst (RegisterAction t (Some f) st) = SUCCESS \<and>
    map_find (ccs_action_create_handler_map (snd (RegisterAction t (Some f) st))) t = Some (Some a) \<and>
    map_find (ccs_action_map (snd (RegisterAction t (Some f) st))) t = Some b"
  using assms by (auto simp: RegisterAction_def GetActionCreateHandler_def Let_def core_ok_def smap.find_ins)

text \<open>an acknowledgement is forwarded at most once: the second one with the same identifier, with any
  result, changes nothing.\<close>

theorem ack_forwarded_once:
  "ForwardReceivedAck i rc' (ForwardReceivedAck i rc st) = ForwardReceivedAck i rc st"
proof -
  have "map_find (ccs_pending_ack_map (ForwardReceivedAck i rc st)) i = None"
    by (simp add: state_simps)
  then show ?thesis by (simp add: ForwardReceivedAck_def [of i rc'])
qed

text \<open>an acknowledgement reaches exactly the handler that was registered for its identifier, and no
  other pending entry is touched.\<close>

theorem ack_reaches_its_handler:
  assumes "core_ok st" "map_find (ccs_pending_ack_map st) i = None"
  shows "ForwardReceivedAck i rc (snd (RegisterPendingAck i (Some (AppHandler h)) st))
       = log_event (Ev_Ack h i rc) st"
proof -
  have find: "map_find (ccs_pending_ack_map (snd (RegisterPendingAck i (Some (AppHandler h)) st))) i
      = Some \<lparr>pa_time_of_request = ccs_now st, pa_async_ack_handler = AppHandler h\<rparr>"
    using assms by (simp add: state_simps)
  have "map_erase i (map_insert i v (ccs_pending_ack_map st)) = ccs_pending_ack_map st" for v
    using assms by (intro erase_inserted) (simp_all add: core_ok_def)
  with find show ?thesis
    by (simp add: ForwardReceivedAck_def Let_def run_ack_handler_def log_event_def RegisterPendingAck_def)
qed

text \<open>a pending acknowledgement is not replaced by a new registration under its identifier, although
  the registration reports success.\<close>

theorem register_ack_keeps_stale:
  assumes "core_ok st" "map_find (ccs_pending_ack_map st) i = Some old"
  shows "fst (RegisterPendingAck i (Some h) st) = SUCCESS \<and>
    map_find (ccs_pending_ack_map (snd (RegisterPendingAck i (Some h) st))) i = Some old"
  using assms by (simp add: state_simps) (simp add: RegisterPendingAck_def)

lemma expire_loop_stuck: "ccs_pending_ack_map st \<noteq> [] \<Longrightarrow> expire_loop fuel now st \<noteq> Inr st'"
  by (induction fuel) (auto simp: bind_res_Inr_iff split: list.splits)

text \<open>\<open>DeleteExpiredAcks\<close> returns normally exactly when there is no pending acknowledgement; otherwise
  it runs on an uninitialised time-out or an invalid iterator, or for ever.\<close>

theorem DeleteExpiredAcks_returns_iff:
  "(\<exists>fuel st'. DeleteExpiredAcks fuel st = Inr st') \<longleftrightarrow> ccs_pending_ack_map st = []"
proof
  assume "ccs_pending_ack_map st = []"
  then have "DeleteExpiredAcks 1 st = Inr st" by (simp add: DeleteExpiredAcks_def)
  then show "\<exists>fuel st'. DeleteExpiredAcks fuel st = Inr st'" by blast
qed (use expire_loop_stuck in \<open>unfold DeleteExpiredAcks_def, blast\<close>)

text \<open>
  The action of a typical request: it registers the acknowledgement of its identifier, sends, and
  reports success.
\<close>

definition request_action :: "'a \<Rightarrow> 'p ActionData \<Rightarrow> ('n, 'a, 'p, 'z) ClientCoreState_scheme \<Rightarrow> (ResponseCode \<times> 'p ActionData \<times> ('n, 'a, 'p, 'z) ClientCoreState_scheme) res" where
  "request_action a d st =
     Inr (SUCCESS, d, snd (RegisterPendingAck (ad_action_id d) (ad_async_ack_handler d) st))"

text \<open>a synchronous request takes the late acknowledgement of an earlier, timed-out synchronous
  request for its own: it returns that result while its own acknowledgement is still pending, because
  \<open>SyncActionHandler\<close> ignores the identifier.\<close>

theorem sync_response_of_other_action:
  assumes "core_ok st" "map_find (ccs_action_map st) t = Some a"
    and "map_find (ccs_pending_ack_map st) old = Some \<lparr>pa_time_of_request = tm, pa_async_ack_handler = SyncHandler\<rparr>"
    and "next_id st1 = (i, st2)" "st1 = st\<lparr>ccs_sync_action_response := Some MQTT_REQUEST_TIMEOUT_ERROR\<rparr>"
    and "st2 = st1\<lparr>ccs_next_action_id := k\<rparr>" "i \<noteq> old" "map_find (ccs_pending_ack_map st) i = None"
  shows "\<exists>d' st'. PerformAction next_id request_action (ForwardReceivedAck old rc) t (Some d) st = Inr (rc, d', st') \<and>
    map_find (ccs_pending_ack_map st') i
      = Some \<lparr>pa_time_of_request = ccs_now st, pa_async_ack_handler = SyncHandler\<rparr>"
proof -
  let ?st3 = "snd (RegisterPendingAck i (Some SyncHandler) st2)"
  have ok: "core_ok st2" using assms(1) by (simp add: assms(5,6) core_ok_def)
  have maps: "ccs_pending_ack_map st2 = ccs_pending_ack_map st" "ccs_now st2 = ccs_now st"
    by (simp_all add: assms(5,6))
  have find: "map_find (ccs_pending_ack_map ?st3) j
      = (if j = i then Some \<lparr>pa_time_of_request = ccs_now st, pa_async_ack_handler = SyncHandler\<rparr>
         else map_find (ccs_pending_ack_map st) j)" for j
    using assms(8) by (simp add: find_pending_RegisterPendingAck [OF ok] maps)
  have resp: "ccs_sync_action_response (ForwardReceivedAck old rc ?st3) = Some rc"
    using assms(3,7) by (simp add: ForwardReceivedAck_def find Let_def run_ack_handler_def SyncActionHandler_def)
  have own: "map_find (ccs_pending_ack_map (ForwardReceivedAck old rc ?st3)) i
      = Some \<lparr>pa_time_of_request = ccs_now st, pa_async_ack_handler = SyncHandler\<rparr>"
    using assms(7) by (simp add: find_pending_ForwardReceivedAck find)
  show ?thesis
    using assms(2,4) resp own
    by (simp add: PerformAction_def request_action_def Let_def find flip: assms(5))
qed

text \<open>when a queued request with a callback fails, the callback is told the error once, its
  acknowledgement is no longer pending, and the request has left the queue.\<close>

theorem outbound_failure_notified:
  assumes "ccs_outbound_action_queue st = (t, d) # q" "map_find (ccs_action_map st) t = Some a"
    and "ad_async_ack_handler d = Some (AppHandler h)"
    and "perform a d (snd (RegisterPendingAck (ad_action_id d) (Some (AppHandler h)) (st\<lparr>ccs_outbound_action_queue := q\<rparr>)))
       = Inr (rc, d, st1)"
    and "rc \<noteq> SUCCESS"
  shows "\<exists>st'. process_outbound_once perform st = Inr st' \<and>
    ccs_events st' = ccs_events st1 @ [Ev_Ack h (ad_action_id d) rc] \<and>
    map_find (ccs_pending_ack_map st') (ad_action_id d) = None \<and>
    ccs_outbound_action_queue st' = ccs_outbound_action_queue st1"
proof -
  let ?u = "st\<lparr>ccs_outbound_action_queue := q\<rparr>"
  define st0 where "st0 = snd (RegisterPendingAck (ad_action_id d) (Some (AppHandler h)) ?u)"
  have reg: "RegisterPendingAck (ad_action_id d) (Some (AppHandler h)) ?u = (SUCCESS, st0)"
    by (simp add: RegisterPendingAck_def st0_def)
  have "process_outbound_once perform st
      = Inr (run_ack_handler (AppHandler h) (ad_action_id d) rc (DeletePendingAck (ad_action_id d) st1))"
    unfolding process_outbound_once_def using assms(1-3,5) assms(4) [folded st0_def]
    by (simp add: Let_def reg)
  then show ?thesis
    by (simp add: run_ack_handler_def log_event_def) (simp add: smap.find_del DeletePendingAck_def)
qed

text \<open>
  A queued request whose action type is not registered is dropped: neither its callback nor the log
  of events learns of it.
\<close>

lemma outbound_unregistered_dropped:
  "ccs_outbound_action_queue st = (t, d) # q \<Longrightarrow> map_find (ccs_action_map st) t = None \<Longrightarrow>
   process_outbound_once perform st = Inr (st\<lparr>ccs_outbound_action_queue := q\<rparr>)"
  by (simp add: process_outbound_once_def Let_def)

text \<open>queueing never lets the queue grow beyond its limit, appends at the end, and gives a queued
  request the identifier it returns.\<close>

theorem enqueue_bounded_fifo:
  assumes "EnqueueOutboundAction GetNextActionId t (Some d) out st = Inr (rc, i, d', st')"
  shows "(rc = ACTION_QUEUE_FULL \<and> st' = st \<and> ccs_max_queue_size st \<le> length (ccs_outbound_action_queue st)) \<or>
    (rc = SUCCESS \<and> length (ccs_outbound_action_queue st') \<le> ccs_max_queue_size st' \<and>
     (\<exists>e. ccs_outbound_action_queue st' = ccs_outbound_action_queue st @ [(t, e)] \<and> d' = Some e \<and> ad_action_id e = i))"
  using assms
  by (auto simp: EnqueueOutboundAction_def GetNextActionId_def Let_def split: if_splits prod.splits)

text \<open>any 65535 consecutive identifiers of actions are distinct and none of them is zero.\<close>

theorem action_ids_distinct:
  assumes "ccs_next_action_id st \<noteq> 0" "k \<le> 65535"
  shows "distinct (take_ids GetNextActionId k st) \<and> 0 \<notin> set (take_ids GetNextActionId k st)"
  using assms by (rule action_ids.take_ids_distinct)

section \<open>Witnesses\<close>

type_synonym sample_state = "(nat, nat, nat) ClientCoreState"

definition sample_state :: sample_state where
  "sample_state = (ClientCoreState_new 0 7)\<lparr>ccs_action_map := [(AT_PUBLISH, 3)],
     ccs_action_create_handler_map := [(AT_PUBLISH, Some 3)],
     ccs_pending_ack_map := [(9, \<lparr>pa_time_of_request = 2, pa_async_ack_handler = SyncHandler\<rparr>)]\<rparr>"

definition sample_data :: "nat ActionData" where
  "sample_data = \<lparr>ad_async_ack_handler = Some (AppHandler 4), ad_action_id = 5, ad_payload = 0\<rparr>"

lemmas sample_simps = sample_state_def sample_data_def ClientCoreState_new_def core_ok_def map_find_def map_wf_def

theorem register_action_keeps_first_witness:
  "fst (RegisterAction AT_PUBLISH (Some (Some 8)) sample_state) = SUCCESS \<and>
    map_find (ccs_action_create_handler_map (snd (RegisterAction AT_PUBLISH (Some (Some 8)) sample_state))) AT_PUBLISH = Some (Some 3) \<and>
    map_find (ccs_action_map (snd (RegisterAction AT_PUBLISH (Some (Some 8)) sample_state))) AT_PUBLISH = Some 3"
  by (rule register_action_keeps_first) (simp_all add: sample_simps)

theorem ack_reaches_its_handler_witness:
  "ForwardReceivedAck 5 FAILURE (snd (RegisterPendingAck 5 (Some (AppHandler 4)) sample_state))
     = log_event (Ev_Ack 4 5 FAILURE) sample_state"
  by (rule ack_reaches_its_handler) (simp_all add: sample_simps)

theorem register_ack_keeps_stale_witness:
  "fst (RegisterPendingAck 9 (Some (AppHandler 4)) sample_state) = SUCCESS \<and>
    map_find (ccs_pending_ack_map (snd (RegisterPendingAck 9 (Some (AppHandler 4)) sample_state))) 9
      = Some \<lparr>pa_time_of_request = 2, pa_async_ack_handler = SyncHandler\<rparr>"
  by (rule register_ack_keeps_stale) (simp_all add: sample_simps)

theorem sync_response_of_other_action_witness:
  "\<exists>d' st'. PerformAction GetNextActionId request_action (ForwardReceivedAck 9 SUCCESS) AT_PUBLISH (Some sample_data) sample_state
      = Inr (SUCCESS, d', st') \<and>
    map_find (ccs_pending_ack_map st') 1
      = Some \<lparr>pa_time_of_request = ccs_now sample_state, pa_async_ack_handler = SyncHandler\<rparr>"
  by (rule sync_response_of_other_action [where a = 3 and tm = 2 and k = 2,
        OF _ _ _ _ refl refl]) (simp_all add: sample_simps GetNextActionId_def)

theorem outbound_failure_notified_witness:
  "\<exists>st'. process_outbound_once (\<lambda>a d st. Inr (FAILURE, d, st))
       (sample_state\<lparr>ccs_outbound_action_queue := [(AT_PUBLISH, sample_data)]\<rparr>) = Inr st' \<and>
    ccs_events st' = [] @ [Ev_Ack 4 (ad_action_id sample_data) FAILURE] \<and>
    map_find (ccs_pending_ack_map st') (ad_action_id sample_data) = None \<and> ccs_outbound_action_queue st' = []"
  using outbound_failure_notified [of "sample_state\<lparr>ccs_outbound_action_queue := [(AT_PUBLISH, sample_data)]\<rparr>"
      AT_PUBLISH sample_data "[]" 3 4 "\<lambda>a d st. Inr (FAILURE, d, st)" FAILURE]
  by (simp add: sample_simps RegisterPendingAck_def)

theorem enqueue_bounded_fifo_witness:
  "length (ccs_outbound_action_queue (sample_state\<lparr>ccs_next_action_id := 2,
     ccs_outbound_action_queue := [(AT_PUBLISH, sample_data\<lparr>ad_action_id := 1\<rparr>)]\<rparr>)) \<le> 16"
  using enqueue_bounded_fifo [of AT_PUBLISH sample_data 0 sample_state SUCCESS 1 "Some (sample_data\<lparr>ad_action_id := 1\<rparr>)"
      "sample_state\<lparr>ccs_next_action_id := 2, ccs_outbound_action_queue := [(AT_PUBLISH, sample_data\<lparr>ad_action_id := 1\<rparr>)]\<rparr>"]
  by (simp add: sample_simps EnqueueOutboundAction_def GetNextActionId_def DEFAULT_MAX_QUEUE_SIZE_def)

theorem action_ids_distinct_witness:
  "distinct (take_ids GetNextActionId 65535 sample_state) \<and> 0 \<notin> set (take_ids GetNextActionId 65535 sample_state)"
  by (rule action_ids_distinct) (simp_all add: sample_simps)

end
