(* ===== verification/MqttState.thy ===== *)
theory MqttState
  imports CoreState Topics
begin

text \<open>
  \<open>ClientState\<close> (\<^verbatim>\<open>include/mqtt/ClientState.hpp\<close>, \<^verbatim>\<open>src/mqtt/ClientState.cpp\<close>): the state of the
  MQTT client, an extension of the record of \<open>ClientCoreState\<close> as the class extends that class.

  Subscriptions are shared objects: the application, a subscribe packet and the subscription map can
  hold the same one, and \<open>SetAckIndex\<close> or \<open>SetActive\<close> through any of them is seen by all. So they
  live in a store, \<open>cs_subscriptions\<close>, and a \<open>shared_ptr<Subscription>\<close> is an index into it; an index
  outside the store is the null pointer.
\<close>

definition MIN_RECONNECT_BACKOFF_DEFAULT_SEC :: nat where
  "MIN_RECONNECT_BACKOFF_DEFAULT_SEC = 1"

definition MAX_RECONNECT_BACKOFF_DEFAULT_SEC :: nat where
  "MAX_RECONNECT_BACKOFF_DEFAULT_SEC = 128"

record ('n, 'a, 'p) ClientState = "('n, 'a, 'p) ClientCoreState" +
  cs_is_session_present :: bool
  cs_is_connected :: bool
  cs_is_auto_reconnect_enabled :: bool
  cs_is_auto_reconnect_required :: bool
  cs_is_pingreq_pending :: bool
  cs_last_sent_packet_id :: u16
  cs_keep_alive_timeout :: "int option"
  cs_min_reconnect_backoff_timeout :: nat
  cs_max_reconnect_backoff_timeout :: nat
  cs_mqtt_command_timeout :: nat
  cs_connect_data :: "'p ActionData option"
  cs_trigger_disconnect_callback :: "bool option"
  cs_subscription_map :: "(bytes \<times> nat) list"
  cs_subscriptions :: "Subscription list"

definition ClientState_new :: "nat \<Rightarrow> 'n \<Rightarrow> nat \<Rightarrow> ('n, 'a, 'p) ClientState" where
  "ClientState_new mqtt_command_timeout net now =
     ClientCoreState.extend (ClientCoreState_new net now)
       (ClientState.fields False False True False False 0 None
          MIN_RECONNECT_BACKOFF_DEFAULT_SEC MAX_RECONNECT_BACKOFF_DEFAULT_SEC mqtt_command_timeout
          None None [] [])"

section \<open>Accessors that do more than store\<close>

definition SetConnected :: "bool \<Rightarrow> ('n, 'a, 'p, 'z) ClientState_scheme \<Rightarrow> ('n, 'a, 'p, 'z) ClientState_scheme" where
  "SetConnected v st =
     (let st = st\<lparr>cs_is_connected := v\<rparr>;
          st = (if v then st\<lparr>cs_is_auto_reconnect_required := False\<rparr> else st)
      in SetProcessQueuedActions v st)"

text \<open>\<open>0\<close> is never used; after \<open>65535\<close> comes \<open>1\<close>. \<open>GetNextActionId\<close> is overridden by it.\<close>

definition GetNextPacketId :: "('n, 'a, 'p, 'z) ClientState_scheme \<Rightarrow> u16 \<times> ('n, 'a, 'p, 'z) ClientState_scheme" where
  "GetNextPacketId st =
     (let i = (if cs_last_sent_packet_id st = 65535 then 1 else cs_last_sent_packet_id st + 1)
      in (i, st\<lparr>cs_last_sent_packet_id := i\<rparr>))"

section \<open>The store of subscriptions\<close>

definition sub_at :: "('n, 'a, 'p, 'z) ClientState_scheme \<Rightarrow> nat \<Rightarrow> Subscription res" where
  "sub_at st r = (if r < length (cs_subscriptions st) then Inr (cs_subscriptions st ! r) else Inl NullPointer)"

definition sub_update :: "nat \<Rightarrow> (Subscription \<Rightarrow> Subscription) \<Rightarrow> ('n, 'a, 'p, 'z) ClientState_scheme \<Rightarrow> (('n, 'a, 'p, 'z) ClientState_scheme) res" where
  "sub_update r f st =
     bind_res (sub_at st r) (\<lambda>s. Inr (st\<lparr>cs_subscriptions := (cs_subscriptions st)[r := f s]\<rparr>))"

definition sub_alloc :: "Subscription \<Rightarrow> ('n, 'a, 'p, 'z) ClientState_scheme \<Rightarrow> nat \<times> ('n, 'a, 'p, 'z) ClientState_scheme" where
  "sub_alloc s st = (length (cs_subscriptions st), st\<lparr>cs_subscriptions := cs_subscriptions st @ [s]\<rparr>)"

section \<open>The subscription map\<close>

text \<open>\<open>find_if\<close> over the entries in key order; the predicate of \<open>GetSubscription\<close> may throw.\<close>

fun find_matching :: "('n, 'a, 'p, 'z) ClientState_scheme \<Rightarrow> bytes \<Rightarrow> (bytes \<times> nat) list \<Rightarrow> nat option res" where
  "find_matching st topic [] = Inr None"
| "find_matching st topic ((name, r) # m) =
     (if name = topic then Inr (Some r)
      else
        bind_res (sub_at st r) (\<lambda>s.
        bind_res (if 0 < length (sub_topic_regex s) then regex_match topic (sub_topic_regex s) else Inr False) (\<lambda>hit.
          if hit then Inr (Some r) else find_matching st topic m)))"

definition GetSubscription :: "bytes \<Rightarrow> ('n, 'a, 'p, 'z) ClientState_scheme \<Rightarrow> nat option res" where
  "GetSubscription p_topic_name st = find_matching st p_topic_name (cs_subscription_map st)"

text \<open>The local \<open>p_sub\<close> is never assigned: the result is always the null pointer.\<close>

definition SetSubscriptionPacketInfo :: "bytes \<Rightarrow> u16 \<Rightarrow> u8 \<Rightarrow> ('n, 'a, 'p, 'z) ClientState_scheme \<Rightarrow> (nat option \<times> ('n, 'a, 'p, 'z) ClientState_scheme) res" where
  "SetSubscriptionPacketInfo p_topic_name packet_id index_in_packet st =
     (case map_find (cs_subscription_map st) p_topic_name of
        None \<Rightarrow> Inr (None, st)
      | Some r \<Rightarrow>
          bind_res (sub_update r (SetAckIndex packet_id index_in_packet) st) (\<lambda>st. Inr (None, st)))"

text \<open>The first entry, in key order, whose subscription satisfies a test.\<close>

fun find_sub :: "(Subscription \<Rightarrow> bool) \<Rightarrow> ('n, 'a, 'p, 'z) ClientState_scheme \<Rightarrow> (bytes \<times> nat) list \<Rightarrow> (bytes \<times> nat) option res" where
  "find_sub P st [] = Inr None"
| "find_sub P st ((name, r) # m) =
     bind_res (sub_at st r) (\<lambda>s. if P s then Inr (Some (name, r)) else find_sub P st m)"

definition SetSubscriptionActive :: "u16 \<Rightarrow> u8 \<Rightarrow> QoS \<Rightarrow> ('n, 'a, 'p, 'z) ClientState_scheme \<Rightarrow> (ResponseCode \<times> ('n, 'a, 'p, 'z) ClientState_scheme) res" where
  "SetSubscriptionActive packet_id index_in_sub_packet max_qos st =
     bind_res (find_sub (\<lambda>s. IsInSuback s packet_id index_in_sub_packet) st (cs_subscription_map st)) (\<lambda>found.
       case found of
         None \<Rightarrow> Inr (FAILURE, st)
       | Some (name, r) \<Rightarrow>
           bind_res (sub_update r (SetActive True) st) (\<lambda>st.
           bind_res (sub_update r (SetMaxQos max_qos) st) (\<lambda>st.
           bind_res (sub_update r (SetAckIndex 0 0) st) (\<lambda>st. Inr (SUCCESS, st)))))"

definition RemoveSubscription :: "bytes \<Rightarrow> ('n, 'a, 'p, 'z) ClientState_scheme \<Rightarrow> ResponseCode \<times> ('n, 'a, 'p, 'z) ClientState_scheme" where
  "RemoveSubscription p_topic_name st =
     (SUCCESS, st\<lparr>cs_subscription_map := map_erase p_topic_name (cs_subscription_map st)\<rparr>)"

text \<open>The overload by packet: \<open>rc\<close> stays \<open>FAILURE\<close> also when an entry is erased.\<close>

definition RemoveSubscription_packet :: "u16 \<Rightarrow> u8 \<Rightarrow> ('n, 'a, 'p, 'z) ClientState_scheme \<Rightarrow> (ResponseCode \<times> ('n, 'a, 'p, 'z) ClientState_scheme) res" where
  "RemoveSubscription_packet packet_id index_in_sub_packet st =
     bind_res (find_sub (\<lambda>s. IsInSuback s packet_id index_in_sub_packet) st (cs_subscription_map st)) (\<lambda>found.
       case found of
         None \<Rightarrow> Inr (FAILURE, st)
       | Some (name, r) \<Rightarrow>
           Inr (FAILURE, st\<lparr>cs_subscription_map := map_erase name (cs_subscription_map st)\<rparr>))"

fun remove_all_loop :: "u16 \<Rightarrow> ('n, 'a, 'p, 'z) ClientState_scheme \<Rightarrow> (bytes \<times> nat) list \<Rightarrow> (bytes \<times> nat) list res" where
  "remove_all_loop packet_id st [] = Inr []"
| "remove_all_loop packet_id st ((name, r) # m) =
     bind_res (sub_at st r) (\<lambda>s.
     bind_res (remove_all_loop packet_id st m) (\<lambda>m.
       Inr (if sub_packet_id s = packet_id then m else (name, r) # m)))"

definition RemoveAllSubscriptionsForPacketId :: "u16 \<Rightarrow> ('n, 'a, 'p, 'z) ClientState_scheme \<Rightarrow> (ResponseCode \<times> ('n, 'a, 'p, 'z) ClientState_scheme) res" where
  "RemoveAllSubscriptionsForPacketId packet_id st =
     bind_res (remove_all_loop packet_id st (cs_subscription_map st)) (\<lambda>m.
       Inr (FAILURE, st\<lparr>cs_subscription_map := m\<rparr>))"

section \<open>Identifiers\<close>

interpretation packet_ids: id_source GetNextPacketId
  "\<lambda>st :: ('n, 'a, 'p, 'z) ClientState_scheme. unat (cs_last_sent_packet_id st) mod 65535" "\<lambda>st. True"
proof
  fix st :: "('n, 'a, 'p, 'z) ClientState_scheme"
  have bound: "unat (cs_last_sent_packet_id st) < 65536" by (rule unat_u16_bound)
  have last: "cs_last_sent_packet_id st = 65535 \<longleftrightarrow> unat (cs_last_sent_packet_id st) = 65535"
    by (simp add: word_unat_eq_iff)
  have succ: "cs_last_sent_packet_id st \<noteq> 65535 \<Longrightarrow>
      unat (cs_last_sent_packet_id st + 1) = unat (cs_last_sent_packet_id st) + 1"
    using bound last by (simp add: unat_word_ariths)
  show "unat (cs_last_sent_packet_id st) mod 65535 < 65535" by simp
  show id: "unat (fst (GetNextPacketId st)) = unat (cs_last_sent_packet_id st) mod 65535 + 1"
    using bound last succ by (auto simp: GetNextPacketId_def Let_def)
  have "cs_last_sent_packet_id (snd (GetNextPacketId st)) = fst (GetNextPacketId st)"
    by (simp add: GetNextPacketId_def Let_def)
  then show "True \<and> unat (cs_last_sent_packet_id (snd (GetNextPacketId st))) mod 65535
      = (unat (cs_last_sent_packet_id st) mod 65535 + 1) mod 65535"
    using id by simp
qed

section \<open>Well-formed states\<close>

text \<open>
  What \<open>Subscription::Create\<close> establishes of a subscription, and what the client keeps of its map:
  ordered keys, no dangling pointer, every subscription under the name of its own topic.
\<close>

definition sub_ok :: "Subscription \<Rightarrow> bool" where
  "sub_ok s \<longleftrightarrow>
     Utf8String_ok (sub_topic_name s) \<and> IsValidTopicName (utf8_data (sub_topic_name s)) \<and>
     sub_topic_regex s = topic_regex (utf8_data (sub_topic_name s)) \<and> sub_app_handler s \<noteq> None"

definition subs_ok :: "('n, 'a, 'p, 'z) ClientState_scheme \<Rightarrow> bool" where
  "subs_ok st \<longleftrightarrow>
     map_wf (cs_subscription_map st) \<and> list_all sub_ok (cs_subscriptions st) \<and>
     (\<forall>(name, r) \<in> set (cs_subscription_map st).
        r < length (cs_subscriptions st) \<and> utf8_data (sub_topic_name (cs_subscriptions st ! r)) = name)"

lemma Create_Subscription_ok:
  "Create_Subscription (Create_Utf8String name) q h d = Some s \<Longrightarrow> sub_ok s \<and> utf8_data (sub_topic_name s) = name"
  by (auto simp: Create_Subscription_def Subscription_new_def sub_ok_def dest: Create_Utf8String_ok
      split: option.splits if_splits)

lemma sub_ok_updates [simp]:
  "sub_ok (SetAckIndex i j s) = sub_ok s" "sub_ok (SetActive b s) = sub_ok s" "sub_ok (SetMaxQos q s) = sub_ok s"
  by (simp_all add: sub_ok_def SetAckIndex_def SetActive_def SetMaxQos_def)

lemma sub_topic_updates [simp]:
  "sub_topic_name (SetAckIndex i j s) = sub_topic_name s" "sub_topic_name (SetActive b s) = sub_topic_name s"
  "sub_topic_name (SetMaxQos q s) = sub_topic_name s"
  by (simp_all add: SetAckIndex_def SetActive_def SetMaxQos_def)

lemma sub_at_in: "r < length (cs_subscriptions st) \<Longrightarrow> sub_at st r = Inr (cs_subscriptions st ! r)"
  by (simp add: sub_at_def)

lemma sub_update_in:
  "r < length (cs_subscriptions st) \<Longrightarrow>
   sub_update r f st = Inr (st\<lparr>cs_subscriptions := (cs_subscriptions st)[r := f (cs_subscriptions st ! r)]\<rparr>)"
  by (simp add: sub_update_def sub_at_def)

lemma subs_ok_update:
  assumes "subs_ok st" "sub_update r f st = Inr st'"
    and "\<And>s. sub_ok s \<Longrightarrow> sub_ok (f s)" "\<And>s. sub_topic_name (f s) = sub_topic_name s"
  shows "subs_ok st'"
proof -
  have r: "r < length (cs_subscriptions st)"
    and st': "st' = st\<lparr>cs_subscriptions := (cs_subscriptions st)[r := f (cs_subscriptions st ! r)]\<rparr>"
    using assms(2) by (auto simp: sub_update_def sub_at_def split: if_splits)
  show ?thesis
    using assms(1,3,4) r
    by (auto simp: subs_ok_def st' list_all_length nth_list_update split: if_splits)
qed

lemma subs_ok_sub_alloc: "subs_ok st \<Longrightarrow> sub_ok s \<Longrightarrow> subs_ok (snd (sub_alloc s st))"
  by (fastforce simp: subs_ok_def sub_alloc_def nth_append)

lemma subs_ok_erase: "subs_ok st \<Longrightarrow> subs_ok (st\<lparr>cs_subscription_map := map_erase k (cs_subscription_map st)\<rparr>)"
  by (auto simp: subs_ok_def map_wf_erase set_map_erase)

lemma subs_ok_entry:
  "subs_ok st \<Longrightarrow> (name, r) \<in> set (cs_subscription_map st) \<Longrightarrow>
   r < length (cs_subscriptions st) \<and> utf8_data (sub_topic_name (cs_subscriptions st ! r)) = name
   \<and> sub_ok (cs_subscriptions st ! r)"
  by (auto simp: subs_ok_def list_all_length)

lemma find_sub_total:
  assumes "subs_ok st" "set m \<subseteq> set (cs_subscription_map st)"
  shows "find_sub P st m = Inr (find (\<lambda>(name, r). P (cs_subscriptions st ! r)) m)"
  using assms(2)
proof (induction m)
  case (Cons e m)
  obtain name r where e: "e = (name, r)" by force
  have "r < length (cs_subscriptions st)" using subs_ok_entry [OF assms(1)] Cons.prems e by auto
  with Cons show ?case by (simp add: e sub_at_in)
qed simp

lemma remove_all_total:
  assumes "subs_ok st" "set m \<subseteq> set (cs_subscription_map st)"
  shows "remove_all_loop i st m = Inr (filter (\<lambda>(name, r). sub_packet_id (cs_subscriptions st ! r) \<noteq> i) m)"
  using assms(2)
proof (induction m)
  case (Cons e m)
  obtain name r where e: "e = (name, r)" by force
  have "r < length (cs_subscriptions st)" using subs_ok_entry [OF assms(1)] Cons.prems e by auto
  with Cons show ?case by (simp add: e sub_at_in)
qed simp

section \<open>Properties\<close>

text \<open>
  Which names of the map cover a topic, level by level.
\<close>

definition has_wildcard :: "bytes \<Rightarrow> bool" where
  "has_wildcard f \<longleftrightarrow> plus_sign \<in> set f \<or> hash_sign \<in> set f"

definition covers :: "bytes \<Rightarrow> bytes \<Rightarrow> bool" where
  "covers f topic \<longleftrightarrow> f = topic \<or> (has_wildcard f \<and> level_match (levels f) (levels topic))"

lemma topic_regex_length: "topic_regex f = [] \<longleftrightarrow> \<not> has_wildcard f"
proof -
  have "regex_of_byte c \<noteq> []" for c
    by (simp add: regex_of_byte_def SINGLE_LEVEL_REGEX_STRING_def MULTI_LEVEL_REGEX_STRING_def)
  then show ?thesis by (auto simp: topic_regex_def has_wildcard_def)
qed

lemma find_matching_covers:
  assumes "subs_ok st" "0 \<notin> set topic" "set m \<subseteq> set (cs_subscription_map st)"
    and "\<forall>(name, r) \<in> set m. plain_filter name"
  shows "find_matching st topic m = Inr (map_option snd (find (\<lambda>(name, r). covers name topic) m))"
  using assms(3,4)
proof (induction m)
  case (Cons e m)
  obtain name r where e: "e = (name, r)" by force
  have sub: "r < length (cs_subscriptions st)" "utf8_data (sub_topic_name (cs_subscriptions st ! r)) = name"
    "sub_ok (cs_subscriptions st ! r)"
    using subs_ok_entry [OF assms(1)] Cons.prems(1) e by auto
  then have valid: "IsValidTopicName name" and rx: "sub_topic_regex (cs_subscriptions st ! r) = topic_regex name"
    by (simp_all add: sub_ok_def)
  have plain: "plain_filter name" using Cons.prems(2) e by simp
  have "regex_match topic (topic_regex name) = Inr (level_match (levels name) (levels topic))" if "has_wildcard name"
    using that valid plain assms(2) by (intro regex_match_levels) (auto simp: has_wildcard_def)
  then show ?case
    using Cons sub(1) by (auto simp: e sub_at_in rx topic_regex_length covers_def)
qed simp


lemma SetSubscriptionActive_found:
  assumes "subs_ok st" "find (\<lambda>(name, r). IsInSuback (cs_subscriptions st ! r) i j) (cs_subscription_map st) = Some (name, r)"
  shows "SetSubscriptionActive i j q st = Inr (SUCCESS, st\<lparr>cs_subscriptions := (cs_subscriptions st)[r :=
      (cs_subscriptions st ! r)\<lparr>sub_is_active := True, sub_max_qos := q, sub_packet_id := 0, sub_index_in_packet := 0\<rparr>]\<rparr>)"
proof -
  have r: "r < length (cs_subscriptions st)"
    using assms subs_ok_entry [OF assms(1)] by (auto simp: find_Some_iff) (metis nth_mem)
  show ?thesis
    using r by (simp add: SetSubscriptionActive_def find_sub_total [OF assms(1)] assms(2) sub_update_in
        SetActive_def SetMaxQos_def SetAckIndex_def)
qed

text \<open>for a filter in the map, the acknowledgement of its subscription makes exactly that subscription
  active with the granted QoS and detaches it from the packet; every other subscription stays as it was.\<close>

theorem SetSubscriptionActive_effect:
  assumes "subs_ok st" "find (\<lambda>(name, r). IsInSuback (cs_subscriptions st ! r) i j) (cs_subscription_map st) = Some (name, r)"
  shows "SetSubscriptionActive i j q st = Inr (SUCCESS, st\<lparr>cs_subscriptions := (cs_subscriptions st)[r :=
      (cs_subscriptions st ! r)\<lparr>sub_is_active := True, sub_max_qos := q, sub_packet_id := 0, sub_index_in_packet := 0\<rparr>]\<rparr>)"
  using assms by (rule SetSubscriptionActive_found)

lemma SetSubscriptionActive_none:
  "subs_ok st \<Longrightarrow> find (\<lambda>(name, r). IsInSuback (cs_subscriptions st ! r) i j) (cs_subscription_map st) = None \<Longrightarrow>
   SetSubscriptionActive i j q st = Inr (FAILURE, st)"
  by (simp add: SetSubscriptionActive_def find_sub_total)

lemma RemoveSubscription_packet_result:
  "subs_ok st \<Longrightarrow> RemoveSubscription_packet i j st = Inr (rc, st') \<Longrightarrow> rc = FAILURE"
  by (auto simp: RemoveSubscription_packet_def find_sub_total split: option.splits)

text \<open>\<open>RemoveAllSubscriptionsForPacketId\<close> leaves exactly the entries that do not belong to the packet, and
  returns \<open>FAILURE\<close> whether or not it removed any.\<close>

theorem RemoveAll_effect:
  assumes "subs_ok st"
  shows "RemoveAllSubscriptionsForPacketId i st = Inr (FAILURE, st\<lparr>cs_subscription_map :=
    filter (\<lambda>(name, r). sub_packet_id (cs_subscriptions st ! r) \<noteq> i) (cs_subscription_map st)\<rparr>)"
  using assms by (simp add: RemoveAllSubscriptionsForPacketId_def remove_all_total)

text \<open>any 65535 consecutive packet identifiers are distinct and none of them is zero.\<close>

theorem packet_ids_distinct:
  assumes "k \<le> 65535"
  shows "distinct (take_ids GetNextPacketId k st) \<and> 0 \<notin> set (take_ids GetNextPacketId k st)"
  using TrueI assms by (rule packet_ids.take_ids_distinct)

lemma subs_ok_SetSubscriptionActive:
  assumes "subs_ok st" "SetSubscriptionActive i j q st = Inr (rc, st')"
  shows "subs_ok st'"
  using assms
  by (auto simp: SetSubscriptionActive_def find_sub_total bind_res_Inr_iff split: option.splits
      elim!: subs_ok_update [rotated])

lemma subs_ok_RemoveAll:
  assumes "subs_ok st" "RemoveAllSubscriptionsForPacketId i st = Inr (rc, st')"
  shows "subs_ok st'"
  using assms by (auto simp: RemoveAllSubscriptionsForPacketId_def remove_all_total subs_ok_def map_wf_filter)

lemma subs_ok_RemoveSubscription_packet:
  assumes "subs_ok st" "RemoveSubscription_packet i j st = Inr (rc, st')"
  shows "subs_ok st'"
  using assms by (auto simp: RemoveSubscription_packet_def find_sub_total subs_ok_erase split: option.splits)

section \<open>Witnesses\<close>

type_synonym sample_client = "(script_device, nat, nat) ClientState"

definition utf8_of :: "bytes \<Rightarrow> Utf8String" where
  "utf8_of s = \<lparr>utf8_data = s, utf8_length = length s\<rparr>"

definition sample_sub :: "bytes \<Rightarrow> Subscription" where
  "sample_sub s = SetAckIndex 7 1 (Subscription_new (utf8_of s) QOS1 (Some 4) None)"

definition sample_client :: sample_client where
  "sample_client = (ClientState_new 1000 (script [] 0 9) 0)
     \<lparr>cs_subscription_map := [([97, slash, plus_sign], 0)], cs_subscriptions := [sample_sub [97, slash, plus_sign]]\<rparr>"

lemma is_valid_ascii: "\<forall>b \<in> set s. b < 0x80 \<Longrightarrow> is_valid s"
proof (induction s)
  case (Cons b s)
  then have "validate_next b s = Inr (ucast b, s)"
    by (intro validate_next_ascii) simp
  with Cons show ?case by (simp add: is_valid_def)
qed (simp add: is_valid_def)

lemma sample_client_ok: "subs_ok sample_client"
  by (simp add: sample_client_def ClientState_new_def ClientCoreState.defs ClientState.defs ClientCoreState_new_def
      subs_ok_def map_wf_def sub_ok_def sample_sub_def Subscription_new_def SetAckIndex_def utf8_of_def
      Utf8String_ok_def is_valid_ascii IsValidTopicName_def Let_def)

lemmas sample_client_simps = sample_client_def sample_sub_def Subscription_new_def SetAckIndex_def utf8_of_def


theorem SetSubscriptionActive_effect_witness:
  "SetSubscriptionActive 7 1 QOS0 sample_client = Inr (SUCCESS, sample_client\<lparr>cs_subscriptions :=
     (cs_subscriptions sample_client)[0 := (cs_subscriptions sample_client ! 0)
       \<lparr>sub_is_active := True, sub_max_qos := QOS0, sub_packet_id := 0, sub_index_in_packet := 0\<rparr>]\<rparr>)"
  by (rule SetSubscriptionActive_effect [OF sample_client_ok, where name = "[97, slash, plus_sign]"])
    (simp add: sample_client_simps IsInSuback_def)

theorem RemoveAll_effect_witness:
  "RemoveAllSubscriptionsForPacketId 7 sample_client = Inr (FAILURE, sample_client\<lparr>cs_subscription_map := []\<rparr>)"
  using RemoveAll_effect [OF sample_client_ok, of 7] by (simp add: sample_client_simps)

theorem packet_ids_distinct_witness:
  "distinct (take_ids GetNextPacketId 65535 sample_client) \<and> 0 \<notin> set (take_ids GetNextPacketId 65535 sample_client)"
  by (rule packet_ids_distinct) simp

end
