(* ===== verification/Packets.thy ===== *)
theory Packets
  imports MqttState
begin

text \<open>
  The packets of \<^verbatim>\<open>src/mqtt/Publish.cpp\<close> and \<^verbatim>\<open>src/mqtt/Subscribe.cpp\<close>: construction from the
  application's data, construction from a received buffer, and serialisation.

  A packet class extends the record of \<open>Packet\<close>. Its \<open>packet_id_\<close> is the identifier that the virtual
  \<open>SetActionId\<close> and \<open>GetActionId\<close> of \<open>ActionData\<close> reach, so it is kept there (\<open>ad_action_id\<close>) and handed
  to the serialisers; a constructor from a buffer returns it beside the packet.
\<close>

record Packet =
  pk_fixed_header :: PacketFixedHeader
  pk_packet_size :: nat
  pk_serialized_packet_length :: nat

text \<open>What every constructor does at its end.\<close>

definition packet_base :: "MessageTypes \<Rightarrow> bool \<Rightarrow> QoS \<Rightarrow> bool \<Rightarrow> nat \<Rightarrow> Packet" where
  "packet_base t dup qos retained sz =
     (case Initialize_header t dup qos retained sz PacketFixedHeader_new of
        (rc, h) \<Rightarrow>
          \<lparr>pk_fixed_header = h, pk_packet_size = sz,
           pk_serialized_packet_length = size_add sz (Length_header h)\<rparr>)"

section \<open>PUBLISH and PUBACK\<close>

record PublishPacket = Packet +
  pub_is_retained :: bool
  pub_is_duplicate :: bool
  pub_qos :: QoS
  pub_topic_name :: "Utf8String option"
  pub_payload :: bytes

text \<open>
  The header is initialised with the parameter \<open>is_duplicate\<close>; only the member is cleared for QoS 0.
\<close>

definition PublishPacket_new :: "Utf8String \<Rightarrow> bool \<Rightarrow> bool \<Rightarrow> QoS \<Rightarrow> bytes \<Rightarrow> PublishPacket" where
  "PublishPacket_new topic is_retained is_duplicate qos payload =
     (let sz = size_add (size_add (Length_utf8 topic) 2) (length payload);
          sz = (if qos \<noteq> QOS0 then size_add sz 2 else sz)
      in Packet.extend (packet_base MT_PUBLISH is_duplicate qos is_retained sz)
           (PublishPacket.fields is_retained (if qos = QOS0 then False else is_duplicate) qos (Some topic) payload))"

definition Create_PublishPacket :: "Utf8String option \<Rightarrow> bool \<Rightarrow> bool \<Rightarrow> QoS \<Rightarrow> bytes \<Rightarrow> PublishPacket option" where
  "Create_PublishPacket p_topic_name is_retained is_duplicate qos payload =
     (case p_topic_name of
        None \<Rightarrow> None
      | Some topic \<Rightarrow> Some (PublishPacket_new topic is_retained is_duplicate qos payload))"

text \<open>
  The constructor from a buffer. For QoS 0 the identifier is left uninitialised (\<open>None\<close>). A topic that
  is empty or no UTF-8 gives a null pointer, which is dereferenced for the size.
\<close>

definition PublishPacket_of_buffer :: "bytes \<Rightarrow> bool \<Rightarrow> bool \<Rightarrow> QoS \<Rightarrow> (PublishPacket \<times> u16 option) res" where
  "PublishPacket_of_buffer buf is_retained is_duplicate qos =
     bind_res (ReadUtf8StringFromBuffer buf 0) (\<lambda>(p_topic, i).
     bind_res (if qos \<noteq> QOS0 then bind_res (ReadUInt16FromBuffer buf i) (\<lambda>(v, i). Inr (Some v, i))
               else Inr (None, i)) (\<lambda>(packet_id, i).
       let payload = (if i = length buf then [] else drop i buf) in
       bind_res (deref p_topic) (\<lambda>topic.
         let sz = size_add (size_add (Length_utf8 topic) 2) (length payload)
         in Inr (Packet.extend (packet_base MT_PUBLISH is_duplicate qos is_retained sz)
                   (PublishPacket.fields is_retained is_duplicate qos (Some topic) payload), packet_id))))"

definition Create_PublishPacket_of_buffer ::
  "bytes \<Rightarrow> bool \<Rightarrow> bool \<Rightarrow> QoS \<Rightarrow> (PublishPacket \<times> u16 option) option res" where
  "Create_PublishPacket_of_buffer buf is_retained is_duplicate qos =
     (if 3 > length buf then Inr None
      else bind_res (PublishPacket_of_buffer buf is_retained is_duplicate qos) (\<lambda>p. Inr (Some p)))"

definition PublishPacket_ToString :: "PublishPacket \<Rightarrow> u16 \<Rightarrow> bytes res" where
  "PublishPacket_ToString p packet_id =
     bind_res (deref (pub_topic_name p)) (\<lambda>topic.
       let buf = AppendToBuffer_header (pk_fixed_header p) [];
           buf = AppendUtf8StringToBuffer buf topic;
           buf = (if pub_qos p \<noteq> QOS0 then AppendUInt16ToBuffer buf packet_id else buf)
       in Inr (buf @ pub_payload p))"

record PubackPacket = Packet +
  puback_publish_packet_id :: u16

definition PubackPacket_new :: "u16 \<Rightarrow> PubackPacket" where
  "PubackPacket_new publish_packet_id =
     Packet.extend (packet_base MT_PUBACK False QOS0 False 2) (PubackPacket.fields publish_packet_id)"

definition Create_PubackPacket :: "u16 \<Rightarrow> PubackPacket" where
  "Create_PubackPacket packet_id = PubackPacket_new packet_id"

definition PubackPacket_ToString :: "PubackPacket \<Rightarrow> bytes" where
  "PubackPacket_ToString p =
     AppendUInt16ToBuffer (AppendToBuffer_header (pk_fixed_header p) []) (puback_publish_packet_id p)"

section \<open>SUBSCRIBE and SUBACK\<close>

definition MAX_TOPICS_IN_ONE_SUBSCRIBE_PACKET :: nat where
  "MAX_TOPICS_IN_ONE_SUBSCRIBE_PACKET = 8"

record SubscribePacket = Packet +
  subp_subscription_list :: "nat list"

fun subscribe_size :: "('n, 'a, 'p, 'z) ClientState_scheme \<Rightarrow> nat list \<Rightarrow> nat \<Rightarrow> nat res" where
  "subscribe_size st [] sz = Inr sz"
| "subscribe_size st (r # rs) sz =
     bind_res (sub_at st r) (\<lambda>s.
       subscribe_size st rs (size_add (size_add (size_add sz (GetTopicNameLength s)) 2) 1))"

definition SubscribePacket_new :: "('n, 'a, 'p, 'z) ClientState_scheme \<Rightarrow> nat list \<Rightarrow> SubscribePacket res" where
  "SubscribePacket_new st subscription_list =
     bind_res (subscribe_size st subscription_list 2) (\<lambda>sz.
       Inr (Packet.extend (packet_base MT_SUBSCRIBE False QOS0 False sz) (SubscribePacket.fields subscription_list)))"

definition Create_SubscribePacket :: "('n, 'a, 'p, 'z) ClientState_scheme \<Rightarrow> nat list \<Rightarrow> SubscribePacket option res" where
  "Create_SubscribePacket st subscription_list =
     (if subscription_list = [] \<or> MAX_TOPICS_IN_ONE_SUBSCRIBE_PACKET < length subscription_list then Inr None
      else bind_res (SubscribePacket_new st subscription_list) (\<lambda>p. Inr (Some p)))"

text \<open>
  Serialising a SUBSCRIBE packet also tells each subscription its place in the packet, counted from
  one in a \<open>uint8_t\<close>.
\<close>

fun subscribe_topics :: "u16 \<Rightarrow> nat list \<Rightarrow> u8 \<Rightarrow> bytes \<Rightarrow> ('n, 'a, 'p, 'z) ClientState_scheme \<Rightarrow> (bytes \<times> ('n, 'a, 'p, 'z) ClientState_scheme) res" where
  "subscribe_topics packet_id [] itr_index buf st = Inr (buf, st)"
| "subscribe_topics packet_id (r # rs) itr_index buf st =
     bind_res (sub_at st r) (\<lambda>s.
       let buf = AppendUtf8StringToBuffer buf (sub_topic_name s);
           buf = buf @ [case sub_max_qos s of QOS0 \<Rightarrow> 0x00 | QOS1 \<Rightarrow> 0x01]
       in bind_res (sub_update r (SetAckIndex packet_id itr_index) st) (\<lambda>st.
            subscribe_topics packet_id rs (itr_index + 1) buf st))"

definition SubscribePacket_ToString :: "SubscribePacket \<Rightarrow> u16 \<Rightarrow> ('n, 'a, 'p, 'z) ClientState_scheme \<Rightarrow> (bytes \<times> ('n, 'a, 'p, 'z) ClientState_scheme) res" where
  "SubscribePacket_ToString p packet_id st =
     (let buf = AppendToBuffer_header (pk_fixed_header p) [];
          buf = AppendUInt16ToBuffer buf packet_id
      in subscribe_topics packet_id (subp_subscription_list p) 1 buf st)"

record SubackPacket = Packet +
  suback_list :: "u8 list"

definition SubackPacket_of_buffer :: "bytes \<Rightarrow> (SubackPacket \<times> u16) res" where
  "SubackPacket_of_buffer buf =
     bind_res (ReadUInt16FromBuffer buf 0) (\<lambda>(packet_id, i).
       Inr (Packet.extend (packet_base MT_SUBACK False QOS0 False (length buf))
              (SubackPacket.fields (drop i buf)), packet_id))"

definition Create_SubackPacket :: "bytes \<Rightarrow> (SubackPacket \<times> u16) option res" where
  "Create_SubackPacket buf =
     (if 0 = length buf then Inr None else bind_res (SubackPacket_of_buffer buf) (\<lambda>p. Inr (Some p)))"

definition SubackPacket_ToString :: "SubackPacket \<Rightarrow> u16 \<Rightarrow> bytes" where
  "SubackPacket_ToString p packet_id =
     AppendUInt16ToBuffer (AppendToBuffer_header (pk_fixed_header p) []) packet_id @ suback_list p"

section \<open>UNSUBSCRIBE and UNSUBACK\<close>

record UnsubscribePacket = Packet +
  unsub_topic_list :: "Utf8String option list"

fun unsubscribe_size :: "Utf8String option list \<Rightarrow> nat \<Rightarrow> nat res" where
  "unsubscribe_size [] sz = Inr sz"
| "unsubscribe_size (t # ts) sz =
     bind_res (deref t) (\<lambda>t. unsubscribe_size ts (size_add (size_add sz (Length_utf8 t)) 2))"

definition UnsubscribePacket_new :: "Utf8String option list \<Rightarrow> UnsubscribePacket res" where
  "UnsubscribePacket_new topic_list =
     bind_res (unsubscribe_size topic_list 2) (\<lambda>sz.
       Inr (Packet.extend (packet_base MT_UNSUBSCRIBE False QOS0 False sz) (UnsubscribePacket.fields topic_list)))"

definition Create_UnsubscribePacket :: "Utf8String option list \<Rightarrow> UnsubscribePacket option res" where
  "Create_UnsubscribePacket topic_list =
     (if topic_list = [] \<or> MAX_TOPICS_IN_ONE_SUBSCRIBE_PACKET < length topic_list then Inr None
      else bind_res (UnsubscribePacket_new topic_list) (\<lambda>p. Inr (Some p)))"

fun unsubscribe_topics :: "Utf8String option list \<Rightarrow> bytes \<Rightarrow> bytes res" where
  "unsubscribe_topics [] buf = Inr buf"
| "unsubscribe_topics (t # ts) buf =
     bind_res (deref t) (\<lambda>t. unsubscribe_topics ts (AppendUtf8StringToBuffer buf t))"

definition UnsubscribePacket_ToString :: "UnsubscribePacket \<Rightarrow> u16 \<Rightarrow> bytes res" where
  "UnsubscribePacket_ToString p packet_id =
     unsubscribe_topics (unsub_topic_list p)
       (AppendUInt16ToBuffer (AppendToBuffer_header (pk_fixed_header p) []) packet_id)"

text \<open>An UNSUBACK packet has no members beside those of \<open>Packet\<close>.\<close>

definition UnsubackPacket_of_buffer :: "bytes \<Rightarrow> (Packet \<times> u16) res" where
  "UnsubackPacket_of_buffer buf =
     bind_res (ReadUInt16FromBuffer buf 0) (\<lambda>(packet_id, i).
       Inr (packet_base MT_UNSUBACK False QOS0 False (length buf), packet_id))"

definition Create_UnsubackPacket :: "bytes \<Rightarrow> (Packet \<times> u16) option res" where
  "Create_UnsubackPacket buf =
     (if 0 = length buf then Inr None else bind_res (UnsubackPacket_of_buffer buf) (\<lambda>p. Inr (Some p)))"

definition UnsubackPacket_ToString :: "Packet \<Rightarrow> u16 \<Rightarrow> bytes" where
  "UnsubackPacket_ToString p packet_id =
     AppendUInt16ToBuffer (AppendToBuffer_header (pk_fixed_header p) []) packet_id"

section \<open>CONNECT, DISCONNECT and PINGREQ\<close>

text \<open>
  \<^verbatim>\<open>src/mqtt/Connect.cpp\<close>. Durations in seconds are integers, as \<open>std::chrono::seconds\<close> is signed. The
  version string of the SDK is set by the build: the argument \<open>sdk_version\<close>. The user name and password of
  the caller are not used by the code.
\<close>

datatype Version = MQTT_3_1_1

fun Version_value :: "Version \<Rightarrow> u8" where
  "Version_value MQTT_3_1_1 = 4"

record ConnectPacket = Packet +
  con_is_clean_session :: bool
  con_connect_flags :: u8
  con_keep_alive_timeout :: int
  con_mqtt_version :: Version
  con_protocol_id :: "Utf8String option"
  con_client_id :: "Utf8String option"
  con_will_msg :: "WillOptions option"
  con_username :: "Utf8String option"

definition ConnectPacket_new ::
  "bytes \<Rightarrow> bool \<Rightarrow> Version \<Rightarrow> int \<Rightarrow> Utf8String option \<Rightarrow> WillOptions option \<Rightarrow> bool \<Rightarrow> ConnectPacket res" where
  "ConnectPacket_new sdk_version is_clean_session mqtt_version keep_alive_timeout p_client_id p_will_msg is_metrics_enabled =
     (let flags = (if is_clean_session then 0 OR 0x02 else 0);
          sz = 10;
          protocol_id = Create_Utf8String (str ''MQTT'');
          sz = (case p_client_id of None \<Rightarrow> sz | Some c \<Rightarrow> size_add sz (Length_utf8 c));
          clean = (if p_client_id = None \<and> \<not> is_clean_session then True else is_clean_session);
          sz = size_add sz 2
      in bind_res (if is_metrics_enabled then
                     let name = Create_Utf8String (str ''?SDK=CPP&Version='' @ sdk_version)
                     in bind_res (deref name) (\<lambda>u.
                          Inr (size_add (size_add sz (Length_utf8 u)) 2, flags OR 0x80, Some u))
                   else Inr (sz, flags, None)) (\<lambda>(sz, flags, username).
         bind_res (case p_will_msg of
                     None \<Rightarrow> Inr (sz, flags)
                   | Some w \<Rightarrow>
                       bind_res (Length_will w) (\<lambda>l. Inr (size_add (size_add sz l) 4, SetConnectFlags w flags)))
           (\<lambda>(sz, flags).
              Inr (Packet.extend (packet_base MT_CONNECT False QOS0 False sz)
                     (ConnectPacket.fields clean flags keep_alive_timeout mqtt_version protocol_id p_client_id
                        p_will_msg username)))))"

definition Create_ConnectPacket ::
  "bytes \<Rightarrow> bool \<Rightarrow> Version \<Rightarrow> int \<Rightarrow> Utf8String option \<Rightarrow> WillOptions option \<Rightarrow> bool \<Rightarrow> ConnectPacket option res" where
  "Create_ConnectPacket sdk_version is_clean_session mqtt_version keep_alive_timeout p_client_id p_will_msg is_metrics_enabled =
     (if 65535 < keep_alive_timeout then Inr None
      else if p_client_id = None \<and> \<not> is_clean_session then Inr None
      else bind_res (ConnectPacket_new sdk_version is_clean_session mqtt_version keep_alive_timeout p_client_id
             p_will_msg is_metrics_enabled) (\<lambda>p. Inr (Some p)))"

definition ConnectPacket_ToString :: "ConnectPacket \<Rightarrow> bytes res" where
  "ConnectPacket_ToString p =
     (let buf = AppendToBuffer_header (pk_fixed_header p) [] in
      bind_res (deref (con_protocol_id p)) (\<lambda>protocol_id.
        let buf = AppendUtf8StringToBuffer buf protocol_id;
            buf = buf @ [Version_value (con_mqtt_version p)];
            buf = buf @ [con_connect_flags p];
            buf = (if 65535 < con_keep_alive_timeout p then AppendUInt16ToBuffer buf 65535
                   else AppendUInt16ToBuffer buf (of_int (con_keep_alive_timeout p)));
            buf = (case con_client_id p of
                     None \<Rightarrow> AppendUInt16ToBuffer buf 0
                   | Some c \<Rightarrow> AppendUtf8StringToBuffer buf c)
        in bind_res (case con_will_msg p of None \<Rightarrow> Inr buf | Some w \<Rightarrow> WriteToBuffer_will w buf) (\<lambda>buf.
             Inr (case con_username p of None \<Rightarrow> buf | Some u \<Rightarrow> AppendUtf8StringToBuffer buf u))))"

definition GetClientID :: "ConnectPacket \<Rightarrow> bytes" where
  "GetClientID p = (case con_client_id p of Some c \<Rightarrow> ToStdString c | None \<Rightarrow> [])"

text \<open>DISCONNECT and PINGREQ consist of the fixed header.\<close>

definition DisconnectPacket_new :: Packet where
  "DisconnectPacket_new = packet_base MT_DISCONNECT False QOS0 False 0"

definition DisconnectPacket_ToString :: "Packet \<Rightarrow> bytes" where
  "DisconnectPacket_ToString p = AppendToBuffer_header (pk_fixed_header p) []"

definition PingreqPacket_new :: Packet where
  "PingreqPacket_new = packet_base MT_PINGREQ False QOS0 False 0"

definition PingreqPacket_ToString :: "Packet \<Rightarrow> bytes" where
  "PingreqPacket_ToString p = AppendToBuffer_header (pk_fixed_header p) []"

section \<open>Sizes\<close>

text \<open>
  The size a packet announces in its fixed header is the number of bytes that follow the header. The
  sizes in question are far below \<open>2 ^ 64\<close>: a packet that is longer than the maximum remaining length
  has no valid header.
\<close>

lemma packet_base_header:
  "sz \<le> MAX_MQTT_PACKET_REM_LEN_BYTES \<Longrightarrow> t \<noteq> MT_INVALID \<Longrightarrow> t \<noteq> MT_RESERVED \<Longrightarrow>
   fh_is_valid (pk_fixed_header (packet_base t dup qos ret sz)) \<and>
   fh_remaining_length (pk_fixed_header (packet_base t dup qos ret sz)) = sz \<and>
   Some (fh_byte (pk_fixed_header (packet_base t dup qos ret sz))) = fixed_header_byte t dup qos ret \<and>
   pk_packet_size (packet_base t dup qos ret sz) = sz"
  by (cases t) (simp_all add: packet_base_def Initialize_header_def Let_def)

lemma Packet_extend_simps [simp]:
  "pk_fixed_header (Packet.extend b m) = pk_fixed_header b"
  "pk_packet_size (Packet.extend b m) = pk_packet_size b"
  by (simp_all add: Packet.defs)

lemma size_add_3: "a + b + c < 2 ^ 64 \<Longrightarrow> size_add (size_add a b) c = a + b + c"
  by (simp add: size_add_def)

abbreviation header_of :: "'x Packet_scheme \<Rightarrow> PacketFixedHeader" where
  "header_of p \<equiv> pk_fixed_header p"

lemma append_utf8: "AppendUtf8StringToBuffer buf s = buf @ AppendUtf8StringToBuffer [] s"
  by (simp add: AppendUtf8StringToBuffer_def Let_def)

lemma append_u16: "AppendUInt16ToBuffer buf v = buf @ AppendUInt16ToBuffer [] v"
  by (simp add: AppendUInt16ToBuffer_def)

lemma append_header: "AppendToBuffer_header h buf = buf @ AppendToBuffer_header h []"
  by (simp add: AppendToBuffer_header_def)

lemma length_header_bytes:
  "sz \<le> MAX_MQTT_PACKET_REM_LEN_BYTES \<Longrightarrow> t \<noteq> MT_INVALID \<Longrightarrow> t \<noteq> MT_RESERVED \<Longrightarrow>
   length (AppendToBuffer_header (pk_fixed_header (packet_base t dup qos ret sz)) [])
     = Length_header (pk_fixed_header (packet_base t dup qos ret sz))"
  using packet_base_header [of sz t dup qos ret] by (simp add: length_AppendToBuffer_header)

lemma length_sendable: "sendable s \<Longrightarrow> length (AppendUtf8StringToBuffer [] s) = utf8_length s + 2"
  by (simp add: length_AppendUtf8StringToBuffer sendable_def)

section \<open>PUBLISH\<close>

text \<open>The size, the bytes and the member of an outgoing packet.\<close>

definition publish_size :: "Utf8String \<Rightarrow> QoS \<Rightarrow> bytes \<Rightarrow> nat" where
  "publish_size topic qos payload = utf8_length topic + 2 + length payload + (if qos = QOS0 then 0 else 2)"

lemma publish_base:
  assumes "publish_size topic qos payload \<le> MAX_MQTT_PACKET_REM_LEN_BYTES"
  shows "pk_fixed_header (PublishPacket_new topic ret dup qos payload)
      = pk_fixed_header (packet_base MT_PUBLISH dup qos ret (publish_size topic qos payload))"
    and "pub_topic_name (PublishPacket_new topic ret dup qos payload) = Some topic"
    and "pub_payload (PublishPacket_new topic ret dup qos payload) = payload"
    and "pub_qos (PublishPacket_new topic ret dup qos payload) = qos"
  using assms
  by (auto simp: PublishPacket_new_def publish_size_def Let_def size_add_3 size_add_small
      MAX_MQTT_PACKET_REM_LEN_BYTES_def PublishPacket.defs Packet.defs)

definition publish_body :: "Utf8String \<Rightarrow> QoS \<Rightarrow> bytes \<Rightarrow> u16 \<Rightarrow> bytes" where
  "publish_body topic qos payload i =
     AppendUtf8StringToBuffer [] topic @ (if qos = QOS0 then [] else AppendUInt16ToBuffer [] i) @ payload"

lemma publish_bytes:
  assumes "publish_size topic qos payload \<le> MAX_MQTT_PACKET_REM_LEN_BYTES"
  shows "PublishPacket_ToString (PublishPacket_new topic ret dup qos payload) i
      = Inr (AppendToBuffer_header (header_of (PublishPacket_new topic ret dup qos payload)) []
             @ publish_body topic qos payload i)"
proof -
  define h where "h = AppendToBuffer_header (header_of (PublishPacket_new topic ret dup qos payload)) []"
  have "AppendUtf8StringToBuffer h topic = h @ AppendUtf8StringToBuffer [] topic"
    "AppendUInt16ToBuffer (AppendUtf8StringToBuffer h topic) i
      = AppendUtf8StringToBuffer h topic @ AppendUInt16ToBuffer [] i"
    by (rule append_utf8, rule append_u16)
  then show ?thesis
    unfolding h_def [symmetric]
    by (simp add: PublishPacket_ToString_def publish_base(2-4) [OF assms] publish_body_def Let_def flip: h_def)
qed

lemma length_publish_body:
  "sendable topic \<Longrightarrow> length (publish_body topic qos payload i) = publish_size topic qos payload"
  by (simp add: publish_body_def publish_size_def length_sendable wire_simps)

lemma publish_of_body:
  assumes "sendable topic" "publish_size topic qos payload \<le> MAX_MQTT_PACKET_REM_LEN_BYTES"
  shows "\<exists>p. PublishPacket_of_buffer (publish_body topic qos payload i) ret dup qos
        = Inr (p, if qos = QOS0 then None else Some i) \<and>
      pub_topic_name p = Some topic \<and> pub_payload p = payload \<and> pub_qos p = qos"
proof -
  let ?t = "AppendUtf8StringToBuffer [] topic"
  have topic: "ReadUtf8StringFromBuffer (?t @ rest) 0 = Inr (Some topic, length ?t)" for rest
    using read_written_string [OF assms(1), of "[]" rest] by simp
  have id: "ReadUInt16FromBuffer (?t @ AppendUInt16ToBuffer [] i @ rest) (length ?t) = Inr (i, length ?t + 2)" for rest
    using u16_codec.get_put [of ?t i rest] append_u16 [of ?t i] by (simp add: wire_simps)
  show ?thesis
    by (cases qos) (simp_all add: PublishPacket_of_buffer_def publish_body_def topic id Let_def
        Packet.defs PublishPacket.defs length_AppendUInt16ToBuffer)
qed

lemma publish_roundtrip':
  assumes "sendable topic" "publish_size topic qos payload \<le> MAX_MQTT_PACKET_REM_LEN_BYTES"
  shows "\<exists>hdr body p. PublishPacket_ToString (PublishPacket_new topic ret dup qos payload) i = Inr (hdr @ body) \<and>
    length hdr = Length_header (header_of (PublishPacket_new topic ret dup qos payload)) \<and>
    fh_remaining_length (header_of (PublishPacket_new topic ret dup qos payload)) = length body \<and>
    PublishPacket_of_buffer body ret dup qos = Inr (p, if qos = QOS0 then None else Some i) \<and>
    pub_topic_name p = Some topic \<and> pub_payload p = payload"
proof -
  obtain p where "PublishPacket_of_buffer (publish_body topic qos payload i) ret dup qos
      = Inr (p, if qos = QOS0 then None else Some i)" "pub_topic_name p = Some topic" "pub_payload p = payload"
    using publish_of_body [OF assms] by blast
  moreover have "length (AppendToBuffer_header (header_of (PublishPacket_new topic ret dup qos payload)) [])
      = Length_header (header_of (PublishPacket_new topic ret dup qos payload))"
    unfolding publish_base(1) [OF assms(2)] using assms(2) by (intro length_header_bytes) simp_all
  moreover have "fh_remaining_length (header_of (PublishPacket_new topic ret dup qos payload))
      = length (publish_body topic qos payload i)"
    unfolding publish_base(1) [OF assms(2)] length_publish_body [OF assms(1)]
    using packet_base_header [OF assms(2), of MT_PUBLISH dup qos ret] by simp
  ultimately show ?thesis using publish_bytes [OF assms(2)] by blast
qed

text \<open>C4: a PUBLISH packet with a topic of 1 to 65535 bytes announces exactly the number of bytes that
  follow its fixed header, and parsing these bytes gives back its topic, payload and identifier.\<close>

theorem publish_roundtrip:
  assumes "sendable topic" "publish_size topic qos payload \<le> MAX_MQTT_PACKET_REM_LEN_BYTES"
  shows "\<exists>hdr body p. PublishPacket_ToString (PublishPacket_new topic ret dup qos payload) i = Inr (hdr @ body) \<and>
    length hdr = Length_header (header_of (PublishPacket_new topic ret dup qos payload)) \<and>
    fh_remaining_length (header_of (PublishPacket_new topic ret dup qos payload)) = length body \<and>
    PublishPacket_of_buffer body ret dup qos = Inr (p, if qos = QOS0 then None else Some i) \<and>
    pub_topic_name p = Some topic \<and> pub_payload p = payload"
  using assms by (rule publish_roundtrip')

text \<open>a QoS 0 PUBLISH packet that is created as a duplicate carries the DUP bit in its fixed header,
  although its member \<open>is_duplicate_\<close> is cleared.\<close>

theorem publish_qos0_keeps_dup_bit:
  assumes "publish_size topic QOS0 payload \<le> MAX_MQTT_PACKET_REM_LEN_BYTES"
  shows "\<not> pub_is_duplicate (PublishPacket_new topic ret True QOS0 payload) \<and>
    fh_byte (header_of (PublishPacket_new topic ret True QOS0 payload)) AND 0x08 = 0x08"
proof -
  have "Some (fh_byte (header_of (PublishPacket_new topic ret True QOS0 payload)))
      = fixed_header_byte MT_PUBLISH True QOS0 ret"
    unfolding publish_base(1) [OF assms] using packet_base_header [OF assms, of MT_PUBLISH True QOS0 ret] by simp
  then have "fh_byte (header_of (PublishPacket_new topic ret True QOS0 payload)) AND 0x08 = 0x08"
    by (cases ret) simp_all
  then show ?thesis by (simp add: PublishPacket_new_def Let_def Packet.defs PublishPacket.defs)
qed

section \<open>SUBSCRIBE\<close>

definition topic_length :: "('n, 'a, 'p, 'z) ClientState_scheme \<Rightarrow> nat \<Rightarrow> nat" where
  "topic_length st r = utf8_length (sub_topic_name (cs_subscriptions st ! r))"

definition topics_size :: "('n, 'a, 'p, 'z) ClientState_scheme \<Rightarrow> nat list \<Rightarrow> nat" where
  "topics_size st rs = sum_list (map (\<lambda>r. topic_length st r + 3) rs)"

text \<open>The subscriptions of a packet exist and have topics that can be written.\<close>

definition topics_sendable :: "('n, 'a, 'p, 'z) ClientState_scheme \<Rightarrow> nat list \<Rightarrow> bool" where
  "topics_sendable st rs \<longleftrightarrow>
     (\<forall>r \<in> set rs. r < length (cs_subscriptions st) \<and> sendable (sub_topic_name (cs_subscriptions st ! r)))"

lemma subscribe_size_sum:
  assumes "topics_sendable st rs" "sz + topics_size st rs < 2 ^ 64"
  shows "subscribe_size st rs sz = Inr (sz + topics_size st rs)"
  using assms
proof (induction rs arbitrary: sz)
  case (Cons r rs)
  have "size_add (size_add (size_add sz (topic_length st r)) 2) 1 = sz + topic_length st r + 3"
    using Cons.prems(2) by (simp add: size_add_def topics_size_def)
  with Cons show ?case
    by (simp add: topics_sendable_def topics_size_def sub_at_in GetTopicNameLength_def topic_length_def [symmetric])
qed (simp add: topics_size_def)

lemma SetAckIndex_IsInSuback: "IsInSuback (SetAckIndex i j s) i j"
  by (simp add: IsInSuback_def SetAckIndex_def)

lemma subscribe_topics_effect:
  assumes "topics_sendable st rs" "distinct rs"
  shows "\<exists>buf' st'. subscribe_topics i rs j buf st = Inr (buf', st') \<and>
    length buf' = length buf + topics_size st rs \<and>
    length (cs_subscriptions st') = length (cs_subscriptions st) \<and>
    (\<forall>r. r \<notin> set rs \<longrightarrow> cs_subscriptions st' ! r = cs_subscriptions st ! r) \<and>
    (\<forall>k < length rs. IsInSuback (cs_subscriptions st' ! (rs ! k)) i (j + of_nat k))"
  using assms
proof (induction rs arbitrary: j buf st)
  case (Cons r rs)
  let ?s = "cs_subscriptions st ! r"
  let ?st = "st\<lparr>cs_subscriptions := (cs_subscriptions st)[r := SetAckIndex i j ?s]\<rparr>"
  let ?buf = "AppendUtf8StringToBuffer buf (sub_topic_name ?s) @ [case sub_max_qos ?s of QOS0 \<Rightarrow> 0x00 | QOS1 \<Rightarrow> 0x01]"
  have r: "r < length (cs_subscriptions st)" "sendable (sub_topic_name ?s)" "r \<notin> set rs"
    using Cons.prems by (simp_all add: topics_sendable_def)
  have same: "cs_subscriptions ?st ! q = cs_subscriptions st ! q" if "q \<noteq> r" for q
    using that by simp
  have send: "topics_sendable ?st rs" and size: "topics_size ?st rs = topics_size st rs"
    using Cons.prems r(3) by (auto simp: topics_sendable_def topics_size_def topic_length_def nth_list_update
        intro!: arg_cong [where f = sum_list])
  obtain buf' st' where rec: "subscribe_topics i rs (j + 1) ?buf ?st = Inr (buf', st')"
    "length buf' = length ?buf + topics_size st rs"
    "length (cs_subscriptions st') = length (cs_subscriptions st)"
    "\<forall>q. q \<notin> set rs \<longrightarrow> cs_subscriptions st' ! q = cs_subscriptions ?st ! q"
    "\<forall>k < length rs. IsInSuback (cs_subscriptions st' ! (rs ! k)) i (j + 1 + of_nat k)"
    using Cons.IH [OF send, of "j + 1" ?buf] Cons.prems(2) size by auto
  have "subscribe_topics i (r # rs) j buf st = Inr (buf', st')"
    using rec(1) r(1) by (simp add: sub_at_in sub_update_in Let_def)
  moreover have "length buf' = length buf + topics_size st (r # rs)"
    using rec(2) r(2) by (simp add: length_AppendUtf8StringToBuffer sendable_def topics_size_def topic_length_def)
  moreover have "cs_subscriptions st' ! r = SetAckIndex i j ?s"
    using rec(4) r(1,3) by simp
  then have "\<forall>k < length (r # rs). IsInSuback (cs_subscriptions st' ! ((r # rs) ! k)) i (j + of_nat k)"
    using rec(5) by (auto simp: nth_Cons SetAckIndex_IsInSuback algebra_simps split: nat.splits)
  moreover have "\<forall>q. q \<notin> set (r # rs) \<longrightarrow> cs_subscriptions st' ! q = cs_subscriptions st ! q"
    using rec(4) by simp
  ultimately show ?case using rec(3) by auto
qed (simp add: topics_size_def)

text \<open>a SUBSCRIBE packet announces exactly the number of bytes that follow its fixed header, and
  serialising it numbers its subscriptions from one under the packet's identifier.\<close>

theorem subscribe_announced_size:
  assumes "topics_sendable st rs" "distinct rs" "2 + topics_size st rs \<le> MAX_MQTT_PACKET_REM_LEN_BYTES"
  shows "\<exists>p bs st'. SubscribePacket_new st rs = Inr p \<and> SubscribePacket_ToString p i st = Inr (bs, st') \<and>
    length bs = Length_header (header_of p) + fh_remaining_length (header_of p) \<and>
    (\<forall>k < length rs. IsInSuback (cs_subscriptions st' ! (rs ! k)) i (1 + of_nat k))"
proof -
  let ?b = "packet_base MT_SUBSCRIBE False QOS0 False (2 + topics_size st rs)"
  let ?p = "Packet.extend ?b (SubscribePacket.fields rs)"
  have new: "SubscribePacket_new st rs = Inr ?p"
    using assms(3) subscribe_size_sum [OF assms(1), of 2]
    by (simp add: SubscribePacket_new_def MAX_MQTT_PACKET_REM_LEN_BYTES_def)
  have list: "subp_subscription_list ?p = rs"
    by (simp add: Packet.defs SubscribePacket.defs)
  let ?h = "AppendUInt16ToBuffer (AppendToBuffer_header (header_of ?b) []) i"
  obtain bs st' where ser: "subscribe_topics i rs 1 ?h st = Inr (bs, st')"
    "length bs = length ?h + topics_size st rs"
    "\<forall>k < length rs. IsInSuback (cs_subscriptions st' ! (rs ! k)) i (1 + of_nat k)"
    using subscribe_topics_effect [OF assms(1,2), of i 1 ?h] by blast
  have "length ?h = Length_header (header_of ?b) + 2"
    using assms(3) by (simp add: length_AppendUInt16ToBuffer length_header_bytes)
  moreover have "fh_remaining_length (header_of ?b) = 2 + topics_size st rs"
    using packet_base_header [OF assms(3), of MT_SUBSCRIBE] by simp
  ultimately show ?thesis
    using new ser list by (auto simp: SubscribePacket_ToString_def)
qed

section \<open>CONNECT\<close>

text \<open>The bytes of the variable header and the payload, and their number.\<close>

definition will_size :: "WillOptions option \<Rightarrow> nat" where
  "will_size w = (case w of None \<Rightarrow> 0 | Some w \<Rightarrow>
     (case will_topic_name w of None \<Rightarrow> 0 | Some t \<Rightarrow> utf8_length t) + length (will_message w) + 4)"

definition optional_size :: "Utf8String option \<Rightarrow> nat" where
  "optional_size s = (case s of None \<Rightarrow> 0 | Some u \<Rightarrow> utf8_length u)"

definition metrics_string :: "bytes \<Rightarrow> bool \<Rightarrow> Utf8String option" where
  "metrics_string sdk_version is_metrics_enabled =
     (if is_metrics_enabled then Create_Utf8String (str ''?SDK=CPP&Version='' @ sdk_version) else None)"

definition connect_size :: "bytes \<Rightarrow> Utf8String option \<Rightarrow> WillOptions option \<Rightarrow> bool \<Rightarrow> nat" where
  "connect_size sdk_version client_id will metrics =
     10 + optional_size client_id + 2 + (if metrics then optional_size (metrics_string sdk_version metrics) + 2 else 0)
     + will_size will"

text \<open>What the theorem asks of the caller's data: strings that can be written, of a plausible total size.\<close>

definition connect_data_ok :: "bytes \<Rightarrow> Utf8String option \<Rightarrow> WillOptions option \<Rightarrow> bool \<Rightarrow> bool" where
  "connect_data_ok sdk_version client_id will metrics \<longleftrightarrow>
     (\<forall>c. client_id = Some c \<longrightarrow> sendable c) \<and>
     (\<forall>w. will = Some w \<longrightarrow> (\<exists>t. will_topic_name w = Some t \<and> sendable t)) \<and>
     (metrics \<longrightarrow> (\<exists>u. metrics_string sdk_version metrics = Some u \<and> sendable u)) \<and>
     connect_size sdk_version client_id will metrics \<le> MAX_MQTT_PACKET_REM_LEN_BYTES"

definition will_gap :: "WillOptions option \<Rightarrow> nat" where
  "will_gap will = (case will of None \<Rightarrow> 0 | Some w \<Rightarrow> if will_message w = [] then 2 else 0)"

lemma Create_MQTT: "Create_Utf8String (str ''MQTT'') = Some \<lparr>utf8_data = str ''MQTT'', utf8_length = 4\<rparr>"
proof -
  have "is_valid (str ''MQTT'')" by (rule is_valid_ascii) (simp add: str_def)
  then show ?thesis by (simp add: Create_Utf8String_def IsValidInput_def)
qed

lemma ConnectPacket_new_fields:
  assumes "connect_data_ok sdk_version client_id will metrics"
  shows "\<exists>p. ConnectPacket_new sdk_version clean ver ka client_id will metrics = Inr p \<and>
    header_of p = header_of (packet_base MT_CONNECT False QOS0 False (connect_size sdk_version client_id will metrics)) \<and>
    con_protocol_id p = Some \<lparr>utf8_data = str ''MQTT'', utf8_length = 4\<rparr> \<and>
    con_client_id p = client_id \<and> con_will_msg p = will \<and> con_username p = metrics_string sdk_version metrics"
proof -
  have size: "connect_size sdk_version client_id will metrics < 2 ^ 64"
    using assms by (simp add: connect_data_ok_def MAX_MQTT_PACKET_REM_LEN_BYTES_def)
  note defs = ConnectPacket_new_def Let_def Length_will_def Create_MQTT Packet.defs ConnectPacket.defs
    connect_size_def optional_size_def will_size_def metrics_string_def
  show ?thesis
    using assms size
    by (cases client_id; cases will; cases metrics)
      (auto simp: connect_data_ok_def defs size_add_def)
qed

lemma length_WriteToBuffer_will:
  "will_topic_name w = Some t \<Longrightarrow> sendable t \<Longrightarrow> \<exists>buf'. WriteToBuffer_will w buf = Inr buf' \<and>
     length buf' + will_gap (Some w) = length buf + will_size (Some w)"
  by (auto simp: WriteToBuffer_will_def Let_def sendable_def Utf8String_ok_def will_gap_def will_size_def)

lemma connect_length:
  assumes "connect_data_ok sdk_version client_id will metrics"
    and "ConnectPacket_new sdk_version clean ver ka client_id will metrics = Inr p"
  shows "\<exists>bs. ConnectPacket_ToString p = Inr bs \<and>
    length bs + will_gap will = Length_header (header_of p) + fh_remaining_length (header_of p)"
proof -
  let ?n = "connect_size sdk_version client_id will metrics"
  let ?b = "packet_base MT_CONNECT False QOS0 False ?n"
  have bound: "?n \<le> MAX_MQTT_PACKET_REM_LEN_BYTES" using assms(1) by (simp add: connect_data_ok_def)
  have f: "header_of p = header_of ?b" "con_protocol_id p = Some \<lparr>utf8_data = str ''MQTT'', utf8_length = 4\<rparr>"
    "con_client_id p = client_id" "con_will_msg p = will" "con_username p = metrics_string sdk_version metrics"
    using ConnectPacket_new_fields [OF assms(1), of clean ver ka] assms(2) by auto
  have mqtt: "Utf8String_ok \<lparr>utf8_data = str ''MQTT'', utf8_length = 4\<rparr>"
    using Create_Utf8String_ok [OF Create_MQTT] by simp
  let ?h = "AppendToBuffer_header (header_of ?b) []"
  have h: "length ?h = Length_header (header_of ?b)" "fh_remaining_length (header_of ?b) = ?n"
    using bound packet_base_header [OF bound, of MT_CONNECT] by (simp_all add: length_header_bytes)
  define buf where "buf = (let b = AppendUtf8StringToBuffer ?h \<lparr>utf8_data = str ''MQTT'', utf8_length = 4\<rparr>;
      b = (b @ [Version_value (con_mqtt_version p)]) @ [con_connect_flags p];
      b = (if 65535 < con_keep_alive_timeout p then AppendUInt16ToBuffer b 65535
           else AppendUInt16ToBuffer b (of_int (con_keep_alive_timeout p)))
      in case client_id of None \<Rightarrow> AppendUInt16ToBuffer b 0 | Some c \<Rightarrow> AppendUtf8StringToBuffer b c)"
  have len: "length buf = length ?h + 12 + optional_size client_id"
    using assms(1) mqtt
    by (auto simp: buf_def Let_def length_AppendUtf8StringToBuffer length_AppendUInt16ToBuffer optional_size_def
        connect_data_ok_def sendable_def split: option.split)
  have ser: "ConnectPacket_ToString p = bind_res (case will of None \<Rightarrow> Inr buf | Some w \<Rightarrow> WriteToBuffer_will w buf)
      (\<lambda>buf. Inr (case metrics_string sdk_version metrics of None \<Rightarrow> buf | Some u \<Rightarrow> AppendUtf8StringToBuffer buf u))"
    by (simp only: ConnectPacket_ToString_def f buf_def Let_def deref_simps bind_res_simps)
  have "\<exists>buf1. (case will of None \<Rightarrow> Inr buf | Some w \<Rightarrow> WriteToBuffer_will w buf) = Inr buf1 \<and>
      length buf1 + will_gap will = length buf + will_size will"
  proof (cases will)
    case None
    then show ?thesis by (simp add: will_gap_def will_size_def)
  next
    case (Some w)
    then obtain t where "will_topic_name w = Some t" "sendable t"
      using assms(1) by (auto simp: connect_data_ok_def)
    then show ?thesis unfolding Some by (simp only: option.case) (rule length_WriteToBuffer_will)
  qed
  then obtain buf1 where w: "(case will of None \<Rightarrow> Inr buf | Some w \<Rightarrow> WriteToBuffer_will w buf) = Inr buf1"
    "length buf1 + will_gap will = length buf + will_size will"
    by blast
  have usr: "length (case metrics_string sdk_version metrics of None \<Rightarrow> buf1 | Some u \<Rightarrow> AppendUtf8StringToBuffer buf1 u)
      = length buf1 + (if metrics then optional_size (metrics_string sdk_version metrics) + 2 else 0)"
    using assms(1)
    by (cases metrics) (auto simp: connect_data_ok_def sendable_def length_AppendUtf8StringToBuffer optional_size_def
        metrics_string_def)
  have n: "?n = 12 + optional_size client_id
      + (if metrics then optional_size (metrics_string sdk_version metrics) + 2 else 0) + will_size will"
    by (simp add: connect_size_def)
  show ?thesis
    unfolding ser w(1) f(1) h(2) bind_res_simps
    using usr w(2) len h(1) n by - (rule exI, rule conjI, rule refl, linarith)
qed

text \<open>a CONNECT packet without a will, or with a will that has a message, announces exactly the number
  of bytes that follow its fixed header.\<close>

theorem connect_announced_size:
  assumes "connect_data_ok sdk_version client_id will metrics" "\<forall>w. will = Some w \<longrightarrow> will_message w \<noteq> []"
    and "ConnectPacket_new sdk_version clean ver ka client_id will metrics = Inr p"
  shows "\<exists>bs. ConnectPacket_ToString p = Inr bs \<and>
    length bs = Length_header (header_of p) + fh_remaining_length (header_of p)"
  using connect_length [OF assms(1,3)] assms(2) by (cases will) (auto simp: will_gap_def)

text \<open>with a will whose message is empty the CONNECT packet is two bytes shorter than it announces, since
  the length of an empty message is not written.\<close>

theorem connect_empty_will_short:
  assumes "connect_data_ok sdk_version client_id (Some w) metrics" "will_message w = []"
    and "ConnectPacket_new sdk_version clean ver ka client_id (Some w) metrics = Inr p"
  shows "\<exists>bs. ConnectPacket_ToString p = Inr bs \<and>
    length bs + 2 = Length_header (header_of p) + fh_remaining_length (header_of p)"
  using connect_length [OF assms(1,3)] assms(2) by (simp add: will_gap_def)

section \<open>Witnesses\<close>

lemma sendable_utf8_of: "s \<noteq> [] \<Longrightarrow> length s < 65536 \<Longrightarrow> \<forall>b \<in> set s. b < 0x80 \<Longrightarrow> sendable (utf8_of s)"
  by (simp add: sendable_def utf8_of_def Utf8String_ok_def is_valid_ascii)

theorem publish_roundtrip_witness:
  "\<exists>hdr body p. PublishPacket_ToString (PublishPacket_new (utf8_of [97]) False False QOS1 [1, 2]) 9 = Inr (hdr @ body) \<and>
    length hdr = Length_header (header_of (PublishPacket_new (utf8_of [97]) False False QOS1 [1, 2])) \<and>
    fh_remaining_length (header_of (PublishPacket_new (utf8_of [97]) False False QOS1 [1, 2])) = length body \<and>
    PublishPacket_of_buffer body False False QOS1 = Inr (p, if QOS1 = QOS0 then None else Some 9) \<and>
    pub_topic_name p = Some (utf8_of [97]) \<and> pub_payload p = [1, 2]"
  by (rule publish_roundtrip)
    (simp add: sendable_utf8_of, simp add: publish_size_def utf8_of_def MAX_MQTT_PACKET_REM_LEN_BYTES_def)

theorem publish_qos0_keeps_dup_bit_witness:
  "\<not> pub_is_duplicate (PublishPacket_new (utf8_of [97]) False True QOS0 []) \<and>
    fh_byte (header_of (PublishPacket_new (utf8_of [97]) False True QOS0 [])) AND 0x08 = 0x08"
  by (rule publish_qos0_keeps_dup_bit) (simp add: publish_size_def utf8_of_def MAX_MQTT_PACKET_REM_LEN_BYTES_def)

theorem subscribe_announced_size_witness:
  "\<exists>p bs st'. SubscribePacket_new sample_client [0] = Inr p \<and> SubscribePacket_ToString p 9 sample_client = Inr (bs, st') \<and>
    length bs = Length_header (header_of p) + fh_remaining_length (header_of p) \<and>
    (\<forall>k < length [0 :: nat]. IsInSuback (cs_subscriptions st' ! ([0] ! k)) 9 (1 + of_nat k))"
  by (rule subscribe_announced_size)
    (simp_all add: topics_sendable_def topics_size_def topic_length_def sample_client_simps sendable_def Utf8String_ok_def
      is_valid_ascii MAX_MQTT_PACKET_REM_LEN_BYTES_def)

definition sample_will :: "bytes \<Rightarrow> WillOptions" where
  "sample_will msg = WillOptions_new False QOS1 (Some (utf8_of [97])) msg"

lemma sample_connect_ok: "length msg < 9 \<Longrightarrow> connect_data_ok [] (Some (utf8_of [98])) (Some (sample_will msg)) False"
  unfolding connect_data_ok_def
  by (simp add: sendable_utf8_of sample_will_def WillOptions_new_def)
    (simp add: connect_size_def optional_size_def will_size_def MAX_MQTT_PACKET_REM_LEN_BYTES_def utf8_of_def)

definition sample_connect :: "bytes \<Rightarrow> ConnectPacket" where
  "sample_connect msg =
     (case ConnectPacket_new [] True MQTT_3_1_1 30 (Some (utf8_of [98])) (Some (sample_will msg)) False of
        Inr p \<Rightarrow> p
      | Inl e \<Rightarrow> Packet.extend DisconnectPacket_new (ConnectPacket.fields True 0 0 MQTT_3_1_1 None None None None))"

lemma sample_connect:
  "length msg < 9 \<Longrightarrow>
   ConnectPacket_new [] True MQTT_3_1_1 30 (Some (utf8_of [98])) (Some (sample_will msg)) False = Inr (sample_connect msg)"
  using ConnectPacket_new_fields [OF sample_connect_ok, of msg True MQTT_3_1_1 30]
  by (auto simp: sample_connect_def)

theorem connect_announced_size_witness:
  "\<exists>bs. ConnectPacket_ToString (sample_connect [1]) = Inr bs \<and>
    length bs = Length_header (header_of (sample_connect [1])) + fh_remaining_length (header_of (sample_connect [1]))"
  by (rule connect_announced_size [OF sample_connect_ok _ sample_connect])
    (simp_all add: sample_will_def WillOptions_new_def)

theorem connect_empty_will_short_witness:
  "\<exists>bs. ConnectPacket_ToString (sample_connect []) = Inr bs \<and>
    length bs + 2 = Length_header (header_of (sample_connect [])) + fh_remaining_length (header_of (sample_connect []))"
  by (rule connect_empty_will_short [OF sample_connect_ok _ sample_connect])
    (simp_all add: sample_will_def WillOptions_new_def)

end
