(* ===== verification/Actions.thy ===== *)
theory Actions
  imports Packets
begin

text \<open>
  The actions a request runs through: \<open>PerformAction\<close> of publish, puback, subscribe, unsubscribe,
  connect and disconnect (\<^verbatim>\<open>src/mqtt/Publish.cpp\<close>, \<^verbatim>\<open>src/mqtt/Subscribe.cpp\<close>,
  \<^verbatim>\<open>src/mqtt/Connect.cpp\<close>).

  The action data is a packet with its identifier and its callback. \<open>dynamic_pointer_cast\<close> is a case
  distinction on the payload; a null pointer or another packet gives \<open>NULL_VALUE_ERROR\<close>. An action that
  is performed directly has its thread flag \<open>false\<close>, so its writes are one attempt; one unit of fuel
  is enough for any write.
\<close>

datatype action_payload =
    PublishData PublishPacket
  | PubackData PubackPacket
  | SubscribeData SubscribePacket
  | UnsubscribeData UnsubscribePacket
  | ConnectData ConnectPacket
  | DisconnectData Packet

text \<open>The action objects. The two runners are started as threads and have theories of their own.\<close>

datatype mqtt_action =
    ConnectActionAsync
  | DisconnectActionAsync
  | PublishActionAsync
  | PubackActionAsync
  | SubscribeActionAsync
  | UnsubscribeActionAsync
  | NetworkReadActionRunner
  | KeepaliveActionRunner

type_synonym 'n client = "('n, mqtt_action, action_payload) ClientState"
type_synonym action_data = "action_payload ActionData"

definition CONNACK_RESERVED_PACKET_ID :: u16 where
  "CONNACK_RESERVED_PACKET_ID = 0"

definition one_execution :: "'n \<Rightarrow> bool" where
  "one_execution n = False"

text \<open>Writing through the connection of the state; the device is a component of the state.\<close>

definition client_write :: "('n \<Rightarrow> bool) \<Rightarrow> 'n NetworkConnection option \<Rightarrow> bytes \<Rightarrow> 'n client \<Rightarrow> (ResponseCode \<times> 'n client) res" where
  "client_write go p_nc buf st =
     bind_res (WriteToNetworkBuffer 1 go p_nc buf (ccs_net st)) (\<lambda>(rc, n). Inr (rc, st\<lparr>ccs_net := n\<rparr>))"

text \<open>Registering the acknowledgement of a request; the flag is \<open>is_ack_registered\<close>.\<close>

definition register_ack :: "u16 \<Rightarrow> ack_handler option \<Rightarrow> 'n client \<Rightarrow> bool \<times> 'n client" where
  "register_ack packet_id handler st =
     (if handler \<noteq> None then
        (case RegisterPendingAck packet_id handler st of (rc, st) \<Rightarrow> (rc = SUCCESS, st))
      else (False, st))"

section \<open>Publish and puback\<close>

definition PublishAction_PerformAction ::
  "'n NetworkConnection option \<Rightarrow> action_data option \<Rightarrow> 'n client \<Rightarrow> (ResponseCode \<times> action_data option \<times> 'n client) res" where
  "PublishAction_PerformAction p_nc p_action_data st =
     (case p_action_data of
        None \<Rightarrow> Inr (NULL_VALUE_ERROR, p_action_data, st)
      | Some d \<Rightarrow>
          (case ad_payload d of
             PublishData p \<Rightarrow>
               let packet_id = ad_action_id d;
                   (is_ack_registered, st) =
                     (if pub_qos p \<noteq> QOS0 then register_ack packet_id (ad_async_ack_handler d) st else (False, st))
               in bind_res (PublishPacket_ToString p packet_id) (\<lambda>packet_data.
                  bind_res (client_write one_execution p_nc packet_data st) (\<lambda>(rc, st).
                    let st = (if rc \<noteq> SUCCESS \<and> is_ack_registered then DeletePendingAck packet_id st else st)
                    in Inr (rc, p_action_data, st)))
           | _ \<Rightarrow> Inr (NULL_VALUE_ERROR, p_action_data, st)))"

definition PubackAction_PerformAction ::
  "'n NetworkConnection option \<Rightarrow> action_data option \<Rightarrow> 'n client \<Rightarrow> (ResponseCode \<times> action_data option \<times> 'n client) res" where
  "PubackAction_PerformAction p_nc p_action_data st =
     (case p_action_data of
        None \<Rightarrow> Inr (NULL_VALUE_ERROR, p_action_data, st)
      | Some d \<Rightarrow>
          (case ad_payload d of
             PubackData p \<Rightarrow>
               bind_res (client_write one_execution p_nc (PubackPacket_ToString p) st) (\<lambda>(rc, st).
                 Inr (rc, p_action_data, st))
           | _ \<Rightarrow> Inr (NULL_VALUE_ERROR, p_action_data, st)))"

section \<open>Subscribe and unsubscribe\<close>

text \<open>
  The loop before the request is sent: a topic that is already active is dropped from the packet (and
  with it the pending acknowledgement), every other one is entered in the map. Returned is the list
  that is left in the packet.
\<close>

fun subscribe_register :: "u16 \<Rightarrow> bool \<Rightarrow> nat list \<Rightarrow> 'n client \<Rightarrow> (nat list \<times> 'n client) res" where
  "subscribe_register packet_id is_ack_registered [] st = Inr ([], st)"
| "subscribe_register packet_id is_ack_registered (r # rs) st =
     bind_res (sub_at st r) (\<lambda>s.
       let topic_name = ToStdString (sub_topic_name s) in
       case map_find (cs_subscription_map st) topic_name of
         Some existing \<Rightarrow>
           bind_res (sub_at st existing) (\<lambda>e.
             if sub_is_active e then
               subscribe_register packet_id is_ack_registered rs
                 (if is_ack_registered then DeletePendingAck packet_id st else st)
             else
               bind_res (subscribe_register packet_id is_ack_registered rs
                 (st\<lparr>cs_subscription_map := map_insert topic_name r (map_erase topic_name (cs_subscription_map st))\<rparr>))
                 (\<lambda>(rs, st). Inr (r # rs, st)))
       | None \<Rightarrow>
           bind_res (subscribe_register packet_id is_ack_registered rs
             (st\<lparr>cs_subscription_map := map_insert topic_name r (cs_subscription_map st)\<rparr>))
             (\<lambda>(rs, st). Inr (r # rs, st)))"

fun erase_topics :: "nat list \<Rightarrow> 'n client \<Rightarrow> ('n client) res" where
  "erase_topics [] st = Inr st"
| "erase_topics (r # rs) st =
     bind_res (sub_at st r) (\<lambda>s.
       erase_topics rs (st\<lparr>cs_subscription_map := map_erase (ToStdString (sub_topic_name s)) (cs_subscription_map st)\<rparr>))"

definition SubscribeAction_PerformAction ::
  "'n NetworkConnection option \<Rightarrow> action_data option \<Rightarrow> 'n client \<Rightarrow> (ResponseCode \<times> action_data option \<times> 'n client) res" where
  "SubscribeAction_PerformAction p_nc p_action_data st =
     (if p_nc = None then Inr (NULL_VALUE_ERROR, p_action_data, st)
      else
        case p_action_data of
          None \<Rightarrow> Inr (NULL_VALUE_ERROR, p_action_data, st)
        | Some d \<Rightarrow>
            (case ad_payload d of
               SubscribeData p \<Rightarrow>
                 let packet_id = ad_action_id d;
                     (is_ack_registered, st) = register_ack packet_id (ad_async_ack_handler d) st
                 in bind_res (subscribe_register packet_id is_ack_registered (subp_subscription_list p) st)
                      (\<lambda>(rs, st).
                        let p = p\<lparr>subp_subscription_list := rs\<rparr>; d = d\<lparr>ad_payload := SubscribeData p\<rparr> in
                        bind_res (SubscribePacket_ToString p packet_id st) (\<lambda>(packet_data, st).
                        bind_res (if 0 < length rs then client_write one_execution p_nc packet_data st
                                  else Inr (SUCCESS, st)) (\<lambda>(rc, st).
                          if rc \<noteq> SUCCESS then
                            bind_res (erase_topics rs st) (\<lambda>st.
                              Inr (rc, Some d, if is_ack_registered then DeletePendingAck packet_id st else st))
                          else Inr (SUCCESS, Some d, st))))
             | _ \<Rightarrow> Inr (NULL_VALUE_ERROR, p_action_data, st)))"

fun unsubscribe_mark :: "u16 \<Rightarrow> Utf8String option list \<Rightarrow> 'n client \<Rightarrow> ('n client) res" where
  "unsubscribe_mark packet_id [] st = Inr st"
| "unsubscribe_mark packet_id (t # ts) st =
     bind_res (deref t) (\<lambda>t.
     bind_res (SetSubscriptionPacketInfo (ToStdString t) packet_id 0 st) (\<lambda>(p_sub, st).
       unsubscribe_mark packet_id ts st))"

definition UnsubscribeAction_PerformAction ::
  "'n NetworkConnection option \<Rightarrow> action_data option \<Rightarrow> 'n client \<Rightarrow> (ResponseCode \<times> action_data option \<times> 'n client) res" where
  "UnsubscribeAction_PerformAction p_nc p_action_data st =
     (case p_action_data of
        None \<Rightarrow> Inr (NULL_VALUE_ERROR, p_action_data, st)
      | Some d \<Rightarrow>
          (case ad_payload d of
             UnsubscribeData p \<Rightarrow>
               let packet_id = ad_action_id d;
                   (is_ack_registered, st) = register_ack packet_id (ad_async_ack_handler d) st
               in bind_res (unsubscribe_mark packet_id (unsub_topic_list p) st) (\<lambda>st.
                  bind_res (UnsubscribePacket_ToString p packet_id) (\<lambda>packet_data.
                  bind_res (client_write one_execution p_nc packet_data st) (\<lambda>(rc, st).
                    let st = (if rc \<noteq> SUCCESS \<and> is_ack_registered then DeletePendingAck packet_id st else st)
                    in Inr (rc, p_action_data, st))))
           | _ \<Rightarrow> Inr (NULL_VALUE_ERROR, p_action_data, st)))"

section \<open>Connect and disconnect\<close>

text \<open>
  \<open>connect_sent\<close> is what follows the write; \<open>connect_with\<close> is \<open>PerformAction\<close> from the point where the
  packet is known. The packet is shared with the
  data kept for reconnecting, so the identifier that is set here is set there, too. When \<open>Connect\<close>
  fails, a registered acknowledgement stays pending.
\<close>

definition connect_sent :: "'n NetworkConnection \<Rightarrow> bool \<Rightarrow> ResponseCode \<Rightarrow> 'n client \<Rightarrow> 'n client" where
  "connect_sent nc is_ack_registered rc st =
     (if rc \<noteq> SUCCESS then
        let st = (if is_ack_registered then DeletePendingAck CONNACK_RESERVED_PACKET_ID st else st)
        in case Disconnect_nc nc (ccs_net st) of (rc', n) \<Rightarrow> st\<lparr>ccs_net := n\<rparr>
      else st\<lparr>cs_trigger_disconnect_callback := Some True\<rparr>)"

definition connect_with ::
  "'n NetworkConnection option \<Rightarrow> action_data \<Rightarrow> ConnectPacket \<Rightarrow> 'n client \<Rightarrow> (ResponseCode \<times> action_data \<times> 'n client) res" where
  "connect_with p_nc d p st =
     (let d = d\<lparr>ad_action_id := CONNACK_RESERVED_PACKET_ID\<rparr>;
          st = st\<lparr>cs_connect_data := Some d\<rparr>;
          (is_ack_registered, st) = register_ack CONNACK_RESERVED_PACKET_ID (ad_async_ack_handler d) st;
          st = st\<lparr>cs_keep_alive_timeout := Some (con_keep_alive_timeout p)\<rparr>
      in bind_res (deref p_nc) (\<lambda>nc.
         case Connect_nc nc (ccs_net st) of
           (rc, n) \<Rightarrow>
             let st = st\<lparr>ccs_net := n\<rparr> in
             if rc \<noteq> SUCCESS then Inr (rc, d, st)
             else
               bind_res (ConnectPacket_ToString p) (\<lambda>packet_data.
               bind_res (client_write one_execution p_nc packet_data st) (\<lambda>(rc, st).
                 Inr (rc, d, connect_sent nc is_ack_registered rc st)))))"

definition as_connect_packet :: "action_data option \<Rightarrow> (action_data \<times> ConnectPacket) option" where
  "as_connect_packet p_action_data =
     (case p_action_data of
        None \<Rightarrow> None
      | Some d \<Rightarrow> (case ad_payload d of ConnectData p \<Rightarrow> Some (d, p) | _ \<Rightarrow> None))"

definition ConnectAction_PerformAction ::
  "'n NetworkConnection option \<Rightarrow> action_data option \<Rightarrow> 'n client \<Rightarrow> (ResponseCode \<times> action_data option \<times> 'n client) res" where
  "ConnectAction_PerformAction p_nc p_action_data st =
     (case as_connect_packet p_action_data of
        Some (d, p) \<Rightarrow>
          bind_res (connect_with p_nc d p st) (\<lambda>(rc, d, st). Inr (rc, Some d, st))
      | None \<Rightarrow>
          (case as_connect_packet (cs_connect_data st) of
             None \<Rightarrow> Inr (NULL_VALUE_ERROR, p_action_data, st)
           | Some (d, p) \<Rightarrow>
               bind_res (connect_with p_nc d p st) (\<lambda>(rc, d, st). Inr (rc, p_action_data, st))))"

fun deactivate_all :: "(bytes \<times> nat) list \<Rightarrow> 'n client \<Rightarrow> ('n client) res" where
  "deactivate_all [] st = Inr st"
| "deactivate_all ((name, r) # m) st = bind_res (sub_update r (SetActive False) st) (deactivate_all m)"

definition DisconnectAction_PerformAction ::
  "'n NetworkConnection option \<Rightarrow> action_data option \<Rightarrow> 'n client \<Rightarrow> (ResponseCode \<times> action_data option \<times> 'n client) res" where
  "DisconnectAction_PerformAction p_nc p_action_data st =
     (if \<not> cs_is_connected st then Inr (NETWORK_DISCONNECTED_ERROR, p_action_data, st)
      else
        let st = SetConnected False st in
        bind_res (deref p_nc) (\<lambda>nc.
        bind_res (if nc_IsConnected nc (ccs_net st) then
                    (case p_action_data of
                       None \<Rightarrow> Inr st
                     | Some d \<Rightarrow>
                         (case ad_payload d of
                            DisconnectData p \<Rightarrow>
                              bind_res (client_write one_execution p_nc (DisconnectPacket_ToString p) st) (\<lambda>(rc, st). Inr st)
                          | _ \<Rightarrow> Inr st))
                  else Inr st) (\<lambda>st.
        bind_res (deactivate_all (cs_subscription_map st) st) (\<lambda>st.
          case Disconnect_nc nc (ccs_net st) of
            (rc, n) \<Rightarrow> Inr (SUCCESS, p_action_data, st\<lparr>ccs_net := n\<rparr>)))))"

section \<open>Dispatch\<close>

text \<open>
  The virtual call on the objects of the action map. The runners are not performed this way by the
  client, they are started as threads.
\<close>

definition perform_action ::
  "(action_data option \<Rightarrow> 'n client \<Rightarrow> (ResponseCode \<times> action_data option \<times> 'n client) res)
   \<Rightarrow> mqtt_action \<Rightarrow> action_data \<Rightarrow> 'n client \<Rightarrow> (ResponseCode \<times> action_data \<times> 'n client) res" where
  "perform_action runner a d st =
     (let nc = ccs_network_connection st;
          r = (case a of
                 ConnectActionAsync \<Rightarrow> ConnectAction_PerformAction nc (Some d) st
               | DisconnectActionAsync \<Rightarrow> DisconnectAction_PerformAction nc (Some d) st
               | PublishActionAsync \<Rightarrow> PublishAction_PerformAction nc (Some d) st
               | PubackActionAsync \<Rightarrow> PubackAction_PerformAction nc (Some d) st
               | SubscribeActionAsync \<Rightarrow> SubscribeAction_PerformAction nc (Some d) st
               | UnsubscribeActionAsync \<Rightarrow> UnsubscribeAction_PerformAction nc (Some d) st
               | _ \<Rightarrow> runner (Some d) st)
      in bind_res r (\<lambda>(rc, d', st). Inr (rc, case d' of Some d \<Rightarrow> d | None \<Rightarrow> d, st)))"

section \<open>The invariant\<close>

definition client_ok :: "'n client \<Rightarrow> bool" where
  "client_ok st \<longleftrightarrow> core_ok st \<and> subs_ok st"

lemma client_ok_simps [simp]:
  "client_ok (st\<lparr>ccs_net := n\<rparr>) = client_ok st"
  "client_ok (st\<lparr>ccs_now := t\<rparr>) = client_ok st"
  "client_ok (st\<lparr>ccs_outbound_action_queue := q\<rparr>) = client_ok st"
  "client_ok (st\<lparr>ccs_sync_action_response := r\<rparr>) = client_ok st"
  "client_ok (st\<lparr>ccs_process_queued_actions := v\<rparr>) = client_ok st"
  "client_ok (st\<lparr>cs_is_connected := b\<rparr>) = client_ok st"
  "client_ok (st\<lparr>cs_is_auto_reconnect_required := b\<rparr>) = client_ok st"
  "client_ok (st\<lparr>cs_is_session_present := b\<rparr>) = client_ok st"
  "client_ok (st\<lparr>cs_is_pingreq_pending := b\<rparr>) = client_ok st"
  "client_ok (st\<lparr>cs_connect_data := c\<rparr>) = client_ok st"
  "client_ok (st\<lparr>cs_keep_alive_timeout := k\<rparr>) = client_ok st"
  "client_ok (st\<lparr>cs_trigger_disconnect_callback := v\<rparr>) = client_ok st"
  "client_ok (st\<lparr>cs_last_sent_packet_id := i\<rparr>) = client_ok st"
  "client_ok (log_event e st) = client_ok st"
  by (simp_all add: client_ok_def core_ok_def subs_ok_def log_event_def)

lemma subs_ok_core_ops [simp]:
  "subs_ok (DeletePendingAck i st) = subs_ok st"
  "subs_ok (snd (RegisterPendingAck i h st)) = subs_ok st"
  "subs_ok (run_ack_handler a i rc st) = subs_ok st"
  "subs_ok (ForwardReceivedAck i rc st) = subs_ok st"
  by (auto simp: DeletePendingAck_def RegisterPendingAck_def run_ack_handler_def SyncActionHandler_def log_event_def
      ForwardReceivedAck_def Let_def subs_ok_def split: option.splits ack_handler.splits)

lemma client_ok_DeletePendingAck: "client_ok st \<Longrightarrow> client_ok (DeletePendingAck i st)"
  by (simp add: client_ok_def core_ok_DeletePendingAck)

lemma client_ok_ForwardReceivedAck: "client_ok st \<Longrightarrow> client_ok (ForwardReceivedAck i rc st)"
  by (simp add: client_ok_def core_ok_ForwardReceivedAck)

lemma client_ok_run_ack_handler [simp]: "client_ok (run_ack_handler h i rc st) = client_ok st"
  by (simp add: client_ok_def)

lemma client_ok_RegisterPendingAck: "client_ok st \<Longrightarrow> client_ok (snd (RegisterPendingAck i h st))"
  by (simp add: client_ok_def core_ok_RegisterPendingAck)

lemma client_write_state: "client_write go nc buf st = Inr (rc, st') \<Longrightarrow> \<exists>n. st' = st\<lparr>ccs_net := n\<rparr>"
  by (auto simp: client_write_def bind_res_Inr_iff)

lemma client_ok_sub_update:
  assumes "client_ok st" "sub_update r f st = Inr st'"
    and "\<And>s. sub_ok s \<Longrightarrow> sub_ok (f s)" "\<And>s. sub_topic_name (f s) = sub_topic_name s"
  shows "client_ok st'"
proof -
  obtain subs where "st' = st\<lparr>cs_subscriptions := subs\<rparr>"
    using assms(2) by (auto simp: sub_update_def bind_res_Inr_iff)
  then have "core_ok st'"
    using assms(1) by (simp add: client_ok_def core_ok_def)
  moreover have "subs_ok st'"
    using assms(1) unfolding client_ok_def by (intro subs_ok_update [OF _ assms(2-4)]) simp
  ultimately show ?thesis by (simp add: client_ok_def)
qed

lemma client_ok_SetAckIndex: "sub_update r (SetAckIndex i j) st = Inr st' \<Longrightarrow> client_ok st \<Longrightarrow> client_ok st'"
  by (erule client_ok_sub_update [rotated]) simp_all

lemma client_ok_SetActive: "sub_update r (SetActive b) st = Inr st' \<Longrightarrow> client_ok st \<Longrightarrow> client_ok st'"
  by (erule client_ok_sub_update [rotated]) simp_all

lemma client_ok_map_erase:
  "client_ok st \<Longrightarrow> client_ok (st\<lparr>cs_subscription_map := map_erase k (cs_subscription_map st)\<rparr>)"
  using subs_ok_erase by (auto simp: client_ok_def core_ok_def)

lemma client_ok_map_insert:
  assumes "client_ok st" "sub_at st r = Inr s" "utf8_data (sub_topic_name s) = k"
    and "m = cs_subscription_map st \<or> m = map_erase j (cs_subscription_map st)"
  shows "client_ok (st\<lparr>cs_subscription_map := map_insert k r m\<rparr>)"
proof -
  have r: "r < length (cs_subscriptions st)" "s = cs_subscriptions st ! r"
    using assms(2) by (auto simp: sub_at_def split: if_splits)
  have m: "map_wf m" "set m \<subseteq> set (cs_subscription_map st)"
    using assms(1,4) by (auto simp: client_ok_def subs_ok_def map_wf_erase set_map_erase)
  have "\<forall>(name, q) \<in> set (map_insert k r m).
      q < length (cs_subscriptions st) \<and> utf8_data (sub_topic_name (cs_subscriptions st ! q)) = name"
    using set_map_insert_subset [of k r m] m(2) assms(1,3) r by (fastforce simp: client_ok_def subs_ok_def)
  then show ?thesis
    using assms(1) m(1) by (simp add: client_ok_def core_ok_def subs_ok_def map_wf_insert)
qed

lemma client_ok_SetConnected [simp]: "client_ok (SetConnected v st) = client_ok st"
  by (simp add: SetConnected_def SetProcessQueuedActions_def Let_def)

section \<open>What every action keeps\<close>

text \<open>
  The actions change the state through a few operations. A property that these keep is kept by every
  action; the locale says what is asked of the operations and derives it for the actions. It is used
  for the invariant and for the members no action touches.
\<close>

locale state_property =
  fixes I :: "'n client \<Rightarrow> bool"
  assumes keeps_net [simp]: "I (st\<lparr>ccs_net := n\<rparr>) = I st"
    and keeps_connect_data [simp]: "I (st\<lparr>cs_connect_data := c\<rparr>) = I st"
    and keeps_keep_alive [simp]: "I (st\<lparr>cs_keep_alive_timeout := ka\<rparr>) = I st"
    and keeps_trigger [simp]: "I (st\<lparr>cs_trigger_disconnect_callback := v\<rparr>) = I st"
    and keeps_SetConnected [simp]: "I (SetConnected False st) = I st"
    and keeps_RegisterPendingAck: "I st \<Longrightarrow> I (snd (RegisterPendingAck i h st))"
    and keeps_DeletePendingAck: "I st \<Longrightarrow> I (DeletePendingAck i st)"
    and keeps_SetAckIndex: "sub_update r (SetAckIndex i j) st = Inr st' \<Longrightarrow> I st \<Longrightarrow> I st'"
    and keeps_SetActive: "sub_update r (SetActive b) st = Inr st' \<Longrightarrow> I st \<Longrightarrow> I st'"
    and keeps_map_erase: "I st \<Longrightarrow> I (st\<lparr>cs_subscription_map := map_erase k (cs_subscription_map st)\<rparr>)"
    and keeps_map_insert: "I st \<Longrightarrow> sub_at st r = Inr s \<Longrightarrow> utf8_data (sub_topic_name s) = k \<Longrightarrow>
      m = cs_subscription_map st \<or> m = map_erase t (cs_subscription_map st) \<Longrightarrow>
      I (st\<lparr>cs_subscription_map := map_insert k r m\<rparr>)"
begin

lemma keeps_register_ackE: "register_ack i h st = (b, st') \<Longrightarrow> I st \<Longrightarrow> I st'"
  using keeps_RegisterPendingAck [of st i h] by (auto simp: register_ack_def split: if_splits prod.splits)

lemma keeps_client_write: "client_write go nc buf st = Inr (rc, st') \<Longrightarrow> I st' = I st"
  using client_write_state by fastforce

lemma keeps_subscribe_register:
  "subscribe_register i b rs st = Inr (rs', st') \<Longrightarrow> I st \<Longrightarrow> I st'"
proof (induction rs arbitrary: st rs')
  case (Cons r rs)
  obtain s where s: "sub_at st r = Inr s" using Cons.prems(1) by (auto simp: bind_res_Inr_iff)
  let ?t = "utf8_data (sub_topic_name s)"
  show ?case
  proof (cases "map_find (cs_subscription_map st) ?t")
    case None
    then show ?thesis
      using Cons s keeps_map_insert [OF Cons.prems(2) s refl] by (auto simp: bind_res_Inr_iff Let_def)
  next
    case (Some e)
    then obtain x where x: "sub_at st e = Inr x" using Cons.prems(1) s by (auto simp: bind_res_Inr_iff Let_def)
    have "I (st\<lparr>cs_subscription_map := map_insert ?t r (map_erase ?t (cs_subscription_map st))\<rparr>)"
      using keeps_map_insert [OF Cons.prems(2) s refl] by blast
    then show ?thesis
      using Cons.prems(1) Cons.IH s Some x Cons.prems(2) keeps_DeletePendingAck [OF Cons.prems(2)]
      by (auto simp: bind_res_Inr_iff Let_def split: if_splits)
  qed
qed simp

lemma keeps_erase_topics: "erase_topics rs st = Inr st' \<Longrightarrow> I st \<Longrightarrow> I st'"
  by (induction rs arbitrary: st) (auto simp: bind_res_Inr_iff keeps_map_erase)

lemma keeps_subscribe_topics:
  "subscribe_topics i rs j buf st = Inr (buf', st') \<Longrightarrow> I st \<Longrightarrow> I st'"
proof (induction rs arbitrary: j buf st)
  case (Cons r rs)
  then show ?case by (auto simp: bind_res_Inr_iff Let_def dest: keeps_SetAckIndex)
qed simp

lemma keeps_unsubscribe_mark: "unsubscribe_mark i ts st = Inr st' \<Longrightarrow> I st \<Longrightarrow> I st'"
proof (induction ts arbitrary: st)
  case (Cons t ts)
  then obtain u p st1 where *: "t = Some u" "SetSubscriptionPacketInfo (utf8_data u) i 0 st = Inr (p, st1)"
    "unsubscribe_mark i ts st1 = Inr st'"
    by (cases t) (auto simp: bind_res_Inr_iff)
  then have "I st1"
    using Cons.prems(2)
    by (auto simp: SetSubscriptionPacketInfo_def bind_res_Inr_iff dest: keeps_SetAckIndex split: option.splits)
  with * Cons.IH show ?case by blast
qed simp

lemma keeps_deactivate_all: "deactivate_all m st = Inr st' \<Longrightarrow> I st \<Longrightarrow> I st'"
proof (induction m arbitrary: st)
  case (Cons e m)
  then show ?case
    by (cases e) (auto simp: bind_res_Inr_iff dest: keeps_SetActive)
qed simp

lemma keeps_Publish:
  "PublishAction_PerformAction nc d st = Inr (rc, d', st') \<Longrightarrow> I st \<Longrightarrow> I st'"
  by (auto simp: PublishAction_PerformAction_def Let_def bind_res_Inr_iff dest: keeps_client_write
      intro: keeps_register_ackE keeps_DeletePendingAck
      split: option.splits action_payload.splits prod.splits if_splits)

lemma keeps_Puback:
  "PubackAction_PerformAction nc d st = Inr (rc, d', st') \<Longrightarrow> I st \<Longrightarrow> I st'"
  by (auto simp: PubackAction_PerformAction_def bind_res_Inr_iff dest: keeps_client_write
      split: option.splits action_payload.splits)

lemma keeps_Unsubscribe:
  "UnsubscribeAction_PerformAction nc d st = Inr (rc, d', st') \<Longrightarrow> I st \<Longrightarrow> I st'"
  by (auto simp: UnsubscribeAction_PerformAction_def Let_def bind_res_Inr_iff
      dest!: keeps_client_write keeps_unsubscribe_mark
      intro: keeps_register_ackE keeps_DeletePendingAck
      split: option.splits action_payload.splits prod.splits if_splits)

lemma keeps_Subscribe:
  assumes "SubscribeAction_PerformAction nc d st = Inr (rc, d', st')" "I st"
  shows "I st'"
proof (cases "nc = None \<or> d = None \<or> (\<forall>x p. d = Some x \<longrightarrow> ad_payload x \<noteq> SubscribeData p)")
  case True
  then show ?thesis
    using assms by (auto simp: SubscribeAction_PerformAction_def split: option.splits action_payload.splits)
next
  case False
  then obtain x p where d: "d = Some x" "ad_payload x = SubscribeData p" "nc \<noteq> None" by blast
  let ?i = "ad_action_id x"
  obtain b st1 where reg: "register_ack ?i (ad_async_ack_handler x) st = (b, st1)" by force
  then have ok1: "I st1" using assms(2) by (rule keeps_register_ackE)
  from assms(1) d reg obtain rs st2 bs st3 rc1 st4 where
    st2: "subscribe_register ?i b (subp_subscription_list p) st1 = Inr (rs, st2)" and
    st3: "SubscribePacket_ToString (p\<lparr>subp_subscription_list := rs\<rparr>) ?i st2 = Inr (bs, st3)" and
    st4: "(if 0 < length rs then client_write one_execution nc bs st3 else Inr (SUCCESS, st3)) = Inr (rc1, st4)" and
    fin: "(if rc1 \<noteq> SUCCESS then
             bind_res (erase_topics rs st4) (\<lambda>st.
               Inr (rc1, Some (x\<lparr>ad_payload := SubscribeData (p\<lparr>subp_subscription_list := rs\<rparr>)\<rparr>),
                    if b then DeletePendingAck ?i st else st))
           else Inr (SUCCESS, Some (x\<lparr>ad_payload := SubscribeData (p\<lparr>subp_subscription_list := rs\<rparr>)\<rparr>), st4))
         = Inr (rc, d', st')"
    by (auto simp: SubscribeAction_PerformAction_def Let_def bind_res_Inr_iff)
  have ok2: "I st2" using keeps_subscribe_register [OF st2 ok1] .
  have ok3: "I st3"
    using st3 keeps_subscribe_topics [OF _ ok2] by (auto simp: SubscribePacket_ToString_def Let_def)
  have ok4: "I st4" using st4 ok3 by (auto split: if_splits dest: keeps_client_write)
  show ?thesis
    using fin ok4
    by (auto simp: bind_res_Inr_iff dest: keeps_erase_topics intro!: keeps_DeletePendingAck split: if_splits)
qed

lemma keeps_connect_with:
  assumes "connect_with nc d p st = Inr (rc, d', st')" "I st"
  shows "I st'"
proof -
  let ?d = "d\<lparr>ad_action_id := CONNACK_RESERVED_PACKET_ID\<rparr>"
  obtain b st1 where reg: "register_ack CONNACK_RESERVED_PACKET_ID (ad_async_ack_handler ?d) (st\<lparr>cs_connect_data := Some ?d\<rparr>) = (b, st1)"
    by force
  have ok1: "I st1" using assms(2) by (intro keeps_register_ackE [OF reg]) simp
  obtain c where c: "nc = Some c" using assms(1) reg by (cases nc) (simp_all add: connect_with_def Let_def)
  obtain rc1 n where n: "Connect_nc c (ccs_net st1) = (rc1, n)" by force
  let ?st2 = "st1\<lparr>cs_keep_alive_timeout := Some (con_keep_alive_timeout p), ccs_net := n\<rparr>"
  have ok2: "I ?st2" using ok1 by simp
  show ?thesis
  proof (cases "rc1 = SUCCESS")
    case False
    then show ?thesis using assms(1) reg c n ok2 by (auto simp: connect_with_def Let_def)
  next
    case True
    then obtain bs rc2 st3 where w: "client_write one_execution nc bs ?st2 = Inr (rc2, st3)"
      and fin: "st' = connect_sent c b rc2 st3"
      using assms(1) reg c n by (auto simp: connect_with_def Let_def bind_res_Inr_iff)
    have ok3: "I st3" using keeps_client_write [OF w] ok2 by blast
    then show ?thesis
      using keeps_DeletePendingAck [OF ok3] unfolding fin connect_sent_def Let_def by (simp split: prod.split)
  qed
qed

lemma keeps_Connect:
  "ConnectAction_PerformAction nc d st = Inr (rc, d', st') \<Longrightarrow> I st \<Longrightarrow> I st'"
  by (auto simp: ConnectAction_PerformAction_def bind_res_Inr_iff dest: keeps_connect_with split: option.splits)

lemma keeps_Disconnect:
  assumes "DisconnectAction_PerformAction nc d st = Inr (rc, d', st')" "I st"
  shows "I st'"
  using assms
  by (auto simp: DisconnectAction_PerformAction_def Let_def bind_res_Inr_iff
      case_prod_unfold dest!: keeps_client_write keeps_deactivate_all
      split: if_splits option.splits action_payload.splits)

lemma keeps_perform_action:
  assumes "perform_action runner a d st = Inr (rc, d', st')" "I st"
    and "\<And>d st rc d' st'. runner d st = Inr (rc, d', st') \<Longrightarrow> I st \<Longrightarrow> I st'"
  shows "I st'"
  using assms
  by (cases a) (auto simp: perform_action_def Let_def bind_res_Inr_iff dest: keeps_Publish keeps_Puback
      keeps_Subscribe keeps_Unsubscribe keeps_Connect keeps_Disconnect)

end

interpretation ok: state_property client_ok
  by unfold_locales (simp_all add: client_ok_RegisterPendingAck client_ok_DeletePendingAck client_ok_SetAckIndex
      client_ok_SetActive client_ok_map_erase client_ok_map_insert)

text \<open>The members of the state that no action changes.\<close>

definition action_frame where
  "action_frame st =
     (ccs_events st, ccs_action_map st, ccs_outbound_action_queue st, ccs_max_queue_size st, ccs_now st,
      ccs_network_connection st, ccs_disconnect_handler st, ccs_disconnect_app_handler_data st,
      cs_is_auto_reconnect_enabled st, cs_is_auto_reconnect_required st, cs_is_pingreq_pending st,
      cs_min_reconnect_backoff_timeout st, cs_max_reconnect_backoff_timeout st, cs_last_sent_packet_id st)"

interpretation frame: state_property "\<lambda>st :: 'n client. action_frame st = F" for F
  by unfold_locales
    (auto simp: action_frame_def SetConnected_def SetProcessQueuedActions_def Let_def RegisterPendingAck_def
      DeletePendingAck_def sub_update_def bind_res_Inr_iff split: option.splits)

lemmas client_ok_subscribe_topics = ok.keeps_subscribe_topics
lemmas client_ok_client_write = ok.keeps_client_write


section \<open>What the actions do\<close>

lemma deactivate_all_total:
  assumes "client_ok st" "set m \<subseteq> set (cs_subscription_map st)"
  shows "\<exists>st'. deactivate_all m st = Inr st' \<and> cs_is_connected st' = cs_is_connected st \<and>
    cs_subscription_map st' = cs_subscription_map st \<and>
    length (cs_subscriptions st') = length (cs_subscriptions st) \<and>
    (\<forall>r. \<not> sub_is_active (cs_subscriptions st ! r) \<longrightarrow> \<not> sub_is_active (cs_subscriptions st' ! r)) \<and>
    (\<forall>(name, r) \<in> set m. \<not> sub_is_active (cs_subscriptions st' ! r))"
  using assms
proof (induction m arbitrary: st)
  case (Cons e m)
  obtain name r where e: "e = (name, r)" by force
  have r: "r < length (cs_subscriptions st)"
    using Cons.prems e by (auto simp: client_ok_def subs_ok_def)
  let ?st = "st\<lparr>cs_subscriptions := (cs_subscriptions st)[r := SetActive False (cs_subscriptions st ! r)]\<rparr>"
  have upd: "sub_update r (SetActive False) st = Inr ?st" using r by (rule sub_update_in)
  have "client_ok ?st" using client_ok_SetActive [OF upd Cons.prems(1)] .
  with Cons.IH [of ?st] Cons.prems(2) obtain st' where st': "deactivate_all m ?st = Inr st'"
    "cs_is_connected st' = cs_is_connected st" "cs_subscription_map st' = cs_subscription_map st"
    "length (cs_subscriptions st') = length (cs_subscriptions st)"
    "\<forall>q. \<not> sub_is_active (cs_subscriptions ?st ! q) \<longrightarrow> \<not> sub_is_active (cs_subscriptions st' ! q)"
    "\<forall>(name, q) \<in> set m. \<not> sub_is_active (cs_subscriptions st' ! q)"
    by auto
  have inactive: "\<not> sub_is_active (cs_subscriptions ?st ! r)" using r by (simp add: SetActive_def)
  have keep: "\<not> sub_is_active (cs_subscriptions st ! q) \<Longrightarrow> \<not> sub_is_active (cs_subscriptions ?st ! q)" for q
    using r inactive by (cases "q = r") simp_all
  show ?case
    using st' inactive keep upd by (auto simp: e)
qed simp

text \<open>
  A write through an honest connection returns; success means that the connection took every byte.
\<close>

lemma client_write_total:
  assumes "honest_writer nc" "length buf < 2 ^ 31"
  shows "\<exists>rc n. client_write go (Some nc) buf st = Inr (rc, st\<lparr>ccs_net := n\<rparr>) \<and>
    (rc = SUCCESS \<longrightarrow> Write_nc nc buf 0 (ccs_net st) = (SUCCESS, length buf, n)) \<and>
    (buf \<noteq> [] \<longrightarrow> rc = SUCCESS \<longleftrightarrow> (\<exists>n'. Write_nc nc buf 0 (ccs_net st) = (SUCCESS, length buf, n')))"
proof (cases "buf = []")
  case True
  then show ?thesis
    by (intro exI [of _ NETWORK_NOTHING_TO_WRITE_ERROR] exI [of _ "ccs_net st"])
      (simp add: client_write_def WriteToNetworkBuffer_def)
next
  case False
  obtain rc k n where w: "Write_nc nc buf 0 (ccs_net st) = (rc, k, n)" by (metis prod_cases3)
  have "k \<le> length buf" using assms(1) w assms(2) by (rule Write_nc_honest)
  moreover have "length buf < 2 ^ 64" using assms(2) by simp
  ultimately show ?thesis
    using WriteToNetworkBuffer_once [OF False w, of 0 go] w by (auto simp: client_write_def)
qed

lemma find_pending_net [simp]: "ccs_pending_ack_map (st\<lparr>ccs_net := n\<rparr>) = ccs_pending_ack_map st"
  by simp

lemma register_ack_Some:
  "register_ack i (Some h) st = (True, snd (RegisterPendingAck i (Some h) st))"
  by (simp add: register_ack_def RegisterPendingAck_def)

lemma PublishAction_pending:
  assumes "client_ok st" "honest_writer nc" "publish_size topic QOS1 payload \<le> MAX_MQTT_PACKET_REM_LEN_BYTES"
    and "ad_payload d = PublishData (PublishPacket_new topic ret dup QOS1 payload)" "sendable topic"
    and "ad_async_ack_handler d = Some h" "map_find (ccs_pending_ack_map st) (ad_action_id d) = None"
  shows "\<exists>rc st' bs. PublishAction_PerformAction (Some nc) (Some d) st = Inr (rc, Some d, st') \<and>
    PublishPacket_ToString (PublishPacket_new topic ret dup QOS1 payload) (ad_action_id d) = Inr bs \<and>
    (if rc = SUCCESS then
       Write_nc nc bs 0 (ccs_net st) = (SUCCESS, length bs, ccs_net st') \<and>
       map_find (ccs_pending_ack_map st') (ad_action_id d)
         = Some \<lparr>pa_time_of_request = ccs_now st, pa_async_ack_handler = h\<rparr>
     else map_find (ccs_pending_ack_map st') (ad_action_id d) = None) \<and>
    (rc = SUCCESS \<longleftrightarrow> (\<exists>n. Write_nc nc bs 0 (ccs_net st) = (SUCCESS, length bs, n)))"
proof -
  let ?p = "PublishPacket_new topic ret dup QOS1 payload" and ?i = "ad_action_id d"
  let ?st1 = "snd (RegisterPendingAck ?i (Some h) st)"
  obtain hdr body where bs: "PublishPacket_ToString ?p ?i = Inr (hdr @ body)"
    "length hdr = Length_header (header_of ?p)" "fh_remaining_length (header_of ?p) = length body"
    using publish_roundtrip' [OF assms(5,3), of ret dup ?i] by blast
  have net: "ccs_net ?st1 = ccs_net st" "ccs_now ?st1 = ccs_now st"
    by (simp_all add: RegisterPendingAck_def)
  have pend: "map_find (ccs_pending_ack_map ?st1) ?i = Some \<lparr>pa_time_of_request = ccs_now st, pa_async_ack_handler = h\<rparr>"
    using assms(1,7) by (simp add: client_ok_def find_pending_RegisterPendingAck)
  have "length (hdr @ body) \<le> 5 + publish_size topic QOS1 payload"
    using bs(2,3) packet_base_header [OF assms(3), of MT_PUBLISH dup QOS1 ret]
    by (simp add: publish_base(1) [OF assms(3)] Length_header_def GetRemainingLengthByteCount_def)
  then have short: "length (hdr @ body) < 2 ^ 31"
    using assms(3) by (simp add: MAX_MQTT_PACKET_REM_LEN_BYTES_def)
  obtain rc n where w: "client_write one_execution (Some nc) (hdr @ body) ?st1 = Inr (rc, ?st1\<lparr>ccs_net := n\<rparr>)"
    "rc = SUCCESS \<longrightarrow> Write_nc nc (hdr @ body) 0 (ccs_net ?st1) = (SUCCESS, length (hdr @ body), n)"
    "hdr @ body \<noteq> [] \<longrightarrow> rc = SUCCESS \<longleftrightarrow> (\<exists>n'. Write_nc nc (hdr @ body) 0 (ccs_net ?st1) = (SUCCESS, length (hdr @ body), n'))"
    using client_write_total [OF assms(2) short] by blast
  have "hdr @ body \<noteq> []" using bs(2) by (auto simp: Length_header_def)
  then have sent: "rc = SUCCESS \<longleftrightarrow> (\<exists>n'. Write_nc nc (hdr @ body) 0 (ccs_net st) = (SUCCESS, length (hdr @ body), n'))"
    using w(3) net by simp
  have act: "PublishAction_PerformAction (Some nc) (Some d) st
      = Inr (rc, Some d, if rc \<noteq> SUCCESS then DeletePendingAck ?i (?st1\<lparr>ccs_net := n\<rparr>) else ?st1\<lparr>ccs_net := n\<rparr>)"
    using assms(4,6) publish_base(4) [OF assms(3), of ret dup]
    by (simp add: PublishAction_PerformAction_def register_ack_Some bs(1) w(1) Let_def)
  show ?thesis
  proof (cases "rc = SUCCESS")
    case True
    then show ?thesis using act bs(1) w(2) pend net sent by auto
  next
    case False
    then show ?thesis
      using act bs(1) sent find_pending_DeletePendingAck [of ?i "?st1\<lparr>ccs_net := n\<rparr>" ?i]
      by (intro exI [of _ rc] exI [of _ "DeletePendingAck ?i (?st1\<lparr>ccs_net := n\<rparr>)"] exI [of _ "hdr @ body"]) simp
  qed
qed

text \<open>publishing with QoS 1 and a callback returns over an honest connection; when it succeeds exactly
  the packet's bytes were sent and its acknowledgement is pending for the callback, when it fails
  nothing is pending under its identifier.\<close>

theorem publish_pending_iff_sent:
  assumes "client_ok st" "honest_writer nc" "publish_size topic QOS1 payload \<le> MAX_MQTT_PACKET_REM_LEN_BYTES"
    and "ad_payload d = PublishData (PublishPacket_new topic ret dup QOS1 payload)" "sendable topic"
    and "ad_async_ack_handler d = Some h" "map_find (ccs_pending_ack_map st) (ad_action_id d) = None"
  shows "\<exists>rc st' bs. PublishAction_PerformAction (Some nc) (Some d) st = Inr (rc, Some d, st') \<and>
    PublishPacket_ToString (PublishPacket_new topic ret dup QOS1 payload) (ad_action_id d) = Inr bs \<and>
    (if rc = SUCCESS then
       Write_nc nc bs 0 (ccs_net st) = (SUCCESS, length bs, ccs_net st') \<and>
       map_find (ccs_pending_ack_map st') (ad_action_id d)
         = Some \<lparr>pa_time_of_request = ccs_now st, pa_async_ack_handler = h\<rparr>
     else map_find (ccs_pending_ack_map st') (ad_action_id d) = None)"
  using PublishAction_pending [OF assms] by blast

lemma DisconnectAction_effect:
  assumes "client_ok st" "honest_writer nc" "cs_is_connected st" "ad_payload d = DisconnectData DisconnectPacket_new"
  shows "\<exists>st'. DisconnectAction_PerformAction (Some nc) (Some d) st = Inr (SUCCESS, Some d, st') \<and>
    \<not> cs_is_connected st' \<and> cs_subscription_map st' = cs_subscription_map st \<and>
    (\<forall>(name, r) \<in> set (cs_subscription_map st'). \<not> sub_is_active (cs_subscriptions st' ! r))"
proof -
  let ?st0 = "SetConnected False st"
  have ok0: "client_ok ?st0" using assms(1) by simp
  have c0: "\<not> cs_is_connected ?st0" "cs_subscription_map ?st0 = cs_subscription_map st"
    by (simp_all add: SetConnected_def SetProcessQueuedActions_def Let_def)
  have "length (DisconnectPacket_ToString DisconnectPacket_new) < 2 ^ 31"
    by (simp add: DisconnectPacket_ToString_def DisconnectPacket_new_def packet_base_def Initialize_header_def
        MAX_MQTT_PACKET_REM_LEN_BYTES_def AppendToBuffer_header_def)
  then obtain rc n where w: "client_write one_execution (Some nc) (DisconnectPacket_ToString DisconnectPacket_new) ?st0
      = Inr (rc, ?st0\<lparr>ccs_net := n\<rparr>)"
    using client_write_total [OF assms(2)] by blast
  define st1 where "st1 = (if nc_IsConnected nc (ccs_net ?st0) then ?st0\<lparr>ccs_net := n\<rparr> else ?st0)"
  have ok1: "client_ok st1" and c1: "\<not> cs_is_connected st1" "cs_subscription_map st1 = cs_subscription_map st"
    using ok0 c0 by (simp_all add: st1_def)
  obtain st2 where d: "deactivate_all (cs_subscription_map st1) st1 = Inr st2"
    "\<not> cs_is_connected st2" "cs_subscription_map st2 = cs_subscription_map st1"
    "\<forall>(name, r) \<in> set (cs_subscription_map st1). \<not> sub_is_active (cs_subscriptions st2 ! r)"
    using deactivate_all_total [OF ok1 subset_refl] c1(1) by auto
  obtain rc' n' where n': "Disconnect_nc nc (ccs_net st2) = (rc', n')" by force
  have "DisconnectAction_PerformAction (Some nc) (Some d) st = Inr (SUCCESS, Some d, st2\<lparr>ccs_net := n'\<rparr>)"
    using assms(3,4) w d(1) n'
    by (simp add: DisconnectAction_PerformAction_def st1_def Let_def split: if_splits)
  then show ?thesis using d c1 by auto
qed

text \<open>disconnecting a connected client returns over an honest connection, reports success, and leaves the
  client disconnected with every subscription of its map inactive.\<close>

theorem disconnect_deactivates:
  assumes "client_ok st" "honest_writer nc" "cs_is_connected st" "ad_payload d = DisconnectData DisconnectPacket_new"
  shows "\<exists>st'. DisconnectAction_PerformAction (Some nc) (Some d) st = Inr (SUCCESS, Some d, st') \<and>
    \<not> cs_is_connected st' \<and> cs_subscription_map st' = cs_subscription_map st \<and>
    (\<forall>(name, r) \<in> set (cs_subscription_map st'). \<not> sub_is_active (cs_subscriptions st' ! r))"
  using assms by (rule DisconnectAction_effect)

definition topic_of :: "'n client \<Rightarrow> nat \<Rightarrow> bytes" where
  "topic_of st r = utf8_data (sub_topic_name (cs_subscriptions st ! r))"

lemma topic_of_map [simp]: "topic_of (st\<lparr>cs_subscription_map := m\<rparr>) = topic_of st"
  by (rule ext) (simp add: topic_of_def)

lemma subscribe_register_fresh:
  assumes "map_wf (cs_subscription_map st)" "distinct (map (topic_of st) rs)"
    and "\<forall>r \<in> set rs. r < length (cs_subscriptions st) \<and> map_find (cs_subscription_map st) (topic_of st r) = None"
  shows "\<exists>m. subscribe_register i b rs st = Inr (rs, st\<lparr>cs_subscription_map := m\<rparr>) \<and> map_wf m \<and>
    map_find m = (\<lambda>k. case find (\<lambda>r. topic_of st r = k) rs of
                      Some r \<Rightarrow> Some r | None \<Rightarrow> map_find (cs_subscription_map st) k)"
  using assms
proof (induction rs arbitrary: st)
  case Nil
  show ?case by (rule exI [of _ "cs_subscription_map st"]) (simp add: Nil)
next
  case (Cons r rs)
  let ?m1 = "map_insert (topic_of st r) r (cs_subscription_map st)"
  let ?st1 = "st\<lparr>cs_subscription_map := ?m1\<rparr>"
  have r: "r < length (cs_subscriptions st)" "map_find (cs_subscription_map st) (topic_of st r) = None"
    using Cons.prems(3) by simp_all
  have m1: "map_find ?m1 k = (if k = topic_of st r then Some r else map_find (cs_subscription_map st) k)" for k
    using r(2) Cons.prems(1) by (simp add: smap.find_ins)
  have other: "topic_of st q \<noteq> topic_of st r" if "q \<in> set rs" for q
  proof -
    have "topic_of st r \<notin> topic_of st ` set rs" using Cons.prems(2) by simp
    with that show ?thesis by (metis imageI)
  qed
  have "\<exists>m. subscribe_register i b rs ?st1 = Inr (rs, ?st1\<lparr>cs_subscription_map := m\<rparr>) \<and> map_wf m \<and>
    map_find m = (\<lambda>k. case find (\<lambda>r. topic_of ?st1 r = k) rs of
                      Some r \<Rightarrow> Some r | None \<Rightarrow> map_find (cs_subscription_map ?st1) k)"
  proof (rule Cons.IH)
    show "\<forall>q \<in> set rs. q < length (cs_subscriptions ?st1) \<and>
        map_find (cs_subscription_map ?st1) (topic_of ?st1 q) = None"
      using Cons.prems(3) m1 other by simp
  qed (use Cons.prems in \<open>simp_all add: map_wf_insert\<close>)
  then obtain m where m: "subscribe_register i b rs ?st1 = Inr (rs, st\<lparr>cs_subscription_map := m\<rparr>)" "map_wf m"
    "map_find m = (\<lambda>k. case find (\<lambda>r. topic_of st r = k) rs of Some r \<Rightarrow> Some r | None \<Rightarrow> map_find ?m1 k)"
    by (auto cong: option.case_cong)
  have none: "find (\<lambda>q. topic_of st q = topic_of st r) rs = None"
    using other by (auto simp: find_None_iff)
  have "map_find m = (\<lambda>k. case find (\<lambda>r. topic_of st r = k) (r # rs) of
      Some r \<Rightarrow> Some r | None \<Rightarrow> map_find (cs_subscription_map st) k)"
    unfolding m(3) by (rule ext) (use none m1 in \<open>auto split: option.split\<close>)
  then show ?case
    using m(1,2) r by (intro exI [of _ m]) (simp add: sub_at_in Let_def topic_of_def)
qed

lemma erase_topics_total:
  assumes "\<forall>r \<in> set rs. r < length (cs_subscriptions st)"
  shows "\<exists>m. erase_topics rs st = Inr (st\<lparr>cs_subscription_map := m\<rparr>) \<and>
    map_find m = (\<lambda>k. if k \<in> topic_of st ` set rs then None else map_find (cs_subscription_map st) k)"
  using assms
proof (induction rs arbitrary: st)
  case Nil
  show ?case by (rule exI [of _ "cs_subscription_map st"]) simp
next
  case (Cons r rs)
  let ?st1 = "st\<lparr>cs_subscription_map := map_erase (topic_of st r) (cs_subscription_map st)\<rparr>"
  obtain m where m: "erase_topics rs ?st1 = Inr (st\<lparr>cs_subscription_map := m\<rparr>)"
    "map_find m = (\<lambda>k. if k \<in> topic_of st ` set rs then None
       else map_find (map_erase (topic_of st r) (cs_subscription_map st)) k)"
    using Cons.IH [of ?st1] Cons.prems by (auto cong: if_cong)
  have "map_find m = (\<lambda>k. if k \<in> topic_of st ` set (r # rs) then None else map_find (cs_subscription_map st) k)"
    unfolding m(2) by (rule ext) (simp add: smap.find_del)
  then show ?case
    using m(1) Cons.prems by (intro exI [of _ m]) (simp add: sub_at_in topic_of_def)
qed

lemma subscribe_topics_state:
  "subscribe_topics i rs j buf st = Inr (buf', st') \<Longrightarrow>
   \<exists>subs. st' = st\<lparr>cs_subscriptions := subs\<rparr> \<and> map sub_topic_name subs = map sub_topic_name (cs_subscriptions st)"
proof (induction rs arbitrary: j buf st)
  case Nil
  then show ?case by (intro exI [of _ "cs_subscriptions st"]) simp
next
  case (Cons r rs)
  then obtain st1 j' buf1 where *: "sub_update r (SetAckIndex i j) st = Inr st1"
    "subscribe_topics i rs j' buf1 st1 = Inr (buf', st')"
    by (auto simp: bind_res_Inr_iff Let_def)
  obtain subs where subs: "st1 = st\<lparr>cs_subscriptions := subs\<rparr>"
    "map sub_topic_name subs = map sub_topic_name (cs_subscriptions st)"
    using *(1) by (auto simp: sub_update_def sub_at_def map_update split: if_splits)
      (metis list_update_id map_update sub_topic_updates(1))
  from Cons.IH [OF *(2)] subs show ?case by auto
qed

text \<open>What follows the loop over the topics, over an honest connection.\<close>

lemma subscribe_after_register:
  assumes "honest_writer nc" "ad_payload d = SubscribeData p"
    and "register_ack (ad_action_id d) (ad_async_ack_handler d) st = (b, st1)"
    and "subscribe_register (ad_action_id d) b (subp_subscription_list p) st1 = Inr (rs, st2)"
    and "topics_sendable st2 rs" "distinct rs" "rs \<noteq> []"
    and "fh_remaining_length (header_of p) \<le> MAX_MQTT_PACKET_REM_LEN_BYTES"
    and "topics_size st2 rs \<le> MAX_MQTT_PACKET_REM_LEN_BYTES"
  shows "\<exists>rc bs subs n d'.
    length bs = Length_header (header_of p) + 2 + topics_size st2 rs \<and>
    map sub_topic_name subs = map sub_topic_name (cs_subscriptions st2) \<and>
    SubscribeAction_PerformAction (Some nc) (Some d) st =
      (if rc \<noteq> SUCCESS then
         bind_res (erase_topics rs (st2\<lparr>cs_subscriptions := subs, ccs_net := n\<rparr>)) (\<lambda>st.
           Inr (rc, Some d', if b then DeletePendingAck (ad_action_id d) st else st))
       else Inr (SUCCESS, Some d', st2\<lparr>cs_subscriptions := subs, ccs_net := n\<rparr>)) \<and>
    (rc = SUCCESS \<longrightarrow> Write_nc nc bs 0 (ccs_net st2) = (SUCCESS, length bs, n))"
proof -
  let ?i = "ad_action_id d" and ?p = "p\<lparr>subp_subscription_list := rs\<rparr>"
  let ?h = "AppendUInt16ToBuffer (AppendToBuffer_header (header_of p) []) ?i"
  obtain bs st3 where ser: "subscribe_topics ?i rs 1 ?h st2 = Inr (bs, st3)" "length bs = length ?h + topics_size st2 rs"
    using subscribe_topics_effect [OF assms(5,6), of ?i 1 ?h] by blast
  obtain subs where subs: "st3 = st2\<lparr>cs_subscriptions := subs\<rparr>" "map sub_topic_name subs = map sub_topic_name (cs_subscriptions st2)"
    using subscribe_topics_state [OF ser(1)] by blast
  have hdr: "length ?h = Length_header (header_of p) + 2"
    using assms(8) by (simp add: length_AppendUInt16ToBuffer length_AppendToBuffer_header)
  have "Length_header (header_of p) \<le> 5" by (simp add: Length_header_def GetRemainingLengthByteCount_def)
  then have "length bs < 2 ^ 31"
    using ser(2) hdr assms(9) by (simp add: MAX_MQTT_PACKET_REM_LEN_BYTES_def)
  then obtain rc n where w: "client_write one_execution (Some nc) bs st3 = Inr (rc, st3\<lparr>ccs_net := n\<rparr>)"
    "rc = SUCCESS \<longrightarrow> Write_nc nc bs 0 (ccs_net st3) = (SUCCESS, length bs, n)"
    using client_write_total [OF assms(1)] by blast
  have str: "SubscribePacket_ToString ?p ?i st2 = Inr (bs, st3)"
    using ser(1) by (simp add: SubscribePacket_ToString_def Let_def)
  have "SubscribeAction_PerformAction (Some nc) (Some d) st =
      (if rc \<noteq> SUCCESS then
         bind_res (erase_topics rs (st3\<lparr>ccs_net := n\<rparr>)) (\<lambda>st.
           Inr (rc, Some (d\<lparr>ad_payload := SubscribeData ?p\<rparr>), if b then DeletePendingAck ?i st else st))
       else Inr (SUCCESS, Some (d\<lparr>ad_payload := SubscribeData ?p\<rparr>), st3\<lparr>ccs_net := n\<rparr>))"
    using assms(2,3,4,7) str w(1) by (simp add: SubscribeAction_PerformAction_def Let_def)
  then show ?thesis
    using ser(2) hdr subs w(2) by (intro exI [of _ rc] exI [of _ bs] exI [of _ subs] exI [of _ n]) auto
qed

lemma SubscribePacket_new_list:
  "SubscribePacket_new st rs = Inr p \<Longrightarrow> subp_subscription_list p = rs"
  by (auto simp: SubscribePacket_new_def bind_res_Inr_iff Packet.defs SubscribePacket.defs)

lemma SubscribePacket_new_header:
  assumes "topics_sendable st rs" "2 + topics_size st rs \<le> MAX_MQTT_PACKET_REM_LEN_BYTES" "SubscribePacket_new st rs = Inr p"
  shows "fh_remaining_length (header_of p) = 2 + topics_size st rs"
  using assms subscribe_size_sum [OF assms(1), of 2] packet_base_header [OF assms(2), of MT_SUBSCRIBE]
  by (auto simp: SubscribePacket_new_def bind_res_Inr_iff MAX_MQTT_PACKET_REM_LEN_BYTES_def)

lemma RegisterPendingAck_state: "\<exists>m. snd (RegisterPendingAck i (Some h) st) = st\<lparr>ccs_pending_ack_map := m\<rparr>"
  by (auto simp: RegisterPendingAck_def)

lemma DeletePendingAck_state: "\<exists>m. DeletePendingAck i st = st\<lparr>ccs_pending_ack_map := m\<rparr>"
proof (cases "map_find (ccs_pending_ack_map st) i")
  case None
  then have "DeletePendingAck i st = st\<lparr>ccs_pending_ack_map := ccs_pending_ack_map st\<rparr>"
    by (simp add: DeletePendingAck_def)
  then show ?thesis by blast
qed (auto simp: DeletePendingAck_def)

lemma topic_of_pending [simp]: "topic_of (st\<lparr>ccs_pending_ack_map := a\<rparr>) = topic_of st"
  by (rule ext) (simp add: topic_of_def)

lemma topic_of_renamed:
  "map sub_topic_name subs = map sub_topic_name (cs_subscriptions st) \<Longrightarrow> r < length (cs_subscriptions st) \<Longrightarrow>
   topic_of (st\<lparr>cs_subscriptions := subs, ccs_net := n\<rparr>) r = topic_of st r \<and> r < length subs"
  by (simp add: topic_of_def) (metis length_map nth_map)

lemma topics_sendable_map [simp]:
  "topics_sendable (st\<lparr>cs_subscription_map := m\<rparr>) rs = topics_sendable st rs"
  "topics_sendable (st\<lparr>ccs_pending_ack_map := a\<rparr>) rs = topics_sendable st rs"
  "topics_size (st\<lparr>cs_subscription_map := m\<rparr>) rs = topics_size st rs"
  "topics_size (st\<lparr>ccs_pending_ack_map := a\<rparr>) rs = topics_size st rs"
  by (simp_all add: topics_sendable_def topics_size_def topic_length_def)


text \<open>subscribing to an active topic together with new ones sends a malformed packet: the active topic
  is left out of the bytes but not out of the announced length, and although the request reports
  success its callback is no longer registered.\<close>

theorem subscribe_dropped_topic:
  assumes "client_ok st" "honest_writer nc" "topics_sendable st (r # qs)" "distinct (map (topic_of st) qs)" "qs \<noteq> []"
    and "map_find (cs_subscription_map st) (topic_of st r) = Some e" "sub_is_active (cs_subscriptions st ! e)"
    and "\<forall>q \<in> set qs. map_find (cs_subscription_map st) (topic_of st q) = None"
    and "2 + topics_size st (r # qs) \<le> MAX_MQTT_PACKET_REM_LEN_BYTES"
    and "ad_payload d = SubscribeData p" "SubscribePacket_new st (r # qs) = Inr p" "ad_async_ack_handler d = Some h"
  shows "\<exists>rc d' st' bs. SubscribeAction_PerformAction (Some nc) (Some d) st = Inr (rc, d', st') \<and>
    (rc = SUCCESS \<longrightarrow>
       Write_nc nc bs 0 (ccs_net st) = (SUCCESS, length bs, ccs_net st') \<and>
       length bs + topic_length st r + 3 = Length_header (header_of p) + fh_remaining_length (header_of p) \<and>
       map_find (ccs_pending_ack_map st') (ad_action_id d) = None)"
proof -
  let ?i = "ad_action_id d"
  let ?st0 = "snd (RegisterPendingAck ?i (Some h) st)"
  obtain a0 where a0: "?st0 = st\<lparr>ccs_pending_ack_map := a0\<rparr>" using RegisterPendingAck_state by blast
  obtain a where a: "DeletePendingAck ?i ?st0 = st\<lparr>ccs_pending_ack_map := a\<rparr>"
    using DeletePendingAck_state [of ?i ?st0] by (auto simp: a0)
  have none: "map_find a ?i = None"
    using find_pending_DeletePendingAck [of ?i ?st0 ?i] by (simp add: a)
  let ?st1 = "st\<lparr>ccs_pending_ack_map := a\<rparr>"
  have reg: "register_ack ?i (ad_async_ack_handler d) st = (True, ?st0)"
    using assms(12) by (simp add: register_ack_Some)
  have len: "\<forall>q \<in> set (r # qs). q < length (cs_subscriptions st)" using assms(3) by (simp add: topics_sendable_def)
  have "(topic_of st r, e) \<in> set (cs_subscription_map st)"
    using assms(6) by (auto simp: map_find_def dest: map_of_SomeD)
  then have e: "e < length (cs_subscriptions st)" using assms(1) by (auto simp: client_ok_def subs_ok_def)
  have wf: "map_wf (cs_subscription_map ?st1)" using assms(1) by (simp add: client_ok_def subs_ok_def)
  obtain m where m: "subscribe_register ?i True qs ?st1 = Inr (qs, ?st1\<lparr>cs_subscription_map := m\<rparr>)"
    using subscribe_register_fresh [of ?st1 qs ?i True] wf assms(4,8) len by auto
  have loop: "subscribe_register ?i True (r # qs) ?st0 = Inr (qs, ?st1\<lparr>cs_subscription_map := m\<rparr>)"
    using assms(6,7) len e m a by (simp add: a0 sub_at_in Let_def topic_of_def)
  let ?st2 = "?st1\<lparr>cs_subscription_map := m\<rparr>"
  have list: "subp_subscription_list p = r # qs" using assms(11) by (rule SubscribePacket_new_list)
  have hdr: "fh_remaining_length (header_of p) = 2 + topics_size st (r # qs)"
    using SubscribePacket_new_header [OF assms(3,9,11)] .
  have size: "topics_size st (r # qs) = topic_length st r + 3 + topics_size st qs"
    by (simp add: topics_size_def)
  have dist: "distinct qs" using assms(4) by (simp add: distinct_map)
  have bounds: "fh_remaining_length (header_of p) \<le> MAX_MQTT_PACKET_REM_LEN_BYTES"
    "topics_size ?st2 qs \<le> MAX_MQTT_PACKET_REM_LEN_BYTES"
    using hdr size assms(9) by simp_all
  have send: "topics_sendable ?st2 qs" using assms(3) by (simp add: topics_sendable_def)
  obtain rc bs subs n d' where
    bs: "length bs = Length_header (header_of p) + 2 + topics_size ?st2 qs" and
    names: "map sub_topic_name subs = map sub_topic_name (cs_subscriptions ?st2)" and
    act: "SubscribeAction_PerformAction (Some nc) (Some d) st =
      (if rc \<noteq> SUCCESS then
         bind_res (erase_topics qs (?st2\<lparr>cs_subscriptions := subs, ccs_net := n\<rparr>)) (\<lambda>st.
           Inr (rc, Some d', if True then DeletePendingAck ?i st else st))
       else Inr (SUCCESS, Some d', ?st2\<lparr>cs_subscriptions := subs, ccs_net := n\<rparr>))" and
    sent: "rc = SUCCESS \<longrightarrow> Write_nc nc bs 0 (ccs_net ?st2) = (SUCCESS, length bs, n)"
    using subscribe_after_register [OF assms(2,10) reg, unfolded list, OF loop send dist assms(5) bounds] by blast
  show ?thesis
  proof (cases "rc = SUCCESS")
    case True
    then have "SubscribeAction_PerformAction (Some nc) (Some d) st
        = Inr (rc, Some d', ?st2\<lparr>cs_subscriptions := subs, ccs_net := n\<rparr>)"
      using act by simp
    then show ?thesis
      using True sent bs none hdr size
      by (intro exI [of _ rc] exI [of _ "Some d'"] exI [of _ "?st2\<lparr>cs_subscriptions := subs, ccs_net := n\<rparr>"] exI [of _ bs])
        simp
  next
    case False
    let ?st3 = "?st2\<lparr>cs_subscriptions := subs, ccs_net := n\<rparr>"
    have "\<forall>q \<in> set qs. q < length (cs_subscriptions ?st3)"
      using len map_eq_imp_length_eq [OF names] by simp
    from erase_topics_total [OF this] False act show ?thesis by auto
  qed
qed

text \<open>connecting: when the transport cannot be connected its error is returned and the acknowledgement
  stays pending; when the packet cannot be sent nothing is pending and the transport is disconnected
  again; when it succeeds the whole packet was sent and the acknowledgement is pending.\<close>

theorem connect_outcome:
  assumes "client_ok st" "honest_writer nc" "map_find (ccs_pending_ack_map st) CONNACK_RESERVED_PACKET_ID = None"
    and "ad_payload d = ConnectData p" "ConnectPacket_ToString p = Inr bs" "length bs < 2 ^ 31"
    and "ad_async_ack_handler d = Some h" "Connect_nc nc (ccs_net st) = (rc0, n0)"
  shows "\<exists>rc d' st' n k. ConnectAction_PerformAction (Some nc) (Some d) st = Inr (rc, d', st') \<and>
    (if rc0 \<noteq> SUCCESS then
       rc = rc0 \<and> ccs_net st' = n0 \<and> map_find (ccs_pending_ack_map st') CONNACK_RESERVED_PACKET_ID \<noteq> None
     else if rc \<noteq> SUCCESS then
       ccs_net st' = snd (Disconnect_nc nc n) \<and> map_find (ccs_pending_ack_map st') CONNACK_RESERVED_PACKET_ID = None
     else
       Write_nc nc bs 0 n0 = (SUCCESS, length bs, ccs_net st') \<and>
       map_find (ccs_pending_ack_map st') CONNACK_RESERVED_PACKET_ID
         = Some \<lparr>pa_time_of_request = ccs_now st, pa_async_ack_handler = h\<rparr>)"
proof -
  let ?d = "d\<lparr>ad_action_id := CONNACK_RESERVED_PACKET_ID\<rparr>" and ?i = CONNACK_RESERVED_PACKET_ID
  let ?st0 = "st\<lparr>cs_connect_data := Some ?d\<rparr>"
  let ?st1 = "snd (RegisterPendingAck ?i (Some h) ?st0)"
  have reg: "register_ack ?i (ad_async_ack_handler ?d) ?st0 = (True, ?st1)"
    using assms(7) by (simp add: register_ack_Some)
  have "core_ok ?st0" using assms(1) by (simp add: client_ok_def core_ok_def)
  then have pend: "map_find (ccs_pending_ack_map ?st1) ?i = Some \<lparr>pa_time_of_request = ccs_now st, pa_async_ack_handler = h\<rparr>"
    using assms(3) by (simp add: find_pending_RegisterPendingAck)
  have net: "ccs_net ?st1 = ccs_net st" by (simp add: RegisterPendingAck_def)
  let ?st2 = "?st1\<lparr>cs_keep_alive_timeout := Some (con_keep_alive_timeout p), ccs_net := n0\<rparr>"
  obtain rc n where w: "client_write one_execution (Some nc) bs ?st2 = Inr (rc, ?st2\<lparr>ccs_net := n\<rparr>)"
    "rc = SUCCESS \<longrightarrow> Write_nc nc bs 0 (ccs_net ?st2) = (SUCCESS, length bs, n)"
    using client_write_total [OF assms(2,6)] by blast
  have packet: "as_connect_packet (Some d) = Some (d, p)" using assms(4) by (simp add: as_connect_packet_def)
  show ?thesis
  proof (cases "rc0 = SUCCESS")
    case False
    then have "ConnectAction_PerformAction (Some nc) (Some d) st = Inr (rc0, Some ?d, ?st2)"
      using reg net assms(8) by (simp add: ConnectAction_PerformAction_def packet connect_with_def Let_def)
    with False pend show ?thesis by auto
  next
    case True
    then have act: "ConnectAction_PerformAction (Some nc) (Some d) st
        = Inr (rc, Some ?d, connect_sent nc True rc (?st2\<lparr>ccs_net := n\<rparr>))"
      using reg net assms(5,8) w(1) by (simp add: ConnectAction_PerformAction_def packet connect_with_def Let_def)
    show ?thesis
    proof (cases "rc = SUCCESS")
      case ok: True
      then show ?thesis using True act w(2) pend by (auto simp: connect_sent_def)
    next
      case fail: False
      obtain rc' n' where dn: "Disconnect_nc nc (ccs_net (DeletePendingAck ?i (?st2\<lparr>ccs_net := n\<rparr>))) = (rc', n')" by force
      have "ccs_net (connect_sent nc True rc (?st2\<lparr>ccs_net := n\<rparr>)) = n'"
        "ccs_pending_ack_map (connect_sent nc True rc (?st2\<lparr>ccs_net := n\<rparr>))
           = ccs_pending_ack_map (DeletePendingAck ?i (?st2\<lparr>ccs_net := n\<rparr>))"
        using fail dn by (simp_all add: connect_sent_def Let_def)
      then show ?thesis
        using True fail act find_pending_DeletePendingAck [of ?i "?st2\<lparr>ccs_net := n\<rparr>" ?i] dn
        by (metis snd_conv)
    qed
  qed
qed

section \<open>Witnesses\<close>

text \<open>A connected client with an active subscription in its map and one more that is not in it.\<close>

definition sample_net_client :: "script_device client" where
  "sample_net_client = (ClientState_new 1000 (script [] 0 90) 0)
     \<lparr>cs_is_connected := True, cs_subscription_map := [([97, slash, plus_sign], 0)],
      cs_subscriptions := [SetActive True (sample_sub [97, slash, plus_sign]), sample_sub [98]]\<rparr>"

definition sample_action :: "action_payload \<Rightarrow> action_data" where
  "sample_action p = \<lparr>ad_async_ack_handler = Some (AppHandler 4), ad_action_id = 5, ad_payload = p\<rparr>"

lemmas sample_net_simps = sample_net_client_def sample_sub_def Subscription_new_def SetAckIndex_def SetActive_def
  utf8_of_def ClientState_new_def ClientCoreState.defs ClientState.defs ClientCoreState_new_def

lemma sample_net_client_ok: "client_ok sample_net_client"
  by (simp add: sample_net_simps client_ok_def core_ok_def subs_ok_def map_wf_def sub_ok_def
      Utf8String_ok_def is_valid_ascii IsValidTopicName_def Let_def)

lemma sample_net_fields:
  "ccs_pending_ack_map sample_net_client = []" "cs_is_connected sample_net_client"
  "cs_subscription_map sample_net_client = [([97, slash, plus_sign], 0)]"
  "topic_of sample_net_client 0 = [97, slash, plus_sign]" "topic_of sample_net_client (Suc 0) = [98]"
  "sub_is_active (cs_subscriptions sample_net_client ! 0)"
  "topics_sendable sample_net_client [0, 1]" "topics_size sample_net_client [0, 1] = 10"
  by (simp_all add: sample_net_simps topic_of_def topics_sendable_def topics_size_def topic_length_def sendable_def
      Utf8String_ok_def is_valid_ascii)


lemma sample_publish_size: "publish_size (utf8_of [97]) QOS1 [1, 2] \<le> MAX_MQTT_PACKET_REM_LEN_BYTES"
  by (simp add: publish_size_def utf8_of_def MAX_MQTT_PACKET_REM_LEN_BYTES_def)

theorem publish_pending_iff_sent_witness:
  "\<exists>rc st' bs. PublishAction_PerformAction (Some script_connection)
      (Some (sample_action (PublishData (PublishPacket_new (utf8_of [97]) False False QOS1 [1, 2])))) sample_net_client
        = Inr (rc, Some (sample_action (PublishData (PublishPacket_new (utf8_of [97]) False False QOS1 [1, 2]))), st') \<and>
    PublishPacket_ToString (PublishPacket_new (utf8_of [97]) False False QOS1 [1, 2]) 5 = Inr bs \<and>
    (if rc = SUCCESS then
       Write_nc script_connection bs 0 (ccs_net sample_net_client) = (SUCCESS, length bs, ccs_net st') \<and>
       map_find (ccs_pending_ack_map st') 5
         = Some \<lparr>pa_time_of_request = ccs_now sample_net_client, pa_async_ack_handler = AppHandler 4\<rparr>
     else map_find (ccs_pending_ack_map st') 5 = None)"
  using publish_pending_iff_sent [OF sample_net_client_ok script_honest sample_publish_size,
      of "sample_action (PublishData (PublishPacket_new (utf8_of [97]) False False QOS1 [1, 2]))" False False "AppHandler 4"]
    sendable_utf8_of [of "[97]"]
  by (simp add: sample_action_def sample_net_fields map_find_def cong: if_cong)

theorem disconnect_deactivates_witness:
  "\<exists>st'. DisconnectAction_PerformAction (Some script_connection) (Some (sample_action (DisconnectData DisconnectPacket_new)))
      sample_net_client = Inr (SUCCESS, Some (sample_action (DisconnectData DisconnectPacket_new)), st') \<and>
    \<not> cs_is_connected st' \<and> cs_subscription_map st' = cs_subscription_map sample_net_client \<and>
    (\<forall>(name, r) \<in> set (cs_subscription_map st'). \<not> sub_is_active (cs_subscriptions st' ! r))"
  by (rule disconnect_deactivates [OF sample_net_client_ok script_honest])
    (simp_all add: sample_net_fields sample_action_def)

definition sample_subscribe :: "nat list \<Rightarrow> SubscribePacket" where
  "sample_subscribe rs = Packet.extend (packet_base MT_SUBSCRIBE False QOS0 False (2 + topics_size sample_net_client rs))
     (SubscribePacket.fields rs)"

lemma sample_subscribe:
  "topics_sendable sample_net_client rs \<Longrightarrow> 2 + topics_size sample_net_client rs < 2 ^ 64 \<Longrightarrow>
   SubscribePacket_new sample_net_client rs = Inr (sample_subscribe rs)"
  by (simp add: SubscribePacket_new_def subscribe_size_sum sample_subscribe_def)


theorem subscribe_dropped_topic_witness:
  "\<exists>rc d' st' bs. SubscribeAction_PerformAction (Some script_connection) (Some (sample_action (SubscribeData (sample_subscribe [0, 1]))))
      sample_net_client = Inr (rc, d', st') \<and>
    (rc = SUCCESS \<longrightarrow>
       Write_nc script_connection bs 0 (ccs_net sample_net_client) = (SUCCESS, length bs, ccs_net st') \<and>
       length bs + topic_length sample_net_client 0 + 3
         = Length_header (header_of (sample_subscribe [0, 1])) + fh_remaining_length (header_of (sample_subscribe [0, 1])) \<and>
       map_find (ccs_pending_ack_map st') (ad_action_id (sample_action (SubscribeData (sample_subscribe [0, 1])))) = None)"
  by (rule subscribe_dropped_topic [OF sample_net_client_ok script_honest sample_net_fields(7) _ _ _ sample_net_fields(6)
        _ _ _ sample_subscribe [OF sample_net_fields(7)]])
    (simp_all add: sample_net_fields [simplified] map_find_def sample_action_def MAX_MQTT_PACKET_REM_LEN_BYTES_def)

theorem connect_outcome_witness:
  "\<exists>bs rc d' st' n k. ConnectPacket_ToString (sample_connect [1]) = Inr bs \<and>
    ConnectAction_PerformAction (Some script_connection) (Some (sample_action (ConnectData (sample_connect [1]))))
      sample_net_client = Inr (rc, d', st') \<and>
    (if rc \<noteq> SUCCESS then
       ccs_net st' = snd (Disconnect_nc script_connection n) \<and> map_find (ccs_pending_ack_map st') CONNACK_RESERVED_PACKET_ID = None
     else
       Write_nc script_connection bs 0 (ccs_net sample_net_client) = (SUCCESS, length bs, ccs_net st') \<and>
       map_find (ccs_pending_ack_map st') CONNACK_RESERVED_PACKET_ID
         = Some \<lparr>pa_time_of_request = ccs_now sample_net_client, pa_async_ack_handler = AppHandler 4\<rparr>)"
proof -
  obtain bs where bs: "ConnectPacket_ToString (sample_connect [1]) = Inr bs"
    "length bs + will_gap (Some (sample_will [1])) = Length_header (header_of (sample_connect [1])) + fh_remaining_length (header_of (sample_connect [1]))"
    using connect_length [OF sample_connect_ok sample_connect, of "[1]"] by auto
  have "fh_remaining_length (header_of (sample_connect [1])) \<le> MAX_MQTT_PACKET_REM_LEN_BYTES"
    using ConnectPacket_new_fields [OF sample_connect_ok, of "[1]" True MQTT_3_1_1 30] sample_connect [of "[1]"]
      packet_base_header [of "connect_size [] (Some (utf8_of [98])) (Some (sample_will [1])) False" MT_CONNECT False QOS0 False]
      sample_connect_ok [of "[1]"] by (auto simp: connect_data_ok_def)
  then have short: "length bs < 2 ^ 31"
    using bs(2) by (simp add: Length_header_def GetRemainingLengthByteCount_def MAX_MQTT_PACKET_REM_LEN_BYTES_def split: if_splits)
  have con: "Connect_nc script_connection (ccs_net sample_net_client) = (SUCCESS, ccs_net sample_net_client)"
    by (simp add: Connect_nc_def script_connection_def sample_net_simps script_def)
  show ?thesis
    using connect_outcome [OF sample_net_client_ok script_honest _ _ bs(1) short _ con,
        of "sample_action (ConnectData (sample_connect [1]))" "AppHandler 4"] bs(1)
    by (simp add: sample_net_fields map_find_def sample_action_def)
qed

end
