(* ===== verification/NetworkRead.thy ===== *)
theory NetworkRead
  imports Actions
begin

text \<open>
  The reader thread (\<^verbatim>\<open>src/mqtt/NetworkRead.cpp\<close>): \<open>NetworkReadActionRunner\<close> cuts the input of the
  connection into packets and hands each to its handler.

  The runner has one member of its own, \<open>is_waiting_for_connack_\<close>, which is passed along. \<open>fuel\<close>
  bounds the iterations of the transfer loop of \<open>Action\<close>; by \<open>Network.read_terminates\<close> the size of
  the largest packet is enough over a connection that makes progress. A callback of the application is
  recorded in the log of events; what it does to the client in turn is not modelled.
\<close>

section \<open>Reading a packet\<close>

definition MAX_NO_OF_REMAINING_LENGTH_BYTES :: nat where
  "MAX_NO_OF_REMAINING_LENGTH_BYTES = 4"

text \<open>
  The \<open>do ... while\<close> loop of \<open>DecodeRemainingLength\<close>. The vector is cleared in every iteration, and
  the condition reads its first byte.
\<close>

function decode_loop ::
  "nat \<Rightarrow> ('n \<Rightarrow> bool) \<Rightarrow> 'n NetworkConnection option \<Rightarrow> nat \<Rightarrow> nat \<Rightarrow> nat \<Rightarrow> 'n \<Rightarrow> (ResponseCode \<times> nat \<times> 'n) res" where
  "decode_loop fuel go p_nc multiplier len rem_len n =
     (let len = len + 1 in
      if len > MAX_NO_OF_REMAINING_LENGTH_BYTES then Inr (FAILURE, rem_len, n)
      else
        bind_res (ReadFromNetworkBuffer fuel go p_nc [] 1 n) (\<lambda>r. case r of (rc, temp_buf, n) \<Rightarrow>
          if rc \<noteq> SUCCESS then Inr (rc, rem_len, n)
          else
            bind_res (vec_index temp_buf 0) (\<lambda>b.
              let rem_len = size_add rem_len (unat (b AND 127) * multiplier) in
              if b AND 128 \<noteq> 0 then decode_loop fuel go p_nc (multiplier * 128) len rem_len n
              else Inr (rc, rem_len, n))))"
  by pat_completeness auto

termination decode_loop
  by (relation "measure (\<lambda>(fuel, go, p_nc, multiplier, len, rem_len, n). MAX_NO_OF_REMAINING_LENGTH_BYTES - len)")
    (auto simp: MAX_NO_OF_REMAINING_LENGTH_BYTES_def)

declare decode_loop.simps [simp del]

definition DecodeRemainingLength ::
  "nat \<Rightarrow> ('n \<Rightarrow> bool) \<Rightarrow> 'n NetworkConnection option \<Rightarrow> 'n \<Rightarrow> (ResponseCode \<times> nat \<times> 'n) res" where
  "DecodeRemainingLength fuel go p_nc n = decode_loop fuel go p_nc 1 0 0 n"

definition ReadPacketFromNetwork ::
  "nat \<Rightarrow> ('n \<Rightarrow> bool) \<Rightarrow> 'n NetworkConnection option \<Rightarrow> u8 \<Rightarrow> 'n \<Rightarrow> (ResponseCode \<times> u8 \<times> bytes \<times> 'n) res" where
  "ReadPacketFromNetwork fuel go p_nc hdr_byte n =
     bind_res (ReadFromNetworkBuffer fuel go p_nc [] 1 n) (\<lambda>(rc, read_buf, n).
       if rc \<noteq> SUCCESS then Inr (rc, hdr_byte, read_buf, n)
       else
         bind_res (vec_index read_buf 0) (\<lambda>hdr_byte.
         bind_res (DecodeRemainingLength fuel go p_nc n) (\<lambda>(rc, rem_len, n).
           if rc \<noteq> SUCCESS then Inr (rc, hdr_byte, [], n)
           else if 0 < rem_len then
             bind_res (ReadFromNetworkBuffer fuel go p_nc [] rem_len n) (\<lambda>(rc, read_buf, n).
               Inr (rc, hdr_byte, read_buf, n))
           else Inr (rc, hdr_byte, [], n))))"

section \<open>The handlers\<close>

datatype ConnackReturnCode =
    CONNECTION_ACCEPTED
  | UNACCEPTABLE_PROTOCOL_VERSION_ERROR
  | IDENTIFIER_REJECTED_ERROR
  | SERVER_UNAVAILABLE_ERROR
  | BAD_USERDATA_ERROR
  | NOT_AUTHORIZED_ERROR

definition ConnackReturnCode_of :: "u8 \<Rightarrow> ConnackReturnCode" where
  "ConnackReturnCode_of b =
     [CONNECTION_ACCEPTED, UNACCEPTABLE_PROTOCOL_VERSION_ERROR, IDENTIFIER_REJECTED_ERROR,
      SERVER_UNAVAILABLE_ERROR, BAD_USERDATA_ERROR, NOT_AUTHORIZED_ERROR] ! unat b"

definition SetSessionPresent :: "bool \<Rightarrow> 'n client \<Rightarrow> 'n client" where
  "SetSessionPresent v st = st\<lparr>cs_is_session_present := v\<rparr>"

definition HandleConnack :: "bytes \<Rightarrow> 'n client \<Rightarrow> (ResponseCode \<times> 'n client) res" where
  "HandleConnack read_buf st =
     (if length read_buf \<noteq> 2 then Inr (MQTT_DECODE_REMAINING_LENGTH_ERROR, st)
      else
        bind_res (vec_at read_buf 0) (\<lambda>b0.
        let st = SetSessionPresent (b0 = 1) st in
        bind_res (vec_at read_buf 1) (\<lambda>connack_rc_byte.
          if connack_rc_byte > 5 then Inr (MQTT_UNEXPECTED_PACKET_FORMAT_ERROR, st)
          else
            (case ConnackReturnCode_of connack_rc_byte of
               CONNECTION_ACCEPTED \<Rightarrow>
                 Inr (SUCCESS, ForwardReceivedAck CONNACK_RESERVED_PACKET_ID MQTT_CONNACK_CONNECTION_ACCEPTED
                                 (SetConnected True st))
             | UNACCEPTABLE_PROTOCOL_VERSION_ERROR \<Rightarrow> Inr (MQTT_CONNACK_UNACCEPTABLE_PROTOCOL_VERSION_ERROR, st)
             | IDENTIFIER_REJECTED_ERROR \<Rightarrow> Inr (MQTT_CONNACK_IDENTIFIER_REJECTED_ERROR, st)
             | SERVER_UNAVAILABLE_ERROR \<Rightarrow> Inr (MQTT_CONNACK_SERVER_UNAVAILABLE_ERROR, st)
             | BAD_USERDATA_ERROR \<Rightarrow> Inr (MQTT_CONNACK_BAD_USERDATA_ERROR, st)
             | NOT_AUTHORIZED_ERROR \<Rightarrow> Inr (MQTT_CONNACK_NOT_AUTHORIZED_ERROR, st)))))"

text \<open>
  The acknowledgement of a received message is queued; the identifier the queue gives it is ignored,
  because PUBACK carries that of the message.
\<close>

definition puback_data :: "u16 \<Rightarrow> action_data" where
  "puback_data packet_id =
     \<lparr>ad_async_ack_handler = None, ad_action_id = 0, ad_payload = PubackData (Create_PubackPacket packet_id)\<rparr>"

definition HandlePublish :: "bytes \<Rightarrow> bool \<Rightarrow> bool \<Rightarrow> QoS \<Rightarrow> 'n client \<Rightarrow> (ResponseCode \<times> 'n client) res" where
  "HandlePublish read_buf is_retained is_duplicate qos st =
     bind_res (Create_PublishPacket_of_buffer read_buf is_retained is_duplicate qos) (\<lambda>p.
     bind_res (deref p) (\<lambda>(p_publish_packet, packet_id).
     bind_res (deref (pub_topic_name p_publish_packet)) (\<lambda>topic.
     let topic_name = ToStdString topic in
     bind_res (GetSubscription topic_name st) (\<lambda>p_sub.
     bind_res (case p_sub of
                 None \<Rightarrow> Inr (MQTT_NO_SUBSCRIPTION_FOUND, st)
               | Some r \<Rightarrow>
                   bind_res (sub_at st r) (\<lambda>s.
                     if sub_is_active s then
                       bind_res (deref (sub_app_handler s)) (\<lambda>h.
                         Inr (SUCCESS, log_event (Ev_Message h topic_name (pub_payload p_publish_packet)
                                                    (sub_app_handler_data s)) st))
                     else Inr (MQTT_SUBSCRIPTION_NOT_ACTIVE, st))) (\<lambda>(rc, st).
       if rc = SUCCESS \<and> qos \<noteq> QOS0 then
         bind_res (read_init packet_id) (\<lambda>packet_id.
         bind_res (EnqueueOutboundAction GetNextPacketId AT_PUBACK (Some (puback_data packet_id)) 0 st)
           (\<lambda>(rc, action_id, d, st). Inr (rc, st)))
       else Inr (rc, st))))))"

definition HandlePuback :: "bytes \<Rightarrow> 'n client \<Rightarrow> (ResponseCode \<times> 'n client) res" where
  "HandlePuback read_buf st =
     bind_res (ReadUInt16FromBuffer read_buf 0) (\<lambda>(packet_id, i).
       Inr (SUCCESS, ForwardReceivedAck packet_id SUCCESS st))"

text \<open>
  The loop over the return codes; the flags are \<open>has_atleast_one_success\<close> and
  \<open>has_atleast_one_failure\<close>, the index a \<open>uint8_t\<close>.
\<close>

fun suback_loop :: "u16 \<Rightarrow> u8 list \<Rightarrow> u8 \<Rightarrow> bool \<Rightarrow> bool \<Rightarrow> 'n client \<Rightarrow> (bool \<times> bool \<times> 'n client) res" where
  "suback_loop packet_id [] itr one_success one_failure st = Inr (one_success, one_failure, st)"
| "suback_loop packet_id (qos # qs) itr one_success one_failure st =
     (if qos = 128 then
        bind_res (RemoveSubscription_packet packet_id (itr + 1) st) (\<lambda>(rc, st).
          suback_loop packet_id qs (itr + 1) one_success True st)
      else if qos = 0 then
        bind_res (SetSubscriptionActive packet_id (itr + 1) QOS0 st) (\<lambda>(rc, st).
          suback_loop packet_id qs (itr + 1) True one_failure st)
      else if qos = 1 then
        bind_res (SetSubscriptionActive packet_id (itr + 1) QOS1 st) (\<lambda>(rc, st).
          suback_loop packet_id qs (itr + 1) True one_failure st)
      else suback_loop packet_id qs (itr + 1) one_success one_failure st)"

definition suback_result :: "bool \<Rightarrow> bool \<Rightarrow> ResponseCode" where
  "suback_result one_success one_failure =
     (if one_success \<and> one_failure then MQTT_SUBSCRIBE_PARTIALLY_FAILED
      else if one_success then SUCCESS
      else MQTT_SUBSCRIBE_FAILED)"

definition HandleSuback :: "bytes \<Rightarrow> 'n client \<Rightarrow> (ResponseCode \<times> 'n client) res" where
  "HandleSuback read_buf st =
     bind_res (Create_SubackPacket read_buf) (\<lambda>p.
     bind_res (deref p) (\<lambda>(p_suback_packet, packet_id).
     bind_res (suback_loop packet_id (suback_list p_suback_packet) 0 False False st)
       (\<lambda>(one_success, one_failure, st).
          let rc = suback_result one_success one_failure
          in Inr (rc, ForwardReceivedAck packet_id rc st))))"

definition HandleUnsuback :: "bytes \<Rightarrow> 'n client \<Rightarrow> (ResponseCode \<times> 'n client) res" where
  "HandleUnsuback read_buf st =
     bind_res (Create_UnsubackPacket read_buf) (\<lambda>p.
     bind_res (deref p) (\<lambda>(p_unsuback_packet, packet_id).
     bind_res (RemoveAllSubscriptionsForPacketId packet_id st) (\<lambda>(rc, st).
       Inr (SUCCESS, ForwardReceivedAck packet_id SUCCESS st))))"

section \<open>The loop of the thread\<close>

text \<open>The \<open>switch\<close> on the message type; \<open>HandlePublish\<close> gets its two flags in the other order.\<close>

definition dispatch_packet :: "u8 \<Rightarrow> bytes \<Rightarrow> 'n client \<Rightarrow> (ResponseCode \<times> 'n client) res" where
  "dispatch_packet hdr_byte read_buf st =
     (case MessageTypes_of (unat (drop_bit 4 hdr_byte)) of
        MT_CONNACK \<Rightarrow> HandleConnack read_buf st
      | MT_PUBLISH \<Rightarrow>
          let is_retained = (hdr_byte AND 0x01 = 0x01);
              is_duplicate = (hdr_byte AND 0x08 = 0x08);
              qos = (if hdr_byte AND 0x02 = 0x02 then QOS1 else QOS0)
          in HandlePublish read_buf is_duplicate is_retained qos st
      | MT_PUBACK \<Rightarrow> HandlePuback read_buf st
      | MT_SUBACK \<Rightarrow> HandleSuback read_buf st
      | MT_UNSUBACK \<Rightarrow> HandleUnsuback read_buf st
      | MT_PINGRESP \<Rightarrow> Inr (SUCCESS, st\<lparr>cs_is_pingreq_pending := False\<rparr>)
      | _ \<Rightarrow> Inr (SUCCESS, st))"

definition disconnect_data :: action_data where
  "disconnect_data =
     \<lparr>ad_async_ack_handler = None, ad_action_id = 0, ad_payload = DisconnectData DisconnectPacket_new\<rparr>"

text \<open>
  A synchronous request of the threads of the client; \<open>runner\<close> stands for the two actions that are not
  performed directly and \<open>wait\<close> for what the other threads do while it waits.
\<close>

definition client_request ::
  "(action_data option \<Rightarrow> 'n client \<Rightarrow> (ResponseCode \<times> action_data option \<times> 'n client) res)
   \<Rightarrow> ('n client \<Rightarrow> 'n client) \<Rightarrow> ActionType \<Rightarrow> action_data option \<Rightarrow> 'n client
   \<Rightarrow> (ResponseCode \<times> action_data option \<times> 'n client) res" where
  "client_request runner wait t d st = PerformAction GetNextPacketId (perform_action runner) wait t d st"

definition SetAutoReconnectRequired :: "bool \<Rightarrow> 'n client \<Rightarrow> 'n client" where
  "SetAutoReconnectRequired v st = st\<lparr>cs_is_auto_reconnect_required := v\<rparr>"

text \<open>One iteration: the result, \<open>is_waiting_for_connack_\<close> and the state.\<close>

definition read_once ::
  "(action_data option \<Rightarrow> 'n client \<Rightarrow> (ResponseCode \<times> action_data option \<times> 'n client) res)
   \<Rightarrow> ('n client \<Rightarrow> 'n client) \<Rightarrow> nat \<Rightarrow> ('n \<Rightarrow> bool) \<Rightarrow> 'n NetworkConnection \<Rightarrow> bool \<Rightarrow> 'n client
   \<Rightarrow> (ResponseCode \<times> bool \<times> 'n client) res" where
  "read_once runner wait fuel go nc is_waiting st =
     bind_res (ReadPacketFromNetwork fuel go (Some nc) 0x00 (ccs_net st)) (\<lambda>(rc, hdr_byte, read_buf, n).
       let st = st\<lparr>ccs_net := n\<rparr> in
       if rc = NETWORK_SSL_NOTHING_TO_READ then Inr (rc, is_waiting, st)
       else if rc = SUCCESS then
         bind_res (dispatch_packet hdr_byte read_buf st) (\<lambda>(rc, st). Inr (rc, is_waiting, st))
       else if \<not> is_waiting then
         if go (ccs_net st) \<and> cs_is_connected st then
           bind_res (client_request runner wait AT_DISCONNECT (Some disconnect_data) st) (\<lambda>(rc, d, st).
             Inr (rc, True, SetAutoReconnectRequired True st))
         else Inr (rc, True, st)
       else Inr (rc, is_waiting, st))"

text \<open>The loop; after each iteration the other threads run (\<open>others\<close>), then the flag of the thread is read.\<close>

fun read_run ::
  "nat \<Rightarrow> (action_data option \<Rightarrow> 'n client \<Rightarrow> (ResponseCode \<times> action_data option \<times> 'n client) res)
   \<Rightarrow> ('n client \<Rightarrow> 'n client) \<Rightarrow> ('n client \<Rightarrow> 'n client) \<Rightarrow> nat \<Rightarrow> ('n \<Rightarrow> bool) \<Rightarrow> 'n NetworkConnection \<Rightarrow> bool \<Rightarrow> 'n client
   \<Rightarrow> (ResponseCode \<times> 'n client) res" where
  "read_run 0 runner wait others fuel go nc is_waiting st = Inl OutOfFuel"
| "read_run (Suc k) runner wait others fuel go nc is_waiting st =
     bind_res (read_once runner wait fuel go nc is_waiting st) (\<lambda>(rc, is_waiting, st).
       let st = others st in
       if go (ccs_net st) then read_run k runner wait others fuel go nc is_waiting st else Inr (rc, st))"

definition NetworkRead_PerformAction ::
  "nat \<Rightarrow> (action_data option \<Rightarrow> 'n client \<Rightarrow> (ResponseCode \<times> action_data option \<times> 'n client) res)
   \<Rightarrow> ('n client \<Rightarrow> 'n client) \<Rightarrow> ('n client \<Rightarrow> 'n client) \<Rightarrow> nat \<Rightarrow> ('n \<Rightarrow> bool) \<Rightarrow> 'n NetworkConnection option \<Rightarrow> 'n client
   \<Rightarrow> (ResponseCode \<times> 'n client) res" where
  "NetworkRead_PerformAction k runner wait others fuel go p_nc st =
     (case p_nc of
        None \<Rightarrow> Inr (NULL_VALUE_ERROR, st)
      | Some nc \<Rightarrow> read_run k runner wait others fuel go nc (\<not> cs_is_connected st) st)"

section \<open>Cutting the input into packets\<close>

lemma unat_and_127: "unat ((x :: u8) AND 127) = unat x mod 128"
proof -
  have "x AND 127 = take_bit 7 x" by (simp add: take_bit_eq_mask mask_numeral)
  moreover have "unat (take_bit 7 x) = take_bit 7 (unat x)" by (rule unsigned_take_bit_eq)
  ultimately show ?thesis by (simp add: take_bit_eq_mod)
qed

lemma and_128_iff: "(x :: u8) AND 128 = 0 \<longleftrightarrow> \<not> bit x 7"
  using and_exp_eq_0_iff_not_bit [of x 7] by simp

lemma last_length_byte:
  assumes "v < 128"
  shows "(of_nat v :: u8) AND 128 = 0 \<and> unat ((of_nat v :: u8) AND 127) = v"
proof -
  have v: "unat (of_nat v :: u8) = v" using assms by (simp add: unat_of_nat_u8)
  have "\<not> bit (of_nat v :: u8) 7"
  proof -
    have "(of_nat v :: u8) div 128 = 0" using assms by (simp add: word_unat_eq_iff unat_div v)
    then show ?thesis by (simp add: bit_iff_odd)
  qed
  then show ?thesis using v assms by (simp add: and_128_iff unat_and_127)
qed

lemma more_length_byte:
  assumes "v < 128"
  shows "((of_nat v :: u8) OR 128) AND 128 \<noteq> 0 \<and> unat (((of_nat v :: u8) OR 128) AND 127) = v"
proof -
  have "((of_nat v :: u8) OR 128) AND 127 = (of_nat v :: u8) AND 127"
    by (simp add: bit.conj_disj_distrib2)
  then show ?thesis
    using last_length_byte [OF assms] by (simp add: and_128_iff bit_or_iff)
qed

text \<open>One byte, then what the encoding says: the number, whatever follows it in the input.\<close>

lemma decode_loop_step:
  assumes "delivers nc ready input" "1 \<le> fuel" "ready n" "input n = b # rest" "len < MAX_NO_OF_REMAINING_LENGTH_BYTES"
    and "acc + unat (b AND 127) * multiplier < 2 ^ 64"
  shows "\<exists>n'. input n' = rest \<and> ready n' \<and>
    decode_loop fuel (\<lambda>_. True) (Some nc) multiplier len acc n =
      (if b AND 128 \<noteq> 0
       then decode_loop fuel (\<lambda>_. True) (Some nc) (multiplier * 128) (len + 1) (acc + unat (b AND 127) * multiplier) n'
       else Inr (SUCCESS, acc + unat (b AND 127) * multiplier, n'))"
proof -
  obtain n' where r: "ReadFromNetworkBuffer fuel (\<lambda>_. True) (Some nc) [] 1 n = Inr (SUCCESS, [b], n')"
    "input n' = rest" "ready n'"
    using ReadFromNetworkBuffer_delivers [OF assms(1) _ _ assms(2,3), of "[]"] assms(4) by (auto simp: read_limit_def)
  then show ?thesis
    using assms(5,6)
    by (intro exI [of _ n']) (subst decode_loop.simps, simp add: Let_def vec_index_def size_add_small)
qed

lemma decode_loop_encoded:
  assumes "delivers nc ready input" "1 \<le> fuel"
  shows "ready n \<Longrightarrow> input n = encode_remaining_length v @ rest \<Longrightarrow>
    len + length (encode_remaining_length v) \<le> MAX_NO_OF_REMAINING_LENGTH_BYTES \<Longrightarrow> acc + v * multiplier < 2 ^ 64 \<Longrightarrow>
    \<exists>n'. decode_loop fuel (\<lambda>_. True) (Some nc) multiplier len acc n = Inr (SUCCESS, acc + v * multiplier, n') \<and>
      input n' = rest \<and> ready n'"
proof (induction v arbitrary: multiplier len acc n rule: less_induct)
  case (less v)
  show ?case
  proof (cases "v < 128")
    case True
    note b = last_length_byte [OF True]
    have input: "input n = of_nat v # rest" using less.prems True by (simp add: encode_remaining_length_small)
    have len: "len < MAX_NO_OF_REMAINING_LENGTH_BYTES" using less.prems True by (simp add: encode_remaining_length_small)
    from decode_loop_step [OF assms less.prems(1) input len, of acc multiplier] b less.prems(4) show ?thesis by auto
  next
    case False
    let ?b = "of_nat (v mod 128) OR 128 :: u8" and ?e = "encode_remaining_length (v div 128)"
    have "v mod 128 < 128" by simp
    note b = more_length_byte [OF this]
    have input: "input n = ?b # ?e @ rest" using less.prems False by (simp add: encode_remaining_length_step)
    have len: "len + 1 + length ?e \<le> MAX_NO_OF_REMAINING_LENGTH_BYTES"
      using less.prems False by (simp add: encode_remaining_length_step)
    have sum: "acc + v mod 128 * multiplier + v div 128 * (multiplier * 128) = acc + v * multiplier"
    proof -
      have "v * multiplier = (v mod 128 + 128 * (v div 128)) * multiplier" by simp
      then show ?thesis by (simp only: distrib_right)
    qed
    then have small: "acc + unat (?b AND 127) * multiplier < 2 ^ 64" using less.prems(4) b by simp
    have lt: "len < MAX_NO_OF_REMAINING_LENGTH_BYTES" using len by simp
    obtain n1 where n1: "input n1 = ?e @ rest" "ready n1"
      "decode_loop fuel (\<lambda>_. True) (Some nc) multiplier len acc n =
         decode_loop fuel (\<lambda>_. True) (Some nc) (multiplier * 128) (len + 1) (acc + v mod 128 * multiplier) n1"
      using decode_loop_step [OF assms less.prems(1) input lt small] b by auto
    from less.IH [of "v div 128" n1 "len + 1" "acc + v mod 128 * multiplier" "multiplier * 128"]
      False n1 len less.prems(4) sum
    show ?thesis by auto
  qed
qed

text \<open>
  A packet in the input: the bytes of its fixed header, then as many as this announces.
\<close>

definition framed :: "PacketFixedHeader \<Rightarrow> bytes \<Rightarrow> bytes \<Rightarrow> bool" where
  "framed h body bs \<longleftrightarrow>
     fh_remaining_length h = length body \<and> length body \<le> MAX_MQTT_PACKET_REM_LEN_BYTES \<and>
     bs = AppendToBuffer_header h [] @ body"

lemma encode_zero: "encode_remaining_length 0 = [0]"
  by (simp add: encode_remaining_length_small)

lemma read_packet_header:
  assumes "delivers nc ready input" "ready n" "framed h body bs" "input n = fh_byte h # encode_remaining_length (length body) @ tail"
    and "1 \<le> fuel"
  shows "\<exists>n2. input n2 = tail \<and> ready n2 \<and>
    ReadPacketFromNetwork fuel (\<lambda>_. True) (Some nc) b0 n =
      (if body = [] then Inr (SUCCESS, fh_byte h, [], n2)
       else bind_res (ReadFromNetworkBuffer fuel (\<lambda>_. True) (Some nc) [] (length body) n2) (\<lambda>(rc, buf, n). Inr (rc, fh_byte h, buf, n)))"
proof -
  let ?e = "encode_remaining_length (length body)"
  have len: "length body \<le> MAX_MQTT_PACKET_REM_LEN_BYTES" using assms(3) by (simp add: framed_def)
  have e4: "0 + length ?e \<le> MAX_NO_OF_REMAINING_LENGTH_BYTES"
    using length_encode_remaining_length [of h] assms(3)
    by (auto simp: framed_def MAX_NO_OF_REMAINING_LENGTH_BYTES_def GetRemainingLengthByteCount_def split: if_splits)
  obtain n1 where n1: "ReadFromNetworkBuffer fuel (\<lambda>_. True) (Some nc) [] 1 n = Inr (SUCCESS, [fh_byte h], n1)"
    "input n1 = ?e @ tail" "ready n1"
    using ReadFromNetworkBuffer_delivers [OF assms(1) _ _ assms(5,2), of "[]"] assms(4) by (auto simp: read_limit_def)
  have big: "length body < 2 ^ 64" using len by (simp add: MAX_MQTT_PACKET_REM_LEN_BYTES_def)
  obtain n2 where n2: "DecodeRemainingLength fuel (\<lambda>_. True) (Some nc) n1 = Inr (SUCCESS, length body, n2)"
    "input n2 = tail" "ready n2"
    using decode_loop_encoded [OF assms(1,5) n1(3,2) e4, of 0 1] big by (auto simp: DecodeRemainingLength_def)
  then show ?thesis using n1(1) by (intro exI [of _ n2]) (simp add: ReadPacketFromNetwork_def vec_index_def)
qed

lemma framed_bytes: "framed h body bs \<Longrightarrow> bs = fh_byte h # encode_remaining_length (length body) @ body"
  by (auto simp: framed_def AppendToBuffer_header_def encode_zero)

lemma ReadPacketFromNetwork_framed:
  assumes "delivers nc ready input" "ready n" "framed h body bs" "input n = bs @ rest"
    and "1 \<le> fuel" "length body \<le> fuel"
  shows "\<exists>n'. ReadPacketFromNetwork fuel (\<lambda>_. True) (Some nc) b0 n = Inr (SUCCESS, fh_byte h, body, n') \<and>
    input n' = rest \<and> ready n'"
proof -
  have input: "input n = fh_byte h # encode_remaining_length (length body) @ (body @ rest)"
    using framed_bytes [OF assms(3)] assms(4) by simp
  obtain n2 where n2: "input n2 = body @ rest" "ready n2"
    "ReadPacketFromNetwork fuel (\<lambda>_. True) (Some nc) b0 n = (if body = [] then Inr (SUCCESS, fh_byte h, [], n2)
       else bind_res (ReadFromNetworkBuffer fuel (\<lambda>_. True) (Some nc) [] (length body) n2) (\<lambda>(rc, buf, n). Inr (rc, fh_byte h, buf, n)))"
    using read_packet_header [OF assms(1-3) input assms(5)] by blast
  show ?thesis
  proof (cases "body = []")
    case True
    with n2 show ?thesis by simp
  next
    case False
    have "length body \<le> read_limit"
      using assms(3) by (simp add: framed_def MAX_MQTT_PACKET_REM_LEN_BYTES_def read_limit_def)
    then obtain n3 where "ReadFromNetworkBuffer fuel (\<lambda>_. True) (Some nc) [] (length body) n2 = Inr (SUCCESS, body, n3)"
      "input n3 = rest" "ready n3"
      using False ReadFromNetworkBuffer_delivers [OF assms(1) _ _ assms(6) n2(2), of "[]"] n2(1) by auto
    with False n2(3) show ?thesis by simp
  qed
qed

section \<open>The invariant\<close>

lemma client_ok_GetNextPacketId [simp]: "client_ok (snd (GetNextPacketId st)) = client_ok st"
  by (simp add: GetNextPacketId_def Let_def)

lemma client_ok_Enqueue:
  "EnqueueOutboundAction GetNextPacketId t d out st = Inr (rc, i, d', st') \<Longrightarrow> client_ok st \<Longrightarrow> client_ok st'"
  by (auto simp: EnqueueOutboundAction_def GetNextPacketId_def Let_def bind_res_Inr_iff split: if_splits)

lemma client_ok_of_subs:
  "client_ok st \<Longrightarrow> subs_ok st' \<Longrightarrow> core_ok st' = core_ok st \<Longrightarrow> client_ok st'"
  by (simp add: client_ok_def)

lemma core_ok_sub_update: "sub_update r f st = Inr st' \<Longrightarrow> core_ok st' = core_ok st"
  by (auto simp: sub_update_def bind_res_Inr_iff core_ok_def)

lemma client_ok_SetSubscriptionActive:
  assumes "SetSubscriptionActive i j q st = Inr (rc, st')" "client_ok st"
  shows "client_ok st'"
proof (rule client_ok_of_subs [OF assms(2)])
  show "subs_ok st'" using assms subs_ok_SetSubscriptionActive by (auto simp: client_ok_def)
  show "core_ok st' = core_ok st"
    using assms(1) by (auto simp: SetSubscriptionActive_def bind_res_Inr_iff split: option.splits
        dest!: core_ok_sub_update)
qed

lemma client_ok_RemoveSubscription_packet:
  assumes "RemoveSubscription_packet i j st = Inr (rc, st')" "client_ok st"
  shows "client_ok st'"
proof (rule client_ok_of_subs [OF assms(2)])
  show "subs_ok st'" using assms subs_ok_RemoveSubscription_packet by (auto simp: client_ok_def)
  show "core_ok st' = core_ok st"
    using assms(1) by (auto simp: RemoveSubscription_packet_def bind_res_Inr_iff core_ok_def split: option.splits)
qed

lemma client_ok_RemoveAll:
  assumes "RemoveAllSubscriptionsForPacketId i st = Inr (rc, st')" "client_ok st"
  shows "client_ok st'"
proof (rule client_ok_of_subs [OF assms(2)])
  show "subs_ok st'" using assms subs_ok_RemoveAll by (auto simp: client_ok_def)
  show "core_ok st' = core_ok st"
    using assms(1) by (auto simp: RemoveAllSubscriptionsForPacketId_def bind_res_Inr_iff core_ok_def)
qed

text \<open>
  A state property that the identifiers and the slot of the synchronous response do not concern: then
  a synchronous request keeps it, if the other threads do.
\<close>

locale request_property = state_property I for I :: "'n client \<Rightarrow> bool" +
  assumes keeps_response [simp]: "I (st\<lparr>ccs_sync_action_response := w\<rparr>) = I st"
    and keeps_GetNextPacketId: "I (snd (GetNextPacketId st)) = I st"
begin

lemma keeps_client_request:
  assumes "client_request runner wait t d st = Inr (rc, d', st')" "I st"
    and "\<And>d st rc d' st'. runner d st = Inr (rc, d', st') \<Longrightarrow> I st \<Longrightarrow> I st'" "\<And>st. I st \<Longrightarrow> I (wait st)"
  shows "I st'"
proof (cases "map_find (ccs_action_map st) t")
  case None
  then show ?thesis using assms(1,2) by (simp add: client_request_def PerformAction_def)
next
  case (Some a)
  let ?st1 = "st\<lparr>ccs_sync_action_response := Some MQTT_REQUEST_TIMEOUT_ERROR\<rparr>"
  obtain i st2 where id: "GetNextPacketId ?st1 = (i, st2)" by force
  have ok2: "I st2" using keeps_GetNextPacketId [of ?st1] assms(2) id by simp
  obtain x where x: "d = Some x"
    using assms(1) Some by (cases d) (simp_all add: client_request_def PerformAction_def Let_def)
  obtain rc1 d1 st3 where p: "perform_action runner a (x\<lparr>ad_async_ack_handler := Some SyncHandler, ad_action_id := i\<rparr>) st2
      = Inr (rc1, d1, st3)"
    using assms(1) Some id x by (auto simp: client_request_def PerformAction_def Let_def bind_res_Inr_iff)
  have ok3: "I st3" using keeps_perform_action [OF p ok2] assms(3) by metis
  with assms(4) have "I (wait st3)" by blast
  with ok3 show ?thesis
    using assms(1) Some id x p
    by (auto simp: client_request_def PerformAction_def Let_def bind_res_Inr_iff split: if_splits)
qed

end

definition keeps :: "('n client \<Rightarrow> bool) \<Rightarrow> ('n client \<Rightarrow> 'n client) \<Rightarrow> bool" where
  "keeps I f \<longleftrightarrow> (\<forall>st. I st \<longrightarrow> I (f st))"

definition runner_keeps ::
  "('n client \<Rightarrow> bool) \<Rightarrow> (action_data option \<Rightarrow> 'n client \<Rightarrow> (ResponseCode \<times> action_data option \<times> 'n client) res) \<Rightarrow> bool" where
  "runner_keeps I runner \<longleftrightarrow>
     (\<forall>d st rc d' st'. runner d st = Inr (rc, d', st') \<longrightarrow> I st \<longrightarrow> I st')"

text \<open>
  A state property that the reader and the keep-alive thread keep as well, once it is kept by what their
  packet handlers do to the state. \<open>keeps\<close> and \<open>runner_keeps\<close> ask the same of the other threads.
\<close>

locale thread_property = request_property I for I :: "'n client \<Rightarrow> bool" +
  assumes keeps_session [simp]: "I (st\<lparr>cs_is_session_present := sp\<rparr>) = I st"
    and keeps_connected [simp]: "I (SetConnected True st) = I st"
    and keeps_pingreq [simp]: "I (st\<lparr>cs_is_pingreq_pending := pp\<rparr>) = I st"
    and keeps_required [simp]: "I (st\<lparr>cs_is_auto_reconnect_required := ar\<rparr>) = I st"
    and keeps_log_event [simp]: "I (log_event e st) = I st"
    and keeps_ForwardReceivedAck: "I st \<Longrightarrow> I (ForwardReceivedAck i rc st)"
    and keeps_SetSubscriptionActive: "SetSubscriptionActive i j q st = Inr (rc, st') \<Longrightarrow> I st \<Longrightarrow> I st'"
    and keeps_RemoveSubscription_packet: "RemoveSubscription_packet i j st = Inr (rc, st') \<Longrightarrow> I st \<Longrightarrow> I st'"
    and keeps_RemoveAll: "RemoveAllSubscriptionsForPacketId i st = Inr (rc, st') \<Longrightarrow> I st \<Longrightarrow> I st'"
    and keeps_puback: "EnqueueOutboundAction GetNextPacketId AT_PUBACK (Some (puback_data i)) 0 st = Inr (rc, a, d, st') \<Longrightarrow>
      I st \<Longrightarrow> I st'"
begin

lemma keeps_suback_loop: "suback_loop i qs itr a b st = Inr (a', b', st') \<Longrightarrow> I st \<Longrightarrow> I st'"
proof (induction qs arbitrary: itr a b st)
  case (Cons q qs)
  from Cons.prems show ?case
    by (auto simp: bind_res_Inr_iff split: if_splits
        dest: Cons.IH keeps_SetSubscriptionActive keeps_RemoveSubscription_packet)
qed simp

lemma keeps_HandleConnack: "HandleConnack buf st = Inr (rc, st') \<Longrightarrow> I st \<Longrightarrow> I st'"
  by (auto simp: HandleConnack_def bind_res_Inr_iff Let_def SetSessionPresent_def keeps_ForwardReceivedAck
      split: if_splits ConnackReturnCode.splits)

lemma keeps_HandlePublish: "HandlePublish buf ret dup qos st = Inr (rc, st') \<Longrightarrow> I st \<Longrightarrow> I st'"
  by (auto simp: HandlePublish_def bind_res_Inr_iff Let_def case_prod_unfold split: if_splits option.splits
      dest!: keeps_puback)

lemma keeps_HandlePuback: "HandlePuback buf st = Inr (rc, st') \<Longrightarrow> I st \<Longrightarrow> I st'"
  by (auto simp: HandlePuback_def bind_res_Inr_iff keeps_ForwardReceivedAck)

lemma keeps_HandleSuback: "HandleSuback buf st = Inr (rc, st') \<Longrightarrow> I st \<Longrightarrow> I st'"
  by (auto simp: HandleSuback_def bind_res_Inr_iff Let_def intro!: keeps_ForwardReceivedAck dest: keeps_suback_loop)

lemma keeps_HandleUnsuback: "HandleUnsuback buf st = Inr (rc, st') \<Longrightarrow> I st \<Longrightarrow> I st'"
  by (auto simp: HandleUnsuback_def bind_res_Inr_iff intro!: keeps_ForwardReceivedAck dest: keeps_RemoveAll)

lemmas keeps_handlers =
  keeps_HandleConnack keeps_HandlePublish keeps_HandlePuback keeps_HandleSuback keeps_HandleUnsuback

lemma keeps_dispatch: "dispatch_packet b buf st = Inr (rc, st') \<Longrightarrow> I st \<Longrightarrow> I st'"
  unfolding dispatch_packet_def Let_def
  by (auto split: MessageTypes.splits dest: keeps_handlers)

lemma keeps_SetAutoReconnectRequired [simp]: "I (SetAutoReconnectRequired v st) = I st"
  by (simp add: SetAutoReconnectRequired_def)

lemma keeps_request:
  "client_request runner wait t d st = Inr (rc, d', st') \<Longrightarrow> I st \<Longrightarrow> runner_keeps I runner \<Longrightarrow> keeps I wait \<Longrightarrow> I st'"
  by (erule keeps_client_request) (auto simp: runner_keeps_def keeps_def)

lemma keeps_read_once:
  assumes "read_once runner wait fuel go nc w st = Inr (rc, w', st')" "I st" "runner_keeps I runner" "keeps I wait"
  shows "I st'"
proof -
  obtain rc0 b buf n where r: "ReadPacketFromNetwork fuel go (Some nc) 0 (ccs_net st) = Inr (rc0, b, buf, n)"
    using assms(1) by (auto simp: read_once_def bind_res_Inr_iff)
  have ok: "I (st\<lparr>ccs_net := n\<rparr>)" using assms(2) by simp
  show ?thesis
    using assms(1) r ok
    by (auto simp: read_once_def Let_def bind_res_Inr_iff split: if_splits
        dest: keeps_dispatch [OF _ ok] keeps_request [OF _ ok assms(3,4)])
qed

lemma keeps_read_run:
  "read_run k runner wait others fuel go nc w st = Inr (rc, st') \<Longrightarrow> I st \<Longrightarrow> runner_keeps I runner \<Longrightarrow>
   keeps I wait \<Longrightarrow> keeps I others \<Longrightarrow> I st'"
proof (induction k arbitrary: w st)
  case (Suc k)
  then obtain rc1 w1 st1 where r: "read_once runner wait fuel go nc w st = Inr (rc1, w1, st1)"
    and rest: "(if go (ccs_net (others st1)) then read_run k runner wait others fuel go nc w1 (others st1)
       else Inr (rc1, others st1)) = Inr (rc, st')"
    by (auto simp: bind_res_Inr_iff Let_def)
  have "I (others st1)"
    using keeps_read_once [OF r] Suc.prems by (auto simp: keeps_def)
  with rest Suc show ?case by (auto split: if_splits)
qed simp

end

interpretation ok_thread: thread_property client_ok
  by unfold_locales (simp_all add: client_ok_ForwardReceivedAck client_ok_SetSubscriptionActive
      client_ok_RemoveSubscription_packet client_ok_RemoveAll client_ok_Enqueue)

section \<open>Properties\<close>

text \<open>C10: over a connection that delivers its input, the reader takes exactly one packet: the first byte of
  its header, its body, whatever the length up to the maximum, and the rest of the input stays unread.\<close>

theorem packet_framing:
  assumes "delivers nc ready input" "ready n" "framed h body bs" "input n = bs @ rest"
    and "1 \<le> fuel" "length body \<le> fuel"
  shows "\<exists>n'. ReadPacketFromNetwork fuel (\<lambda>_. True) (Some nc) b0 n = Inr (SUCCESS, fh_byte h, body, n') \<and>
    input n' = rest \<and> ready n'"
  using assms by (rule ReadPacketFromNetwork_framed)

lemma decode_loop_bound:
  "decode_loop fuel go p_nc multiplier len rem_len n = Inr (rc, l, n') \<Longrightarrow>
   multiplier = 128 ^ len \<Longrightarrow> len \<le> 4 \<Longrightarrow> rem_len < 128 ^ len \<Longrightarrow> l < 128 ^ 4"
proof (induction fuel go p_nc multiplier len rem_len n rule: decode_loop.induct)
  case (1 fuel go p_nc multiplier len rem_len n)
  show ?case
  proof (cases "len + 1 > MAX_NO_OF_REMAINING_LENGTH_BYTES")
    case True
    then have "l = rem_len" using "1.prems"(1) by (simp add: decode_loop.simps Let_def)
    moreover have "len = 4" using True "1.prems"(3) by (simp add: MAX_NO_OF_REMAINING_LENGTH_BYTES_def)
    ultimately show ?thesis using "1.prems"(4) by simp
  next
    case False
    then have len: "len + 1 \<le> 4" by (simp add: MAX_NO_OF_REMAINING_LENGTH_BYTES_def)
    obtain rc1 buf n1 where r: "ReadFromNetworkBuffer fuel go p_nc [] 1 n = Inr (rc1, buf, n1)"
      using "1.prems"(1) False by (auto simp: decode_loop.simps [of fuel] Let_def bind_res_Inr_iff)
    have up: "(128 :: nat) ^ len \<le> 128 ^ 4" using len by (intro power_increasing) simp_all
    show ?thesis
    proof (cases "rc1 = SUCCESS")
      case fail: False
      then have "l = rem_len" using "1.prems"(1) False r by (simp add: decode_loop.simps [of fuel] Let_def)
      then show ?thesis using "1.prems"(4) up by simp
    next
      case ok: True
      obtain b where b: "vec_index buf 0 = Inr b"
        using "1.prems"(1) False r ok by (auto simp: decode_loop.simps [of fuel] Let_def bind_res_Inr_iff)
      let ?rem = "size_add rem_len (unat (b AND 127) * multiplier)"
      have digit: "unat (b AND 127) \<le> 127" unfolding unat_and_127 by simp
      have "unat (b AND 127) * multiplier \<le> 127 * 128 ^ len" unfolding "1.prems"(2) by (rule mult_right_mono [OF digit]) simp
      then have rem: "rem_len + unat (b AND 127) * multiplier < 128 ^ (len + 1)" using "1.prems"(4) by simp
      have "(128 :: nat) ^ (len + 1) \<le> 128 ^ 4" using len by (intro power_increasing) simp_all
      then have small: "?rem = rem_len + unat (b AND 127) * multiplier"
        using rem by (intro size_add_small) simp
      have bound: "?rem < 128 ^ (len + 1)" using rem small by simp
      show ?thesis
      proof (cases "b AND 128 = 0")
        case True
        then have "l = ?rem" using "1.prems"(1) False r ok b by (simp add: decode_loop.simps [of fuel] Let_def)
        then show ?thesis using bound \<open>(128 :: nat) ^ (len + 1) \<le> 128 ^ 4\<close> by simp
      next
        case more: False
        then have loop: "decode_loop fuel go p_nc (multiplier * 128) (len + 1) ?rem n1 = Inr (rc, l, n')"
          using "1.prems"(1) False r ok b by (simp add: decode_loop.simps [of fuel _ _ multiplier] Let_def)
        show ?thesis
          using "1.IH" [OF refl False r refl refl _ b refl more loop] ok "1.prems"(2) len bound by simp
      qed
    qed
  qed
qed

text \<open>C35: whatever the connection delivers, a decoded remaining length is at most the maximum of the
  protocol, so the body that is read next has a bounded size.\<close>

theorem decoded_length_bounded:
  assumes "DecodeRemainingLength fuel go p_nc n = Inr (rc, l, n')"
  shows "l \<le> MAX_MQTT_PACKET_REM_LEN_BYTES"
  using decode_loop_bound [of fuel go p_nc 1 0 0 n rc l n'] assms
  by (simp add: DecodeRemainingLength_def MAX_MQTT_PACKET_REM_LEN_BYTES_def)

lemma HandleConnack_refusal:
  assumes "c \<noteq> 0"
  shows "\<exists>rc. HandleConnack [s, c] st = Inr (rc, SetSessionPresent (s = 1) st) \<and> rc \<noteq> SUCCESS"
proof (cases "c > 5")
  case True
  then show ?thesis by (simp add: HandleConnack_def vec_at_def)
next
  case False
  then have "unat c \<le> 5" by (simp add: word_le_nat_alt not_less)
  moreover have "unat c \<noteq> 0" using assms by (simp add: unat_eq_0)
  ultimately consider "unat c = 1" | "unat c = 2" | "unat c = 3" | "unat c = 4" | "unat c = 5" by linarith
  then show ?thesis
    using False by cases (simp_all add: HandleConnack_def vec_at_def Let_def ConnackReturnCode_of_def)
qed

lemma required_ForwardReceivedAck [simp]:
  "cs_is_auto_reconnect_required (ForwardReceivedAck i rc st) = cs_is_auto_reconnect_required st"
  by (simp add: ForwardReceivedAck_def Let_def run_ack_handler_def SyncActionHandler_def log_event_def
      split: option.split ack_handler.split)

lemma required_SetSubscriptionActive:
  "SetSubscriptionActive i j q st = Inr (rc, st') \<Longrightarrow>
   cs_is_auto_reconnect_required st' = cs_is_auto_reconnect_required st"
  by (auto simp: SetSubscriptionActive_def sub_update_def bind_res_Inr_iff split: option.splits)

lemma required_RemoveSubscription_packet:
  "RemoveSubscription_packet i j st = Inr (rc, st') \<Longrightarrow>
   cs_is_auto_reconnect_required st' = cs_is_auto_reconnect_required st"
  by (auto simp: RemoveSubscription_packet_def bind_res_Inr_iff split: option.splits)

lemma required_suback_loop:
  "suback_loop i qs itr a b st = Inr (a', b', st') \<Longrightarrow>
   cs_is_auto_reconnect_required st' = cs_is_auto_reconnect_required st"
proof (induction qs arbitrary: itr a b st)
  case (Cons q qs)
  from Cons.prems show ?case
    by (auto simp: bind_res_Inr_iff split: if_splits
        dest!: Cons.IH required_SetSubscriptionActive required_RemoveSubscription_packet)
qed simp

lemma required_Enqueue:
  "EnqueueOutboundAction GetNextPacketId t d out st = Inr (rc, i, d', st') \<Longrightarrow>
   cs_is_auto_reconnect_required st' = cs_is_auto_reconnect_required st"
  by (auto simp: EnqueueOutboundAction_def GetNextPacketId_def Let_def bind_res_Inr_iff split: if_splits)

lemma required_log_event [simp]:
  "cs_is_auto_reconnect_required (log_event e st) = cs_is_auto_reconnect_required st"
  by (simp add: log_event_def)

lemma required_HandlePublish:
  "HandlePublish buf ret dup qos st = Inr (rc, st') \<Longrightarrow>
   cs_is_auto_reconnect_required st' = cs_is_auto_reconnect_required st"
  by (auto simp: HandlePublish_def bind_res_Inr_iff Let_def case_prod_unfold split: if_splits option.splits
      dest!: required_Enqueue)

lemma dispatch_not_required:
  assumes "dispatch_packet b buf st = Inr (rc, st')" "\<not> cs_is_auto_reconnect_required st"
  shows "\<not> cs_is_auto_reconnect_required st'"
proof -
  have connack: "\<not> cs_is_auto_reconnect_required st'" if "HandleConnack buf st = Inr (rc, st')"
    using that assms(2)
    by (auto simp: HandleConnack_def bind_res_Inr_iff Let_def SetSessionPresent_def SetConnected_def
        SetProcessQueuedActions_def split: if_splits ConnackReturnCode.splits)
  have other: "\<not> cs_is_auto_reconnect_required st'" if "HandlePuback buf st = Inr (rc, st') \<or>
      HandleSuback buf st = Inr (rc, st') \<or> HandleUnsuback buf st = Inr (rc, st')"
    using that assms(2)
    by (auto simp: HandlePuback_def HandleSuback_def HandleUnsuback_def RemoveAllSubscriptionsForPacketId_def
        bind_res_Inr_iff Let_def dest!: required_suback_loop)
  show ?thesis
    using assms connack other
    by (cases "MessageTypes_of (unat (drop_bit 4 b))")
      (auto simp: dispatch_packet_def Let_def dest: required_HandlePublish)
qed

lemma read_once_waiting:
  assumes "read_once runner wait fuel go nc True st = Inr (rc, w, st')" "\<not> cs_is_auto_reconnect_required st"
  shows "w \<and> \<not> cs_is_auto_reconnect_required st'"
proof -
  obtain rc0 b buf n where r: "ReadPacketFromNetwork fuel go (Some nc) 0 (ccs_net st) = Inr (rc0, b, buf, n)"
    using assms(1) by (auto simp: read_once_def bind_res_Inr_iff)
  have "\<not> cs_is_auto_reconnect_required (st\<lparr>ccs_net := n\<rparr>)" using assms(2) by simp
  then show ?thesis
    using assms(1) r by (auto simp: read_once_def Let_def bind_res_Inr_iff split: if_splits dest: dispatch_not_required)
qed

definition never_requires :: "('n client \<Rightarrow> 'n client) \<Rightarrow> bool" where
  "never_requires f \<longleftrightarrow> (\<forall>st. \<not> cs_is_auto_reconnect_required st \<longrightarrow> \<not> cs_is_auto_reconnect_required (f st))"

lemma read_run_waiting:
  "read_run k runner wait others fuel go nc True st = Inr (rc, st') \<Longrightarrow> \<not> cs_is_auto_reconnect_required st \<Longrightarrow>
   never_requires others \<Longrightarrow> \<not> cs_is_auto_reconnect_required st'"
proof (induction k arbitrary: st)
  case (Suc k)
  then obtain rc1 w1 st1 where r: "read_once runner wait fuel go nc True st = Inr (rc1, w1, st1)"
    and rest: "(if go (ccs_net (others st1)) then read_run k runner wait others fuel go nc w1 (others st1)
       else Inr (rc1, others st1)) = Inr (rc, st')"
    by (auto simp: bind_res_Inr_iff Let_def)
  have w1 and "\<not> cs_is_auto_reconnect_required (others st1)"
    using read_once_waiting [OF r Suc.prems(2)] Suc.prems(3) by (auto simp: never_requires_def)
  with rest Suc show ?case by (auto split: if_splits)
qed simp

text \<open>a reader that is started while the client is not connected, as \<open>MqttClient::Connect\<close> starts it,
  never asks for a reconnect, whatever the connection returns later: the CONNACK does not reset
  \<open>is_waiting_for_connack_\<close>.\<close>

theorem reader_never_requests_reconnect:
  assumes "NetworkRead_PerformAction k runner wait others fuel go p_nc st = Inr (rc, st')"
    and "\<not> cs_is_connected st" "\<not> cs_is_auto_reconnect_required st" "never_requires others"
  shows "\<not> cs_is_auto_reconnect_required st'"
  using assms by (auto simp: NetworkRead_PerformAction_def split: option.splits dest: read_run_waiting)

text \<open>the reader keeps the client's state well formed over any connection and any input, if the other
  threads do.\<close>

theorem reader_keeps_client_ok:
  assumes "NetworkRead_PerformAction k runner wait others fuel go p_nc st = Inr (rc, st')" "client_ok st"
    and "runner_keeps client_ok runner" "keeps client_ok wait" "keeps client_ok others"
  shows "client_ok st'"
  using assms by (auto simp: NetworkRead_PerformAction_def split: option.splits dest: ok_thread.keeps_read_run)

text \<open>a PUBLISH packet with fewer than three bytes after its header makes the reader dereference a null
  pointer.\<close>

theorem short_publish_faults:
  assumes "delivers nc ready input" "ready (ccs_net st)" "framed h body bs" "input (ccs_net st) = bs @ rest"
    and "1 \<le> fuel" "length body \<le> fuel" "MessageTypes_of (unat (drop_bit 4 (fh_byte h))) = MT_PUBLISH" "length body < 3"
  shows "read_once runner wait fuel (\<lambda>_. True) nc w st = Inl NullPointer"
  using ReadPacketFromNetwork_framed [OF assms(1-6), of 0] assms(7,8)
  by (auto simp: read_once_def dispatch_packet_def HandlePublish_def Create_PublishPacket_of_buffer_def Let_def)

section \<open>Delivery of a message\<close>

lemma publish_header_flags:
  "fixed_header_byte MT_PUBLISH dup qos ret = Some b \<Longrightarrow>
   MessageTypes_of (unat (drop_bit 4 b)) = MT_PUBLISH \<and> (b AND 2 = 2 \<longleftrightarrow> qos = QOS1)"
  by (cases dup; cases qos; cases ret) (auto simp: MessageTypes_of_def)

lemma publish_framed:
  assumes "sendable topic" "publish_size topic qos payload \<le> MAX_MQTT_PACKET_REM_LEN_BYTES"
    and "PublishPacket_ToString (PublishPacket_new topic ret dup qos payload) i = Inr bs"
  shows "framed (header_of (PublishPacket_new topic ret dup qos payload)) (publish_body topic qos payload i) bs \<and>
    fixed_header_byte MT_PUBLISH dup qos ret = Some (fh_byte (header_of (PublishPacket_new topic ret dup qos payload)))"
  using assms(2,3) publish_bytes [OF assms(2), of ret dup i] packet_base_header [OF assms(2), of MT_PUBLISH dup qos ret]
    length_publish_body [OF assms(1), of qos payload i]
  by (simp add: framed_def publish_base(1) [OF assms(2)])

lemma HandlePublish_body:
  assumes "client_ok st" "sendable topic" "publish_size topic qos payload \<le> MAX_MQTT_PACKET_REM_LEN_BYTES"
    and "GetSubscription (utf8_data topic) st = Inr (Some r)" "r < length (cs_subscriptions st)"
    and "sub_is_active (cs_subscriptions st ! r)" "sub_app_handler (cs_subscriptions st ! r) = Some h"
    and "length (ccs_outbound_action_queue st) < ccs_max_queue_size st"
  shows "\<exists>st'. HandlePublish (publish_body topic qos payload i) ret dup qos st = Inr (SUCCESS, st') \<and>
    ccs_net st' = ccs_net st \<and>
    ccs_events st' = ccs_events st @
      [Ev_Message h (utf8_data topic) payload (sub_app_handler_data (cs_subscriptions st ! r))] \<and>
    (\<exists>d. ccs_outbound_action_queue st' = ccs_outbound_action_queue st @ (if qos = QOS0 then [] else [(AT_PUBACK, d)]) \<and>
      ad_payload d = PubackData (PubackPacket_new i))"
proof -
  obtain p where p: "PublishPacket_of_buffer (publish_body topic qos payload i) ret dup qos
      = Inr (p, if qos = QOS0 then None else Some i)"
    "pub_topic_name p = Some topic" "pub_payload p = payload"
    using publish_of_body [OF assms(2,3)] by blast
  have "3 \<le> length (publish_body topic qos payload i)"
    using assms(2) by (simp add: length_publish_body publish_size_def sendable_def)
  then have c: "Create_PublishPacket_of_buffer (publish_body topic qos payload i) ret dup qos
      = Inr (Some (p, if qos = QOS0 then None else Some i))"
    using p(1) by (simp add: Create_PublishPacket_of_buffer_def)
  have ex: "\<exists>d :: action_data. ad_payload d = PubackData (PubackPacket_new i)"
    by (rule exI [of _ "puback_data i"]) (simp add: puback_data_def Create_PubackPacket_def)
  show ?thesis
    using assms(5-8) c
    by (cases qos) (simp_all add: HandlePublish_def assms(4) Let_def sub_at_in log_event_def EnqueueOutboundAction_def
        GetNextPacketId_def puback_data_def Create_PubackPacket_def p(2,3) ex)
qed

lemma publish_arrives:
  assumes "client_ok st" "delivers nc ready input" "ready (ccs_net st)"
    and "sendable topic" "publish_size topic QOS1 payload \<le> MAX_MQTT_PACKET_REM_LEN_BYTES"
    and "publish_size topic QOS1 payload \<le> fuel"
    and "PublishPacket_ToString (PublishPacket_new topic ret dup QOS1 payload) i = Inr bs"
    and "input (ccs_net st) = bs @ rest"
    and "0 \<notin> set (utf8_data topic)" "\<forall>(name, r) \<in> set (cs_subscription_map st). plain_filter name"
    and "find (\<lambda>(name, r). covers name (utf8_data topic)) (cs_subscription_map st) = Some (name, r)"
    and "sub_is_active (cs_subscriptions st ! r)" "sub_app_handler (cs_subscriptions st ! r) = Some h"
    and "length (ccs_outbound_action_queue st) < ccs_max_queue_size st"
  shows "\<exists>st' d. read_once runner wait fuel (\<lambda>_. True) nc w st = Inr (SUCCESS, w, st') \<and>
    input (ccs_net st') = rest \<and>
    ccs_events st' = ccs_events st @
      [Ev_Message h (utf8_data topic) payload (sub_app_handler_data (cs_subscriptions st ! r))] \<and>
    ccs_outbound_action_queue st' = ccs_outbound_action_queue st @ [(AT_PUBACK, d)] \<and>
    ad_payload d = PubackData (PubackPacket_new i)"
proof -
  let ?p = "PublishPacket_new topic ret dup QOS1 payload" and ?body = "publish_body topic QOS1 payload i"
  note fr = publish_framed [OF assms(4,5,7)]
  have fuel: "length ?body \<le> fuel" "1 \<le> fuel"
    using assms(6) by (simp_all add: length_publish_body [OF assms(4)] publish_size_def)
  obtain n where n: "ReadPacketFromNetwork fuel (\<lambda>_. True) (Some nc) 0 (ccs_net st)
      = Inr (SUCCESS, fh_byte (header_of ?p), ?body, n)" "input n = rest"
    using ReadPacketFromNetwork_framed [OF assms(2,3) conjunct1 [OF fr] assms(8) fuel(2,1)] by blast
  let ?st = "st\<lparr>ccs_net := n\<rparr>"
  have subs: "subs_ok ?st" using assms(1) by (simp add: client_ok_def subs_ok_def)
  have get: "GetSubscription (utf8_data topic) ?st = Inr (Some r)"
    unfolding GetSubscription_def using find_matching_covers [OF subs assms(9) subset_refl] assms(10,11) by simp
  have "(name, r) \<in> set (cs_subscription_map st)" using assms(11) by (auto simp: find_Some_iff) (metis nth_mem)
  then have r: "r < length (cs_subscriptions ?st)" using subs_ok_entry [OF subs] by auto
  have ok: "client_ok ?st" using assms(1) by simp
  have act: "sub_is_active (cs_subscriptions ?st ! r)" "sub_app_handler (cs_subscriptions ?st ! r) = Some h"
    "length (ccs_outbound_action_queue ?st) < ccs_max_queue_size ?st"
    using assms(12-14) by simp_all
  obtain st' d where h: "HandlePublish ?body (fh_byte (header_of ?p) AND 8 = 8) (fh_byte (header_of ?p) AND 1 = 1) QOS1 ?st
      = Inr (SUCCESS, st')" "ccs_net st' = n"
    "ccs_events st' = ccs_events st @ [Ev_Message h (utf8_data topic) payload (sub_app_handler_data (cs_subscriptions st ! r))]"
    "ccs_outbound_action_queue st' = ccs_outbound_action_queue st @ [(AT_PUBACK, d)]"
    "ad_payload d = PubackData (PubackPacket_new i)"
    using HandlePublish_body [OF ok assms(4,5) get r act, of i "fh_byte (header_of ?p) AND 8 = 8"
        "fh_byte (header_of ?p) AND 1 = 1"] by auto
  have "dispatch_packet (fh_byte (header_of ?p)) ?body ?st = Inr (SUCCESS, st')"
    using publish_header_flags [OF conjunct2 [OF fr]] h(1) by (simp add: dispatch_packet_def Let_def)
  then have "read_once runner wait fuel (\<lambda>_. True) nc w st = Inr (SUCCESS, w, st')"
    using n(1) by (simp add: read_once_def Let_def)
  with h n(2) show ?thesis by blast
qed

text \<open>C1: when the bytes of a QoS 1 PUBLISH packet arrive, one iteration of the reader hands its topic and
  payload, once, to the callback of the first filter that covers the topic, queues a PUBACK with the
  packet's own identifier, and leaves the rest of the input unread.\<close>

theorem publish_delivered:
  assumes "client_ok st" "delivers nc ready input" "ready (ccs_net st)"
    and "sendable topic" "publish_size topic QOS1 payload \<le> MAX_MQTT_PACKET_REM_LEN_BYTES"
    and "publish_size topic QOS1 payload \<le> fuel"
    and "PublishPacket_ToString (PublishPacket_new topic ret dup QOS1 payload) i = Inr bs"
    and "input (ccs_net st) = bs @ rest"
    and "0 \<notin> set (utf8_data topic)" "\<forall>(name, r) \<in> set (cs_subscription_map st). plain_filter name"
    and "find (\<lambda>(name, r). covers name (utf8_data topic)) (cs_subscription_map st) = Some (name, r)"
    and "sub_is_active (cs_subscriptions st ! r)" "sub_app_handler (cs_subscriptions st ! r) = Some h"
    and "length (ccs_outbound_action_queue st) < ccs_max_queue_size st"
  shows "\<exists>st' d. read_once runner wait fuel (\<lambda>_. True) nc w st = Inr (SUCCESS, w, st') \<and>
    input (ccs_net st') = rest \<and>
    ccs_events st' = ccs_events st @
      [Ev_Message h (utf8_data topic) payload (sub_app_handler_data (cs_subscriptions st ! r))] \<and>
    ccs_outbound_action_queue st' = ccs_outbound_action_queue st @ [(AT_PUBACK, d)] \<and>
    ad_payload d = PubackData (PubackPacket_new i)"
  using assms by (rule publish_arrives)

section \<open>A refused connection\<close>

text \<open>What the reader does while the request waits: it handles a CONNACK with a return code.\<close>

definition connack_arrives :: "u8 \<Rightarrow> u8 \<Rightarrow> 'n client \<Rightarrow> 'n client" where
  "connack_arrives s c st = (case HandleConnack [s, c] st of Inr (rc, st') \<Rightarrow> st' | Inl e \<Rightarrow> st)"

lemma connack_arrives_refusal: "c \<noteq> 0 \<Longrightarrow> connack_arrives s c st = SetSessionPresent (s = 1) st"
  using HandleConnack_refusal [of c s st] by (auto simp: connack_arrives_def)

lemma connect_request_sent:
  assumes "core_ok st" "ad_payload d = ConnectData p" "ad_async_ack_handler d = Some h" "ConnectPacket_ToString p = Inr bs"
    and "Connect_nc nc (ccs_net st) = (SUCCESS, n0)" "Write_nc nc bs 0 n0 = (SUCCESS, length bs, n1)"
    and "bs \<noteq> []" "length bs < 2 ^ 64"
  shows "\<exists>a. ConnectAction_PerformAction (Some nc) (Some d) st =
      Inr (SUCCESS, Some (d\<lparr>ad_action_id := CONNACK_RESERVED_PACKET_ID\<rparr>),
           st\<lparr>cs_connect_data := Some (d\<lparr>ad_action_id := CONNACK_RESERVED_PACKET_ID\<rparr>), ccs_pending_ack_map := a,
             cs_keep_alive_timeout := Some (con_keep_alive_timeout p), ccs_net := n1,
             cs_trigger_disconnect_callback := Some True\<rparr>) \<and>
    map_find a CONNACK_RESERVED_PACKET_ID \<noteq> None"
proof -
  let ?st = "st\<lparr>cs_connect_data := Some (d\<lparr>ad_action_id := CONNACK_RESERVED_PACKET_ID\<rparr>)\<rparr>"
  obtain a where a: "snd (RegisterPendingAck CONNACK_RESERVED_PACKET_ID (Some h) ?st) = ?st\<lparr>ccs_pending_ack_map := a\<rparr>"
    using RegisterPendingAck_state by blast
  have "core_ok ?st" using assms(1) by (simp add: core_ok_def)
  then have "map_find (ccs_pending_ack_map (snd (RegisterPendingAck CONNACK_RESERVED_PACKET_ID (Some h) ?st)))
      CONNACK_RESERVED_PACKET_ID \<noteq> None"
    by (auto simp: find_pending_RegisterPendingAck)
  then have pend: "map_find a CONNACK_RESERVED_PACKET_ID \<noteq> None" unfolding a by simp
  have "WriteToNetworkBuffer 1 one_execution (Some nc) bs n0 = Inr (SUCCESS, n1)"
    using WriteToNetworkBuffer_once [OF assms(7,6) le_refl assms(8), of 0 one_execution] by simp
  then have "ConnectAction_PerformAction (Some nc) (Some d) st =
      Inr (SUCCESS, Some (d\<lparr>ad_action_id := CONNACK_RESERVED_PACKET_ID\<rparr>),
           ?st\<lparr>ccs_pending_ack_map := a, cs_keep_alive_timeout := Some (con_keep_alive_timeout p), ccs_net := n1,
             cs_trigger_disconnect_callback := Some True\<rparr>)"
    using assms(2-5)
    by (simp add: ConnectAction_PerformAction_def as_connect_packet_def connect_with_def Let_def register_ack_Some a
        client_write_def connect_sent_def)
  with pend show ?thesis by blast
qed

text \<open>when the broker refuses the connection, the synchronous connect request does not report the
  refusal: the reader does not forward it, and the request ends with the time-out error.\<close>

theorem connect_refused_times_out:
  assumes "client_ok st" "map_find (ccs_action_map st) AT_CONNECT = Some ConnectActionAsync"
    and "ccs_network_connection st = Some nc" "ad_payload d = ConnectData p" "ConnectPacket_ToString p = Inr bs"
    and "Connect_nc nc (ccs_net st) = (SUCCESS, n0)" "Write_nc nc bs 0 n0 = (SUCCESS, length bs, n1)"
    and "bs \<noteq> []" "length bs < 2 ^ 64" "c \<noteq> 0"
  shows "\<exists>d' st'. client_request runner (connack_arrives s c) AT_CONNECT (Some d) st = Inr (MQTT_REQUEST_TIMEOUT_ERROR, d', st') \<and>
    (cs_is_connected st' \<longleftrightarrow> cs_is_connected st)"
proof -
  obtain i where id: "GetNextPacketId (st\<lparr>ccs_sync_action_response := Some MQTT_REQUEST_TIMEOUT_ERROR\<rparr>)
      = (i, st\<lparr>ccs_sync_action_response := Some MQTT_REQUEST_TIMEOUT_ERROR, cs_last_sent_packet_id := i\<rparr>)"
    by (auto simp: GetNextPacketId_def Let_def)
  define st2 where "st2 = st\<lparr>ccs_sync_action_response := Some MQTT_REQUEST_TIMEOUT_ERROR, cs_last_sent_packet_id := i\<rparr>"
  define d2 where "d2 = d\<lparr>ad_async_ack_handler := Some SyncHandler, ad_action_id := i\<rparr>"
  have ok2: "core_ok st2" using assms(1) by (simp add: client_ok_def core_ok_def st2_def)
  have d2: "ad_payload d2 = ConnectData p" "ad_async_ack_handler d2 = Some SyncHandler"
    "Connect_nc nc (ccs_net st2) = (SUCCESS, n0)"
    using assms(4,6) by (simp_all add: d2_def st2_def)
  obtain a where sent: "ConnectAction_PerformAction (Some nc) (Some d2) st2 =
      Inr (SUCCESS, Some (d2\<lparr>ad_action_id := CONNACK_RESERVED_PACKET_ID\<rparr>),
           st2\<lparr>cs_connect_data := Some (d2\<lparr>ad_action_id := CONNACK_RESERVED_PACKET_ID\<rparr>), ccs_pending_ack_map := a,
             cs_keep_alive_timeout := Some (con_keep_alive_timeout p), ccs_net := n1,
             cs_trigger_disconnect_callback := Some True\<rparr>)"
    "map_find a CONNACK_RESERVED_PACKET_ID \<noteq> None"
    using connect_request_sent [OF ok2 d2(1,2) assms(5) d2(3) assms(7-9)] by (elim exE conjE)
  have st2: "ccs_network_connection st2 = Some nc" "ccs_sync_action_response st2 = Some MQTT_REQUEST_TIMEOUT_ERROR"
    "cs_is_connected st2 = cs_is_connected st"
    using assms(3) by (simp_all add: st2_def)
  have next_id: "GetNextPacketId (st\<lparr>ccs_sync_action_response := Some MQTT_REQUEST_TIMEOUT_ERROR\<rparr>) = (i, st2)"
    unfolding st2_def by (rule id)
  let ?d3 = "d2\<lparr>ad_action_id := CONNACK_RESERVED_PACKET_ID\<rparr>"
  let ?st3 = "st2\<lparr>cs_connect_data := Some ?d3, ccs_pending_ack_map := a,
      cs_keep_alive_timeout := Some (con_keep_alive_timeout p), ccs_net := n1, cs_trigger_disconnect_callback := Some True\<rparr>"
  have perf: "perform_action runner ConnectActionAsync d2 st2 = Inr (SUCCESS, ?d3, ?st3)"
    using sent(1) st2(1) by (simp add: perform_action_def)
  have "client_request runner (connack_arrives s c) AT_CONNECT (Some d) st
      = Inr (MQTT_REQUEST_TIMEOUT_ERROR, Some ?d3, ?st3\<lparr>cs_is_session_present := (s = 1)\<rparr>)"
    using assms(2) sent(2) st2(2)
    by (simp add: client_request_def PerformAction_def Let_def next_id perf [unfolded d2_def] d2_def
        connack_arrives_refusal [OF assms(10)] SetSessionPresent_def)
  then show ?thesis using st2(3) by simp
qed

section \<open>Acknowledged subscriptions\<close>

text \<open>
  The state in which a SUBACK is expected: the subscriptions \<open>rs\<close> of the packet are in the map under
  their topics, numbered from \<open>m + 1\<close>, and no other entry of the map has one of these numbers.
\<close>

definition awaiting :: "u16 \<Rightarrow> nat \<Rightarrow> nat list \<Rightarrow> 'n client \<Rightarrow> bool" where
  "awaiting i m rs st \<longleftrightarrow>
     subs_ok st \<and> distinct rs \<and> m + length rs < 256 \<and>
     (\<forall>r \<in> set rs. map_find (cs_subscription_map st) (topic_of st r) = Some r) \<and>
     (\<forall>k < length rs. IsInSuback (cs_subscriptions st ! (rs ! k)) i (of_nat (m + 1 + k))) \<and>
     (\<forall>(name, q) \<in> set (cs_subscription_map st). \<forall>k < length rs.
        IsInSuback (cs_subscriptions st ! q) i (of_nat (m + 1 + k)) \<longrightarrow> q = rs ! k)"

definition granted :: "u8 \<Rightarrow> QoS" where
  "granted q = (if q = 0 then QOS0 else QOS1)"

text \<open>What a return code makes of a subscription.\<close>

definition suback_outcome :: "u8 \<Rightarrow> bytes \<Rightarrow> nat \<Rightarrow> 'n client \<Rightarrow> bool" where
  "suback_outcome q name r st \<longleftrightarrow>
     (if q = 128 then map_find (cs_subscription_map st) name = None
      else map_find (cs_subscription_map st) name = Some r \<and>
        sub_is_active (cs_subscriptions st ! r) \<and> sub_max_qos (cs_subscriptions st ! r) = granted q)"

lemma map_find_entry: "map_find m k = Some v \<Longrightarrow> (k, v) \<in> set m"
  by (simp add: map_find_def map_of_SomeD)

lemma find_in_set: "find P xs = Some x \<Longrightarrow> x \<in> set xs \<and> P x"
  by (induction xs) (auto split: if_splits)

lemma awaiting_topics_distinct:
  assumes "awaiting i m (r # rs) st" "q \<in> set rs"
  shows "topic_of st q \<noteq> topic_of st r"
proof
  assume "topic_of st q = topic_of st r"
  then have "q = r" using assms by (auto simp: awaiting_def)
  then show False using assms by (auto simp: awaiting_def)
qed

lemma awaiting_found:
  assumes "awaiting i m (r # rs) st"
  shows "find (\<lambda>(name, q). IsInSuback (cs_subscriptions st ! q) i (of_nat m + 1)) (cs_subscription_map st)
    = Some (topic_of st r, r)"
proof -
  let ?P = "\<lambda>(name, q). IsInSuback (cs_subscriptions st ! q) i (of_nat m + 1)"
  have ok: "subs_ok st" and entry: "(topic_of st r, r) \<in> set (cs_subscription_map st)"
    using assms by (auto simp: awaiting_def dest: map_find_entry)
  have "IsInSuback (cs_subscriptions st ! r) i (of_nat m + 1)"
    using assms unfolding awaiting_def by (auto simp: add.commute dest: spec [of _ 0])
  then have "find ?P (cs_subscription_map st) \<noteq> None"
    using entry by (auto simp: find_None_iff)
  then obtain e where e: "find ?P (cs_subscription_map st) = Some e" by blast
  then have in_map: "e \<in> set (cs_subscription_map st)" and hit: "?P e"
    by (auto dest: find_in_set)
  obtain name q where nq: "e = (name, q)" by force
  have "\<forall>k < length (r # rs). IsInSuback (cs_subscriptions st ! q) i (of_nat (m + 1 + k)) \<longrightarrow> q = (r # rs) ! k"
    using assms in_map nq unfolding awaiting_def by blast
  from this [rule_format, of 0] hit nq have "q = r" by (simp add: add.commute)
  moreover have "name = topic_of st q"
    using subs_ok_entry [OF ok] in_map nq by (auto simp: topic_of_def)
  ultimately show ?thesis using e nq by simp
qed

lemma u8_of_nat_nonzero: "0 < k \<Longrightarrow> k < 256 \<Longrightarrow> (of_nat k :: u8) \<noteq> 0"
  by (metis of_nat_0 unat_0 unat_of_nat_u8 less_numeral_extra(3))

lemma awaiting_activated:
  assumes "awaiting i m (r # rs) st"
  shows "awaiting i (m + 1) rs (st\<lparr>cs_subscriptions := (cs_subscriptions st)[r :=
    (cs_subscriptions st ! r)\<lparr>sub_is_active := True, sub_max_qos := q, sub_packet_id := 0, sub_index_in_packet := 0\<rparr>]\<rparr>)"
proof -
  let ?s = "(cs_subscriptions st ! r)\<lparr>sub_is_active := True, sub_max_qos := q, sub_packet_id := 0, sub_index_in_packet := 0\<rparr>"
  let ?st = "st\<lparr>cs_subscriptions := (cs_subscriptions st)[r := ?s]\<rparr>"
  have ok: "subs_ok st" and dist: "r \<notin> set rs" "distinct rs" and m: "m + 1 + length rs < 256"
    using assms by (auto simp: awaiting_def)
  have r: "r < length (cs_subscriptions st)"
    using assms subs_ok_entry [OF ok] by (auto simp: awaiting_def dest: map_find_entry)
  have sub: "sub_ok (cs_subscriptions st ! r)" using ok r by (simp add: subs_ok_def list_all_length)
  have ok': "subs_ok ?st"
    using ok r sub by (auto simp: subs_ok_def list_all_length nth_list_update sub_ok_def)
  have topic: "topic_of ?st q = topic_of st q" for q
    using r by (cases "q = r") (simp_all add: topic_of_def)
  have old: "IsInSuback (cs_subscriptions ?st ! p) i (of_nat (m + 1 + 1 + k)) \<longleftrightarrow>
      p \<noteq> r \<and> IsInSuback (cs_subscriptions st ! p) i (of_nat (m + 1 + Suc k))" if "k < length rs" for p k
    using r m that u8_of_nat_nonzero [of "m + 1 + 1 + k"] by (cases "p = r") (auto simp: IsInSuback_def)
  have all: "\<forall>k < length (r # rs). IsInSuback (cs_subscriptions st ! ((r # rs) ! k)) i (of_nat (m + 1 + k))"
    and uniq: "\<forall>(name, p) \<in> set (cs_subscription_map st). \<forall>k < length (r # rs).
        IsInSuback (cs_subscriptions st ! p) i (of_nat (m + 1 + k)) \<longrightarrow> p = (r # rs) ! k"
    using assms by (auto simp: awaiting_def)
  have "\<forall>k < length rs. IsInSuback (cs_subscriptions ?st ! (rs ! k)) i (of_nat (m + 1 + 1 + k))"
    using all [rule_format, of "Suc _"] dist(1) old by (metis Suc_less_eq length_Cons nth_Cons_Suc nth_mem)
  moreover have "\<forall>(name, p) \<in> set (cs_subscription_map ?st). \<forall>k < length rs.
      IsInSuback (cs_subscriptions ?st ! p) i (of_nat (m + 1 + 1 + k)) \<longrightarrow> p = rs ! k"
    using uniq old by fastforce
  ultimately show ?thesis
    using assms ok' dist m topic by (simp add: awaiting_def)
qed

lemma awaiting_removed:
  assumes "awaiting i m (r # rs) st"
  shows "awaiting i (m + 1) rs (st\<lparr>cs_subscription_map := map_erase (topic_of st r) (cs_subscription_map st)\<rparr>)"
proof -
  have ok: "subs_ok st" and dist: "r \<notin> set rs" "distinct rs" and m: "m + 1 + length rs < 256"
    using assms by (auto simp: awaiting_def)
  have all: "\<forall>k < length (r # rs). IsInSuback (cs_subscriptions st ! ((r # rs) ! k)) i (of_nat (m + 1 + k))"
    and uniq: "\<forall>(name, p) \<in> set (cs_subscription_map st). \<forall>k < length (r # rs).
        IsInSuback (cs_subscriptions st ! p) i (of_nat (m + 1 + k)) \<longrightarrow> p = (r # rs) ! k"
    using assms by (auto simp: awaiting_def)
  have numbered: "IsInSuback (cs_subscriptions st ! (rs ! k)) i (of_nat (m + 1 + 1 + k))" if "k < length rs" for k
    using all [rule_format, of "Suc k"] that by simp
  have other: "p = rs ! k" if "(name, p) \<in> set (map_erase (topic_of st r) (cs_subscription_map st))" "k < length rs"
      "IsInSuback (cs_subscriptions st ! p) i (of_nat (m + 1 + 1 + k))" for name p k
  proof -
    have "(name, p) \<in> set (cs_subscription_map st)" using that(1) by (simp add: set_map_erase)
    then have "Suc k < length (r # rs) \<Longrightarrow> IsInSuback (cs_subscriptions st ! p) i (of_nat (m + 1 + Suc k)) \<Longrightarrow>
        p = (r # rs) ! Suc k"
      using uniq by blast
    then show ?thesis using that(2,3) by simp
  qed
  have "\<forall>q \<in> set rs. map_find (cs_subscription_map st) (topic_of st q) = Some q"
    using assms by (simp add: awaiting_def)
  then have "\<forall>q \<in> set rs. map_find (map_erase (topic_of st r) (cs_subscription_map st)) (topic_of st q) = Some q"
    using awaiting_topics_distinct [OF assms] by (simp add: smap.find_del)
  then show ?thesis
    using subs_ok_erase [OF ok] dist m numbered other unfolding awaiting_def by auto
qed

lemma suback_step:
  assumes "awaiting i m (r # rs) st" "q \<in> {0, 1, 128}"
  shows "\<exists>st1. suback_loop i (q # qs) (of_nat m) a b st = suback_loop i qs (of_nat (m + 1)) (a \<or> q \<noteq> 128) (b \<or> q = 128) st1 \<and>
    awaiting i (m + 1) rs st1 \<and> suback_outcome q (topic_of st r) r st1 \<and>
    (\<forall>p. p \<noteq> r \<longrightarrow> cs_subscriptions st1 ! p = cs_subscriptions st ! p) \<and> topic_of st1 = topic_of st \<and>
    (\<forall>name. name \<noteq> topic_of st r \<longrightarrow> map_find (cs_subscription_map st1) name = map_find (cs_subscription_map st) name) \<and>
    ccs_pending_ack_map st1 = ccs_pending_ack_map st"
proof (cases "q = 128")
  case True
  let ?st1 = "st\<lparr>cs_subscription_map := map_erase (topic_of st r) (cs_subscription_map st)\<rparr>"
  have ok: "subs_ok st" using assms(1) by (simp add: awaiting_def)
  have "RemoveSubscription_packet i (of_nat m + 1) st = Inr (FAILURE, ?st1)"
    using awaiting_found [OF assms(1)] by (simp add: RemoveSubscription_packet_def find_sub_total [OF ok])
  then show ?thesis
    using True awaiting_removed [OF assms(1)]
    by (intro exI [of _ ?st1]) (simp add: suback_outcome_def smap.find_del add.commute)
next
  case False
  let ?s = "(cs_subscriptions st ! r)\<lparr>sub_is_active := True, sub_max_qos := granted q, sub_packet_id := 0, sub_index_in_packet := 0\<rparr>"
  let ?st1 = "st\<lparr>cs_subscriptions := (cs_subscriptions st)[r := ?s]\<rparr>"
  have ok: "subs_ok st" using assms(1) by (simp add: awaiting_def)
  have entry: "map_find (cs_subscription_map st) (topic_of st r) = Some r" using assms(1) by (simp add: awaiting_def)
  have r: "r < length (cs_subscriptions st)" using subs_ok_entry [OF ok map_find_entry [OF entry]] by simp
  have act: "SetSubscriptionActive i (of_nat m + 1) (granted q) st = Inr (SUCCESS, ?st1)"
    by (rule SetSubscriptionActive_found [OF ok awaiting_found [OF assms(1)]])
  have topic: "topic_of ?st1 = topic_of st"
    using r by (intro ext) (simp add: topic_of_def nth_list_update)
  have "suback_loop i (q # qs) (of_nat m) a b st = suback_loop i qs (of_nat (m + 1)) True b ?st1"
    using assms(2) False act by (auto simp: granted_def add.commute)
  then show ?thesis
    using False awaiting_activated [OF assms(1), of "granted q"] entry r topic
    by (intro exI [of _ ?st1]) (simp add: suback_outcome_def)
qed

lemma suback_loop_effect:
  assumes "awaiting i m rs st" "length qs = length rs" "set qs \<subseteq> {0, 1, 128}"
  shows "\<exists>st'. suback_loop i qs (of_nat m) a b st = Inr (a \<or> (\<exists>q \<in> set qs. q \<noteq> 128), b \<or> 128 \<in> set qs, st') \<and>
    (\<forall>k < length rs. suback_outcome (qs ! k) (topic_of st (rs ! k)) (rs ! k) st') \<and>
    (\<forall>p. p \<notin> set rs \<longrightarrow> cs_subscriptions st' ! p = cs_subscriptions st ! p) \<and>
    (\<forall>name. name \<notin> topic_of st ` set rs \<longrightarrow> map_find (cs_subscription_map st') name = map_find (cs_subscription_map st) name) \<and>
    ccs_pending_ack_map st' = ccs_pending_ack_map st"
  using assms
proof (induction rs arbitrary: m qs a b st)
  case (Cons r rs)
  then obtain q qs' where qs: "qs = q # qs'" "q \<in> {0, 1, 128}" "length qs' = length rs" "set qs' \<subseteq> {0, 1, 128}"
    by (cases qs) auto
  obtain st1 where st1: "suback_loop i qs (of_nat m) a b st = suback_loop i qs' (of_nat (m + 1)) (a \<or> q \<noteq> 128) (b \<or> q = 128) st1"
    "awaiting i (m + 1) rs st1" "suback_outcome q (topic_of st r) r st1"
    "\<forall>p. p \<noteq> r \<longrightarrow> cs_subscriptions st1 ! p = cs_subscriptions st ! p" "topic_of st1 = topic_of st"
    "\<forall>name. name \<noteq> topic_of st r \<longrightarrow> map_find (cs_subscription_map st1) name = map_find (cs_subscription_map st) name"
    "ccs_pending_ack_map st1 = ccs_pending_ack_map st"
    using suback_step [OF Cons.prems(1) qs(2), of qs' a b] unfolding qs(1) by blast
  obtain st' where st': "suback_loop i qs' (of_nat (m + 1)) (a \<or> q \<noteq> 128) (b \<or> q = 128) st1
      = Inr ((a \<or> q \<noteq> 128) \<or> (\<exists>q \<in> set qs'. q \<noteq> 128), (b \<or> q = 128) \<or> 128 \<in> set qs', st')"
    "\<forall>k < length rs. suback_outcome (qs' ! k) (topic_of st1 (rs ! k)) (rs ! k) st'"
    "\<forall>p. p \<notin> set rs \<longrightarrow> cs_subscriptions st' ! p = cs_subscriptions st1 ! p"
    "\<forall>name. name \<notin> topic_of st1 ` set rs \<longrightarrow> map_find (cs_subscription_map st') name = map_find (cs_subscription_map st1) name"
    "ccs_pending_ack_map st' = ccs_pending_ack_map st1"
    using Cons.IH [OF st1(2) qs(3,4), of "a \<or> q \<noteq> 128" "b \<or> q = 128"] by blast
  have r: "r \<notin> set rs" using Cons.prems(1) by (simp add: awaiting_def)
  have name: "topic_of st r \<notin> topic_of st ` set rs"
    using awaiting_topics_distinct [OF Cons.prems(1)] by (metis imageE)
  have first: "suback_outcome q (topic_of st r) r st'"
    using st1(3) st'(3,4) r name by (simp add: suback_outcome_def st1(5))
  have "\<forall>k < length (r # rs). suback_outcome (qs ! k) (topic_of st ((r # rs) ! k)) ((r # rs) ! k) st'"
    using first st'(2) by (auto simp: qs(1) st1(5) nth_Cons split: nat.split)
  moreover have "\<forall>p. p \<notin> set (r # rs) \<longrightarrow> cs_subscriptions st' ! p = cs_subscriptions st ! p"
    using st1(4) st'(3) by simp
  moreover have "\<forall>name. name \<notin> topic_of st ` set (r # rs) \<longrightarrow>
      map_find (cs_subscription_map st') name = map_find (cs_subscription_map st) name"
    using st1(6) st'(4) by (simp add: st1(5))
  ultimately show ?case
    using st1(1,7) st'(1,5) by (intro exI [of _ st']) (auto simp: qs(1))
qed simp


section \<open>Unsubscribing\<close>

lemma map_find_filter:
  assumes "map_wf m"
  shows "map_find (filter P m) k = (case map_find m k of None \<Rightarrow> None | Some v \<Rightarrow> if P (k, v) then Some v else None)"
  using assms
proof (induction m)
  case (Cons e m)
  obtain k' v where e: "e = (k', v)" by force
  have wf: "map_wf m" and above: "k' \<notin> fst ` set m" using Cons.prems by (auto simp: map_wf_Cons e)
  then have "map_of m k' = None" "map_of (filter P m) k' = None" by (auto simp: map_of_eq_None_iff)
  then show ?case using Cons.IH [OF wf] by (auto simp: e map_find_def)
qed (simp add: map_find_def)

lemma unsubscribe_mark_effect:
  assumes "subs_ok st"
  shows "\<exists>subs. unsubscribe_mark i (map Some us) st = Inr (st\<lparr>cs_subscriptions := subs\<rparr>) \<and>
    subs_ok (st\<lparr>cs_subscriptions := subs\<rparr>) \<and>
    (\<forall>(name, r) \<in> set (cs_subscription_map st). sub_packet_id (subs ! r)
       = (if name \<in> utf8_data ` set us then i else sub_packet_id (cs_subscriptions st ! r)))"
  using assms
proof (induction us arbitrary: st)
  case Nil
  then show ?case by (intro exI [of _ "cs_subscriptions st"]) simp
next
  case (Cons u us)
  show ?case
  proof (cases "map_find (cs_subscription_map st) (utf8_data u)")
    case None
    then have "\<forall>(name, r) \<in> set (cs_subscription_map st). name \<noteq> utf8_data u"
      by (auto simp: map_find_def map_of_eq_None_iff image_iff)
    moreover have "unsubscribe_mark i (map Some (u # us)) st = unsubscribe_mark i (map Some us) st"
      using None by (simp add: SetSubscriptionPacketInfo_def)
    ultimately show ?thesis using Cons.IH [OF Cons.prems] by fastforce
  next
    case (Some r)
    let ?s = "SetAckIndex i 0 (cs_subscriptions st ! r)"
    let ?st = "st\<lparr>cs_subscriptions := (cs_subscriptions st)[r := ?s]\<rparr>"
    have entry: "(utf8_data u, r) \<in> set (cs_subscription_map st)" using Some by (rule map_find_entry)
    have r: "r < length (cs_subscriptions st)" using subs_ok_entry [OF Cons.prems entry] by simp
    have upd: "sub_update r (SetAckIndex i 0) st = Inr ?st" using r by (rule sub_update_in)
    have ok: "subs_ok ?st" by (rule subs_ok_update [OF Cons.prems upd]) simp_all
    obtain subs where subs: "unsubscribe_mark i (map Some us) ?st = Inr (?st\<lparr>cs_subscriptions := subs\<rparr>)"
      "subs_ok (?st\<lparr>cs_subscriptions := subs\<rparr>)"
      "\<forall>(name, q) \<in> set (cs_subscription_map ?st). sub_packet_id (subs ! q)
         = (if name \<in> utf8_data ` set us then i else sub_packet_id (cs_subscriptions ?st ! q))"
      using Cons.IH [OF ok] by blast
    have same: "sub_packet_id (cs_subscriptions ?st ! q) = (if name = utf8_data u then i else sub_packet_id (cs_subscriptions st ! q))"
      if "(name, q) \<in> set (cs_subscription_map st)" for name q
    proof (cases "q = r")
      case True
      then have "name = utf8_data u"
        using subs_ok_entry [OF Cons.prems that] subs_ok_entry [OF Cons.prems entry] by simp
      then show ?thesis using True r by (simp add: SetAckIndex_def)
    next
      case False
      have "name \<noteq> utf8_data u"
      proof
        assume "name = utf8_data u"
        then have "map_find (cs_subscription_map st) (utf8_data u) = Some q"
          using that Cons.prems by (simp add: map_find_def subs_ok_def map_wf_def strict_sorted_iff)
        with Some False show False by simp
      qed
      with False show ?thesis by simp
    qed
    have "unsubscribe_mark i (map Some (u # us)) st = Inr (st\<lparr>cs_subscriptions := subs\<rparr>)"
      using subs(1) Some upd by (simp add: SetSubscriptionPacketInfo_def)
    moreover have "subs_ok (st\<lparr>cs_subscriptions := subs\<rparr>)" using subs(2) by simp
    moreover have "\<forall>(name, q) \<in> set (cs_subscription_map st). sub_packet_id (subs ! q)
         = (if name \<in> utf8_data ` set (u # us) then i else sub_packet_id (cs_subscriptions st ! q))"
      using subs(3) same by fastforce
    ultimately show ?thesis by blast
  qed
qed

lemma HandleUnsuback_effect:
  assumes "subs_ok st"
  shows "HandleUnsuback (AppendUInt16ToBuffer [] i) st = Inr (SUCCESS, ForwardReceivedAck i SUCCESS
    (st\<lparr>cs_subscription_map := filter (\<lambda>(name, r). sub_packet_id (cs_subscriptions st ! r) \<noteq> i) (cs_subscription_map st)\<rparr>))"
proof -
  have "ReadUInt16FromBuffer (AppendUInt16ToBuffer [] i) 0 = Inr (i, 2)"
    using u16_codec.get_put [of "[]" i "[]"] by (simp add: wire_simps)
  moreover have "AppendUInt16ToBuffer [] i \<noteq> []" by (simp add: AppendUInt16ToBuffer_def)
  ultimately show ?thesis
    by (simp add: HandleUnsuback_def Create_UnsubackPacket_def UnsubackPacket_of_buffer_def
        RemoveAllSubscriptionsForPacketId_def remove_all_total [OF assms subset_refl])
qed

lemma subscription_map_ForwardReceivedAck [simp]:
  "cs_subscription_map (ForwardReceivedAck i rc st) = cs_subscription_map st"
  by (simp add: ForwardReceivedAck_def Let_def run_ack_handler_def SyncActionHandler_def log_event_def
      split: option.split ack_handler.split)

text \<open>C33: unsubscribing removes exactly the topics of the request: marking them with the identifier of the
  request and handling the UNSUBACK leaves every other entry of the map and forwards the acknowledgement.\<close>

theorem unsubscribe_removes_topics:
  assumes "subs_ok st" "\<forall>(name, r) \<in> set (cs_subscription_map st). sub_packet_id (cs_subscriptions st ! r) \<noteq> i"
  shows "\<exists>st1 st2. unsubscribe_mark i (map Some us) st = Inr st1 \<and>
    HandleUnsuback (AppendUInt16ToBuffer [] i) st1 = Inr (SUCCESS, st2) \<and>
    map_find (cs_subscription_map st2) k
      = (if k \<in> utf8_data ` set us then None else map_find (cs_subscription_map st) k) \<and>
    map_find (ccs_pending_ack_map st2) i = None"
proof -
  obtain subs where subs: "unsubscribe_mark i (map Some us) st = Inr (st\<lparr>cs_subscriptions := subs\<rparr>)"
    "subs_ok (st\<lparr>cs_subscriptions := subs\<rparr>)"
    "\<forall>(name, r) \<in> set (cs_subscription_map st). sub_packet_id (subs ! r)
       = (if name \<in> utf8_data ` set us then i else sub_packet_id (cs_subscriptions st ! r))"
    using unsubscribe_mark_effect [OF assms(1)] by blast
  have wf: "map_wf (cs_subscription_map st)" using assms(1) by (simp add: subs_ok_def)
  have "map_find (filter (\<lambda>(name, r). sub_packet_id (subs ! r) \<noteq> i) (cs_subscription_map st)) k
      = (if k \<in> utf8_data ` set us then None else map_find (cs_subscription_map st) k)"
  proof (cases "map_find (cs_subscription_map st) k")
    case None
    then show ?thesis by (simp add: map_find_filter [OF wf])
  next
    case (Some r)
    then have "(k, r) \<in> set (cs_subscription_map st)" by (rule map_find_entry)
    then have "sub_packet_id (subs ! r) \<noteq> i \<longleftrightarrow> k \<notin> utf8_data ` set us"
      using subs(3) assms(2) by fastforce
    with Some show ?thesis by (simp add: map_find_filter [OF wf])
  qed
  then show ?thesis
    using subs(1) HandleUnsuback_effect [OF subs(2), of i]
    by (simp add: find_pending_ForwardReceivedAck)
qed

text \<open>
  An acknowledged subscription carries the identifier \<open>0\<close>, which no request uses; an UNSUBACK with that
  identifier removes all of them.
\<close>

lemma unsuback_zero_clears:
  assumes "subs_ok st" "\<forall>(name, r) \<in> set (cs_subscription_map st). sub_packet_id (cs_subscriptions st ! r) = 0"
  shows "\<exists>st'. HandleUnsuback (AppendUInt16ToBuffer [] 0) st = Inr (SUCCESS, st') \<and> cs_subscription_map st' = []"
  using assms by (simp add: HandleUnsuback_effect filter_empty_conv case_prod_unfold)

section \<open>Witnesses\<close>

definition sample_header :: "u8 \<Rightarrow> nat \<Rightarrow> PacketFixedHeader" where
  "sample_header b n = \<lparr>fh_message_type = Some MT_PUBACK, fh_byte = b, fh_remaining_length = n, fh_is_valid = True\<rparr>"

lemma sample_framed: "length body < 128 \<Longrightarrow> framed (sample_header b (length body)) body (b # of_nat (length body) # body)"
  by (cases body) (simp_all add: framed_def sample_header_def MAX_MQTT_PACKET_REM_LEN_BYTES_def AppendToBuffer_header_def
      encode_remaining_length_small)

lemma script_connected: "sd_connected (script bs c a)"
  by (simp add: script_def)

lemma script_input: "sd_input (script bs c a) = bs"
  by (simp add: script_def)

theorem packet_framing_witness:
  "\<exists>n'. ReadPacketFromNetwork 2 (\<lambda>_. True) (Some script_connection) 0 (script ([0x40, 2, 0, 5] @ [9]) 0 0)
      = Inr (SUCCESS, fh_byte (sample_header 0x40 2), [0, 5], n') \<and>
    sd_input n' = [9] \<and> sd_connected n'"
  using sample_framed [of "[0, 5]" "0x40"]
  by (intro packet_framing [OF script_delivers script_connected _ script_input]) (simp_all add: numeral_2_eq_2)

theorem decoded_length_bounded_witness:
  "\<exists>n'. DecodeRemainingLength 1 (\<lambda>_. True) (Some script_connection) (script [193, 2] 0 0) = Inr (SUCCESS, 321, n') \<and>
    321 \<le> MAX_MQTT_PACKET_REM_LEN_BYTES"
proof -
  have enc: "encode_remaining_length 321 = [193, 2]"
    by (simp add: encode_remaining_length_step encode_remaining_length_small)
  obtain n' where "decode_loop 1 (\<lambda>_. True) (Some script_connection) 1 0 0 (script [193, 2] 0 0) = Inr (SUCCESS, 0 + 321 * 1, n')"
    using decode_loop_encoded [OF script_delivers, where fuel = 1 and n = "script [193, 2] 0 0" and v = 321 and rest = "[]"
        and len = 0 and acc = 0 and multiplier = 1]
    by (auto simp: enc script_input script_connected MAX_NO_OF_REMAINING_LENGTH_BYTES_def)
  then have d: "DecodeRemainingLength 1 (\<lambda>_. True) (Some script_connection) (script [193, 2] 0 0) = Inr (SUCCESS, 321, n')"
    by (simp add: DecodeRemainingLength_def)
  from d decoded_length_bounded [OF d] show ?thesis by blast
qed

definition no_runner :: "action_data option \<Rightarrow> 'n client \<Rightarrow> (ResponseCode \<times> action_data option \<times> 'n client) res" where
  "no_runner d st = Inr (SUCCESS, d, st)"

text \<open>A client that is not connected, with input that ends: the reader meets an error.\<close>

definition sample_idle_client :: "script_device client" where
  "sample_idle_client = sample_net_client\<lparr>cs_is_connected := False, ccs_net := (script [] 0 90)\<lparr>sd_connected := False\<rparr>\<rparr>"

lemma sample_idle_run:
  "\<exists>st'. NetworkRead_PerformAction 1 no_runner id id 1 (\<lambda>_. False) (Some script_connection) sample_idle_client
     = Inr (NETWORK_DISCONNECTED_ERROR, st')"
  by (simp add: NetworkRead_PerformAction_def sample_idle_client_def read_once_def ReadPacketFromNetwork_def Let_def
      ReadFromNetworkBuffer_def Read_nc_def script_connection_def script_def size_add_def)

theorem reader_never_requests_reconnect_witness:
  "\<exists>st'. NetworkRead_PerformAction 1 no_runner id id 1 (\<lambda>_. False) (Some script_connection) sample_idle_client
     = Inr (NETWORK_DISCONNECTED_ERROR, st') \<and> \<not> cs_is_auto_reconnect_required st'"
proof -
  obtain st' where r: "NetworkRead_PerformAction 1 no_runner id id 1 (\<lambda>_. False) (Some script_connection) sample_idle_client
     = Inr (NETWORK_DISCONNECTED_ERROR, st')"
    using sample_idle_run by blast
  have "\<not> cs_is_auto_reconnect_required st'"
    by (rule reader_never_requests_reconnect [OF r])
      (simp_all add: sample_idle_client_def sample_net_simps never_requires_def)
  with r show ?thesis by blast
qed

theorem reader_keeps_client_ok_witness:
  "\<exists>st'. NetworkRead_PerformAction 1 no_runner id id 1 (\<lambda>_. False) (Some script_connection) sample_idle_client
     = Inr (NETWORK_DISCONNECTED_ERROR, st') \<and> client_ok st'"
proof -
  obtain st' where r: "NetworkRead_PerformAction 1 no_runner id id 1 (\<lambda>_. False) (Some script_connection) sample_idle_client
     = Inr (NETWORK_DISCONNECTED_ERROR, st')"
    using sample_idle_run by blast
  have "client_ok sample_idle_client" by (simp add: sample_idle_client_def sample_net_client_ok)
  from reader_keeps_client_ok [OF r this] r show ?thesis
    by (auto simp: runner_keeps_def keeps_def no_runner_def)
qed

theorem short_publish_faults_witness:
  "read_once no_runner id 2 (\<lambda>_. True) script_connection True (sample_net_client\<lparr>ccs_net := script ([0x30, 2, 0, 0] @ []) 0 9\<rparr>)
     = Inl NullPointer"
proof -
  have "framed (sample_header 0x30 2) [0, 0] [0x30, 2, 0, 0]"
    using sample_framed [of "[0, 0]" "0x30"] by (simp add: numeral_2_eq_2)
  moreover have "MessageTypes_of (unat (drop_bit 4 (fh_byte (sample_header 0x30 2)))) = MT_PUBLISH"
    by (simp add: sample_header_def MessageTypes_of_def)
  ultimately show ?thesis
    by (intro short_publish_faults [OF script_delivers, where rest = "[]" and body = "[0, 0]" and bs = "[0x30, 2, 0, 0]"
        and h = "sample_header 0x30 2"]) (simp_all add: script_connected script_input)
qed

definition sample_topic :: Utf8String where
  "sample_topic = utf8_of [97, slash, 98]"

definition sample_publish_bytes :: bytes where
  "sample_publish_bytes = (case PublishPacket_ToString (PublishPacket_new sample_topic False False QOS1 [1, 2]) 9 of
     Inr bs \<Rightarrow> bs | Inl e \<Rightarrow> [])"

theorem publish_delivered_witness:
  "\<exists>st' d. read_once no_runner id 9 (\<lambda>_. True) script_connection True
       (sample_net_client\<lparr>ccs_net := script (sample_publish_bytes @ [7]) 1 90\<rparr>) = Inr (SUCCESS, True, st') \<and>
    sd_input (ccs_net st') = [7] \<and> ccs_events st' = [Ev_Message 4 [97, slash, 98] [1, 2] None] \<and>
    ccs_outbound_action_queue st' = [(AT_PUBACK, d)] \<and> ad_payload d = PubackData (PubackPacket_new 9)"
proof -
  let ?st = "sample_net_client\<lparr>ccs_net := script (sample_publish_bytes @ [7]) 1 90\<rparr>"
  have size: "publish_size sample_topic QOS1 [1, 2] = 9"
    by (simp add: publish_size_def sample_topic_def utf8_of_def)
  then have max: "publish_size sample_topic QOS1 [1, 2] \<le> MAX_MQTT_PACKET_REM_LEN_BYTES"
    by (simp add: MAX_MQTT_PACKET_REM_LEN_BYTES_def)
  have send: "sendable sample_topic" by (simp add: sample_topic_def sendable_utf8_of)
  have bs: "PublishPacket_ToString (PublishPacket_new sample_topic False False QOS1 [1, 2]) 9 = Inr sample_publish_bytes"
    using publish_bytes [OF max] by (simp add: sample_publish_bytes_def)
  have ok: "client_ok ?st" by (simp add: sample_net_client_ok)
  have conn: "sd_connected (ccs_net ?st)" by (simp add: script_connected)
  have topic: "utf8_data sample_topic = [97, slash, 98]" by (simp add: sample_topic_def utf8_of_def)
  have find: "find (\<lambda>(name, r). covers name (utf8_data sample_topic)) (cs_subscription_map ?st) = Some ([97, slash, plus_sign], 0)"
    by (simp add: sample_net_fields topic covers_def has_wildcard_def)
  have "\<exists>st' d. read_once no_runner id 9 (\<lambda>_. True) script_connection True ?st = Inr (SUCCESS, True, st') \<and>
    sd_input (ccs_net st') = [7] \<and>
    ccs_events st' = ccs_events ?st @ [Ev_Message 4 (utf8_data sample_topic) [1, 2] (sub_app_handler_data (cs_subscriptions ?st ! 0))] \<and>
    ccs_outbound_action_queue st' = ccs_outbound_action_queue ?st @ [(AT_PUBACK, d)] \<and>
    ad_payload d = PubackData (PubackPacket_new 9)"
    by (rule publish_delivered [OF ok script_delivers conn send max _ bs _ _ _ find])
      (simp_all add: size script_input topic sample_net_fields plain_filter_def regex_special_def,
       simp_all add: sample_net_simps DEFAULT_MAX_QUEUE_SIZE_def)
  moreover have "ccs_events ?st = []" "ccs_outbound_action_queue ?st = []" "sub_app_handler_data (cs_subscriptions ?st ! 0) = None"
    by (simp_all add: sample_net_simps)
  ultimately show ?thesis by (simp add: topic)
qed

definition sample_connect_client :: "script_device client" where
  "sample_connect_client = sample_net_client\<lparr>cs_is_connected := False, ccs_network_connection := Some script_connection,
     ccs_action_map := [(AT_CONNECT, ConnectActionAsync)]\<rparr>"

theorem connect_refused_times_out_witness:
  "\<exists>d' st'. client_request no_runner (connack_arrives 0 5) AT_CONNECT (Some (sample_action (ConnectData (sample_connect [1]))))
      sample_connect_client = Inr (MQTT_REQUEST_TIMEOUT_ERROR, d', st') \<and>
    (cs_is_connected st' \<longleftrightarrow> cs_is_connected sample_connect_client)"
proof -
  have ok: "client_ok sample_connect_client"
    using sample_net_client_ok by (simp add: sample_connect_client_def client_ok_def core_ok_def subs_ok_def map_wf_def)
  obtain bs where bs: "ConnectPacket_ToString (sample_connect [1]) = Inr bs"
    "length bs + will_gap (Some (sample_will [1])) = Length_header (header_of (sample_connect [1])) + fh_remaining_length (header_of (sample_connect [1]))"
    using connect_length [OF sample_connect_ok sample_connect, of "[1]"] by auto
  have size: "connect_size [] (Some (utf8_of [98])) (Some (sample_will [1])) False = 19"
    by (simp add: connect_size_def optional_size_def will_size_def sample_will_def WillOptions_new_def utf8_of_def)
  have "header_of (sample_connect [1]) = header_of (packet_base MT_CONNECT False QOS0 False 19)"
    using ConnectPacket_new_fields [OF sample_connect_ok, of "[1]" True MQTT_3_1_1 30] sample_connect [of "[1]"] size by auto
  then have "Length_header (header_of (sample_connect [1])) + fh_remaining_length (header_of (sample_connect [1])) = 21"
    using packet_base_header [of 19 MT_CONNECT False QOS0 False]
    by (simp add: Length_header_def GetRemainingLengthByteCount_def MAX_MQTT_PACKET_REM_LEN_BYTES_def)
  then have len: "length bs = 21" using bs(2) by (simp add: will_gap_def sample_will_def WillOptions_new_def)
  have con: "Connect_nc script_connection (ccs_net sample_connect_client) = (SUCCESS, script [] 0 90)"
    by (simp add: Connect_nc_def script_connection_def sample_connect_client_def sample_net_simps script_def)
  have wr: "Write_nc script_connection bs 0 (script [] 0 90) = (SUCCESS, length bs, (script [] 0 90)\<lparr>sd_output := [bs]\<rparr>)"
    using len by (simp add: Write_nc_def script_connection_def script_def)
  show ?thesis
    by (rule connect_refused_times_out [OF ok _ _ _ bs(1) con wr])
      (use len in \<open>auto simp: sample_connect_client_def map_find_def sample_action_def\<close>)
qed

lemma sample_awaiting: "awaiting 7 0 [0] sample_net_client"
  using sample_net_client_ok sample_net_fields(4)
  by (simp add: awaiting_def client_ok_def sample_net_fields map_find_def)
    (simp add: sample_net_simps IsInSuback_def)


theorem unsubscribe_removes_topics_witness:
  "\<exists>st1 st2. unsubscribe_mark 9 (map Some [utf8_of [97, slash, plus_sign]]) sample_net_client = Inr st1 \<and>
    HandleUnsuback (AppendUInt16ToBuffer [] 9) st1 = Inr (SUCCESS, st2) \<and>
    map_find (cs_subscription_map st2) [97, slash, plus_sign] = None"
proof -
  have "subs_ok sample_net_client" using sample_net_client_ok by (simp add: client_ok_def)
  from unsubscribe_removes_topics [OF this, where i = 9 and us = "[utf8_of [97, slash, plus_sign]]" and k = "[97, slash, plus_sign]"]
  show ?thesis by (auto simp: sample_net_fields) (auto simp: sample_net_simps)
qed

end
