(* ===== verification/KeepAlive.thy ===== *)
theory KeepAlive
  imports NetworkRead
begin

text \<open>
  The keep-alive thread (\<open>KeepaliveActionRunner\<close> in \<^verbatim>\<open>src/mqtt/Connect.cpp\<close>): it sends PINGREQ packets, gives the
  connection up when one stays unanswered, reconnects with a back-off, and subscribes again.

  The local variables of the thread are a record. The clock of the state is in milliseconds, the
  durations of the configuration are in seconds. An iteration returns the time the thread sleeps
  before the next one; \<open>pause\<close> is what happens to the state meanwhile (the clock advances, the other
  threads run). A \<open>continue\<close> that does not sleep returns \<open>0\<close>.
\<close>

definition DEFAULT_CORE_THREAD_SLEEP_DURATION_MS :: nat where
  "DEFAULT_CORE_THREAD_SLEEP_DURATION_MS = 100"

record KeepaliveLocals =
  kl_reconnect_backoff_timer :: nat
  kl_max_backoff_value :: nat
  kl_keep_alive_interval :: int
  kl_next :: int

text \<open>Integer division of C++ truncates.\<close>

definition half :: "int \<Rightarrow> int" where
  "half k = (if k < 0 then - ((- k) div 2) else k div 2)"

section \<open>Telling the application\<close>

definition setDisconnectCallbackPending :: "bool \<Rightarrow> 'n client \<Rightarrow> 'n client" where
  "setDisconnectCallbackPending v st = st\<lparr>cs_trigger_disconnect_callback := Some v\<rparr>"

definition reconnect_packet :: "'n client \<Rightarrow> ConnectPacket option" where
  "reconnect_packet st = map_option snd (as_connect_packet (cs_connect_data st))"

definition notify_disconnect :: "'n client \<Rightarrow> 'n client" where
  "notify_disconnect st =
     (case (ccs_disconnect_handler st, reconnect_packet st) of
        (Some h, Some p) \<Rightarrow> log_event (Ev_Disconnect h (GetClientID p) (ccs_disconnect_app_handler_data st)) st
      | _ \<Rightarrow> st)"

definition notify_reconnect :: "ConnectPacket option \<Rightarrow> ResponseCode \<Rightarrow> 'n client \<Rightarrow> ('n client) res" where
  "notify_reconnect p_connect_packet rc st =
     (case ccs_reconnect_handler st of
        None \<Rightarrow> Inr st
      | Some h \<Rightarrow>
          bind_res (deref p_connect_packet) (\<lambda>p.
            Inr (log_event (Ev_Reconnect h (GetClientID p) (ccs_reconnect_app_handler_data st) rc) st)))"

definition notify_resubscribe :: "ConnectPacket option \<Rightarrow> ResponseCode \<Rightarrow> 'n client \<Rightarrow> ('n client) res" where
  "notify_resubscribe p_connect_packet rc st =
     (case ccs_resubscribe_handler st of
        None \<Rightarrow> Inr st
      | Some h \<Rightarrow>
          bind_res (deref p_connect_packet) (\<lambda>p.
            Inr (log_event (Ev_Resubscribe h (GetClientID p) (ccs_resubscribe_app_handler_data st) rc) st)))"

section \<open>Subscribing again\<close>

definition send_subscribe ::
  "('n \<Rightarrow> bool) \<Rightarrow> 'n NetworkConnection option \<Rightarrow> nat list \<Rightarrow> 'n client \<Rightarrow> (ResponseCode \<times> 'n client) res" where
  "send_subscribe go p_nc topic_vector st =
     bind_res (Create_SubscribePacket st topic_vector) (\<lambda>p.
     bind_res (deref p) (\<lambda>p_subscribe_packet.
       case GetNextPacketId st of
         (packet_id, st) \<Rightarrow>
           bind_res (SubscribePacket_ToString p_subscribe_packet packet_id st) (\<lambda>(packet_data, st).
             client_write go p_nc packet_data st)))"

text \<open>
  The loop over the subscription map; returned are the last response, the topics that are not sent
  yet, and the state.
\<close>

fun resubscribe_loop ::
  "('n \<Rightarrow> bool) \<Rightarrow> 'n NetworkConnection option \<Rightarrow> (bytes \<times> nat) list \<Rightarrow> nat list \<Rightarrow> ResponseCode \<Rightarrow> 'n client
   \<Rightarrow> (ResponseCode \<times> nat list \<times> 'n client) res" where
  "resubscribe_loop go p_nc [] topic_vector rc st = Inr (rc, topic_vector, st)"
| "resubscribe_loop go p_nc ((name, r) # m) topic_vector rc st =
     (let topic_vector = topic_vector @ [r] in
      if length topic_vector = MAX_TOPICS_IN_ONE_SUBSCRIBE_PACKET then
        bind_res (send_subscribe go p_nc topic_vector st) (\<lambda>(rc, st).
          if rc \<noteq> SUCCESS then Inr (rc, topic_vector, st)
          else resubscribe_loop go p_nc m [] rc st)
      else resubscribe_loop go p_nc m topic_vector rc st)"

definition resubscribe ::
  "('n \<Rightarrow> bool) \<Rightarrow> 'n NetworkConnection option \<Rightarrow> ResponseCode \<Rightarrow> 'n client \<Rightarrow> (ResponseCode \<times> 'n client) res" where
  "resubscribe go p_nc rc st =
     bind_res (resubscribe_loop go p_nc (cs_subscription_map st) [] rc st) (\<lambda>(rc, topic_vector, st).
       if (rc = SUCCESS \<or> rc = MQTT_CONNACK_CONNECTION_ACCEPTED) \<and> topic_vector \<noteq> []
       then send_subscribe go p_nc topic_vector st
       else Inr (rc, st))"

section \<open>Reconnecting\<close>

text \<open>
  After the broker has accepted the connection: subscribe again and, when the network was lost
  meanwhile, disconnect and ask for another attempt.
\<close>

definition reconnected ::
  "(action_data option \<Rightarrow> 'n client \<Rightarrow> (ResponseCode \<times> action_data option \<times> 'n client) res)
   \<Rightarrow> ('n client \<Rightarrow> 'n client) \<Rightarrow> ('n \<Rightarrow> bool) \<Rightarrow> 'n NetworkConnection option \<Rightarrow> ConnectPacket option \<Rightarrow> ResponseCode
   \<Rightarrow> 'n client \<Rightarrow> (ResponseCode \<times> 'n client) res" where
  "reconnected runner wait go p_nc p_connect_packet rc st =
     (let st = SetAutoReconnectRequired False st in
      bind_res (if cs_subscription_map st \<noteq> [] then
                  bind_res (resubscribe go p_nc rc st) (\<lambda>(rc, st).
                  bind_res (notify_resubscribe p_connect_packet rc st) (\<lambda>st. Inr (rc, st)))
                else Inr (rc, st)) (\<lambda>(rc, st).
        if rc \<noteq> NETWORK_DISCONNECTED_ERROR then Inr (rc, SetAutoReconnectRequired False st)
        else
          bind_res (client_request runner wait AT_DISCONNECT (Some disconnect_data) st) (\<lambda>(rc', d, st).
            Inr (rc, SetAutoReconnectRequired True st))))"

definition grow_backoff :: "KeepaliveLocals \<Rightarrow> KeepaliveLocals" where
  "grow_backoff l =
     (if kl_max_backoff_value l > kl_reconnect_backoff_timer l
      then l\<lparr>kl_reconnect_backoff_timer := kl_reconnect_backoff_timer l + kl_reconnect_backoff_timer l\<rparr>
      else l)"

text \<open>One attempt, with what precedes it when the loss has not been reported yet.\<close>

definition try_reconnect ::
  "(action_data option \<Rightarrow> 'n client \<Rightarrow> (ResponseCode \<times> action_data option \<times> 'n client) res)
   \<Rightarrow> ('n client \<Rightarrow> 'n client) \<Rightarrow> ('n \<Rightarrow> bool) \<Rightarrow> 'n NetworkConnection option \<Rightarrow> KeepaliveLocals \<Rightarrow> 'n client
   \<Rightarrow> (ResponseCode \<times> KeepaliveLocals \<times> nat \<times> 'n client) res" where
  "try_reconnect runner wait go p_nc l st =
     (let st = st\<lparr>cs_is_pingreq_pending := False\<rparr> in
      bind_res (read_init (cs_trigger_disconnect_callback st)) (\<lambda>pending.
        let st = (if pending then notify_disconnect st else st);
            l = (if pending then l\<lparr>kl_reconnect_backoff_timer := cs_min_reconnect_backoff_timeout st,
                                  kl_max_backoff_value := cs_max_reconnect_backoff_timeout st\<rparr> else l);
            p_connect_packet = reconnect_packet st
        in bind_res (client_request runner wait AT_CONNECT (map_option fst (as_connect_packet (cs_connect_data st))) st)
             (\<lambda>(rc, d, st).
           bind_res (notify_reconnect p_connect_packet rc st) (\<lambda>st.
             if rc = MQTT_CONNACK_CONNECTION_ACCEPTED then
               bind_res (reconnected runner wait go p_nc p_connect_packet rc st) (\<lambda>(rc, st). Inr (rc, l, 0, st))
             else
               let st = setDisconnectCallbackPending False st; l = grow_backoff l
               in Inr (rc, l, 1000 * kl_reconnect_backoff_timer l, st)))))"

section \<open>Pinging\<close>

text \<open>The part of the iteration that gives the connection up.\<close>

definition give_up ::
  "(action_data option \<Rightarrow> 'n client \<Rightarrow> (ResponseCode \<times> action_data option \<times> 'n client) res)
   \<Rightarrow> ('n client \<Rightarrow> 'n client) \<Rightarrow> 'n client \<Rightarrow> (ResponseCode \<times> 'n client) res" where
  "give_up runner wait st =
     bind_res (client_request runner wait AT_DISCONNECT (Some disconnect_data) st) (\<lambda>(rc, d, st).
       Inr (rc, SetAutoReconnectRequired True st))"

definition ping_step ::
  "(action_data option \<Rightarrow> 'n client \<Rightarrow> (ResponseCode \<times> action_data option \<times> 'n client) res)
   \<Rightarrow> ('n client \<Rightarrow> 'n client) \<Rightarrow> ('n \<Rightarrow> bool) \<Rightarrow> 'n NetworkConnection option \<Rightarrow> ResponseCode \<Rightarrow> KeepaliveLocals
   \<Rightarrow> 'n client \<Rightarrow> (ResponseCode \<times> KeepaliveLocals \<times> nat \<times> 'n client) res" where
  "ping_step runner wait go p_nc rc l st =
     (if int (ccs_now st) > kl_next l then
        if cs_is_pingreq_pending st then
          if cs_is_connected st then
            bind_res (give_up runner wait st) (\<lambda>(rc, st). Inr (rc, l, 0, st))
          else Inr (rc, l, 0, SetAutoReconnectRequired True st)
        else if cs_is_connected st then
          bind_res (client_write go p_nc (PingreqPacket_ToString PingreqPacket_new) st) (\<lambda>(rc, st).
            if rc \<noteq> SUCCESS then
              bind_res (give_up runner wait st) (\<lambda>(rc, st). Inr (rc, l, 0, st))
            else
              Inr (rc, l\<lparr>kl_next := int (ccs_now st) + 1000 * kl_keep_alive_interval l\<rparr>,
                   DEFAULT_CORE_THREAD_SLEEP_DURATION_MS, st\<lparr>cs_is_pingreq_pending := True\<rparr>))
        else Inr (rc, l, DEFAULT_CORE_THREAD_SLEEP_DURATION_MS, st)
      else Inr (rc, l, DEFAULT_CORE_THREAD_SLEEP_DURATION_MS, st))"

section \<open>The thread\<close>

definition keepalive_once ::
  "(action_data option \<Rightarrow> 'n client \<Rightarrow> (ResponseCode \<times> action_data option \<times> 'n client) res)
   \<Rightarrow> ('n client \<Rightarrow> 'n client) \<Rightarrow> ('n \<Rightarrow> bool) \<Rightarrow> 'n NetworkConnection option \<Rightarrow> ResponseCode \<Rightarrow> KeepaliveLocals
   \<Rightarrow> 'n client \<Rightarrow> (ResponseCode \<times> KeepaliveLocals \<times> nat \<times> 'n client) res" where
  "keepalive_once runner wait go p_nc rc l st =
     (if cs_is_auto_reconnect_enabled st \<and> cs_is_auto_reconnect_required st then
        try_reconnect runner wait go p_nc l st
      else
        bind_res (if cs_is_auto_reconnect_required st then
                    bind_res (read_init (cs_trigger_disconnect_callback st)) (\<lambda>pending.
                      Inr (if pending then setDisconnectCallbackPending False (notify_disconnect st) else st))
                  else Inr st) (ping_step runner wait go p_nc rc l))"

fun keepalive_run ::
  "nat \<Rightarrow> (action_data option \<Rightarrow> 'n client \<Rightarrow> (ResponseCode \<times> action_data option \<times> 'n client) res)
   \<Rightarrow> ('n client \<Rightarrow> 'n client) \<Rightarrow> (nat \<Rightarrow> 'n client \<Rightarrow> 'n client) \<Rightarrow> ('n \<Rightarrow> bool) \<Rightarrow> 'n NetworkConnection option
   \<Rightarrow> ResponseCode \<Rightarrow> KeepaliveLocals \<Rightarrow> 'n client \<Rightarrow> (ResponseCode \<times> 'n client) res" where
  "keepalive_run 0 runner wait pause go p_nc rc l st = Inl OutOfFuel"
| "keepalive_run (Suc k) runner wait pause go p_nc rc l st =
     bind_res (keepalive_once runner wait go p_nc rc l st) (\<lambda>(rc, l, sleep, st).
       let st = pause sleep st in
       if go (ccs_net st) then keepalive_run k runner wait pause go p_nc rc l st else Inr (rc, st))"

text \<open>Waiting for the first connection.\<close>

fun await_connect :: "nat \<Rightarrow> (nat \<Rightarrow> 'n client \<Rightarrow> 'n client) \<Rightarrow> ('n \<Rightarrow> bool) \<Rightarrow> 'n client \<Rightarrow> ('n client) res" where
  "await_connect 0 pause go st = Inl OutOfFuel"
| "await_connect (Suc k) pause go st =
     (if go (ccs_net st) \<and> \<not> cs_is_connected st
      then await_connect k pause go (pause DEFAULT_CORE_THREAD_SLEEP_DURATION_MS st)
      else Inr st)"

definition Keepalive_PerformAction ::
  "nat \<Rightarrow> (action_data option \<Rightarrow> 'n client \<Rightarrow> (ResponseCode \<times> action_data option \<times> 'n client) res)
   \<Rightarrow> ('n client \<Rightarrow> 'n client) \<Rightarrow> (nat \<Rightarrow> 'n client \<Rightarrow> 'n client) \<Rightarrow> ('n \<Rightarrow> bool) \<Rightarrow> 'n NetworkConnection option
   \<Rightarrow> 'n client \<Rightarrow> (ResponseCode \<times> 'n client) res" where
  "Keepalive_PerformAction k runner wait pause go p_nc st =
     bind_res (await_connect k pause go st) (\<lambda>st.
       let st = setDisconnectCallbackPending True st in
       bind_res (read_init (cs_keep_alive_timeout st)) (\<lambda>keep_alive_timeout.
         let interval = half keep_alive_timeout;
             l = \<lparr>kl_reconnect_backoff_timer = cs_min_reconnect_backoff_timeout st,
                  kl_max_backoff_value = cs_max_reconnect_backoff_timeout st,
                  kl_keep_alive_interval = interval,
                  kl_next = int (ccs_now st) + 1000 * interval\<rparr>
         in keepalive_run k runner wait pause go p_nc SUCCESS l st))"

section \<open>The invariant\<close>

definition pause_keeps :: "('n client \<Rightarrow> bool) \<Rightarrow> (nat \<Rightarrow> 'n client \<Rightarrow> 'n client) \<Rightarrow> bool" where
  "pause_keeps I pause \<longleftrightarrow> (\<forall>t. keeps I (pause t))"

context thread_property begin

lemma keeps_notify [simp]:
  "I (notify_disconnect st) = I st"
  "I (setDisconnectCallbackPending v st) = I st"
  by (simp_all add: notify_disconnect_def setDisconnectCallbackPending_def split: option.split)

lemma keeps_notify_reconnect: "notify_reconnect p rc st = Inr st' \<Longrightarrow> I st' = I st"
  by (auto simp: notify_reconnect_def bind_res_Inr_iff split: option.splits)

lemma keeps_notify_resubscribe: "notify_resubscribe p rc st = Inr st' \<Longrightarrow> I st' = I st"
  by (auto simp: notify_resubscribe_def bind_res_Inr_iff split: option.splits)

lemma keeps_send_subscribe:
  assumes "send_subscribe go p_nc rs st = Inr (rc, st')" "I st"
  shows "I st'"
proof -
  obtain i st1 where i: "GetNextPacketId st = (i, st1)" by force
  obtain p data st2 where "SubscribePacket_ToString p i st1 = Inr (data, st2)"
    and w: "client_write go p_nc data st2 = Inr (rc, st')"
    using assms(1) i by (auto simp: send_subscribe_def bind_res_Inr_iff)
  with i have "I st2"
    using keeps_GetNextPacketId [of st] assms(2) keeps_subscribe_topics
    by (auto simp: SubscribePacket_ToString_def Let_def)
  then show ?thesis using keeps_client_write [OF w] by simp
qed

lemma keeps_resubscribe_loop:
  "resubscribe_loop go p_nc m vec rc st = Inr (rc', vec', st') \<Longrightarrow> I st \<Longrightarrow> I st'"
proof (induction m arbitrary: vec rc st)
  case (Cons e m)
  obtain name r where e: "e = (name, r)" by force
  show ?case
    using Cons.prems
    by (auto simp: e Let_def bind_res_Inr_iff split: if_splits dest: Cons.IH keeps_send_subscribe)
qed simp

lemma keeps_resubscribe:
  "resubscribe go p_nc rc st = Inr (rc', st') \<Longrightarrow> I st \<Longrightarrow> I st'"
  by (auto simp: resubscribe_def bind_res_Inr_iff split: if_splits
      dest: keeps_resubscribe_loop keeps_send_subscribe)

lemma keeps_reconnected:
  assumes "reconnected runner wait go p_nc p rc st = Inr (rc', st')" "I st" "runner_keeps I runner" "keeps I wait"
  shows "I st'"
proof -
  let ?st = "SetAutoReconnectRequired False st"
  obtain rc1 st1 where r: "(if cs_subscription_map ?st \<noteq> [] then
        bind_res (resubscribe go p_nc rc ?st) (\<lambda>(rc, st).
        bind_res (notify_resubscribe p rc st) (\<lambda>st. Inr (rc, st)))
      else Inr (rc, ?st)) = Inr (rc1, st1)"
    and fin: "(if rc1 \<noteq> NETWORK_DISCONNECTED_ERROR then Inr (rc1, SetAutoReconnectRequired False st1)
        else bind_res (client_request runner wait AT_DISCONNECT (Some disconnect_data) st1) (\<lambda>(rc', d, st).
            Inr (rc1, SetAutoReconnectRequired True st))) = Inr (rc', st')"
    using assms(1) unfolding reconnected_def Let_def bind_res_Inr_iff split_paired_Ex prod.case by blast
  have "I ?st" using assms(2) by simp
  with r have ok1: "I st1"
    by (auto simp: bind_res_Inr_iff split: if_splits dest!: keeps_notify_resubscribe keeps_resubscribe)
  show ?thesis
    using fin ok1
    by (auto simp: bind_res_Inr_iff split: if_splits dest: keeps_request [OF _ ok1 assms(3,4)])
qed

lemma keeps_try_reconnect:
  assumes "try_reconnect runner wait go p_nc l st = Inr (rc, l', sleep, st')" "I st" "runner_keeps I runner" "keeps I wait"
  shows "I st'"
proof -
  obtain pending where p: "cs_trigger_disconnect_callback st = Some pending"
    using assms(1) by (cases "cs_trigger_disconnect_callback st") (auto simp: try_reconnect_def Let_def)
  define st1 where "st1 = (if pending then notify_disconnect (st\<lparr>cs_is_pingreq_pending := False\<rparr>)
      else st\<lparr>cs_is_pingreq_pending := False\<rparr>)"
  have ok1: "I st1" using assms(2) by (simp add: st1_def)
  obtain rc2 d2 st2 st3 where
    req: "client_request runner wait AT_CONNECT (map_option fst (as_connect_packet (cs_connect_data st1))) st1 = Inr (rc2, d2, st2)" and
    told: "notify_reconnect (reconnect_packet st1) rc2 st2 = Inr st3" and
    rest: "rc2 = MQTT_CONNACK_CONNECTION_ACCEPTED \<longrightarrow>
        (\<exists>rc. reconnected runner wait go p_nc (reconnect_packet st1) rc2 st3 = Inr (rc, st'))"
      "rc2 \<noteq> MQTT_CONNACK_CONNECTION_ACCEPTED \<longrightarrow> st' = setDisconnectCallbackPending False st3"
    using assms(1) p unfolding try_reconnect_def Let_def st1_def
    by (auto simp: bind_res_Inr_iff split: if_splits)
  have "I st3"
    using keeps_request [OF req ok1 assms(3,4)] keeps_notify_reconnect [OF told] by simp
  then show ?thesis
    using rest keeps_reconnected [OF _ _ assms(3,4)] by (cases "rc2 = MQTT_CONNACK_CONNECTION_ACCEPTED") auto
qed

lemma keeps_give_up:
  "give_up runner wait st = Inr (rc, st') \<Longrightarrow> I st \<Longrightarrow> runner_keeps I runner \<Longrightarrow> keeps I wait \<Longrightarrow> I st'"
  by (auto simp: give_up_def bind_res_Inr_iff dest: keeps_request)

lemma keeps_ping_step:
  assumes "ping_step runner wait go p_nc rc l st = Inr (rc', l', sleep, st')" "I st" "runner_keeps I runner" "keeps I wait"
  shows "I st'"
  using assms
  by (auto simp: ping_step_def bind_res_Inr_iff split: if_splits dest: keeps_client_write
      intro: keeps_give_up [OF _ _ assms(3,4)])

lemma keeps_keepalive_once:
  assumes "keepalive_once runner wait go p_nc rc l st = Inr (rc', l', sleep, st')" "I st" "runner_keeps I runner" "keeps I wait"
  shows "I st'"
  using assms
  by (auto simp: keepalive_once_def bind_res_Inr_iff split: if_splits
      intro: keeps_try_reconnect [OF _ _ assms(3,4)] keeps_ping_step [OF _ _ assms(3,4)])

lemma keeps_keepalive_run:
  "keepalive_run k runner wait pause go p_nc rc l st = Inr (rc', st') \<Longrightarrow> I st \<Longrightarrow> runner_keeps I runner \<Longrightarrow>
   keeps I wait \<Longrightarrow> pause_keeps I pause \<Longrightarrow> I st'"
proof (induction k arbitrary: rc l st)
  case (Suc k)
  then obtain rc1 l1 t st1 where o: "keepalive_once runner wait go p_nc rc l st = Inr (rc1, l1, t, st1)"
    and rest: "(if go (ccs_net (pause t st1)) then keepalive_run k runner wait pause go p_nc rc1 l1 (pause t st1)
       else Inr (rc1, pause t st1)) = Inr (rc', st')"
    by (auto simp: bind_res_Inr_iff Let_def)
  have "I (pause t st1)"
    using keeps_keepalive_once [OF o] Suc.prems by (auto simp: pause_keeps_def keeps_def)
  with rest Suc show ?case by (auto split: if_splits)
qed simp

lemma keeps_await_connect:
  "await_connect k pause go st = Inr st' \<Longrightarrow> I st \<Longrightarrow> pause_keeps I pause \<Longrightarrow> I st'"
proof (induction k arbitrary: st)
  case (Suc k)
  then show ?case by (auto simp: pause_keeps_def keeps_def split: if_splits)
qed simp

end

section \<open>Properties\<close>

text \<open>the keep-alive thread keeps the client's state well formed, if the other threads do.\<close>

theorem keepalive_keeps_client_ok:
  assumes "Keepalive_PerformAction k runner wait pause go p_nc st = Inr (rc, st')" "client_ok st"
    and "runner_keeps client_ok runner" "keeps client_ok wait" "pause_keeps client_ok pause"
  shows "client_ok st'"
  using assms
  by (auto simp: Keepalive_PerformAction_def bind_res_Inr_iff Let_def
      dest!: ok_thread.keeps_await_connect ok_thread.keeps_keepalive_run)

text \<open>
  The reference for subscribing again: the subscriptions of the map, in its order, in packets of
  eight, one after the other until one cannot be sent.
\<close>

function batches :: "nat list \<Rightarrow> nat list list" where
  "batches rs = (if rs = [] then [] else take 8 rs # batches (drop 8 rs))"
  by pat_completeness auto

termination batches
  by (relation "measure length") auto

declare batches.simps [simp del]

fun send_batches ::
  "('n \<Rightarrow> bool) \<Rightarrow> 'n NetworkConnection option \<Rightarrow> nat list list \<Rightarrow> ResponseCode \<Rightarrow> 'n client
   \<Rightarrow> (ResponseCode \<times> 'n client) res" where
  "send_batches go p_nc [] rc st = Inr (rc, st)"
| "send_batches go p_nc (b # bs) rc st =
     bind_res (send_subscribe go p_nc b st) (\<lambda>(rc, st).
       if rc \<noteq> SUCCESS then Inr (rc, st) else send_batches go p_nc bs rc st)"

lemma batches_Nil [simp]: "batches [] = []"
  by (simp add: batches.simps)

lemma batches_concat: "concat (batches rs) = rs \<and> (\<forall>b \<in> set (batches rs). b \<noteq> [] \<and> length b \<le> 8)"
proof (induction rs rule: batches.induct)
  case (1 rs)
  then show ?case by (cases "rs = []") (simp_all add: batches.simps [of rs])
qed

definition never_accepts :: "'n NetworkConnection option \<Rightarrow> bool" where
  "never_accepts p_nc \<longleftrightarrow>
     (\<forall>nc buf n. p_nc = Some nc \<longrightarrow> fst (Write_nc nc buf 0 n) \<noteq> MQTT_CONNACK_CONNECTION_ACCEPTED)"

lemma WriteToNetworkBuffer_rc:
  assumes "never_accepts p_nc" "WriteToNetworkBuffer 1 go p_nc buf n = Inr (rc, n')"
  shows "rc \<noteq> MQTT_CONNACK_CONNECTION_ACCEPTED"
proof (cases p_nc)
  case (Some nc)
  obtain rc1 k n1 where w: "Write_nc nc buf 0 n = (rc1, k, n1)" by (metis prod_cases3)
  have "rc1 \<noteq> MQTT_CONNACK_CONNECTION_ACCEPTED" using assms(1) Some w by (metis never_accepts_def fst_conv)
  then show ?thesis
    using assms(2) Some w
    by (auto simp: WriteToNetworkBuffer_def Let_def bind_res_Inr_iff split: if_splits)
qed (use assms(2) in \<open>auto simp: WriteToNetworkBuffer_def\<close>)

lemma send_subscribe_rc:
  assumes "never_accepts p_nc" "send_subscribe go p_nc rs st = Inr (rc, st')"
  shows "rc \<noteq> MQTT_CONNACK_CONNECTION_ACCEPTED"
  using assms(2)
  by (auto simp: send_subscribe_def client_write_def bind_res_Inr_iff case_prod_unfold
      dest: WriteToNetworkBuffer_rc [OF assms(1), simplified])

lemma send_last: "send_batches go p_nc [b] rc st = send_subscribe go p_nc b st"
proof (cases "send_subscribe go p_nc b st")
  case (Inr y)
  then show ?thesis by (cases y) simp
qed simp

lemma resubscribe_loop_batches:
  assumes "never_accepts p_nc" "rc = SUCCESS \<or> rc = MQTT_CONNACK_CONNECTION_ACCEPTED" "length vec < 8"
  shows "bind_res (resubscribe_loop go p_nc m vec rc st) (\<lambda>(rc, vec, st).
       if (rc = SUCCESS \<or> rc = MQTT_CONNACK_CONNECTION_ACCEPTED) \<and> vec \<noteq> []
       then send_subscribe go p_nc vec st else Inr (rc, st))
     = send_batches go p_nc (batches (vec @ map snd m)) rc st"
  using assms(2,3)
proof (induction m arbitrary: vec rc st)
  case Nil
  then show ?case
    by (cases "vec = []") (auto simp: batches.simps [of vec] send_last simp del: send_batches.simps(2))
next
  case (Cons e m)
  obtain name r where e: "e = (name, r)" by force
  show ?case
  proof (cases "length (vec @ [r]) = MAX_TOPICS_IN_ONE_SUBSCRIBE_PACKET")
    case False
    then have "length (vec @ [r]) < 8" using Cons.prems(2) by (simp add: MAX_TOPICS_IN_ONE_SUBSCRIBE_PACKET_def)
    with Cons.IH [OF Cons.prems(1), of "vec @ [r]" st] False show ?thesis by (simp add: e)
  next
    case True
    then have len: "length (vec @ [r]) = 8" by (simp add: MAX_TOPICS_IN_ONE_SUBSCRIBE_PACKET_def)
    have "batches ((vec @ [r]) @ map snd m) = (vec @ [r]) # batches (map snd m)"
      by (subst batches.simps) (use len in simp)
    then have b: "batches (vec @ map snd (e # m)) = (vec @ [r]) # batches (map snd m)" by (simp add: e)
    show ?thesis
    proof (cases "send_subscribe go p_nc (vec @ [r]) st")
      case (Inl f)
      with True show ?thesis unfolding b by (simp add: e)
    next
      case (Inr y)
      obtain rc1 st1 where y: "y = (rc1, st1)" by force
      have "rc1 \<noteq> MQTT_CONNACK_CONNECTION_ACCEPTED" using send_subscribe_rc [OF assms(1)] Inr y by blast
      then show ?thesis
        using True Inr y Cons.IH [of SUCCESS "[]" st1] unfolding b by (simp add: e)
    qed
  qed
qed

text \<open>C24: after a reconnect the client sends its subscriptions again, in the order of the map, in packets
  of at most eight topics, each exactly once, until a packet cannot be sent.\<close>

theorem resubscribe_in_batches:
  assumes "never_accepts p_nc"
  shows "resubscribe go p_nc MQTT_CONNACK_CONNECTION_ACCEPTED st
      = send_batches go p_nc (batches (map snd (cs_subscription_map st))) MQTT_CONNACK_CONNECTION_ACCEPTED st \<and>
    concat (batches (map snd (cs_subscription_map st))) = map snd (cs_subscription_map st) \<and>
    (\<forall>b \<in> set (batches (map snd (cs_subscription_map st))). b \<noteq> [] \<and> length b \<le> 8)"
  unfolding resubscribe_def
  using resubscribe_loop_batches [OF assms, of MQTT_CONNACK_CONNECTION_ACCEPTED "[]"] batches_concat by simp


section \<open>Waiting between attempts\<close>

lemma grow_backoff_timer:
  "kl_reconnect_backoff_timer (grow_backoff l) =
     (if kl_reconnect_backoff_timer l < kl_max_backoff_value l then 2 * kl_reconnect_backoff_timer l
      else kl_reconnect_backoff_timer l)"
  "kl_max_backoff_value (grow_backoff l) = kl_max_backoff_value l"
  by (simp_all add: grow_backoff_def)

lemma grow_backoff_max [simp]: "kl_max_backoff_value ((grow_backoff ^^ n) l) = kl_max_backoff_value l"
  by (induction n) (simp_all add: grow_backoff_timer)

lemma backoff_iterate:
  "kl_reconnect_backoff_timer ((grow_backoff ^^ n) l) =
     kl_reconnect_backoff_timer l * 2 ^ card {i. i < n \<and> kl_reconnect_backoff_timer l * 2 ^ i < kl_max_backoff_value l}"
proof (induction n)
  case (Suc n)
  let ?b = "kl_reconnect_backoff_timer l" and ?m = "kl_max_backoff_value l"
  let ?S = "\<lambda>n. {i. i < n \<and> ?b * 2 ^ i < ?m}"
  have fin: "finite (?S n)" by simp
  have step: "?S (Suc n) = (if ?b * 2 ^ n < ?m then insert n (?S n) else ?S n)"
    by (auto simp: less_Suc_eq)
  have le: "card (?S n) \<le> n" using card_mono [of "{..<n}" "?S n"] by auto
  have "?b * 2 ^ card (?S n) < ?m \<longleftrightarrow> ?b * 2 ^ n < ?m"
  proof
    assume "?b * 2 ^ n < ?m"
    moreover have "?b * 2 ^ card (?S n) \<le> ?b * 2 ^ n" using le by (simp add: power_increasing)
    ultimately show "?b * 2 ^ card (?S n) < ?m" by linarith
  next
    assume small: "?b * 2 ^ card (?S n) < ?m"
    show "?b * 2 ^ n < ?m"
    proof (rule ccontr)
      assume big: "\<not> ?b * 2 ^ n < ?m"
      with small have lt: "card (?S n) < n" using le by (metis nat_less_le)
      have "{..card (?S n)} \<subseteq> ?S n"
      proof
        fix i assume "i \<in> {..card (?S n)}"
        then have i: "i \<le> card (?S n)" by simp
        then have "?b * 2 ^ i \<le> ?b * 2 ^ card (?S n)" by (simp add: power_increasing)
        from le_less_trans [OF this small] i lt show "i \<in> ?S n" by simp
      qed
      then have "card {..card (?S n)} \<le> card (?S n)" by (rule card_mono [OF fin])
      then show False by simp
    qed
  qed
  then show ?case by (simp add: grow_backoff_timer Suc.IH step)
qed simp

text \<open>
  The back-off with which a series of attempts starts: the configured one when the loss has not been
  reported yet, the thread's own otherwise.
\<close>

definition series_start :: "'n client \<Rightarrow> KeepaliveLocals \<Rightarrow> KeepaliveLocals" where
  "series_start st l =
     (if cs_trigger_disconnect_callback st = Some True
      then l\<lparr>kl_reconnect_backoff_timer := cs_min_reconnect_backoff_timeout st,
            kl_max_backoff_value := cs_max_reconnect_backoff_timeout st\<rparr>
      else l)"

lemma try_reconnect_failed:
  assumes "try_reconnect runner wait go p_nc l st = Inr (rc, l', sleep, st')" "0 < sleep"
  shows "l' = grow_backoff (series_start st l) \<and> sleep = 1000 * kl_reconnect_backoff_timer l' \<and>
    cs_trigger_disconnect_callback st' = Some False \<and> rc \<noteq> MQTT_CONNACK_CONNECTION_ACCEPTED"
proof -
  obtain pending where p: "cs_trigger_disconnect_callback st = Some pending"
    using assms(1) by (cases "cs_trigger_disconnect_callback st") (auto simp: try_reconnect_def Let_def)
  then show ?thesis
    using assms
    by (cases pending)
      (auto simp: try_reconnect_def Let_def bind_res_Inr_iff series_start_def setDisconnectCallbackPending_def
        notify_disconnect_def log_event_def split: if_splits option.splits)
qed

text \<open>Attempts that all fail, with whatever the other threads do between them.\<close>

inductive failing_attempts ::
  "(action_data option \<Rightarrow> 'n client \<Rightarrow> (ResponseCode \<times> action_data option \<times> 'n client) res)
   \<Rightarrow> ('n client \<Rightarrow> 'n client) \<Rightarrow> (nat \<Rightarrow> 'n client \<Rightarrow> 'n client) \<Rightarrow> ('n \<Rightarrow> bool) \<Rightarrow> 'n NetworkConnection option
   \<Rightarrow> nat \<Rightarrow> KeepaliveLocals \<times> 'n client \<Rightarrow> KeepaliveLocals \<times> 'n client \<Rightarrow> bool"
  for runner wait pause go p_nc where
  none: "failing_attempts runner wait pause go p_nc 0 s s"
| again: "failing_attempts runner wait pause go p_nc k s (l, st) \<Longrightarrow>
    try_reconnect runner wait go p_nc l st = Inr (rc, l', sleep, st') \<Longrightarrow> 0 < sleep \<Longrightarrow>
    failing_attempts runner wait pause go p_nc (Suc k) s (l', pause sleep st')"

inductive_cases failing_attempts_SucE: "failing_attempts runner wait pause go p_nc (Suc k) s t"

definition keeps_trigger_flag :: "(nat \<Rightarrow> 'n client \<Rightarrow> 'n client) \<Rightarrow> bool" where
  "keeps_trigger_flag pause \<longleftrightarrow>
     (\<forall>t st. cs_trigger_disconnect_callback (pause t st) = cs_trigger_disconnect_callback st)"

lemma failing_attempts_locals:
  assumes "failing_attempts runner wait pause go p_nc k s t" "keeps_trigger_flag pause"
  shows "k = 0 \<and> t = s \<or> fst t = (grow_backoff ^^ k) (series_start (snd s) (fst s)) \<and>
    cs_trigger_disconnect_callback (snd t) = Some False"
  using assms(1)
proof (induction rule: failing_attempts.induct)
  case (again k s l st rc l' sleep st')
  note f = try_reconnect_failed [OF again(2,3)]
  have flag: "cs_trigger_disconnect_callback (pause sleep st') = Some False"
    using f assms(2) by (simp add: keeps_trigger_flag_def)
  from again.IH show ?case
  proof
    assume "k = 0 \<and> (l, st) = s"
    with f flag show ?thesis by auto
  next
    assume h: "fst (l, st) = (grow_backoff ^^ k) (series_start (snd s) (fst s)) \<and>
      cs_trigger_disconnect_callback (snd (l, st)) = Some False"
    then have "series_start st l = l" by (simp add: series_start_def)
    with f flag h show ?thesis by simp
  qed
qed simp

text \<open>after k failed attempts to reconnect the client waits the minimal back-off doubled once for every
  wait that was below the maximum: the last wait is below twice the maximum (or is the minimum), and the doubling goes
  on until the maximum is reached.\<close>

theorem reconnect_backoff:
  assumes "failing_attempts runner wait pause go p_nc k (l, st) (l', st')" "keeps_trigger_flag pause" "0 < k"
    and "cs_trigger_disconnect_callback st = Some True"
    and "b = cs_min_reconnect_backoff_timeout st" "m = cs_max_reconnect_backoff_timeout st"
  shows "kl_reconnect_backoff_timer l' = b * 2 ^ card {i. i < k \<and> b * 2 ^ i < m} \<and>
    (if b < m then kl_reconnect_backoff_timer l' < 2 * m else kl_reconnect_backoff_timer l' = b)"
proof -
  have l': "l' = (grow_backoff ^^ k) (series_start st l)"
    using failing_attempts_locals [OF assms(1,2)] assms(3) by auto
  let ?S = "{i. i < k \<and> b * 2 ^ i < m}"
  have t: "kl_reconnect_backoff_timer l' = b * 2 ^ card ?S"
    unfolding l' backoff_iterate using assms(4-6) by (simp add: series_start_def)
  show ?thesis
  proof (cases "b < m")
    case False
    then have "?S = {}"
      by (auto simp: not_less) (metis le_trans mult_le_mono2 nat_mult_1_right not_less one_le_numeral one_le_power)
    then have "kl_reconnect_backoff_timer l' = b" using t by (simp only: card.empty power_0 mult_1_right)
    then show ?thesis using t False by simp
  next
    case True
    have "b * 2 ^ card ?S < 2 * m"
    proof (cases "card ?S")
      case (Suc j)
      have "finite ?S" by simp
      have "\<exists>i \<in> ?S. j \<le> i"
      proof (rule ccontr)
        assume "\<not> (\<exists>i \<in> ?S. j \<le> i)"
        then have "?S \<subseteq> {..<j}" by (auto simp: not_le)
        then have "card ?S \<le> j" using card_mono [of "{..<j}" ?S] by simp
        with Suc show False by simp
      qed
      then obtain i where i: "j \<le> i" "b * 2 ^ i < m" by auto
      from i(1) have "b * 2 ^ j \<le> b * 2 ^ i" by (simp add: power_increasing)
      from le_less_trans [OF this i(2)] show ?thesis using Suc by simp
    next
      case 0
      show ?thesis unfolding 0 using True by simp
    qed
    with True t show ?thesis by simp
  qed
qed


section \<open>Reporting a loss\<close>

definition losses :: "'n client \<Rightarrow> event list" where
  "losses st = filter (\<lambda>e. case e of Ev_Disconnect h c d \<Rightarrow> True | _ \<Rightarrow> False) (ccs_events st)"

interpretation loss: request_property "\<lambda>st. losses st = F" for F
  by unfold_locales
    (auto simp: losses_def SetConnected_def SetProcessQueuedActions_def Let_def RegisterPendingAck_def
      DeletePendingAck_def sub_update_def bind_res_Inr_iff GetNextPacketId_def split: option.splits)

text \<open>The other threads report no loss: only this thread does.\<close>

definition reports_no_loss ::
  "(action_data option \<Rightarrow> 'n client \<Rightarrow> (ResponseCode \<times> action_data option \<times> 'n client) res)
   \<Rightarrow> ('n client \<Rightarrow> 'n client) \<Rightarrow> bool" where
  "reports_no_loss runner wait \<longleftrightarrow>
     (\<forall>d st rc d' st'. runner d st = Inr (rc, d', st') \<longrightarrow> losses st' = losses st) \<and>
     (\<forall>st. losses (wait st) = losses st)"

lemma losses_client_request:
  assumes "client_request runner wait t d st = Inr (rc, d', st')" "reports_no_loss runner wait"
  shows "losses st' = losses st"
  using assms(2) by (auto intro!: loss.keeps_client_request [OF assms(1) refl] simp: reports_no_loss_def)

definition loss_report :: "'n client \<Rightarrow> event list" where
  "loss_report st =
     (case (ccs_disconnect_handler st, reconnect_packet st) of
        (Some h, Some p) \<Rightarrow> [Ev_Disconnect h (GetClientID p) (ccs_disconnect_app_handler_data st)]
      | _ \<Rightarrow> [])"

lemma losses_simps [simp]:
  "losses (notify_disconnect st) = losses st @ loss_report st"
  "losses (setDisconnectCallbackPending v st) = losses st"
  "losses (st\<lparr>cs_is_pingreq_pending := b\<rparr>) = losses st"
  by (simp_all add: losses_def notify_disconnect_def loss_report_def setDisconnectCallbackPending_def log_event_def
      split: option.split)

lemma loss_report_pingreq [simp]: "loss_report (st\<lparr>cs_is_pingreq_pending := b\<rparr>) = loss_report st"
  by (simp add: loss_report_def reconnect_packet_def cong: option.case_cong)

lemma losses_notify_reconnect: "notify_reconnect p rc st = Inr st' \<Longrightarrow> losses st' = losses st"
  by (auto simp: notify_reconnect_def losses_def log_event_def bind_res_Inr_iff split: option.splits)

lemma losses_failed_attempt:
  assumes "try_reconnect runner wait go p_nc l st = Inr (rc, l', sleep, st')" "0 < sleep" "reports_no_loss runner wait"
  shows "losses st' = losses st @ (if cs_trigger_disconnect_callback st = Some True then loss_report st else [])"
proof -
  obtain pending where p: "cs_trigger_disconnect_callback st = Some pending"
    using assms(1) by (cases "cs_trigger_disconnect_callback st") (auto simp: try_reconnect_def Let_def)
  define st1 where "st1 = (if pending then notify_disconnect (st\<lparr>cs_is_pingreq_pending := False\<rparr>)
      else st\<lparr>cs_is_pingreq_pending := False\<rparr>)"
  obtain rc2 d2 st2 st3 where
    req: "client_request runner wait AT_CONNECT (map_option fst (as_connect_packet (cs_connect_data st1))) st1 = Inr (rc2, d2, st2)" and
    told: "notify_reconnect (reconnect_packet st1) rc2 st2 = Inr st3" and
    st': "st' = setDisconnectCallbackPending False st3"
    using assms(1,2) p unfolding try_reconnect_def Let_def st1_def
    by (auto simp: bind_res_Inr_iff split: if_splits)
  show ?thesis
    using losses_client_request [OF req assms(3)] losses_notify_reconnect [OF told] st' p by (simp add: st1_def)
qed

text \<open>however many attempts to reconnect fail, the application is told of the loss exactly once, before the
  first one.\<close>

theorem loss_reported_once:
  assumes "failing_attempts runner wait pause go p_nc k (l, st) (l', st')" "keeps_trigger_flag pause" "0 < k"
    and "cs_trigger_disconnect_callback st = Some True" "reports_no_loss runner wait"
    and "\<And>t st. losses (pause t st) = losses st"
  shows "losses st' = losses st @ loss_report st"
proof -
  have "losses (snd t) = losses (snd s) @ (if k = 0 then [] else loss_report (snd s))"
    if "failing_attempts runner wait pause go p_nc k s t" "cs_trigger_disconnect_callback (snd s) = Some True" for k s t
    using that
  proof (induction rule: failing_attempts.induct)
    case (again k s l st rc l' sleep st')
    note step = losses_failed_attempt [OF again(2,3) assms(5)]
    from failing_attempts_locals [OF again(1) assms(2)] show ?case
    proof
      assume "k = 0 \<and> (l, st) = s"
      then have "s = (l, st)" by simp
      with step again.prems assms(6) show ?thesis by simp
    next
      assume h: "fst (l, st) = (grow_backoff ^^ k) (series_start (snd s) (fst s)) \<and>
        cs_trigger_disconnect_callback (snd (l, st)) = Some False"
      have "snd s \<noteq> st" using h again.prems by auto
      then have "k \<noteq> 0" using again(1) by (auto elim: failing_attempts.cases)
      with step h again.IH [OF again.prems] assms(6) show ?thesis by simp
    qed
  qed simp
  from this [OF assms(1)] assms(3,4) show ?thesis by simp
qed

section \<open>An unanswered ping\<close>

lemma deactivate_all_pending: "deactivate_all m st = Inr st' \<Longrightarrow> ccs_pending_ack_map st' = ccs_pending_ack_map st"
proof (induction m arbitrary: st)
  case (Cons e m)
  then show ?case by (cases e) (auto simp: bind_res_Inr_iff sub_update_def split: option.splits)
qed simp

lemma DisconnectAction_pending:
  "DisconnectAction_PerformAction p_nc d st = Inr (rc, d', st') \<Longrightarrow> ccs_pending_ack_map st' = ccs_pending_ack_map st"
  by (auto simp: DisconnectAction_PerformAction_def bind_res_Inr_iff SetConnected_def SetProcessQueuedActions_def Let_def
      case_prod_unfold dest!: deactivate_all_pending client_write_state split: if_splits option.splits action_payload.splits)

lemma disconnect_request:
  assumes "client_ok st" "honest_writer nc" "ccs_network_connection st = Some nc" "cs_is_connected st"
    and "map_find (ccs_action_map st) AT_DISCONNECT = Some DisconnectActionAsync"
    and "map_find (ccs_pending_ack_map st) (fst (GetNextPacketId st)) = None"
  shows "\<exists>d st'. client_request runner wait AT_DISCONNECT (Some disconnect_data) st = Inr (SUCCESS, d, st') \<and>
    \<not> cs_is_connected st' \<and> cs_subscription_map st' = cs_subscription_map st \<and>
    (\<forall>(name, r) \<in> set (cs_subscription_map st'). \<not> sub_is_active (cs_subscriptions st' ! r))"
proof -
  let ?st0 = "st\<lparr>ccs_sync_action_response := Some MQTT_REQUEST_TIMEOUT_ERROR\<rparr>"
  obtain i st1 where id: "GetNextPacketId ?st0 = (i, st1)" by force
  then have i: "i = fst (GetNextPacketId st)"
    and st1: "client_ok st1" "cs_is_connected st1" "ccs_network_connection st1 = Some nc"
      "ccs_pending_ack_map st1 = ccs_pending_ack_map st" "cs_subscription_map st1 = cs_subscription_map st"
    using assms(1,3,4) client_ok_GetNextPacketId [of ?st0] by (auto simp: GetNextPacketId_def Let_def)
  let ?d = "disconnect_data\<lparr>ad_async_ack_handler := Some SyncHandler, ad_action_id := i\<rparr>"
  have "ad_payload ?d = DisconnectData DisconnectPacket_new" by (simp add: disconnect_data_def)
  from DisconnectAction_effect [OF st1(1) assms(2) st1(2) this] obtain st2 where
    st2: "DisconnectAction_PerformAction (Some nc) (Some ?d) st1 = Inr (SUCCESS, Some ?d, st2)"
      "\<not> cs_is_connected st2" "cs_subscription_map st2 = cs_subscription_map st1"
      "\<forall>(name, r) \<in> set (cs_subscription_map st2). \<not> sub_is_active (cs_subscriptions st2 ! r)" by blast
  have "map_find (ccs_pending_ack_map st2) i = None"
    using DisconnectAction_pending [OF st2(1)] st1(4) assms(6) i by simp
  then have "client_request runner wait AT_DISCONNECT (Some disconnect_data) st = Inr (SUCCESS, Some ?d, st2)"
    using assms(5) id st1(3) st2(1) by (simp add: client_request_def PerformAction_def perform_action_def Let_def)
  with st2(2-4) st1(5) show ?thesis by metis
qed

text \<open>when a ping is still unanswered at the next deadline, a connected client disconnects: the iteration
  ends without a fault, all subscriptions are inactive and the next iteration is asked to reconnect.\<close>

theorem unanswered_ping_disconnects:
  assumes "client_ok st" "honest_writer nc" "ccs_network_connection st = Some nc" "cs_is_connected st"
    and "map_find (ccs_action_map st) AT_DISCONNECT = Some DisconnectActionAsync"
    and "map_find (ccs_pending_ack_map st) (fst (GetNextPacketId st)) = None"
    and "cs_is_pingreq_pending st" "\<not> cs_is_auto_reconnect_required st" "kl_next l < int (ccs_now st)"
  shows "\<exists>st'. keepalive_once runner wait go p_nc rc l st = Inr (SUCCESS, l, 0, st') \<and>
    \<not> cs_is_connected st' \<and> cs_is_auto_reconnect_required st' \<and> cs_subscription_map st' = cs_subscription_map st \<and>
    (\<forall>(name, r) \<in> set (cs_subscription_map st'). \<not> sub_is_active (cs_subscriptions st' ! r))"
proof -
  obtain d st1 where r: "client_request runner wait AT_DISCONNECT (Some disconnect_data) st = Inr (SUCCESS, d, st1)"
    "\<not> cs_is_connected st1" "cs_subscription_map st1 = cs_subscription_map st"
    "\<forall>(name, r) \<in> set (cs_subscription_map st1). \<not> sub_is_active (cs_subscriptions st1 ! r)"
    using disconnect_request [OF assms(1-6)] by blast
  then have "keepalive_once runner wait go p_nc rc l st = Inr (SUCCESS, l, 0, SetAutoReconnectRequired True st1)"
    using assms(4,7-9) by (simp add: keepalive_once_def ping_step_def give_up_def)
  with r(2-4) show ?thesis by (simp add: SetAutoReconnectRequired_def)
qed


section \<open>The properties at concrete inputs\<close>

text \<open>
  A client that has lost its connection, has not told the application yet and cannot connect, since no
  action is registered for that. The minimal back-off is 3 s, the maximal 5 s.
\<close>

definition sample_lost_client :: "script_device client" where
  "sample_lost_client = sample_net_client\<lparr>cs_is_connected := False, cs_trigger_disconnect_callback := Some True,
     cs_min_reconnect_backoff_timeout := 3, cs_max_reconnect_backoff_timeout := 5,
     ccs_disconnect_handler := Some 7, cs_connect_data := Some (sample_action (ConnectData (sample_connect [])))\<rparr>"

definition sample_locals :: KeepaliveLocals where
  "sample_locals = \<lparr>kl_reconnect_backoff_timer = 1, kl_max_backoff_value = 128, kl_keep_alive_interval = 15, kl_next = 0\<rparr>"

definition idle :: "nat \<Rightarrow> 'n client \<Rightarrow> 'n client" where
  "idle t st = st\<lparr>ccs_now := ccs_now st + t\<rparr>"

definition told_client :: "script_device client" where
  "told_client = setDisconnectCallbackPending False
     (notify_disconnect (sample_lost_client\<lparr>cs_is_pingreq_pending := False\<rparr>))"

definition told_locals :: KeepaliveLocals where
  "told_locals = sample_locals\<lparr>kl_reconnect_backoff_timer := 6, kl_max_backoff_value := 5\<rparr>"

lemmas lost_simps = sample_lost_client_def sample_net_simps sample_action_def

lemma first_attempt:
  "try_reconnect no_runner id (\<lambda>_. True) None sample_locals sample_lost_client
     = Inr (ACTION_NOT_REGISTERED_ERROR, told_locals, 6000, told_client)"
  by (simp add: try_reconnect_def lost_simps client_request_def PerformAction_def map_find_def notify_reconnect_def
      reconnect_packet_def as_connect_packet_def notify_disconnect_def log_event_def grow_backoff_def
      told_client_def told_locals_def sample_locals_def setDisconnectCallbackPending_def)

lemma second_attempt:
  "try_reconnect no_runner id (\<lambda>_. True) None told_locals (idle 6000 told_client)
     = Inr (ACTION_NOT_REGISTERED_ERROR, told_locals, 6000, idle 6000 told_client)"
  by (simp add: try_reconnect_def lost_simps client_request_def PerformAction_def map_find_def notify_reconnect_def
      reconnect_packet_def as_connect_packet_def notify_disconnect_def log_event_def grow_backoff_def idle_def
      told_client_def told_locals_def sample_locals_def setDisconnectCallbackPending_def)

lemma two_attempts:
  "failing_attempts no_runner id idle (\<lambda>_. True) None 2 (sample_locals, sample_lost_client)
     (told_locals, idle 6000 (idle 6000 told_client))"
proof -
  have "failing_attempts no_runner id idle (\<lambda>_. True) None (Suc 0) (sample_locals, sample_lost_client)
     (told_locals, idle 6000 told_client)"
    by (rule failing_attempts.again [OF failing_attempts.none first_attempt]) simp
  from failing_attempts.again [OF this second_attempt] show ?thesis by (simp add: numeral_2_eq_2)
qed

lemma idle_keeps: "keeps_trigger_flag idle" "losses (idle t st) = losses st"
  by (simp_all add: keeps_trigger_flag_def idle_def losses_def)

theorem reconnect_backoff_witness:
  "kl_reconnect_backoff_timer told_locals = 3 * 2 ^ card {i. i < (2::nat) \<and> 3 * 2 ^ i < (5::nat)} \<and>
   kl_reconnect_backoff_timer told_locals < 2 * 5"
proof -
  have "cs_trigger_disconnect_callback sample_lost_client = Some True"
    "3 = cs_min_reconnect_backoff_timeout sample_lost_client" "5 = cs_max_reconnect_backoff_timeout sample_lost_client"
    by (simp_all add: sample_lost_client_def)
  from reconnect_backoff [OF two_attempts idle_keeps(1) _ this] show ?thesis by simp
qed

theorem loss_reported_once_witness:
  "losses (idle 6000 (idle 6000 told_client)) = [Ev_Disconnect 7 (GetClientID (sample_connect [])) None]"
proof -
  have report: "loss_report sample_lost_client = [Ev_Disconnect 7 (GetClientID (sample_connect [])) None]"
    and none: "losses sample_lost_client = []" and flag: "cs_trigger_disconnect_callback sample_lost_client = Some True"
    by (simp_all add: lost_simps loss_report_def reconnect_packet_def as_connect_packet_def losses_def)
  have "reports_no_loss no_runner id" by (simp add: reports_no_loss_def no_runner_def)
  from loss_reported_once [OF two_attempts idle_keeps(1) _ flag this idle_keeps(2)] show ?thesis
    unfolding report none by simp
qed

theorem keepalive_keeps_client_ok_witness:
  "\<exists>st'. Keepalive_PerformAction 1 no_runner id idle (\<lambda>_. False) None (sample_net_client\<lparr>cs_keep_alive_timeout := Some 30\<rparr>)
     = Inr (SUCCESS, st') \<and> client_ok st'"
proof -
  let ?st = "sample_net_client\<lparr>cs_keep_alive_timeout := Some 30\<rparr>"
  obtain st' where r: "Keepalive_PerformAction 1 no_runner id idle (\<lambda>_. False) None ?st = Inr (SUCCESS, st')"
    by (simp add: Keepalive_PerformAction_def keepalive_once_def ping_step_def setDisconnectCallbackPending_def Let_def
        sample_net_simps half_def)
  have "client_ok ?st" by (simp add: sample_net_client_ok)
  from keepalive_keeps_client_ok [OF r this] r show ?thesis
    by (simp add: runner_keeps_def keeps_def no_runner_def pause_keeps_def idle_def)
qed

theorem resubscribe_in_batches_witness:
  "resubscribe (\<lambda>_. True) (Some script_connection) MQTT_CONNACK_CONNECTION_ACCEPTED sample_net_client
     = send_batches (\<lambda>_. True) (Some script_connection) [[0]] MQTT_CONNACK_CONNECTION_ACCEPTED sample_net_client"
proof -
  have "never_accepts (Some script_connection)"
    by (simp add: never_accepts_def Write_nc_def script_connection_def Let_def)
  from resubscribe_in_batches [OF this] show ?thesis by (simp add: sample_net_fields batches.simps [of "[0]"])
qed

theorem unanswered_ping_disconnects_witness:
  "\<exists>st'. keepalive_once no_runner id (\<lambda>_. True) (Some script_connection) SUCCESS sample_locals
     (sample_net_client\<lparr>ccs_network_connection := Some script_connection, ccs_now := 1, cs_is_pingreq_pending := True,
        ccs_action_map := [(AT_DISCONNECT, DisconnectActionAsync)]\<rparr>) = Inr (SUCCESS, sample_locals, 0, st') \<and>
     \<not> cs_is_connected st' \<and> cs_is_auto_reconnect_required st'"
proof -
  let ?st = "sample_net_client\<lparr>ccs_network_connection := Some script_connection, ccs_now := 1, cs_is_pingreq_pending := True,
        ccs_action_map := [(AT_DISCONNECT, DisconnectActionAsync)]\<rparr>"
  have "client_ok ?st"
    using sample_net_client_ok by (simp add: client_ok_def core_ok_def subs_ok_def map_wf_def)
  then have "\<exists>st'. keepalive_once no_runner id (\<lambda>_. True) (Some script_connection) SUCCESS sample_locals ?st
        = Inr (SUCCESS, sample_locals, 0, st') \<and>
      \<not> cs_is_connected st' \<and> cs_is_auto_reconnect_required st' \<and> cs_subscription_map st' = cs_subscription_map ?st \<and>
      (\<forall>(name, r) \<in> set (cs_subscription_map st'). \<not> sub_is_active (cs_subscriptions st' ! r))"
    by (rule unanswered_ping_disconnects [OF _ script_honest])
      (simp_all add: sample_net_simps map_find_def sample_locals_def)
  then show ?thesis by blast
qed

end
