(* ===== verification/ClientCore.thy ===== *)
theory ClientCore
  imports KeepAlive "HOL-Library.Multiset"
begin

text \<open>
  \<open>ClientCore\<close> and \<open>ThreadTask\<close> (\<^verbatim>\<open>src/ClientCore.cpp\<close>, \<^verbatim>\<open>src/util/threading/ThreadTask.cpp\<close>): the threads of a
  client and the requests it hands on to its state.

  The thread tasks live in a store, an index is a \<open>shared_ptr<ThreadTask>\<close>; the thread map holds indices.
  A task whose last pointer goes is destroyed: its flag is cleared, and its thread is waited for. While
  a thread waits the others run: \<open>others\<close> is what they do to the state.
\<close>

datatype DestructorAction = JOIN | DETACH

record ThreadTask =
  tt_destructor_action :: DestructorAction
  tt_continue :: bool
  tt_joinable :: bool
  tt_running :: bool

definition ThreadTask_new :: "DestructorAction \<Rightarrow> bool \<Rightarrow> ThreadTask" where
  "ThreadTask_new destructor_action sync_point =
     \<lparr>tt_destructor_action = destructor_action, tt_continue = sync_point, tt_joinable = False, tt_running = False\<rparr>"

definition ThreadTask_Run :: "ThreadTask \<Rightarrow> ThreadTask" where
  "ThreadTask_Run t = t\<lparr>tt_joinable := True, tt_running := True\<rparr>"

definition ThreadTask_Stop :: "ThreadTask \<Rightarrow> ThreadTask" where
  "ThreadTask_Stop t = t\<lparr>tt_continue := False\<rparr>"

text \<open>Joining returns when the function of the thread has returned; a detached thread may go on.\<close>

definition ThreadTask_destroy :: "ThreadTask \<Rightarrow> ThreadTask" where
  "ThreadTask_destroy t =
     (let t = ThreadTask_Stop t in
      if tt_joinable t then
        (if tt_destructor_action t = JOIN then t\<lparr>tt_joinable := False, tt_running := False\<rparr>
         else t\<lparr>tt_joinable := False\<rparr>)
      else t)"

record 'n ClientCore =
  core_thread_map :: "(ActionType \<times> nat) list"
  core_threads :: "ThreadTask list"
  core_client_state :: "'n client"

definition destroy_thread :: "nat \<Rightarrow> 'n ClientCore \<Rightarrow> 'n ClientCore" where
  "destroy_thread i core = core\<lparr>core_threads := (core_threads core)[i := ThreadTask_destroy (core_threads core ! i)]\<rparr>"

section \<open>Construction and the thread tasks\<close>

definition ClientCore_new :: "'n NetworkConnection \<Rightarrow> 'n client \<Rightarrow> 'n ClientCore" where
  "ClientCore_new nc st =
     (let st = st\<lparr>ccs_network_connection := Some nc\<rparr>;
          st = SetProcessQueuedActions False st;
          thread_task_out = ThreadTask_new JOIN True
      in \<lparr>core_thread_map = map_insert CORE_PROCESS_OUTBOUND 0 [],
          core_threads = [ThreadTask_Run thread_task_out],
          core_client_state = st\<rparr>)"

definition ClientCore_Create :: "'n NetworkConnection option \<Rightarrow> 'n client option \<Rightarrow> 'n ClientCore option" where
  "ClientCore_Create p_nc p_state =
     (case (p_nc, p_state) of (Some nc, Some st) \<Rightarrow> Some (ClientCore_new nc st) | _ \<Rightarrow> None)"

definition ClientCore_RegisterAction :: "ActionType \<Rightarrow> mqtt_action option option \<Rightarrow> 'n ClientCore \<Rightarrow> ResponseCode \<times> 'n ClientCore" where
  "ClientCore_RegisterAction action_type p_action_create_handler core =
     (case RegisterAction action_type p_action_create_handler (core_client_state core) of
        (rc, st) \<Rightarrow> (rc, core\<lparr>core_client_state := st\<rparr>))"

definition ClientCore_PerformAction ::
  "(action_data option \<Rightarrow> 'n client \<Rightarrow> (ResponseCode \<times> action_data option \<times> 'n client) res)
   \<Rightarrow> ('n client \<Rightarrow> 'n client) \<Rightarrow> ActionType \<Rightarrow> action_data option \<Rightarrow> 'n ClientCore
   \<Rightarrow> (ResponseCode \<times> 'n ClientCore) res" where
  "ClientCore_PerformAction runner wait action_type p_action_data core =
     bind_res (client_request runner wait action_type p_action_data (core_client_state core)) (\<lambda>(rc, d, st).
       Inr (rc, core\<lparr>core_client_state := st\<rparr>))"

definition PerformActionAsync ::
  "ActionType \<Rightarrow> action_data option \<Rightarrow> u16 \<Rightarrow> 'n ClientCore \<Rightarrow> (ResponseCode \<times> u16 \<times> 'n ClientCore) res" where
  "PerformActionAsync action_type p_action_data action_id_out core =
     bind_res (EnqueueOutboundAction GetNextPacketId action_type p_action_data action_id_out (core_client_state core))
       (\<lambda>(rc, i, d, st). Inr (rc, i, core\<lparr>core_client_state := st\<rparr>))"

text \<open>
  Starting a runner. \<open>insert\<close> leaves an entry of the thread map alone: then the only pointer to the new
  task is the local one, and the thread is stopped and joined when the function returns.
\<close>

definition CreateActionRunner ::
  "('n client \<Rightarrow> 'n client) \<Rightarrow> ActionType \<Rightarrow> 'n ClientCore \<Rightarrow> (ResponseCode \<times> 'n ClientCore) res" where
  "CreateActionRunner others action_type core =
     (case GetActionCreateHandler action_type (core_client_state core) of
        (rc, p_action_create_handler) \<Rightarrow>
          if rc \<noteq> SUCCESS then Inr (rc, core)
          else
            bind_res (deref p_action_create_handler) (\<lambda>p_action.
              case p_action of
                None \<Rightarrow> Inr (NULL_VALUE_ERROR, core)
              | Some action \<Rightarrow>
                  let i = length (core_threads core);
                      present = map_find (core_thread_map core) action_type \<noteq> None;
                      thread_task = ThreadTask_new JOIN True;
                      core = core\<lparr>core_thread_map := map_insert action_type i (core_thread_map core),
                                  core_threads := core_threads core @ [ThreadTask_Run thread_task]\<rparr>
                  in Inr (rc, if present
                              then destroy_thread i (core\<lparr>core_client_state := others (core_client_state core)\<rparr>)
                              else core)))"

text \<open>Clearing the map destroys its tasks; the order is not specified, here it is that of the keys.\<close>

fun clear_threads :: "('n client \<Rightarrow> 'n client) \<Rightarrow> (ActionType \<times> nat) list \<Rightarrow> 'n ClientCore \<Rightarrow> 'n ClientCore" where
  "clear_threads others [] core = core"
| "clear_threads others ((t, i) # m) core =
     clear_threads others m (destroy_thread i (core\<lparr>core_client_state := others (core_client_state core)\<rparr>))"

definition GracefulShutdownAllThreadTasks :: "('n client \<Rightarrow> 'n client) \<Rightarrow> 'n ClientCore \<Rightarrow> 'n ClientCore" where
  "GracefulShutdownAllThreadTasks others core =
     (clear_threads others (core_thread_map core) core)\<lparr>core_thread_map := []\<rparr>"

section \<open>The threads that run are those of the map\<close>

definition threads_ok :: "'n ClientCore \<Rightarrow> bool" where
  "threads_ok core \<longleftrightarrow>
     map_wf (core_thread_map core) \<and> distinct (map snd (core_thread_map core)) \<and>
     (\<forall>i \<in> snd ` set (core_thread_map core). i < length (core_threads core)) \<and>
     (\<forall>i < length (core_threads core).
        let t = core_threads core ! i in
        tt_running t = (i \<in> snd ` set (core_thread_map core)) \<and> tt_joinable t = tt_running t \<and>
        tt_continue t = tt_running t \<and> tt_destructor_action t = JOIN)"

lemmas task_simps = ThreadTask_new_def ThreadTask_Run_def ThreadTask_Stop_def ThreadTask_destroy_def Let_def

lemma threads_ok_new: "threads_ok (ClientCore_new nc st)"
  by (simp add: threads_ok_def ClientCore_new_def task_simps map_wf_def)

lemma threads_ok_state [simp]: "threads_ok (core\<lparr>core_client_state := st\<rparr>) = threads_ok core"
  by (simp add: threads_ok_def)

lemma map_insert_present: "map_wf m \<Longrightarrow> map_find m k \<noteq> None \<Longrightarrow> map_insert k v m = m"
proof (induction m)
  case (Cons e m)
  then show ?case by (cases e) (fastforce simp: map_find_def map_wf_Cons dest: map_of_SomeD split: if_splits)
qed (simp add: map_find_def)

lemma mset_map_insert: "map_find m k = None \<Longrightarrow> mset (map_insert k v m) = add_mset (k, v) (mset m)"
  by (induction m) (auto simp: map_find_def split: if_splits)

lemma snd_map_insert:
  assumes "map_find m k = None"
  shows "set (map_insert k v m) = insert (k, v) (set m)"
    and "distinct (map snd (map_insert k v m)) = (distinct (map snd m) \<and> v \<notin> snd ` set m)"
proof -
  show "set (map_insert k v m) = insert (k, v) (set m)"
    using arg_cong [OF mset_map_insert [OF assms], of set_mset v] by simp
  have "mset (map snd (map_insert k v m)) = mset (v # map snd m)"
    using mset_map_insert [OF assms, of v] by simp
  from mset_eq_imp_distinct_iff [OF this]
  show "distinct (map snd (map_insert k v m)) = (distinct (map snd m) \<and> v \<notin> snd ` set m)" by auto
qed

text \<open>
  Creating a runner either starts exactly one thread, or, when there is one of this type already,
  leaves the map and the threads of the map as they were, and the thread it started has ended.
\<close>

lemma CreateActionRunner_cases:
  assumes "threads_ok core" "map_find (ccs_action_create_handler_map (core_client_state core)) t = Some (Some a)"
  shows "\<exists>core'. CreateActionRunner others t core = Inr (SUCCESS, core') \<and> threads_ok core' \<and>
    length (core_threads core') = Suc (length (core_threads core)) \<and>
    take (length (core_threads core)) (core_threads core') = core_threads core \<and>
    (case map_find (core_thread_map core) t of
       None \<Rightarrow> map_find (core_thread_map core') t = Some (length (core_threads core)) \<and>
         core_client_state core' = core_client_state core
     | Some i \<Rightarrow> core_thread_map core' = core_thread_map core \<and>
         \<not> tt_running (last (core_threads core')) \<and> core_client_state core' = others (core_client_state core))"
proof (cases "map_find (core_thread_map core) t")
  case None
  note wf = snd_map_insert [OF None, of "length (core_threads core)"]
  have "map_wf (core_thread_map core)" using assms(1) by (simp add: threads_ok_def)
  with wf assms None show ?thesis
    by (auto simp: CreateActionRunner_def GetActionCreateHandler_def task_simps threads_ok_def map_wf_insert
        map_find_insert nth_append less_Suc_eq)
next
  case (Some i)
  have "map_wf (core_thread_map core)" using assms(1) by (simp add: threads_ok_def)
  then have same: "map_insert t (length (core_threads core)) (core_thread_map core) = core_thread_map core"
    using Some by (simp add: map_insert_present)
  show ?thesis
    using assms Some
    by (auto simp: CreateActionRunner_def GetActionCreateHandler_def same task_simps destroy_thread_def threads_ok_def
        nth_append nth_list_update less_Suc_eq)
qed

lemma destroy_idem: "ThreadTask_destroy (ThreadTask_destroy t) = ThreadTask_destroy t"
  by (simp add: task_simps)

lemma clear_threads_effect:
  assumes "\<forall>i \<in> snd ` set m. i < length (core_threads core)"
  shows "core_threads (clear_threads others m core) =
    map (\<lambda>j. if j \<in> snd ` set m then ThreadTask_destroy (core_threads core ! j) else core_threads core ! j)
      [0 ..< length (core_threads core)]"
  using assms
proof (induction m arbitrary: core)
  case Nil
  then show ?case by (simp add: map_nth)
next
  case (Cons e m)
  obtain t i where e: "e = (t, i)" by force
  let ?core = "destroy_thread i (core\<lparr>core_client_state := others (core_client_state core)\<rparr>)"
  have "core_threads (clear_threads others (e # m) core) =
    map (\<lambda>j. if j \<in> snd ` set m then ThreadTask_destroy (core_threads ?core ! j) else core_threads ?core ! j)
      [0 ..< length (core_threads ?core)]"
    using Cons by (simp add: e destroy_thread_def)
  then show ?case
    using Cons.prems by (auto simp: e destroy_thread_def nth_list_update destroy_idem)
qed

lemma shutdown_no_threads:
  assumes "threads_ok core"
  shows "threads_ok (GracefulShutdownAllThreadTasks others core) \<and>
    (\<forall>t \<in> set (core_threads (GracefulShutdownAllThreadTasks others core)). \<not> tt_running t \<and> \<not> tt_continue t)"
proof -
  let ?m = "core_thread_map core" and ?ts = "core_threads core"
  have ts: "core_threads (GracefulShutdownAllThreadTasks others core) =
    map (\<lambda>j. if j \<in> snd ` set ?m then ThreadTask_destroy (?ts ! j) else ?ts ! j) [0 ..< length ?ts]"
    using assms clear_threads_effect [of ?m core others]
    by (simp add: GracefulShutdownAllThreadTasks_def threads_ok_def)
  have "\<not> tt_running t \<and> \<not> tt_continue t \<and> \<not> tt_joinable t \<and> tt_destructor_action t = JOIN"
    if "t \<in> set (core_threads (GracefulShutdownAllThreadTasks others core))" for t
    using that assms unfolding ts by (auto simp: threads_ok_def task_simps split: if_splits)
  then show ?thesis
    by (auto simp: threads_ok_def Let_def GracefulShutdownAllThreadTasks_def)
qed

text \<open>starting a runner of a type that has a thread already leaves the map of threads alone; the thread
  that was started has been stopped and has ended when the function returns.\<close>

theorem second_runner_stopped:
  assumes "threads_ok core" "map_find (ccs_action_create_handler_map (core_client_state core)) t = Some (Some a)"
    and "map_find (core_thread_map core) t = Some i"
  shows "\<exists>core'. CreateActionRunner others t core = Inr (SUCCESS, core') \<and>
    core_thread_map core' = core_thread_map core \<and> \<not> tt_running (last (core_threads core')) \<and>
    butlast (core_threads core') = core_threads core"
proof -
  from CreateActionRunner_cases [OF assms(1,2), of others] assms(3)
  obtain core' where c: "CreateActionRunner others t core = Inr (SUCCESS, core')"
    "core_thread_map core' = core_thread_map core" "\<not> tt_running (last (core_threads core'))"
    "length (core_threads core') = Suc (length (core_threads core))"
    "take (length (core_threads core)) (core_threads core') = core_threads core"
    by auto
  have "butlast (core_threads core') = core_threads core" using c(4,5) by (simp add: butlast_conv_take)
  with c show ?thesis by blast
qed

end
