(* ===== verification/MqttClient.thy ===== *)
theory MqttClient
  imports ClientCore
begin

text \<open>
  The interface of the client (\<^verbatim>\<open>src/mqtt/Client.cpp\<close>, \<^verbatim>\<open>include/mqtt/Client.hpp\<close>): construction, the
  synchronous and the asynchronous requests, the settings and the destructor.

  A client is its core; the pointer \<open>p_client_state_\<close> is the state of the core. A request gets the
  other threads as \<open>runner\<close> and \<open>wait\<close>; the time-out of the caller is the end of \<open>wait\<close>. Subscriptions
  are passed as pointers into the store of the state.
\<close>

type_synonym 'n MqttClient = "'n ClientCore"

definition new_request :: "ack_handler option \<Rightarrow> action_payload \<Rightarrow> action_data" where
  "new_request h p = \<lparr>ad_async_ack_handler = h, ad_action_id = 0, ad_payload = p\<rparr>"

section \<open>Construction\<close>

text \<open>The six arguments: callback and context data for disconnect, reconnect and resubscribe.\<close>

record callbacks =
  cb_disconnect :: "nat option"
  cb_disconnect_data :: "nat option"
  cb_reconnect :: "nat option"
  cb_reconnect_data :: "nat option"
  cb_resubscribe :: "nat option"
  cb_resubscribe_data :: "nat option"

definition no_callbacks :: callbacks where
  "no_callbacks = \<lparr>cb_disconnect = None, cb_disconnect_data = None, cb_reconnect = None, cb_reconnect_data = None,
     cb_resubscribe = None, cb_resubscribe_data = None\<rparr>"

definition client_actions :: "(ActionType \<times> mqtt_action) list" where
  "client_actions =
     [(AT_CONNECT, ConnectActionAsync), (AT_PUBLISH, PublishActionAsync), (AT_PUBACK, PubackActionAsync),
      (AT_SUBSCRIBE, SubscribeActionAsync), (AT_UNSUBSCRIBE, UnsubscribeActionAsync),
      (AT_DISCONNECT, DisconnectActionAsync), (READ_INCOMING, NetworkReadActionRunner),
      (KEEP_ALIVE, KeepaliveActionRunner)]"

fun register_all :: "(ActionType \<times> mqtt_action) list \<Rightarrow> 'n MqttClient \<Rightarrow> 'n MqttClient" where
  "register_all [] core = core"
| "register_all ((t, a) # acts) core = register_all acts (snd (ClientCore_RegisterAction t (Some (Some a)) core))"

text \<open>The device and the clock of the new state are \<open>net\<close> and \<open>now\<close>.\<close>

definition MqttClient_new :: "'n NetworkConnection \<Rightarrow> nat \<Rightarrow> callbacks \<Rightarrow> 'n \<Rightarrow> nat \<Rightarrow> ('n MqttClient) res" where
  "MqttClient_new nc mqtt_command_timeout cb net now =
     (let st = (ClientState_new mqtt_command_timeout net now)
            \<lparr>ccs_disconnect_handler := cb_disconnect cb, ccs_disconnect_app_handler_data := cb_disconnect_data cb,
             ccs_reconnect_handler := cb_reconnect cb, ccs_reconnect_app_handler_data := cb_reconnect_data cb,
             ccs_resubscribe_handler := cb_resubscribe cb, ccs_resubscribe_app_handler_data := cb_resubscribe_data cb\<rparr>
      in bind_res (deref (ClientCore_Create (Some nc) (Some st))) (\<lambda>core.
           Inr (register_all client_actions core)))"

definition MqttClient_Create ::
  "'n NetworkConnection option \<Rightarrow> nat \<Rightarrow> callbacks \<Rightarrow> 'n \<Rightarrow> nat \<Rightarrow> ('n MqttClient option) res" where
  "MqttClient_Create p_nc mqtt_command_timeout cb net now =
     (case p_nc of
        None \<Rightarrow> Inr None
      | Some nc \<Rightarrow> bind_res (MqttClient_new nc mqtt_command_timeout cb net now) (\<lambda>c. Inr (Some c)))"

section \<open>Synchronous requests\<close>

definition Connect ::
  "(action_data option \<Rightarrow> 'n client \<Rightarrow> (ResponseCode \<times> action_data option \<times> 'n client) res)
   \<Rightarrow> ('n client \<Rightarrow> 'n client) \<Rightarrow> ('n client \<Rightarrow> 'n client) \<Rightarrow> bytes \<Rightarrow> bool \<Rightarrow> Version \<Rightarrow> int \<Rightarrow> Utf8String option
   \<Rightarrow> WillOptions option \<Rightarrow> bool \<Rightarrow> 'n MqttClient \<Rightarrow> (ResponseCode \<times> 'n MqttClient) res" where
  "Connect runner wait others sdk_version is_clean_session mqtt_version keep_alive_timeout p_client_id p_will_msg
     is_metrics_enabled c =
     bind_res (CreateActionRunner others READ_INCOMING c) (\<lambda>(rc1, c).
     bind_res (CreateActionRunner others KEEP_ALIVE c) (\<lambda>(rc2, c).
     bind_res (ConnectPacket_new sdk_version is_clean_session mqtt_version keep_alive_timeout p_client_id p_will_msg
                 is_metrics_enabled) (\<lambda>p.
       ClientCore_PerformAction runner wait AT_CONNECT (Some (new_request None (ConnectData p))) c)))"

definition Disconnect ::
  "(action_data option \<Rightarrow> 'n client \<Rightarrow> (ResponseCode \<times> action_data option \<times> 'n client) res)
   \<Rightarrow> ('n client \<Rightarrow> 'n client) \<Rightarrow> 'n MqttClient \<Rightarrow> (ResponseCode \<times> 'n MqttClient) res" where
  "Disconnect runner wait c =
     ClientCore_PerformAction runner wait AT_DISCONNECT (Some (new_request None (DisconnectData DisconnectPacket_new))) c"

definition Publish ::
  "(action_data option \<Rightarrow> 'n client \<Rightarrow> (ResponseCode \<times> action_data option \<times> 'n client) res)
   \<Rightarrow> ('n client \<Rightarrow> 'n client) \<Rightarrow> Utf8String option \<Rightarrow> bool \<Rightarrow> bool \<Rightarrow> QoS \<Rightarrow> bytes
   \<Rightarrow> 'n MqttClient \<Rightarrow> (ResponseCode \<times> 'n MqttClient) res" where
  "Publish runner wait p_topic_name is_retained is_duplicate qos payload c =
     (case p_topic_name of
        None \<Rightarrow> Inr (MQTT_INVALID_DATA_ERROR, c)
      | Some topic \<Rightarrow>
          ClientCore_PerformAction runner wait AT_PUBLISH
            (Some (new_request None (PublishData (PublishPacket_new topic is_retained is_duplicate qos payload)))) c)"

definition Subscribe ::
  "(action_data option \<Rightarrow> 'n client \<Rightarrow> (ResponseCode \<times> action_data option \<times> 'n client) res)
   \<Rightarrow> ('n client \<Rightarrow> 'n client) \<Rightarrow> nat list \<Rightarrow> 'n MqttClient \<Rightarrow> (ResponseCode \<times> 'n MqttClient) res" where
  "Subscribe runner wait subscription_list c =
     (if subscription_list = [] then Inr (MQTT_INVALID_DATA_ERROR, c)
      else if MAX_TOPICS_IN_ONE_SUBSCRIBE_PACKET < length subscription_list
      then Inr (MQTT_TOO_MANY_SUBSCRIPTIONS_IN_REQUEST, c)
      else
        bind_res (SubscribePacket_new (core_client_state c) subscription_list) (\<lambda>p.
          ClientCore_PerformAction runner wait AT_SUBSCRIBE (Some (new_request None (SubscribeData p))) c))"

definition Unsubscribe ::
  "(action_data option \<Rightarrow> 'n client \<Rightarrow> (ResponseCode \<times> action_data option \<times> 'n client) res)
   \<Rightarrow> ('n client \<Rightarrow> 'n client) \<Rightarrow> Utf8String option list \<Rightarrow> 'n MqttClient \<Rightarrow> (ResponseCode \<times> 'n MqttClient) res" where
  "Unsubscribe runner wait topic_list c =
     (if topic_list = [] then Inr (MQTT_INVALID_DATA_ERROR, c)
      else if MAX_TOPICS_IN_ONE_SUBSCRIBE_PACKET < length topic_list
      then Inr (MQTT_TOO_MANY_SUBSCRIPTIONS_IN_REQUEST, c)
      else
        bind_res (UnsubscribePacket_new topic_list) (\<lambda>p.
          ClientCore_PerformAction runner wait AT_UNSUBSCRIBE (Some (new_request None (UnsubscribeData p))) c))"

section \<open>Asynchronous requests\<close>

definition PublishAsync ::
  "Utf8String option \<Rightarrow> bool \<Rightarrow> bool \<Rightarrow> QoS \<Rightarrow> bytes \<Rightarrow> ack_handler option \<Rightarrow> u16 \<Rightarrow> 'n MqttClient
   \<Rightarrow> (ResponseCode \<times> u16 \<times> 'n MqttClient) res" where
  "PublishAsync p_topic_name is_retained is_duplicate qos payload p_async_ack_handler packet_id_out c =
     (case p_topic_name of
        None \<Rightarrow> Inr (MQTT_INVALID_DATA_ERROR, packet_id_out, c)
      | Some topic \<Rightarrow>
          PerformActionAsync AT_PUBLISH
            (Some (new_request p_async_ack_handler
               (PublishData (PublishPacket_new topic is_retained is_duplicate qos payload)))) packet_id_out c)"

definition SubscribeAsync ::
  "nat list \<Rightarrow> ack_handler option \<Rightarrow> u16 \<Rightarrow> 'n MqttClient \<Rightarrow> (ResponseCode \<times> u16 \<times> 'n MqttClient) res" where
  "SubscribeAsync subscription_list p_async_ack_handler packet_id_out c =
     (if subscription_list = [] then Inr (MQTT_INVALID_DATA_ERROR, packet_id_out, c)
      else if MAX_TOPICS_IN_ONE_SUBSCRIBE_PACKET < length subscription_list
      then Inr (MQTT_TOO_MANY_SUBSCRIPTIONS_IN_REQUEST, packet_id_out, c)
      else
        bind_res (SubscribePacket_new (core_client_state c) subscription_list) (\<lambda>p.
          PerformActionAsync AT_SUBSCRIBE (Some (new_request p_async_ack_handler (SubscribeData p))) packet_id_out c))"

definition UnsubscribeAsync ::
  "Utf8String option list \<Rightarrow> ack_handler option \<Rightarrow> u16 \<Rightarrow> 'n MqttClient \<Rightarrow> (ResponseCode \<times> u16 \<times> 'n MqttClient) res" where
  "UnsubscribeAsync topic_list p_async_ack_handler packet_id_out c =
     (if topic_list = [] then Inr (MQTT_INVALID_DATA_ERROR, packet_id_out, c)
      else if MAX_TOPICS_IN_ONE_SUBSCRIBE_PACKET < length topic_list
      then Inr (MQTT_TOO_MANY_SUBSCRIPTIONS_IN_REQUEST, packet_id_out, c)
      else
        bind_res (UnsubscribePacket_new topic_list) (\<lambda>p.
          PerformActionAsync AT_UNSUBSCRIBE (Some (new_request p_async_ack_handler (UnsubscribeData p))) packet_id_out c))"

section \<open>Settings\<close>

definition on_state :: "('n client \<Rightarrow> 'n client) \<Rightarrow> 'n MqttClient \<Rightarrow> 'n MqttClient" where
  "on_state f c = c\<lparr>core_client_state := f (core_client_state c)\<rparr>"

definition IsConnected :: "'n MqttClient \<Rightarrow> bool" where
  "IsConnected c = cs_is_connected (core_client_state c)"

definition SetAutoReconnectEnabled :: "bool \<Rightarrow> 'n MqttClient \<Rightarrow> 'n MqttClient" where
  "SetAutoReconnectEnabled v = on_state (\<lambda>st. st\<lparr>cs_is_auto_reconnect_enabled := v\<rparr>)"

definition IsAutoReconnectEnabled :: "'n MqttClient \<Rightarrow> bool" where
  "IsAutoReconnectEnabled c = cs_is_auto_reconnect_enabled (core_client_state c)"

definition GetMinReconnectBackoffTimeout :: "'n MqttClient \<Rightarrow> nat" where
  "GetMinReconnectBackoffTimeout c = cs_min_reconnect_backoff_timeout (core_client_state c)"

definition SetMinReconnectBackoffTimeout :: "nat \<Rightarrow> 'n MqttClient \<Rightarrow> 'n MqttClient" where
  "SetMinReconnectBackoffTimeout v = on_state (\<lambda>st. st\<lparr>cs_min_reconnect_backoff_timeout := v\<rparr>)"

definition GetMaxReconnectBackoffTimeout :: "'n MqttClient \<Rightarrow> nat" where
  "GetMaxReconnectBackoffTimeout c = cs_max_reconnect_backoff_timeout (core_client_state c)"

definition SetMaxReconnectBackoffTimeout :: "nat \<Rightarrow> 'n MqttClient \<Rightarrow> 'n MqttClient" where
  "SetMaxReconnectBackoffTimeout v = on_state (\<lambda>st. st\<lparr>cs_max_reconnect_backoff_timeout := v\<rparr>)"

definition SetDisconnectCallbackPtr :: "nat option \<Rightarrow> nat option \<Rightarrow> 'n MqttClient \<Rightarrow> ResponseCode \<times> 'n MqttClient" where
  "SetDisconnectCallbackPtr p_callback p_data c =
     (SUCCESS, on_state (\<lambda>st. st\<lparr>ccs_disconnect_handler := p_callback, ccs_disconnect_app_handler_data := p_data\<rparr>) c)"

definition SetReconnectCallbackPtr :: "nat option \<Rightarrow> nat option \<Rightarrow> 'n MqttClient \<Rightarrow> ResponseCode \<times> 'n MqttClient" where
  "SetReconnectCallbackPtr p_callback p_data c =
     (SUCCESS, on_state (\<lambda>st. st\<lparr>ccs_reconnect_handler := p_callback, ccs_reconnect_app_handler_data := p_data\<rparr>) c)"

definition SetResubscribeCallbackPtr :: "nat option \<Rightarrow> nat option \<Rightarrow> 'n MqttClient \<Rightarrow> ResponseCode \<times> 'n MqttClient" where
  "SetResubscribeCallbackPtr p_callback p_data c =
     (SUCCESS, on_state (\<lambda>st. st\<lparr>ccs_resubscribe_handler := p_callback, ccs_resubscribe_app_handler_data := p_data\<rparr>) c)"

section \<open>Destruction\<close>

definition MqttClient_destroy ::
  "(action_data option \<Rightarrow> 'n client \<Rightarrow> (ResponseCode \<times> action_data option \<times> 'n client) res)
   \<Rightarrow> ('n client \<Rightarrow> 'n client) \<Rightarrow> ('n client \<Rightarrow> 'n client) \<Rightarrow> 'n MqttClient \<Rightarrow> ('n MqttClient) res" where
  "MqttClient_destroy runner wait others c =
     bind_res (if IsConnected c then bind_res (Disconnect runner wait c) (\<lambda>(rc, c). Inr c) else Inr c) (\<lambda>c.
       let c = GracefulShutdownAllThreadTasks others c;
           c = on_state ClearRegisteredActions c
       in Inr (on_state ClearOutboundActionQueue c))"

section \<open>A new client\<close>

lemma RegisterAction_new:
  assumes "threads_ok c" "client_ok (core_client_state c)" "map_find (ccs_action_map (core_client_state c)) t = None"
    and "map_find (ccs_action_create_handler_map (core_client_state c)) t = None"
  shows "\<exists>st. ClientCore_RegisterAction t (Some (Some a)) c = (SUCCESS, c\<lparr>core_client_state := st\<rparr>) \<and> client_ok st \<and>
    map_find (ccs_action_map st) = (map_find (ccs_action_map (core_client_state c)))(t \<mapsto> a) \<and>
    map_find (ccs_action_create_handler_map st)
      = (map_find (ccs_action_create_handler_map (core_client_state c)))(t \<mapsto> Some a) \<and>
    ccs_network_connection st = ccs_network_connection (core_client_state c) \<and>
    cs_is_connected st = cs_is_connected (core_client_state c)"
proof -
  let ?st = "core_client_state c"
  let ?new = "?st\<lparr>ccs_action_create_handler_map := map_insert t (Some a) (ccs_action_create_handler_map ?st),
    ccs_action_map := map_insert t a (ccs_action_map ?st)\<rparr>"
  have wf: "map_wf (ccs_action_map ?st)" "map_wf (ccs_action_create_handler_map ?st)"
    using assms(2) by (simp_all add: client_ok_def core_ok_def)
  have "ClientCore_RegisterAction t (Some (Some a)) c = (SUCCESS, c\<lparr>core_client_state := ?new\<rparr>)"
    using assms(4) wf by (simp add: ClientCore_RegisterAction_def RegisterAction_def GetActionCreateHandler_def map_find_insert Let_def)
  moreover have "client_ok ?new"
    using assms(2) by (simp add: client_ok_def core_ok_def subs_ok_def map_wf_insert)
  moreover have "map_find (ccs_action_map ?new) = (map_find (ccs_action_map ?st))(t \<mapsto> a)"
    "map_find (ccs_action_create_handler_map ?new) = (map_find (ccs_action_create_handler_map ?st))(t \<mapsto> Some a)"
    using assms(3,4) wf by (auto simp: map_find_insert)
  ultimately show ?thesis by (intro exI [of _ ?new]) simp
qed

lemma register_all_new:
  assumes "threads_ok c" "client_ok (core_client_state c)" "distinct (map fst acts)"
    and "\<forall>(t, a) \<in> set acts. map_find (ccs_action_map (core_client_state c)) t = None \<and>
      map_find (ccs_action_create_handler_map (core_client_state c)) t = None"
  shows "threads_ok (register_all acts c) \<and> client_ok (core_client_state (register_all acts c)) \<and>
    core_thread_map (register_all acts c) = core_thread_map c \<and>
    (\<forall>t. map_find (ccs_action_map (core_client_state (register_all acts c))) t =
      (case map_of acts t of Some a \<Rightarrow> Some a | None \<Rightarrow> map_find (ccs_action_map (core_client_state c)) t)) \<and>
    (\<forall>t. map_find (ccs_action_create_handler_map (core_client_state (register_all acts c))) t =
      (case map_of acts t of Some a \<Rightarrow> Some (Some a)
       | None \<Rightarrow> map_find (ccs_action_create_handler_map (core_client_state c)) t)) \<and>
    ccs_network_connection (core_client_state (register_all acts c)) = ccs_network_connection (core_client_state c) \<and>
    cs_is_connected (core_client_state (register_all acts c)) = cs_is_connected (core_client_state c)"
  using assms
proof (induction acts arbitrary: c)
  case (Cons e acts)
  obtain t a where e: "e = (t, a)" by force
  obtain st where st: "ClientCore_RegisterAction t (Some (Some a)) c = (SUCCESS, c\<lparr>core_client_state := st\<rparr>)" "client_ok st"
    "map_find (ccs_action_map st) = (map_find (ccs_action_map (core_client_state c)))(t \<mapsto> a)"
    "map_find (ccs_action_create_handler_map st)
      = (map_find (ccs_action_create_handler_map (core_client_state c)))(t \<mapsto> Some a)"
    "ccs_network_connection st = ccs_network_connection (core_client_state c)"
    "cs_is_connected st = cs_is_connected (core_client_state c)"
    using RegisterAction_new [OF Cons.prems(1,2), of t a] Cons.prems(4) by (auto simp: e)
  have t: "t \<notin> fst ` set acts" using Cons.prems(3) by (auto simp: e)
  then have none: "map_of acts t = None" by (simp add: map_of_eq_None_iff)
  let ?c = "c\<lparr>core_client_state := st\<rparr>"
  have "\<forall>(t', a') \<in> set acts. map_find (ccs_action_map st) t' = None \<and> map_find (ccs_action_create_handler_map st) t' = None"
    using Cons.prems(4) st(3,4) t by (force simp: e)
  then have IH: "threads_ok (register_all acts ?c)" "client_ok (core_client_state (register_all acts ?c))"
    "core_thread_map (register_all acts ?c) = core_thread_map c"
    "\<And>t. map_find (ccs_action_map (core_client_state (register_all acts ?c))) t =
      (case map_of acts t of Some a \<Rightarrow> Some a | None \<Rightarrow> map_find (ccs_action_map st) t)"
    "\<And>t. map_find (ccs_action_create_handler_map (core_client_state (register_all acts ?c))) t =
      (case map_of acts t of Some a \<Rightarrow> Some (Some a) | None \<Rightarrow> map_find (ccs_action_create_handler_map st) t)"
    "ccs_network_connection (core_client_state (register_all acts ?c)) = ccs_network_connection st"
    "cs_is_connected (core_client_state (register_all acts ?c)) = cs_is_connected st"
    using Cons.IH [of ?c] Cons.prems(1,3) st(2) by (simp_all add: e cong: option.case_cong)
  have step: "register_all (e # acts) c = register_all acts ?c" by (simp add: e st(1))
  show ?case
    unfolding step IH(3-7) using IH(1,2) st(3-6) none by (auto simp: e split: option.split)
qed simp

definition registered :: "'n client \<Rightarrow> bool" where
  "registered st \<longleftrightarrow> (\<forall>(t, a) \<in> set client_actions. map_find (ccs_action_map st) t = Some a \<and>
     map_find (ccs_action_create_handler_map st) t = Some (Some a))"

lemma new_client_works:
  "\<exists>c. MqttClient_Create (Some nc) tmo cb net now = Inr (Some c) \<and> client_ok (core_client_state c) \<and> threads_ok c \<and>
    registered (core_client_state c) \<and> ccs_network_connection (core_client_state c) = Some nc \<and> \<not> IsConnected c \<and>
    map fst (core_thread_map c) = [CORE_PROCESS_OUTBOUND]"
proof -
  define st where "st = (ClientState_new tmo net now :: 'a client)
            \<lparr>ccs_disconnect_handler := cb_disconnect cb, ccs_disconnect_app_handler_data := cb_disconnect_data cb,
             ccs_reconnect_handler := cb_reconnect cb, ccs_reconnect_app_handler_data := cb_reconnect_data cb,
             ccs_resubscribe_handler := cb_resubscribe cb, ccs_resubscribe_app_handler_data := cb_resubscribe_data cb\<rparr>"
  let ?core = "ClientCore_new nc st"
  have new: "MqttClient_Create (Some nc) tmo cb net now = Inr (Some (register_all client_actions ?core))"
    by (simp add: MqttClient_Create_def MqttClient_new_def ClientCore_Create_def st_def)
  have fields: "ccs_action_map (core_client_state ?core) = []" "ccs_action_create_handler_map (core_client_state ?core) = []"
    "ccs_network_connection (core_client_state ?core) = Some nc" "\<not> cs_is_connected (core_client_state ?core)"
    "map fst (core_thread_map ?core) = [CORE_PROCESS_OUTBOUND]"
    by (simp_all add: ClientCore_new_def SetProcessQueuedActions_def st_def ClientState_new_def
        ClientCoreState_new_def ClientCoreState.defs ClientState.defs Let_def)
  have ok: "client_ok (core_client_state ?core)"
    by (simp add: ClientCore_new_def SetProcessQueuedActions_def st_def ClientState_new_def client_ok_def core_ok_def
        subs_ok_def ClientCoreState_new_def ClientCoreState.defs ClientState.defs Let_def)
  have "\<forall>(t, a) \<in> set client_actions. map_find (ccs_action_map (core_client_state ?core)) t = None \<and>
      map_find (ccs_action_create_handler_map (core_client_state ?core)) t = None"
    by (simp add: fields map_find_def)
  moreover have dist: "distinct (map fst client_actions)" by (simp add: client_actions_def)
  ultimately have all: "threads_ok (register_all client_actions ?core)"
    "client_ok (core_client_state (register_all client_actions ?core))"
    "core_thread_map (register_all client_actions ?core) = core_thread_map ?core"
    "\<And>t. map_find (ccs_action_map (core_client_state (register_all client_actions ?core))) t =
      (case map_of client_actions t of Some a \<Rightarrow> Some a | None \<Rightarrow> None)"
    "\<And>t. map_find (ccs_action_create_handler_map (core_client_state (register_all client_actions ?core))) t =
      (case map_of client_actions t of Some a \<Rightarrow> Some (Some a) | None \<Rightarrow> None)"
    "ccs_network_connection (core_client_state (register_all client_actions ?core)) = Some nc"
    "\<not> cs_is_connected (core_client_state (register_all client_actions ?core))"
    using register_all_new [OF threads_ok_new ok dist] fields(1-4) by (simp_all add: map_find_def cong: option.case_cong)
  have "registered (core_client_state (register_all client_actions ?core))"
    unfolding registered_def using map_of_is_SomeI [OF dist] by (auto simp: all(4,5))
  with new all(1,2,3,6,7) fields(5) show ?thesis by (simp add: IsConnected_def)
qed

lemma register_all_queue:
  "ccs_outbound_action_queue (core_client_state (register_all acts c)) = ccs_outbound_action_queue (core_client_state c)"
proof (induction acts arbitrary: c)
  case (Cons e acts)
  then show ?case
    by (cases e) (auto simp: ClientCore_RegisterAction_def RegisterAction_def Let_def case_prod_unfold split: option.split)
qed simp

lemma new_client_queue:
  "MqttClient_Create (Some nc) tmo cb net now = Inr (Some c) \<Longrightarrow> ccs_outbound_action_queue (core_client_state c) = []"
  by (auto simp: MqttClient_Create_def MqttClient_new_def ClientCore_Create_def bind_res_Inr_iff register_all_queue
      ClientCore_new_def SetProcessQueuedActions_def ClientState_new_def ClientCoreState_new_def ClientCoreState.defs
      ClientState.defs Let_def)

text \<open>a client created on a connection is well formed and not connected, has all eight actions
  registered, and runs exactly one thread, that of the outbound queue.\<close>

theorem new_client_ready:
  "\<exists>c. MqttClient_Create (Some nc) tmo cb net now = Inr (Some c) \<and> client_ok (core_client_state c) \<and> threads_ok c \<and>
    registered (core_client_state c) \<and> ccs_network_connection (core_client_state c) = Some nc \<and> \<not> IsConnected c \<and>
    map fst (core_thread_map c) = [CORE_PROCESS_OUTBOUND]"
  by (rule new_client_works)

section \<open>A request and its answer\<close>

text \<open>No action writes the slot of the synchronous response.\<close>

interpretation response: state_property "\<lambda>st :: 'n client. ccs_sync_action_response st = F" for F
  by unfold_locales
    (auto simp: SetConnected_def SetProcessQueuedActions_def Let_def RegisterPendingAck_def DeletePendingAck_def
      sub_update_def bind_res_Inr_iff split: option.splits)

text \<open>What the reader does to the waiting request when the answer \<open>r\<close> of the broker arrives, if it does.\<close>

definition answer_arrives :: "u16 \<Rightarrow> ResponseCode option \<Rightarrow> 'n client \<Rightarrow> 'n client" where
  "answer_arrives i r st = (case r of None \<Rightarrow> st | Some rc \<Rightarrow> ForwardReceivedAck i rc st)"

lemma GetNextPacketId_st: "GetNextPacketId st = (fst (GetNextPacketId st), st\<lparr>cs_last_sent_packet_id := fst (GetNextPacketId st)\<rparr>)"
  by (simp add: GetNextPacketId_def Let_def)

text \<open>C5: a synchronous publish with QoS 1 returns the answer of the broker, or a time-out when there is none,
  if the connection took the packet, and a failure if it did not; the acknowledgement stays pending only in the case
  of the time-out.\<close>

theorem publish_answered:
  assumes "client_ok (core_client_state c)" "honest_writer nc" "ccs_network_connection (core_client_state c) = Some nc"
    and "map_find (ccs_action_map (core_client_state c)) AT_PUBLISH = Some PublishActionAsync"
    and "publish_size topic QOS1 payload \<le> MAX_MQTT_PACKET_REM_LEN_BYTES" "sendable topic"
    and "i = fst (GetNextPacketId (core_client_state c))" "map_find (ccs_pending_ack_map (core_client_state c)) i = None"
  shows "\<exists>rc c' bs. Publish runner (answer_arrives i r) (Some topic) ret dup QOS1 payload c = Inr (rc, c') \<and>
    PublishPacket_ToString (PublishPacket_new topic ret dup QOS1 payload) i = Inr bs \<and>
    (if \<exists>n. Write_nc nc bs 0 (ccs_net (core_client_state c)) = (SUCCESS, length bs, n)
     then rc = (case r of None \<Rightarrow> MQTT_REQUEST_TIMEOUT_ERROR | Some rc \<Rightarrow> rc) \<and>
       (map_find (ccs_pending_ack_map (core_client_state c')) i \<noteq> None \<longleftrightarrow> r = None)
     else rc \<noteq> SUCCESS \<and> map_find (ccs_pending_ack_map (core_client_state c')) i = None)"
proof -
  let ?st = "core_client_state c" and ?p = "PublishPacket_new topic ret dup QOS1 payload"
  let ?st1 = "?st\<lparr>ccs_sync_action_response := Some MQTT_REQUEST_TIMEOUT_ERROR, cs_last_sent_packet_id := i\<rparr>"
  let ?d = "\<lparr>ad_async_ack_handler = Some SyncHandler, ad_action_id = i, ad_payload = PublishData ?p\<rparr>"
  have id: "GetNextPacketId (?st\<lparr>ccs_sync_action_response := Some MQTT_REQUEST_TIMEOUT_ERROR\<rparr>) = (i, ?st1)"
    using assms(7) by (simp add: GetNextPacketId_def Let_def)
  have ok1: "client_ok ?st1" using assms(1) by simp
  obtain rc st2 bs where act: "PublishAction_PerformAction (Some nc) (Some ?d) ?st1 = Inr (rc, Some ?d, st2)"
    and bs: "PublishPacket_ToString ?p i = Inr bs"
    and pend: "if rc = SUCCESS then Write_nc nc bs 0 (ccs_net ?st1) = (SUCCESS, length bs, ccs_net st2) \<and>
       map_find (ccs_pending_ack_map st2) i = Some \<lparr>pa_time_of_request = ccs_now ?st1, pa_async_ack_handler = SyncHandler\<rparr>
     else map_find (ccs_pending_ack_map st2) i = None"
    and sent: "rc = SUCCESS \<longleftrightarrow> (\<exists>n. Write_nc nc bs 0 (ccs_net ?st1) = (SUCCESS, length bs, n))"
    using PublishAction_pending [OF ok1 assms(2,5) _ assms(6), of ?d ret dup SyncHandler] assms(8) by auto
  have resp: "ccs_sync_action_response st2 = Some MQTT_REQUEST_TIMEOUT_ERROR"
    using response.keeps_Publish [OF act] by simp
  have perf: "perform_action runner PublishActionAsync ?d ?st1 = Inr (rc, ?d, st2)"
    using assms(3) act by (simp add: perform_action_def Let_def)
  let ?wait = "answer_arrives i r"
  have run: "Publish runner ?wait (Some topic) ret dup QOS1 payload c =
      (if rc = SUCCESS then bind_res (read_init (ccs_sync_action_response (?wait st2)))
          (\<lambda>rc. Inr (rc, c\<lparr>core_client_state := ?wait st2\<rparr>))
       else Inr (rc, c\<lparr>core_client_state := st2\<rparr>))"
    using assms(4) id perf pend
    by (cases "rc = SUCCESS")
      (simp_all add: Publish_def ClientCore_PerformAction_def client_request_def PerformAction_def new_request_def
        bind_res_assoc Let_def)
  show ?thesis
  proof (cases "rc = SUCCESS")
    case False
    then show ?thesis using run bs pend sent by simp
  next
    case True
    with pend have p: "map_find (ccs_pending_ack_map st2) i = Some \<lparr>pa_time_of_request = ccs_now ?st1, pa_async_ack_handler = SyncHandler\<rparr>"
      by simp
    show ?thesis
      using True run bs sent p resp
      by (cases r) (auto simp: answer_arrives_def ForwardReceivedAck_def run_ack_handler_def SyncActionHandler_def
          map_find_erase Let_def)
  qed
qed

section \<open>A callback that is not called\<close>

lemma PublishAction_qos0:
  assumes "honest_writer nc" "publish_size topic QOS0 payload \<le> MAX_MQTT_PACKET_REM_LEN_BYTES" "sendable topic"
    and "ad_payload d = PublishData (PublishPacket_new topic ret dup QOS0 payload)"
  shows "\<exists>rc n bs. PublishAction_PerformAction (Some nc) (Some d) st = Inr (rc, Some d, st\<lparr>ccs_net := n\<rparr>) \<and>
    PublishPacket_ToString (PublishPacket_new topic ret dup QOS0 payload) (ad_action_id d) = Inr bs \<and>
    (rc = SUCCESS \<longleftrightarrow> (\<exists>n'. Write_nc nc bs 0 (ccs_net st) = (SUCCESS, length bs, n'))) \<and>
    (rc = SUCCESS \<longrightarrow> Write_nc nc bs 0 (ccs_net st) = (SUCCESS, length bs, n))"
proof -
  let ?p = "PublishPacket_new topic ret dup QOS0 payload" and ?i = "ad_action_id d"
  obtain hdr body where bs: "PublishPacket_ToString ?p ?i = Inr (hdr @ body)"
    "length hdr = Length_header (header_of ?p)" "fh_remaining_length (header_of ?p) = length body"
    using publish_roundtrip' [OF assms(3,2), of ret dup ?i] by blast
  have "length (hdr @ body) \<le> 5 + publish_size topic QOS0 payload"
    using bs(2,3) packet_base_header [OF assms(2), of MT_PUBLISH dup QOS0 ret]
    by (simp add: publish_base(1) [OF assms(2)] Length_header_def GetRemainingLengthByteCount_def)
  then have short: "length (hdr @ body) < 2 ^ 31"
    using assms(2) by (simp add: MAX_MQTT_PACKET_REM_LEN_BYTES_def)
  have "hdr @ body \<noteq> []" using bs(2) by (auto simp: Length_header_def)
  then obtain rc n where w: "client_write one_execution (Some nc) (hdr @ body) st = Inr (rc, st\<lparr>ccs_net := n\<rparr>)"
    "rc = SUCCESS \<longrightarrow> Write_nc nc (hdr @ body) 0 (ccs_net st) = (SUCCESS, length (hdr @ body), n)"
    "rc = SUCCESS \<longleftrightarrow> (\<exists>n'. Write_nc nc (hdr @ body) 0 (ccs_net st) = (SUCCESS, length (hdr @ body), n'))"
    using client_write_total [OF assms(1) short] by blast
  have "PublishAction_PerformAction (Some nc) (Some d) st = Inr (rc, Some d, st\<lparr>ccs_net := n\<rparr>)"
    using assms(4) publish_base(4) [OF assms(2), of ret dup]
    by (simp add: PublishAction_PerformAction_def bs(1) w(1) Let_def)
  with bs(1) w(2,3) show ?thesis by blast
qed

text \<open>the callback of an asynchronous publish with QoS 0 is not called when the message is sent: the bytes go
  out, no event is recorded, and the callback stays pending under an identifier that no acknowledgement will carry.\<close>

theorem qos0_callback_left_pending:
  assumes "client_ok (core_client_state c)" "honest_writer nc" "ccs_network_connection (core_client_state c) = Some nc"
    and "map_find (ccs_action_map (core_client_state c)) AT_PUBLISH = Some PublishActionAsync"
    and "publish_size topic QOS0 payload \<le> MAX_MQTT_PACKET_REM_LEN_BYTES" "sendable topic"
    and "i = fst (GetNextPacketId (core_client_state c))" "map_find (ccs_pending_ack_map (core_client_state c)) i = None"
    and "ccs_outbound_action_queue (core_client_state c) = []" "0 < ccs_max_queue_size (core_client_state c)"
    and "PublishPacket_ToString (PublishPacket_new topic ret dup QOS0 payload) i = Inr bs"
    and "Write_nc nc bs 0 (ccs_net (core_client_state c)) = (SUCCESS, length bs, n)"
  shows "\<exists>c' st'. PublishAsync (Some topic) ret dup QOS0 payload (Some h) out c = Inr (SUCCESS, i, c') \<and>
    process_outbound_once (perform_action runner) (core_client_state c') = Inr st' \<and>
    ccs_net st' = n \<and> ccs_outbound_action_queue st' = [] \<and> ccs_events st' = ccs_events (core_client_state c) \<and>
    map_find (ccs_pending_ack_map st') i
      = Some \<lparr>pa_time_of_request = ccs_now (core_client_state c), pa_async_ack_handler = h\<rparr>"
proof -
  let ?st = "core_client_state c" and ?p = "PublishPacket_new topic ret dup QOS0 payload"
  let ?d = "\<lparr>ad_async_ack_handler = Some h, ad_action_id = i, ad_payload = PublishData ?p\<rparr>"
  let ?st1 = "?st\<lparr>cs_last_sent_packet_id := i, ccs_outbound_action_queue := [(AT_PUBLISH, ?d)]\<rparr>"
  let ?st2 = "?st\<lparr>cs_last_sent_packet_id := i, ccs_outbound_action_queue := []\<rparr>"
  define st3 where "st3 = snd (RegisterPendingAck i (Some h) ?st2)"
  have enq: "PublishAsync (Some topic) ret dup QOS0 payload (Some h) out c = Inr (SUCCESS, i, c\<lparr>core_client_state := ?st1\<rparr>)"
    using assms(7,9,10) by (simp add: PublishAsync_def PerformActionAsync_def EnqueueOutboundAction_def new_request_def
        GetNextPacketId_def Let_def)
  have st3: "RegisterPendingAck i (Some h) ?st2 = (SUCCESS, st3)" "ccs_net st3 = ccs_net ?st"
    "ccs_events st3 = ccs_events ?st" "ccs_outbound_action_queue st3 = []" "ccs_network_connection st3 = Some nc"
    using assms(3) by (simp_all add: RegisterPendingAck_def st3_def)
  have pend: "map_find (ccs_pending_ack_map st3) i = Some \<lparr>pa_time_of_request = ccs_now ?st, pa_async_ack_handler = h\<rparr>"
    using assms(1,8) by (simp add: st3_def client_ok_def find_pending_RegisterPendingAck core_ok_def)
  obtain rc n' where act: "PublishAction_PerformAction (Some nc) (Some ?d) st3 = Inr (rc, Some ?d, st3\<lparr>ccs_net := n'\<rparr>)"
    and rc: "rc = SUCCESS \<longleftrightarrow> (\<exists>n'. Write_nc nc bs 0 (ccs_net st3) = (SUCCESS, length bs, n'))"
      "rc = SUCCESS \<longrightarrow> Write_nc nc bs 0 (ccs_net st3) = (SUCCESS, length bs, n')"
    using PublishAction_qos0 [OF assms(2,5,6), of ?d ret dup st3] assms(11) by auto
  from rc st3(2) assms(12) have "rc = SUCCESS" "n' = n" by auto
  with act have "perform_action runner PublishActionAsync ?d st3 = Inr (SUCCESS, ?d, st3\<lparr>ccs_net := n\<rparr>)"
    using st3(5) by (simp add: perform_action_def Let_def)
  then have "process_outbound_once (perform_action runner) ?st1 = Inr (st3\<lparr>ccs_net := n\<rparr>)"
    using assms(4) st3(1) by (simp add: process_outbound_once_def Let_def)
  with enq pend st3(3,4) show ?thesis
    by (intro exI [of _ "c\<lparr>core_client_state := ?st1\<rparr>"] exI [of _ "st3\<lparr>ccs_net := n\<rparr>"]) simp
qed

section \<open>The end of a client\<close>


section \<open>The properties at concrete inputs\<close>

text \<open>A connected client with all actions registered; the maps are in the order of the keys.\<close>

definition sample_registered :: "script_device client" where
  "sample_registered = sample_net_client\<lparr>ccs_network_connection := Some script_connection,
     ccs_action_map := [(AT_CONNECT, ConnectActionAsync), (AT_DISCONNECT, DisconnectActionAsync),
       (AT_PUBLISH, PublishActionAsync), (AT_PUBACK, PubackActionAsync), (AT_SUBSCRIBE, SubscribeActionAsync),
       (READ_INCOMING, NetworkReadActionRunner), (KEEP_ALIVE, KeepaliveActionRunner),
       (AT_UNSUBSCRIBE, UnsubscribeActionAsync)],
     ccs_action_create_handler_map := [(AT_CONNECT, Some ConnectActionAsync), (AT_DISCONNECT, Some DisconnectActionAsync),
       (AT_PUBLISH, Some PublishActionAsync), (AT_PUBACK, Some PubackActionAsync), (AT_SUBSCRIBE, Some SubscribeActionAsync),
       (READ_INCOMING, Some NetworkReadActionRunner), (KEEP_ALIVE, Some KeepaliveActionRunner),
       (AT_UNSUBSCRIBE, Some UnsubscribeActionAsync)]\<rparr>"

definition sample_core :: "script_device MqttClient" where
  "sample_core = \<lparr>core_thread_map = [(READ_INCOMING, 0)], core_threads = [ThreadTask_Run (ThreadTask_new JOIN True)],
     core_client_state = sample_registered\<rparr>"

lemma sample_registered_ok: "client_ok sample_registered"
  using sample_net_client_ok
  by (simp add: sample_registered_def client_ok_def core_ok_def subs_ok_def map_wf_def less_ActionType_def)

lemma sample_registered_registered: "registered sample_registered"
  by (simp add: registered_def client_actions_def sample_registered_def map_find_def)

lemma sample_core_ok: "threads_ok sample_core" "core_client_state sample_core = sample_registered"
  by (simp_all add: threads_ok_def sample_core_def task_simps map_wf_def)

lemma sample_registered_fields:
  "ccs_network_connection sample_registered = Some script_connection" "ccs_pending_ack_map sample_registered = []"
  "ccs_outbound_action_queue sample_registered = []" "ccs_net sample_registered = script [] 0 90"
  "ccs_events sample_registered = []" "fst (GetNextPacketId sample_registered) = 1"
  "ccs_max_queue_size sample_registered = DEFAULT_MAX_QUEUE_SIZE" "ccs_now sample_registered = 0"
  "map_find (ccs_action_map sample_registered) AT_PUBLISH = Some PublishActionAsync"
  "cs_is_connected sample_registered"
  by (simp_all add: sample_registered_def sample_net_simps GetNextPacketId_def map_find_def)

lemma find_none: "map_find [] k = None"
  by (simp add: map_find_def)

theorem second_runner_stopped_witness:
  "\<exists>c. CreateActionRunner id READ_INCOMING sample_core = Inr (SUCCESS, c) \<and>
    core_thread_map c = core_thread_map sample_core \<and> \<not> tt_running (last (core_threads c))"
proof -
  have "map_find (ccs_action_create_handler_map (core_client_state sample_core)) READ_INCOMING = Some (Some NetworkReadActionRunner)"
    by (simp add: sample_core_def sample_registered_def map_find_def)
  from second_runner_stopped [OF sample_core_ok(1) this, of 0 id] show ?thesis
    by (auto simp: sample_core_def map_find_def)
qed

theorem publish_answered_witness:
  "\<exists>rc c' bs. Publish no_runner (answer_arrives 1 (Some SUCCESS)) (Some (utf8_of [97])) False False QOS1 [1, 2] sample_core
      = Inr (rc, c') \<and>
    PublishPacket_ToString (PublishPacket_new (utf8_of [97]) False False QOS1 [1, 2]) 1 = Inr bs \<and>
    (if \<exists>n. Write_nc script_connection bs 0 (ccs_net sample_registered) = (SUCCESS, length bs, n)
     then rc = SUCCESS \<and> map_find (ccs_pending_ack_map (core_client_state c')) 1 = None
     else rc \<noteq> SUCCESS \<and> map_find (ccs_pending_ack_map (core_client_state c')) 1 = None)"
proof -
  have "sendable (utf8_of [97])" by (rule sendable_utf8_of) simp_all
  then show ?thesis
    using publish_answered [of sample_core script_connection "utf8_of [97]" "[1, 2]" 1 no_runner "Some SUCCESS" False False]
    by (simp add: sample_core_ok(2) sample_registered_ok script_honest sample_registered_fields sample_publish_size
        find_none cong: if_cong)
qed


lemma sample_qos0:
  "PublishPacket_ToString (PublishPacket_new (utf8_of [97]) False False QOS0 [1, 2]) 1 = Inr [0x30, 5, 0, 1, 97, 1, 2]"
  by (simp add: PublishPacket_ToString_def PublishPacket_new_def utf8_of_def size_add_def Packet.defs
      PublishPacket.defs packet_base_def Initialize_header_def AppendToBuffer_header_def encode_remaining_length.simps
      AppendUtf8StringToBuffer_def AppendUInt16ToBuffer_def MAX_MQTT_PACKET_REM_LEN_BYTES_def Let_def)

theorem qos0_callback_left_pending_witness:
  "\<exists>c' st'. PublishAsync (Some (utf8_of [97])) False False QOS0 [1, 2] (Some (AppHandler 4)) 0 sample_core = Inr (SUCCESS, 1, c') \<and>
    process_outbound_once (perform_action no_runner) (core_client_state c') = Inr st' \<and> ccs_events st' = [] \<and>
    map_find (ccs_pending_ack_map st') 1 = Some \<lparr>pa_time_of_request = 0, pa_async_ack_handler = AppHandler 4\<rparr>"
proof -
  have send: "sendable (utf8_of [97])" by (rule sendable_utf8_of) simp_all
  have size: "publish_size (utf8_of [97]) QOS0 [1, 2] \<le> MAX_MQTT_PACKET_REM_LEN_BYTES"
    by (simp add: publish_size_def utf8_of_def MAX_MQTT_PACKET_REM_LEN_BYTES_def)
  have w: "Write_nc script_connection [0x30, 5, 0, 1, 97, 1, 2] 0 (ccs_net (core_client_state sample_core))
      = (SUCCESS, length [0x30, 5, 0, 1, 97, 1, 2 :: u8], snd (snd (Write_nc script_connection [0x30, 5, 0, 1, 97, 1, 2] 0 (script [] 0 90))))"
    by (simp add: sample_core_ok(2) sample_registered_fields Write_nc_def script_connection_def script_def)
  show ?thesis
    using qos0_callback_left_pending [OF _ script_honest _ _ size send _ _ _ _ _ w, of 1 False False "AppHandler 4" 0 no_runner]
    by (auto simp: sample_core_ok(2) sample_registered_ok sample_registered_fields find_none sample_qos0
        DEFAULT_MAX_QUEUE_SIZE_def)
qed


end
