(* ===== verification/Requests.thy ===== *)
theory Requests
  imports MqttClient
begin

text \<open>
  Requests that can be served: a request fits its action type, its packet fits the protocol, and what it
  refers to exists. Performing such a request never faults, so the thread of the outbound queue makes
  progress on a queue of them.

  The subscriptions that a request points to live in the store of the state, of which only the names
  matter here; no operation changes a name that is there.
\<close>

definition names :: "'n client \<Rightarrow> Utf8String list" where
  "names st = map sub_topic_name (cs_subscriptions st)"

definition header_fits :: "('z) Packet_scheme \<Rightarrow> bool" where
  "header_fits p \<longleftrightarrow> fh_remaining_length (pk_fixed_header p) \<le> MAX_MQTT_PACKET_REM_LEN_BYTES"

definition topic_fits :: "Utf8String option \<Rightarrow> bool" where
  "topic_fits t = (case t of None \<Rightarrow> False | Some u \<Rightarrow> sendable u)"

fun request_ok :: "Utf8String list \<Rightarrow> ActionType \<Rightarrow> action_payload \<Rightarrow> bool" where
  "request_ok ns t (PublishData p) \<longleftrightarrow> t = AT_PUBLISH \<and> header_fits p \<and> topic_fits (pub_topic_name p) \<and>
     length (pub_payload p) \<le> MAX_MQTT_PACKET_REM_LEN_BYTES"
| "request_ok ns t (PubackData p) \<longleftrightarrow> t = AT_PUBACK \<and> header_fits p"
| "request_ok ns t (SubscribeData p) \<longleftrightarrow> t = AT_SUBSCRIBE \<and> header_fits p \<and>
     length (subp_subscription_list p) \<le> MAX_TOPICS_IN_ONE_SUBSCRIBE_PACKET \<and>
     (\<forall>r \<in> set (subp_subscription_list p). r < length ns \<and> sendable (ns ! r))"
| "request_ok ns t (UnsubscribeData p) \<longleftrightarrow> t = AT_UNSUBSCRIBE \<and> header_fits p \<and>
     length (unsub_topic_list p) \<le> MAX_TOPICS_IN_ONE_SUBSCRIBE_PACKET \<and> list_all topic_fits (unsub_topic_list p)"
| "request_ok ns t (ConnectData p) \<longleftrightarrow> False"
| "request_ok ns t (DisconnectData p) \<longleftrightarrow> t = AT_DISCONNECT \<and> p = DisconnectPacket_new"

section \<open>Names do not change\<close>

lemma names_simps [simp]:
  "names (st\<lparr>ccs_net := n\<rparr>) = names st" "names (st\<lparr>cs_subscription_map := m\<rparr>) = names st"
  "names (st\<lparr>ccs_outbound_action_queue := q\<rparr>) = names st" "names (st\<lparr>ccs_pending_ack_map := a\<rparr>) = names st"
  by (simp_all add: names_def)

lemma names_sub_update:
  assumes "sub_update r f st = Inr st'" "\<And>s. sub_topic_name (f s) = sub_topic_name s"
  shows "names st' = names st"
proof -
  have "r < length (cs_subscriptions st)"
    and "st' = st\<lparr>cs_subscriptions := (cs_subscriptions st)[r := f (cs_subscriptions st ! r)]\<rparr>"
    using assms(1) by (auto simp: sub_update_def sub_at_def split: if_splits)
  with assms(2) show ?thesis by (auto simp: names_def nth_list_update intro: nth_equalityI)
qed

lemma names_length: "length (names st) = length (cs_subscriptions st)" "r < length (names st) \<Longrightarrow> sub_topic_name (cs_subscriptions st ! r) = names st ! r"
  by (simp_all add: names_def)

interpretation names: state_property "\<lambda>st. names st = ns" for ns
proof unfold_locales
  fix st st' :: "'a client" and r b
  assume "sub_update r (SetActive b) st = Inr st'" "names st = ns"
  then show "names st' = ns" using names_sub_update [of r "SetActive b" st st'] by simp
next
  fix st st' :: "'a client" and r i j
  assume "sub_update r (SetAckIndex i j) st = Inr st'" "names st = ns"
  then show "names st' = ns" using names_sub_update [of r "SetAckIndex i j" st st'] by simp
qed (auto simp: names_def SetConnected_def SetProcessQueuedActions_def Let_def RegisterPendingAck_def DeletePendingAck_def split: option.split)

section \<open>Every step of a request returns\<close>

lemma header_length:
  "header_fits p \<Longrightarrow> length (AppendToBuffer_header (pk_fixed_header p) buf) \<le> length buf + 5"
  by (simp add: header_fits_def length_AppendToBuffer_header Length_header_def GetRemainingLengthByteCount_def)

lemma topic_append_length:
  "sendable u \<Longrightarrow> length (AppendUtf8StringToBuffer buf u) \<le> length buf + 65537"
  by (simp add: sendable_def length_AppendUtf8StringToBuffer)

lemma publish_total:
  assumes "header_fits p" "topic_fits (pub_topic_name p)" "length (pub_payload p) \<le> MAX_MQTT_PACKET_REM_LEN_BYTES"
  shows "\<exists>bs. PublishPacket_ToString p i = Inr bs \<and> length bs < 2 ^ 31"
proof -
  obtain u where u: "pub_topic_name p = Some u" "sendable u" using assms(2) by (auto simp: topic_fits_def split: option.splits)
  let ?h = "AppendToBuffer_header (pk_fixed_header p) []"
  have "length (AppendUtf8StringToBuffer ?h u) \<le> 65542"
    using topic_append_length [OF u(2), of ?h] header_length [OF assms(1), of "[]"] by simp
  with assms(3) u(1) show ?thesis
    by (simp add: PublishPacket_ToString_def Let_def length_AppendUInt16ToBuffer MAX_MQTT_PACKET_REM_LEN_BYTES_def)
qed

lemma subscribe_register_total:
  assumes "client_ok st" "\<forall>r \<in> set rs. r < length (cs_subscriptions st)"
  shows "\<exists>rs' st'. subscribe_register i b rs st = Inr (rs', st') \<and> set rs' \<subseteq> set rs \<and> length rs' \<le> length rs"
  using assms
proof (induction rs arbitrary: st)
  case (Cons r rs)
  have r: "sub_at st r = Inr (cs_subscriptions st ! r)" using Cons.prems(2) by (simp add: sub_at_in)
  let ?t = "utf8_data (sub_topic_name (cs_subscriptions st ! r))"
  show ?case
  proof (cases "map_find (cs_subscription_map st) ?t")
    case None
    let ?st = "st\<lparr>cs_subscription_map := map_insert ?t r (cs_subscription_map st)\<rparr>"
    have "client_ok ?st" using client_ok_map_insert [OF Cons.prems(1) r refl] by blast
    then obtain rs' st' where "subscribe_register i b rs ?st = Inr (rs', st')" "set rs' \<subseteq> set rs" "length rs' \<le> length rs"
      using Cons.IH [of ?st] Cons.prems(2) by auto
    with None r show ?thesis by (auto simp: Let_def)
  next
    case (Some e)
    then have e: "sub_at st e = Inr (cs_subscriptions st ! e)"
      using subs_ok_entry [of st ?t e] Cons.prems(1) by (auto simp: client_ok_def sub_at_in dest: map_find_in_set)
    let ?st1 = "if b then DeletePendingAck i st else st"
    let ?st2 = "st\<lparr>cs_subscription_map := map_insert ?t r (map_erase ?t (cs_subscription_map st))\<rparr>"
    have 1: "client_ok ?st1" "cs_subscriptions ?st1 = cs_subscriptions st"
      using client_ok_DeletePendingAck [OF Cons.prems(1), of i] Cons.prems(1) by (simp_all add: DeletePendingAck_def)
    have 2: "client_ok ?st2" using client_ok_map_insert [OF Cons.prems(1) r refl] by blast
    obtain rs1 st1' where i1: "subscribe_register i b rs ?st1 = Inr (rs1, st1')" "set rs1 \<subseteq> set rs" "length rs1 \<le> length rs"
      using Cons.IH [OF 1(1)] Cons.prems(2) 1(2) by auto
    obtain rs2 st2' where i2: "subscribe_register i b rs ?st2 = Inr (rs2, st2')" "set rs2 \<subseteq> set rs" "length rs2 \<le> length rs"
      using Cons.IH [OF 2] Cons.prems(2) by auto
    show ?thesis
    proof (cases "sub_is_active (cs_subscriptions st ! e)")
      case True
      with i1 Some r e show ?thesis by (auto simp: Let_def cong: if_cong)
    next
      case False
      with i2 Some r e show ?thesis by (auto simp: Let_def)
    qed
  qed
qed simp

lemma subscribe_topics_total:
  assumes "\<forall>r \<in> set rs. r < length (names st) \<and> sendable (names st ! r)"
  shows "\<exists>buf' st'. subscribe_topics i rs j buf st = Inr (buf', st') \<and> length buf' \<le> length buf + 65538 * length rs"
  using assms
proof (induction rs arbitrary: j buf st)
  case (Cons r rs)
  let ?s = "cs_subscriptions st ! r"
  have r: "r < length (cs_subscriptions st)" "sendable (sub_topic_name ?s)"
    using Cons.prems names_length(2) [of r st] by (simp_all add: names_length(1))
  obtain st1 where st1: "sub_update r (SetAckIndex i j) st = Inr st1" using r(1) by (simp add: sub_update_in)
  have "names st1 = names st" using names_sub_update [OF st1] by simp
  then obtain buf' st' where rec: "subscribe_topics i rs (j + 1)
      (AppendUtf8StringToBuffer buf (sub_topic_name ?s) @ [case sub_max_qos ?s of QOS0 \<Rightarrow> 0x00 | QOS1 \<Rightarrow> 0x01]) st1 = Inr (buf', st')"
    "length buf' \<le> length (AppendUtf8StringToBuffer buf (sub_topic_name ?s) @ [case sub_max_qos ?s of QOS0 \<Rightarrow> 0x00 | QOS1 \<Rightarrow> 0x01])
       + 65538 * length rs"
    using Cons.IH [of st1] Cons.prems by fastforce
  with r st1 topic_append_length [OF r(2), of buf] show ?case by (simp add: sub_at_in Let_def)
qed simp

lemma unsubscribe_mark_total:
  assumes "client_ok st" "list_all topic_fits ts"
  shows "\<exists>st'. unsubscribe_mark i ts st = Inr st'"
  using assms
proof (induction ts arbitrary: st)
  case (Cons t ts)
  then obtain u where u: "t = Some u" by (auto simp: topic_fits_def split: option.splits)
  have "\<exists>p st1. SetSubscriptionPacketInfo (utf8_data u) i 0 st = Inr (p, st1) \<and> client_ok st1"
  proof (cases "map_find (cs_subscription_map st) (utf8_data u)")
    case (Some r)
    then have "r < length (cs_subscriptions st)"
      using subs_ok_entry [of st "utf8_data u" r] Cons.prems(1) by (auto simp: client_ok_def dest: map_find_in_set)
    then obtain st1 where "sub_update r (SetAckIndex i 0) st = Inr st1" by (simp add: sub_update_in)
    with Some client_ok_SetAckIndex [OF this Cons.prems(1)] show ?thesis by (simp add: SetSubscriptionPacketInfo_def)
  qed (use Cons.prems(1) in \<open>simp add: SetSubscriptionPacketInfo_def\<close>)
  with Cons u show ?case by auto
qed simp

lemma unsubscribe_topics_total:
  "list_all topic_fits ts \<Longrightarrow> \<exists>buf'. unsubscribe_topics ts buf = Inr buf' \<and> length buf' \<le> length buf + 65537 * length ts"
proof (induction ts arbitrary: buf)
  case (Cons t ts)
  then obtain u where u: "t = Some u" "sendable u" by (auto simp: topic_fits_def split: option.splits)
  with Cons.IH [of "AppendUtf8StringToBuffer buf u"] Cons.prems topic_append_length [OF u(2), of buf] show ?case by auto
qed simp

section \<open>Performing a request\<close>

lemma SubscribeAction_total:
  assumes "client_ok st" "honest_writer nc" "ad_payload d = SubscribeData p" "request_ok (names st) t (SubscribeData p)"
  shows "\<exists>y. SubscribeAction_PerformAction (Some nc) (Some d) st = Inr y"
proof -
  let ?i = "ad_action_id d"
  obtain b st1 where reg: "register_ack ?i (ad_async_ack_handler d) st = (b, st1)" by force
  have ok1: "client_ok st1" "names st1 = names st"
    using ok.keeps_register_ackE [OF reg assms(1)] names.keeps_register_ackE [OF reg refl] by simp_all
  have "\<forall>r \<in> set (subp_subscription_list p). r < length (cs_subscriptions st1)"
    using assms(4) ok1(2) by (simp add: names_length(1) [symmetric])
  then obtain rs st2 where sr: "subscribe_register ?i b (subp_subscription_list p) st1 = Inr (rs, st2)"
    "set rs \<subseteq> set (subp_subscription_list p)" "length rs \<le> length (subp_subscription_list p)"
    using subscribe_register_total [OF ok1(1)] by blast
  have n2: "names st2 = names st" using names.keeps_subscribe_register [OF sr(1) ok1(2)] by simp
  have rs: "\<forall>r \<in> set rs. r < length (names st2) \<and> sendable (names st2 ! r)" using sr(2) assms(4) n2 by auto
  let ?h = "AppendUInt16ToBuffer (AppendToBuffer_header (header_of p) []) ?i"
  obtain bs st3 where st: "subscribe_topics ?i rs 1 ?h st2 = Inr (bs, st3)" "length bs \<le> length ?h + 65538 * length rs"
    using subscribe_topics_total [OF rs] by blast
  have n3: "names st3 = names st" using names.keeps_subscribe_topics [OF st(1) n2] by simp
  have "length ?h \<le> 7" using assms(4) header_length [of p "[]"] by (simp add: length_AppendUInt16ToBuffer)
  then have "length bs < 2 ^ 31"
    using st(2) sr(3) assms(4) by (simp add: MAX_TOPICS_IN_ONE_SUBSCRIBE_PACKET_def)
  then obtain rc n where w: "client_write one_execution (Some nc) bs st3 = Inr (rc, st3\<lparr>ccs_net := n\<rparr>)"
    using client_write_total [OF assms(2)] by blast
  let ?st4 = "st3\<lparr>ccs_net := n\<rparr>"
  have refs: "\<forall>r \<in> set rs. r < length (cs_subscriptions ?st4)"
    using rs n2 n3 names_length(1) [of st3] by simp
  obtain st5 where er: "erase_topics rs ?st4 = Inr st5" using erase_topics_total [OF refs] by blast
  have str: "SubscribePacket_ToString (p\<lparr>subp_subscription_list := rs\<rparr>) ?i st2 = Inr (bs, st3)"
    using st(1) by (simp add: SubscribePacket_ToString_def Let_def)
  show ?thesis
  proof (cases "rs = []")
    case True
    then show ?thesis
      using assms(3) reg sr(1) str by (simp add: SubscribeAction_PerformAction_def Let_def)
  next
    case False
    then show ?thesis
      using assms(3) reg sr(1) str w er
      by (cases "rc = SUCCESS") (simp_all add: SubscribeAction_PerformAction_def Let_def)
  qed
qed

lemma UnsubscribeAction_total:
  assumes "client_ok st" "honest_writer nc" "ad_payload d = UnsubscribeData p" "request_ok (names st) t (UnsubscribeData p)"
  shows "\<exists>y. UnsubscribeAction_PerformAction (Some nc) (Some d) st = Inr y"
proof -
  let ?i = "ad_action_id d"
  obtain b st1 where reg: "register_ack ?i (ad_async_ack_handler d) st = (b, st1)" by force
  have ok1: "client_ok st1" using ok.keeps_register_ackE [OF reg assms(1)] .
  obtain st2 where mark: "unsubscribe_mark ?i (unsub_topic_list p) st1 = Inr st2"
    using unsubscribe_mark_total [OF ok1] assms(4) by fastforce
  let ?h = "AppendUInt16ToBuffer (AppendToBuffer_header (header_of p) []) ?i"
  obtain bs where bs: "unsubscribe_topics (unsub_topic_list p) ?h = Inr bs"
    "length bs \<le> length ?h + 65537 * length (unsub_topic_list p)"
    using unsubscribe_topics_total assms(4) by fastforce
  have "length ?h \<le> 7" using assms(4) header_length [of p "[]"] by (simp add: length_AppendUInt16ToBuffer)
  then have "length bs < 2 ^ 31" using bs(2) assms(4) by (simp add: MAX_TOPICS_IN_ONE_SUBSCRIBE_PACKET_def)
  then obtain rc n where "client_write one_execution (Some nc) bs st2 = Inr (rc, st2\<lparr>ccs_net := n\<rparr>)"
    using client_write_total [OF assms(2)] by blast
  with assms(3) reg mark bs(1) show ?thesis
    by (simp add: UnsubscribeAction_PerformAction_def UnsubscribePacket_ToString_def Let_def)
qed

lemma PublishAction_total:
  assumes "honest_writer nc" "ad_payload d = PublishData p" "request_ok ns t (PublishData p)"
  shows "\<exists>y. PublishAction_PerformAction (Some nc) (Some d) st = Inr y"
proof -
  let ?i = "ad_action_id d"
  obtain b st1 where reg: "(if pub_qos p \<noteq> QOS0 then register_ack ?i (ad_async_ack_handler d) st else (False, st)) = (b, st1)"
    by force
  obtain bs where bs: "PublishPacket_ToString p ?i = Inr bs" "length bs < 2 ^ 31"
    using publish_total [of p ?i] assms(3) by auto
  obtain rc n where "client_write one_execution (Some nc) bs st1 = Inr (rc, st1\<lparr>ccs_net := n\<rparr>)"
    using client_write_total [OF assms(1) bs(2)] by blast
  with assms(2) reg bs(1) show ?thesis by (simp add: PublishAction_PerformAction_def Let_def)
qed

lemma PubackAction_total:
  assumes "honest_writer nc" "ad_payload d = PubackData p" "request_ok ns t (PubackData p)"
  shows "\<exists>y. PubackAction_PerformAction (Some nc) (Some d) st = Inr y"
proof -
  have "length (PubackPacket_ToString p) \<le> 7"
    using assms(3) header_length [of p "[]"] by (simp add: PubackPacket_ToString_def length_AppendUInt16ToBuffer)
  then have "length (PubackPacket_ToString p) < 2 ^ 31" by simp
  then obtain rc n where "client_write one_execution (Some nc) (PubackPacket_ToString p) st = Inr (rc, st\<lparr>ccs_net := n\<rparr>)"
    using client_write_total [OF assms(1)] by blast
  with assms(2) show ?thesis by (simp add: PubackAction_PerformAction_def)
qed

lemma DisconnectAction_total:
  assumes "client_ok st" "honest_writer nc" "ad_payload d = DisconnectData DisconnectPacket_new"
  shows "\<exists>y. DisconnectAction_PerformAction (Some nc) (Some d) st = Inr y"
proof (cases "cs_is_connected st")
  case True
  then show ?thesis using DisconnectAction_effect [OF assms(1,2) True assms(3)] by blast
qed (simp add: DisconnectAction_PerformAction_def)

text \<open>The action of a request's type, as it is registered.\<close>

lemma perform_action_total:
  assumes "client_ok st" "honest_writer nc" "ccs_network_connection st = Some nc" "request_ok (names st) t (ad_payload d)"
    and "registered st" "map_find (ccs_action_map st) t = Some a"
  shows "\<exists>rc d' st'. perform_action runner a d st = Inr (rc, d', st')"
proof -
  have reg: "map_find (ccs_action_map st) AT_PUBLISH = Some PublishActionAsync"
    "map_find (ccs_action_map st) AT_PUBACK = Some PubackActionAsync"
    "map_find (ccs_action_map st) AT_SUBSCRIBE = Some SubscribeActionAsync"
    "map_find (ccs_action_map st) AT_UNSUBSCRIBE = Some UnsubscribeActionAsync"
    "map_find (ccs_action_map st) AT_DISCONNECT = Some DisconnectActionAsync"
    using assms(5) by (simp_all add: registered_def client_actions_def)
  have "\<exists>y. (case a of PublishActionAsync \<Rightarrow> PublishAction_PerformAction (Some nc) (Some d) st
      | PubackActionAsync \<Rightarrow> PubackAction_PerformAction (Some nc) (Some d) st
      | SubscribeActionAsync \<Rightarrow> SubscribeAction_PerformAction (Some nc) (Some d) st
      | UnsubscribeActionAsync \<Rightarrow> UnsubscribeAction_PerformAction (Some nc) (Some d) st
      | DisconnectActionAsync \<Rightarrow> DisconnectAction_PerformAction (Some nc) (Some d) st
      | _ \<Rightarrow> Inl OutOfFuel) = Inr y \<and>
    a \<in> {PublishActionAsync, PubackActionAsync, SubscribeActionAsync, UnsubscribeActionAsync, DisconnectActionAsync}"
  proof (cases "ad_payload d")
    case (PublishData p)
    then show ?thesis using PublishAction_total [OF assms(2), of d p "names st" t st] assms(4,6) reg by auto
  next
    case (PubackData p)
    then show ?thesis using PubackAction_total [OF assms(2), of d p "names st" t st] assms(4,6) reg by auto
  next
    case (SubscribeData p)
    then show ?thesis using SubscribeAction_total [OF assms(1,2), of d p t] assms(4,6) reg by auto
  next
    case (UnsubscribeData p)
    then show ?thesis using UnsubscribeAction_total [OF assms(1,2), of d p t] assms(4,6) reg by auto
  next
    case (DisconnectData p)
    then show ?thesis using DisconnectAction_total [OF assms(1,2), of d] assms(4,6) reg by auto
  qed (use assms(4) in simp)
  then show ?thesis
    using assms(3) by (cases a) (auto simp: perform_action_def Let_def split: prod.splits)
qed

end
