(* ===== verification/System.thy ===== *)
theory System
  imports Requests
begin

text \<open>
  The client as a whole: the application, the thread of the outbound queue, the reader and the
  keep-alive thread act on one state.

  Every lock of the code is held for one operation of the model, so the threads interleave between
  operations: one step of \<open>client_step\<close> is one request of the application, one iteration of a thread, a
  change of a setting, or the passing of time. While a request waits for its answer it is interrupted by
  steps of the others, which is why the relation is defined together with its closure. The local
  variables of the threads are left open: the relation allows every value of them, so it has all the
  steps of the program.
\<close>

section \<open>State properties of the whole client\<close>

locale client_property = thread_property I for I :: "'n client \<Rightarrow> bool" +
  assumes keeps_run_ack_handler [simp]: "I (run_ack_handler h i rc st) = I st"
    and keeps_now [simp]: "I (st\<lparr>ccs_now := now\<rparr>) = I st"
    and keeps_enabled [simp]: "I (st\<lparr>cs_is_auto_reconnect_enabled := ae\<rparr>) = I st"
    and keeps_min_backoff [simp]: "I (st\<lparr>cs_min_reconnect_backoff_timeout := mi\<rparr>) = I st"
    and keeps_max_backoff [simp]: "I (st\<lparr>cs_max_reconnect_backoff_timeout := ma\<rparr>) = I st"
    and keeps_disconnect_callback [simp]: "I (st\<lparr>ccs_disconnect_handler := cb, ccs_disconnect_app_handler_data := cd\<rparr>) = I st"
    and keeps_reconnect_callback [simp]: "I (st\<lparr>ccs_reconnect_handler := cb, ccs_reconnect_app_handler_data := cd\<rparr>) = I st"
    and keeps_resubscribe_callback [simp]: "I (st\<lparr>ccs_resubscribe_handler := cb, ccs_resubscribe_app_handler_data := cd\<rparr>) = I st"
    and keeps_pop: "ccs_outbound_action_queue st = e # q \<Longrightarrow> I st \<Longrightarrow> I (st\<lparr>ccs_outbound_action_queue := q\<rparr>)"
    and keeps_alloc: "sub_ok s \<Longrightarrow> I st \<Longrightarrow> I (snd (sub_alloc s st))"
    and keeps_enqueue: "EnqueueOutboundAction GetNextPacketId t (Some d) out st = Inr (rc, a, d', st') \<Longrightarrow>
      request_ok (names st) t (ad_payload d) \<Longrightarrow> I st \<Longrightarrow> I st'"
begin

lemma keeps_outbound_once:
  assumes "process_outbound_once (perform_action runner) st = Inr st'" "I st" "runner_keeps I runner"
  shows "I st'"
proof (cases "ccs_outbound_action_queue st")
  case (Cons e q)
  obtain t d where e: "e = (t, d)" by force
  let ?st1 = "st\<lparr>ccs_outbound_action_queue := q\<rparr>"
  have ok1: "I ?st1" using keeps_pop [OF Cons assms(2)] .
  have perf: "perform_action runner a d s = Inr (rc, d', s') \<Longrightarrow> I s \<Longrightarrow> I s'" for a s rc d' s'
    using keeps_perform_action [of runner a d s rc d' s'] assms(3) unfolding runner_keeps_def by blast
  show ?thesis
  proof (cases "map_find (ccs_action_map st) t")
    case None
    with assms(1) Cons e ok1 show ?thesis by (simp add: process_outbound_once_def Let_def)
  next
    case (Some a)
    show ?thesis
    proof (cases "ad_async_ack_handler d")
      case None
      with assms(1) Cons e Some ok1 show ?thesis
        by (auto simp: process_outbound_once_def Let_def bind_res_Inr_iff dest: perf)
    next
      case (Some h)
      obtain s where s: "RegisterPendingAck (ad_action_id d) (Some h) ?st1 = (SUCCESS, s)" by (simp add: RegisterPendingAck_def)
      have "I s" using keeps_RegisterPendingAck [OF ok1, of "ad_action_id d" "Some h"] s by simp
      then show ?thesis
        using assms(1) Cons e Some \<open>map_find (ccs_action_map st) t = Some a\<close> s
        by (auto simp: process_outbound_once_def Let_def bind_res_Inr_iff dest!: perf intro: keeps_DeletePendingAck
            split: if_splits)
    qed
  qed
qed (use assms in \<open>simp add: process_outbound_once_def\<close>)

end

section \<open>Steps\<close>

definition synchronous :: "ActionType set" where
  "synchronous = {AT_CONNECT, AT_DISCONNECT, AT_PUBLISH, AT_SUBSCRIBE, AT_UNSUBSCRIBE}"

inductive client_step :: "'n NetworkConnection \<Rightarrow> 'n client \<Rightarrow> 'n client \<Rightarrow> bool"
  and client_steps :: "'n NetworkConnection \<Rightarrow> 'n client \<Rightarrow> 'n client \<Rightarrow> bool"
  for nc where
  request: "client_request runner wait t (Some d) st = Inr (rc, d', st') \<Longrightarrow> t \<in> synchronous \<Longrightarrow>
    (\<And>s. client_steps nc s (wait s)) \<Longrightarrow> (\<And>d s rc d' s'. runner d s = Inr (rc, d', s') \<Longrightarrow> client_steps nc s s') \<Longrightarrow>
    client_step nc st st'"
| enqueue: "EnqueueOutboundAction GetNextPacketId t (Some d) out st = Inr (rc, a, d', st') \<Longrightarrow>
    request_ok (names st) t (ad_payload d) \<Longrightarrow> client_step nc st st'"
| outbound: "process_outbound_once (perform_action runner) st = Inr st' \<Longrightarrow>
    (\<And>d s rc d' s'. runner d s = Inr (rc, d', s') \<Longrightarrow> client_steps nc s s') \<Longrightarrow> client_step nc st st'"
| reader: "read_once runner wait fuel go nc w st = Inr (rc, w', st') \<Longrightarrow>
    (\<And>s. client_steps nc s (wait s)) \<Longrightarrow> (\<And>d s rc d' s'. runner d s = Inr (rc, d', s') \<Longrightarrow> client_steps nc s s') \<Longrightarrow>
    client_step nc st st'"
| keepalive: "keepalive_once runner wait go (Some nc) rc l st = Inr (rc', l', sleep, st') \<Longrightarrow>
    (\<And>s. client_steps nc s (wait s)) \<Longrightarrow> (\<And>d s rc d' s'. runner d s = Inr (rc, d', s') \<Longrightarrow> client_steps nc s s') \<Longrightarrow>
    client_step nc st st'"
| subscription: "sub_ok s \<Longrightarrow> client_step nc st (snd (sub_alloc s st))"
| time: "ccs_now st \<le> now \<Longrightarrow> client_step nc st (st\<lparr>ccs_now := now\<rparr>)"
| enabled: "client_step nc st (st\<lparr>cs_is_auto_reconnect_enabled := ae\<rparr>)"
| backoff: "client_step nc st (st\<lparr>cs_min_reconnect_backoff_timeout := mi\<rparr>)"
| max_backoff: "client_step nc st (st\<lparr>cs_max_reconnect_backoff_timeout := ma\<rparr>)"
| on_disconnect: "client_step nc st (st\<lparr>ccs_disconnect_handler := cb, ccs_disconnect_app_handler_data := cd\<rparr>)"
| on_reconnect: "client_step nc st (st\<lparr>ccs_reconnect_handler := cb, ccs_reconnect_app_handler_data := cd\<rparr>)"
| on_resubscribe: "client_step nc st (st\<lparr>ccs_resubscribe_handler := cb, ccs_resubscribe_app_handler_data := cd\<rparr>)"
| stop: "client_steps nc st st"
| go_on: "client_step nc st s \<Longrightarrow> client_steps nc s st' \<Longrightarrow> client_steps nc st st'"

inductive_simps settled_iff: "client_steps nc st st'"

context client_property begin

lemma keeps_client_step:
  "client_step nc st st' \<Longrightarrow> I st \<longrightarrow> I st'" "client_steps nc st st' \<Longrightarrow> I st \<longrightarrow> I st'"
proof (induction rule: client_step_client_steps.inducts)
  case (request runner wait t d st rc d' st')
  then show ?case using keeps_request [OF request(1)] by (auto simp: runner_keeps_def keeps_def)
next
  case (outbound runner st st')
  then show ?case using keeps_outbound_once [OF outbound(1)] by (auto simp: runner_keeps_def)
next
  case (reader runner wait fuel go w st rc w' st')
  then show ?case using keeps_read_once [OF reader(1)] by (auto simp: runner_keeps_def keeps_def)
next
  case (keepalive runner wait go rc l st rc' l' sleep st')
  then show ?case using keeps_keepalive_once [OF keepalive(1)] by (auto simp: runner_keeps_def keeps_def)
next
  case (enqueue t d out st rc a d' st')
  then show ?case using keeps_enqueue by blast
qed (simp_all add: keeps_alloc)

end

lemma client_ok_sub_alloc: "sub_ok s \<Longrightarrow> client_ok st \<Longrightarrow> client_ok (snd (sub_alloc s st))"
  using subs_ok_sub_alloc [of st s] by (simp add: client_ok_def core_ok_def sub_alloc_def)

lemma client_ok_settings [simp]:
  "client_ok (st\<lparr>cs_is_auto_reconnect_enabled := ae\<rparr>) = client_ok st"
  "client_ok (st\<lparr>cs_min_reconnect_backoff_timeout := mi\<rparr>) = client_ok st"
  "client_ok (st\<lparr>cs_max_reconnect_backoff_timeout := ma\<rparr>) = client_ok st"
  "client_ok (st\<lparr>ccs_disconnect_handler := cb, ccs_disconnect_app_handler_data := cd\<rparr>) = client_ok st"
  "client_ok (st\<lparr>ccs_reconnect_handler := cb, ccs_reconnect_app_handler_data := cd\<rparr>) = client_ok st"
  "client_ok (st\<lparr>ccs_resubscribe_handler := cb, ccs_resubscribe_app_handler_data := cd\<rparr>) = client_ok st"
  "client_ok (st\<lparr>ccs_outbound_action_queue := q\<rparr>) = client_ok st"
  by (simp_all add: client_ok_def core_ok_def subs_ok_def)

interpretation ok_client: client_property client_ok
  by unfold_locales (simp_all add: client_ok_sub_alloc client_ok_Enqueue)

section \<open>What every client can serve\<close>

text \<open>
  The registrations and the connection stay, the queue keeps its bound, and every request in it can be
  served.
\<close>

definition served :: "'n NetworkConnection \<Rightarrow> 'n client \<Rightarrow> bool" where
  "served nc st \<longleftrightarrow> registered st \<and> ccs_network_connection st = Some nc \<and>
     length (ccs_outbound_action_queue st) \<le> ccs_max_queue_size st \<and>
     (\<forall>(t, d) \<in> set (ccs_outbound_action_queue st). request_ok (names st) t (ad_payload d))"

definition served_part where
  "served_part st = (ccs_action_map st, ccs_action_create_handler_map st, ccs_network_connection st,
     ccs_max_queue_size st, ccs_outbound_action_queue st, names st)"

lemma served_cong: "served_part st' = served_part st \<Longrightarrow> served nc st' = served nc st"
  by (simp add: served_part_def served_def registered_def)

lemma request_ok_append: "request_ok ns t p \<Longrightarrow> request_ok (ns @ ms) t p"
  by (cases p) (auto simp: nth_append)

lemma part_sub_update:
  assumes "sub_update r f st = Inr st'" "\<And>s. sub_topic_name (f s) = sub_topic_name s"
  shows "served_part st' = served_part st"
  using assms(1) names_sub_update [OF assms] by (auto simp: sub_update_def bind_res_Inr_iff served_part_def)

lemma sub_topic_SetMaxQos [simp]: "sub_topic_name (SetMaxQos q s) = sub_topic_name s"
  by (simp add: SetMaxQos_def)

lemma part_SetSubscriptionActive:
  "SetSubscriptionActive i j q st = Inr (rc, st') \<Longrightarrow> served_part st' = served_part st"
  by (auto simp: SetSubscriptionActive_def bind_res_Inr_iff split: option.splits dest!: part_sub_update)

lemma part_Remove:
  "RemoveSubscription_packet i j st = Inr (rc, st') \<Longrightarrow> served_part st' = served_part st"
  "RemoveAllSubscriptionsForPacketId i st = Inr (rc, st') \<Longrightarrow> served_part st' = served_part st"
  by (auto simp: RemoveSubscription_packet_def RemoveAllSubscriptionsForPacketId_def bind_res_Inr_iff served_part_def
      split: option.splits)

lemma part_simps [simp]:
  "served_part (run_ack_handler h i rc st) = served_part st"
  "served_part (log_event e st) = served_part st"
  "served_part (ForwardReceivedAck i rc st) = served_part st"
  "served_part (DeletePendingAck i st) = served_part st"
  "served_part (snd (RegisterPendingAck i ah st)) = served_part st"
  "served_part (SetConnected b st) = served_part st"
  "served_part (snd (GetNextPacketId st)) = served_part st"
  by (simp_all add: served_part_def names_def run_ack_handler_def SyncActionHandler_def log_event_def
      ForwardReceivedAck_def DeletePendingAck_def RegisterPendingAck_def SetConnected_def SetProcessQueuedActions_def
      GetNextPacketId_def Let_def split: ack_handler.split option.split)

lemma served_enqueue:
  assumes "EnqueueOutboundAction GetNextPacketId t (Some d) out st = Inr (rc, a, d', st')"
    and "request_ok (names st) t (ad_payload d)" "served nc st"
  shows "served nc st'"
  using assms
  by (auto simp: EnqueueOutboundAction_def GetNextPacketId_def Let_def served_def registered_def names_def
      split: if_splits)

lemma puback_ok: "request_ok ns AT_PUBACK (ad_payload (puback_data i))"
  using packet_base_header [of 2 MT_PUBACK False QOS0 False]
  by (simp add: puback_data_def Create_PubackPacket_def PubackPacket_new_def header_fits_def MAX_MQTT_PACKET_REM_LEN_BYTES_def)

lemma served_alloc: "served nc st \<Longrightarrow> served nc (snd (sub_alloc s st))"
  by (auto simp: served_def registered_def sub_alloc_def names_def intro: request_ok_append)

interpretation served_client: client_property "served nc" for nc
proof unfold_locales
  fix st st' :: "'a client" and i h
  show "served nc st \<Longrightarrow> served nc (snd (RegisterPendingAck i h st))"
    using served_cong [of "snd (RegisterPendingAck i h st)" st nc] by simp
  show "served nc st \<Longrightarrow> served nc (DeletePendingAck i st)"
    using served_cong [of "DeletePendingAck i st" st nc] by simp
  show "served nc (SetConnected False st) = served nc st" "served nc (SetConnected True st) = served nc st"
    by (rule served_cong, simp)+
  show "served nc (snd (GetNextPacketId st)) = served nc st" by (rule served_cong) simp
next
  fix st st' :: "'a client" and r i j
  assume u: "sub_update r (SetAckIndex i j) st = Inr st'" "served nc st"
  show "served nc st'" using served_cong [OF part_sub_update [OF u(1)]] u(2) by simp
next
  fix st st' :: "'a client" and r b
  assume u: "sub_update r (SetActive b) st = Inr st'" "served nc st"
  show "served nc st'" using served_cong [OF part_sub_update [OF u(1)]] u(2) by simp
next
  fix st :: "'a client" and i rc e
  show "served nc (log_event e st) = served nc st" by (rule served_cong) simp
  show "served nc st \<Longrightarrow> served nc (ForwardReceivedAck i rc st)"
    using served_cong [of "ForwardReceivedAck i rc st" st nc] by simp
next
  fix st st' :: "'a client" and i j q rc
  assume u: "SetSubscriptionActive i j q st = Inr (rc, st')" "served nc st"
  show "served nc st'" using served_cong [OF part_SetSubscriptionActive [OF u(1)]] u(2) by simp
next
  fix st st' :: "'a client" and i j rc
  assume u: "RemoveSubscription_packet i j st = Inr (rc, st')" "served nc st"
  show "served nc st'" using served_cong [OF part_Remove(1) [OF u(1)]] u(2) by simp
next
  fix st st' :: "'a client" and i rc
  assume u: "RemoveAllSubscriptionsForPacketId i st = Inr (rc, st')" "served nc st"
  show "served nc st'" using served_cong [OF part_Remove(2) [OF u(1)]] u(2) by simp
next
  fix st st' :: "'a client" and i rc a d
  assume "EnqueueOutboundAction GetNextPacketId AT_PUBACK (Some (puback_data i)) 0 st = Inr (rc, a, d, st')" "served nc st"
  then show "served nc st'" using served_enqueue puback_ok by blast
next
  fix st :: "'a client" and h i rc
  show "served nc (run_ack_handler h i rc st) = served nc st" by (rule served_cong) simp
next
  fix st st' :: "'a client" and t d out rc a d'
  assume "EnqueueOutboundAction GetNextPacketId t (Some d) out st = Inr (rc, a, d', st')"
    "request_ok (names st) t (ad_payload d)" "served nc st"
  then show "served nc st'" by (rule served_enqueue)
next
  fix st :: "'a client" and s
  show "served nc st \<Longrightarrow> served nc (snd (sub_alloc s st))" by (rule served_alloc)
qed (auto simp: served_def registered_def names_def)

section \<open>Properties of the running client\<close>

lemma reachable_client:
  assumes "MqttClient_Create (Some nc) tmo cb net now = Inr (Some c)" "client_steps nc (core_client_state c) st"
  shows "client_ok st \<and> served nc st"
proof -
  obtain c' where c': "MqttClient_Create (Some nc) tmo cb net now = Inr (Some c')" "client_ok (core_client_state c')"
    "registered (core_client_state c')" "ccs_network_connection (core_client_state c') = Some nc"
    using new_client_works [of nc tmo cb net now] by blast
  with assms(1) have c: "c' = c" by simp
  have "ccs_outbound_action_queue (core_client_state c) = []"
    using assms(1) by (rule new_client_queue)
  with c' have "served nc (core_client_state c)" by (simp add: c served_def)
  with c'(2) show ?thesis
    using ok_client.keeps_client_step(2) [OF assms(2)] served_client.keeps_client_step(2) [OF assms(2)] by (simp add: c)
qed


interpretation queue: state_property "\<lambda>st :: 'n client. ccs_outbound_action_queue st = q" for q
  by unfold_locales
    (auto simp: SetConnected_def SetProcessQueuedActions_def Let_def RegisterPendingAck_def DeletePendingAck_def
      sub_update_def bind_res_Inr_iff split: option.splits)

lemma queue_run_ack: "ccs_outbound_action_queue (run_ack_handler h i rc st) = ccs_outbound_action_queue st"
  by (simp add: run_ack_handler_def SyncActionHandler_def log_event_def split: ack_handler.split)

lemma runner_unused:
  assumes "registered st" "request_ok ns t p" "map_find (ccs_action_map st) t = Some a"
  shows "perform_action runner a d st = perform_action no_runner a d st"
proof -
  have "t \<in> fst ` set client_actions" "t \<noteq> READ_INCOMING" "t \<noteq> KEEP_ALIVE"
    using assms(2) by (cases p, auto simp: client_actions_def)+
  with assms(1,3) have "a \<noteq> NetworkReadActionRunner" "a \<noteq> KeepaliveActionRunner"
    by (auto simp: registered_def client_actions_def)
  then show ?thesis by (cases a) (simp_all add: perform_action_def)
qed

lemma no_runner_keeps: "runner_keeps I no_runner"
  by (simp add: runner_keeps_def no_runner_def)

lemma outbound_step:
  assumes "client_ok st" "served nc st" "honest_writer nc"
  shows "\<exists>st'. process_outbound_once (perform_action runner) st = Inr st' \<and> client_ok st' \<and> served nc st' \<and>
    ccs_outbound_action_queue st' = tl (ccs_outbound_action_queue st)"
proof (cases "ccs_outbound_action_queue st")
  case Nil
  with assms show ?thesis by (simp add: process_outbound_once_def)
next
  case (Cons e q)
  obtain t d where e: "e = (t, d)" by force
  let ?st1 = "st\<lparr>ccs_outbound_action_queue := q\<rparr>"
  have req: "request_ok (names st) t (ad_payload d)" and reg: "registered st"
    using assms(2) by (auto simp: served_def Cons e)
  then have "t \<in> fst ` set client_actions" by (cases "ad_payload d") (auto simp: client_actions_def)
  with reg obtain a where a: "map_find (ccs_action_map st) t = Some a"
    by (auto simp: registered_def client_actions_def)
  have ok1: "client_ok ?st1" "served nc ?st1"
    using assms(1) served_client.keeps_pop [OF Cons assms(2)] by simp_all
  obtain s where s: "(case ad_async_ack_handler d of None \<Rightarrow> (SUCCESS, ?st1)
      | Some h \<Rightarrow> RegisterPendingAck (ad_action_id d) (Some h) ?st1) = (SUCCESS, s)"
    and oks: "client_ok s" "served nc s" "ccs_outbound_action_queue s = q" "names s = names st"
      "ccs_action_map s = ccs_action_map st"
  proof (cases "ad_async_ack_handler d")
    case None
    with ok1 that show ?thesis by simp
  next
    case (Some h)
    have "RegisterPendingAck (ad_action_id d) (Some h) ?st1 = (SUCCESS, snd (RegisterPendingAck (ad_action_id d) (Some h) ?st1))"
      by (simp add: RegisterPendingAck_def)
    moreover have "ccs_action_map (snd (RegisterPendingAck (ad_action_id d) (Some h) ?st1)) = ccs_action_map st"
      by (simp add: RegisterPendingAck_def)
    ultimately show ?thesis
      using that ok.keeps_RegisterPendingAck [OF ok1(1)] served_client.keeps_RegisterPendingAck [OF ok1(2)]
        queue.keeps_RegisterPendingAck [of ?st1 q] names.keeps_RegisterPendingAck [of ?st1 "names st"] Some by simp
  qed
  have con: "ccs_network_connection s = Some nc" "registered s" using oks(2) by (simp_all add: served_def)
  obtain rc d' st2 where perf: "perform_action runner a d s = Inr (rc, d', st2)"
    using perform_action_total [OF oks(1) assms(3) con(1) _ con(2), of t d a runner] req a oks(4,5) by auto
  then have perf': "perform_action no_runner a d s = Inr (rc, d', st2)"
    using runner_unused [OF con(2) req, of a runner d] a oks(5) by simp
  have ok2: "client_ok st2" "served nc st2" "ccs_outbound_action_queue st2 = q"
    using ok.keeps_perform_action [OF perf' oks(1)] served_client.keeps_perform_action [OF perf' oks(2)]
      queue.keeps_perform_action [OF perf' oks(3)] by (auto simp: no_runner_def)
  let ?fin = "if rc \<noteq> SUCCESS then
      (case ad_async_ack_handler d of None \<Rightarrow> st2
       | Some h \<Rightarrow> run_ack_handler h (ad_action_id d') rc (DeletePendingAck (ad_action_id d') st2)) else st2"
  have "process_outbound_once (perform_action runner) st = Inr ?fin"
    using Cons e a s perf
    by (cases "ad_async_ack_handler d") (auto simp: process_outbound_once_def Let_def)
  moreover have "client_ok ?fin" "served nc ?fin" "ccs_outbound_action_queue ?fin = q"
    using ok2 client_ok_DeletePendingAck [OF ok2(1)] served_client.keeps_DeletePendingAck [OF ok2(2)]
      queue.keeps_DeletePendingAck [OF ok2(3)] by (simp_all add: queue_run_ack split: option.split)
  ultimately show ?thesis using Cons by auto
qed

text \<open>C7: in a well-formed client an iteration of the outbound thread never faults: it takes the first request
  from the queue, performs it or reports its failure, and leaves a well-formed client.\<close>

theorem outbound_never_faults:
  assumes "client_ok st" "served nc st" "honest_writer nc"
  shows "\<exists>st'. process_outbound_once (perform_action runner) st = Inr st' \<and> client_ok st' \<and> served nc st' \<and>
    ccs_outbound_action_queue st' = tl (ccs_outbound_action_queue st)"
  using assms by (rule outbound_step)

fun outbound_iterations ::
  "nat \<Rightarrow> (action_data option \<Rightarrow> 'n client \<Rightarrow> (ResponseCode \<times> action_data option \<times> 'n client) res)
   \<Rightarrow> (nat \<Rightarrow> 'n client \<Rightarrow> 'n client) \<Rightarrow> 'n client \<Rightarrow> ('n client) res" where
  "outbound_iterations 0 runner others st = Inr st"
| "outbound_iterations (Suc k) runner others st =
     bind_res (process_outbound_once (perform_action runner) st) (\<lambda>st. outbound_iterations k runner others (others k st))"

text \<open>C18: if the other threads, between the iterations, keep the client well formed and queue nothing new, the
  outbound thread empties its queue: as many iterations as there are requests are enough.\<close>

theorem queue_drains:
  assumes "client_ok st" "served nc st" "honest_writer nc" "length (ccs_outbound_action_queue st) \<le> k"
    and "\<And>i. keeps (\<lambda>st. client_ok st \<and> served nc st) (others i)"
    and "\<And>i st. length (ccs_outbound_action_queue (others i st)) \<le> length (ccs_outbound_action_queue st)"
  shows "\<exists>st'. outbound_iterations k runner others st = Inr st' \<and> ccs_outbound_action_queue st' = [] \<and>
    client_ok st' \<and> served nc st'"
  using assms(1,2,4)
proof (induction k arbitrary: st)
  case (Suc k)
  obtain st1 where st1: "process_outbound_once (perform_action runner) st = Inr st1" "client_ok st1" "served nc st1"
    "ccs_outbound_action_queue st1 = tl (ccs_outbound_action_queue st)"
    using outbound_step [OF Suc.prems(1,2) assms(3)] by blast
  have "client_ok (others k st1) \<and> served nc (others k st1)" using assms(5) [of k] st1(2,3) by (simp add: keeps_def)
  moreover have "length (ccs_outbound_action_queue (others k st1)) \<le> k"
    using assms(6) [of k st1] st1(4) Suc.prems(3) by simp
  ultimately obtain st' where "outbound_iterations k runner others (others k st1) = Inr st'"
    "ccs_outbound_action_queue st' = []" "client_ok st'" "served nc st'"
    using Suc.IH by blast
  with st1(1) show ?case by simp
qed simp


section \<open>The properties at concrete inputs\<close>

definition sample_queued :: "script_device client" where
  "sample_queued = sample_registered\<lparr>ccs_outbound_action_queue :=
     [(AT_PUBLISH, sample_action (PublishData (PublishPacket_new (utf8_of [97]) False False QOS1 [1, 2])))]\<rparr>"

lemma sample_publish_ok:
  "request_ok ns AT_PUBLISH (PublishData (PublishPacket_new (utf8_of [97]) False False QOS1 [1, 2]))"
proof -
  have "sendable (utf8_of [97])" by (rule sendable_utf8_of) simp_all
  then show ?thesis
    using publish_base [OF sample_publish_size, of False False]
      packet_base_header [OF sample_publish_size, of MT_PUBLISH False QOS1 False] sample_publish_size
    by (simp add: header_fits_def topic_fits_def MAX_MQTT_PACKET_REM_LEN_BYTES_def)
qed

lemma sample_queued_ok: "client_ok sample_queued" "served script_connection sample_queued"
  "ccs_outbound_action_queue sample_queued \<noteq> []" "length (ccs_outbound_action_queue sample_queued) = 1"
  using sample_registered_registered sample_publish_ok
  by (simp_all add: sample_queued_def sample_registered_ok served_def sample_registered_fields DEFAULT_MAX_QUEUE_SIZE_def
      registered_def sample_action_def)


theorem outbound_never_faults_witness:
  "\<exists>st'. process_outbound_once (perform_action no_runner) sample_queued = Inr st' \<and> client_ok st' \<and>
    ccs_outbound_action_queue st' = []"
  using outbound_never_faults [OF sample_queued_ok(1,2) script_honest, of no_runner]
  by (auto simp: sample_queued_def)

theorem queue_drains_witness:
  "\<exists>st'. outbound_iterations 3 no_runner (\<lambda>i st. st) sample_queued = Inr st' \<and> ccs_outbound_action_queue st' = []"
proof -
  have "\<exists>st'. outbound_iterations 3 no_runner (\<lambda>i st. st) sample_queued = Inr st' \<and> ccs_outbound_action_queue st' = [] \<and>
    client_ok st' \<and> served script_connection st'"
    by (rule queue_drains [OF sample_queued_ok(1,2) script_honest]) (simp_all add: sample_queued_ok(4) keeps_def)
  then show ?thesis by blast
qed


end
