(* ===== verification/Json.thy ===== *)
theory Json
  imports OrderedMap ResponseCodes
begin

text \<open>
  \<open>JsonParser\<close> (\<^verbatim>\<open>src/util/JsonParser.cpp\<close>): reading members of a JSON document, merging two documents and
  taking their difference.

  The document class is that of the library RapidJSON, which is not part of the repository. A document
  is modelled as the tree its interface shows: the seven kinds of values, an object as its members in
  their order. Finding a member gives the first of that name, adding one appends it; asking for a member
  of a value that is no object, or with \<open>operator[]\<close> for one that is not there, violates an assertion
  of the library. The parser, the writer and the equality of values are parameters.
\<close>

datatype json =
    JNull
  | JBool bool
  | JInt int
  | JDouble "64 word"
  | JString bytes
  | JArray "json list"
  | JObject "(bytes \<times> json) list"

fun is_object :: "json \<Rightarrow> bool" where
  "is_object (JObject ms) = True"
| "is_object _ = False"

fun members :: "json \<Rightarrow> (bytes \<times> json) list" where
  "members (JObject ms) = ms"
| "members _ = []"

definition find_member :: "json \<Rightarrow> bytes \<Rightarrow> json option res" where
  "find_member j key = (if is_object j then Inr (map_of (members j) key) else Inl AssertionFailed)"

definition get_member :: "json \<Rightarrow> bytes \<Rightarrow> json res" where
  "get_member j key =
     bind_res (find_member j key) (\<lambda>m. case m of None \<Rightarrow> Inl AssertionFailed | Some v \<Rightarrow> Inr v)"

text \<open>Changing the first member of a name in place.\<close>

fun set_first :: "bytes \<Rightarrow> json \<Rightarrow> (bytes \<times> json) list \<Rightarrow> (bytes \<times> json) list" where
  "set_first key v [] = []"
| "set_first key v ((k, w) # ms) = (if k = key then (k, v) # ms else (k, w) # set_first key v ms)"

definition modify_member :: "bytes \<Rightarrow> (json \<Rightarrow> json res) \<Rightarrow> json \<Rightarrow> json res" where
  "modify_member key f j =
     bind_res (get_member j key) (\<lambda>w. bind_res (f w) (\<lambda>v. Inr (JObject (set_first key v (members j)))))"

definition put_member :: "bytes \<Rightarrow> json \<Rightarrow> json \<Rightarrow> json res" where
  "put_member key v = modify_member key (\<lambda>w. Inr v)"

definition HasMember :: "json \<Rightarrow> bytes \<Rightarrow> bool res" where
  "HasMember j key = bind_res (find_member j key) (\<lambda>m. Inr (m \<noteq> None))"

section \<open>Reading values\<close>

text \<open>
  The readers return the response and what they write to their output parameter; \<open>None\<close> leaves it alone.
  \<open>GetString\<close> gives a pointer to characters, so a string ends at its first zero.
\<close>

definition read_value :: "(json \<Rightarrow> 'a option) \<Rightarrow> json \<Rightarrow> bytes \<Rightarrow> (ResponseCode \<times> 'a option) res" where
  "read_value conv j key =
     bind_res (find_member j key) (\<lambda>m.
       Inr (case m of
              None \<Rightarrow> (JSON_PARSE_KEY_NOT_FOUND_ERROR, None)
            | Some v \<Rightarrow>
                (case conv v of
                   None \<Rightarrow> (JSON_PARSE_KEY_UNEXPECTED_TYPE_ERROR, None)
                 | Some x \<Rightarrow> (SUCCESS, Some x))))"

definition as_bool :: "json \<Rightarrow> bool option" where
  "as_bool v = (case v of JBool b \<Rightarrow> Some b | _ \<Rightarrow> None)"

definition as_int :: "json \<Rightarrow> int option" where
  "as_int v = (case v of JInt n \<Rightarrow> if - (2 ^ 31) \<le> n \<and> n < 2 ^ 31 then Some n else None | _ \<Rightarrow> None)"

definition as_uint :: "json \<Rightarrow> 32 word option" where
  "as_uint v = (case v of JInt n \<Rightarrow> if 0 \<le> n \<and> n < 2 ^ 32 then Some (of_int n) else None | _ \<Rightarrow> None)"

definition as_c_string :: "json \<Rightarrow> bytes option" where
  "as_c_string v = (case v of JString s \<Rightarrow> Some (takeWhile (\<lambda>b. b \<noteq> 0) s) | _ \<Rightarrow> None)"

definition GetBoolValue :: "json \<Rightarrow> bytes \<Rightarrow> (ResponseCode \<times> bool option) res" where
  "GetBoolValue = read_value as_bool"

definition GetIntValue :: "json \<Rightarrow> bytes \<Rightarrow> (ResponseCode \<times> int option) res" where
  "GetIntValue = read_value as_int"

definition GetUint16Value :: "json \<Rightarrow> bytes \<Rightarrow> (ResponseCode \<times> u16 option) res" where
  "GetUint16Value = read_value (map_option ucast \<circ> as_uint)"

definition GetUint32Value :: "json \<Rightarrow> bytes \<Rightarrow> (ResponseCode \<times> 32 word option) res" where
  "GetUint32Value = read_value as_uint"

definition GetSizeTValue :: "json \<Rightarrow> bytes \<Rightarrow> (ResponseCode \<times> nat option) res" where
  "GetSizeTValue = read_value (map_option unat \<circ> as_uint)"

definition GetStringValue :: "json \<Rightarrow> bytes \<Rightarrow> (ResponseCode \<times> bytes option) res" where
  "GetStringValue = read_value as_c_string"

text \<open>
  \<open>snprintf\<close> writes at most \<open>max_string_len\<close> bytes, a zero among them; the buffer of the caller is
  \<open>None\<close> for the null pointer. Returned is what is in the buffer before the zero.
\<close>

definition GetCStringValue :: "json \<Rightarrow> bytes \<Rightarrow> bytes option \<Rightarrow> u16 \<Rightarrow> (ResponseCode \<times> bytes option) res" where
  "GetCStringValue j key value max_string_len =
     (if value = None then Inr (NULL_VALUE_ERROR, None)
      else bind_res (read_value as_c_string j key) (\<lambda>(rc, s).
             Inr (rc, if rc \<noteq> SUCCESS \<or> max_string_len = 0 then value
                      else map_option (take (unat max_string_len - 1)) s)))"

text \<open>
  \<open>parse\<close> is the parser of the library, \<open>None\<close> a parse error, which leaves the document alone.
\<close>

definition InitializeFromJsonString :: "(bytes \<Rightarrow> json option) \<Rightarrow> json \<Rightarrow> bytes \<Rightarrow> ResponseCode \<times> json" where
  "InitializeFromJsonString parse json_document config_json_string =
     (if length config_json_string = 0 then (NULL_VALUE_ERROR, json_document)
      else case parse config_json_string of
             None \<Rightarrow> (JSON_PARSING_ERROR, json_document)
           | Some d \<Rightarrow> (SUCCESS, d))"

text \<open>
  \<open>fopen\<close> gives the content of a file, \<open>None\<close> when it cannot be opened. The code hands the library a buffer
  of the size of the file, and the library wants at least four bytes.
\<close>

definition InitializeFromJsonFile ::
  "(bytes \<Rightarrow> bytes option) \<Rightarrow> (bytes \<Rightarrow> json option) \<Rightarrow> json \<Rightarrow> bytes \<Rightarrow> (ResponseCode \<times> json) res" where
  "InitializeFromJsonFile fopen parse json_document input_file_path =
     (if length input_file_path = 0 then Inr (FILE_NAME_INVALID, json_document)
      else case fopen input_file_path of
        None \<Rightarrow> Inr (FILE_OPEN_ERROR, json_document)
      | Some content \<Rightarrow>
          if length content < 4 then Inl AssertionFailed
          else case parse content of
            None \<Rightarrow> Inr (JSON_PARSING_ERROR, json_document)
          | Some d \<Rightarrow> Inr (SUCCESS, d))"

text \<open>
  Writing a document to a file: \<open>writer\<close> is the writer of the library, \<open>can_write\<close> tells which files can be opened for
  writing; the files are a map from paths to contents. Opening empties the file, and the writer flushes at its end.
\<close>

definition WriteToFile ::
  "(json \<Rightarrow> bytes) \<Rightarrow> (bytes \<Rightarrow> bool) \<Rightarrow> json \<Rightarrow> bytes \<Rightarrow> (bytes \<Rightarrow> bytes option) \<Rightarrow> ResponseCode \<times> (bytes \<Rightarrow> bytes option)" where
  "WriteToFile writer can_write json_document output_file_path files =
     (if length output_file_path = 0 then (FILE_NAME_INVALID, files)
      else if \<not> can_write output_file_path then (FILE_OPEN_ERROR, files)
      else (SUCCESS, files(output_file_path \<mapsto> writer json_document)))"

section \<open>Merging\<close>

text \<open>
  The loop over the members of the source; the inner loop of the code ends at the first member of the
  target of the same name.
\<close>

function MergeValues :: "json \<Rightarrow> json \<Rightarrow> ResponseCode \<times> json"
  and merge_members :: "(bytes \<times> json) list \<Rightarrow> (bytes \<times> json) list \<Rightarrow> ResponseCode \<times> (bytes \<times> json) list" where
  "MergeValues target source =
     (if \<not> is_object source \<or> \<not> is_object target then (JSON_MERGE_FAILED, target)
      else case merge_members (members target) (members source) of (rc, ms) \<Rightarrow> (rc, JObject ms))"
| "merge_members target [] = (SUCCESS, target)"
| "merge_members target ((name, value) # source) =
     (case map_of target name of
        None \<Rightarrow> merge_members (target @ [(name, value)]) source
      | Some old \<Rightarrow>
          if is_object old \<and> is_object value then
            (case MergeValues old value of
               (rc, merged) \<Rightarrow>
                 if rc \<noteq> SUCCESS then (rc, set_first name merged target)
                 else merge_members (set_first name merged target) source)
          else merge_members (erase_first (\<lambda>m. fst m = name) target @ [(name, value)]) source)"
  by pat_completeness auto

termination
  by (relation "measure (\<lambda>x. case x of Inl (t, s) \<Rightarrow> 2 * size s | Inr (t, ms) \<Rightarrow> 2 * size (JObject ms) - 1)")
    (auto simp: elim!: is_object.elims)

section \<open>Difference\<close>

text \<open>
  \<open>eq\<close> is the equality of the library. The members of the result are added as they are found; when the
  documents are no objects, the target is left alone.
\<close>

function DiffValues :: "(json \<Rightarrow> json \<Rightarrow> bool) \<Rightarrow> json \<Rightarrow> json \<Rightarrow> json \<Rightarrow> ResponseCode \<times> json"
  and diff_members :: "(json \<Rightarrow> json \<Rightarrow> bool) \<Rightarrow> (bytes \<times> json) list \<Rightarrow> (bytes \<times> json) list \<Rightarrow> (bytes \<times> json) list
    \<Rightarrow> ResponseCode \<times> (bytes \<times> json) list" where
  "DiffValues eq target_doc old_doc new_doc =
     (if \<not> is_object old_doc \<or> \<not> is_object new_doc then (JSON_MERGE_FAILED, target_doc)
      else case diff_members eq [] (members old_doc) (members new_doc) of (rc, ms) \<Rightarrow> (rc, JObject ms))"
| "diff_members eq target old [] = (SUCCESS, target)"
| "diff_members eq target old ((name, value) # new) =
     (case map_of old name of
        None \<Rightarrow> diff_members eq (target @ [(name, value)]) old new
      | Some old_value \<Rightarrow>
          if \<not> eq old_value value then
            if is_object old_value \<and> is_object value then
              (case DiffValues eq (JObject []) old_value value of
                 (rc, diff_val) \<Rightarrow>
                   if rc \<noteq> SUCCESS then (rc, target)
                   else diff_members eq (if length (members diff_val) > 0 then target @ [(name, diff_val)] else target) old new)
            else diff_members eq (target @ [(name, value)]) old new
          else diff_members eq target old new)"
  by pat_completeness auto

termination
  by (relation "measure (\<lambda>x. case x of Inl (e, t, old, s) \<Rightarrow> 2 * size s | Inr (e, t, old, ms) \<Rightarrow> 2 * size (JObject ms) - 1)")
    (auto simp: elim!: is_object.elims)

declare MergeValues.simps [simp del] DiffValues.simps [simp del]

section \<open>What merging does\<close>

text \<open>Documents without duplicate names, at any depth.\<close>

fun names_distinct :: "json \<Rightarrow> bool" where
  "names_distinct (JObject ms) \<longleftrightarrow> distinct (map fst ms) \<and> (\<forall>m \<in> set ms. names_distinct (snd m))"
| "names_distinct (JArray vs) \<longleftrightarrow> (\<forall>v \<in> set vs. names_distinct v)"
| "names_distinct _ \<longleftrightarrow> True"

lemma is_objectE: "is_object j \<Longrightarrow> (\<And>ms. j = JObject ms \<Longrightarrow> P) \<Longrightarrow> P"
  by (cases j) auto

lemma names_distinct_member: "names_distinct j \<Longrightarrow> map_of (members j) k = Some v \<Longrightarrow> names_distinct v"
  by (cases j) (auto dest!: map_of_SomeD)

lemma size_member: "map_of ms k = Some v \<Longrightarrow> size v < size (JObject ms)"
  by (induction ms) (auto split: if_splits)

lemma map_of_set_first: "map_of (set_first k v ms) k' = (if k' = k \<and> map_of ms k \<noteq> None then Some v else map_of ms k')"
  by (induction ms) auto

lemma keys_set_first [simp]: "map fst (set_first k v ms) = map fst ms"
  by (induction ms) auto

lemma keys_erase_first: "map fst (erase_first (\<lambda>m. fst m = k) ms) = remove1 k (map fst ms)"
  by (induction ms) auto

lemma map_of_erase_first:
  "distinct (map fst ms) \<Longrightarrow> map_of (erase_first (\<lambda>m. fst m = k) ms) k' = (if k' = k then None else map_of ms k')"
proof (induction ms)
  case (Cons m ms)
  have "map_of ms (fst m) = None" using Cons.prems by (simp add: map_of_eq_None_iff)
  with Cons show ?case by (cases m) auto
qed simp

lemma merge_succeeds:
  "is_object target \<Longrightarrow> is_object source \<Longrightarrow> fst (MergeValues target source) = SUCCESS \<and> is_object (snd (MergeValues target source))"
  "fst (merge_members ms ns) = SUCCESS"
proof (induction target source and ms ns rule: MergeValues_merge_members.induct)
  case (1 target source)
  then show ?case by (simp add: MergeValues.simps [of target source] case_prod_unfold)
next
  case (3 target name vl source)
  show ?case
  proof (cases "map_of target name")
    case None
    with 3(1) show ?thesis by simp
  next
    case (Some old)
    show ?thesis
    proof (cases "is_object old \<and> is_object vl")
      case True
      with 3(2) [OF Some] have "fst (MergeValues old vl) = SUCCESS" by blast
      then obtain v where v: "MergeValues old vl = (SUCCESS, v)" by (metis prod.collapse)
      with 3(3) [OF Some True v [symmetric]] Some True show ?thesis by simp
    next
      case False
      with 3(4) [OF Some False] Some show ?thesis by auto
    qed
  qed
qed simp

definition merged :: "json \<Rightarrow> json \<Rightarrow> json" where
  "merged target source = snd (MergeValues target source)"

text \<open>The value of a name after merging.\<close>

definition merge_value :: "json option \<Rightarrow> json option \<Rightarrow> json option" where
  "merge_value old new =
     (case new of
        None \<Rightarrow> old
      | Some v \<Rightarrow> (case old of
          Some w \<Rightarrow> Some (if is_object w \<and> is_object v then merged w v else v)
        | None \<Rightarrow> Some v))"

lemma merge_members_lookup:
  assumes "distinct (map fst s)" "distinct (map fst t)"
  shows "distinct (map fst (snd (merge_members t s))) \<and>
    map_of (snd (merge_members t s)) k = merge_value (map_of t k) (map_of s k)"
  using assms
proof (induction s arbitrary: t)
  case (Cons m s)
  obtain name vl where m: "m = (name, vl)" by force
  have s: "distinct (map fst s)" "map_of s name = None"
    using Cons.prems(1) by (auto simp: m map_of_eq_None_iff)
  show ?case
  proof (cases "map_of t name")
    case None
    then have "distinct (map fst (t @ [(name, vl)]))"
      using Cons.prems(2) by (auto simp: map_of_eq_None_iff)
    with Cons.IH [OF s(1) this] None s(2) show ?thesis
      by (auto simp: m merge_value_def map_add_def split: option.splits)
  next
    case (Some old)
    show ?thesis
    proof (cases "is_object old \<and> is_object vl")
      case True
      obtain v where v: "MergeValues old vl = (SUCCESS, v)" "v = merged old vl"
        using merge_succeeds(1) [of old vl] True by (metis merged_def prod.collapse)
      have "distinct (map fst (set_first name v t))" using Cons.prems(2) by simp
      from Cons.IH [OF s(1) this] Some True v s(2) show ?thesis
        by (simp add: m merge_value_def map_of_set_first split: option.split)
    next
      case False
      let ?t = "erase_first (\<lambda>m. fst m = name) t @ [(name, vl)]"
      have "distinct (map fst ?t)" using Cons.prems(2) by (simp add: keys_erase_first distinct_remove1)
      from Cons.IH [OF s(1) this] Some False s(2) Cons.prems(2) show ?thesis
        by (auto simp: m merge_value_def map_of_erase_first map_add_def split: option.splits)
    qed
  qed
qed (simp add: merge_value_def)

lemma merged_lookup:
  assumes "is_object t" "is_object s" "distinct (map fst (members t))" "distinct (map fst (members s))"
  shows "is_object (merged t s)" "distinct (map fst (members (merged t s)))"
    "map_of (members (merged t s)) k = merge_value (map_of (members t) k) (map_of (members s) k)"
  using merge_members_lookup [OF assms(4,3)] assms(1,2)
  by (simp_all add: merged_def MergeValues.simps [of t s] case_prod_unfold)

lemma merged_succeeds: "is_object t \<Longrightarrow> is_object s \<Longrightarrow> MergeValues t s = (SUCCESS, merged t s)"
  using merge_succeeds(1) [of t s] by (simp add: merged_def prod_eq_iff)

lemma merged_empty: "is_object t \<Longrightarrow> merged t (JObject []) = t"
  by (auto simp: merged_def MergeValues.simps [of t] elim: is_objectE)

text \<open>merging one object into another never fails; the result has the value of the source for its names, an
  object is merged into an object of the same name, and the names that only the target has keep their values.\<close>

theorem MergeValues_lookup:
  assumes "is_object t" "is_object s" "distinct (map fst (members t))" "distinct (map fst (members s))"
  shows "\<exists>r. MergeValues t s = (SUCCESS, r) \<and> is_object r \<and> distinct (map fst (members r)) \<and>
    (\<forall>k. map_of (members r) k =
      (case map_of (members s) k of
         None \<Rightarrow> map_of (members t) k
       | Some v \<Rightarrow> (case map_of (members t) k of
           None \<Rightarrow> Some v
         | Some w \<Rightarrow> Some (if is_object w \<and> is_object v then snd (MergeValues w v) else v))))"
  using merged_succeeds [OF assms(1,2)] merged_lookup [OF assms]
  by (intro exI [of _ "merged t s"]) (simp add: merge_value_def merged_def [symmetric] split: option.split)

theorem MergeValues_lookup_witness:
  "\<exists>r. MergeValues (JObject [([1], JInt 1), ([2], JNull)]) (JObject [([2], JBool True)]) = (SUCCESS, r) \<and>
     map_of (members r) [1] = Some (JInt 1) \<and> map_of (members r) [2] = Some (JBool True)"
  using MergeValues_lookup [of "JObject [([1], JInt 1), ([2], JNull)]" "JObject [([2], JBool True)]"] by auto

section \<open>The difference and what it is for\<close>

definition diff_of :: "(json \<Rightarrow> json \<Rightarrow> bool) \<Rightarrow> json \<Rightarrow> json \<Rightarrow> json" where
  "diff_of eq old new = snd (DiffValues eq (JObject []) old new)"

definition diff_value :: "(json \<Rightarrow> json \<Rightarrow> bool) \<Rightarrow> json option \<Rightarrow> json option \<Rightarrow> json option" where
  "diff_value eq old new =
     (case new of
        None \<Rightarrow> None
      | Some v \<Rightarrow> (case old of
          None \<Rightarrow> Some v
        | Some w \<Rightarrow>
            if eq w v then None
            else if is_object w \<and> is_object v
            then (if members (diff_of eq w v) = [] then None else Some (diff_of eq w v))
            else Some v))"

lemma diff_succeeds:
  "is_object old \<Longrightarrow> is_object new \<Longrightarrow> fst (DiffValues eq t old new) = SUCCESS \<and> is_object (snd (DiffValues eq t old new))"
  "fst (diff_members eq ms os ns) = SUCCESS"
proof (induction eq t old new and eq ms os ns rule: DiffValues_diff_members.induct)
  case (1 eq t old new)
  then show ?case by (simp add: DiffValues.simps [of eq t old new] case_prod_unfold)
next
  case (3 eq target old name vl new)
  show ?case
  proof (cases "map_of old name")
    case None
    with 3(1) show ?thesis by simp
  next
    case (Some w)
    show ?thesis
    proof (cases "eq w vl")
      case True
      with 3(5) [OF Some] Some show ?thesis by simp
    next
      case neq: False
      show ?thesis
      proof (cases "is_object w \<and> is_object vl")
        case True
        with 3(2) [OF Some] neq have "fst (DiffValues eq (JObject []) w vl) = SUCCESS" by blast
        then obtain v where v: "DiffValues eq (JObject []) w vl = (SUCCESS, v)" by (metis prod.collapse)
        with 3(3) [OF Some neq True v [symmetric]] Some True neq show ?thesis by simp
      next
        case False
        with 3(4) [OF Some neq False] Some neq show ?thesis by auto
      qed
    qed
  qed
qed simp

lemma diff_members_lookup:
  assumes "distinct (map fst new)" "distinct (map fst t)" "\<forall>k \<in> fst ` set t. map_of new k = None"
  shows "distinct (map fst (snd (diff_members eq t old new))) \<and>
    map_of (snd (diff_members eq t old new)) k =
      (case map_of t k of Some v \<Rightarrow> Some v | None \<Rightarrow> diff_value eq (map_of old k) (map_of new k))"
  using assms
proof (induction new arbitrary: t)
  case Nil
  then show ?case by (simp add: diff_value_def split: option.split)
next
  case (Cons m new)
  obtain name vl where m: "m = (name, vl)" by force
  have new: "distinct (map fst new)" "map_of new name = None"
    using Cons.prems(1) by (auto simp: m map_of_eq_None_iff)
  have t: "map_of t name = None" using Cons.prems(3) by (auto simp: m map_of_eq_None_iff)
  have rest: "\<forall>k \<in> fst ` set t. map_of new k = None" using Cons.prems(3) by (auto simp: m split: if_splits)
  let ?v = "diff_value eq (map_of old name) (Some vl)"
  let ?t = "case ?v of None \<Rightarrow> t | Some v \<Rightarrow> t @ [(name, v)]"
  have "diff_members eq t old (m # new) = diff_members eq ?t old new"
  proof (cases "map_of old name")
    case (Some w)
    show ?thesis
    proof (cases "is_object w \<and> is_object vl")
      case True
      then obtain v where "DiffValues eq (JObject []) w vl = (SUCCESS, v)" "v = diff_of eq w vl"
        using diff_succeeds(1) [of w vl eq "JObject []"] by (metis diff_of_def prod.collapse)
      with Some True show ?thesis by (simp add: m diff_value_def)
    qed (use Some in \<open>auto simp: m diff_value_def\<close>)
  qed (simp add: m diff_value_def)
  moreover have "distinct (map fst ?t)" "\<forall>k \<in> fst ` set ?t. map_of new k = None"
    using Cons.prems(2) t new(2) rest by (auto simp: map_of_eq_None_iff split: option.splits)
  ultimately show ?case
    using Cons.IH [OF new(1), of ?t] t new(2) by (auto simp: m map_add_def diff_value_def split: option.splits)
qed

lemma diff_lookup:
  assumes "is_object old" "is_object new" "distinct (map fst (members new))"
  shows "is_object (diff_of eq old new)" "distinct (map fst (members (diff_of eq old new)))"
    "map_of (members (diff_of eq old new)) k = diff_value eq (map_of (members old) k) (map_of (members new) k)"
  using diff_members_lookup [OF assms(3), of "[]" eq "members old"] assms(1,2)
  by (simp_all add: diff_of_def DiffValues.simps [of eq _ old new] case_prod_unfold)

lemma DiffValues_object: "is_object old \<Longrightarrow> is_object new \<Longrightarrow> DiffValues eq t old new = (SUCCESS, diff_of eq old new)"
  using diff_succeeds(1) [of old new eq "JObject []"]
  by (simp add: diff_of_def DiffValues.simps [of eq _ old new] case_prod_unfold)

lemma size_set_member: "m \<in> set (members v) \<Longrightarrow> size (snd m) < size v"
proof (cases v)
  case (JObject ms)
  then show "m \<in> set (members v) \<Longrightarrow> size (snd m) < size v" by (induction ms arbitrary: v) auto
qed auto

text \<open>\<open>w\<close> has all that \<open>v\<close> has: it is the same, or an object that has every member of \<open>v\<close>.\<close>

function document_covers :: "(json \<Rightarrow> json \<Rightarrow> bool) \<Rightarrow> json \<Rightarrow> json \<Rightarrow> bool" where
  "document_covers eq w v \<longleftrightarrow> w = v \<or> eq w v \<or>
     is_object w \<and> is_object v \<and>
     (\<forall>m \<in> set (members v). case map_of (members w) (fst m) of None \<Rightarrow> False | Some y \<Rightarrow> document_covers eq y (snd m))"
  by pat_completeness auto

termination
  by (relation "measure (\<lambda>(e, w, v). size v)") (auto dest: size_set_member)

declare document_covers.simps [simp del]

lemma merge_diff_object:
  assumes "is_object old" "is_object new" "names_distinct old" "names_distinct new"
  shows "document_covers eq (merged old (diff_of eq old new)) new"
  using assms
proof (induction "size new" arbitrary: old new rule: less_induct)
  case less
  let ?d = "diff_of eq old new" and ?r = "merged old (diff_of eq old new)"
  have dist: "distinct (map fst (members old))" "distinct (map fst (members new))"
    using less.prems by (auto elim!: is_objectE)
  note diff = diff_lookup [OF less.prems(1,2) dist(2), of eq]
  note lookup = merged_lookup(3) [OF less.prems(1) diff(1) dist(1) diff(2)]
  have "case map_of (members ?r) k of None \<Rightarrow> False | Some y \<Rightarrow> document_covers eq y v" if m: "(k, v) \<in> set (members new)" for k v
  proof -
    have k: "map_of (members new) k = Some v" using m dist(2) by simp
    then have v: "names_distinct v" "size v < size new"
      using less.prems(2,4) names_distinct_member size_member by (auto elim!: is_objectE)
    show ?thesis
    proof (cases "map_of (members old) k")
      case None
      then show ?thesis by (simp add: lookup diff(3) k diff_value_def merge_value_def document_covers.simps [of eq v v])
    next
      case (Some w)
      show ?thesis
      proof (cases "\<not> eq w v \<and> is_object w \<and> is_object v")
        case True
        then have "document_covers eq (merged w (diff_of eq w v)) v"
          using less.hyps [OF v(2)] v(1) names_distinct_member [OF less.prems(3) Some] by blast
        moreover have "is_object (diff_of eq w v)"
          using diff_lookup(1) True v(1) by (auto elim!: is_objectE)
        ultimately show ?thesis
          using True merged_empty [of w] Some
          by (auto simp: lookup diff(3) k diff_value_def merge_value_def elim!: is_objectE)
      next
        case False
        then show ?thesis
          using Some by (auto simp: lookup diff(3) k diff_value_def merge_value_def document_covers.simps [of eq w v] document_covers.simps [of eq v v])
      qed
    qed
  qed
  then show ?case
    using less.prems(2) merged_lookup(1) [OF less.prems(1) diff(1) dist(1) diff(2)]
    by (auto simp: document_covers.simps [of eq ?r new])
qed

text \<open>What is covered has no difference.\<close>

lemma covered_no_diff:
  assumes "\<And>x. eq x x" "names_distinct v" "document_covers eq w v"
  shows "diff_value eq (Some w) (Some v) = None"
  using assms(2,3)
proof (induction "size v" arbitrary: w v rule: less_induct)
  case less
  show ?case
  proof (cases "eq w v")
    case False
    then have obj: "is_object w" "is_object v" "w \<noteq> v"
      and cov: "\<forall>m \<in> set (members v). case map_of (members w) (fst m) of None \<Rightarrow> False | Some y \<Rightarrow> document_covers eq y (snd m)"
      using less.prems(2) assms(1) by (auto simp: document_covers.simps [of eq w v])
    have dist: "distinct (map fst (members v))" using less.prems(1) obj(2) by (auto elim!: is_objectE)
    have "map_of (members (diff_of eq w v)) k = None" for k
    proof (cases "map_of (members v) k")
      case None
      then show ?thesis by (simp add: diff_lookup(3) [OF obj(1,2) dist] diff_value_def)
    next
      case (Some x)
      then have "(k, x) \<in> set (members v)" "names_distinct x" "size x < size v"
        using names_distinct_member [OF less.prems(1)] size_set_member [of "(k, x)" v] by (auto dest: map_of_SomeD)
      moreover then obtain y where "map_of (members w) k = Some y" "document_covers eq y x"
        using cov by (fastforce split: option.splits)
      ultimately show ?thesis
        using less.hyps [of x y] Some by (simp add: diff_lookup(3) [OF obj(1,2) dist])
    qed
    then have "map_of (members (diff_of eq w v)) = Map.empty" by (rule ext)
    then have "members (diff_of eq w v) = []" by simp
    with False obj show ?thesis by (simp add: diff_value_def)
  qed (simp add: diff_value_def)
qed

text \<open>C27: the difference of two objects, merged into the old one, gives a document that has everything of the
  new one, and the members of the old one that the new one does not name stay as they were.\<close>

theorem merge_diff_covers:
  assumes "is_object old" "is_object new" "names_distinct old" "names_distinct new"
  shows "\<exists>d r. DiffValues eq t old new = (SUCCESS, d) \<and> MergeValues old d = (SUCCESS, r) \<and> document_covers eq r new \<and>
    (\<forall>k. map_of (members new) k = None \<longrightarrow> map_of (members r) k = map_of (members old) k)"
proof -
  have dist: "distinct (map fst (members old))" "distinct (map fst (members new))"
    using assms by (auto elim!: is_objectE)
  note diff = diff_lookup [OF assms(1,2) dist(2), of eq]
  note r = merged_lookup [OF assms(1) diff(1) dist(1) diff(2)]
  show ?thesis
    using DiffValues_object [OF assms(1,2)] merged_succeeds [OF assms(1) diff(1)] merge_diff_object [OF assms, of eq]
    by (auto simp: r(3) diff(3) diff_value_def merge_value_def)
qed

theorem merge_diff_covers_witness:
  "\<exists>d r. DiffValues (=) JNull (JObject [([1], JInt 1), ([2], JInt 2)]) (JObject [([2], JInt 3)]) = (SUCCESS, d) \<and>
     MergeValues (JObject [([1], JInt 1), ([2], JInt 2)]) d = (SUCCESS, r) \<and>
     document_covers (=) r (JObject [([2], JInt 3)]) \<and> map_of (members r) [1] = Some (JInt 1)"
  using merge_diff_covers [of "JObject [([1], JInt 1), ([2], JInt 2)]" "JObject [([2], JInt 3)]" "(=)" JNull] by fastforce

end
