(* ===== verification/Shadow.thy ===== *)
theory Shadow
  imports Json System
begin

text \<open>
  The device shadow (\<^verbatim>\<open>src/shadow/Shadow.cpp\<close>): a document of the device, the last document of the server
  with its version, and the requests that bring the two together over MQTT.

  A shadow is the record of its members. The client it shares with the application is the argument
  \<open>p_mqtt_client\<close> of the operations that use it, \<open>None\<close> for the null pointer. The handlers of the application
  are numbers and their calls are logged. While an operation waits for the broker, the thread of the reader may
  run the handler of the shadow: \<open>meanwhile\<close> is what it does to the shadow then. The parser, the writer and the
  equality of the JSON library are parameters, and so is the clock, whose reading is \<open>stamp\<close>.
\<close>

datatype ShadowRequestType = Request_Get | Request_Update | Request_Delete | Request_Delta

datatype ShadowResponseType = Response_Rejected | Response_Accepted | Response_Delta

fun request_type_value :: "ShadowRequestType \<Rightarrow> nat" where
  "request_type_value Request_Get = 1"
| "request_type_value Request_Update = 2"
| "request_type_value Request_Delete = 4"
| "request_type_value Request_Delta = 8"

lemma request_type_value_inject: "request_type_value t = request_type_value u \<longleftrightarrow> t = u"
  by (cases t; cases u) simp_all

instantiation ShadowRequestType :: linorder
begin

definition less_eq_ShadowRequestType :: "ShadowRequestType \<Rightarrow> ShadowRequestType \<Rightarrow> bool" where
  "less_eq_ShadowRequestType t u \<longleftrightarrow> request_type_value t \<le> request_type_value u"

definition less_ShadowRequestType :: "ShadowRequestType \<Rightarrow> ShadowRequestType \<Rightarrow> bool" where
  "less_ShadowRequestType t u \<longleftrightarrow> request_type_value t < request_type_value u"

instance
  by standard (auto simp: less_eq_ShadowRequestType_def less_ShadowRequestType_def request_type_value_inject)

end

section \<open>Names\<close>

definition STATE_KEY :: bytes where "STATE_KEY = str ''state''"

definition REPORTED_KEY :: bytes where "REPORTED_KEY = str ''reported''"

definition DESIRED_KEY :: bytes where "DESIRED_KEY = str ''desired''"

definition CLIENT_TOKEN_KEY :: bytes where "CLIENT_TOKEN_KEY = str ''clientToken''"

definition VERSION_KEY :: bytes where "VERSION_KEY = str ''version''"

definition TIMESTAMP_KEY :: bytes where "TIMESTAMP_KEY = str ''timestamp''"

lemmas key_defs = STATE_KEY_def REPORTED_KEY_def DESIRED_KEY_def CLIENT_TOKEN_KEY_def VERSION_KEY_def TIMESTAMP_KEY_def

text \<open>The text of the empty document; a name is written between quotation marks.\<close>

definition SHADOW_DOCUMENT_EMPTY_STRING :: bytes where
  "SHADOW_DOCUMENT_EMPTY_STRING =
     str ''{    '' @ quoted ''state'' @ str '' : {        '' @ quoted ''desired'' @ str '' : {        },        '' @
     quoted ''reported'' @ str '' : {        }    },    '' @ quoted ''version'' @ str '' : 0,    '' @
     quoted ''clientToken'' @ str '' : '' @ quoted ''empty'' @ str '',    '' @ quoted ''timestamp'' @ str '': 0}''"

definition response_type_delta_text :: bytes where "response_type_delta_text = str ''delta''"

definition response_type_rejected_text :: bytes where "response_type_rejected_text = str ''rejected''"

definition response_type_accepted_text :: bytes where "response_type_accepted_text = str ''accepted''"

section \<open>The shadow\<close>

record Shadow =
  sh_is_get_subscription_active :: bool
  sh_is_update_subscription_active :: bool
  sh_is_delete_subscription_active :: bool
  sh_is_delta_subscription_active :: bool
  sh_cur_shadow_version :: u32
  sh_thing_name :: bytes
  sh_client_token_prefix :: bytes
  sh_client_token :: bytes
  sh_topic_get :: bytes
  sh_topic_delta :: bytes
  sh_topic_update :: bytes
  sh_topic_delete :: bytes
  sh_cur_server_state_document :: json
  sh_cur_device_state_document :: json
  sh_request_mapping :: "(ShadowRequestType \<times> nat option) list"
  sh_calls :: "(nat \<times> bytes \<times> ShadowRequestType \<times> ShadowResponseType \<times> json) list"

definition topic_action_prefix :: "bytes \<Rightarrow> bytes" where
  "topic_action_prefix thing_name = str ''$aws/things/'' @ thing_name @ str ''/shadow/''"

definition new_client_token :: "bytes \<Rightarrow> int \<Rightarrow> bytes" where
  "new_client_token client_token_prefix stamp = client_token_prefix @ str ''_'' @ int_digits stamp"

text \<open>\<open>SetString\<close> is given a pointer to characters.\<close>

definition set_client_token :: "bytes \<Rightarrow> json \<Rightarrow> json res" where
  "set_client_token token = put_member CLIENT_TOKEN_KEY (JString (takeWhile (\<lambda>b. b \<noteq> 0) token))"

definition Shadow_new :: "(bytes \<Rightarrow> json option) \<Rightarrow> int \<Rightarrow> bytes \<Rightarrow> bytes \<Rightarrow> Shadow res" where
  "Shadow_new parse stamp thing_name client_token_prefix =
     (let prefix = topic_action_prefix thing_name;
          token_prefix = (if length client_token_prefix = 0 then thing_name else client_token_prefix);
          token = new_client_token token_prefix stamp;
          device = snd (InitializeFromJsonString parse JNull SHADOW_DOCUMENT_EMPTY_STRING)
      in bind_res (set_client_token token device) (\<lambda>device.
         bind_res (modify_member STATE_KEY (put_member DESIRED_KEY (JObject [])) device) (\<lambda>device.
         bind_res (modify_member STATE_KEY (put_member REPORTED_KEY (JObject [])) device) (\<lambda>device.
           Inr \<lparr>sh_is_get_subscription_active = False, sh_is_update_subscription_active = False,
                sh_is_delete_subscription_active = False, sh_is_delta_subscription_active = False,
                sh_cur_shadow_version = 0, sh_thing_name = thing_name, sh_client_token_prefix = token_prefix,
                sh_client_token = token, sh_topic_get = prefix @ str ''get'',
                sh_topic_delta = prefix @ str ''update'' @ str ''/'' @ str ''delta'',
                sh_topic_update = prefix @ str ''update'', sh_topic_delete = prefix @ str ''delete'',
                sh_cur_server_state_document = JObject [], sh_cur_device_state_document = device,
                sh_request_mapping = [], sh_calls = []\<rparr>))))"

definition Shadow_Create ::
  "(bytes \<Rightarrow> json option) \<Rightarrow> int \<Rightarrow> 'n MqttClient option \<Rightarrow> bytes \<Rightarrow> bytes \<Rightarrow> Shadow option res" where
  "Shadow_Create parse stamp p_mqtt_client thing_name client_token_prefix =
     (if p_mqtt_client = None \<or> length thing_name = 0 then Inr None
      else bind_res (Shadow_new parse stamp thing_name client_token_prefix) (\<lambda>sh. Inr (Some sh)))"

definition GetEmptyShadowDocument :: "(bytes \<Rightarrow> json option) \<Rightarrow> json" where
  "GetEmptyShadowDocument parse = snd (InitializeFromJsonString parse JNull SHADOW_DOCUMENT_EMPTY_STRING)"

section \<open>Responses\<close>

definition call_handler :: "ShadowRequestType \<Rightarrow> ShadowResponseType \<Rightarrow> json \<Rightarrow> Shadow \<Rightarrow> Shadow" where
  "call_handler t response_type payload sh =
     (case map_find (sh_request_mapping sh) t of
        Some (Some h) \<Rightarrow> sh\<lparr>sh_calls := sh_calls sh @ [(h, sh_thing_name sh, t, response_type, payload)]\<rparr>
      | _ \<Rightarrow> sh)"

definition has_state :: "json \<Rightarrow> bool" where
  "has_state payload \<longleftrightarrow> is_object payload \<and> map_of (members payload) STATE_KEY \<noteq> None"

definition HandleGetResponse :: "ShadowResponseType \<Rightarrow> json \<Rightarrow> Shadow \<Rightarrow> (ResponseCode \<times> Shadow) res" where
  "HandleGetResponse response_type payload sh =
     (if response_type = Response_Delta then Inr (SHADOW_UNEXPECTED_RESPONSE_TYPE, sh)
      else bind_res
        (if response_type = Response_Rejected then Inr (SHADOW_REQUEST_REJECTED, sh)
         else if \<not> has_state payload then Inr (SHADOW_UNEXPECTED_RESPONSE_PAYLOAD, sh)
         else if \<not> is_object (sh_cur_server_state_document sh) then Inl AssertionFailed
         else bind_res (GetUint32Value payload VERSION_KEY) (\<lambda>(rc_parser, version).
           Inr (if rc_parser \<noteq> SUCCESS then rc_parser else SHADOW_REQUEST_ACCEPTED,
                sh\<lparr>sh_cur_server_state_document := payload,
                   sh_cur_shadow_version := (case version of None \<Rightarrow> sh_cur_shadow_version sh | Some v \<Rightarrow> v)\<rparr>)))
        (\<lambda>(rc, sh). Inr (rc, call_handler Request_Get response_type payload sh)))"

text \<open>The delta of a document: the members of \<open>state\<close> go into the desired state of the server.\<close>

definition merge_into :: "json \<Rightarrow> json \<Rightarrow> json res" where
  "merge_into source target = Inr (snd (MergeValues target source))"

definition merge_delta :: "(bytes \<Rightarrow> json option) \<Rightarrow> json \<Rightarrow> json \<Rightarrow> json res" where
  "merge_delta parse payload server =
     bind_res (HasMember server STATE_KEY) (\<lambda>b.
       let server = (if b then server else snd (InitializeFromJsonString parse server SHADOW_DOCUMENT_EMPTY_STRING)) in
       bind_res (get_member server STATE_KEY) (\<lambda>state.
       bind_res (HasMember state DESIRED_KEY) (\<lambda>b.
       bind_res
         (if b then Inr server
          else let empty_doc = snd (InitializeFromJsonString parse JNull SHADOW_DOCUMENT_EMPTY_STRING) in
               bind_res (get_member empty_doc STATE_KEY) (\<lambda>empty_state.
                 modify_member STATE_KEY (merge_into empty_state) server))
         (\<lambda>server. bind_res (get_member payload STATE_KEY) (\<lambda>state.
            modify_member STATE_KEY (modify_member DESIRED_KEY (merge_into state)) server)))))"

text \<open>
  \<open>payload_version\<close> is a local variable without initial value; reading it when the payload has no version is
  undefined.
\<close>

definition own_request :: "json \<Rightarrow> Shadow \<Rightarrow> bool res" where
  "own_request payload sh =
     bind_res (HasMember payload CLIENT_TOKEN_KEY) (\<lambda>b.
       if b then bind_res (GetStringValue payload CLIENT_TOKEN_KEY) (\<lambda>(rc, s).
              Inr (sh_client_token sh = (case s of None \<Rightarrow> [] | Some t \<Rightarrow> t)))
       else Inr False)"

definition HandleUpdateResponse ::
  "(bytes \<Rightarrow> json option) \<Rightarrow> ShadowResponseType \<Rightarrow> json \<Rightarrow> Shadow \<Rightarrow> (ResponseCode \<times> Shadow) res" where
  "HandleUpdateResponse parse response_type payload sh =
     bind_res
       (if response_type = Response_Rejected then Inr (SHADOW_REQUEST_REJECTED, sh)
        else if \<not> has_state payload then Inr (SHADOW_UNEXPECTED_RESPONSE_PAYLOAD, sh)
        else bind_res (GetUint32Value payload VERSION_KEY) (\<lambda>(rc_parser, version).
          if rc_parser \<noteq> SUCCESS \<and> rc_parser \<noteq> JSON_PARSE_KEY_NOT_FOUND_ERROR then Inr (rc_parser, sh)
          else case version of
            None \<Rightarrow> Inl Uninitialised
          | Some payload_version \<Rightarrow>
              if payload_version \<le> sh_cur_shadow_version sh then Inr (SHADOW_RECEIVED_OLD_VERSION_UPDATE, sh)
              else bind_res (own_request payload sh) (\<lambda>own.
                if response_type = Response_Delta then
                  (if \<not> own then
                     bind_res (merge_delta parse payload (sh_cur_server_state_document sh)) (\<lambda>server.
                       Inr (SHADOW_RECEIVED_DELTA,
                            sh\<lparr>sh_cur_server_state_document := server, sh_cur_shadow_version := payload_version\<rparr>))
                   else Inr (SHADOW_RECEIVED_DELTA, sh))
                else Inr (SHADOW_REQUEST_ACCEPTED,
                  sh\<lparr>sh_cur_server_state_document := snd (MergeValues (sh_cur_server_state_document sh) payload),
                     sh_cur_shadow_version := payload_version\<rparr>))))
       (\<lambda>(rc, sh).
          let t = (if response_type = Response_Delta then Request_Delta else Request_Update)
          in Inr (rc, call_handler t response_type payload sh))"

definition HandleDeleteResponse :: "ShadowResponseType \<Rightarrow> json \<Rightarrow> Shadow \<Rightarrow> (ResponseCode \<times> Shadow) res" where
  "HandleDeleteResponse response_type payload sh =
     (if response_type = Response_Delta then Inr (SHADOW_UNEXPECTED_RESPONSE_TYPE, sh)
      else let (rc, sh) =
             (if response_type = Response_Rejected then (SHADOW_REQUEST_REJECTED, sh)
              else (SHADOW_REQUEST_ACCEPTED,
                    sh\<lparr>sh_cur_server_state_document := JObject [], sh_cur_shadow_version := 0\<rparr>))
           in Inr (rc, call_handler Request_Delete response_type payload sh))"

text \<open>\<open>std::equal\<close> with three iterators: the second range has to be as long as the first.\<close>

fun equal_range :: "bytes \<Rightarrow> bytes \<Rightarrow> bool res" where
  "equal_range [] ys = Inr True"
| "equal_range (x # xs) [] = Inl OutOfBounds"
| "equal_range (x # xs) (y # ys) = (if x = y then equal_range xs ys else Inr False)"

definition SubscriptionHandler ::
  "(bytes \<Rightarrow> json option) \<Rightarrow> bytes \<Rightarrow> bytes \<Rightarrow> Shadow \<Rightarrow> (ResponseCode \<times> Shadow) res" where
  "SubscriptionHandler parse topic_name payload sh =
     (case InitializeFromJsonString parse JNull payload of (rc, json_payload) \<Rightarrow>
        if rc \<noteq> SUCCESS then Inr (rc, sh)
        else
          bind_res (equal_range (rev response_type_delta_text) (rev topic_name)) (\<lambda>is_delta.
          bind_res (if is_delta then Inr False else equal_range (rev response_type_rejected_text) (rev topic_name)) (\<lambda>is_rejected.
          bind_res (if is_delta \<or> is_rejected then Inr False
                    else equal_range (rev response_type_accepted_text) (rev topic_name)) (\<lambda>is_accepted.
            if \<not> is_delta \<and> \<not> is_rejected \<and> \<not> is_accepted then Inr (SHADOW_UNEXPECTED_RESPONSE_TYPE, sh)
            else
              let response_type = (if is_delta then Response_Delta else if is_rejected then Response_Rejected else Response_Accepted) in
              bind_res (equal_range (sh_topic_get sh) topic_name) (\<lambda>b.
                if b then HandleGetResponse response_type json_payload sh
                else bind_res (equal_range (sh_topic_update sh) topic_name) (\<lambda>b.
                  if b then HandleUpdateResponse parse response_type json_payload sh
                  else bind_res (equal_range (sh_topic_delete sh) topic_name) (\<lambda>b.
                    if b then HandleDeleteResponse response_type json_payload sh
                    else Inr (SHADOW_UNEXPECTED_RESPONSE_TOPIC, sh))))))))"

section \<open>Subscribing\<close>

text \<open>
  The subscriptions are created with the handler of the shadow, \<open>p_sub_handler\<close>. \<open>Subscription::Create\<close> gives the
  null pointer for a topic that is not valid, and the packet then dereferences it.
\<close>

fun alloc_subscriptions :: "Subscription option list \<Rightarrow> 'n client \<Rightarrow> nat option list \<times> 'n client" where
  "alloc_subscriptions [] st = ([], st)"
| "alloc_subscriptions (None # ss) st = (case alloc_subscriptions ss st of (rs, st) \<Rightarrow> (None # rs, st))"
| "alloc_subscriptions (Some s # ss) st =
     (case sub_alloc s st of (r, st) \<Rightarrow> case alloc_subscriptions ss st of (rs, st) \<Rightarrow> (Some r # rs, st))"

definition Subscribe_pointers ::
  "(action_data option \<Rightarrow> 'n client \<Rightarrow> (ResponseCode \<times> action_data option \<times> 'n client) res)
   \<Rightarrow> ('n client \<Rightarrow> 'n client) \<Rightarrow> nat option list \<Rightarrow> 'n MqttClient \<Rightarrow> (ResponseCode \<times> 'n MqttClient) res" where
  "Subscribe_pointers runner wait ps c =
     (if ps \<noteq> [] \<and> length ps \<le> MAX_TOPICS_IN_ONE_SUBSCRIBE_PACKET \<and> None \<in> set ps then Inl NullPointer
      else Subscribe runner wait (map (\<lambda>p. case p of None \<Rightarrow> 0 | Some r \<Rightarrow> r) ps) c)"

fun request_topic :: "Shadow \<Rightarrow> ShadowRequestType \<Rightarrow> bytes" where
  "request_topic sh Request_Get = sh_topic_get sh"
| "request_topic sh Request_Update = sh_topic_update sh"
| "request_topic sh Request_Delete = sh_topic_delete sh"
| "request_topic sh Request_Delta = sh_topic_delta sh"

text \<open>
  The loop over the requests. \<open>has_delta\<close> stays set once a delta was seen; the requests come in the order of
  their values, so it is the last.
\<close>

fun subscription_topics :: "Shadow \<Rightarrow> bool \<Rightarrow> ShadowRequestType list \<Rightarrow> bytes list" where
  "subscription_topics sh has_delta [] = []"
| "subscription_topics sh has_delta (t # ts) =
     (let has_delta = (has_delta \<or> t = Request_Delta)
      in (if has_delta then [sh_topic_delta sh]
          else [request_topic sh t @ str ''/'' @ response_type_accepted_text,
                request_topic sh t @ str ''/'' @ response_type_rejected_text])
         @ subscription_topics sh has_delta ts)"

fun replace_handlers ::
  "(ShadowRequestType \<times> nat option) list \<Rightarrow> (ShadowRequestType \<times> nat option) list \<Rightarrow> (ShadowRequestType \<times> nat option) list" where
  "replace_handlers [] m = m"
| "replace_handlers ((t, h) # requests) m =
     replace_handlers requests (map_insert t h (if map_find m t \<noteq> None then map_erase t m else m))"

definition activate :: "ShadowRequestType list \<Rightarrow> Shadow \<Rightarrow> Shadow" where
  "activate ts sh =
     sh\<lparr>sh_is_get_subscription_active := sh_is_get_subscription_active sh \<or> Request_Get \<in> set ts,
        sh_is_update_subscription_active := sh_is_update_subscription_active sh \<or> Request_Update \<in> set ts,
        sh_is_delete_subscription_active := sh_is_delete_subscription_active sh \<or> Request_Delete \<in> set ts,
        sh_is_delta_subscription_active := sh_is_delta_subscription_active sh \<or> Request_Delta \<in> set ts\<rparr>"

text \<open>\<open>sleep\<close> is what the other threads do to the client in the two seconds after the subscription.\<close>

definition AddShadowSubscription ::
  "(action_data option \<Rightarrow> 'n client \<Rightarrow> (ResponseCode \<times> action_data option \<times> 'n client) res)
   \<Rightarrow> ('n client \<Rightarrow> 'n client) \<Rightarrow> ('n client \<Rightarrow> 'n client) \<Rightarrow> (Shadow \<Rightarrow> Shadow) \<Rightarrow> nat
   \<Rightarrow> (ShadowRequestType \<times> nat option) list \<Rightarrow> Shadow \<Rightarrow> 'n MqttClient option
   \<Rightarrow> (ResponseCode \<times> Shadow \<times> 'n MqttClient option) res" where
  "AddShadowSubscription runner wait sleep meanwhile p_sub_handler request_mapping sh p_mqtt_client =
     (case p_mqtt_client of
        None \<Rightarrow> Inr (SHADOW_MQTT_CLIENT_NOT_SET_ERROR, sh, None)
      | Some c \<Rightarrow>
          if request_mapping = [] then Inr (SHADOW_REQUEST_MAP_EMPTY, sh, Some c)
          else if \<not> IsConnected c then Inr (SHADOW_MQTT_DISCONNECTED_ERROR, sh, Some c)
          else
            let subs = map (\<lambda>t. Create_Subscription (Create_Utf8String t) QOS0 (Some p_sub_handler) None)
                         (subscription_topics sh False (map fst request_mapping));
                (ps, st) = alloc_subscriptions subs (core_client_state c)
            in bind_res (Subscribe_pointers runner wait ps (c\<lparr>core_client_state := st\<rparr>)) (\<lambda>(rc, c).
                 let sh = meanwhile sh in
                 if rc \<noteq> SUCCESS then Inr (rc, sh, Some c)
                 else
                   let sh = activate (map fst request_mapping) sh;
                       sh = sh\<lparr>sh_request_mapping := replace_handlers request_mapping (sh_request_mapping sh)\<rparr>
                   in Inr (rc, meanwhile sh, Some (on_state sleep c))))"

section \<open>Requests\<close>

definition UpdateDeviceShadow :: "json \<Rightarrow> Shadow \<Rightarrow> ResponseCode \<times> Shadow" where
  "UpdateDeviceShadow document sh =
     (if document = JNull \<and> \<not> is_object document then (SHADOW_JSON_EMPTY_ERROR, sh)
      else case MergeValues (sh_cur_device_state_document sh) document of
             (rc, device) \<Rightarrow> (rc, sh\<lparr>sh_cur_device_state_document := device\<rparr>))"

definition get_member2 :: "json \<Rightarrow> bytes \<Rightarrow> bytes \<Rightarrow> json res" where
  "get_member2 j k l = bind_res (get_member j k) (\<lambda>v. get_member v l)"

definition GetDeviceReported :: "Shadow \<Rightarrow> json res" where
  "GetDeviceReported sh = get_member2 (sh_cur_device_state_document sh) STATE_KEY REPORTED_KEY"

definition GetDeviceDesired :: "Shadow \<Rightarrow> json res" where
  "GetDeviceDesired sh = get_member2 (sh_cur_device_state_document sh) STATE_KEY DESIRED_KEY"

definition GetDeviceDocument :: "Shadow \<Rightarrow> json" where
  "GetDeviceDocument sh = sh_cur_device_state_document sh"

definition server_member :: "bytes \<Rightarrow> Shadow \<Rightarrow> json res" where
  "server_member key sh =
     (let server = sh_cur_server_state_document sh in
      bind_res (HasMember server STATE_KEY) (\<lambda>b.
        if \<not> b then Inr JNull
        else bind_res (get_member server STATE_KEY) (\<lambda>state.
             bind_res (HasMember state key) (\<lambda>b. if \<not> b then Inr JNull else get_member state key))))"

definition GetServerReported :: "Shadow \<Rightarrow> json res" where
  "GetServerReported = server_member REPORTED_KEY"

definition GetServerDesired :: "Shadow \<Rightarrow> json res" where
  "GetServerDesired = server_member DESIRED_KEY"

definition GetServerDocument :: "Shadow \<Rightarrow> json" where
  "GetServerDocument sh = sh_cur_server_state_document sh"

definition GetCurrentVersionNumber :: "Shadow \<Rightarrow> u32" where
  "GetCurrentVersionNumber sh = sh_cur_shadow_version sh"

definition ResetClientTokenSuffix :: "int \<Rightarrow> Shadow \<Rightarrow> Shadow res" where
  "ResetClientTokenSuffix stamp sh =
     (let token = new_client_token (sh_client_token_prefix sh) stamp in
      bind_res (set_client_token token (sh_cur_device_state_document sh)) (\<lambda>device.
        Inr (sh\<lparr>sh_client_token := token, sh_cur_device_state_document := device\<rparr>)))"

definition IsInSync :: "(json \<Rightarrow> json \<Rightarrow> bool) \<Rightarrow> Shadow \<Rightarrow> bool res" where
  "IsInSync eq sh =
     (let server = sh_cur_server_state_document sh in
      if \<not> is_object server then Inr False
      else bind_res (HasMember server STATE_KEY) (\<lambda>b.
        if \<not> b then Inr False
        else bind_res (get_member server STATE_KEY) (\<lambda>state.
             bind_res (HasMember state REPORTED_KEY) (\<lambda>has_reported.
             bind_res (HasMember state DESIRED_KEY) (\<lambda>has_desired.
               if \<not> has_reported \<and> \<not> has_desired then Inr False
               else if has_reported \<and> \<not> has_desired then Inr False
               else if \<not> has_reported \<and> has_desired then Inr False
               else bind_res (get_member state DESIRED_KEY) (\<lambda>d.
                    bind_res (get_member state REPORTED_KEY) (\<lambda>r. Inr (eq d r))))))))"

text \<open>
  The three requests subscribe first when they have to. A request for the document or for its deletion has an
  empty payload.
\<close>

definition ensure_subscription ::
  "(action_data option \<Rightarrow> 'n client \<Rightarrow> (ResponseCode \<times> action_data option \<times> 'n client) res)
   \<Rightarrow> ('n client \<Rightarrow> 'n client) \<Rightarrow> ('n client \<Rightarrow> 'n client) \<Rightarrow> (Shadow \<Rightarrow> Shadow) \<Rightarrow> nat \<Rightarrow> bool \<Rightarrow> ShadowRequestType
   \<Rightarrow> Shadow \<Rightarrow> 'n MqttClient \<Rightarrow> (ResponseCode \<times> Shadow \<times> 'n MqttClient option) res" where
  "ensure_subscription runner wait sleep meanwhile p_sub_handler active t sh c =
     (if active then Inr (SUCCESS, sh, Some c)
      else AddShadowSubscription runner wait sleep meanwhile p_sub_handler [(t, None)] sh (Some c))"

definition publish_request ::
  "(action_data option \<Rightarrow> 'n client \<Rightarrow> (ResponseCode \<times> action_data option \<times> 'n client) res)
   \<Rightarrow> ('n client \<Rightarrow> 'n client) \<Rightarrow> bytes \<Rightarrow> bytes \<Rightarrow> Shadow \<Rightarrow> 'n MqttClient option
   \<Rightarrow> (ResponseCode \<times> Shadow \<times> 'n MqttClient option) res" where
  "publish_request runner wait topic payload sh p_mqtt_client =
     bind_res (deref p_mqtt_client) (\<lambda>c.
     bind_res (Publish runner wait (Create_Utf8String topic) False False QOS0 payload c) (\<lambda>(rc, c).
       Inr (rc, sh, Some c)))"

definition PerformGetAsync ::
  "(action_data option \<Rightarrow> 'n client \<Rightarrow> (ResponseCode \<times> action_data option \<times> 'n client) res)
   \<Rightarrow> ('n client \<Rightarrow> 'n client) \<Rightarrow> ('n client \<Rightarrow> 'n client) \<Rightarrow> (Shadow \<Rightarrow> Shadow) \<Rightarrow> nat
   \<Rightarrow> Shadow \<Rightarrow> 'n MqttClient option \<Rightarrow> (ResponseCode \<times> Shadow \<times> 'n MqttClient option) res" where
  "PerformGetAsync runner wait sleep meanwhile p_sub_handler sh p_mqtt_client =
     (case p_mqtt_client of
        None \<Rightarrow> Inr (SHADOW_MQTT_CLIENT_NOT_SET_ERROR, sh, None)
      | Some c \<Rightarrow>
          if \<not> IsConnected c then Inr (SHADOW_MQTT_DISCONNECTED_ERROR, sh, Some c)
          else bind_res (ensure_subscription runner wait sleep meanwhile p_sub_handler
                           (sh_is_get_subscription_active sh) Request_Get sh c) (\<lambda>(rc, sh, p).
            if rc \<noteq> SUCCESS then Inr (rc, sh, p)
            else publish_request runner wait (sh_topic_get sh) [] sh p))"

definition PerformDeleteAsync ::
  "(action_data option \<Rightarrow> 'n client \<Rightarrow> (ResponseCode \<times> action_data option \<times> 'n client) res)
   \<Rightarrow> ('n client \<Rightarrow> 'n client) \<Rightarrow> ('n client \<Rightarrow> 'n client) \<Rightarrow> (Shadow \<Rightarrow> Shadow) \<Rightarrow> nat
   \<Rightarrow> Shadow \<Rightarrow> 'n MqttClient option \<Rightarrow> (ResponseCode \<times> Shadow \<times> 'n MqttClient option) res" where
  "PerformDeleteAsync runner wait sleep meanwhile p_sub_handler sh p_mqtt_client =
     (case p_mqtt_client of
        None \<Rightarrow> Inr (SHADOW_MQTT_CLIENT_NOT_SET_ERROR, sh, None)
      | Some c \<Rightarrow>
          if \<not> IsConnected c then Inr (SHADOW_MQTT_DISCONNECTED_ERROR, sh, Some c)
          else bind_res (ensure_subscription runner wait sleep meanwhile p_sub_handler
                           (sh_is_delete_subscription_active sh) Request_Delete sh c) (\<lambda>(rc, sh, p).
            if rc \<noteq> SUCCESS then Inr (rc, sh, p)
            else publish_request runner wait (sh_topic_delete sh) [] sh p))"

definition erase_member :: "bytes \<Rightarrow> json \<Rightarrow> json" where
  "erase_member key j = JObject (erase_first (\<lambda>m. fst m = key) (members j))"

text \<open>What the update request sends: the difference without its time stamp and version.\<close>

definition update_diff :: "(json \<Rightarrow> json \<Rightarrow> bool) \<Rightarrow> Shadow \<Rightarrow> json res" where
  "update_diff eq sh =
     (let diff = snd (DiffValues eq JNull (sh_cur_server_state_document sh) (sh_cur_device_state_document sh)) in
      bind_res (HasMember diff TIMESTAMP_KEY) (\<lambda>b.
        let diff = (if b then erase_member TIMESTAMP_KEY diff else diff) in
        bind_res (HasMember diff VERSION_KEY) (\<lambda>b.
          Inr (if b then erase_member VERSION_KEY diff else diff))))"

definition same_state :: "(json \<Rightarrow> json \<Rightarrow> bool) \<Rightarrow> Shadow \<Rightarrow> bool" where
  "same_state eq sh =
     (case (map_of (members (sh_cur_device_state_document sh)) STATE_KEY,
            map_of (members (sh_cur_server_state_document sh)) STATE_KEY) of
        (Some d, Some s) \<Rightarrow> eq d s
      | _ \<Rightarrow> False)"

definition PerformUpdateAsync ::
  "(json \<Rightarrow> json \<Rightarrow> bool) \<Rightarrow> (json \<Rightarrow> bytes)
   \<Rightarrow> (action_data option \<Rightarrow> 'n client \<Rightarrow> (ResponseCode \<times> action_data option \<times> 'n client) res)
   \<Rightarrow> ('n client \<Rightarrow> 'n client) \<Rightarrow> ('n client \<Rightarrow> 'n client) \<Rightarrow> (Shadow \<Rightarrow> Shadow) \<Rightarrow> nat
   \<Rightarrow> Shadow \<Rightarrow> 'n MqttClient option \<Rightarrow> (ResponseCode \<times> Shadow \<times> 'n MqttClient option) res" where
  "PerformUpdateAsync eq write_json runner wait sleep meanwhile p_sub_handler sh p_mqtt_client =
     (case p_mqtt_client of
        None \<Rightarrow> Inr (SHADOW_MQTT_CLIENT_NOT_SET_ERROR, sh, None)
      | Some c \<Rightarrow>
          if \<not> IsConnected c then Inr (SHADOW_MQTT_DISCONNECTED_ERROR, sh, Some c)
          else if \<not> is_object (sh_cur_server_state_document sh) \<or> \<not> is_object (sh_cur_device_state_document sh)
          then Inr (FAILURE, sh, Some c)
          else if same_state eq sh then Inr (SHADOW_NOTHING_TO_UPDATE, sh, Some c)
          else bind_res (ensure_subscription runner wait sleep meanwhile p_sub_handler
                           (sh_is_update_subscription_active sh) Request_Update sh c) (\<lambda>(rc, sh, p).
            if rc \<noteq> SUCCESS then Inr (rc, sh, p)
            else bind_res (update_diff eq sh) (\<lambda>diff.
                 bind_res (HasMember diff STATE_KEY) (\<lambda>b.
                   if \<not> b then Inr (SHADOW_NOTHING_TO_UPDATE, sh, p)
                   else publish_request runner wait (sh_topic_update sh) (write_json diff) sh p))))"

section \<open>Destruction\<close>

definition active_topics :: "Shadow \<Rightarrow> bytes list" where
  "active_topics sh =
     (let both = (\<lambda>t. [t @ str ''/'' @ response_type_accepted_text, t @ str ''/'' @ response_type_rejected_text]) in
      (if sh_is_get_subscription_active sh then both (sh_topic_get sh) else []) @
      (if sh_is_update_subscription_active sh then both (sh_topic_update sh) else []) @
      (if sh_is_delete_subscription_active sh then both (sh_topic_delete sh) else []) @
      (if sh_is_delta_subscription_active sh then [sh_topic_delta sh] else []))"

definition Shadow_destroy ::
  "(action_data option \<Rightarrow> 'n client \<Rightarrow> (ResponseCode \<times> action_data option \<times> 'n client) res)
   \<Rightarrow> ('n client \<Rightarrow> 'n client) \<Rightarrow> Shadow \<Rightarrow> 'n MqttClient option \<Rightarrow> ('n MqttClient option) res" where
  "Shadow_destroy runner wait sh p_mqtt_client =
     (case p_mqtt_client of
        None \<Rightarrow> Inr None
      | Some c \<Rightarrow>
          if IsConnected c then
            bind_res (Unsubscribe runner wait (map Create_Utf8String (active_topics sh)) c) (\<lambda>(rc, c). Inr (Some c))
          else Inr (Some c))"

section \<open>Topics\<close>

definition topics_ok :: "Shadow \<Rightarrow> bool" where
  "topics_ok sh \<longleftrightarrow>
     (let prefix = topic_action_prefix (sh_thing_name sh) in
      sh_topic_get sh = prefix @ str ''get'' \<and> sh_topic_update sh = prefix @ str ''update'' \<and>
      sh_topic_delete sh = prefix @ str ''delete'' \<and>
      sh_topic_delta sh = prefix @ str ''update'' @ str ''/'' @ str ''delta'')"

lemma equal_range_append: "equal_range (p @ xs) (p @ ys) = equal_range xs ys"
  by (induction p) auto

lemma equal_range_self: "equal_range xs (xs @ ys) = Inr True"
  by (induction xs) auto

lemma equal_range_iff: "length xs \<le> length ys \<Longrightarrow> equal_range xs ys = Inr (take (length xs) ys = xs)"
  by (induction xs ys rule: equal_range.induct) auto

lemma str_Cons: "str (c # s) = of_char c # str s"
  by (simp add: str_def)

lemma suffix_tests:
  "equal_range (rev response_type_delta_text) (rev (xs @ response_type_delta_text)) = Inr True"
  "equal_range (rev response_type_delta_text) (rev (xs @ response_type_rejected_text)) = Inr False"
  "equal_range (rev response_type_delta_text) (rev (xs @ response_type_accepted_text)) = Inr False"
  "equal_range (rev response_type_rejected_text) (rev (xs @ response_type_rejected_text)) = Inr True"
  "equal_range (rev response_type_rejected_text) (rev (xs @ response_type_accepted_text)) = Inr False"
  "equal_range (rev response_type_accepted_text) (rev (xs @ response_type_accepted_text)) = Inr True"
  by (simp_all add: equal_range_self) (simp_all add: response_type_delta_text_def response_type_rejected_text_def
      response_type_accepted_text_def str_Cons)

lemma prefix_tests:
  assumes "topics_ok sh"
  shows "equal_range (sh_topic_get sh) (sh_topic_get sh @ xs) = Inr True"
    "equal_range (sh_topic_update sh) (sh_topic_update sh @ xs) = Inr True"
    "equal_range (sh_topic_delete sh) (sh_topic_delete sh @ xs) = Inr True"
    "equal_range (sh_topic_get sh) (sh_topic_update sh @ xs) = Inr False"
    "equal_range (sh_topic_get sh) (sh_topic_delete sh @ xs) = Inr False"
    "equal_range (sh_topic_update sh) (sh_topic_delete sh @ xs) = Inr False"
  using assms
  by (simp_all add: topics_ok_def Let_def equal_range_append equal_range_self append_assoc str_Cons)

lemma topic_delta: "topics_ok sh \<Longrightarrow> sh_topic_delta sh = sh_topic_update sh @ str ''/'' @ response_type_delta_text"
  by (simp add: topics_ok_def Let_def response_type_delta_text_def)

text \<open>a message on one of the seven topics of a shadow goes to the handler of its request, with the kind of
  response that the topic says.\<close>

theorem topic_reaches_its_handler:
  assumes "topics_ok sh" "payload \<noteq> []" "parse payload = Some j"
  shows "SubscriptionHandler parse (sh_topic_get sh @ str ''/'' @ response_type_accepted_text) payload sh
      = HandleGetResponse Response_Accepted j sh \<and>
    SubscriptionHandler parse (sh_topic_get sh @ str ''/'' @ response_type_rejected_text) payload sh
      = HandleGetResponse Response_Rejected j sh \<and>
    SubscriptionHandler parse (sh_topic_update sh @ str ''/'' @ response_type_accepted_text) payload sh
      = HandleUpdateResponse parse Response_Accepted j sh \<and>
    SubscriptionHandler parse (sh_topic_update sh @ str ''/'' @ response_type_rejected_text) payload sh
      = HandleUpdateResponse parse Response_Rejected j sh \<and>
    SubscriptionHandler parse (sh_topic_delete sh @ str ''/'' @ response_type_accepted_text) payload sh
      = HandleDeleteResponse Response_Accepted j sh \<and>
    SubscriptionHandler parse (sh_topic_delete sh @ str ''/'' @ response_type_rejected_text) payload sh
      = HandleDeleteResponse Response_Rejected j sh \<and>
    SubscriptionHandler parse (sh_topic_delta sh) payload sh = HandleUpdateResponse parse Response_Delta j sh"
proof -
  have suffix: "equal_range (rev response_type_delta_text) (rev (xs @ str ''/'' @ t)) =
      equal_range (rev response_type_delta_text) (rev ((xs @ str ''/'') @ t))"
    "equal_range (rev response_type_rejected_text) (rev (xs @ str ''/'' @ t)) =
      equal_range (rev response_type_rejected_text) (rev ((xs @ str ''/'') @ t))"
    "equal_range (rev response_type_accepted_text) (rev (xs @ str ''/'' @ t)) =
      equal_range (rev response_type_accepted_text) (rev ((xs @ str ''/'') @ t))" for xs t by simp_all
  have "InitializeFromJsonString parse JNull payload = (SUCCESS, j)"
    using assms(2,3) by (simp add: InitializeFromJsonString_def)
  then show ?thesis
    by (simp only: SubscriptionHandler_def topic_delta [OF assms(1)] suffix suffix_tests prefix_tests [OF assms(1)]
        bind_res_simps prod.case if_True if_False simp_thms Let_def)
qed

section \<open>What the responses change\<close>

text \<open>The members that no response touches.\<close>

definition fixed_part where
  "fixed_part sh = (sh_is_get_subscription_active sh, sh_is_update_subscription_active sh,
     sh_is_delete_subscription_active sh, sh_is_delta_subscription_active sh, sh_thing_name sh,
     sh_client_token_prefix sh, sh_client_token sh, sh_topic_get sh, sh_topic_delta sh, sh_topic_update sh,
     sh_topic_delete sh, sh_cur_device_state_document sh, sh_request_mapping sh)"

lemma fixed_simps [simp]:
  "fixed_part (sh\<lparr>sh_cur_server_state_document := d, sh_cur_shadow_version := v\<rparr>) = fixed_part sh"
  "fixed_part (sh\<lparr>sh_cur_server_state_document := d\<rparr>) = fixed_part sh"
  "fixed_part (sh\<lparr>sh_cur_shadow_version := v\<rparr>) = fixed_part sh"
  by (simp_all add: fixed_part_def)

lemma call_handler_simps [simp]:
  "fixed_part (call_handler t ty j sh) = fixed_part sh"
  "sh_cur_server_state_document (call_handler t ty j sh) = sh_cur_server_state_document sh"
  "sh_cur_shadow_version (call_handler t ty j sh) = sh_cur_shadow_version sh"
  by (simp_all add: call_handler_def fixed_part_def split: option.split)

lemma MergeValues_object: "is_object t \<Longrightarrow> is_object (snd (MergeValues t s))"
  using merged_succeeds [of t s] merge_succeeds(1) [of t s]
  by (cases "is_object s") (simp_all add: MergeValues.simps [of t s])

lemma modify_member_object: "modify_member k f j = Inr j' \<Longrightarrow> is_object j'"
  by (auto simp: modify_member_def bind_res_Inr_iff)

lemma merge_delta_object: "merge_delta parse payload server = Inr d \<Longrightarrow> is_object d"
  by (auto simp: merge_delta_def bind_res_Inr_iff Let_def dest: modify_member_object)

definition response_ok :: "Shadow \<Rightarrow> Shadow \<Rightarrow> bool" where
  "response_ok sh sh' \<longleftrightarrow> fixed_part sh' = fixed_part sh \<and>
     (is_object (sh_cur_server_state_document sh) \<longrightarrow> is_object (sh_cur_server_state_document sh'))"

lemma HandleGetResponse_ok: "HandleGetResponse ty j sh = Inr (rc, sh') \<Longrightarrow> response_ok sh sh'"
  by (auto simp: HandleGetResponse_def bind_res_Inr_iff response_ok_def has_state_def split: if_splits)

lemma HandleDeleteResponse_ok: "HandleDeleteResponse ty j sh = Inr (rc, sh') \<Longrightarrow> response_ok sh sh'"
  by (auto simp: HandleDeleteResponse_def Let_def response_ok_def split: if_splits)

lemma HandleUpdateResponse_ok: "HandleUpdateResponse parse ty j sh = Inr (rc, sh') \<Longrightarrow> response_ok sh sh'"
  by (auto simp: HandleUpdateResponse_def bind_res_Inr_iff response_ok_def Let_def MergeValues_object
      dest: merge_delta_object split: if_splits option.splits)

lemma SubscriptionHandler_ok: "SubscriptionHandler parse topic payload sh = Inr (rc, sh') \<Longrightarrow> response_ok sh sh'"
  by (auto simp: SubscriptionHandler_def bind_res_Inr_iff Let_def split: if_splits prod.splits
      dest: HandleGetResponse_ok HandleUpdateResponse_ok HandleDeleteResponse_ok) (simp_all add: response_ok_def)

lemma update_versions:
  assumes "HandleUpdateResponse parse ty j sh = Inr (rc, sh')"
  shows "sh_cur_shadow_version sh \<le> sh_cur_shadow_version sh' \<and>
    (sh_cur_shadow_version sh' = sh_cur_shadow_version sh \<longrightarrow>
       sh_cur_server_state_document sh' = sh_cur_server_state_document sh)"
  using assms
  by (auto simp: HandleUpdateResponse_def bind_res_Inr_iff Let_def not_le split: if_splits option.splits)

text \<open>whatever an update response or a delta brings, the version of the shadow never goes back, the document
  of the server changes only together with a greater version, and nothing of the device's side changes.\<close>

theorem versions_go_forward:
  assumes "HandleUpdateResponse parse ty j sh = Inr (rc, sh')"
  shows "GetCurrentVersionNumber sh \<le> GetCurrentVersionNumber sh' \<and>
    (GetCurrentVersionNumber sh' = GetCurrentVersionNumber sh \<longrightarrow> GetServerDocument sh' = GetServerDocument sh) \<and>
    fixed_part sh' = fixed_part sh"
  using update_versions [OF assms] HandleUpdateResponse_ok [OF assms]
  by (simp add: GetCurrentVersionNumber_def GetServerDocument_def response_ok_def)

text \<open>an accepted update or a delta without a version reads an uninitialised variable.\<close>

theorem missing_version_undefined:
  assumes "has_state j" "map_of (members j) VERSION_KEY = None" "ty \<noteq> Response_Rejected"
  shows "HandleUpdateResponse parse ty j sh = Inl Uninitialised"
  using assms
  by (simp add: HandleUpdateResponse_def GetUint32Value_def read_value_def find_member_def has_state_def)

text \<open>a document whose state is no object is accepted, and the next look at the state violates an assertion of
  the library.\<close>

theorem accepted_state_not_object:
  assumes "is_object (sh_cur_server_state_document sh)" "is_object j"
    and "map_of (members j) STATE_KEY = Some s" "\<not> is_object s" "map_of (members j) VERSION_KEY = Some (JInt 1)"
  shows "\<exists>sh'. HandleGetResponse Response_Accepted j sh = Inr (SHADOW_REQUEST_ACCEPTED, sh') \<and>
    IsInSync eq sh' = Inl AssertionFailed \<and> GetServerDesired sh' = Inl AssertionFailed"
  using assms
  by (simp add: HandleGetResponse_def has_state_def GetUint32Value_def read_value_def find_member_def as_uint_def
      IsInSync_def GetServerDesired_def server_member_def HasMember_def get_member_def Let_def call_handler_def
      split: option.split)

section \<open>An update and its answer\<close>

lemma document_covers_refl: "document_covers eq v v"
  by (simp add: document_covers.simps [of eq v v])

lemma erase_member_lookup:
  "distinct (map fst (members j)) \<Longrightarrow> map_of (members (erase_member k j)) k' = (if k' = k then None else map_of (members j) k')"
  "distinct (map fst (members j)) \<Longrightarrow> distinct (map fst (members (erase_member k j)))"
  by (simp_all add: erase_member_def map_of_erase_first keys_erase_first distinct_remove1)

lemma is_object_erase_member [simp]: "is_object (erase_member k j)"
  by (simp add: erase_member_def)

lemma HasMember_object [simp]: "is_object j \<Longrightarrow> HasMember j k = Inr (map_of (members j) k \<noteq> None)"
  by (simp add: HasMember_def find_member_def)

lemma key_distinct: "STATE_KEY \<noteq> TIMESTAMP_KEY" "STATE_KEY \<noteq> VERSION_KEY" "STATE_KEY \<noteq> CLIENT_TOKEN_KEY"
  "DESIRED_KEY \<noteq> REPORTED_KEY"
  by (simp_all add: key_defs str_Cons)

lemma update_diff_lookup:
  assumes "is_object (sh_cur_server_state_document sh)" "is_object (sh_cur_device_state_document sh)"
    and "names_distinct (sh_cur_device_state_document sh)"
  shows "\<exists>d. update_diff eq sh = Inr d \<and> is_object d \<and>
    map_of (members d) STATE_KEY = diff_value eq (map_of (members (sh_cur_server_state_document sh)) STATE_KEY)
      (map_of (members (sh_cur_device_state_document sh)) STATE_KEY)"
proof -
  have dist: "distinct (map fst (members (sh_cur_device_state_document sh)))"
    using assms(2,3) by (auto elim!: is_objectE)
  note diff = diff_lookup [OF assms(1,2) dist, of eq]
  show ?thesis
    using diff(1,2) DiffValues_object [OF assms(1,2), of eq JNull]
    by (simp add: update_diff_def Let_def erase_member_lookup key_distinct diff(3))
qed

text \<open>After the answer the state of the server has all of the state of the device.\<close>

lemma accepted_update_state:
  assumes "is_object s" "is_object d" "names_distinct s" "names_distinct d"
    and "diff_value eq (map_of (members s) k) (map_of (members d) k) = Some e"
    and "is_object j" "distinct (map fst (members j))" "map_of (members j) k = Some e"
  shows "\<exists>v w. map_of (members d) k = Some v \<and> names_distinct v \<and>
    map_of (members (snd (MergeValues s j))) k = Some w \<and> document_covers eq w v"
proof -
  obtain v where v: "map_of (members d) k = Some v" using assms(5) by (cases "map_of (members d) k") (simp_all add: diff_value_def)
  have nv: "names_distinct v" using names_distinct_member [OF assms(4) v] .
  have "distinct (map fst (members s))" using assms(1,3) by (auto elim!: is_objectE)
  then have look: "map_of (members (snd (MergeValues s j))) k = merge_value (map_of (members s) k) (Some e)"
    using merged_lookup(3) [OF assms(1,6) _ assms(7), of k] assms(8) by (simp add: merged_def)
  show ?thesis
  proof (cases "map_of (members s) k")
    case None
    with assms(5) v nv look show ?thesis by (simp add: diff_value_def merge_value_def document_covers_refl)
  next
    case (Some w)
    then have nw: "names_distinct w" using names_distinct_member [OF assms(3)] by blast
    show ?thesis
    proof (cases "is_object w \<and> is_object v")
      case True
      then have e: "e = diff_of eq w v" using assms(5) Some v by (auto simp: diff_value_def split: if_splits)
      have "distinct (map fst (members v))" using nv True by (auto elim!: is_objectE)
      then have "is_object e" using diff_lookup(1) [of w v eq] True e by simp
      with merge_diff_object [of w v eq] True nw nv look Some v e show ?thesis by (simp add: merge_value_def)
    next
      case False
      with assms(5) Some v nv look show ?thesis
        by (auto simp: diff_value_def merge_value_def document_covers_refl split: if_splits)
    qed
  qed
qed

text \<open>C12: once the server has accepted an update and echoed its state, the state of the server as the shadow knows it
  has all of the state of the device, and asking for another update has nothing to send.\<close>

theorem accepted_update_settles:
  assumes "is_object (sh_cur_server_state_document sh)" "is_object (sh_cur_device_state_document sh)"
    and "names_distinct (sh_cur_server_state_document sh)" "names_distinct (sh_cur_device_state_document sh)"
    and "update_diff eq sh = Inr diff" "map_of (members diff) STATE_KEY = Some e"
    and "is_object j" "distinct (map fst (members j))" "map_of (members j) STATE_KEY = Some e"
    and "GetUint32Value j VERSION_KEY = Inr (SUCCESS, Some v)" "sh_cur_shadow_version sh < v"
    and "\<And>x. eq x x" "IsConnected c" "sh_is_update_subscription_active sh"
  shows "\<exists>sh'. HandleUpdateResponse parse Response_Accepted j sh = Inr (SHADOW_REQUEST_ACCEPTED, sh') \<and>
    GetCurrentVersionNumber sh' = v \<and>
    (\<exists>w d. map_of (members (GetServerDocument sh')) STATE_KEY = Some w \<and>
       map_of (members (GetDeviceDocument sh')) STATE_KEY = Some d \<and> document_covers eq w d) \<and>
    PerformUpdateAsync eq write_json runner wait sleep meanwhile h sh' (Some c) = Inr (SHADOW_NOTHING_TO_UPDATE, sh', Some c)"
proof -
  let ?s = "sh_cur_server_state_document sh" and ?d = "sh_cur_device_state_document sh"
  let ?s' = "snd (MergeValues ?s j)"
  have "diff_value eq (map_of (members ?s) STATE_KEY) (map_of (members ?d) STATE_KEY) = Some e"
    using update_diff_lookup [OF assms(1,2,4), of eq] assms(5,6) by auto
  then obtain d w where d: "map_of (members ?d) STATE_KEY = Some d" "names_distinct d"
    and w: "map_of (members ?s') STATE_KEY = Some w" "document_covers eq w d"
    using accepted_update_state [OF assms(1-4) _ assms(7-9)] by blast
  let ?sh = "sh\<lparr>sh_cur_server_state_document := ?s', sh_cur_shadow_version := v\<rparr>"
  define sh' where "sh' = call_handler Request_Update Response_Accepted j ?sh"
  have sh': "sh_cur_server_state_document sh' = ?s'" "sh_cur_device_state_document sh' = ?d"
    "sh_cur_shadow_version sh' = v" "sh_is_update_subscription_active sh'"
    using assms(14) by (simp_all add: sh'_def call_handler_def split: option.split)
  have handled: "HandleUpdateResponse parse Response_Accepted j sh = Inr (SHADOW_REQUEST_ACCEPTED, sh')"
    using assms(7,9-11)
    by (auto simp: HandleUpdateResponse_def has_state_def own_request_def GetStringValue_def read_value_def find_member_def
        sh'_def not_le [symmetric] split: option.split)
  have obj: "is_object ?s'" using MergeValues_object [OF assms(1)] .
  obtain diff' where "update_diff eq sh' = Inr diff'" "is_object diff'" "map_of (members diff') STATE_KEY = None"
    using update_diff_lookup [of sh' eq] obj assms(2,4) covered_no_diff [OF assms(12) d(2) w(2)] by (auto simp: sh' d(1) w(1))
  then have "PerformUpdateAsync eq write_json runner wait sleep meanwhile h sh' (Some c)
      = Inr (SHADOW_NOTHING_TO_UPDATE, sh', Some c)"
    using assms(2,13) obj by (simp add: PerformUpdateAsync_def ensure_subscription_def sh')
  with handled d w show ?thesis
    by (simp add: sh' GetCurrentVersionNumber_def GetServerDocument_def GetDeviceDocument_def)
qed

section \<open>While an operation waits\<close>

text \<open>What the thread of the reader may do to the shadow meanwhile: it handles messages.\<close>

fun handle_messages :: "(bytes \<Rightarrow> json option) \<Rightarrow> (bytes \<times> bytes) list \<Rightarrow> Shadow \<Rightarrow> Shadow" where
  "handle_messages parse [] sh = sh"
| "handle_messages parse ((topic, payload) # ms) sh =
     (case SubscriptionHandler parse topic payload sh of
        Inl e \<Rightarrow> sh
      | Inr (rc, sh) \<Rightarrow> handle_messages parse ms sh)"

lemma response_ok_refl: "response_ok sh sh"
  by (simp add: response_ok_def)

lemma response_ok_trans: "response_ok sh sh1 \<Longrightarrow> response_ok sh1 sh2 \<Longrightarrow> response_ok sh sh2"
  by (simp add: response_ok_def)

lemma handle_messages_ok: "response_ok sh (handle_messages parse ms sh)"
proof (induction ms arbitrary: sh)
  case (Cons m ms)
  show ?case
  proof (cases "SubscriptionHandler parse (fst m) (snd m) sh")
    case (Inl e)
    then show ?thesis by (cases m) (simp add: response_ok_refl)
  next
    case (Inr r)
    then obtain rc sh1 where "SubscriptionHandler parse (fst m) (snd m) sh = Inr (rc, sh1)" by (cases r) simp
    with Cons.IH [of sh1] SubscriptionHandler_ok response_ok_trans show ?thesis by (cases m) fastforce
  qed
qed (simp add: response_ok_refl)

lemma activate_mapping [simp]: "sh_request_mapping (activate ts sh) = sh_request_mapping sh"
  by (simp add: activate_def)

text \<open>An interface for whatever runs on the shadow while an operation of it waits.\<close>

locale shadow_listener =
  fixes meanwhile :: "Shadow \<Rightarrow> Shadow"
  assumes listens: "response_ok sh (meanwhile sh)"
begin

lemma fixed [simp]: "fixed_part (meanwhile sh) = fixed_part sh"
  using listens [of sh] by (simp add: response_ok_def)

lemma mapping [simp]: "sh_request_mapping (meanwhile sh) = sh_request_mapping sh"
  using fixed [of sh] by (simp add: fixed_part_def)

lemma server_object: "is_object (sh_cur_server_state_document sh) \<Longrightarrow> is_object (sh_cur_server_state_document (meanwhile sh))"
  using listens [of sh] by (simp add: response_ok_def)

lemma add_subscription_cases:
  assumes "AddShadowSubscription runner wait sleep meanwhile h rm sh p = Inr (rc, sh', p')"
  shows "rc \<noteq> SUCCESS \<and> (sh' = sh \<or> sh' = meanwhile sh) \<or>
    rc = SUCCESS \<and> sh' = meanwhile ((activate (map fst rm) (meanwhile sh))
      \<lparr>sh_request_mapping := replace_handlers rm (sh_request_mapping sh)\<rparr>)"
  using assms
  by (auto simp: AddShadowSubscription_def bind_res_Inr_iff Let_def split: option.splits prod.splits if_splits)

lemma add_subscription:
  assumes "AddShadowSubscription runner wait sleep meanwhile h rm sh p = Inr (rc, sh', p')"
  shows "rc \<noteq> SUCCESS \<and> fixed_part sh' = fixed_part sh \<or>
    rc = SUCCESS \<and> fixed_part sh' = fixed_part ((activate (map fst rm) sh)\<lparr>sh_request_mapping := replace_handlers rm (sh_request_mapping sh)\<rparr>)"
proof -
  have "fixed_part (activate ts (meanwhile sh)\<lparr>sh_request_mapping := m\<rparr>) = fixed_part (activate ts sh\<lparr>sh_request_mapping := m\<rparr>)" for ts m
    using fixed [of sh] by (simp add: fixed_part_def activate_def)
  with add_subscription_cases [OF assms] show ?thesis by auto
qed

lemma add_subscription_server:
  assumes "AddShadowSubscription runner wait sleep meanwhile h rm sh p = Inr (rc, sh', p')"
    and "is_object (sh_cur_server_state_document sh)"
  shows "is_object (sh_cur_server_state_document sh')"
  using add_subscription_cases [OF assms(1)] assms(2) server_object [of sh]
  by (auto simp: activate_def intro!: server_object)

end

interpretation reader: shadow_listener "handle_messages parse ms" for parse ms
  by unfold_locales (rule handle_messages_ok)

lemma replace_handlers_wf: "map_wf m \<Longrightarrow> map_wf (replace_handlers rm m)"
  by (induction rm m rule: replace_handlers.induct) (simp_all add: map_wf_insert map_wf_erase)

lemma replace_handlers_find:
  assumes "map_wf m" "map_wf rm"
  shows "map_find (replace_handlers rm m) t = (case map_find rm t of None \<Rightarrow> map_find m t | Some h \<Rightarrow> Some h)"
  using assms
proof (induction rm m rule: replace_handlers.induct)
  case (1 m)
  then show ?case by (simp add: map_find_def)
next
  case (2 t' h requests m)
  define m' where "m' = map_insert t' h (if map_find m t' \<noteq> None then map_erase t' m else m)"
  have find: "map_find m' = (map_find m)(t' \<mapsto> h)" and wf: "map_wf m'"
    using "2.prems"(1) by (auto simp: m'_def smap.find_simps map_wf_insert map_wf_erase fun_eq_iff)
  have "map_wf requests" "map_find requests t' = None"
    using "2.prems"(2) by (auto simp: map_wf_Cons map_find_def map_of_eq_None_iff)
  moreover have "map_find ((t', h) # requests) t = (if t = t' then Some h else map_find requests t)"
    by (simp add: map_find_def)
  moreover have "replace_handlers ((t', h) # requests) m = replace_handlers requests m'" by (simp add: m'_def)
  ultimately show ?case using "2.IH" [folded m'_def, OF wf] find by (simp del: replace_handlers.simps split: option.split)
qed

text \<open>subscribing a shadow is all or nothing: when the broker accepts, each of the requested kinds is active and
  has the new handler, and the other kinds keep theirs; when anything fails, no flag and no handler changes,
  whatever messages arrive in the meantime.\<close>

theorem shadow_subscription_effect:
  assumes "AddShadowSubscription runner wait sleep (handle_messages parse ms) h rm sh p = Inr (rc, sh', p')"
    and "map_wf rm" "map_wf (sh_request_mapping sh)"
  shows "if rc = SUCCESS
    then (\<forall>t. map_find (sh_request_mapping sh') t =
             (case map_find rm t of None \<Rightarrow> map_find (sh_request_mapping sh) t | Some f \<Rightarrow> Some f)) \<and>
         (sh_is_get_subscription_active sh' \<longleftrightarrow> sh_is_get_subscription_active sh \<or> Request_Get \<in> fst ` set rm) \<and>
         (sh_is_update_subscription_active sh' \<longleftrightarrow> sh_is_update_subscription_active sh \<or> Request_Update \<in> fst ` set rm) \<and>
         (sh_is_delete_subscription_active sh' \<longleftrightarrow> sh_is_delete_subscription_active sh \<or> Request_Delete \<in> fst ` set rm) \<and>
         (sh_is_delta_subscription_active sh' \<longleftrightarrow> sh_is_delta_subscription_active sh \<or> Request_Delta \<in> fst ` set rm)
    else fixed_part sh' = fixed_part sh"
  using reader.add_subscription [OF assms(1)] replace_handlers_find [OF assms(3,2)]
  by (cases "rc = SUCCESS") (simp_all add: fixed_part_def activate_def)

lemma alloc_subscriptions_None: "None \<in> set (fst (alloc_subscriptions ss st)) \<longleftrightarrow> None \<in> set ss"
  by (induction ss st rule: alloc_subscriptions.induct) (auto split: prod.split)

lemma alloc_subscriptions_length: "length (fst (alloc_subscriptions ss st)) = length ss"
  by (induction ss st rule: alloc_subscriptions.induct) (auto split: prod.split)

text \<open>a shadow whose topics are no valid topics, as with a wildcard in the name of its thing, brings the
  program down at its first subscription: nothing checks the name.\<close>

theorem invalid_thing_name_crashes:
  assumes "IsConnected c" "rm \<noteq> []" "length (subscription_topics sh False (map fst rm)) \<le> MAX_TOPICS_IN_ONE_SUBSCRIBE_PACKET"
    and "t \<in> set (subscription_topics sh False (map fst rm))" "\<not> IsValidTopicName t"
  shows "AddShadowSubscription runner wait sleep meanwhile h rm sh (Some c) = Inl NullPointer"
proof -
  let ?subs = "map (\<lambda>t. Create_Subscription (Create_Utf8String t) QOS0 (Some h) None) (subscription_topics sh False (map fst rm))"
  obtain ps st where ps: "alloc_subscriptions ?subs (core_client_state c) = (ps, st)" by force
  have "Create_Subscription (Create_Utf8String t) QOS0 (Some h) None = None"
    using assms(5) by (simp add: Create_Subscription_def Create_Utf8String_def)
  then have "None \<in> set ?subs" using assms(4) by (force simp: image_iff)
  then have "None \<in> set ps" "length ps \<le> MAX_TOPICS_IN_ONE_SUBSCRIBE_PACKET" "ps \<noteq> []"
    using alloc_subscriptions_None [of ?subs "core_client_state c"] alloc_subscriptions_length [of ?subs "core_client_state c"]
      ps assms(3) by auto
  then have "Subscribe_pointers runner wait ps (c\<lparr>core_client_state := st\<rparr>) = Inl NullPointer"
    by (simp add: Subscribe_pointers_def)
  with ps assms(1,2) show ?thesis
    by (simp add: AddShadowSubscription_def Let_def)
qed

section \<open>The reachable shadows\<close>

definition shadow_ok :: "Shadow \<Rightarrow> bool" where
  "shadow_ok sh \<longleftrightarrow> topics_ok sh \<and> map_wf (sh_request_mapping sh) \<and>
     is_object (sh_cur_server_state_document sh) \<and> is_object (sh_cur_device_state_document sh)"

section \<open>What an operation does to the client\<close>

text \<open>The functions that stand for the other threads act on the client by its steps.\<close>

definition env_ok ::
  "'n NetworkConnection \<Rightarrow> (action_data option \<Rightarrow> 'n client \<Rightarrow> (ResponseCode \<times> action_data option \<times> 'n client) res)
   \<Rightarrow> ('n client \<Rightarrow> 'n client) \<Rightarrow> ('n client \<Rightarrow> 'n client) \<Rightarrow> bool" where
  "env_ok nc runner wait sleep \<longleftrightarrow> (\<forall>s. client_steps nc s (wait s)) \<and> (\<forall>s. client_steps nc s (sleep s)) \<and>
     (\<forall>d s rc d' s'. runner d s = Inr (rc, d', s') \<longrightarrow> client_steps nc s s')"

lemma client_steps_trans: "client_steps nc st st1 \<Longrightarrow> client_steps nc st1 st2 \<Longrightarrow> client_steps nc st st2"
  by (induction st st1 rule: client_step_client_steps.inducts(2) [where ?P1.0 = "\<lambda>_ _. True"])
    (auto intro: client_step_client_steps.intros)

lemma client_steps_single: "client_step nc st st' \<Longrightarrow> client_steps nc st st'"
  by (blast intro: client_step_client_steps.stop client_step_client_steps.go_on)

lemma perform_steps:
  assumes "ClientCore_PerformAction runner wait t (Some d) c = Inr (rc, c')" "t \<in> synchronous" "env_ok nc runner wait sleep"
  shows "client_steps nc (core_client_state c) (core_client_state c')"
proof -
  obtain d' st where "client_request runner wait t (Some d) (core_client_state c) = Inr (rc, d', st)" "core_client_state c' = st"
    using assms(1) by (auto simp: ClientCore_PerformAction_def bind_res_Inr_iff)
  then show ?thesis
    using assms(2,3) client_step_client_steps.request [of runner wait t d "core_client_state c" rc d' st nc]
    by (simp add: env_ok_def client_steps_single)
qed

lemma Publish_steps:
  "Publish runner wait tp r dup q pl c = Inr (rc, c') \<Longrightarrow> env_ok nc runner wait sleep \<Longrightarrow>
   client_steps nc (core_client_state c) (core_client_state c')"
  by (auto simp: Publish_def synchronous_def intro: client_step_client_steps.stop perform_steps split: option.splits)

lemma Subscribe_steps:
  "Subscribe runner wait rs c = Inr (rc, c') \<Longrightarrow> env_ok nc runner wait sleep \<Longrightarrow>
   client_steps nc (core_client_state c) (core_client_state c')"
  by (auto simp: Subscribe_def bind_res_Inr_iff synchronous_def intro: client_step_client_steps.stop perform_steps
      split: if_splits)

lemma alloc_steps:
  "\<forall>s. Some s \<in> set ss \<longrightarrow> sub_ok s \<Longrightarrow> alloc_subscriptions ss st = (ps, st') \<Longrightarrow> client_steps nc st st'"
proof (induction ss st arbitrary: ps st' rule: alloc_subscriptions.induct)
  case (3 s ss st)
  obtain r st1 where r: "sub_alloc s st = (r, st1)" by force
  then have "client_step nc st st1"
    using "3.prems"(1) client_step_client_steps.subscription [of s nc st] by simp
  moreover obtain rs where "alloc_subscriptions ss st1 = (rs, st')" using "3.prems"(2) r by (auto split: prod.splits)
  ultimately show ?case
    using "3.IH" [OF r [symmetric]] "3.prems"(1) by (auto intro: client_step_client_steps.go_on)
qed (auto intro: client_step_client_steps.stop split: prod.splits)

definition client_moves :: "'n NetworkConnection \<Rightarrow> 'n MqttClient option \<Rightarrow> 'n MqttClient option \<Rightarrow> bool" where
  "client_moves nc p p' \<longleftrightarrow>
     (case (p, p') of
        (None, None) \<Rightarrow> True
      | (Some c, Some c') \<Rightarrow> client_steps nc (core_client_state c) (core_client_state c')
      | _ \<Rightarrow> False)"

lemma client_moves_refl: "client_moves nc p p"
  by (simp add: client_moves_def client_step_client_steps.stop split: option.split)

lemma client_moves_trans: "client_moves nc p p1 \<Longrightarrow> client_moves nc p1 p2 \<Longrightarrow> client_moves nc p p2"
  by (auto simp: client_moves_def intro: client_steps_trans split: option.splits)

lemma add_subscription_moves:
  assumes "AddShadowSubscription runner wait sleep meanwhile h rm sh p = Inr (rc, sh', p')" "env_ok nc runner wait sleep"
  shows "client_moves nc p p'"
proof (cases "\<exists>c. p = Some c \<and> rm \<noteq> [] \<and> IsConnected c")
  case True
  then obtain c where c: "p = Some c" "rm \<noteq> []" "IsConnected c" by blast
  let ?subs = "map (\<lambda>t. Create_Subscription (Create_Utf8String t) QOS0 (Some h) None) (subscription_topics sh False (map fst rm))"
  obtain ps st where al: "alloc_subscriptions ?subs (core_client_state c) = (ps, st)" by force
  have "\<forall>s. Some s \<in> set ?subs \<longrightarrow> sub_ok s" using Create_Subscription_ok by fastforce
  then have 1: "client_steps nc (core_client_state c) st" using al by (rule alloc_steps)
  obtain rc1 c1 where sub: "Subscribe_pointers runner wait ps (c\<lparr>core_client_state := st\<rparr>) = Inr (rc1, c1)"
    and p': "p' = Some c1 \<or> p' = Some (on_state sleep c1)"
    using assms(1) c al by (auto simp: AddShadowSubscription_def Let_def bind_res_Inr_iff split: if_splits)
  have "client_steps nc st (core_client_state c1)"
    using sub Subscribe_steps [OF _ assms(2)] by (fastforce simp: Subscribe_pointers_def split: if_splits)
  moreover have "client_steps nc (core_client_state c1) (core_client_state (on_state sleep c1))"
    using assms(2) by (simp add: env_ok_def on_state_def)
  ultimately have "client_steps nc (core_client_state c) (core_client_state (on_state sleep c1))"
    "client_steps nc (core_client_state c) (core_client_state c1)"
    using client_steps_trans [OF 1] client_steps_trans by blast+
  with p' show ?thesis by (auto simp: client_moves_def c(1))
next
  case False
  then have "p' = p" using assms(1) by (auto simp: AddShadowSubscription_def split: option.splits if_splits)
  then show ?thesis by (simp add: client_moves_refl)
qed

lemma ensure_moves:
  assumes "ensure_subscription runner wait sleep meanwhile h b t sh c = Inr (rc, sh', p')" "env_ok nc runner wait sleep"
  shows "client_moves nc (Some c) p'"
  using assms(1) add_subscription_moves [OF _ assms(2)]
  by (auto simp: ensure_subscription_def client_moves_refl split: if_splits)

lemma publish_request_moves:
  assumes "publish_request runner wait t pl sh p = Inr (rc, sh', p')" "env_ok nc runner wait sleep"
  shows "client_moves nc p p'"
  using assms(1) Publish_steps [OF _ assms(2)]
  by (cases p) (auto simp: publish_request_def bind_res_Inr_iff client_moves_def)

lemma PerformGet_moves:
  "PerformGetAsync runner wait sleep meanwhile h sh p = Inr (rc, sh', p') \<Longrightarrow> env_ok nc runner wait sleep \<Longrightarrow> client_moves nc p p'"
  by (auto simp: PerformGetAsync_def bind_res_Inr_iff client_moves_refl split: option.splits if_splits
      dest!: ensure_moves publish_request_moves elim: client_moves_trans)

lemma PerformDelete_moves:
  "PerformDeleteAsync runner wait sleep meanwhile h sh p = Inr (rc, sh', p') \<Longrightarrow> env_ok nc runner wait sleep \<Longrightarrow> client_moves nc p p'"
  by (auto simp: PerformDeleteAsync_def bind_res_Inr_iff client_moves_refl split: option.splits if_splits
      dest!: ensure_moves publish_request_moves elim: client_moves_trans)

lemma PerformUpdate_moves:
  "PerformUpdateAsync eq write_json runner wait sleep meanwhile h sh p = Inr (rc, sh', p') \<Longrightarrow> env_ok nc runner wait sleep \<Longrightarrow>
   client_moves nc p p'"
  by (auto simp: PerformUpdateAsync_def bind_res_Inr_iff client_moves_refl split: option.splits if_splits
      dest!: ensure_moves publish_request_moves elim: client_moves_trans)

section \<open>Steps of a shadow and its client\<close>

text \<open>One step is a message, an operation of the application during which messages arrive, or a step of the client.\<close>

inductive shadow_step ::
  "(bytes \<Rightarrow> json option) \<Rightarrow> 'n NetworkConnection \<Rightarrow> Shadow \<times> 'n MqttClient option \<Rightarrow> Shadow \<times> 'n MqttClient option \<Rightarrow> bool"
  for parse nc where
  message: "SubscriptionHandler parse topic payload sh = Inr (rc, sh') \<Longrightarrow> shadow_step parse nc (sh, p) (sh', p)"
| device: "UpdateDeviceShadow document sh = (rc, sh') \<Longrightarrow> shadow_step parse nc (sh, p) (sh', p)"
| token: "ResetClientTokenSuffix stamp sh = Inr sh' \<Longrightarrow> shadow_step parse nc (sh, p) (sh', p)"
| client: "client_moves nc p p' \<Longrightarrow> shadow_step parse nc (sh, p) (sh, p')"
| subscribe: "AddShadowSubscription runner wait sleep (handle_messages parse ms) h rm sh p = Inr (rc, sh', p') \<Longrightarrow>
    env_ok nc runner wait sleep \<Longrightarrow> shadow_step parse nc (sh, p) (sh', p')"
| get: "PerformGetAsync runner wait sleep (handle_messages parse ms) h sh p = Inr (rc, sh', p') \<Longrightarrow>
    env_ok nc runner wait sleep \<Longrightarrow> shadow_step parse nc (sh, p) (sh', p')"
| update: "PerformUpdateAsync eq write_json runner wait sleep (handle_messages parse ms) h sh p = Inr (rc, sh', p') \<Longrightarrow>
    env_ok nc runner wait sleep \<Longrightarrow> shadow_step parse nc (sh, p) (sh', p')"
| delete: "PerformDeleteAsync runner wait sleep (handle_messages parse ms) h sh p = Inr (rc, sh', p') \<Longrightarrow>
    env_ok nc runner wait sleep \<Longrightarrow> shadow_step parse nc (sh, p) (sh', p')"

lemma response_ok_shadow: "response_ok sh sh' \<Longrightarrow> shadow_ok sh \<Longrightarrow> shadow_ok sh' \<and> sh_thing_name sh' = sh_thing_name sh"
  by (simp add: response_ok_def shadow_ok_def fixed_part_def topics_ok_def)

lemma add_shadow_ok:
  assumes "AddShadowSubscription runner wait sleep (handle_messages parse ms) h rm sh p = Inr (rc, sh', p')" "shadow_ok sh"
  shows "shadow_ok sh' \<and> sh_thing_name sh' = sh_thing_name sh"
proof -
  have "sh_thing_name sh' = sh_thing_name sh \<and> sh_topic_get sh' = sh_topic_get sh \<and>
      sh_topic_update sh' = sh_topic_update sh \<and> sh_topic_delete sh' = sh_topic_delete sh \<and>
      sh_topic_delta sh' = sh_topic_delta sh \<and>
      sh_cur_device_state_document sh' = sh_cur_device_state_document sh \<and>
      (sh_request_mapping sh' = sh_request_mapping sh \<or>
       sh_request_mapping sh' = replace_handlers rm (sh_request_mapping sh))"
    using reader.add_subscription [OF assms(1)] by (auto simp: fixed_part_def activate_def)
  moreover have "is_object (sh_cur_server_state_document sh')"
    using reader.add_subscription_server [OF assms(1)] assms(2) by (simp add: shadow_ok_def)
  ultimately show ?thesis
    using assms(2) replace_handlers_wf [of "sh_request_mapping sh" rm] by (auto simp: shadow_ok_def topics_ok_def)
qed

lemma ensure_shadow_ok:
  "ensure_subscription runner wait sleep (handle_messages parse ms) h b t sh c = Inr (rc, sh', p') \<Longrightarrow> shadow_ok sh \<Longrightarrow>
    shadow_ok sh' \<and> sh_thing_name sh' = sh_thing_name sh"
  by (auto simp: ensure_subscription_def split: if_splits dest: add_shadow_ok)

lemma publish_request_shadow: "publish_request runner wait t pl sh p = Inr (rc, sh', p') \<Longrightarrow> sh' = sh"
  by (auto simp: publish_request_def bind_res_Inr_iff)

lemma PerformGet_shadow:
  "PerformGetAsync runner wait sleep (handle_messages parse ms) h sh p = Inr (rc, sh', p') \<Longrightarrow> shadow_ok sh \<Longrightarrow>
    shadow_ok sh' \<and> sh_thing_name sh' = sh_thing_name sh"
  by (auto simp: PerformGetAsync_def bind_res_Inr_iff split: option.splits if_splits
      dest!: ensure_shadow_ok publish_request_shadow)

lemma PerformUpdate_shadow:
  "PerformUpdateAsync eq write_json runner wait sleep (handle_messages parse ms) h sh p = Inr (rc, sh', p') \<Longrightarrow> shadow_ok sh \<Longrightarrow>
    shadow_ok sh' \<and> sh_thing_name sh' = sh_thing_name sh"
  by (auto simp: PerformUpdateAsync_def bind_res_Inr_iff split: option.splits if_splits
      dest!: ensure_shadow_ok publish_request_shadow)

lemma PerformDelete_shadow:
  "PerformDeleteAsync runner wait sleep (handle_messages parse ms) h sh p = Inr (rc, sh', p') \<Longrightarrow> shadow_ok sh \<Longrightarrow>
    shadow_ok sh' \<and> sh_thing_name sh' = sh_thing_name sh"
  by (auto simp: PerformDeleteAsync_def bind_res_Inr_iff split: option.splits if_splits
      dest!: ensure_shadow_ok publish_request_shadow)

lemma shadow_step_ok:
  "shadow_step parse nc x y \<Longrightarrow> shadow_ok (fst x) \<Longrightarrow>
   shadow_ok (fst y) \<and> sh_thing_name (fst y) = sh_thing_name (fst x) \<and> client_moves nc (snd x) (snd y)"
proof (induction rule: shadow_step.induct)
  case (message topic payload sh rc sh' p)
  then show ?case using SubscriptionHandler_ok response_ok_shadow client_moves_refl by fastforce
next
  case (client p p' sh)
  then show ?case by simp
next
  case (device document sh rc sh' p)
  then show ?case
    using MergeValues_object [of "sh_cur_device_state_document sh" document]
    by (auto simp: client_moves_refl UpdateDeviceShadow_def shadow_ok_def topics_ok_def split: if_splits prod.splits)
next
  case (token stamp sh sh' p)
  then show ?case
    by (auto simp: client_moves_refl ResetClientTokenSuffix_def shadow_ok_def topics_ok_def Let_def bind_res_Inr_iff set_client_token_def
        put_member_def dest: modify_member_object)
next
  case (subscribe runner wait sleep ms h rm sh p rc sh' p')
  then show ?case using add_shadow_ok add_subscription_moves by fastforce
next
  case (get runner wait sleep ms h sh p rc sh' p')
  then show ?case using PerformGet_moves PerformGet_shadow by fastforce
next
  case (update eq write_json runner wait sleep ms h sh p rc sh' p')
  then show ?case using PerformUpdate_moves PerformUpdate_shadow by fastforce
next
  case (delete runner wait sleep ms h sh p rc sh' p')
  then show ?case using PerformDelete_moves PerformDelete_shadow by fastforce
qed

text \<open>C13: in every state a shadow can reach its topics are those of its thing, both documents are objects, and the
  table of handlers is in order, whatever messages and documents it is given.\<close>

theorem reachable_shadow_ok:
  assumes "MqttClient_Create (Some nc) tmo cb net now = Inr (Some c)"
    and "Shadow_Create parse stamp (Some c) thing_name prefix = Inr (Some sh)"
    and "(shadow_step parse nc)\<^sup>*\<^sup>* (sh, Some c) (sh', p)"
  shows "shadow_ok sh' \<and> sh_thing_name sh' = thing_name \<and>
    (\<exists>c'. p = Some c' \<and> client_ok (core_client_state c') \<and> served nc (core_client_state c'))"
proof -
  have new: "shadow_ok sh \<and> sh_thing_name sh = thing_name"
    using assms(2)
    by (auto simp: Shadow_Create_def Shadow_new_def Let_def bind_res_Inr_iff shadow_ok_def topics_ok_def
        dest: modify_member_object split: if_splits)
  have "shadow_ok (fst y) \<and> sh_thing_name (fst y) = thing_name \<and> client_moves nc (Some c) (snd y)"
    if "(shadow_step parse nc)\<^sup>*\<^sup>* (sh, Some c) y" for y
    using that
  proof (induction rule: rtranclp_induct)
    case base
    then show ?case using new by (simp add: client_moves_refl)
  next
    case (step y z)
    then show ?case using shadow_step_ok [OF step(2)] client_moves_trans by auto
  qed
  from this [OF assms(3)] have ok: "shadow_ok sh'" "sh_thing_name sh' = thing_name" "client_moves nc (Some c) p" by simp_all
  then obtain c' where "p = Some c'" "client_steps nc (core_client_state c) (core_client_state c')"
    by (auto simp: client_moves_def split: option.splits)
  with ok reachable_client [OF assms(1)] show ?thesis by blast
qed

section \<open>Deltas\<close>

lemma get_member_object [simp]:
  "is_object j \<Longrightarrow> get_member j k = (case map_of (members j) k of None \<Rightarrow> Inl AssertionFailed | Some v \<Rightarrow> Inr v)"
  by (simp add: get_member_def find_member_def)

text \<open>a new delta of another client is merged into the desired state that the shadow has of the server and leaves the
  reported state alone; the delta of an own request changes nothing. The version follows the delta even when its
  state is no object and nothing can be merged.\<close>

theorem delta_reaches_desired:
  assumes "is_object (sh_cur_server_state_document sh)" "map_of (members (sh_cur_server_state_document sh)) STATE_KEY = Some s"
    and "is_object s" "map_of (members s) DESIRED_KEY = Some d"
    and "is_object j" "map_of (members j) STATE_KEY = Some e" "GetUint32Value j VERSION_KEY = Inr (SUCCESS, Some v)"
    and "sh_cur_shadow_version sh < v" "own_request j sh = Inr own"
  shows "\<exists>sh'. HandleUpdateResponse parse Response_Delta j sh = Inr (SHADOW_RECEIVED_DELTA, sh') \<and>
    (if own then GetServerDocument sh' = GetServerDocument sh \<and> GetCurrentVersionNumber sh' = GetCurrentVersionNumber sh
     else GetCurrentVersionNumber sh' = v \<and> GetServerDesired sh' = Inr (snd (MergeValues d e)) \<and>
       GetServerReported sh' = GetServerReported sh)"
proof (cases own)
  case True
  then show ?thesis
    using assms(5-9)
    by (auto simp: HandleUpdateResponse_def has_state_def GetServerDocument_def GetCurrentVersionNumber_def not_le [symmetric])
next
  case False
  let ?s = "JObject (set_first DESIRED_KEY (snd (MergeValues d e)) (members s))"
  let ?d = "JObject (set_first STATE_KEY ?s (members (sh_cur_server_state_document sh)))"
  have "merge_delta parse j (sh_cur_server_state_document sh) = Inr ?d"
    using assms(1-6) by (simp add: merge_delta_def modify_member_def merge_into_def)
  then show ?thesis
    using False assms
    by (auto simp: HandleUpdateResponse_def has_state_def GetCurrentVersionNumber_def GetServerDesired_def
        GetServerReported_def server_member_def Let_def map_of_set_first key_distinct [symmetric] not_le [symmetric]
        split: option.split)
qed

section \<open>The properties at concrete inputs\<close>

definition sample_document :: "json \<Rightarrow> json \<Rightarrow> int \<Rightarrow> json" where
  "sample_document desired reported v =
     JObject [(STATE_KEY, JObject [(DESIRED_KEY, desired), (REPORTED_KEY, reported)]), (VERSION_KEY, JInt v)]"

definition sample_parse :: "bytes \<Rightarrow> json option" where
  "sample_parse s =
     (if s = SHADOW_DOCUMENT_EMPTY_STRING
      then Some (JObject (members (sample_document (JObject []) (JObject []) 0) @
                          [(CLIENT_TOKEN_KEY, JString (str ''empty'')), (TIMESTAMP_KEY, JInt 0)]))
      else if s = [1] then Some (sample_document (JObject [([2], JInt 5)]) (JObject []) 3)
      else None)"

lemma keys_distinct [simp]:
  "distinct [STATE_KEY, VERSION_KEY, CLIENT_TOKEN_KEY, TIMESTAMP_KEY]" "distinct [DESIRED_KEY, REPORTED_KEY]"
  "VERSION_KEY \<noteq> STATE_KEY" "CLIENT_TOKEN_KEY \<noteq> STATE_KEY" "CLIENT_TOKEN_KEY \<noteq> VERSION_KEY" "REPORTED_KEY \<noteq> DESIRED_KEY"
  by (simp_all add: key_defs str_Cons)

lemma sample_parse_empty: "InitializeFromJsonString sample_parse j SHADOW_DOCUMENT_EMPTY_STRING =
  (SUCCESS, JObject (members (sample_document (JObject []) (JObject []) 0) @
     [(CLIENT_TOKEN_KEY, JString (str ''empty'')), (TIMESTAMP_KEY, JInt 0)]))"
  by (simp add: InitializeFromJsonString_def sample_parse_def)
    (simp add: SHADOW_DOCUMENT_EMPTY_STRING_def quoted_def)

text \<open>A shadow of \<open>lamp\<close> whose update subscription is active, with a document of the server and one of the device.\<close>

definition sample_shadow :: "json \<Rightarrow> json \<Rightarrow> Shadow" where
  "sample_shadow server device =
     (let prefix = topic_action_prefix (str ''lamp'') in
      \<lparr>sh_is_get_subscription_active = False, sh_is_update_subscription_active = True,
       sh_is_delete_subscription_active = False, sh_is_delta_subscription_active = False,
       sh_cur_shadow_version = 1, sh_thing_name = str ''lamp'', sh_client_token_prefix = str ''lamp'',
       sh_client_token = str ''lamp_7'', sh_topic_get = prefix @ str ''get'',
       sh_topic_delta = prefix @ str ''update'' @ str ''/'' @ str ''delta'',
       sh_topic_update = prefix @ str ''update'', sh_topic_delete = prefix @ str ''delete'',
       sh_cur_server_state_document = server, sh_cur_device_state_document = device,
       sh_request_mapping = [(Request_Update, Some 4)], sh_calls = []\<rparr>)"

lemma sample_shadow_topics: "topics_ok (sample_shadow s d)"
  by (simp add: topics_ok_def sample_shadow_def Let_def)

lemma sample_shadow_simps [simp]:
  "sh_cur_server_state_document (sample_shadow s d) = s" "sh_cur_device_state_document (sample_shadow s d) = d"
  "sh_cur_shadow_version (sample_shadow s d) = 1" "sh_is_update_subscription_active (sample_shadow s d)"
  "sh_request_mapping (sample_shadow s d) = [(Request_Update, Some 4)]"
  by (simp_all add: sample_shadow_def Let_def)

theorem topic_reaches_its_handler_witness:
  "SubscriptionHandler sample_parse (sh_topic_update (sample_shadow (JObject []) (JObject [])) @ str ''/'' @ response_type_accepted_text)
     [1] (sample_shadow (JObject []) (JObject [])) =
   HandleUpdateResponse sample_parse Response_Accepted (sample_document (JObject [([2], JInt 5)]) (JObject []) 3)
     (sample_shadow (JObject []) (JObject []))"
  using topic_reaches_its_handler [OF sample_shadow_topics, of "[1]" sample_parse "sample_document (JObject [([2], JInt 5)]) (JObject []) 3"]
  by (simp add: sample_parse_def SHADOW_DOCUMENT_EMPTY_STRING_def quoted_def)

lemma sample_update_accepted:
  "HandleUpdateResponse sample_parse Response_Accepted (sample_document (JObject []) (JObject []) 3)
     (sample_shadow (JObject []) (JObject [])) =
   Inr (SHADOW_REQUEST_ACCEPTED, call_handler Request_Update Response_Accepted (sample_document (JObject []) (JObject []) 3)
     ((sample_shadow (JObject []) (JObject []))
        \<lparr>sh_cur_server_state_document := snd (MergeValues (JObject []) (sample_document (JObject []) (JObject []) 3)),
         sh_cur_shadow_version := 3\<rparr>))"
  by (simp add: HandleUpdateResponse_def has_state_def sample_document_def GetUint32Value_def read_value_def find_member_def
      as_uint_def own_request_def not_le)

theorem versions_go_forward_witness:
  "\<exists>sh'. HandleUpdateResponse sample_parse Response_Accepted (sample_document (JObject []) (JObject []) 3)
     (sample_shadow (JObject []) (JObject [])) = Inr (SHADOW_REQUEST_ACCEPTED, sh') \<and>
    GetCurrentVersionNumber (sample_shadow (JObject []) (JObject [])) \<le> GetCurrentVersionNumber sh'"
  using versions_go_forward [OF sample_update_accepted] sample_update_accepted by blast

theorem missing_version_undefined_witness:
  "HandleUpdateResponse sample_parse Response_Accepted (JObject [(STATE_KEY, JObject [])]) (sample_shadow (JObject []) (JObject []))
     = Inl Uninitialised"
  by (rule missing_version_undefined) (simp_all add: has_state_def)

theorem accepted_state_not_object_witness:
  "\<exists>sh'. HandleGetResponse Response_Accepted (JObject [(STATE_KEY, JNull), (VERSION_KEY, JInt 1)])
     (sample_shadow (JObject []) (JObject [])) = Inr (SHADOW_REQUEST_ACCEPTED, sh') \<and>
    IsInSync (=) sh' = Inl AssertionFailed \<and> GetServerDesired sh' = Inl AssertionFailed"
  by (rule accepted_state_not_object [of _ _ JNull]) simp_all

theorem delta_reaches_desired_witness:
  "\<exists>sh'. HandleUpdateResponse sample_parse Response_Delta (JObject [(STATE_KEY, JObject [([2], JInt 5)]), (VERSION_KEY, JInt 3)])
     (sample_shadow (sample_document (JObject [([2], JInt 4)]) (JObject []) 1) (JObject [])) = Inr (SHADOW_RECEIVED_DELTA, sh') \<and>
    GetServerDesired sh' = Inr (snd (MergeValues (JObject [([2], JInt 4)]) (JObject [([2], JInt 5)])))"
  using delta_reaches_desired
    [of "sample_shadow (sample_document (JObject [([2], JInt 4)]) (JObject []) 1) (JObject [])"
      "JObject [(DESIRED_KEY, JObject [([2], JInt 4)]), (REPORTED_KEY, JObject [])]" "JObject [([2], JInt 4)]"
      "JObject [(STATE_KEY, JObject [([2], JInt 5)]), (VERSION_KEY, JInt 3)]" "JObject [([2], JInt 5)]" 3 False sample_parse]
  by (auto simp: sample_document_def GetUint32Value_def read_value_def find_member_def as_uint_def own_request_def)

definition sample_shadow_core :: "script_device MqttClient" where
  "sample_shadow_core = sample_core\<lparr>core_client_state := sample_registered\<lparr>cs_is_connected := True\<rparr>\<rparr>"

lemma sample_shadow_core_connected: "IsConnected sample_shadow_core"
  by (simp add: sample_shadow_core_def IsConnected_def)

theorem accepted_update_settles_witness:
  "\<exists>sh'. HandleUpdateResponse sample_parse Response_Accepted (sample_document (JObject []) (JObject [([2], JInt 5)]) 3)
     (sample_shadow (JObject []) (sample_document (JObject []) (JObject [([2], JInt 5)]) 0)) = Inr (SHADOW_REQUEST_ACCEPTED, sh') \<and>
    PerformUpdateAsync (=) (\<lambda>j. []) no_runner id id id 0 sh' (Some sample_shadow_core)
      = Inr (SHADOW_NOTHING_TO_UPDATE, sh', Some sample_shadow_core)"
proof -
  let ?state = "JObject [(DESIRED_KEY, JObject []), (REPORTED_KEY, JObject [([2], JInt 5)])]"
  let ?sh = "sample_shadow (JObject []) (sample_document (JObject []) (JObject [([2], JInt 5)]) 0)"
  have diff: "\<exists>d. update_diff (=) ?sh = Inr d \<and> map_of (members d) STATE_KEY = Some ?state"
    using update_diff_lookup [of ?sh "(=)"] by (auto simp: sample_document_def diff_value_def key_distinct)
  then obtain d where "update_diff (=) ?sh = Inr d" "map_of (members d) STATE_KEY = Some ?state" by blast
  then have "\<exists>sh'. HandleUpdateResponse sample_parse Response_Accepted (sample_document (JObject []) (JObject [([2], JInt 5)]) 3) ?sh
      = Inr (SHADOW_REQUEST_ACCEPTED, sh') \<and> GetCurrentVersionNumber sh' = 3 \<and>
    (\<exists>w d. map_of (members (GetServerDocument sh')) STATE_KEY = Some w \<and>
       map_of (members (GetDeviceDocument sh')) STATE_KEY = Some d \<and> document_covers (=) w d) \<and>
    PerformUpdateAsync (=) (\<lambda>j. []) no_runner id id id 0 sh' (Some sample_shadow_core)
      = Inr (SHADOW_NOTHING_TO_UPDATE, sh', Some sample_shadow_core)"
    by (intro accepted_update_settles [where e = ?state and diff = d])
      (simp_all add: sample_document_def sample_shadow_core_connected GetUint32Value_def read_value_def find_member_def
        as_uint_def key_distinct)
  then show ?thesis by blast
qed

theorem shadow_subscription_effect_witness:
  "\<exists>rc sh' p'. AddShadowSubscription no_runner id id (handle_messages sample_parse []) 0 [(Request_Get, Some 9)]
     (sample_shadow (JObject []) (JObject [])) (None :: script_device MqttClient option) = Inr (rc, sh', p') \<and>
    fixed_part sh' = fixed_part (sample_shadow (JObject []) (JObject []))"
proof -
  have "AddShadowSubscription no_runner id id (handle_messages sample_parse []) 0 [(Request_Get, Some 9)]
     (sample_shadow (JObject []) (JObject [])) (None :: script_device MqttClient option) =
    Inr (SHADOW_MQTT_CLIENT_NOT_SET_ERROR, sample_shadow (JObject []) (JObject []), None)"
    by (simp add: AddShadowSubscription_def)
  from shadow_subscription_effect [OF this] this show ?thesis by (simp add: map_wf_def)
qed

text \<open>The name of the thing has a wildcard.\<close>

theorem invalid_thing_name_crashes_witness:
  "AddShadowSubscription no_runner id id id 0 [(Request_Get, None)]
     ((sample_shadow (JObject []) (JObject []))\<lparr>sh_topic_get := topic_action_prefix (str ''a+b'') @ str ''get''\<rparr>)
     (Some sample_shadow_core) = Inl NullPointer"
  by (rule invalid_thing_name_crashes [where t = "topic_action_prefix (str ''a+b'') @ str ''get'' @ str ''/'' @ response_type_accepted_text"])
    (simp_all add: sample_shadow_core_connected MAX_TOPICS_IN_ONE_SUBSCRIBE_PACKET_def IsValidTopicName_def
      topic_action_prefix_def str_Cons Let_def)

lemma sample_shadow_created:
  "\<exists>sh. Shadow_Create sample_parse 7 (Some c) (str ''lamp'') [] = Inr (Some sh)"
  by (simp add: Shadow_Create_def Shadow_new_def Let_def sample_parse_empty set_client_token_def put_member_def
      modify_member_def sample_document_def map_of_set_first key_distinct)

theorem reachable_shadow_ok_witness:
  "\<exists>c sh sh'. MqttClient_Create (Some script_connection) 1000 no_callbacks (script [] 0 90) 0 = Inr (Some c) \<and>
    Shadow_Create sample_parse 7 (Some c) (str ''lamp'') [] = Inr (Some sh) \<and>
    UpdateDeviceShadow (JObject [([2], JInt 5)]) sh = (SUCCESS, sh') \<and> shadow_ok sh'"
proof -
  obtain c where c: "MqttClient_Create (Some script_connection) 1000 no_callbacks (script [] 0 90) 0 = Inr (Some c)"
    using new_client_works [of script_connection 1000 no_callbacks "script [] 0 90" 0] by blast
  obtain sh where sh: "Shadow_Create sample_parse 7 (Some c) (str ''lamp'') [] = Inr (Some sh)"
    using sample_shadow_created by blast
  have "shadow_ok sh \<and> sh_thing_name sh = str ''lamp'' \<and>
    (\<exists>c'. Some c = Some c' \<and> client_ok (core_client_state c') \<and> served script_connection (core_client_state c'))"
    by (rule reachable_shadow_ok [OF c sh]) simp
  then have "is_object (sh_cur_device_state_document sh)" by (simp add: shadow_ok_def)
  then obtain sh' where sh': "UpdateDeviceShadow (JObject [([2], JInt 5)]) sh = (SUCCESS, sh')"
    by (simp add: UpdateDeviceShadow_def merged_succeeds)
  have "(shadow_step sample_parse script_connection)\<^sup>*\<^sup>* (sh, Some c) (sh', Some c)"
    using shadow_step.device [OF sh'] by blast
  from reachable_shadow_ok [OF c sh this] c sh sh' show ?thesis by blast
qed

end
