(* ===== verification/Jobs.thy ===== *)
theory Jobs
  imports Json MqttClient
begin

text \<open>
  \<open>Jobs\<close> (\<^verbatim>\<open>src/jobs/Jobs.cpp\<close>): the topics of the jobs service, the payloads of its requests and the requests
  themselves, which are asynchronous publishes of the client. A payload is written by hand as JSON text; what it
  says is stated with a reader of that text.
\<close>

datatype JobExecutionTopicType =
    JOB_UNRECOGNIZED_TOPIC | JOB_GET_PENDING_TOPIC | JOB_START_NEXT_TOPIC | JOB_DESCRIBE_TOPIC | JOB_UPDATE_TOPIC
  | JOB_NOTIFY_TOPIC | JOB_NOTIFY_NEXT_TOPIC | JOB_WILDCARD_TOPIC

datatype JobExecutionTopicReplyType =
    JOB_UNRECOGNIZED_TOPIC_TYPE | JOB_REQUEST_TYPE | JOB_ACCEPTED_REPLY_TYPE | JOB_REJECTED_REPLY_TYPE
  | JOB_WILDCARD_REPLY_TYPE

datatype JobExecutionStatus =
    JOB_EXECUTION_STATUS_NOT_SET | JOB_EXECUTION_QUEUED | JOB_EXECUTION_IN_PROGRESS | JOB_EXECUTION_FAILED
  | JOB_EXECUTION_SUCCEEDED | JOB_EXECUTION_CANCELED | JOB_EXECUTION_REJECTED | JOB_EXECUTION_UNKNOWN_STATUS

record Jobs =
  jobs_qos :: QoS
  jobs_thing_name :: bytes
  jobs_client_token :: bytes

definition Jobs_Create :: "'n MqttClient option \<Rightarrow> QoS \<Rightarrow> bytes \<Rightarrow> bytes \<Rightarrow> Jobs option" where
  "Jobs_Create p_mqtt_client qos thing_name client_token =
     (if p_mqtt_client = None then None
      else Some \<lparr>jobs_qos = qos, jobs_thing_name = thing_name, jobs_client_token = client_token\<rparr>)"

section \<open>Topics\<close>

fun BaseTopicRequiresJobId :: "JobExecutionTopicType \<Rightarrow> bool" where
  "BaseTopicRequiresJobId JOB_UPDATE_TOPIC = True"
| "BaseTopicRequiresJobId JOB_DESCRIBE_TOPIC = True"
| "BaseTopicRequiresJobId _ = False"

fun GetOperationForBaseTopic :: "JobExecutionTopicType \<Rightarrow> bytes" where
  "GetOperationForBaseTopic JOB_UPDATE_TOPIC = str ''update''"
| "GetOperationForBaseTopic JOB_NOTIFY_TOPIC = str ''notify''"
| "GetOperationForBaseTopic JOB_NOTIFY_NEXT_TOPIC = str ''notify-next''"
| "GetOperationForBaseTopic JOB_GET_PENDING_TOPIC = str ''get''"
| "GetOperationForBaseTopic JOB_DESCRIBE_TOPIC = str ''get''"
| "GetOperationForBaseTopic JOB_START_NEXT_TOPIC = str ''start-next''"
| "GetOperationForBaseTopic JOB_WILDCARD_TOPIC = str ''+''"
| "GetOperationForBaseTopic JOB_UNRECOGNIZED_TOPIC = []"

fun GetSuffixForTopicType :: "JobExecutionTopicReplyType \<Rightarrow> bytes" where
  "GetSuffixForTopicType JOB_REQUEST_TYPE = []"
| "GetSuffixForTopicType JOB_ACCEPTED_REPLY_TYPE = str ''/accepted''"
| "GetSuffixForTopicType JOB_REJECTED_REPLY_TYPE = str ''/rejected''"
| "GetSuffixForTopicType JOB_WILDCARD_REPLY_TYPE = str ''/#''"
| "GetSuffixForTopicType JOB_UNRECOGNIZED_TOPIC_TYPE = []"

definition jobs_base :: "Jobs \<Rightarrow> bytes" where
  "jobs_base jobs = str ''$aws/things/'' @ jobs_thing_name jobs @ str ''/jobs/''"

definition GetJobTopic ::
  "Jobs \<Rightarrow> JobExecutionTopicType \<Rightarrow> JobExecutionTopicReplyType \<Rightarrow> bytes \<Rightarrow> Utf8String option" where
  "GetJobTopic jobs topicType replyType jobId =
     (if jobs_thing_name jobs = [] then None
      else if (topicType = JOB_NOTIFY_TOPIC \<or> topicType = JOB_NOTIFY_NEXT_TOPIC) \<and> replyType \<noteq> JOB_REQUEST_TYPE then None
      else if (topicType = JOB_GET_PENDING_TOPIC \<or> topicType = JOB_START_NEXT_TOPIC \<or> topicType = JOB_NOTIFY_TOPIC \<or>
               topicType = JOB_NOTIFY_NEXT_TOPIC) \<and> jobId \<noteq> [] then None
      else
        let requireJobId = BaseTopicRequiresJobId topicType in
        if jobId = [] \<and> requireJobId then None
        else
          let operation = GetOperationForBaseTopic topicType in
          if operation = [] then None
          else
            let suffix = GetSuffixForTopicType replyType in
            if requireJobId then Create_Utf8String (jobs_base jobs @ jobId @ str ''/'' @ operation @ suffix)
            else if topicType = JOB_WILDCARD_TOPIC then Create_Utf8String (jobs_base jobs @ str ''#'')
            else Create_Utf8String (jobs_base jobs @ operation @ suffix))"

section \<open>Payloads\<close>

fun GetExecutionStatus :: "JobExecutionStatus \<Rightarrow> bytes" where
  "GetExecutionStatus JOB_EXECUTION_QUEUED = str ''QUEUED''"
| "GetExecutionStatus JOB_EXECUTION_IN_PROGRESS = str ''IN_PROGRESS''"
| "GetExecutionStatus JOB_EXECUTION_FAILED = str ''FAILED''"
| "GetExecutionStatus JOB_EXECUTION_SUCCEEDED = str ''SUCCEEDED''"
| "GetExecutionStatus JOB_EXECUTION_CANCELED = str ''CANCELED''"
| "GetExecutionStatus JOB_EXECUTION_REJECTED = str ''REJECTED''"
| "GetExecutionStatus JOB_EXECUTION_STATUS_NOT_SET = []"
| "GetExecutionStatus JOB_EXECUTION_UNKNOWN_STATUS = []"

definition escape_byte :: "byte \<Rightarrow> bytes" where
  "escape_byte c =
     (if c = 10 then [92, 110] else if c = 13 then [92, 114] else if c = 9 then [92, 116]
      else if c = 34 then [92, 34] else if c = 92 then [92, 92] else [c])"

fun Escape :: "bytes \<Rightarrow> bytes" where
  "Escape [] = []"
| "Escape (c # s) = escape_byte c @ Escape s"

fun status_details_loop :: "bool \<Rightarrow> (bytes \<times> bytes) list \<Rightarrow> bytes" where
  "status_details_loop first [] = []"
| "status_details_loop first ((k, v) # m) =
     (if first then [34] else [44, 34]) @ Escape k @ [34, 58, 34] @ Escape v @ [34] @ status_details_loop False m"

definition SerializeStatusDetails :: "(bytes \<times> bytes) list \<Rightarrow> bytes" where
  "SerializeStatusDetails statusDetailsMap = [123] @ status_details_loop True statusDetailsMap @ [125]"

text \<open>The numbers are \<open>int64_t\<close>; zero means that they are left out.\<close>

definition text_member :: "string \<Rightarrow> bytes \<Rightarrow> bytes" where
  "text_member name t = quoted name @ [58, 34] @ t @ [34]"

definition SerializeJobExecutionUpdatePayload ::
  "Jobs \<Rightarrow> JobExecutionStatus \<Rightarrow> (bytes \<times> bytes) list \<Rightarrow> int \<Rightarrow> int \<Rightarrow> bool \<Rightarrow> bool \<Rightarrow> bytes" where
  "SerializeJobExecutionUpdatePayload jobs status statusDetailsMap expectedVersion executionNumber
      includeJobExecutionState includeJobDocument =
     (let executionStatus = GetExecutionStatus status in
      if executionStatus = [] then []
      else
        [123] @ text_member ''status'' executionStatus
        @ (if statusDetailsMap \<noteq> [] then [44] @ quoted ''statusDetails'' @ [58] @ SerializeStatusDetails statusDetailsMap else [])
        @ (if expectedVersion > 0 then [44] @ text_member ''expectedVersion'' (int_digits expectedVersion) else [])
        @ (if executionNumber > 0 then [44] @ text_member ''executionNumber'' (int_digits executionNumber) else [])
        @ (if includeJobExecutionState then [44] @ text_member ''includeJobExecutionState'' (str ''true'') else [])
        @ (if includeJobDocument then [44] @ text_member ''includeJobDocument'' (str ''true'') else [])
        @ (if jobs_client_token jobs \<noteq> [] then [44] @ text_member ''clientToken'' (jobs_client_token jobs) else [])
        @ [125])"

definition SerializeDescribeJobExecutionPayload :: "Jobs \<Rightarrow> int \<Rightarrow> bool \<Rightarrow> bytes" where
  "SerializeDescribeJobExecutionPayload jobs executionNumber includeJobDocument =
     [123] @ text_member ''includeJobDocument'' (if includeJobDocument then str ''true'' else str ''false'')
     @ (if executionNumber > 0 then [44] @ text_member ''executionNumber'' (int_digits executionNumber) else [])
     @ (if jobs_client_token jobs \<noteq> [] then text_member ''clientToken'' (jobs_client_token jobs) else [])
     @ [125]"

definition SerializeStartNextPendingJobExecutionPayload :: "Jobs \<Rightarrow> (bytes \<times> bytes) list \<Rightarrow> bytes" where
  "SerializeStartNextPendingJobExecutionPayload jobs statusDetailsMap =
     [123]
     @ (if statusDetailsMap \<noteq> [] then quoted ''statusDetails'' @ [58] @ SerializeStatusDetails statusDetailsMap else [])
     @ (if jobs_client_token jobs \<noteq> []
        then (if statusDetailsMap \<noteq> [] then [44] else []) @ text_member ''clientToken'' (jobs_client_token jobs)
        else [])
     @ [125]"

definition SerializeClientTokenPayload :: "Jobs \<Rightarrow> bytes" where
  "SerializeClientTokenPayload jobs =
     (if jobs_client_token jobs \<noteq> [] then [123] @ text_member ''clientToken'' (jobs_client_token jobs) @ [125]
      else [123, 125])"

section \<open>Requests\<close>

text \<open>\<open>p_mqtt_client_\<close> is never null; it is the client \<open>c\<close>.\<close>

definition publish_job :: "Jobs \<Rightarrow> Utf8String option \<Rightarrow> bytes \<Rightarrow> 'n MqttClient \<Rightarrow> (ResponseCode \<times> 'n MqttClient) res" where
  "publish_job jobs jobTopic payload c =
     (case jobTopic of
        None \<Rightarrow> Inr (JOBS_INVALID_TOPIC_ERROR, c)
      | Some topic \<Rightarrow>
          bind_res (PublishAsync (Some topic) False False (jobs_qos jobs) payload None 0 c) (\<lambda>(rc, packet_id, c). Inr (rc, c)))"

definition SendJobsQuery ::
  "Jobs \<Rightarrow> JobExecutionTopicType \<Rightarrow> bytes \<Rightarrow> 'n MqttClient \<Rightarrow> (ResponseCode \<times> 'n MqttClient) res" where
  "SendJobsQuery jobs topicType jobId =
     publish_job jobs (GetJobTopic jobs topicType JOB_REQUEST_TYPE jobId) (SerializeClientTokenPayload jobs)"

definition SendJobsStartNext :: "Jobs \<Rightarrow> (bytes \<times> bytes) list \<Rightarrow> 'n MqttClient \<Rightarrow> (ResponseCode \<times> 'n MqttClient) res" where
  "SendJobsStartNext jobs statusDetailsMap =
     publish_job jobs (GetJobTopic jobs JOB_START_NEXT_TOPIC JOB_REQUEST_TYPE [])
       (SerializeStartNextPendingJobExecutionPayload jobs statusDetailsMap)"

definition SendJobsDescribe :: "Jobs \<Rightarrow> bytes \<Rightarrow> int \<Rightarrow> bool \<Rightarrow> 'n MqttClient \<Rightarrow> (ResponseCode \<times> 'n MqttClient) res" where
  "SendJobsDescribe jobs jobId executionNumber includeJobDocument =
     publish_job jobs (GetJobTopic jobs JOB_DESCRIBE_TOPIC JOB_REQUEST_TYPE jobId)
       (SerializeDescribeJobExecutionPayload jobs executionNumber includeJobDocument)"

definition SendJobsUpdate ::
  "Jobs \<Rightarrow> bytes \<Rightarrow> JobExecutionStatus \<Rightarrow> (bytes \<times> bytes) list \<Rightarrow> int \<Rightarrow> int \<Rightarrow> bool \<Rightarrow> bool
   \<Rightarrow> 'n MqttClient \<Rightarrow> (ResponseCode \<times> 'n MqttClient) res" where
  "SendJobsUpdate jobs jobId status statusDetailsMap expectedVersion executionNumber includeJobExecutionState includeJobDocument =
     publish_job jobs (GetJobTopic jobs JOB_UPDATE_TOPIC JOB_REQUEST_TYPE jobId)
       (SerializeJobExecutionUpdatePayload jobs status statusDetailsMap expectedVersion executionNumber
          includeJobExecutionState includeJobDocument)"

definition CreateJobsSubscription ::
  "Jobs \<Rightarrow> nat option \<Rightarrow> nat option \<Rightarrow> JobExecutionTopicType \<Rightarrow> JobExecutionTopicReplyType \<Rightarrow> bytes \<Rightarrow> Subscription option" where
  "CreateJobsSubscription jobs p_app_handler p_app_handler_data topicType replyType jobId =
     Create_Subscription (GetJobTopic jobs topicType replyType jobId) (jobs_qos jobs) p_app_handler p_app_handler_data"

section \<open>Reading the payloads\<close>

text \<open>
  A reader of the fragment of JSON the payloads are written in: strings and objects, no white space. The fuel
  bounds the nesting and the number of members.
\<close>

definition unescape :: "byte \<Rightarrow> byte option" where
  "unescape c =
     (if c = 110 then Some 10 else if c = 114 then Some 13 else if c = 116 then Some 9
      else if c = 34 then Some 34 else if c = 92 then Some 92 else None)"

function read_string :: "bytes \<Rightarrow> (bytes \<times> bytes) option" where
  "read_string [] = None"
| "read_string (c # s) =
     (if c = 34 then Some ([], s)
      else if c = 92 then
        (case s of
           [] \<Rightarrow> None
         | d # t \<Rightarrow> (case unescape d of None \<Rightarrow> None | Some e \<Rightarrow> map_option (\<lambda>(x, r). (e # x, r)) (read_string t)))
      else map_option (\<lambda>(x, r). (c # x, r)) (read_string s))"
  by pat_completeness auto

termination
  by (relation "measure length") auto

fun read_json :: "nat \<Rightarrow> bytes \<Rightarrow> (json \<times> bytes) option"
  and read_members :: "nat \<Rightarrow> bytes \<Rightarrow> ((bytes \<times> json) list \<times> bytes) option" where
  "read_json 0 s = None"
| "read_json (Suc n) s =
     (if take 1 s = [34] then map_option (\<lambda>(x, r). (JString x, r)) (read_string (drop 1 s))
      else if take 2 s = [123, 125] then Some (JObject [], drop 2 s)
      else if take 1 s = [123] then map_option (\<lambda>(ms, r). (JObject ms, r)) (read_members n (drop 1 s))
      else None)"
| "read_members 0 s = None"
| "read_members (Suc n) s =
     (if take 1 s \<noteq> [34] then None
      else case read_string (drop 1 s) of
        None \<Rightarrow> None
      | Some (k, r) \<Rightarrow>
          if take 1 r \<noteq> [58] then None
          else case read_json n (drop 1 r) of
            None \<Rightarrow> None
          | Some (v, r) \<Rightarrow>
              if take 1 r = [125] then Some ([(k, v)], drop 1 r)
              else if take 1 r = [44] then map_option (\<lambda>(ms, r). ((k, v) # ms, r)) (read_members n (drop 1 r))
              else None)"

lemma read_string_Escape: "read_string (Escape s @ 34 # r) = Some (s, r)"
  by (induction s) (auto simp: escape_byte_def unescape_def)

definition plain_text :: "bytes \<Rightarrow> bool" where
  "plain_text s \<longleftrightarrow> (\<forall>b \<in> set s. b \<notin> {9, 10, 13, 34, 92})"

lemma Escape_plain: "plain_text s \<Longrightarrow> Escape s = s"
  by (induction s) (auto simp: plain_text_def escape_byte_def)

text \<open>The text \<open>t\<close> stands for the value \<open>v\<close>, whatever follows it.\<close>

definition reads :: "json \<Rightarrow> bytes \<Rightarrow> bool" where
  "reads v t \<longleftrightarrow> (\<exists>n. \<forall>m \<ge> n. \<forall>r. read_json m (t @ r) = Some (v, r))"

definition entry :: "bytes \<times> json \<times> bytes \<Rightarrow> bytes" where
  "entry e = (case e of (k, v, t) \<Rightarrow> 34 # Escape k @ [34, 58] @ t)"

fun members_text :: "(bytes \<times> json \<times> bytes) list \<Rightarrow> bytes" where
  "members_text [] = []"
| "members_text (e # es) = entry e @ concat (map (\<lambda>e. 44 # entry e) es)"

definition members_of :: "(bytes \<times> json \<times> bytes) list \<Rightarrow> (bytes \<times> json) list" where
  "members_of es = map (\<lambda>(k, v, t). (k, v)) es"

lemma reads_string: "reads (JString s) (34 # Escape s @ [34])"
proof -
  have "read_json m ((34 # Escape s @ [34]) @ r) = Some (JString s, r)" if "1 \<le> m" for m r
    using that read_string_Escape [of s r] by (cases m) simp_all
  then show ?thesis unfolding reads_def by blast
qed

lemma members_text_Cons2: "members_text (e # e' # es) = entry e @ 44 # members_text (e' # es)"
  by simp

lemma reads_members:
  assumes "es \<noteq> []" "\<forall>(k, v, t) \<in> set es. reads v t"
  shows "\<exists>n. \<forall>m \<ge> n. \<forall>r. read_members m (members_text es @ 125 # r) = Some (members_of es, r)"
  using assms
proof (induction es rule: list_nonempty_induct)
  case (single e)
  obtain k v t where e: "e = (k, v, t)" by (cases e)
  have "reads v t" using single by (simp add: e)
  then obtain n where n: "\<And>m r. n \<le> m \<Longrightarrow> read_json m (t @ r) = Some (v, r)"
    unfolding reads_def by blast
  have "read_members m (members_text [e] @ 125 # r) = Some (members_of [e], r)" if "Suc n \<le> m" for m r
  proof -
    obtain m' where m: "m = Suc m'" "n \<le> m'" using \<open>Suc n \<le> m\<close> by (cases m) simp_all
    have "read_string (Escape k @ 34 # 58 # t @ 125 # r) = Some (k, 58 # t @ 125 # r)" by (rule read_string_Escape)
    with n [OF m(2), of "125 # r"] show ?thesis by (simp add: m(1) e entry_def members_of_def)
  qed
  then show ?case by blast
next
  case (cons e es)
  obtain k v t where e: "e = (k, v, t)" by (cases e)
  obtain e' es' where es: "es = e' # es'" using cons(1) by (cases es) simp_all
  have "reads v t" using cons(3) by (simp add: e)
  then obtain n where n: "\<And>m r. n \<le> m \<Longrightarrow> read_json m (t @ r) = Some (v, r)"
    unfolding reads_def by blast
  obtain n' where n': "\<And>m r. n' \<le> m \<Longrightarrow> read_members m (members_text es @ 125 # r) = Some (members_of es, r)"
    using cons(2,3) by auto
  have "read_members m (members_text (e # es) @ 125 # r) = Some (members_of (e # es), r)" if "Suc (max n n') \<le> m" for m r
  proof -
    obtain m' where m: "m = Suc m'" "n \<le> m'" "n' \<le> m'" using \<open>Suc (max n n') \<le> m\<close> by (cases m) simp_all
    let ?rest = "members_text es @ 125 # r"
    have "members_text (e # es) @ 125 # r = 34 # Escape k @ 34 # 58 # t @ 44 # ?rest"
      by (simp only: es members_text_Cons2) (simp add: e entry_def)
    moreover have "read_string (Escape k @ 34 # 58 # t @ 44 # ?rest) = Some (k, 58 # t @ 44 # ?rest)"
      by (rule read_string_Escape)
    ultimately show ?thesis
      using n [OF m(2), of "44 # ?rest"] n' [OF m(3), of r] by (simp add: m(1) e members_of_def)
  qed
  then show ?case by blast
qed

lemma reads_object:
  assumes "\<forall>(k, v, t) \<in> set es. reads v t"
  shows "reads (JObject (members_of es)) ([123] @ members_text es @ [125])"
proof (cases "es = []")
  case True
  have "read_json m ([123, 125] @ r) = Some (JObject [], r)" if "1 \<le> m" for m r
    using that by (cases m) simp_all
  then have "reads (JObject []) [123, 125]" unfolding reads_def by blast
  with True show ?thesis by (simp add: members_of_def)
next
  case False
  obtain n where n: "\<And>m r. n \<le> m \<Longrightarrow> read_members m (members_text es @ 125 # r) = Some (members_of es, r)"
    using reads_members [OF False assms] by blast
  obtain e es' where "es = e # es'" using False by (cases es) simp_all
  then have "take 1 (members_text es) = [34]" by (simp add: entry_def split: prod.split)
  then have "\<exists>xs. members_text es = 34 # xs" by (cases "members_text es") simp_all
  then obtain xs where xs: "members_text es = 34 # xs" by blast
  have "read_json m (([123] @ members_text es @ [125]) @ r) = Some (JObject (members_of es), r)" if "Suc n \<le> m" for m r
  proof -
    obtain m' where m: "m = Suc m'" "n \<le> m'" using \<open>Suc n \<le> m\<close> by (cases m) simp_all
    from n [OF m(2), of r] show ?thesis by (simp add: m(1) xs)
  qed
  then show ?thesis unfolding reads_def by blast
qed

section \<open>What the payloads say\<close>

definition text_entry :: "bytes \<Rightarrow> bytes \<Rightarrow> bytes \<times> json \<times> bytes" where
  "text_entry k s = (k, JString s, 34 # Escape s @ [34])"

lemma text_entry_reads [simp]: "text_entry k s = (k', v, t) \<Longrightarrow> reads v t"
  using reads_string by (auto simp: text_entry_def)

lemma plain_str:
  "plain_text (str ''status'')" "plain_text (str ''statusDetails'')" "plain_text (str ''expectedVersion'')"
  "plain_text (str ''executionNumber'')" "plain_text (str ''includeJobExecutionState'')"
  "plain_text (str ''includeJobDocument'')" "plain_text (str ''clientToken'')" "plain_text (str ''true'')"
  "plain_text (str ''false'')"
  by (simp_all add: plain_text_def str_def)

lemma plain_status: "plain_text (GetExecutionStatus status)"
  by (cases status) (simp_all add: plain_text_def str_def)

lemma plain_nat_digits: "plain_text (nat_digits n)"
proof (induction n rule: nat_digits.induct)
  case (1 n)
  have digit: "48 + of_nat d \<notin> {9, 10, 13, 34, 92 :: byte}" if "d < 10" for d
  proof -
    have "d \<in> {0, 1, 2, 3, 4, 5, 6, 7, 8, 9}" using that by auto
    then show ?thesis by auto
  qed
  show ?case
    using 1 digit [of n] digit [of "n mod 10"] by (auto simp: nat_digits.simps [of n] plain_text_def)
qed

lemma plain_int_digits: "plain_text (int_digits i)"
  using plain_nat_digits by (auto simp: int_digits_def plain_text_def)

lemma text_member_entry:
  "plain_text (str name) \<Longrightarrow> plain_text t \<Longrightarrow> text_member name t = entry (text_entry (str name) t)"
  by (simp add: text_member_def entry_def text_entry_def quoted_def Escape_plain)

definition details_value :: "(bytes \<times> bytes) list \<Rightarrow> json" where
  "details_value m = JObject (map (\<lambda>(k, v). (k, JString v)) m)"

lemma status_details_text:
  "status_details_loop False m = concat (map (\<lambda>e. 44 # entry e) (map (\<lambda>(k, v). text_entry k v) m))"
  "status_details_loop True m = members_text (map (\<lambda>(k, v). text_entry k v) m)"
proof -
  show later: "status_details_loop False m = concat (map (\<lambda>e. 44 # entry e) (map (\<lambda>(k, v). text_entry k v) m))" for m
    by (induction m) (auto simp: entry_def text_entry_def)
  show "status_details_loop True m = members_text (map (\<lambda>(k, v). text_entry k v) m)"
    by (cases m) (auto simp: later entry_def text_entry_def)
qed

lemma details_reads: "reads (details_value m) (SerializeStatusDetails m)"
proof -
  have "members_of (map (\<lambda>(k, v). text_entry k v) m) = map (\<lambda>(k, v). (k, JString v)) m"
    by (induction m) (auto simp: members_of_def text_entry_def)
  moreover have "\<forall>(k, v, t) \<in> set (map (\<lambda>(k, v). text_entry k v) m). reads v t"
    by (auto simp: text_entry_def reads_string)
  ultimately show ?thesis
    using reads_object [of "map (\<lambda>(k, v). text_entry k v) m"]
    by (simp add: SerializeStatusDetails_def status_details_text details_value_def)
qed

definition details_entry :: "(bytes \<times> bytes) list \<Rightarrow> bytes \<times> json \<times> bytes" where
  "details_entry m = (str ''statusDetails'', details_value m, SerializeStatusDetails m)"

lemma details_member: "quoted ''statusDetails'' @ [58] @ SerializeStatusDetails m = entry (details_entry m)"
  by (simp add: entry_def details_entry_def quoted_def Escape_plain plain_str)

lemma reads_exists: "reads v t \<Longrightarrow> \<exists>n. read_json n t = Some (v, [])"
  by (metis append_Nil2 order_refl reads_def)

definition later_text :: "(bytes \<times> json \<times> bytes) list \<Rightarrow> bytes" where
  "later_text es = concat (map (\<lambda>e. 44 # entry e) es)"

lemma later_simps:
  "members_text (e # es) = entry e @ later_text es" "later_text (es @ es') = later_text es @ later_text es'"
  "later_text [e] = [44] @ entry e" "later_text [] = []"
  "(if b then [44] @ entry e else []) = later_text (if b then [e] else [])"
  by (simp_all add: later_text_def)


text \<open>the payload that starts the next job reads as an object with the status details and the client token, each
  when it is not empty.\<close>

theorem start_next_payload_reads:
  assumes "plain_text (jobs_client_token jobs)"
  shows "\<exists>n. read_json n (SerializeStartNextPendingJobExecutionPayload jobs details) =
    Some (JObject (
      (if details \<noteq> [] then [(str ''statusDetails'', JObject (map (\<lambda>(k, v). (k, JString v)) details))] else []) @
      (if jobs_client_token jobs \<noteq> [] then [(str ''clientToken'', JString (jobs_client_token jobs))] else [])), [])"
    (is "\<exists>n. read_json n ?payload = Some (JObject ?ms, [])")
proof -
  define es where "es =
    (if details \<noteq> [] then [details_entry details] else []) @
    (if jobs_client_token jobs \<noteq> [] then [text_entry (str ''clientToken'') (jobs_client_token jobs)] else [])"
  have "\<forall>(k, v, t) \<in> set es. reads v t"
    by (auto simp: es_def text_entry_def details_entry_def reads_string details_reads)
  then have "reads (JObject (members_of es)) ([123] @ members_text es @ [125])" by (rule reads_object)
  moreover have "members_of es = ?ms"
    by (simp add: es_def members_of_def text_entry_def details_entry_def details_value_def)
  moreover have "?payload = [123] @ members_text es @ [125]"
    by (simp add: SerializeStartNextPendingJobExecutionPayload_def es_def text_member_entry plain_str assms
        details_member [simplified])
  ultimately show ?thesis using reads_exists by metis
qed

lemma read_members_no_comma: "read_members n (entry (text_entry k s) @ 34 # x) = None"
proof (cases n)
  case (Suc n)
  have k: "read_string (Escape k @ 34 # 58 # 34 # Escape s @ 34 # 34 # x) = Some (k, 58 # 34 # Escape s @ 34 # 34 # x)"
    by (rule read_string_Escape)
  have "read_json n (34 # Escape s @ 34 # 34 # x) \<in> {None, Some (JString s, 34 # x)}"
    using read_string_Escape [of s "34 # x"] by (cases n) simp_all
  with k Suc show ?thesis by (auto simp: entry_def text_entry_def)
qed simp

lemma read_members_later:
  assumes "\<And>n. read_members n y = None"
  shows "read_members n (entry (text_entry k s) @ 44 # y) = None"
proof (cases n)
  case (Suc n)
  have k: "read_string (Escape k @ 34 # 58 # 34 # Escape s @ 34 # 44 # y) = Some (k, 58 # 34 # Escape s @ 34 # 44 # y)"
    by (rule read_string_Escape)
  have "read_json n (34 # Escape s @ 34 # 44 # y) \<in> {None, Some (JString s, 44 # y)}"
    using read_string_Escape [of s "44 # y"] by (cases n) simp_all
  with k Suc assms show ?thesis by (auto simp: entry_def text_entry_def)
qed simp

lemma read_json_bad: "(\<And>m. read_members m y = None) \<Longrightarrow> take 1 y = [34] \<Longrightarrow> read_json n (123 # y) = None"
  by (cases n; cases y) simp_all

text \<open>the payload that asks for a job is no JSON when there is a client token: the comma before it is missing.\<close>

theorem describe_payload_malformed:
  assumes "jobs_client_token jobs \<noteq> []" "plain_text (jobs_client_token jobs)"
  shows "read_json n (SerializeDescribeJobExecutionPayload jobs number document) = None"
proof -
  let ?flag = "text_entry (str ''includeJobDocument'') (if document then str ''true'' else str ''false'')"
  let ?number = "text_entry (str ''executionNumber'') (int_digits number)"
  obtain x where x: "text_member ''clientToken'' (jobs_client_token jobs) @ [125] = 34 # x"
    by (simp add: text_member_def quoted_def)
  have payload: "SerializeDescribeJobExecutionPayload jobs number document =
      123 # (if number > 0 then entry ?flag @ 44 # entry ?number @ 34 # x else entry ?flag @ 34 # x)"
    using assms(1) x by (auto simp: SerializeDescribeJobExecutionPayload_def text_member_entry plain_str plain_int_digits)
  have "read_members m (entry ?flag @ 44 # entry ?number @ 34 # x) = None" "read_members m (entry ?flag @ 34 # x) = None" for m
    by (rule read_members_later read_members_no_comma)+
  then show ?thesis
    unfolding payload by (intro read_json_bad) (simp_all add: entry_def text_entry_def)
qed

text \<open>asking for a job without its identifier, the default, is always refused.\<close>

theorem describe_needs_job_id:
  "SendJobsDescribe jobs [] number document c = Inr (JOBS_INVALID_TOPIC_ERROR, c)"
  by (simp add: SendJobsDescribe_def publish_job_def GetJobTopic_def)

section \<open>The properties at concrete inputs\<close>

definition sample_jobs :: Jobs where
  "sample_jobs = \<lparr>jobs_qos = QOS1, jobs_thing_name = str ''lamp'', jobs_client_token = str ''t1''\<rparr>"

lemma sample_jobs_plain: "plain_text (jobs_client_token sample_jobs)" "jobs_client_token sample_jobs \<noteq> []"
  by (simp_all add: sample_jobs_def plain_text_def str_def)


theorem start_next_payload_reads_witness:
  "\<exists>n. read_json n (SerializeStartNextPendingJobExecutionPayload sample_jobs []) =
    Some (JObject [(str ''clientToken'', JString (str ''t1''))], [])"
  using start_next_payload_reads [OF sample_jobs_plain(1), of "[]"] by (simp add: sample_jobs_def str_def)

theorem describe_payload_malformed_witness:
  "read_json 9 (SerializeDescribeJobExecutionPayload sample_jobs 3 True) = None"
  by (rule describe_payload_malformed [OF sample_jobs_plain(2,1)])

end
