(* ===== verification/Discovery.thy ===== *)
theory Discovery
  imports Json Actions
begin

text \<open>
  Greengrass discovery (\<^verbatim>\<open>src/discovery/Discovery.cpp\<close>, \<^verbatim>\<open>DiscoveryResponse.cpp\<close> and \<open>Discover\<close> of
  \<^verbatim>\<open>src/mqtt/GreengrassMqttClient.cpp\<close>): an HTTP request over the connection of the client, its response read
  byte by byte, and the document of the response turned into a list of endpoints.

  Time passes while the device is used, so the clock is a function \<open>now\<close> of the device. The loops have a bound;
  the theorem on whole responses shows when it is enough. The action is called directly, so every read is one
  call of the connection.
\<close>

section \<open>The request\<close>

record DiscoverRequestData =
  drd_request_data :: bytes
  drd_max_response_wait_time :: nat
  drd_response :: json

definition DiscoverRequestData_new :: "Utf8String option \<Rightarrow> nat \<Rightarrow> DiscoverRequestData res" where
  "DiscoverRequestData_new p_thing_name max_response_wait_time =
     bind_res (deref p_thing_name) (\<lambda>t.
       Inr \<lparr>drd_request_data = str ''/greengrass/discover/thing/'' @ ToStdString t @ str '' HTTP/1.1'' @ [13, 10, 13, 10],
            drd_max_response_wait_time = max_response_wait_time, drd_response = JNull\<rparr>)"

definition MakeDiscoveryRequest :: "'n NetworkConnection option \<Rightarrow> bytes \<Rightarrow> 'n \<Rightarrow> (ResponseCode \<times> 'n) res" where
  "MakeDiscoveryRequest p_nc packet_data n = WriteToNetworkBuffer 1 one_execution p_nc (str ''GET '' @ packet_data) n"

section \<open>The response\<close>

definition ends_crlf :: "bytes \<Rightarrow> bool" where
  "ends_crlf buf \<longleftrightarrow> 1 < length buf \<and> drop (length buf - 2) buf = [13, 10]"

definition ends_blank :: "bytes \<Rightarrow> bool" where
  "ends_blank buf \<longleftrightarrow> 3 < length buf \<and> drop (length buf - 4) buf = [13, 10, 13, 10]"

text \<open>\<open>std::stoul\<close> with its exceptions.\<close>

definition is_digit :: "byte \<Rightarrow> bool" where
  "is_digit c \<longleftrightarrow> 48 \<le> c \<and> c \<le> 57"

definition is_space :: "byte \<Rightarrow> bool" where
  "is_space c \<longleftrightarrow> c \<in> {9, 10, 11, 12, 13, 32}"

definition decimal :: "bytes \<Rightarrow> nat" where
  "decimal ds = foldl (\<lambda>a c. 10 * a + (unat c - 48)) 0 ds"

definition stoul :: "bytes \<Rightarrow> nat res" where
  "stoul s =
     (let s = dropWhile is_space s;
          negative = (take 1 s = [45]);
          ds = takeWhile is_digit (if take 1 s = [45] \<or> take 1 s = [43] then drop 1 s else s)
      in if ds = [] then Inl InvalidArgument
         else if 2 ^ 64 \<le> decimal ds then Inl OutOfRange
         else Inr (if negative then (2 ^ 64 - decimal ds) mod 2 ^ 64 else decimal ds))"

definition EXPECTED_SUCCESS :: bytes where "EXPECTED_SUCCESS = str ''HTTP/1.1 200 OK''"

definition INFO_NOT_PRESENT :: bytes where "INFO_NOT_PRESENT = str ''HTTP/1.1 404''"

definition UNAUTHORIZED :: bytes where "UNAUTHORIZED = str ''HTTP/1.1 401''"

definition TOO_MANY_REQUESTS :: bytes where "TOO_MANY_REQUESTS = str ''HTTP/1.1 429''"

definition CONTENT_LENGTH :: bytes where "CONTENT_LENGTH = str ''content-length: ''"

definition read_byte :: "'n NetworkConnection option \<Rightarrow> bytes \<Rightarrow> 'n \<Rightarrow> (ResponseCode \<times> bytes \<times> 'n) res" where
  "read_byte p_nc temp_buf n = ReadFromNetworkBuffer 1 one_execution p_nc temp_buf 1 n"

text \<open>The first loop, up to the end of the status line. A failed read does not end it, only the time does.\<close>

fun status_loop ::
  "nat \<Rightarrow> ('n \<Rightarrow> nat) \<Rightarrow> 'n NetworkConnection option \<Rightarrow> nat \<Rightarrow> bytes \<Rightarrow> bytes \<Rightarrow> 'n
   \<Rightarrow> (ResponseCode \<times> bytes \<times> bytes \<times> 'n) res" where
  "status_loop 0 now p_nc max_wait temp_buf read_buf n = Inl OutOfFuel"
| "status_loop (Suc fuel) now p_nc max_wait temp_buf read_buf n =
     bind_res (read_byte p_nc temp_buf n) (\<lambda>(rc, temp_buf, n).
     bind_res (if rc = SUCCESS then bind_res (vec_index temp_buf 0) (\<lambda>c. Inr (read_buf @ [c])) else Inr read_buf) (\<lambda>read_buf.
       let received_crlf = (rc = SUCCESS \<and> ends_crlf read_buf)
       in if now n > max_wait then Inr (DISCOVER_ACTION_REQUEST_TIMED_OUT_ERROR, temp_buf, read_buf, n)
          else if received_crlf then Inr (rc, temp_buf, read_buf, n)
          else status_loop fuel now p_nc max_wait temp_buf read_buf n))"

text \<open>
  The second loop, up to the line with the length of the content. At the end of another line the code continues
  without looking at the time. The result has the place of the length in the line, as the variable has it.
\<close>

fun length_loop ::
  "nat \<Rightarrow> ('n \<Rightarrow> nat) \<Rightarrow> 'n NetworkConnection option \<Rightarrow> nat \<Rightarrow> bytes \<Rightarrow> bytes \<Rightarrow> 'n
   \<Rightarrow> (ResponseCode \<times> nat option \<times> bytes \<times> bytes \<times> 'n) res" where
  "length_loop 0 now p_nc max_wait temp_buf read_buf n = Inl OutOfFuel"
| "length_loop (Suc fuel) now p_nc max_wait temp_buf read_buf n =
     bind_res (read_byte p_nc temp_buf n) (\<lambda>(rc, temp_buf, n).
       if rc \<noteq> SUCCESS then Inr (rc, None, temp_buf, read_buf, n)
       else bind_res (vec_index temp_buf 0) (\<lambda>c.
         let read_buf = read_buf @ [c] in
         if ends_crlf read_buf \<and> find_text CONTENT_LENGTH read_buf = None
         then length_loop fuel now p_nc max_wait temp_buf [] n
         else
           let content_length_index = (if ends_crlf read_buf then find_text CONTENT_LENGTH read_buf else None)
           in if now n > max_wait then
                Inr (DISCOVER_ACTION_REQUEST_TIMED_OUT_ERROR, content_length_index, temp_buf, read_buf, n)
              else if content_length_index \<noteq> None then Inr (rc, content_length_index, temp_buf, read_buf, n)
              else length_loop fuel now p_nc max_wait temp_buf read_buf n))"

text \<open>The third loop, up to the empty line. Its result is not looked at.\<close>

fun header_loop ::
  "nat \<Rightarrow> ('n \<Rightarrow> nat) \<Rightarrow> 'n NetworkConnection option \<Rightarrow> nat \<Rightarrow> bytes \<Rightarrow> bytes \<Rightarrow> 'n \<Rightarrow> 'n res" where
  "header_loop 0 now p_nc max_wait temp_buf read_buf n = Inl OutOfFuel"
| "header_loop (Suc fuel) now p_nc max_wait temp_buf read_buf n =
     bind_res (read_byte p_nc temp_buf n) (\<lambda>(rc, temp_buf, n).
       if rc \<noteq> SUCCESS then Inr n
       else bind_res (vec_index temp_buf 0) (\<lambda>c.
         let read_buf = read_buf @ [c] in
         if now n > max_wait \<or> ends_blank read_buf then Inr n
         else header_loop fuel now p_nc max_wait temp_buf read_buf n))"

definition status_error :: "bytes \<Rightarrow> ResponseCode option" where
  "status_error response_header =
     (if find_text EXPECTED_SUCCESS response_header = None then
        Some (if find_text INFO_NOT_PRESENT response_header \<noteq> None then DISCOVER_ACTION_NO_INFORMATION_PRESENT
              else if find_text TOO_MANY_REQUESTS response_header \<noteq> None then DISCOVER_ACTION_REQUEST_OVERLOAD
              else if find_text UNAUTHORIZED response_header \<noteq> None then DISCOVER_ACTION_UNAUTHORIZED
              else DISCOVER_ACTION_SERVER_ERROR)
      else None)"

definition content_length_of :: "nat \<Rightarrow> bytes \<Rightarrow> nat res" where
  "content_length_of content_length_index read_buf =
     (let rest = drop (content_length_index + length CONTENT_LENGTH) read_buf
      in if 13 \<notin> set rest then Inl OutOfBounds else stoul (takeWhile (\<lambda>c. c \<noteq> 13) rest))"

definition ReadResponseFromNetwork ::
  "nat \<Rightarrow> ('n \<Rightarrow> nat) \<Rightarrow> 'n NetworkConnection option \<Rightarrow> bytes \<Rightarrow> nat \<Rightarrow> 'n \<Rightarrow> (ResponseCode \<times> bytes \<times> 'n) res" where
  "ReadResponseFromNetwork fuel now p_nc read_payload max_response_wait_time n =
     (let max_wait = now n + max_response_wait_time in
      bind_res (status_loop fuel now p_nc max_wait [] [] n) (\<lambda>(rc, temp_buf, read_buf, n).
        if rc \<noteq> SUCCESS then Inr (rc, read_payload, n)
        else case status_error read_buf of
          Some e \<Rightarrow> Inr (e, read_payload, n)
        | None \<Rightarrow>
            bind_res (length_loop fuel now p_nc max_wait temp_buf [] n) (\<lambda>(rc, index, temp_buf, read_buf, n).
              case index of
                None \<Rightarrow> Inr (if rc \<noteq> SUCCESS then rc else DISCOVER_ACTION_NO_INFORMATION_PRESENT, read_payload, n)
              | Some i \<Rightarrow>
                  bind_res (content_length_of i read_buf) (\<lambda>content_length.
                  bind_res (header_loop fuel now p_nc max_wait temp_buf read_buf n) (\<lambda>n.
                    if 0 < content_length then
                      bind_res (ReadFromNetworkBuffer 1 one_execution p_nc [] content_length n) (\<lambda>(rc, read_buf, n).
                        Inr (rc, if rc = SUCCESS then read_payload @ read_buf else read_payload, n))
                    else Inr (DISCOVER_ACTION_REQUEST_FAILED_ERROR, read_payload, n))))))"

definition InitializeDiscoveryResponseJson ::
  "(bytes \<Rightarrow> json option) \<Rightarrow> bytes \<Rightarrow> DiscoverRequestData \<Rightarrow> ResponseCode \<times> DiscoverRequestData" where
  "InitializeDiscoveryResponseJson parse received_response d =
     (case InitializeFromJsonString parse JNull received_response of (rc, j) \<Rightarrow>
        if rc = SUCCESS then (DISCOVER_ACTION_SUCCESS, d\<lparr>drd_response := j\<rparr>) else (rc, d))"

text \<open>The request is used before it is compared with the null pointer.\<close>

definition DiscoverAction_PerformAction ::
  "nat \<Rightarrow> ('n \<Rightarrow> nat) \<Rightarrow> (bytes \<Rightarrow> json option) \<Rightarrow> 'n NetworkConnection option \<Rightarrow> DiscoverRequestData option \<Rightarrow> 'n
   \<Rightarrow> (ResponseCode \<times> DiscoverRequestData \<times> 'n) res" where
  "DiscoverAction_PerformAction fuel now parse p_nc p_discover_packet n =
     bind_res (deref p_discover_packet) (\<lambda>d.
     bind_res (deref p_nc) (\<lambda>nc.
       case Connect_nc nc n of (rc, n) \<Rightarrow>
         if rc \<noteq> SUCCESS then Inr (rc, d, n)
         else bind_res (MakeDiscoveryRequest p_nc (drd_request_data d) n) (\<lambda>(rc, n).
           if rc \<noteq> SUCCESS then Inr (rc, d, snd (Disconnect_nc nc n))
           else bind_res (ReadResponseFromNetwork fuel now p_nc [] (drd_max_response_wait_time d) n) (\<lambda>(rc, received_response, n).
             if rc \<noteq> SUCCESS then Inr (rc, d, snd (Disconnect_nc nc n))
             else case InitializeDiscoveryResponseJson parse received_response d of
               (rc, d) \<Rightarrow> Inr (rc, d, snd (Disconnect_nc nc n))))))"

section \<open>The client\<close>

text \<open>
  The client of Greengrass registers one more action. Its requests go through the same core as those of MQTT,
  which are not performed here; the action data of a discovery has no identifier of its own.
\<close>

datatype 'a greengrass_action = MqttAction 'a | DiscoverAction

datatype 'p greengrass_payload = MqttPayload 'p | DiscoverPayload DiscoverRequestData

definition perform_greengrass ::
  "('a \<Rightarrow> 'p greengrass_payload ActionData \<Rightarrow> ('n, 'a greengrass_action, 'p greengrass_payload) ClientState
     \<Rightarrow> (ResponseCode \<times> 'p greengrass_payload ActionData \<times> ('n, 'a greengrass_action, 'p greengrass_payload) ClientState) res)
   \<Rightarrow> nat \<Rightarrow> ('n \<Rightarrow> nat) \<Rightarrow> (bytes \<Rightarrow> json option) \<Rightarrow> 'a greengrass_action \<Rightarrow> 'p greengrass_payload ActionData
   \<Rightarrow> ('n, 'a greengrass_action, 'p greengrass_payload) ClientState
   \<Rightarrow> (ResponseCode \<times> 'p greengrass_payload ActionData \<times> ('n, 'a greengrass_action, 'p greengrass_payload) ClientState) res" where
  "perform_greengrass perform_mqtt fuel now parse a d st =
     (case a of
        MqttAction m \<Rightarrow> perform_mqtt m d st
      | DiscoverAction \<Rightarrow>
          bind_res (DiscoverAction_PerformAction fuel now parse (ccs_network_connection st)
              (case ad_payload d of DiscoverPayload q \<Rightarrow> Some q | MqttPayload p \<Rightarrow> None) (ccs_net st)) (\<lambda>(rc, q, n).
            Inr (rc, d\<lparr>ad_payload := DiscoverPayload q\<rparr>, st\<lparr>ccs_net := n\<rparr>)))"

definition Discover ::
  "('a \<Rightarrow> 'p greengrass_payload ActionData \<Rightarrow> ('n, 'a greengrass_action, 'p greengrass_payload) ClientState
     \<Rightarrow> (ResponseCode \<times> 'p greengrass_payload ActionData \<times> ('n, 'a greengrass_action, 'p greengrass_payload) ClientState) res)
   \<Rightarrow> nat \<Rightarrow> ('n \<Rightarrow> nat) \<Rightarrow> (bytes \<Rightarrow> json option)
   \<Rightarrow> (('n, 'a greengrass_action, 'p greengrass_payload) ClientState \<Rightarrow> ('n, 'a greengrass_action, 'p greengrass_payload) ClientState)
   \<Rightarrow> nat \<Rightarrow> Utf8String option \<Rightarrow> json \<Rightarrow> ('n, 'a greengrass_action, 'p greengrass_payload) ClientState
   \<Rightarrow> (ResponseCode \<times> json \<times> ('n, 'a greengrass_action, 'p greengrass_payload) ClientState) res" where
  "Discover perform_mqtt fuel now parse wait action_response_timeout p_thing_name discovery_response st =
     bind_res (DiscoverRequestData_new p_thing_name action_response_timeout) (\<lambda>q.
     bind_res (PerformAction GetNextPacketId (perform_greengrass perform_mqtt fuel now parse) wait GREENGRASS_DISCOVER
         (Some \<lparr>ad_async_ack_handler = None, ad_action_id = 0, ad_payload = DiscoverPayload q\<rparr>) st) (\<lambda>(rc, d, st).
       Inr (rc,
            if rc = DISCOVER_ACTION_SUCCESS then
              (case d of Some d \<Rightarrow> (case ad_payload d of DiscoverPayload q \<Rightarrow> drd_response q | _ \<Rightarrow> discovery_response)
               | None \<Rightarrow> discovery_response)
            else discovery_response, st)))"

section \<open>The endpoints of the response\<close>

record ConnectivityInfo =
  ci_group_name :: bytes
  ci_ggc_name :: bytes
  ci_id :: bytes
  ci_host_address :: bytes
  ci_port :: u16
  ci_metadata :: bytes

definition GROUP_ARRAY_KEY :: bytes where "GROUP_ARRAY_KEY = str ''GGGroups''"

definition GROUP_ID_KEY :: bytes where "GROUP_ID_KEY = str ''GGGroupId''"

definition GGC_ARRAY_KEY :: bytes where "GGC_ARRAY_KEY = str ''Cores''"

definition GGC_THING_ARN_KEY :: bytes where "GGC_THING_ARN_KEY = str ''thingArn''"

definition ROOT_CA_KEY :: bytes where "ROOT_CA_KEY = str ''CAs''"

definition CONNECTIVITY_INFO_ARRAY_KEY :: bytes where "CONNECTIVITY_INFO_ARRAY_KEY = str ''Connectivity''"

definition ID_KEY :: bytes where "ID_KEY = str ''Id''"

definition HOST_ADDRESS_KEY :: bytes where "HOST_ADDRESS_KEY = str ''HostAddress''"

definition PORT_KEY :: bytes where "PORT_KEY = str ''PortNumber''"

definition METADATA_KEY :: bytes where "METADATA_KEY = str ''Metadata''"

text \<open>The accessors of the library assert the kind of the value.\<close>

definition get_array :: "json \<Rightarrow> json list res" where
  "get_array j = (case j of JArray vs \<Rightarrow> Inr vs | _ \<Rightarrow> Inl AssertionFailed)"

definition get_string :: "json \<Rightarrow> bytes res" where
  "get_string j = (case as_c_string j of Some s \<Rightarrow> Inr s | None \<Rightarrow> Inl AssertionFailed)"

definition get_int :: "json \<Rightarrow> int res" where
  "get_int j = (case as_int j of Some i \<Rightarrow> Inr i | None \<Rightarrow> Inl AssertionFailed)"

definition member_string :: "json \<Rightarrow> bytes \<Rightarrow> bytes res" where
  "member_string j key = bind_res (get_member j key) get_string"

text \<open>\<open>HasMember\<close> of several names, in their order.\<close>

fun has_members :: "json \<Rightarrow> bytes list \<Rightarrow> bool res" where
  "has_members j [] = Inr True"
| "has_members j (k # ks) = bind_res (HasMember j k) (\<lambda>b. if b then has_members j ks else Inr False)"

fun read_strings :: "json list \<Rightarrow> bytes list res" where
  "read_strings [] = Inr []"
| "read_strings (j # js) = bind_res (get_string j) (\<lambda>s. bind_res (read_strings js) (\<lambda>ss. Inr (s # ss)))"

text \<open>
  The three loops. A failure ends the loop it happens in; the loop over the cores goes on after the failure of one
  of them, the loop over the groups does not.
\<close>

type_synonym parsed = "ResponseCode \<times> ConnectivityInfo list \<times> (bytes \<times> bytes list) list"

fun connectivity_loop :: "json \<Rightarrow> bytes \<Rightarrow> bytes \<Rightarrow> json list \<Rightarrow> parsed \<Rightarrow> parsed res" where
  "connectivity_loop grp group_name core_name [] p = Inr p"
| "connectivity_loop grp group_name core_name (info # infos) (rc, connectivity_info_list, root_ca_map) =
     bind_res (has_members info [ID_KEY, HOST_ADDRESS_KEY, PORT_KEY]) (\<lambda>b.
       if \<not> b then Inr (DISCOVER_RESPONSE_UNEXPECTED_JSON_STRUCTURE_ERROR, connectivity_info_list, root_ca_map)
       else
         bind_res (member_string info ID_KEY) (\<lambda>ident.
         bind_res (member_string info HOST_ADDRESS_KEY) (\<lambda>host_name.
         bind_res (HasMember info METADATA_KEY) (\<lambda>m.
         bind_res (if m then member_string info METADATA_KEY else Inr []) (\<lambda>metadata.
         bind_res (bind_res (get_member info PORT_KEY) get_int) (\<lambda>port.
         bind_res (bind_res (bind_res (get_member grp ROOT_CA_KEY) get_array) read_strings) (\<lambda>ca_list.
           connectivity_loop grp group_name core_name infos
             (rc, connectivity_info_list @
                  [\<lparr>ci_group_name = group_name, ci_ggc_name = core_name, ci_id = ident, ci_host_address = host_name,
                    ci_port = of_int port, ci_metadata = metadata\<rparr>],
              map_insert group_name ca_list root_ca_map))))))))"

fun core_loop :: "json \<Rightarrow> bytes \<Rightarrow> json list \<Rightarrow> parsed \<Rightarrow> parsed res" where
  "core_loop grp group_name [] p = Inr p"
| "core_loop grp group_name (core # cores) (rc, connectivity_info_list, root_ca_map) =
     bind_res (has_members core [GGC_THING_ARN_KEY, CONNECTIVITY_INFO_ARRAY_KEY]) (\<lambda>b.
       if \<not> b then Inr (DISCOVER_RESPONSE_UNEXPECTED_JSON_STRUCTURE_ERROR, connectivity_info_list, root_ca_map)
       else
         bind_res (member_string core GGC_THING_ARN_KEY) (\<lambda>core_name.
         bind_res (bind_res (get_member core CONNECTIVITY_INFO_ARRAY_KEY) get_array) (\<lambda>infos.
         bind_res (connectivity_loop grp group_name core_name infos (rc, connectivity_info_list, root_ca_map)) (\<lambda>p.
           core_loop grp group_name cores p))))"

fun group_loop :: "json list \<Rightarrow> parsed \<Rightarrow> parsed res" where
  "group_loop [] p = Inr p"
| "group_loop (grp # groups) (rc, connectivity_info_list, root_ca_map) =
     bind_res (has_members grp [GROUP_ID_KEY, GGC_ARRAY_KEY, ROOT_CA_KEY]) (\<lambda>b.
       if \<not> b then Inr (DISCOVER_RESPONSE_UNEXPECTED_JSON_STRUCTURE_ERROR, connectivity_info_list, root_ca_map)
       else
         bind_res (member_string grp GROUP_ID_KEY) (\<lambda>group_name.
         bind_res (bind_res (get_member grp GGC_ARRAY_KEY) get_array) (\<lambda>cores.
         bind_res (core_loop grp group_name cores (rc, connectivity_info_list, root_ca_map)) (\<lambda>(rc, infos, cas).
           if rc \<noteq> SUCCESS then Inr (rc, infos, cas) else group_loop groups (rc, infos, cas)))))"

definition GetParsedResponse ::
  "json \<Rightarrow> ConnectivityInfo list \<Rightarrow> (bytes \<times> bytes list) list \<Rightarrow> parsed res" where
  "GetParsedResponse response_document connectivity_info_list root_ca_map =
     bind_res (bind_res (get_member response_document GROUP_ARRAY_KEY) get_array) (\<lambda>groups.
       group_loop groups (SUCCESS, connectivity_info_list, root_ca_map))"

section \<open>A whole response\<close>

lemma read_byte_next:
  assumes "delivers_all nc ready input" "ready n" "input n = c # xs"
  shows "\<exists>n'. read_byte (Some nc) t n = Inr (SUCCESS, [c], n') \<and> ready n' \<and> input n' = xs"
  using ReadFromNetworkBuffer_delivers_all [OF assms(1) _ _ assms(2), of 1 0 one_execution t] assms(3)
  by (auto simp: read_byte_def read_limit_def)

text \<open>\<open>xs\<close> is what follows \<open>buf\<close> up to the first time that \<open>P\<close> holds.\<close>

fun first_end :: "(bytes \<Rightarrow> bool) \<Rightarrow> bytes \<Rightarrow> bytes \<Rightarrow> bool" where
  "first_end P buf [] \<longleftrightarrow> False"
| "first_end P buf (c # xs) \<longleftrightarrow> (if P (buf @ [c]) then xs = [] else first_end P (buf @ [c]) xs)"

lemma first_end_holds: "first_end P buf xs \<Longrightarrow> P (buf @ xs)"
  by (induction P buf xs rule: first_end.induct) (auto split: if_splits)

lemma status_loop_reads:
  assumes "delivers_all nc ready input" "\<And>n. now n \<le> max_wait"
    and "ready n" "input n = xs @ r" "first_end ends_crlf buf xs" "length xs \<le> fuel"
  shows "\<exists>t' n'. status_loop fuel now (Some nc) max_wait t buf n = Inr (SUCCESS, t', buf @ xs, n') \<and>
    ready n' \<and> input n' = r"
  using assms(3-)
proof (induction xs arbitrary: fuel t buf n)
  case (Cons c xs)
  obtain f where f: "fuel = Suc f" using Cons.prems(4) by (cases fuel) simp_all
  obtain n' where n': "read_byte (Some nc) t n = Inr (SUCCESS, [c], n')" "ready n'" "input n' = xs @ r"
    using read_byte_next [OF assms(1) Cons.prems(1)] Cons.prems(2) by fastforce
  show ?case
  proof (cases "ends_crlf (buf @ [c])")
    case True
    with Cons.prems(3) n' assms(2) [of n'] show ?thesis by (simp add: f vec_index_def)
  next
    case False
    with Cons.prems(3) have "first_end ends_crlf (buf @ [c]) xs" by simp
    with Cons.IH [OF n'(2,3) this, of f "[c]"] Cons.prems(4) False n'(1) assms(2) [of n']
    show ?thesis by (simp add: f vec_index_def not_less [symmetric])
  qed
qed simp

lemma length_loop_line:
  assumes "delivers_all nc ready input" "\<And>n. now n \<le> max_wait"
    and "ready n" "input n = xs @ r" "first_end ends_crlf buf xs"
  shows "\<exists>n'. ready n' \<and> input n' = r \<and>
    length_loop (length xs + fuel) now (Some nc) max_wait t buf n =
      (case find_text CONTENT_LENGTH (buf @ xs) of
         None \<Rightarrow> length_loop fuel now (Some nc) max_wait [last xs] [] n'
       | Some i \<Rightarrow> Inr (SUCCESS, Some i, [last xs], buf @ xs, n'))"
  using assms(3-)
proof (induction xs arbitrary: t buf n)
  case (Cons c xs)
  obtain n' where n': "read_byte (Some nc) t n = Inr (SUCCESS, [c], n')" "ready n'" "input n' = xs @ r"
    using read_byte_next [OF assms(1) Cons.prems(1)] Cons.prems(2) by fastforce
  show ?case
  proof (cases "ends_crlf (buf @ [c])")
    case True
    with Cons.prems(3) n' assms(2) [of n'] show ?thesis
      by (intro exI [of _ n']) (simp add: vec_index_def not_less [symmetric] split: option.split)
  next
    case False
    with Cons.prems(3) have fe: "first_end ends_crlf (buf @ [c]) xs" by simp
    then have "xs \<noteq> []" by auto
    with Cons.IH [OF n'(2,3) fe, of "[c]"] False n'(1) assms(2) [of n'] show ?thesis
      by (simp add: vec_index_def not_less [symmetric] cong: option.case_cong)
  qed
qed simp

lemma length_loop_reads:
  assumes "delivers_all nc ready input" "\<And>n. now n \<le> max_wait"
    and "ready n" "input n = concat ls @ xs @ r"
    and "\<forall>l \<in> set ls. first_end ends_crlf [] l \<and> find_text CONTENT_LENGTH l = None"
    and "first_end ends_crlf [] xs" "find_text CONTENT_LENGTH xs = Some i" "length (concat ls) + length xs \<le> fuel"
  shows "\<exists>t' n'. length_loop fuel now (Some nc) max_wait t [] n = Inr (SUCCESS, Some i, t', xs, n') \<and>
    ready n' \<and> input n' = r"
  using assms(3-)
proof (induction ls arbitrary: fuel t n)
  case Nil
  then obtain f where f: "fuel = length xs + f" using le_Suc_ex by auto
  have "input n = xs @ r" using Nil.prems(2) by simp
  note line = length_loop_line [where now = now and max_wait = max_wait and fuel = f and t = t and buf = "[]", OF assms(1,2) Nil.prems(1) this Nil.prems(4)]
  from line Nil.prems(5) show ?case unfolding f by fastforce
next
  case (Cons l ls)
  then obtain f where f: "fuel = length l + f" using le_Suc_ex [of "length l" fuel] by auto
  obtain n' where n': "ready n'" "input n' = concat ls @ xs @ r"
    "length_loop fuel now (Some nc) max_wait t [] n = length_loop f now (Some nc) max_wait [last l] [] n'"
    using length_loop_line [where now = now and max_wait = max_wait and fuel = f and t = t and buf = "[]" and xs = l and r = "concat ls @ xs @ r", OF assms(1,2)] Cons.prems by (auto simp: f)
  from Cons.IH [OF n'(1,2), of f "[last l]"] Cons.prems n'(3) show ?case by (simp add: f)
qed

lemma header_loop_reads:
  assumes "delivers_all nc ready input" "\<And>n. now n \<le> max_wait"
    and "ready n" "input n = xs @ r" "first_end ends_blank buf xs" "length xs \<le> fuel"
  shows "\<exists>n'. header_loop fuel now (Some nc) max_wait t buf n = Inr n' \<and> ready n' \<and> input n' = r"
  using assms(3-)
proof (induction xs arbitrary: fuel t buf n)
  case (Cons c xs)
  obtain f where f: "fuel = Suc f" using Cons.prems(4) by (cases fuel) simp_all
  obtain n' where n': "read_byte (Some nc) t n = Inr (SUCCESS, [c], n')" "ready n'" "input n' = xs @ r"
    using read_byte_next [OF assms(1) Cons.prems(1)] Cons.prems(2) by fastforce
  show ?case
  proof (cases "ends_blank (buf @ [c])")
    case True
    with Cons.prems(3) n' show ?thesis by (simp add: f vec_index_def)
  next
    case False
    with Cons.prems(3) have "first_end ends_blank (buf @ [c]) xs" by simp
    with Cons.IH [OF n'(2,3) this, of f "[c]"] Cons.prems(4) False n'(1) assms(2) [of n']
    show ?thesis by (simp add: f vec_index_def not_less [symmetric])
  qed
qed simp

lemma discovery_read:
  assumes "delivers_all nc ready input" "ready n" "\<And>n'. now n' \<le> now n + wait_time"
    and "input n = status @ concat lines @ length_line @ headers @ body @ rest"
    and "first_end ends_crlf [] status" "find_text EXPECTED_SUCCESS status \<noteq> None"
    and "\<forall>l \<in> set lines. first_end ends_crlf [] l \<and> find_text CONTENT_LENGTH l = None"
    and "first_end ends_crlf [] length_line" "find_text CONTENT_LENGTH length_line = Some i"
    and "content_length_of i length_line = Inr (length body)" "body \<noteq> []" "length body \<le> read_limit"
    and "first_end ends_blank length_line headers"
    and "length (status @ concat lines @ length_line @ headers) \<le> fuel"
  shows "\<exists>n'. ReadResponseFromNetwork fuel now (Some nc) payload wait_time n = Inr (SUCCESS, payload @ body, n') \<and>
    input n' = rest"
proof -
  let ?w = "now n + wait_time"
  obtain t1 n1 where 1: "status_loop fuel now (Some nc) ?w [] [] n = Inr (SUCCESS, t1, status, n1)"
    "ready n1" "input n1 = concat lines @ length_line @ headers @ body @ rest"
    using status_loop_reads [where now = now and max_wait = ?w and fuel = fuel and t = "[]", OF assms(1,3,2,4,5)] assms(14) by auto
  obtain t2 n2 where 2: "length_loop fuel now (Some nc) ?w t1 [] n1 = Inr (SUCCESS, Some i, t2, length_line, n2)"
    "ready n2" "input n2 = headers @ body @ rest"
    using length_loop_reads [where now = now and max_wait = ?w and fuel = fuel and t = t1, OF assms(1,3) 1(2,3) assms(7-9)] assms(14) by auto
  obtain n3 where 3: "header_loop fuel now (Some nc) ?w t2 length_line n2 = Inr n3"
    "ready n3" "input n3 = body @ rest"
    using header_loop_reads [where now = now and max_wait = ?w and fuel = fuel and t = t2, OF assms(1,3) 2(2,3) assms(13)] assms(14) by auto
  obtain n4 where 4: "ReadFromNetworkBuffer 1 one_execution (Some nc) [] (length body) n3 = Inr (SUCCESS, body, n4)"
    "input n4 = rest"
    using ReadFromNetworkBuffer_delivers_all [OF assms(1) _ assms(12) 3(2), of 0 one_execution "[]"] 3(3) assms(11) by auto
  have "status_error status = None" using assms(6) by (auto simp: status_error_def)
  with 1 2 3 4 assms(10,11) show ?thesis
    by (auto simp: ReadResponseFromNetwork_def Let_def)
qed

text \<open>a complete answer of the server that arrives in time, with a status line of success, any header lines
  around the one with the length of the content, and a body of that length, is read to the end of the body and
  not beyond, and its body is what the application gets.\<close>

theorem discovery_response_read:
  assumes "delivers_all nc ready input" "ready n" "\<And>n'. now n' \<le> now n + wait_time"
    and "input n = status @ concat lines @ length_line @ headers @ body @ rest"
    and "first_end ends_crlf [] status" "find_text EXPECTED_SUCCESS status \<noteq> None"
    and "\<forall>l \<in> set lines. first_end ends_crlf [] l \<and> find_text CONTENT_LENGTH l = None"
    and "first_end ends_crlf [] length_line" "find_text CONTENT_LENGTH length_line = Some i"
    and "content_length_of i length_line = Inr (length body)" "body \<noteq> []" "length body \<le> read_limit"
    and "first_end ends_blank length_line headers"
    and "length (status @ concat lines @ length_line @ headers) \<le> fuel"
  shows "\<exists>n'. ReadResponseFromNetwork fuel now (Some nc) payload wait_time n = Inr (SUCCESS, payload @ body, n') \<and>
    input n' = rest"
  using assms by (rule discovery_read)

section \<open>Documents of endpoints\<close>

text \<open>What a response says: groups with their authorities and cores, cores with their endpoints.\<close>

record endpoint =
  ep_id :: bytes
  ep_host :: bytes
  ep_port :: nat
  ep_metadata :: "bytes option"

type_synonym core_spec = "bytes \<times> endpoint list"
type_synonym group_spec = "bytes \<times> bytes list \<times> core_spec list"

definition endpoint_json :: "endpoint \<Rightarrow> json" where
  "endpoint_json e = JObject ([(ID_KEY, JString (ep_id e)), (HOST_ADDRESS_KEY, JString (ep_host e)),
     (PORT_KEY, JInt (int (ep_port e)))] @ (case ep_metadata e of None \<Rightarrow> [] | Some m \<Rightarrow> [(METADATA_KEY, JString m)]))"

definition core_json :: "core_spec \<Rightarrow> json" where
  "core_json c = (case c of (arn, es) \<Rightarrow>
     JObject [(GGC_THING_ARN_KEY, JString arn), (CONNECTIVITY_INFO_ARRAY_KEY, JArray (map endpoint_json es))])"

definition group_json :: "group_spec \<Rightarrow> json" where
  "group_json g = (case g of (name, cas, cores) \<Rightarrow>
     JObject [(GROUP_ID_KEY, JString name), (GGC_ARRAY_KEY, JArray (map core_json cores)),
       (ROOT_CA_KEY, JArray (map JString cas))])"

definition response_json :: "group_spec list \<Rightarrow> json" where
  "response_json gs = JObject [(GROUP_ARRAY_KEY, JArray (map group_json gs))]"

definition c_text :: "bytes \<Rightarrow> bool" where
  "c_text s \<longleftrightarrow> 0 \<notin> set s"

definition endpoint_ok :: "endpoint \<Rightarrow> bool" where
  "endpoint_ok e \<longleftrightarrow> c_text (ep_id e) \<and> c_text (ep_host e) \<and> ep_port e < 2 ^ 16 \<and>
     (case ep_metadata e of None \<Rightarrow> True | Some m \<Rightarrow> c_text m)"

definition core_spec_ok :: "core_spec \<Rightarrow> bool" where
  "core_spec_ok c \<longleftrightarrow> c_text (fst c) \<and> list_all endpoint_ok (snd c)"

definition group_ok :: "group_spec \<Rightarrow> bool" where
  "group_ok g \<longleftrightarrow> c_text (fst g) \<and> list_all c_text (fst (snd g)) \<and> list_all core_spec_ok (snd (snd g))"

definition endpoint_info :: "bytes \<Rightarrow> bytes \<Rightarrow> endpoint \<Rightarrow> ConnectivityInfo" where
  "endpoint_info g c e =
     \<lparr>ci_group_name = g, ci_ggc_name = c, ci_id = ep_id e, ci_host_address = ep_host e, ci_port = of_nat (ep_port e),
      ci_metadata = (case ep_metadata e of None \<Rightarrow> [] | Some m \<Rightarrow> m)\<rparr>"

definition group_infos :: "group_spec \<Rightarrow> ConnectivityInfo list" where
  "group_infos g = concat (map (\<lambda>c. map (endpoint_info (fst g) (fst c)) (snd c)) (snd (snd g)))"

text \<open>The authorities of a group are recorded when it has an endpoint, the first time that its name occurs.\<close>

definition group_cas :: "group_spec \<Rightarrow> (bytes \<times> bytes list) list \<Rightarrow> (bytes \<times> bytes list) list" where
  "group_cas g m = (if group_infos g = [] then m else map_insert (fst g) (fst (snd g)) m)"

lemma response_keys [simp]:
  "distinct [ID_KEY, HOST_ADDRESS_KEY, PORT_KEY, METADATA_KEY]" "distinct [GGC_THING_ARN_KEY, CONNECTIVITY_INFO_ARRAY_KEY]"
  "distinct [GROUP_ID_KEY, GGC_ARRAY_KEY, ROOT_CA_KEY]"
  by (simp_all add: ID_KEY_def HOST_ADDRESS_KEY_def PORT_KEY_def METADATA_KEY_def GGC_THING_ARN_KEY_def
      CONNECTIVITY_INFO_ARRAY_KEY_def GROUP_ID_KEY_def GGC_ARRAY_KEY_def ROOT_CA_KEY_def str_def)

lemma response_key_neq [simp]:
  "ID_KEY \<noteq> HOST_ADDRESS_KEY" "HOST_ADDRESS_KEY \<noteq> ID_KEY" "ID_KEY \<noteq> PORT_KEY" "PORT_KEY \<noteq> ID_KEY"
  "HOST_ADDRESS_KEY \<noteq> PORT_KEY" "PORT_KEY \<noteq> HOST_ADDRESS_KEY" "METADATA_KEY \<noteq> ID_KEY" "ID_KEY \<noteq> METADATA_KEY"
  "METADATA_KEY \<noteq> HOST_ADDRESS_KEY" "HOST_ADDRESS_KEY \<noteq> METADATA_KEY" "METADATA_KEY \<noteq> PORT_KEY" "PORT_KEY \<noteq> METADATA_KEY"
  "GGC_THING_ARN_KEY \<noteq> CONNECTIVITY_INFO_ARRAY_KEY" "CONNECTIVITY_INFO_ARRAY_KEY \<noteq> GGC_THING_ARN_KEY"
  "GROUP_ID_KEY \<noteq> GGC_ARRAY_KEY" "GGC_ARRAY_KEY \<noteq> GROUP_ID_KEY" "GROUP_ID_KEY \<noteq> ROOT_CA_KEY" "ROOT_CA_KEY \<noteq> GROUP_ID_KEY"
  "GGC_ARRAY_KEY \<noteq> ROOT_CA_KEY" "ROOT_CA_KEY \<noteq> GGC_ARRAY_KEY"
  by (simp_all add: ID_KEY_def HOST_ADDRESS_KEY_def PORT_KEY_def METADATA_KEY_def GGC_THING_ARN_KEY_def
      CONNECTIVITY_INFO_ARRAY_KEY_def GROUP_ID_KEY_def GGC_ARRAY_KEY_def ROOT_CA_KEY_def str_def)

lemma get_string_text: "c_text s \<Longrightarrow> get_string (JString s) = Inr s"
proof -
  assume "c_text s"
  then have "takeWhile (\<lambda>b. b \<noteq> 0) s = s" by (auto simp: c_text_def takeWhile_eq_all_conv)
  then show ?thesis by (simp add: get_string_def as_c_string_def)
qed

lemma read_strings_texts: "list_all c_text ss \<Longrightarrow> read_strings (map JString ss) = Inr ss"
  by (induction ss) (simp_all add: get_string_text)

lemma get_int_port: "p < 2 ^ 16 \<Longrightarrow> get_int (JInt (int p)) = Inr (int p)"
  by (simp add: get_int_def as_int_def)

lemmas member_simps = HasMember_def find_member_def get_member_def member_string_def get_string_text

lemma connectivity_loop_all:
  assumes "list_all endpoint_ok es" "list_all c_text cas" "map_of (members g) ROOT_CA_KEY = Some (JArray (map JString cas))"
    and "is_object g" "map_wf m"
  shows "connectivity_loop g gn cn (map endpoint_json es) (rc, infos, m) =
    Inr (rc, infos @ map (endpoint_info gn cn) es, if es = [] then m else map_insert gn cas m) \<and>
    map_wf (if es = [] then m else map_insert gn cas m)"
  using assms(1,5)
proof (induction es arbitrary: infos m)
  case (Cons e es)
  have "map_insert gn cas (map_insert gn cas m) = map_insert gn cas m"
    using Cons.prems(2) by (induction gn cas m rule: map_insert.induct) (auto simp: map_wf_Cons)
  moreover have "read_strings (map JString cas) = Inr cas" using assms(2) by (rule read_strings_texts)
  ultimately show ?case
    using Cons.IH [of "map_insert gn cas m"] Cons.prems assms(3,4)
    by (cases "ep_metadata e")
      (simp_all add: endpoint_json_def endpoint_ok_def endpoint_info_def member_simps get_int_port get_array_def map_wf_insert)
qed simp

lemma core_loop_all:
  assumes "list_all core_spec_ok cs" "list_all c_text cas" "map_of (members g) ROOT_CA_KEY = Some (JArray (map JString cas))"
    and "is_object g" "map_wf m"
  shows "let all = concat (map (\<lambda>c. map (endpoint_info gn (fst c)) (snd c)) cs) in
    core_loop g gn (map core_json cs) (rc, infos, m) =
      Inr (rc, infos @ all, if all = [] then m else map_insert gn cas m) \<and>
    map_wf (if all = [] then m else map_insert gn cas m)"
  using assms(1,5)
proof (induction cs arbitrary: infos m)
  case (Cons c cs)
  obtain arn es where c: "c = (arn, es)" by force
  have ins: "map_insert gn cas (map_insert gn cas m) = map_insert gn cas m"
    using Cons.prems(2) by (induction gn cas m rule: map_insert.induct) (auto simp: map_wf_Cons)
  define m' where "m' = (if es = [] then m else map_insert gn cas m)"
  have "list_all endpoint_ok es" "c_text arn" using Cons.prems(1) by (simp_all add: c core_spec_ok_def)
  note conn = connectivity_loop_all [OF this(1) assms(2-4) Cons.prems(2), of gn arn rc infos, folded m'_def]
  from Cons.IH [of m' "infos @ map (endpoint_info gn arn) es"] Cons.prems(1) conn ins \<open>c_text arn\<close>
  show ?case
    by (simp add: c core_json_def member_simps get_array_def Let_def m'_def split: if_splits)
qed simp

lemma group_loop_all:
  assumes "list_all group_ok gs" "map_wf m"
  shows "group_loop (map group_json gs) (SUCCESS, infos, m) =
    Inr (SUCCESS, infos @ concat (map group_infos gs), fold group_cas gs m)"
  using assms
proof (induction gs arbitrary: infos m)
  case (Cons g gs)
  obtain gn cas cores where g: "g = (gn, cas, cores)" by (cases g)
  have ok: "list_all core_spec_ok cores" "list_all c_text cas" "c_text gn" using Cons.prems(1) by (simp_all add: g group_ok_def)
  have "map_of (members (group_json g)) ROOT_CA_KEY = Some (JArray (map JString cas))" "is_object (group_json g)"
    by (simp_all add: g group_json_def)
  note cores = core_loop_all [OF ok(1,2) this Cons.prems(2), of gn SUCCESS infos, unfolded Let_def]
  have loop: "core_loop (group_json g) gn (map core_json cores) (SUCCESS, infos, m) =
      Inr (SUCCESS, infos @ group_infos g, group_cas g m)"
    using cores by (simp add: group_infos_def group_cas_def g)
  have wf: "map_wf (group_cas g m)" using Cons.prems(2) by (simp add: group_cas_def map_wf_insert)
  have "group_loop (group_json g # map group_json gs) (SUCCESS, infos, m) =
      group_loop (map group_json gs) (SUCCESS, infos @ group_infos g, group_cas g m)"
    using loop ok(3) by (simp add: g group_json_def member_simps get_array_def)
  then show ?case using Cons.IH [OF _ wf, of "infos @ group_infos g"] Cons.prems(1) by simp
qed simp

text \<open>C29: of a document that describes groups, cores and endpoints, the client gets every endpoint with its group and core,
  in the order of the document, and for each group with an endpoint its authorities.\<close>

theorem parsed_response_complete:
  assumes "list_all group_ok gs"
  shows "GetParsedResponse (response_json gs) [] [] = Inr (SUCCESS, concat (map group_infos gs), fold group_cas gs [])"
  using group_loop_all [OF assms, of "[]" "[]"]
  by (simp add: GetParsedResponse_def response_json_def get_member_def find_member_def get_array_def)

section \<open>The properties at concrete inputs\<close>

definition sample_response :: "group_spec list" where
  "sample_response =
     [([103], [[99, 97]],
       [([97], [\<lparr>ep_id = [49], ep_host = [104], ep_port = 8883, ep_metadata = None\<rparr>,
                \<lparr>ep_id = [50], ep_host = [105], ep_port = 8443, ep_metadata = Some [109]\<rparr>])])]"

theorem parsed_response_complete_witness:
  "GetParsedResponse (response_json sample_response) [] [] =
     Inr (SUCCESS, concat (map group_infos sample_response), fold group_cas sample_response [])"
  by (rule parsed_response_complete)
    (simp add: sample_response_def group_ok_def core_spec_ok_def endpoint_ok_def c_text_def)

text \<open>A status line of success, a header line, the line of the length, another line, the empty line and two bytes.\<close>

definition sample_status :: bytes where "sample_status = EXPECTED_SUCCESS @ [13, 10]"

definition sample_length_line :: bytes where "sample_length_line = CONTENT_LENGTH @ [50, 13, 10]"

lemma script_delivers_all: "delivers_all (script_connection\<lparr>nc_ReadInternal := (\<lambda>buf off sz k d.
     let k = min sz (length (sd_input d))
     in if k = 0 then (NETWORK_SSL_NOTHING_TO_READ, buf, 0, d)
        else (SUCCESS, take off buf @ take k (sd_input d) @ drop (off + k) buf, k, d\<lparr>sd_input := drop k (sd_input d)\<rparr>))\<rparr>) sd_connected sd_input"
  by (auto simp: delivers_all_def script_connection_def Let_def min_def split: if_splits)

theorem discovery_response_read_witness:
  "\<exists>n'. ReadResponseFromNetwork 99 (\<lambda>_. 0) (Some (script_connection\<lparr>nc_ReadInternal := (\<lambda>buf off sz k d.
     let k = min sz (length (sd_input d))
     in if k = 0 then (NETWORK_SSL_NOTHING_TO_READ, buf, 0, d)
        else (SUCCESS, take off buf @ take k (sd_input d) @ drop (off + k) buf, k, d\<lparr>sd_input := drop k (sd_input d)\<rparr>))\<rparr>))
     [] 1000 (script (sample_status @ [97, 13, 10] @ sample_length_line @ [98, 13, 10, 13, 10] @ [123, 125] @ [1]) 0 0)
     = Inr (SUCCESS, [123, 125], n') \<and> sd_input n' = [1]"
  using discovery_response_read [OF script_delivers_all, where now = "\<lambda>_. 0" and wait_time = 1000 and payload = "[]" and fuel = 99
      and n = "script (sample_status @ [97, 13, 10] @ sample_length_line @ [98, 13, 10, 13, 10] @ [123, 125] @ [1]) 0 0"
      and status = sample_status and lines = "[[97, 13, 10]]" and length_line = sample_length_line
      and headers = "[98, 13, 10, 13, 10]" and body = "[123, 125]" and rest = "[1]" and i = 0]
  by (simp add: read_limit_def script_connection_def script_def sample_status_def sample_length_line_def EXPECTED_SUCCESS_def CONTENT_LENGTH_def
      str_def ends_crlf_def ends_blank_def content_length_of_def stoul_def is_space_def is_digit_def decimal_def)

end
