(* ===== verification/OpenSSL.thy ===== *)
theory OpenSSL
  imports Network "HOL-Library.Signed_Division"
begin

text \<open>
  The TLS connection of the SDK (\<^verbatim>\<open>network/OpenSSL/OpenSSLConnection.cpp\<close>), one of the ports behind
  \<open>NetworkConnection\<close>.

  OpenSSL and the sockets of the system are libraries: a record \<open>tls_library\<close> of the calls the code makes, over a
  state \<open>'w\<close> that stands for the library, the system and the peer. Laws of these calls are stated where a theorem
  needs them. The SSL context and the SSL handle are kept as what the code can see of a pointer: it has not been
  set, it is null, or it points to a live object.
\<close>

section \<open>The libraries\<close>

datatype pointer = Unset | Null | Live

datatype address_family = AF_INET | AF_INET6

datatype ssl_error = SSL_ERROR_WANT_READ | SSL_ERROR_WANT_WRITE | SSL_ERROR_ZERO_RETURN | SSL_ERROR_OTHER

record timeval =
  tv_sec :: int
  tv_usec :: int

record 'w tls_library =
  lib_library_init :: "'w \<Rightarrow> int \<times> 'w"
  lib_ctx_new :: "'w \<Rightarrow> bool \<times> 'w"
  lib_ctx_free :: "'w \<Rightarrow> 'w"
  lib_load_verify_locations :: "bytes \<Rightarrow> 'w \<Rightarrow> bool \<times> 'w"
  lib_use_certificate_chain_file :: "bytes \<Rightarrow> 'w \<Rightarrow> bool \<times> 'w"
  lib_use_private_key_file :: "bytes \<Rightarrow> 'w \<Rightarrow> int \<times> 'w"
  lib_ssl_new :: "'w \<Rightarrow> bool \<times> 'w"
  lib_ssl_free :: "'w \<Rightarrow> 'w"
  lib_is_address :: "bytes \<Rightarrow> bool"
  lib_set_verify_ip :: "bytes \<Rightarrow> 'w \<Rightarrow> 'w"
  lib_set_verify_host :: "bytes \<Rightarrow> 'w \<Rightarrow> 'w"
  lib_set_alpn_protos :: "bytes \<Rightarrow> 'w \<Rightarrow> int \<times> 'w"
  lib_set_verify_peer :: "'w \<Rightarrow> 'w"
  lib_socket :: "address_family \<Rightarrow> 'w \<Rightarrow> int \<times> 'w"
  lib_close :: "int \<Rightarrow> 'w \<Rightarrow> 'w"
  lib_getaddrinfo :: "address_family \<Rightarrow> bytes \<Rightarrow> 'w \<Rightarrow> (int \<times> bytes list) \<times> 'w"
  lib_connect :: "int \<Rightarrow> bytes \<Rightarrow> u16 \<Rightarrow> 'w \<Rightarrow> int \<times> 'w"
  lib_get_flags :: "int \<Rightarrow> 'w \<Rightarrow> int \<times> 'w"
  lib_set_nonblocking :: "int \<Rightarrow> int \<Rightarrow> 'w \<Rightarrow> int \<times> 'w"
  lib_set_fd :: "int \<Rightarrow> 'w \<Rightarrow> 'w"
  lib_ssl_connect :: "'w \<Rightarrow> int \<times> 'w"
  lib_get_error :: "int \<Rightarrow> 'w \<Rightarrow> ssl_error"
  lib_select :: "bool \<Rightarrow> int \<Rightarrow> timeval \<Rightarrow> 'w \<Rightarrow> int \<times> 'w"
  lib_verify_ok :: "'w \<Rightarrow> bool"
  lib_peer_certificate :: "'w \<Rightarrow> bool"
  lib_write :: "bytes \<Rightarrow> int \<Rightarrow> 'w \<Rightarrow> int \<times> 'w"
  lib_read :: "int \<Rightarrow> 'w \<Rightarrow> (int \<times> bytes) \<times> 'w"
  lib_shutdown :: "'w \<Rightarrow> int \<times> 'w"

section \<open>The connection\<close>

record 'w OpenSSLConnection =
  oc_root_ca_location :: bytes
  oc_device_cert_location :: bytes
  oc_device_private_key_location :: bytes
  oc_server_verification_flag :: bool
  oc_is_connected :: bool
  oc_tls_handshake_timeout :: timeval
  oc_tls_read_timeout :: timeval
  oc_tls_write_timeout :: timeval
  oc_endpoint_port :: u16
  oc_endpoint :: bytes
  oc_ssl_context :: pointer
  oc_ssl_handle :: pointer
  oc_server_tcp_socket_fd :: int
  oc_certificates_read_flag :: bool
  oc_enable_alpn :: bool
  oc_address_family :: address_family
  oc_world :: 'w

text \<open>A duration is cut to a 32-bit \<open>int\<close> first; the division truncates towards zero.\<close>

definition to_timeval :: "int \<Rightarrow> timeval" where
  "to_timeval count =
     (let timeout_ms = sint (of_int count :: 32 word)
      in \<lparr>tv_sec = timeout_ms sdiv 1000, tv_usec = (timeout_ms smod 1000) * 1000\<rparr>)"

definition OpenSSLConnection_new ::
  "bytes \<Rightarrow> u16 \<Rightarrow> bytes \<Rightarrow> bytes \<Rightarrow> bytes \<Rightarrow> int \<Rightarrow> int \<Rightarrow> int \<Rightarrow> bool \<Rightarrow> bool \<Rightarrow> 'w \<Rightarrow> 'w OpenSSLConnection" where
  "OpenSSLConnection_new endpoint endpoint_port root_ca_location device_cert_location device_private_key_location
      tls_handshake_timeout tls_read_timeout tls_write_timeout server_verification_flag enable_alpn w =
     \<lparr>oc_root_ca_location = root_ca_location, oc_device_cert_location = device_cert_location,
      oc_device_private_key_location = device_private_key_location,
      oc_server_verification_flag = server_verification_flag, oc_is_connected = False,
      oc_tls_handshake_timeout = to_timeval tls_handshake_timeout, oc_tls_read_timeout = to_timeval tls_read_timeout,
      oc_tls_write_timeout = to_timeval tls_write_timeout, oc_endpoint_port = endpoint_port, oc_endpoint = endpoint,
      oc_ssl_context = Unset, oc_ssl_handle = Null, oc_server_tcp_socket_fd = 0, oc_certificates_read_flag = False,
      oc_enable_alpn = enable_alpn, oc_address_family = AF_INET6, oc_world = w\<rparr>"

definition SetRootCAPath :: "bytes \<Rightarrow> 'w OpenSSLConnection \<Rightarrow> 'w OpenSSLConnection" where
  "SetRootCAPath root_ca_location c =
     c\<lparr>oc_root_ca_location := root_ca_location, oc_certificates_read_flag := False\<rparr>"

definition SetEndpointAndPort :: "bytes \<Rightarrow> u16 \<Rightarrow> 'w OpenSSLConnection \<Rightarrow> 'w OpenSSLConnection" where
  "SetEndpointAndPort endpoint endpoint_port c = c\<lparr>oc_endpoint := endpoint, oc_endpoint_port := endpoint_port\<rparr>"

text \<open>A call of a library: a function with a result, or one that only has an effect.\<close>

definition lib_call :: "('w \<Rightarrow> 'a \<times> 'w) \<Rightarrow> 'w OpenSSLConnection \<Rightarrow> 'a \<times> 'w OpenSSLConnection" where
  "lib_call f c = (case f (oc_world c) of (r, w) \<Rightarrow> (r, c\<lparr>oc_world := w\<rparr>))"

definition lib_do :: "('w \<Rightarrow> 'w) \<Rightarrow> 'w OpenSSLConnection \<Rightarrow> 'w OpenSSLConnection" where
  "lib_do f c = c\<lparr>oc_world := f (oc_world c)\<rparr>"

text \<open>The libraries may not be given a pointer that does not point to a live object.\<close>

definition live :: "pointer \<Rightarrow> unit res" where
  "live p = (case p of Unset \<Rightarrow> Inl Uninitialised | Null \<Rightarrow> Inl NullPointer | Live \<Rightarrow> Inr ())"

text \<open>Both directions of the wait use the timeout for writing.\<close>

definition WaitForSelect :: "'w tls_library \<Rightarrow> ssl_error \<Rightarrow> 'w OpenSSLConnection \<Rightarrow> int \<times> 'w OpenSSLConnection" where
  "WaitForSelect lib error_code c =
     (case error_code of
        SSL_ERROR_WANT_READ \<Rightarrow> lib_call (lib_select lib False (oc_server_tcp_socket_fd c) (oc_tls_write_timeout c)) c
      | SSL_ERROR_WANT_WRITE \<Rightarrow> lib_call (lib_select lib True (oc_server_tcp_socket_fd c) (oc_tls_write_timeout c)) c
      | _ \<Rightarrow> (0, c))"

definition OpenSSL_Initialize :: "'w tls_library \<Rightarrow> 'w OpenSSLConnection \<Rightarrow> ResponseCode \<times> 'w OpenSSLConnection" where
  "OpenSSL_Initialize lib c =
     (case lib_call (lib_library_init lib) c of
        (r, c) \<Rightarrow>
          if r < 0 then (NETWORK_SSL_INIT_ERROR, c)
          else case lib_call (lib_ctx_new lib) c of
            (b, c) \<Rightarrow> if b then (SUCCESS, c\<lparr>oc_ssl_context := Live\<rparr>)
                       else (NETWORK_SSL_INIT_ERROR, c\<lparr>oc_ssl_context := Null\<rparr>))"

section \<open>Connecting\<close>

text \<open>The addresses of the host are tried in turn, all on the same socket; the list is not empty.\<close>

fun connect_loop :: "'w tls_library \<Rightarrow> int \<Rightarrow> u16 \<Rightarrow> bytes list \<Rightarrow> 'w OpenSSLConnection \<Rightarrow> int \<times> 'w OpenSSLConnection" where
  "connect_loop lib fd port [] c = (-1, c)"
| "connect_loop lib fd port (a # as) c =
     (case lib_call (lib_connect lib fd a port) c of
        (status, c) \<Rightarrow> if status = -1 \<and> as \<noteq> [] then connect_loop lib fd port as c else (status, c))"

definition ConnectTCPSocket :: "'w tls_library \<Rightarrow> 'w OpenSSLConnection \<Rightarrow> ResponseCode \<times> 'w OpenSSLConnection" where
  "ConnectTCPSocket lib c =
     (case lib_call (lib_getaddrinfo lib (oc_address_family c) (oc_endpoint c)) c of
        ((err, result_add), c) \<Rightarrow>
          if err \<noteq> 0 \<or> result_add = [] then (NETWORK_TCP_UNKNOWN_HOST, c)
          else case connect_loop lib (oc_server_tcp_socket_fd c) (oc_endpoint_port c) result_add c of
            (status, c) \<Rightarrow> (if status \<noteq> -1 then SUCCESS else NETWORK_TCP_CONNECT_ERROR, c))"

definition SetSocketToNonBlocking :: "'w tls_library \<Rightarrow> 'w OpenSSLConnection \<Rightarrow> ResponseCode \<times> 'w OpenSSLConnection" where
  "SetSocketToNonBlocking lib c =
     (case lib_call (lib_get_flags lib (oc_server_tcp_socket_fd c)) c of
        (flags, c) \<Rightarrow>
          case lib_call (lib_set_nonblocking lib (oc_server_tcp_socket_fd c) flags) c of
            (status, c) \<Rightarrow> (if flags < 0 \<or> status < 0 then NETWORK_TCP_CONNECT_ERROR else SUCCESS, c))"

text \<open>The loop goes on while the library asks for it and the socket becomes ready; the fuel bounds it.\<close>

fun AttemptConnect :: "nat \<Rightarrow> 'w tls_library \<Rightarrow> 'w OpenSSLConnection \<Rightarrow> (ResponseCode \<times> 'w OpenSSLConnection) res" where
  "AttemptConnect 0 lib c = Inl OutOfFuel"
| "AttemptConnect (Suc fuel) lib c =
     (case lib_call (lib_ssl_connect lib) c of
        (rc, c) \<Rightarrow>
          if rc = 1 then Inr (SUCCESS, c)
          else
            let errorCode = lib_get_error lib rc (oc_world c) in
            if errorCode = SSL_ERROR_WANT_READ \<or> errorCode = SSL_ERROR_WANT_WRITE then
              (case WaitForSelect lib errorCode c of
                 (select_retCode, c) \<Rightarrow>
                   if select_retCode = 0 then Inr (NETWORK_SSL_CONNECT_TIMEOUT_ERROR, c)
                   else if select_retCode = -1 then Inr (NETWORK_SSL_CONNECT_ERROR, c)
                   else AttemptConnect fuel lib c)
            else Inr (NETWORK_SSL_CONNECT_ERROR, c))"

definition LoadCerts :: "'w tls_library \<Rightarrow> 'w OpenSSLConnection \<Rightarrow> (ResponseCode \<times> 'w OpenSSLConnection) res" where
  "LoadCerts lib c =
     bind_res (live (oc_ssl_context c)) (\<lambda>_.
       case lib_call (lib_load_verify_locations lib (oc_root_ca_location c)) c of
         (ok, c) \<Rightarrow>
           if \<not> ok then Inr (NETWORK_SSL_ROOT_CRT_PARSE_ERROR, c)
           else if 0 < length (oc_device_cert_location c) \<and> 0 < length (oc_device_private_key_location c) then
             (case lib_call (lib_use_certificate_chain_file lib (oc_device_cert_location c)) c of
                (ok, c) \<Rightarrow>
                  if \<not> ok then Inr (NETWORK_SSL_DEVICE_CRT_PARSE_ERROR, c)
                  else case lib_call (lib_use_private_key_file lib (oc_device_private_key_location c)) c of
                    (r, c) \<Rightarrow>
                      if r \<noteq> 1 then Inr (NETWORK_SSL_KEY_PARSE_ERROR, c)
                      else Inr (SUCCESS, c\<lparr>oc_certificates_read_flag := True\<rparr>))
           else Inr (SUCCESS, c\<lparr>oc_certificates_read_flag := True\<rparr>))"

definition close_socket :: "'w tls_library \<Rightarrow> 'w OpenSSLConnection \<Rightarrow> 'w OpenSSLConnection" where
  "close_socket lib c = lib_do (lib_close lib (oc_server_tcp_socket_fd c)) c"

definition verified :: "'w tls_library \<Rightarrow> ResponseCode \<Rightarrow> 'w OpenSSLConnection \<Rightarrow> ResponseCode" where
  "verified lib rc c =
     (if \<not> lib_verify_ok lib (oc_world c) then NETWORK_SSL_CONNECT_ERROR
      else if \<not> lib_peer_certificate lib (oc_world c) then NETWORK_SSL_CONNECT_ERROR
      else rc)"

definition PerformSSLConnect :: "nat \<Rightarrow> 'w tls_library \<Rightarrow> 'w OpenSSLConnection \<Rightarrow> (ResponseCode \<times> 'w OpenSSLConnection) res" where
  "PerformSSLConnect fuel lib c =
     bind_res (live (oc_ssl_handle c)) (\<lambda>_.
       case lib_call (lib_socket lib (oc_address_family c)) (lib_do (lib_set_verify_peer lib) c) of
         (fd, c) \<Rightarrow>
           let c = c\<lparr>oc_server_tcp_socket_fd := fd\<rparr> in
           if fd = -1 then Inr (NETWORK_TCP_SETUP_ERROR, c)
           else case ConnectTCPSocket lib c of
             (rc, c) \<Rightarrow>
               if rc \<noteq> SUCCESS then Inr (rc, close_socket lib c)
               else case SetSocketToNonBlocking lib (lib_do (lib_set_fd lib fd) c) of
                 (rc, c) \<Rightarrow>
                   bind_res (if rc \<noteq> SUCCESS then Inr (rc, c)
                             else bind_res (AttemptConnect fuel lib c) (\<lambda>(rc, c). Inr (verified lib rc c, c)))
                     (\<lambda>(rc, c). Inr (rc, if rc \<noteq> SUCCESS then close_socket lib c else c)))"

definition alpn_protocol_list :: bytes where
  "alpn_protocol_list = 14 # str ''x-amzn-mqtt-ca''"

definition set_verification :: "'w tls_library \<Rightarrow> 'w OpenSSLConnection \<Rightarrow> 'w OpenSSLConnection" where
  "set_verification lib c =
     (if oc_server_verification_flag c then
        lib_do (if lib_is_address lib (oc_endpoint c) then lib_set_verify_ip lib (oc_endpoint c)
                else lib_set_verify_host lib (oc_endpoint c)) c
      else c)"

definition OpenSSL_ConnectInternal ::
  "nat \<Rightarrow> 'w tls_library \<Rightarrow> 'w OpenSSLConnection \<Rightarrow> (ResponseCode \<times> 'w OpenSSLConnection) res" where
  "OpenSSL_ConnectInternal fuel lib c =
     bind_res (if \<not> oc_certificates_read_flag c then LoadCerts lib c else Inr (SUCCESS, c)) (\<lambda>(rc, c).
       if rc \<noteq> SUCCESS then Inr (rc, c)
       else
         bind_res
           (if oc_ssl_handle c = Null then
              bind_res (live (oc_ssl_context c)) (\<lambda>_.
                case lib_call (lib_ssl_new lib) c of (ok, c) \<Rightarrow> Inr (c\<lparr>oc_ssl_handle := if ok then Live else Null\<rparr>))
            else Inr c) (\<lambda>c.
         bind_res (if oc_server_verification_flag c then live (oc_ssl_handle c) else Inr ()) (\<lambda>_.
           let c = set_verification lib c in
           bind_res
             (if oc_enable_alpn c then
                bind_res (live (oc_ssl_handle c)) (\<lambda>_. Inr (lib_call (lib_set_alpn_protos lib alpn_protocol_list) c))
              else Inr (0, c)) (\<lambda>(alpn, c).
             if alpn \<noteq> 0 then Inr (NETWORK_SSL_INIT_ERROR, c)
             else
               bind_res (PerformSSLConnect fuel lib c) (\<lambda>(rc, c).
               bind_res (if rc \<noteq> SUCCESS \<and> oc_address_family c = AF_INET6
                         then PerformSSLConnect fuel lib (c\<lparr>oc_address_family := AF_INET\<rparr>) else Inr (rc, c)) (\<lambda>(rc, c).
                 if rc \<noteq> SUCCESS then Inr (rc, (lib_do (lib_ssl_free lib) c)\<lparr>oc_ssl_handle := Null\<rparr>)
                 else Inr (rc, c\<lparr>oc_is_connected := True\<rparr>)))))))"

section \<open>Writing and reading\<close>

definition to_int :: "nat \<Rightarrow> int" where
  "to_int n = sint (of_nat n :: 32 word)"

text \<open>After a partial write the whole buffer is passed again, from its beginning.\<close>

fun ssl_write_loop ::
  "nat \<Rightarrow> 'w tls_library \<Rightarrow> bytes \<Rightarrow> nat \<Rightarrow> 'w OpenSSLConnection \<Rightarrow> (ResponseCode \<times> nat \<times> 'w OpenSSLConnection) res" where
  "ssl_write_loop 0 lib buf tot c = Inl OutOfFuel"
| "ssl_write_loop (Suc fuel) lib buf tot c =
     (if oc_ssl_handle c = Null then Inr (NETWORK_SSL_WRITE_ERROR, tot, c)
      else case lib_call (lib_write lib buf (to_int (length buf))) c of
        (cur, c) \<Rightarrow>
          let error_code = lib_get_error lib cur (oc_world c) in
          case (if 0 < cur then (SUCCESS, size_add tot (nat cur), c)
                else if error_code = SSL_ERROR_WANT_WRITE then
                  (case WaitForSelect lib error_code c of
                     (r, c) \<Rightarrow> (if r = 0 then NETWORK_SSL_WRITE_TIMEOUT_ERROR
                                 else if r = -1 then NETWORK_SSL_WRITE_ERROR else SUCCESS, tot, c))
                else (NETWORK_SSL_WRITE_ERROR, tot, c)) of
            (rc, tot, c) \<Rightarrow>
              if oc_is_connected c \<and> rc = SUCCESS \<and> tot < length buf then ssl_write_loop fuel lib buf tot c
              else Inr (rc, tot, c))"

definition OpenSSL_WriteInternal ::
  "nat \<Rightarrow> 'w tls_library \<Rightarrow> bytes \<Rightarrow> nat \<Rightarrow> 'w OpenSSLConnection \<Rightarrow> (ResponseCode \<times> nat \<times> 'w OpenSSLConnection) res" where
  "OpenSSL_WriteInternal fuel lib buf size_written c =
     bind_res (ssl_write_loop fuel lib buf 0 c) (\<lambda>(rc, tot, c). Inr (rc, if rc = SUCCESS then tot else size_written, c))"

text \<open>
  \<open>tot\<close> starts at the offset; the loop compares it with the number of bytes wanted. When the socket became ready
  again, \<open>continue\<close> leads to that comparison too.
\<close>

fun ssl_read_loop ::
  "nat \<Rightarrow> 'w tls_library \<Rightarrow> nat \<Rightarrow> bytes \<Rightarrow> nat \<Rightarrow> nat \<Rightarrow> 'w OpenSSLConnection
   \<Rightarrow> (ResponseCode \<times> bytes \<times> nat \<times> 'w OpenSSLConnection) res" where
  "ssl_read_loop 0 lib sz buf tot remaining c = Inl OutOfFuel"
| "ssl_read_loop (Suc fuel) lib sz buf tot remaining c =
     (if oc_ssl_handle c = Null then Inr (NETWORK_SSL_READ_ERROR, buf, tot, c)
      else if length buf \<le> tot then Inl OutOfBounds
      else case lib_call (lib_read lib (to_int remaining)) c of
        ((cur, bs), c) \<Rightarrow>
          bind_res (if 0 < cur then bind_res (store_at buf tot bs) (\<lambda>buf.
                        Inr (SUCCESS, buf, size_add tot (nat cur), size_sub remaining (nat cur), c))
                    else case lib_get_error lib cur (oc_world c) of
                      SSL_ERROR_WANT_READ \<Rightarrow>
                        (case WaitForSelect lib SSL_ERROR_WANT_READ c of
                           (r, c) \<Rightarrow> Inr (if 0 < r then SUCCESS else if r = 0 then NETWORK_SSL_NOTHING_TO_READ
                                            else NETWORK_SSL_READ_ERROR, buf, tot, remaining, c))
                    | SSL_ERROR_ZERO_RETURN \<Rightarrow> Inr (NETWORK_SSL_CONNECTION_CLOSED_ERROR, buf, tot, remaining, c)
                    | _ \<Rightarrow> Inr (NETWORK_SSL_READ_ERROR, buf, tot, remaining, c))
            (\<lambda>(rc, buf, tot, remaining, c).
               if rc = SUCCESS \<and> oc_is_connected c \<and> tot < sz then ssl_read_loop fuel lib sz buf tot remaining c
               else Inr (rc, buf, tot, c)))"

definition OpenSSL_ReadInternal ::
  "nat \<Rightarrow> 'w tls_library \<Rightarrow> bytes \<Rightarrow> nat \<Rightarrow> nat \<Rightarrow> nat \<Rightarrow> 'w OpenSSLConnection
   \<Rightarrow> (ResponseCode \<times> bytes \<times> nat \<times> 'w OpenSSLConnection) res" where
  "OpenSSL_ReadInternal fuel lib buf buf_read_offset size_bytes_to_read size_read c =
     bind_res (ssl_read_loop fuel lib size_bytes_to_read buf buf_read_offset size_bytes_to_read c)
       (\<lambda>(rc, buf, tot, c). Inr (rc, buf, if rc = SUCCESS then tot else size_read, c))"

section \<open>Disconnecting\<close>

text \<open>
  \<open>wait_for\<close> with a predicate: the predicate is evaluated at first, after each of the wake-ups that may come before
  the timeout, and at the timeout. Nobody notifies the condition variable, so \<open>wakeups\<close> counts spurious ones.
\<close>

definition try_shutdown :: "'w tls_library \<Rightarrow> 'w OpenSSLConnection \<Rightarrow> bool \<times> 'w OpenSSLConnection" where
  "try_shutdown lib c =
     (case lib_call (lib_shutdown lib) c of
        (rc, c) \<Rightarrow>
          if rc = 1 then (True, c)
          else (False, snd (WaitForSelect lib (lib_get_error lib rc (oc_world c)) c)))"

fun shutdown_wait :: "nat \<Rightarrow> 'w tls_library \<Rightarrow> 'w OpenSSLConnection \<Rightarrow> 'w OpenSSLConnection" where
  "shutdown_wait 0 lib c = snd (try_shutdown lib c)"
| "shutdown_wait (Suc k) lib c = (case try_shutdown lib c of (fin, c) \<Rightarrow> if fin then c else shutdown_wait k lib c)"

definition OpenSSL_DisconnectInternal ::
  "nat \<Rightarrow> 'w tls_library \<Rightarrow> 'w OpenSSLConnection \<Rightarrow> ResponseCode \<times> 'w OpenSSLConnection" where
  "OpenSSL_DisconnectInternal wakeups lib c =
     (if \<not> oc_is_connected c then (SUCCESS, c)
      else
        let c = c\<lparr>oc_is_connected := False\<rparr>;
            c = (if oc_ssl_handle c \<noteq> Null
                 then (lib_do (lib_ssl_free lib) (shutdown_wait (Suc wakeups) lib c))\<lparr>oc_ssl_handle := Null\<rparr> else c)
        in (SUCCESS, close_socket lib (c\<lparr>oc_certificates_read_flag := False\<rparr>)))"

definition OpenSSLConnection_destroy :: "nat \<Rightarrow> 'w tls_library \<Rightarrow> 'w OpenSSLConnection \<Rightarrow> 'w OpenSSLConnection res" where
  "OpenSSLConnection_destroy wakeups lib c =
     (let c = (if oc_is_connected c then snd (OpenSSL_DisconnectInternal wakeups lib c) else c)
      in case oc_ssl_context c of
           Unset \<Rightarrow> Inl Uninitialised
         | Null \<Rightarrow> Inr c
         | Live \<Rightarrow> Inr (lib_do (lib_ctx_free lib) c))"

text \<open>
  The port behind the interface. Where the code would fault, or the bound on a loop is used up, the operation fails
  here and changes nothing; the theorems on the operations say when that does not happen.
\<close>

definition openssl_connection :: "nat \<Rightarrow> nat \<Rightarrow> 'w tls_library \<Rightarrow> 'w OpenSSLConnection NetworkConnection" where
  "openssl_connection fuel wakeups lib =
     \<lparr>nc_IsConnected = oc_is_connected,
      nc_ConnectInternal = (\<lambda>c. or_failed (NETWORK_SSL_CONNECT_ERROR, c) (OpenSSL_ConnectInternal fuel lib c)),
      nc_DisconnectInternal = OpenSSL_DisconnectInternal wakeups lib,
      nc_WriteInternal = (\<lambda>buf k c. or_failed (NETWORK_SSL_WRITE_ERROR, k, c) (OpenSSL_WriteInternal fuel lib buf k c)),
      nc_ReadInternal = (\<lambda>buf off sz k c.
        or_failed (NETWORK_SSL_READ_ERROR, buf, k, c) (OpenSSL_ReadInternal fuel lib buf off sz k c))\<rparr>"

section \<open>What the operations leave alone\<close>

text \<open>Most operations change nothing but the libraries' state.\<close>

definition world_only :: "'w OpenSSLConnection \<Rightarrow> 'w OpenSSLConnection \<Rightarrow> bool" where
  "world_only c c' \<longleftrightarrow> c' = c\<lparr>oc_world := oc_world c'\<rparr>"

lemma world_only_refl [simp]: "world_only c c"
  by (simp add: world_only_def)

lemma world_only_trans: "world_only c c' \<Longrightarrow> world_only c' c'' \<Longrightarrow> world_only c c''"
  unfolding world_only_def by (metis (no_types) OpenSSLConnection.surjective OpenSSLConnection.update_convs(17))

lemma world_only_fields:
  assumes "world_only c c'"
  shows "oc_is_connected c' = oc_is_connected c" "oc_ssl_handle c' = oc_ssl_handle c" "oc_ssl_context c' = oc_ssl_context c"
    "oc_server_tcp_socket_fd c' = oc_server_tcp_socket_fd c" "oc_address_family c' = oc_address_family c"
    "oc_certificates_read_flag c' = oc_certificates_read_flag c"
    "oc_tls_write_timeout c' = oc_tls_write_timeout c"
  using assms unfolding world_only_def by (metis OpenSSLConnection.select_convs OpenSSLConnection.surjective OpenSSLConnection.update_convs(17))+

lemma lib_call_world: "lib_call f c = (r, c') \<longleftrightarrow> f (oc_world c) = (r, oc_world c') \<and> world_only c c'"
  by (cases c; cases c') (auto simp: lib_call_def world_only_def split: prod.split)

lemma world_only_lib_call [simp]: "world_only c (snd (lib_call f c))"
  by (simp add: lib_call_def world_only_def split: prod.split)

lemma world_only_lib_do [simp]: "world_only c (lib_do f c)"
  by (simp add: lib_do_def world_only_def)

lemma lib_do_world [simp]: "oc_world (lib_do f c) = f (oc_world c)"
  by (simp add: lib_do_def)

text \<open>
  The calls an operation makes, by their kind: what a law says of the calls of other kinds carries over to the
  operation.
\<close>

datatype lib_op = OpContext | OpLoadCA | OpSocket | OpClose | OpRead | OpWrite | OpOther

inductive lib_step :: "'w tls_library \<Rightarrow> lib_op \<Rightarrow> 'w \<Rightarrow> 'w \<Rightarrow> bool" for lib :: "'w tls_library" where
  step_library_init: "lib_library_init lib w = (r, w') \<Longrightarrow> lib_step lib OpOther w w'"
| step_ctx_new: "lib_ctx_new lib w = (b, w') \<Longrightarrow> lib_step lib OpContext w w'"
| step_load_CA: "lib_load_verify_locations lib p w = (b, w') \<Longrightarrow> lib_step lib OpLoadCA w w'"
| step_certificate: "lib_use_certificate_chain_file lib p w = (b, w') \<Longrightarrow> lib_step lib OpOther w w'"
| step_private_key: "lib_use_private_key_file lib p w = (r, w') \<Longrightarrow> lib_step lib OpOther w w'"
| step_ssl_new: "lib_ssl_new lib w = (b, w') \<Longrightarrow> lib_step lib OpOther w w'"
| step_ssl_free: "lib_step lib OpOther w (lib_ssl_free lib w)"
| step_verify_ip: "lib_step lib OpOther w (lib_set_verify_ip lib a w)"
| step_verify_host: "lib_step lib OpOther w (lib_set_verify_host lib a w)"
| step_alpn: "lib_set_alpn_protos lib p w = (r, w') \<Longrightarrow> lib_step lib OpOther w w'"
| step_verify_peer: "lib_step lib OpOther w (lib_set_verify_peer lib w)"
| step_socket: "lib_socket lib f w = (r, w') \<Longrightarrow> lib_step lib OpSocket w w'"
| step_close: "lib_step lib OpClose w (lib_close lib fd w)"
| step_getaddrinfo: "lib_getaddrinfo lib f a w = (r, w') \<Longrightarrow> lib_step lib OpOther w w'"
| step_connect: "lib_connect lib fd a port w = (r, w') \<Longrightarrow> lib_step lib OpOther w w'"
| step_get_flags: "lib_get_flags lib fd w = (r, w') \<Longrightarrow> lib_step lib OpOther w w'"
| step_set_nonblocking: "lib_set_nonblocking lib fd fl w = (r, w') \<Longrightarrow> lib_step lib OpOther w w'"
| step_set_fd: "lib_step lib OpOther w (lib_set_fd lib fd w)"
| step_ssl_connect: "lib_ssl_connect lib w = (r, w') \<Longrightarrow> lib_step lib OpOther w w'"
| step_select: "lib_select lib b fd t w = (r, w') \<Longrightarrow> lib_step lib OpOther w w'"
| step_write: "lib_write lib buf n w = (r, w') \<Longrightarrow> lib_step lib OpWrite w w'"
| step_read: "lib_read lib n w = (r, w') \<Longrightarrow> lib_step lib OpRead w w'"
| step_shutdown: "lib_shutdown lib w = (r, w') \<Longrightarrow> lib_step lib OpOther w w'"

lemmas lib_steps = lib_step.intros

definition lib_run :: "'w tls_library \<Rightarrow> lib_op set \<Rightarrow> 'w OpenSSLConnection \<Rightarrow> 'w OpenSSLConnection \<Rightarrow> bool" where
  "lib_run lib A c c' \<longleftrightarrow> world_only c c' \<and> (\<lambda>w w'. \<exists>op \<in> A. lib_step lib op w w')\<^sup>*\<^sup>* (oc_world c) (oc_world c')"

lemma lib_run_refl [simp]: "lib_run lib A c c"
  by (simp add: lib_run_def)

lemma lib_run_trans: "lib_run lib A c c' \<Longrightarrow> lib_run lib A c' c'' \<Longrightarrow> lib_run lib A c c''"
  unfolding lib_run_def by (meson rtranclp_trans world_only_trans)

lemma lib_run_call: "lib_call f c = (r, c') \<Longrightarrow> (\<And>w r w'. f w = (r, w') \<Longrightarrow> lib_step lib op w w') \<Longrightarrow> op \<in> A \<Longrightarrow> lib_run lib A c c'"
  unfolding lib_run_def lib_call_world by blast

lemma lib_run_do: "(\<And>w. lib_step lib op w (f w)) \<Longrightarrow> op \<in> A \<Longrightarrow> lib_run lib A c (lib_do f c)"
  unfolding lib_run_def by auto

lemma lib_run_world_only: "lib_run lib A c c' \<Longrightarrow> world_only c c'"
  by (simp add: lib_run_def)

lemma lib_run_keeps:
  assumes "lib_run lib A c c'" "\<And>op w w'. op \<in> A \<Longrightarrow> lib_step lib op w w' \<Longrightarrow> P w \<Longrightarrow> P w'" "P (oc_world c)"
  shows "P (oc_world c')"
proof -
  have "P w'" if "(\<lambda>w w'. \<exists>op \<in> A. lib_step lib op w w')\<^sup>*\<^sup>* w w'" "P w" for w w'
    using that by (induction rule: rtranclp_induct) (use assms(2) in blast)+
  with assms show ?thesis unfolding lib_run_def by blast
qed

lemma lib_run_mono: "lib_run lib A c c' \<Longrightarrow> A \<subseteq> B \<Longrightarrow> lib_run lib B c c'"
  unfolding lib_run_def by (auto elim!: rtranclp_mono [THEN predicate2D, rotated])

lemma call_runs:
  "lib_call (lib_library_init lib) c = (r0, c') \<Longrightarrow> OpOther \<in> A \<Longrightarrow> lib_run lib A c c'"
  "lib_call (lib_ctx_new lib) c = (r1, c') \<Longrightarrow> OpContext \<in> A \<Longrightarrow> lib_run lib A c c'"
  "lib_call (lib_load_verify_locations lib p) c = (r2, c') \<Longrightarrow> OpLoadCA \<in> A \<Longrightarrow> lib_run lib A c c'"
  "lib_call (lib_use_certificate_chain_file lib p) c = (r3, c') \<Longrightarrow> OpOther \<in> A \<Longrightarrow> lib_run lib A c c'"
  "lib_call (lib_use_private_key_file lib p) c = (r4, c') \<Longrightarrow> OpOther \<in> A \<Longrightarrow> lib_run lib A c c'"
  "lib_call (lib_ssl_new lib) c = (r5, c') \<Longrightarrow> OpOther \<in> A \<Longrightarrow> lib_run lib A c c'"
  "lib_call (lib_set_alpn_protos lib p) c = (r6, c') \<Longrightarrow> OpOther \<in> A \<Longrightarrow> lib_run lib A c c'"
  "lib_call (lib_socket lib f) c = (r7, c') \<Longrightarrow> OpSocket \<in> A \<Longrightarrow> lib_run lib A c c'"
  "lib_call (lib_getaddrinfo lib f p) c = (r8, c') \<Longrightarrow> OpOther \<in> A \<Longrightarrow> lib_run lib A c c'"
  "lib_call (lib_connect lib fd a port) c = (r9, c') \<Longrightarrow> OpOther \<in> A \<Longrightarrow> lib_run lib A c c'"
  "lib_call (lib_get_flags lib fd) c = (r10, c') \<Longrightarrow> OpOther \<in> A \<Longrightarrow> lib_run lib A c c'"
  "lib_call (lib_set_nonblocking lib fd fl) c = (r11, c') \<Longrightarrow> OpOther \<in> A \<Longrightarrow> lib_run lib A c c'"
  "lib_call (lib_ssl_connect lib) c = (r12, c') \<Longrightarrow> OpOther \<in> A \<Longrightarrow> lib_run lib A c c'"
  "lib_call (lib_select lib b fd t) c = (r13, c') \<Longrightarrow> OpOther \<in> A \<Longrightarrow> lib_run lib A c c'"
  "lib_call (lib_write lib buf n) c = (r14, c') \<Longrightarrow> OpWrite \<in> A \<Longrightarrow> lib_run lib A c c'"
  "lib_call (lib_read lib n) c = (r15, c') \<Longrightarrow> OpRead \<in> A \<Longrightarrow> lib_run lib A c c'"
  "lib_call (lib_shutdown lib) c = (r16, c') \<Longrightarrow> OpOther \<in> A \<Longrightarrow> lib_run lib A c c'"
  by (erule lib_run_call, erule lib_steps, assumption)+

lemma do_runs:
  "OpOther \<in> A \<Longrightarrow> lib_run lib A c (lib_do (lib_ssl_free lib) c)"
  "OpOther \<in> A \<Longrightarrow> lib_run lib A c (lib_do (lib_set_verify_ip lib p) c)"
  "OpOther \<in> A \<Longrightarrow> lib_run lib A c (lib_do (lib_set_verify_host lib p) c)"
  "OpOther \<in> A \<Longrightarrow> lib_run lib A c (lib_do (lib_set_verify_peer lib) c)"
  "OpClose \<in> A \<Longrightarrow> lib_run lib A c (lib_do (lib_close lib fd) c)"
  "OpOther \<in> A \<Longrightarrow> lib_run lib A c (lib_do (lib_set_fd lib fd) c)"
  by (rule lib_run_do, rule lib_steps, assumption)+

lemma WaitForSelect_run: "WaitForSelect lib e c = (r, c') \<Longrightarrow> OpOther \<in> A \<Longrightarrow> lib_run lib A c c'"
  by (cases e) (auto simp: WaitForSelect_def intro: call_runs)

lemma connect_loop_run: "connect_loop lib fd port as c = (r, c') \<Longrightarrow> OpOther \<in> A \<Longrightarrow> lib_run lib A c c'"
proof (induction as arbitrary: c)
  case (Cons a as)
  obtain st c1 where s: "lib_call (lib_connect lib fd a port) c = (st, c1)" by (cases "lib_call (lib_connect lib fd a port) c")
  then have "lib_run lib A c c1" using Cons.prems(2) by (rule call_runs)
  with Cons s show ?case by (auto split: if_splits intro: lib_run_trans)
qed simp

lemma ConnectTCPSocket_run:
  assumes "ConnectTCPSocket lib c = (r, c')" "OpOther \<in> A"
  shows "lib_run lib A c c'"
proof -
  obtain err as c1 where g: "lib_call (lib_getaddrinfo lib (oc_address_family c) (oc_endpoint c)) c = ((err, as), c1)"
    by (metis prod.collapse)
  have run: "lib_run lib A c c1" using g assms(2) by (rule call_runs)
  obtain st c2 where l: "connect_loop lib (oc_server_tcp_socket_fd c1) (oc_endpoint_port c1) as c1 = (st, c2)"
    by fastforce
  have "lib_run lib A c1 c2" by (rule connect_loop_run [OF l assms(2)])
  then show ?thesis using assms(1) run g l by (auto simp: ConnectTCPSocket_def split: if_splits intro: lib_run_trans)
qed

lemma SetSocketToNonBlocking_run:
  assumes "SetSocketToNonBlocking lib c = (r, c')" "OpOther \<in> A"
  shows "lib_run lib A c c'"
proof -
  obtain fl c1 where f: "lib_call (lib_get_flags lib (oc_server_tcp_socket_fd c)) c = (fl, c1)" by fastforce
  obtain st c2 where n: "lib_call (lib_set_nonblocking lib (oc_server_tcp_socket_fd c1) fl) c1 = (st, c2)" by fastforce
  have "lib_run lib A c c2"
    by (rule lib_run_trans [OF call_runs(11) [OF f assms(2)] call_runs(12) [OF n assms(2)]])
  then show ?thesis using assms(1) f n by (auto simp: SetSocketToNonBlocking_def)
qed

lemma AttemptConnect_run: "AttemptConnect fuel lib c = Inr (r, c') \<Longrightarrow> OpOther \<in> A \<Longrightarrow> lib_run lib A c c'"
proof (induction fuel arbitrary: c)
  case (Suc fuel)
  obtain r1 c1 where s: "lib_call (lib_ssl_connect lib) c = (r1, c1)" by (cases "lib_call (lib_ssl_connect lib) c")
  then have run1: "lib_run lib A c c1" using Suc.prems(2) by (rule call_runs)
  obtain r2 c2 where w: "WaitForSelect lib (lib_get_error lib r1 (oc_world c1)) c1 = (r2, c2)" by fastforce
  then have "lib_run lib A c1 c2" using Suc.prems by (auto intro: WaitForSelect_run)
  with run1 have "lib_run lib A c c2" by (rule lib_run_trans)
  with run1 Suc s w show ?case by (auto simp: Let_def split: if_splits intro: lib_run_trans)
qed simp

section \<open>What a connection attempt ends in\<close>

lemma verified_SUCCESS:
  "verified lib rc c = SUCCESS \<longleftrightarrow>
     rc = SUCCESS \<and> lib_verify_ok lib (oc_world c) \<and> lib_peer_certificate lib (oc_world c)"
  by (simp add: verified_def)

lemma PerformSSLConnect_cases:
  assumes "PerformSSLConnect fuel lib c = Inr (rc, c')"
  obtains (no_socket) c1 where "lib_call (lib_socket lib (oc_address_family c)) (lib_do (lib_set_verify_peer lib) c) = (-1, c1)"
      "rc \<noteq> SUCCESS" "c' = c1\<lparr>oc_server_tcp_socket_fd := -1\<rparr>"
  | (failed) fd c1 c2 where "lib_call (lib_socket lib (oc_address_family c)) (lib_do (lib_set_verify_peer lib) c) = (fd, c1)"
      "fd \<noteq> -1" "rc \<noteq> SUCCESS" "lib_run lib {OpOther} (c1\<lparr>oc_server_tcp_socket_fd := fd\<rparr>) c2" "c' = close_socket lib c2"
  | (connected) fd c1 where "lib_call (lib_socket lib (oc_address_family c)) (lib_do (lib_set_verify_peer lib) c) = (fd, c1)"
      "fd \<noteq> -1" "rc = SUCCESS" "lib_run lib {OpOther} (c1\<lparr>oc_server_tcp_socket_fd := fd\<rparr>) c'"
      "lib_verify_ok lib (oc_world c')" "lib_peer_certificate lib (oc_world c')"
proof -
  obtain fd c1 where s: "lib_call (lib_socket lib (oc_address_family c)) (lib_do (lib_set_verify_peer lib) c) = (fd, c1)"
    by fastforce
  have live: "live (oc_ssl_handle c) = Inr ()" using assms by (auto simp: PerformSSLConnect_def bind_res_Inr_iff)
  define c2 where "c2 = c1\<lparr>oc_server_tcp_socket_fd := fd\<rparr>"
  obtain rc3 c3 where t: "ConnectTCPSocket lib c2 = (rc3, c3)" by fastforce
  have run3: "lib_run lib {OpOther} c2 c3" using t by (rule ConnectTCPSocket_run) simp
  define c4 where "c4 = lib_do (lib_set_fd lib fd) c3"
  have "lib_run lib {OpOther} c3 c4" unfolding c4_def by (rule do_runs) simp
  with run3 have run4: "lib_run lib {OpOther} c2 c4" by (rule lib_run_trans)
  obtain rc5 c5 where n: "SetSocketToNonBlocking lib c4 = (rc5, c5)" by fastforce
  then have "lib_run lib {OpOther} c4 c5" by (rule SetSocketToNonBlocking_run) simp
  with run4 have run5: "lib_run lib {OpOther} c2 c5" by (rule lib_run_trans)
  have eq: "(if fd = -1 then Inr (NETWORK_TCP_SETUP_ERROR, c2) else if rc3 \<noteq> SUCCESS then Inr (rc3, close_socket lib c3)
      else bind_res (if rc5 \<noteq> SUCCESS then Inr (rc5, c5)
             else bind_res (AttemptConnect fuel lib c5) (\<lambda>(rc, c). Inr (verified lib rc c, c)))
           (\<lambda>(rc, c). Inr (rc, if rc \<noteq> SUCCESS then close_socket lib c else c))) = Inr (rc, c')"
    using assms t n by (simp add: PerformSSLConnect_def live s c2_def c4_def Let_def cong: if_cong)
  show thesis
  proof (cases "fd = -1")
    case True
    with eq s show thesis by (intro no_socket [of c1]) (auto simp: c2_def Let_def)
  next
    case fd: False
    show thesis
    proof (cases "rc3 = SUCCESS")
      case False
      with eq fd run3 show thesis by (intro failed [OF s fd _ run3 [unfolded c2_def]]) (auto simp: Let_def)
    next
      case rc3: True
      show thesis
      proof (cases "rc5 = SUCCESS")
        case False
        with eq fd rc3 show thesis by (intro failed [OF s fd _ run5 [unfolded c2_def]]) (auto simp: Let_def)
      next
        case rc5: True
        with eq fd rc3 obtain rc6 where a: "\<exists>c6. AttemptConnect fuel lib c5 = Inr (rc6, c6) \<and> rc = verified lib rc6 c6 \<and>
            c' = (if rc \<noteq> SUCCESS then close_socket lib c6 else c6)"
          by (auto simp: Let_def bind_res_Inr_iff)
        then obtain c6 where a: "AttemptConnect fuel lib c5 = Inr (rc6, c6)" "rc = verified lib rc6 c6"
            "c' = (if rc \<noteq> SUCCESS then close_socket lib c6 else c6)" by blast
        have "lib_run lib {OpOther} c5 c6" using a(1) by (rule AttemptConnect_run) simp
        with run5 have run6: "lib_run lib {OpOther} c2 c6" by (rule lib_run_trans)
        show thesis
        proof (cases "rc = SUCCESS")
          case True
          with a have "verified lib rc6 c6 = SUCCESS" "c' = c6" by simp_all
          with True run6 show thesis by (intro connected [OF s fd]) (simp_all add: c2_def verified_SUCCESS)
        next
          case False
          with a show thesis by (intro failed [OF s fd _ run6 [unfolded c2_def]]) simp_all
        qed
      qed
    qed
  qed
qed

lemma PerformSSLConnect_fields:
  assumes "PerformSSLConnect fuel lib c = Inr (rc, c')"
  shows "oc_is_connected c' = oc_is_connected c" "oc_ssl_handle c' = oc_ssl_handle c" "oc_ssl_handle c = Live"
proof -
  show "oc_ssl_handle c = Live"
    using assms by (auto simp: PerformSSLConnect_def bind_res_Inr_iff live_def split: pointer.splits)
  have pre: "oc_is_connected c1 = oc_is_connected c \<and> oc_ssl_handle c1 = oc_ssl_handle c"
    if "lib_call (lib_socket lib (oc_address_family c)) (lib_do (lib_set_verify_peer lib) c) = (fd, c1)" for fd c1
  proof -
    have "world_only (lib_do (lib_set_verify_peer lib) c) c1" using that by (simp add: lib_call_world)
    then have "world_only c c1" by (rule world_only_trans [OF world_only_lib_do])
    from world_only_fields [OF this] show ?thesis by simp
  qed
  have "oc_is_connected c' = oc_is_connected c \<and> oc_ssl_handle c' = oc_ssl_handle c"
    using assms
  proof (cases rule: PerformSSLConnect_cases)
    case (no_socket c1)
    with pre show ?thesis by simp
  next
    case (failed fd c1 c2)
    from world_only_fields [OF lib_run_world_only [OF failed(4)]] pre [OF failed(1)] failed(5)
    show ?thesis by (simp add: close_socket_def lib_do_def)
  next
    case (connected fd c1)
    from world_only_fields [OF lib_run_world_only [OF connected(4)]] pre [OF connected(1)]
    show ?thesis by simp
  qed
  then show "oc_is_connected c' = oc_is_connected c" "oc_ssl_handle c' = oc_ssl_handle c" by simp_all
qed

text \<open>
  What the system documents of sockets: \<open>socket\<close> gives a descriptor that was not open, \<open>close\<close> closes the one it is
  given, and nothing else opens or closes one.
\<close>

definition socket_laws :: "'w tls_library \<Rightarrow> ('w \<Rightarrow> int set) \<Rightarrow> bool" where
  "socket_laws lib open_fds \<longleftrightarrow>
     (\<forall>f w fd w'. lib_socket lib f w = (fd, w') \<longrightarrow>
        (if fd = -1 then open_fds w' = open_fds w
         else fd \<notin> open_fds w \<and> open_fds w' = insert fd (open_fds w))) \<and>
     (\<forall>fd w. open_fds (lib_close lib fd w) = open_fds w - {fd}) \<and>
     (\<forall>op w w'. lib_step lib op w w' \<and> op \<notin> {OpSocket, OpClose} \<longrightarrow> open_fds w' = open_fds w)"

lemma socket_laws_socket:
  assumes "socket_laws lib open_fds" "lib_socket lib f w = (fd, w')"
  shows "if fd = -1 then open_fds w' = open_fds w else fd \<notin> open_fds w \<and> open_fds w' = insert fd (open_fds w)"
  using assms(1) [unfolded socket_laws_def, THEN conjunct1, rule_format, OF assms(2)] .

lemma socket_laws_close: "socket_laws lib open_fds \<Longrightarrow> open_fds (lib_close lib fd w) = open_fds w - {fd}"
  by (simp add: socket_laws_def)

lemma socket_laws_other:
  assumes "socket_laws lib open_fds" "lib_step lib op w w'" "op \<noteq> OpSocket" "op \<noteq> OpClose"
  shows "open_fds w' = open_fds w"
  using assms(1) [unfolded socket_laws_def, THEN conjunct2, THEN conjunct2, rule_format, of op w w'] assms(2-4) by simp

lemma socket_laws_run:
  assumes "socket_laws lib open_fds" "lib_run lib A c c'" "A \<inter> {OpSocket, OpClose} = {}"
  shows "open_fds (oc_world c') = open_fds (oc_world c)"
proof (rule lib_run_keeps [OF assms(2), where P = "\<lambda>w. open_fds w = open_fds (oc_world c)"])
  fix op w w' assume "op \<in> A" "lib_step lib op w w'" "open_fds w = open_fds (oc_world c)"
  moreover have "op \<noteq> OpSocket" "op \<noteq> OpClose" using \<open>op \<in> A\<close> assms(3) by blast+
  ultimately show "open_fds w' = open_fds (oc_world c)" using socket_laws_other [OF assms(1)] by simp
qed simp

lemma PerformSSLConnect_sockets:
  assumes "socket_laws lib open_fds" "PerformSSLConnect fuel lib c = Inr (rc, c')"
  shows "if rc = SUCCESS then oc_server_tcp_socket_fd c' \<notin> open_fds (oc_world c) \<and>
      open_fds (oc_world c') = insert (oc_server_tcp_socket_fd c') (open_fds (oc_world c))
    else open_fds (oc_world c') = open_fds (oc_world c)"
proof -
  have verify: "open_fds (lib_set_verify_peer lib w) = open_fds w" for w
    using socket_laws_other [OF assms(1) step_verify_peer] by simp
  have sock: "if fd = -1 then open_fds (oc_world c1) = open_fds (oc_world c)
      else fd \<notin> open_fds (oc_world c) \<and> open_fds (oc_world c1) = insert fd (open_fds (oc_world c))"
    if "lib_call (lib_socket lib (oc_address_family c)) (lib_do (lib_set_verify_peer lib) c) = (fd, c1)" for fd c1
  proof -
    have "lib_socket lib (oc_address_family c) (lib_set_verify_peer lib (oc_world c)) = (fd, oc_world c1)"
      using that by (simp add: lib_call_world)
    from socket_laws_socket [OF assms(1) this] show ?thesis by (simp add: verify split: if_splits)
  qed
  from assms(2) show ?thesis
  proof (cases rule: PerformSSLConnect_cases)
    case (no_socket c1)
    with sock [OF no_socket(1)] show ?thesis by simp
  next
    case (failed fd c1 c2)
    have "open_fds (oc_world c2) = open_fds (oc_world c1)"
      using socket_laws_run [OF assms(1) failed(4)] by simp
    moreover have "oc_server_tcp_socket_fd c2 = fd"
      using world_only_fields [OF lib_run_world_only [OF failed(4)]] by simp
    ultimately show ?thesis
      using sock [OF failed(1)] failed(2,3,5) by (simp add: close_socket_def socket_laws_close [OF assms(1)])
  next
    case (connected fd c1)
    have "open_fds (oc_world c') = open_fds (oc_world c1)"
      using socket_laws_run [OF assms(1) connected(4)] by simp
    moreover have "oc_server_tcp_socket_fd c' = fd"
      using world_only_fields [OF lib_run_world_only [OF connected(4)]] by simp
    ultimately show ?thesis using sock [OF connected(1)] connected(2,3) by simp
  qed
qed

text \<open>Before the sockets: certificates are loaded and the handle is made, nothing else changes.\<close>

definition prepares :: "'w tls_library \<Rightarrow> lib_op set \<Rightarrow> 'w OpenSSLConnection \<Rightarrow> 'w OpenSSLConnection \<Rightarrow> bool" where
  "prepares lib A c c' \<longleftrightarrow>
     (\<exists>x y. (y = Unset \<longrightarrow> oc_ssl_handle c = Unset) \<and>
        lib_run lib A (c\<lparr>oc_certificates_read_flag := x, oc_ssl_handle := y\<rparr>) c')"

lemma lib_run_fields:
  assumes "lib_run lib A c c'"
  shows "lib_run lib A (c\<lparr>oc_certificates_read_flag := x, oc_ssl_handle := y\<rparr>) (c'\<lparr>oc_certificates_read_flag := x, oc_ssl_handle := y\<rparr>)"
proof -
  have "c' = c\<lparr>oc_world := oc_world c'\<rparr>" using assms by (simp add: lib_run_def world_only_def)
  then have "world_only (c\<lparr>oc_certificates_read_flag := x, oc_ssl_handle := y\<rparr>) (c'\<lparr>oc_certificates_read_flag := x, oc_ssl_handle := y\<rparr>)"
    unfolding world_only_def by (cases c; cases c') simp
  with assms show ?thesis by (simp add: lib_run_def)
qed

lemma prepares_run: "lib_run lib A c c' \<Longrightarrow> prepares lib A c c'"
  unfolding prepares_def
  by (rule exI [of _ "oc_certificates_read_flag c"], rule exI [of _ "oc_ssl_handle c"]) simp

lemma prepares_trans:
  assumes "prepares lib A c c'" "prepares lib A c' c''"
  shows "prepares lib A c c''"
proof -
  obtain x y where 1: "y = Unset \<longrightarrow> oc_ssl_handle c = Unset"
      "lib_run lib A (c\<lparr>oc_certificates_read_flag := x, oc_ssl_handle := y\<rparr>) c'"
    using assms(1) unfolding prepares_def by blast
  obtain x' y' where 2: "y' = Unset \<longrightarrow> oc_ssl_handle c' = Unset"
      "lib_run lib A (c'\<lparr>oc_certificates_read_flag := x', oc_ssl_handle := y'\<rparr>) c''"
    using assms(2) unfolding prepares_def by blast
  have "lib_run lib A (c\<lparr>oc_certificates_read_flag := x', oc_ssl_handle := y'\<rparr>) (c'\<lparr>oc_certificates_read_flag := x', oc_ssl_handle := y'\<rparr>)"
    using lib_run_fields [OF 1(2), where x = x' and y = y'] by simp
  from lib_run_trans [OF this 2(2)] have "lib_run lib A (c\<lparr>oc_certificates_read_flag := x', oc_ssl_handle := y'\<rparr>) c''" .
  moreover have "y' = Unset \<longrightarrow> oc_ssl_handle c = Unset"
    using 1 2(1) world_only_fields(2) [OF lib_run_world_only [OF 1(2)]] by simp
  ultimately show ?thesis unfolding prepares_def by blast
qed

lemma prepares_set_flag: "prepares lib A c (c\<lparr>oc_certificates_read_flag := x\<rparr>)"
  unfolding prepares_def by (rule exI [of _ x], rule exI [of _ "oc_ssl_handle c"]) simp

lemma prepares_set_handle: "y \<noteq> Unset \<Longrightarrow> prepares lib A c (c\<lparr>oc_ssl_handle := y\<rparr>)"
  unfolding prepares_def by (rule exI [of _ "oc_certificates_read_flag c"], rule exI [of _ y]) simp

lemma prepares_mono: "prepares lib A c c' \<Longrightarrow> A \<subseteq> B \<Longrightarrow> prepares lib B c c'"
  unfolding prepares_def using lib_run_mono by blast

lemma prepares_fields:
  assumes "prepares lib A c c'"
  shows "oc_is_connected c' = oc_is_connected c" "oc_address_family c' = oc_address_family c"
    "oc_server_tcp_socket_fd c' = oc_server_tcp_socket_fd c" "oc_ssl_handle c \<noteq> Unset \<Longrightarrow> oc_ssl_handle c' \<noteq> Unset"
proof -
  obtain x y where p: "y = Unset \<longrightarrow> oc_ssl_handle c = Unset"
      "lib_run lib A (c\<lparr>oc_certificates_read_flag := x, oc_ssl_handle := y\<rparr>) c'"
    using assms unfolding prepares_def by blast
  from world_only_fields [OF lib_run_world_only [OF p(2)]] p(1)
  show "oc_is_connected c' = oc_is_connected c" "oc_address_family c' = oc_address_family c"
    "oc_server_tcp_socket_fd c' = oc_server_tcp_socket_fd c" "oc_ssl_handle c \<noteq> Unset \<Longrightarrow> oc_ssl_handle c' \<noteq> Unset" by auto
qed

lemma prepares_keeps:
  assumes "prepares lib A c c'" "\<And>op w w'. op \<in> A \<Longrightarrow> lib_step lib op w w' \<Longrightarrow> P w \<Longrightarrow> P w'" "P (oc_world c)"
  shows "P (oc_world c')"
proof -
  obtain x y where "lib_run lib A (c\<lparr>oc_certificates_read_flag := x, oc_ssl_handle := y\<rparr>) c'"
    using assms(1) unfolding prepares_def by blast
  from lib_run_keeps [OF this assms(2)] assms(3) show ?thesis by simp
qed

lemma LoadCerts_prepares:
  assumes "LoadCerts lib c = Inr (rc, c')" "OpOther \<in> A" "OpLoadCA \<in> A"
  shows "prepares lib A c c'"
proof -
  obtain ok1 c1 where l: "lib_call (lib_load_verify_locations lib (oc_root_ca_location c)) c = (ok1, c1)" by fastforce
  obtain ok2 c2 where d: "lib_call (lib_use_certificate_chain_file lib (oc_device_cert_location c1)) c1 = (ok2, c2)" by fastforce
  obtain r3 c3 where k: "lib_call (lib_use_private_key_file lib (oc_device_private_key_location c2)) c2 = (r3, c3)" by fastforce
  have 1: "prepares lib A c c1" using l assms(3) by (intro prepares_run) (rule call_runs)
  have 2: "prepares lib A c c2" by (rule prepares_trans [OF 1 prepares_run [OF call_runs(4) [OF d assms(2)]]])
  have 3: "prepares lib A c c3" by (rule prepares_trans [OF 2 prepares_run [OF call_runs(5) [OF k assms(2)]]])
  have "c' \<in> {c1, c2, c3, c3\<lparr>oc_certificates_read_flag := True\<rparr>, c1\<lparr>oc_certificates_read_flag := True\<rparr>}"
    using assms(1) l d k by (auto simp: LoadCerts_def bind_res_Inr_iff split: if_splits)
  then show ?thesis using 1 2 3 by (auto intro: prepares_trans [OF _ prepares_set_flag])
qed

lemma set_verification_run: "OpOther \<in> A \<Longrightarrow> lib_run lib A c (set_verification lib c)"
  by (simp add: set_verification_def do_runs)

lemma OpenSSL_ConnectInternal_cases:
  assumes "OpenSSL_ConnectInternal fuel lib c = Inr (rc, c')"
    and A: "OpOther \<in> A" "\<not> oc_certificates_read_flag c \<longrightarrow> OpLoadCA \<in> A"
  obtains (early) "rc \<noteq> SUCCESS" "prepares lib A c c'"
  | (tried) c1 rc2 c2 rc3 c3 where "prepares lib A c c1" "PerformSSLConnect fuel lib c1 = Inr (rc2, c2)"
      "if rc2 \<noteq> SUCCESS \<and> oc_address_family c2 = AF_INET6
       then PerformSSLConnect fuel lib (c2\<lparr>oc_address_family := AF_INET\<rparr>) = Inr (rc3, c3) else rc3 = rc2 \<and> c3 = c2"
      "rc = rc3"
      "c' = (if rc3 \<noteq> SUCCESS then (lib_do (lib_ssl_free lib) c3)\<lparr>oc_ssl_handle := Null\<rparr> else c3\<lparr>oc_is_connected := True\<rparr>)"
proof -
  obtain rc1 c1 where load: "(if \<not> oc_certificates_read_flag c then LoadCerts lib c else Inr (SUCCESS, c)) = Inr (rc1, c1)"
    using assms(1) by (auto simp: OpenSSL_ConnectInternal_def bind_res_Inr_iff)
  have p1: "prepares lib A c c1"
    using load A LoadCerts_prepares [of lib c rc1 c1 A] by (auto split: if_splits intro: prepares_run)
  show thesis
  proof (cases "rc1 = SUCCESS")
    case False
    with assms(1) load p1 show thesis by (intro early) (auto simp: OpenSSL_ConnectInternal_def)
  next
    case rc1: True
    obtain c2 where handle: "(if oc_ssl_handle c1 = Null then
          bind_res (live (oc_ssl_context c1)) (\<lambda>_.
            case lib_call (lib_ssl_new lib) c1 of (ok, c) \<Rightarrow> Inr (c\<lparr>oc_ssl_handle := if ok then Live else Null\<rparr>))
        else Inr c1) = Inr c2"
      using assms(1) load rc1 by (auto simp: OpenSSL_ConnectInternal_def bind_res_Inr_iff cong: if_cong)
    have p2: "prepares lib A c1 c2"
    proof (cases "oc_ssl_handle c1 = Null")
      case True
      obtain ok c4 where n: "lib_call (lib_ssl_new lib) c1 = (ok, c4)" by fastforce
      then have "prepares lib A c1 c4" using A by (intro prepares_run) (rule call_runs)
      moreover have "c2 = c4\<lparr>oc_ssl_handle := if ok then Live else Null\<rparr>" using handle True n by (auto simp: bind_res_Inr_iff)
      ultimately show ?thesis by (auto intro: prepares_trans [OF _ prepares_set_handle])
    next
      case False
      with handle show ?thesis by (auto intro: prepares_run)
    qed
    define c3 where "c3 = set_verification lib c2"
    have p3: "prepares lib A c2 c3" unfolding c3_def using A by (intro prepares_run set_verification_run)
    obtain alpn c4 where a: "(if oc_enable_alpn c3 then bind_res (live (oc_ssl_handle c3)) (\<lambda>_.
          Inr (lib_call (lib_set_alpn_protos lib alpn_protocol_list) c3)) else Inr (0, c3)) = Inr (alpn, c4)"
      using assms(1) load rc1 handle
      by (auto simp: OpenSSL_ConnectInternal_def bind_res_Inr_iff c3_def Let_def cong: if_cong)
    have p4: "prepares lib A c3 c4"
    proof (cases "oc_enable_alpn c3")
      case True
      then have "lib_call (lib_set_alpn_protos lib alpn_protocol_list) c3 = (alpn, c4)" using a by (auto simp: bind_res_Inr_iff)
      then show ?thesis using A by (intro prepares_run) (rule call_runs)
    next
      case False
      with a show ?thesis by (auto intro: prepares_run)
    qed
    have prep: "prepares lib A c c4"
      by (rule prepares_trans [OF p1 prepares_trans [OF p2 prepares_trans [OF p3 p4]]])
    have rest: "(if alpn \<noteq> 0 then Inr (NETWORK_SSL_INIT_ERROR, c4)
        else bind_res (PerformSSLConnect fuel lib c4) (\<lambda>(rc, c).
          bind_res (if rc \<noteq> SUCCESS \<and> oc_address_family c = AF_INET6
                    then PerformSSLConnect fuel lib (c\<lparr>oc_address_family := AF_INET\<rparr>) else Inr (rc, c)) (\<lambda>(rc, c).
            if rc \<noteq> SUCCESS then Inr (rc, (lib_do (lib_ssl_free lib) c)\<lparr>oc_ssl_handle := Null\<rparr>)
            else Inr (rc, c\<lparr>oc_is_connected := True\<rparr>)))) = Inr (rc, c')"
      using assms(1) load rc1 handle a
      by (auto simp: OpenSSL_ConnectInternal_def bind_res_Inr_iff c3_def Let_def cong: if_cong)
    show thesis
    proof (cases "alpn = 0")
      case False
      with rest prep show thesis by (intro early) auto
    next
      case True
      with rest obtain rc2 c5 where c5: "PerformSSLConnect fuel lib c4 = Inr (rc2, c5)"
        by (auto simp: bind_res_Inr_iff)
      with rest True obtain rc3 c6 where c6: "(if rc2 \<noteq> SUCCESS \<and> oc_address_family c5 = AF_INET6
          then PerformSSLConnect fuel lib (c5\<lparr>oc_address_family := AF_INET\<rparr>) else Inr (rc2, c5)) = Inr (rc3, c6)"
        by (auto simp: bind_res_Inr_iff)
      show thesis
        by (rule tried [OF prep c5, of rc3 c6]) (use rest True c5 c6 in \<open>auto split: if_splits\<close>)
    qed
  qed
qed

lemma connect_verified:
  assumes "OpenSSL_ConnectInternal fuel lib c = Inr (SUCCESS, c')"
  shows "oc_is_connected c' \<and> oc_ssl_handle c' = Live \<and>
    lib_verify_ok lib (oc_world c') \<and> lib_peer_certificate lib (oc_world c')"
proof -
  have one: "oc_ssl_handle c2 = Live \<and> lib_verify_ok lib (oc_world c2) \<and> lib_peer_certificate lib (oc_world c2)"
    if "PerformSSLConnect fuel lib c1 = Inr (SUCCESS, c2)" for c1 c2
  proof -
    have "lib_verify_ok lib (oc_world c2) \<and> lib_peer_certificate lib (oc_world c2)"
      using that by (cases rule: PerformSSLConnect_cases) simp_all
    with PerformSSLConnect_fields [OF that] show ?thesis by simp
  qed
  show ?thesis
  proof (rule OpenSSL_ConnectInternal_cases [OF assms, of UNIV])
    fix c1 rc2 c2 rc3 c3
    assume tried: "PerformSSLConnect fuel lib c1 = Inr (rc2, c2)"
      "if rc2 \<noteq> SUCCESS \<and> oc_address_family c2 = AF_INET6
       then PerformSSLConnect fuel lib (c2\<lparr>oc_address_family := AF_INET\<rparr>) = Inr (rc3, c3) else rc3 = rc2 \<and> c3 = c2"
      "SUCCESS = rc3"
      "c' = (if rc3 \<noteq> SUCCESS then (lib_do (lib_ssl_free lib) c3)\<lparr>oc_ssl_handle := Null\<rparr> else c3\<lparr>oc_is_connected := True\<rparr>)"
    then have "\<exists>c. PerformSSLConnect fuel lib c = Inr (SUCCESS, c3)" by (auto split: if_splits)
    with one have "oc_ssl_handle c3 = Live \<and> lib_verify_ok lib (oc_world c3) \<and> lib_peer_certificate lib (oc_world c3)" by blast
    with tried show ?thesis by simp
  qed simp_all
qed

text \<open>C14: a connection attempt that reports success has a live TLS session whose certificate was presented and
  verified; there is no path to the connected state around the verification.\<close>

theorem connected_is_verified:
  assumes "OpenSSL_ConnectInternal fuel lib c = Inr (SUCCESS, c')"
  shows "oc_is_connected c' \<and> oc_ssl_handle c' = Live \<and>
    lib_verify_ok lib (oc_world c') \<and> lib_peer_certificate lib (oc_world c')"
  using assms by (rule connect_verified)

section \<open>Sockets and handles\<close>

text \<open>
  The invariant: a connected port has a live handle, and beside the descriptors that were open before (\<open>base\<close>) it
  has exactly its own socket open while it is connected and none otherwise.
\<close>

definition tls_ok :: "('w \<Rightarrow> int set) \<Rightarrow> int set \<Rightarrow> 'w OpenSSLConnection \<Rightarrow> bool" where
  "tls_ok open_fds base c \<longleftrightarrow>
     oc_ssl_handle c \<noteq> Unset \<and>
     (oc_is_connected c \<longrightarrow> oc_ssl_handle c = Live \<and> oc_server_tcp_socket_fd c \<notin> base) \<and>
     open_fds (oc_world c) = (if oc_is_connected c then insert (oc_server_tcp_socket_fd c) base else base)"

lemma prepares_sockets:
  assumes "socket_laws lib open_fds" "prepares lib {OpOther, OpLoadCA} c c'"
  shows "open_fds (oc_world c') = open_fds (oc_world c)"
proof (rule prepares_keeps [OF assms(2), where P = "\<lambda>w. open_fds w = open_fds (oc_world c)"])
  fix op w w' assume "op \<in> {OpOther, OpLoadCA}" "lib_step lib op w w'" "open_fds w = open_fds (oc_world c)"
  then show "open_fds w' = open_fds (oc_world c)" using socket_laws_other [OF assms(1), of op w w'] by auto
qed simp

lemma tls_ok_connect:
  assumes laws: "socket_laws lib open_fds" and ok: "tls_ok open_fds base c" "\<not> oc_is_connected c"
    and "OpenSSL_ConnectInternal fuel lib c = Inr (rc, c')"
  shows "tls_ok open_fds base c' \<and> (oc_is_connected c' \<longleftrightarrow> rc = SUCCESS)"
proof -
  have prep: "open_fds (oc_world c1) = base \<and> \<not> oc_is_connected c1 \<and> oc_ssl_handle c1 \<noteq> Unset"
    if "prepares lib {OpOther, OpLoadCA} c c1" for c1
    using prepares_sockets [OF laws that] ok prepares_fields [OF that] by (auto simp: tls_ok_def)
  show ?thesis
  proof (rule OpenSSL_ConnectInternal_cases [OF assms(4), of "{OpOther, OpLoadCA}"])
    assume "rc \<noteq> SUCCESS" "prepares lib {OpOther, OpLoadCA} c c'"
    with prep [of c'] show ?thesis by (simp add: tls_ok_def)
  next
    fix c1 rc2 c2 rc3 c3
    assume tried: "prepares lib {OpOther, OpLoadCA} c c1" "PerformSSLConnect fuel lib c1 = Inr (rc2, c2)"
      "if rc2 \<noteq> SUCCESS \<and> oc_address_family c2 = AF_INET6
       then PerformSSLConnect fuel lib (c2\<lparr>oc_address_family := AF_INET\<rparr>) = Inr (rc3, c3) else rc3 = rc2 \<and> c3 = c2"
      "rc = rc3"
      "c' = (if rc3 \<noteq> SUCCESS then (lib_do (lib_ssl_free lib) c3)\<lparr>oc_ssl_handle := Null\<rparr> else c3\<lparr>oc_is_connected := True\<rparr>)"
    note p = prep [OF tried(1)]
    note f2 = PerformSSLConnect_fields [OF tried(2)] and s2 = PerformSSLConnect_sockets [OF laws tried(2)]
    have c3: "\<not> oc_is_connected c3 \<and> oc_ssl_handle c3 = Live \<and>
      (if rc3 = SUCCESS then oc_server_tcp_socket_fd c3 \<notin> base \<and>
         open_fds (oc_world c3) = insert (oc_server_tcp_socket_fd c3) base else open_fds (oc_world c3) = base)"
    proof (cases "rc2 \<noteq> SUCCESS \<and> oc_address_family c2 = AF_INET6")
      case True
      with tried(3) have again: "PerformSSLConnect fuel lib (c2\<lparr>oc_address_family := AF_INET\<rparr>) = Inr (rc3, c3)" by simp
      from PerformSSLConnect_fields [OF again] PerformSSLConnect_sockets [OF laws again] True p f2 s2 show ?thesis
        by (auto split: if_splits)
    next
      case False
      with tried(3) have "rc3 = rc2" "c3 = c2" by (simp_all split: if_splits)
      with p f2 s2 show ?thesis by (auto split: if_splits)
    qed
    have "open_fds (lib_ssl_free lib w) = open_fds w" for w
      using socket_laws_other [OF laws step_ssl_free] by simp
    with c3 tried(4,5) show ?thesis by (auto simp: tls_ok_def lib_do_def)
  qed simp_all
qed

lemma ssl_write_loop_run:
  "ssl_write_loop fuel lib buf tot c = Inr (rc, tot', c') \<Longrightarrow> OpOther \<in> A \<Longrightarrow> OpWrite \<in> A \<Longrightarrow> lib_run lib A c c'"
proof (induction fuel arbitrary: tot c)
  case (Suc fuel)
  obtain cur c1 where w: "lib_call (lib_write lib buf (to_int (length buf))) c = (cur, c1)" by fastforce
  have run1: "lib_run lib A c c1" using w Suc.prems(3) by (rule call_runs)
  obtain r c2 where s: "WaitForSelect lib (lib_get_error lib cur (oc_world c1)) c1 = (r, c2)" by fastforce
  have "lib_run lib A c1 c2" using s Suc.prems(2) by (rule WaitForSelect_run)
  with run1 have run2: "lib_run lib A c c2" by (rule lib_run_trans)
  show ?case
  proof (cases "oc_ssl_handle c = Null")
    case False
    with Suc.prems(1) w s have "c' = c1 \<or> c' = c2 \<or> (\<exists>t. ssl_write_loop fuel lib buf t c1 = Inr (rc, tot', c')) \<or>
        (\<exists>t. ssl_write_loop fuel lib buf t c2 = Inr (rc, tot', c'))"
      by (auto simp: Let_def split: if_splits)
    then show ?thesis using run1 run2 Suc.IH Suc.prems(2,3) by (blast intro: lib_run_trans)
  qed (use Suc.prems in simp)
qed simp

lemma ssl_read_loop_run:
  "ssl_read_loop fuel lib sz buf tot remaining c = Inr (rc, buf', tot', c') \<Longrightarrow> OpOther \<in> A \<Longrightarrow> OpRead \<in> A \<Longrightarrow> lib_run lib A c c'"
proof (induction fuel arbitrary: buf tot remaining c)
  case (Suc fuel)
  obtain cur bs c1 where r: "lib_call (lib_read lib (to_int remaining)) c = ((cur, bs), c1)" by (metis prod.collapse)
  have run1: "lib_run lib A c c1" using r Suc.prems(3) by (rule call_runs)
  obtain k c2 where s: "WaitForSelect lib SSL_ERROR_WANT_READ c1 = (k, c2)" by fastforce
  have "lib_run lib A c1 c2" using s Suc.prems(2) by (rule WaitForSelect_run)
  with run1 have run2: "lib_run lib A c c2" by (rule lib_run_trans)
  show ?case
  proof (cases "oc_ssl_handle c = Null \<or> length buf \<le> tot")
    case False
    with Suc.prems(1) r s have "c' = c1 \<or> c' = c2 \<or>
        (\<exists>b t m. ssl_read_loop fuel lib sz b t m c1 = Inr (rc, buf', tot', c')) \<or>
        (\<exists>b t m. ssl_read_loop fuel lib sz b t m c2 = Inr (rc, buf', tot', c'))"
      by (auto simp: Let_def bind_res_Inr_iff split: if_splits ssl_error.splits)
    then show ?thesis using run1 run2 Suc.IH Suc.prems(2,3) by (blast intro: lib_run_trans)
  qed (use Suc.prems in \<open>auto split: if_splits\<close>)
qed simp

lemma try_shutdown_run:
  assumes "try_shutdown lib c = (b, c')" "OpOther \<in> A"
  shows "lib_run lib A c c'"
proof -
  obtain rc c1 where s: "lib_call (lib_shutdown lib) c = (rc, c1)" by fastforce
  have run1: "lib_run lib A c c1" using s assms(2) by (rule call_runs)
  obtain r c2 where w: "WaitForSelect lib (lib_get_error lib rc (oc_world c1)) c1 = (r, c2)" by fastforce
  have "lib_run lib A c1 c2" using w assms(2) by (rule WaitForSelect_run)
  with run1 have "lib_run lib A c c2" by (rule lib_run_trans)
  with run1 s w assms(1) show ?thesis by (auto simp: try_shutdown_def split: if_splits)
qed

lemma shutdown_wait_run: "OpOther \<in> A \<Longrightarrow> lib_run lib A c (shutdown_wait k lib c)"
proof (induction k arbitrary: c)
  case 0
  then show ?case using try_shutdown_run by (cases "try_shutdown lib c") auto
next
  case (Suc k)
  obtain b c1 where s: "try_shutdown lib c = (b, c1)" by fastforce
  then have "lib_run lib A c c1" using Suc.prems by (rule try_shutdown_run)
  with s Suc show ?case by (auto intro: lib_run_trans)
qed

lemma tls_ok_world:
  assumes "socket_laws lib open_fds" "lib_run lib A c c'" "A \<inter> {OpSocket, OpClose} = {}" "tls_ok open_fds base c"
  shows "tls_ok open_fds base c'"
  using assms(4) socket_laws_run [OF assms(1-3)] world_only_fields [OF lib_run_world_only [OF assms(2)]]
  by (simp add: tls_ok_def)

lemma tls_ok_disconnect:
  assumes laws: "socket_laws lib open_fds" and ok: "tls_ok open_fds base c"
    and "OpenSSL_DisconnectInternal wakeups lib c = (rc, c')"
  shows "tls_ok open_fds base c' \<and> \<not> oc_is_connected c' \<and> rc = SUCCESS"
proof (cases "oc_is_connected c")
  case True
  define c1 where "c1 = shutdown_wait (Suc wakeups) lib (c\<lparr>oc_is_connected := False\<rparr>)"
  have run: "lib_run lib {OpOther} (c\<lparr>oc_is_connected := False\<rparr>) c1" unfolding c1_def by (rule shutdown_wait_run) simp
  from world_only_fields [OF lib_run_world_only [OF run]] socket_laws_run [OF laws run]
  have c1: "\<not> oc_is_connected c1" "oc_server_tcp_socket_fd c1 = oc_server_tcp_socket_fd c"
    "open_fds (oc_world c1) = open_fds (oc_world c)" by simp_all
  have "open_fds (lib_ssl_free lib w) = open_fds w" for w
    using socket_laws_other [OF laws step_ssl_free] by simp
  moreover have "c' = close_socket lib ((lib_do (lib_ssl_free lib) c1)\<lparr>oc_ssl_handle := Null, oc_certificates_read_flag := False\<rparr>)"
    "rc = SUCCESS"
    using assms(3) True ok by (auto simp: OpenSSL_DisconnectInternal_def Let_def c1_def tls_ok_def)
  ultimately show ?thesis
    using True ok c1 by (simp add: tls_ok_def close_socket_def lib_do_def socket_laws_close [OF laws])
next
  case False
  with assms show ?thesis by (simp add: OpenSSL_DisconnectInternal_def)
qed

text \<open>What the application and the client can do with a port; \<open>Connect\<close> only while it is not connected.\<close>

inductive tls_step :: "nat \<Rightarrow> nat \<Rightarrow> 'w tls_library \<Rightarrow> 'w OpenSSLConnection \<Rightarrow> 'w OpenSSLConnection \<Rightarrow> bool"
  for fuel wakeups :: nat and lib :: "'w tls_library" where
  tls_initialize: "OpenSSL_Initialize lib c = (rc, c') \<Longrightarrow> tls_step fuel wakeups lib c c'"
| tls_connect: "\<not> oc_is_connected c \<Longrightarrow> OpenSSL_ConnectInternal fuel lib c = Inr (rc, c') \<Longrightarrow> tls_step fuel wakeups lib c c'"
| tls_write: "OpenSSL_WriteInternal fuel lib buf k c = Inr (rc, k', c') \<Longrightarrow> tls_step fuel wakeups lib c c'"
| tls_read: "OpenSSL_ReadInternal fuel lib buf off sz k c = Inr (rc, buf', k', c') \<Longrightarrow> tls_step fuel wakeups lib c c'"
| tls_disconnect: "OpenSSL_DisconnectInternal wakeups lib c = (rc, c') \<Longrightarrow> tls_step fuel wakeups lib c c'"
| tls_set_CA: "tls_step fuel wakeups lib c (SetRootCAPath p c)"
| tls_set_endpoint: "tls_step fuel wakeups lib c (SetEndpointAndPort e port c)"

lemma tls_ok_initialize:
  assumes "socket_laws lib open_fds" "tls_ok open_fds base c" "OpenSSL_Initialize lib c = (rc, c')"
  shows "tls_ok open_fds base c'"
proof -
  obtain r c1 where i: "lib_call (lib_library_init lib) c = (r, c1)" by fastforce
  obtain b c2 where n: "lib_call (lib_ctx_new lib) c1 = (b, c2)" by fastforce
  have run1: "lib_run lib {OpOther, OpContext} c c1" using i by (rule call_runs) simp
  have "lib_run lib {OpOther, OpContext} c1 c2" using n by (rule call_runs) simp
  with run1 have run2: "lib_run lib {OpOther, OpContext} c c2" by (rule lib_run_trans)
  have "tls_ok open_fds base c1" "tls_ok open_fds base c2"
    using tls_ok_world [OF assms(1) run1 _ assms(2)] tls_ok_world [OF assms(1) run2 _ assms(2)] by simp_all
  moreover have "c' \<in> {c1, c2\<lparr>oc_ssl_context := Live\<rparr>, c2\<lparr>oc_ssl_context := Null\<rparr>}"
    using assms(3) i n by (auto simp: OpenSSL_Initialize_def split: if_splits)
  ultimately show ?thesis by (elim insertE emptyE) (simp_all add: tls_ok_def)
qed

lemma tls_step_ok:
  assumes laws: "socket_laws lib open_fds" and "tls_step fuel wakeups lib c c'" "tls_ok open_fds base c"
  shows "tls_ok open_fds base c'"
  using assms(2,3)
proof (cases rule: tls_step.cases)
  case (tls_write buf k rc k')
  then have "lib_run lib {OpOther, OpWrite} c c'"
    by (auto simp: OpenSSL_WriteInternal_def bind_res_Inr_iff intro: ssl_write_loop_run)
  then show ?thesis using tls_ok_world [OF laws _ _ assms(3)] by simp
next
  case (tls_read buf off sz k rc buf' k')
  then have "lib_run lib {OpOther, OpRead} c c'"
    by (auto simp: OpenSSL_ReadInternal_def bind_res_Inr_iff intro: ssl_read_loop_run)
  then show ?thesis using tls_ok_world [OF laws _ _ assms(3)] by simp
next
  case (tls_initialize rc)
  then show ?thesis by (rule tls_ok_initialize [OF laws assms(3)])
next
  case (tls_connect rc)
  then show ?thesis using tls_ok_connect [OF laws assms(3)] by blast
next
  case (tls_disconnect rc)
  then show ?thesis using tls_ok_disconnect [OF laws assms(3)] by blast
next
  case (tls_set_CA p)
  then show ?thesis using assms(3) by (simp add: tls_ok_def SetRootCAPath_def)
next
  case (tls_set_endpoint e port)
  then show ?thesis using assms(3) by (simp add: tls_ok_def SetEndpointAndPort_def)
qed


text \<open>connecting a port that is connected leaks its socket: the descriptor is replaced but never closed, not
  even by \<open>Disconnect\<close>.\<close>

theorem reconnect_leaks_socket:
  assumes laws: "socket_laws lib open_fds" and ok: "tls_ok open_fds base c" "oc_is_connected c"
    and connect: "OpenSSL_ConnectInternal fuel lib c = Inr (SUCCESS, c1)"
    and disconnect: "OpenSSL_DisconnectInternal wakeups lib c1 = (rc, c2)"
  shows "oc_server_tcp_socket_fd c \<in> open_fds (oc_world c2) \<and> oc_server_tcp_socket_fd c \<notin> base \<and> \<not> oc_is_connected c2"
proof -
  have one: "(open_fds (oc_world d) = open_fds (oc_world c) \<and> rc \<noteq> SUCCESS) \<or> (rc = SUCCESS \<and>
      oc_server_tcp_socket_fd d \<notin> open_fds (oc_world c) \<and>
      open_fds (oc_world d) = insert (oc_server_tcp_socket_fd d) (open_fds (oc_world c)))"
    if "PerformSSLConnect fuel lib d0 = Inr (rc, d)" "open_fds (oc_world d0) = open_fds (oc_world c)" for d0 d rc
    using PerformSSLConnect_sockets [OF laws that(1)] that(2) by (auto split: if_splits)
  have c1: "oc_server_tcp_socket_fd c1 \<notin> open_fds (oc_world c)"
    "open_fds (oc_world c1) = insert (oc_server_tcp_socket_fd c1) (open_fds (oc_world c))"
    "oc_ssl_handle c1 = Live" "oc_is_connected c1"
  proof -
    have "oc_server_tcp_socket_fd c1 \<notin> open_fds (oc_world c) \<and>
      open_fds (oc_world c1) = insert (oc_server_tcp_socket_fd c1) (open_fds (oc_world c))"
    proof (rule OpenSSL_ConnectInternal_cases [OF connect, of "{OpOther, OpLoadCA}"])
      fix d1 rc2 d2 rc3 d3
      assume tried: "prepares lib {OpOther, OpLoadCA} c d1" "PerformSSLConnect fuel lib d1 = Inr (rc2, d2)"
        "if rc2 \<noteq> SUCCESS \<and> oc_address_family d2 = AF_INET6
         then PerformSSLConnect fuel lib (d2\<lparr>oc_address_family := AF_INET\<rparr>) = Inr (rc3, d3) else rc3 = rc2 \<and> d3 = d2"
        "SUCCESS = rc3"
        "c1 = (if rc3 \<noteq> SUCCESS then (lib_do (lib_ssl_free lib) d3)\<lparr>oc_ssl_handle := Null\<rparr> else d3\<lparr>oc_is_connected := True\<rparr>)"
      from one [OF tried(2) prepares_sockets [OF laws tried(1)]] tried(3-5) one [of "d2\<lparr>oc_address_family := AF_INET\<rparr>" rc3 d3]
      show ?thesis by (auto split: if_splits)
    qed simp_all
    then show "oc_server_tcp_socket_fd c1 \<notin> open_fds (oc_world c)"
      "open_fds (oc_world c1) = insert (oc_server_tcp_socket_fd c1) (open_fds (oc_world c))" by simp_all
    show "oc_ssl_handle c1 = Live" "oc_is_connected c1" using connect_verified [OF connect] by simp_all
  qed
  have "tls_ok open_fds (open_fds (oc_world c)) c1" using c1 by (simp add: tls_ok_def)
  from tls_ok_disconnect [OF laws this disconnect]
  have "open_fds (oc_world c2) = open_fds (oc_world c)" "\<not> oc_is_connected c2" by (simp_all add: tls_ok_def)
  then show ?thesis using ok by (simp add: tls_ok_def)
qed

end
