(* ===== verification/TlsStream.thy ===== *)
theory TlsStream
  imports OpenSSL
begin

text \<open>
  The TLS port as a stream of bytes: what \<open>ReadInternal\<close> and \<open>WriteInternal\<close> of \<^verbatim>\<open>OpenSSLConnection.cpp\<close> do to the
  bytes, under the documented behaviour of \<open>SSL_read\<close>, \<open>SSL_write\<close> and \<open>select\<close>, and that the port behind the
  interface provides what the reader and the writer of the SDK rely on.
\<close>

section \<open>Reading\<close>

text \<open>
  \<open>input\<close> is the decrypted data that has arrived and has not been read. \<open>SSL_read\<close> with a positive result gives its
  next bytes, at most as many as asked for; otherwise it takes none. \<open>select\<close> takes none.
\<close>

definition read_laws :: "'w tls_library \<Rightarrow> ('w \<Rightarrow> bytes) \<Rightarrow> bool" where
  "read_laws lib input \<longleftrightarrow>
     (\<forall>n w cur bs w'. lib_read lib n w = ((cur, bs), w') \<longrightarrow>
        (if 0 < cur then cur \<le> n \<and> nat cur \<le> length (input w) \<and> bs = take (nat cur) (input w) \<and> input w' = drop (nat cur) (input w)
         else input w' = input w)) \<and>
     (\<forall>b fd t w r w'. lib_select lib b fd t w = (r, w') \<longrightarrow> input w' = input w)"

lemma read_laws_read:
  assumes "read_laws lib input" "lib_call (lib_read lib n) c = ((cur, bs), c')" "0 < cur"
  shows "cur \<le> n" "nat cur \<le> length (input (oc_world c))" "bs = take (nat cur) (input (oc_world c))"
    "input (oc_world c') = drop (nat cur) (input (oc_world c))"
  using assms unfolding read_laws_def lib_call_world by auto

lemma read_laws_none:
  assumes "read_laws lib input" "lib_call (lib_read lib n) c = ((cur, bs), c')" "\<not> 0 < cur"
  shows "input (oc_world c') = input (oc_world c)"
  using assms unfolding read_laws_def lib_call_world by auto

lemma read_laws_wait:
  assumes "read_laws lib input" "WaitForSelect lib e c = (r, c')"
  shows "input (oc_world c') = input (oc_world c)"
  using assms unfolding read_laws_def by (cases e) (auto simp: WaitForSelect_def lib_call_world)

lemma to_int_small: "n < 2 ^ 31 \<Longrightarrow> to_int n = int n"
  by (simp add: to_int_def signed_of_nat signed_take_bit_int_eq_self)

text \<open>
  The loop takes \<open>d\<close> bytes from the input, whatever it ends in, and puts them into the buffer. While the port is
  connected it ends with success only when the position has reached the number of bytes wanted.
\<close>

lemma ssl_read_loop_input:
  assumes laws: "read_laws lib input"
    and "ssl_read_loop fuel lib sz buf tot remaining c = Inr (rc, buf', tot', c')"
    and "remaining < 2 ^ 31" "tot + remaining \<le> length buf" "length buf < 2 ^ 64"
  shows "\<exists>d. tot' = tot + d \<and> d \<le> remaining \<and> d \<le> length (input (oc_world c)) \<and>
    input (oc_world c') = drop d (input (oc_world c)) \<and>
    buf' = take tot buf @ take d (input (oc_world c)) @ drop (tot + d) buf \<and>
    (rc = SUCCESS \<and> oc_is_connected c \<longrightarrow> sz \<le> tot')"
  using assms(2-)
proof (induction fuel arbitrary: buf tot remaining c)
  case (Suc fuel)
  obtain cur bs c1 where r: "lib_call (lib_read lib (to_int remaining)) c = ((cur, bs), c1)" by (metis prod.collapse)
  have conn1: "oc_is_connected c1 = oc_is_connected c"
    using r by (simp add: lib_call_world world_only_fields)
  have int: "to_int remaining = int remaining" using Suc.prems(2) by (rule to_int_small)
  have buf: "buf = take tot buf @ drop tot buf" by simp
  show ?case
  proof (cases "oc_ssl_handle c = Null")
    case True
    with Suc.prems(1) show ?thesis by (intro exI [of _ 0]) auto
  next
    case handle: False
    have tot: "tot < length buf" using Suc.prems(1) handle by (auto simp: not_le split: if_splits)
    show ?thesis
    proof (cases "0 < cur")
      case True
      let ?k = "nat cur"
      note rl = read_laws_read [OF laws r True]
      have k: "?k \<le> remaining" "length bs = ?k" using rl(1-3) by (simp_all add: int nat_le_iff)
      let ?buf = "take tot buf @ bs @ drop (tot + ?k) buf"
      have st: "store_at buf tot bs = Inr ?buf" using store_at_in [of tot bs buf] k Suc.prems(3) by simp
      have sizes: "size_add tot ?k = tot + ?k" "size_sub remaining ?k = remaining - ?k"
        using k Suc.prems(2-4) by (simp_all add: size_add_small size_sub_small)
      have len: "length ?buf = length buf" using k Suc.prems(3) by simp
      show ?thesis
      proof (cases "oc_is_connected c1 \<and> tot + ?k < sz")
        case again: True
        then have loop: "ssl_read_loop fuel lib sz ?buf (tot + ?k) (remaining - ?k) c1 = Inr (rc, buf', tot', c')"
          using Suc.prems(1) handle tot r True st sizes by simp
        have pre: "remaining - ?k < 2 ^ 31" "tot + ?k + (remaining - ?k) \<le> length ?buf" "length ?buf < 2 ^ 64"
          using k Suc.prems(2-4) len by simp_all
        obtain d where d: "tot' = tot + ?k + d" "d \<le> remaining - ?k" "d \<le> length (input (oc_world c1))"
          "input (oc_world c') = drop d (input (oc_world c1))"
          "buf' = take (tot + ?k) ?buf @ take d (input (oc_world c1)) @ drop (tot + ?k + d) ?buf"
          "rc = SUCCESS \<and> oc_is_connected c1 \<longrightarrow> sz \<le> tot'"
          using Suc.IH [OF loop pre] by blast
        have parts: "take (tot + ?k) ?buf = take tot buf @ bs" "drop (tot + ?k + d) ?buf = drop (tot + (?k + d)) buf"
          using k(2) tot by (simp_all add: ac_simps)
        have "bs @ take d (drop ?k (input (oc_world c))) = take (?k + d) (input (oc_world c))"
          unfolding rl(3) by (simp add: take_add)
        then have whole: "buf' = take tot buf @ take (?k + d) (input (oc_world c)) @ drop (tot + (?k + d)) buf"
          using d(5) unfolding parts rl(4) by simp
        have "?k + d \<le> remaining" "?k + d \<le> length (input (oc_world c))"
          using d(2,3) k(1) rl(2,4) by simp_all
        then show ?thesis
          using d(1,4,6) rl(4) conn1 whole by (intro exI [of _ "?k + d"]) (auto simp: add.commute)
      next
        case False
        then have "rc = SUCCESS" "buf' = ?buf" "tot' = tot + ?k" "c' = c1"
          using Suc.prems(1) handle tot r True st sizes by auto
        then show ?thesis using k rl conn1 False by (intro exI [of _ ?k]) auto
      qed
    next
      case none: False
      note same = read_laws_none [OF laws r none]
      obtain k c2 where s: "WaitForSelect lib SSL_ERROR_WANT_READ c1 = (k, c2)" by fastforce
      have same2: "input (oc_world c2) = input (oc_world c)" using read_laws_wait [OF laws s] same by simp
      have conn2: "oc_is_connected c2 = oc_is_connected c"
        using lib_run_world_only [OF WaitForSelect_run [OF s, of UNIV]] conn1 by (simp add: world_only_fields)
      show ?thesis
      proof (cases "lib_get_error lib cur (oc_world c1) = SSL_ERROR_WANT_READ \<and> 0 < k \<and> oc_is_connected c2 \<and> tot < sz")
        case True
        then have loop: "ssl_read_loop fuel lib sz buf tot remaining c2 = Inr (rc, buf', tot', c')"
          using Suc.prems(1) handle tot r none s by simp
        from Suc.IH [OF loop Suc.prems(2-4)] same2 conn2 show ?thesis by simp
      next
        case False
        then have "buf' = buf \<and> tot' = tot \<and> (c' = c1 \<or> c' = c2) \<and> (rc = SUCCESS \<and> oc_is_connected c2 \<longrightarrow> sz \<le> tot)"
          using Suc.prems(1) handle tot r none s by (auto split: ssl_error.splits if_splits)
        then show ?thesis using same same2 conn2 by (intro exI [of _ 0]) auto
      qed
    qed
  qed
qed simp

text \<open>a successful read of a connected TLS port at offset zero reports and stores exactly the next bytes of the
  decrypted stream, however TLS records cut them and however often the socket had to be waited for.\<close>

theorem tls_read_exact:
  assumes "read_laws lib input" "oc_is_connected c" "sz \<le> length buf" "sz < 2 ^ 31" "length buf < 2 ^ 64"
    and "OpenSSL_ReadInternal fuel lib buf 0 sz k0 c = Inr (SUCCESS, buf', k, c')"
  shows "k = sz \<and> sz \<le> length (input (oc_world c)) \<and> buf' = take sz (input (oc_world c)) @ drop sz buf \<and>
    input (oc_world c') = drop sz (input (oc_world c))"
proof -
  obtain tot where "ssl_read_loop fuel lib sz buf 0 sz c = Inr (SUCCESS, buf', tot, c')" "k = tot"
    using assms(6) by (auto simp: OpenSSL_ReadInternal_def bind_res_Inr_iff split: if_splits)
  with ssl_read_loop_input [OF assms(1) this(1) assms(4)] assms(2,3,5) show ?thesis by auto
qed

text \<open>a read that times out in the middle has taken the bytes that were there off the stream but reports only
  that there was nothing to read: how many bytes the buffer got is not told, and the next read goes on after them.\<close>

theorem timeout_loses_bytes:
  assumes laws: "read_laws lib input"
    and state: "oc_ssl_handle c = Live" "oc_is_connected c" "length buf = sz" "sz < 2 ^ 31" "d < sz"
    and first: "lib_read lib (int sz) (oc_world c) = ((int d, bs), w1)" "0 < d"
    and second: "lib_read lib (int (sz - d)) w1 = ((r, bs'), w2)" "r \<le> 0" "lib_get_error lib r w2 = SSL_ERROR_WANT_READ"
    and timeout: "lib_select lib False (oc_server_tcp_socket_fd c) (oc_tls_write_timeout c) w2 = (0, w3)"
  shows "\<exists>c'. OpenSSL_ReadInternal (Suc (Suc fuel)) lib buf 0 sz k0 c =
      Inr (NETWORK_SSL_NOTHING_TO_READ, take d (input (oc_world c)) @ drop d buf, k0, c') \<and>
    input (oc_world c') = drop d (input (oc_world c))"
proof -
  define c1 where "c1 = c\<lparr>oc_world := w1\<rparr>"
  have r1: "lib_call (lib_read lib (to_int sz)) c = ((int d, bs), c1)"
    using first(1) state(4) by (simp add: lib_call_def c1_def to_int_small)
  note rl = read_laws_read [OF laws r1, simplified, OF first(2)]
  have len: "length bs = d" using rl(2,3) by simp
  define c2 where "c2 = c\<lparr>oc_world := w2\<rparr>"
  have r2: "lib_call (lib_read lib (to_int (sz - d))) c1 = ((r, bs'), c2)"
    using second(1) state(4) by (simp add: lib_call_def c1_def c2_def to_int_small)
  have w: "WaitForSelect lib SSL_ERROR_WANT_READ c2 = (0, c\<lparr>oc_world := w3\<rparr>)"
    using timeout by (simp add: WaitForSelect_def lib_call_def c2_def)
  have "input (oc_world c2) = input (oc_world c1)" using read_laws_none [OF laws r2] second(2) by simp
  then have "input w3 = drop d (input (oc_world c))" using read_laws_wait [OF laws w] rl(4) by simp
  moreover have "store_at buf 0 bs = Inr (bs @ drop d buf)" using store_at_in [of 0 bs buf] len state(3,5) by simp
  moreover have "size_sub sz d = sz - d" using state(4,5) by (simp add: size_sub_small)
  ultimately show ?thesis
    using state first(2) second(2,3) r1 r2 w rl(3) len
    by (intro exI [of _ "c\<lparr>oc_world := w3\<rparr>"])
      (simp add: OpenSSL_ReadInternal_def c1_def c2_def)
qed

text \<open>at an offset that is not zero the number reported includes the offset, so a successful read of the rest of
  a buffer reports more bytes than it has read; a reader that adds the number up passes the end of its buffer.\<close>

theorem offset_counted_as_read:
  assumes "read_laws lib input" "oc_is_connected c" "0 < off" "off + sz \<le> length buf" "sz < 2 ^ 31" "length buf < 2 ^ 64"
    and "OpenSSL_ReadInternal fuel lib buf off sz k0 c = Inr (SUCCESS, buf', k, c')"
  shows "\<exists>d. k = off + d \<and> d \<le> sz \<and> sz \<le> k \<and> input (oc_world c') = drop d (input (oc_world c)) \<and> d < k"
proof -
  obtain tot where "ssl_read_loop fuel lib sz buf off sz c = Inr (SUCCESS, buf', tot, c')" "k = tot"
    using assms(7) by (auto simp: OpenSSL_ReadInternal_def bind_res_Inr_iff split: if_splits)
  with ssl_read_loop_input [OF assms(1) this(1) assms(5,4,6)] assms(2,3) show ?thesis by auto
qed

section \<open>Reading what has arrived\<close>

text \<open>When decrypted data has arrived, \<open>SSL_read\<close> gives some of it.\<close>

definition read_available :: "'w tls_library \<Rightarrow> ('w \<Rightarrow> bytes) \<Rightarrow> bool" where
  "read_available lib input \<longleftrightarrow> (\<forall>n w. 0 < n \<and> input w \<noteq> [] \<longrightarrow> 0 < fst (fst (lib_read lib n w)))"

definition tls_ready :: "'w OpenSSLConnection \<Rightarrow> bool" where
  "tls_ready c \<longleftrightarrow> oc_is_connected c \<and> oc_ssl_handle c = Live"

lemma ssl_read_loop_delivers:
  assumes laws: "read_laws lib input" "read_available lib input"
    and "tls_ready c" "0 < remaining" "remaining \<le> length (input (oc_world c))" "tot + remaining = sz" "length buf = sz"
    and "sz < 2 ^ 31" "remaining \<le> fuel"
  shows "\<exists>buf' c'. ssl_read_loop fuel lib sz buf tot remaining c = Inr (SUCCESS, buf', sz, c') \<and> tls_ready c'"
  using assms(3-)
proof (induction fuel arbitrary: buf tot remaining c)
  case (Suc fuel)
  obtain cur bs c1 where r: "lib_call (lib_read lib (to_int remaining)) c = ((cur, bs), c1)" by (metis prod.collapse)
  have int: "to_int remaining = int remaining" using Suc.prems(4,6) by (intro to_int_small) simp
  have w: "lib_read lib (int remaining) (oc_world c) = ((cur, bs), oc_world c1)" using r by (simp add: lib_call_world int)
  have cur: "0 < cur"
  proof -
    have "input (oc_world c) \<noteq> []" using Suc.prems(2,3) by auto
    then have "0 < fst (fst (lib_read lib (int remaining) (oc_world c)))"
      using laws(2) Suc.prems(2) unfolding read_available_def by simp
    with w show ?thesis by simp
  qed
  note rl = read_laws_read [OF laws(1) r cur]
  let ?k = "nat cur"
  have k: "0 < ?k" "?k \<le> remaining" "length bs = ?k" using cur rl(1-3) by (simp_all add: int nat_le_iff)
  have "world_only c c1" using r by (simp add: lib_call_world)
  from world_only_fields [OF this] have ready: "tls_ready c1" using Suc.prems(1) by (simp add: tls_ready_def)
  let ?buf = "take tot buf @ bs @ drop (tot + ?k) buf"
  have st: "store_at buf tot bs = Inr ?buf" using store_at_in [of tot bs buf] k Suc.prems(4,5) by simp
  have sizes: "size_add tot ?k = tot + ?k" "size_sub remaining ?k = remaining - ?k"
    using k Suc.prems(4,6) by (simp_all add: size_add_small size_sub_small)
  have step: "ssl_read_loop (Suc fuel) lib sz buf tot remaining c =
    (if tot + ?k < sz then ssl_read_loop fuel lib sz ?buf (tot + ?k) (remaining - ?k) c1 else Inr (SUCCESS, ?buf, tot + ?k, c1))"
    using Suc.prems(1,2,4,5) ready r cur st sizes by (simp add: tls_ready_def)
  show ?case
  proof (cases "tot + ?k < sz")
    case True
    have "length ?buf = sz" using k Suc.prems(4,5) by simp
    with Suc.IH [OF ready, of "remaining - ?k" "tot + ?k" ?buf] True k Suc.prems rl(4) step show ?thesis by simp
  next
    case False
    then have "tot + ?k = sz" using k Suc.prems(4) by simp
    with False step ready show ?thesis by simp
  qed
qed simp

text \<open>The port behind the interface fills a buffer in one call when the bytes are there.\<close>

lemma tls_delivers_all:
  assumes "read_laws lib input" "read_available lib input" "read_limit \<le> fuel"
  shows "delivers_all (openssl_connection fuel wakeups lib) tls_ready (\<lambda>c. input (oc_world c))"
proof -
  have "\<exists>c'. nc_ReadInternal (openssl_connection fuel wakeups lib) buf 0 (length buf) 0 c =
      (SUCCESS, take (length buf) (input (oc_world c)), length buf, c') \<and>
      input (oc_world c') = drop (length buf) (input (oc_world c)) \<and> tls_ready c'"
    if c: "tls_ready c" and buf: "buf \<noteq> []" "length buf \<le> read_limit" "length buf \<le> length (input (oc_world c))" for buf c
  proof -
    have small: "length buf < 2 ^ 31" using buf(2) by (simp add: read_limit_def)
    obtain buf' c' where loop: "ssl_read_loop fuel lib (length buf) buf 0 (length buf) c = Inr (SUCCESS, buf', length buf, c')"
      "tls_ready c'"
      using ssl_read_loop_delivers [OF assms(1,2) c _ buf(3), of 0 "length buf" buf fuel] buf(1,2) assms(3) small by auto
    then have r: "OpenSSL_ReadInternal fuel lib buf 0 (length buf) 0 c = Inr (SUCCESS, buf', length buf, c')"
      by (simp add: OpenSSL_ReadInternal_def)
    obtain d where d: "length buf = 0 + d" "input (oc_world c') = drop d (input (oc_world c))"
      "buf' = take 0 buf @ take d (input (oc_world c)) @ drop (0 + d) buf"
      using ssl_read_loop_input [OF assms(1) loop(1) small] small by auto
    then have "buf' = take (length buf) (input (oc_world c))" "input (oc_world c') = drop (length buf) (input (oc_world c))"
      by simp_all
    with r loop(2) show ?thesis by (simp add: openssl_connection_def or_failed_def)
  qed
  then show ?thesis unfolding delivers_all_def by (auto simp: openssl_connection_def tls_ready_def)
qed

section \<open>Writing\<close>

text \<open>
  \<open>sent\<close> is the data the library has taken for sending. Without the mode of partial writes, which the code does not
  set, \<open>SSL_write\<close> with a positive result has taken all it was given; otherwise it has taken nothing.
\<close>

definition write_laws :: "'w tls_library \<Rightarrow> ('w \<Rightarrow> bytes) \<Rightarrow> bool" where
  "write_laws lib sent \<longleftrightarrow>
     (\<forall>buf n w cur w'. lib_write lib buf n w = (cur, w') \<longrightarrow>
        (if 0 < cur then cur = n \<and> sent w' = sent w @ take (nat n) buf else sent w' = sent w)) \<and>
     (\<forall>b fd t w r w'. lib_select lib b fd t w = (r, w') \<longrightarrow> sent w' = sent w)"

lemma write_laws_write:
  assumes "write_laws lib sent" "lib_call (lib_write lib buf n) c = (cur, c')"
  shows "if 0 < cur then cur = n \<and> sent (oc_world c') = sent (oc_world c) @ take (nat n) buf
    else sent (oc_world c') = sent (oc_world c)"
  using assms unfolding write_laws_def lib_call_world by blast

lemma write_laws_wait:
  assumes "write_laws lib sent" "WaitForSelect lib e c = (r, c')"
  shows "sent (oc_world c') = sent (oc_world c)"
  using assms unfolding write_laws_def by (cases e) (auto simp: WaitForSelect_def lib_call_world)

lemma ssl_write_loop_effect:
  assumes laws: "write_laws lib sent" and "length buf < 2 ^ 31"
    and "ssl_write_loop fuel lib buf 0 c = Inr (rc, tot, c')"
  shows "rc = SUCCESS \<and> tot = length buf \<and> sent (oc_world c') = sent (oc_world c) @ buf \<or>
    tot = 0 \<and> sent (oc_world c') = sent (oc_world c) \<and> (rc = SUCCESS \<and> oc_is_connected c \<longrightarrow> buf = [])"
  using assms(3)
proof (induction fuel arbitrary: c)
  case (Suc fuel)
  obtain cur c1 where w: "lib_call (lib_write lib buf (to_int (length buf))) c = (cur, c1)" by fastforce
  have int: "to_int (length buf) = int (length buf)" using assms(2) by (rule to_int_small)
  note wl = write_laws_write [OF laws w, unfolded int]
  have conn1: "oc_is_connected c1 = oc_is_connected c" using w by (simp add: lib_call_world world_only_fields)
  obtain r c2 where s: "WaitForSelect lib (lib_get_error lib cur (oc_world c1)) c1 = (r, c2)" by fastforce
  have conn2: "oc_is_connected c2 = oc_is_connected c"
    using lib_run_world_only [OF WaitForSelect_run [OF s, of UNIV]] conn1 by (simp add: world_only_fields)
  note same = write_laws_wait [OF laws s]
  show ?case
  proof (cases "oc_ssl_handle c = Null")
    case True
    with Suc.prems show ?thesis by auto
  next
    case handle: False
    show ?thesis
    proof (cases "0 < cur")
      case True
      then have "size_add 0 (nat cur) = length buf" using wl assms(2) by simp
      with Suc.prems handle True w wl show ?thesis by (simp add: Let_def)
    next
      case none: False
      show ?thesis
      proof (cases "lib_get_error lib cur (oc_world c1) = SSL_ERROR_WANT_WRITE \<and> r \<noteq> 0 \<and> r \<noteq> -1 \<and> oc_is_connected c2 \<and> buf \<noteq> []")
        case True
        then have "ssl_write_loop fuel lib buf 0 c2 = Inr (rc, tot, c')"
          using Suc.prems handle none w s by (simp add: Let_def)
        from Suc.IH [OF this] wl none same conn2 show ?thesis by simp
      next
        case False
        then have "tot = 0 \<and> (c' = c1 \<or> c' = c2) \<and> (rc = SUCCESS \<and> oc_is_connected c2 \<longrightarrow> buf = [])"
          using Suc.prems handle none w s by (auto simp: Let_def split: if_splits)
        then show ?thesis using wl none same conn2 by auto
      qed
    qed
  qed
qed simp

text \<open>a write of a connected TLS port is all or nothing: when it succeeds the library has taken the whole buffer,
  once, and the number reported is its length; when it fails nothing was taken.\<close>

theorem tls_write_whole:
  assumes "write_laws lib sent" "oc_is_connected c" "buf \<noteq> []" "length buf < 2 ^ 31"
    and "OpenSSL_WriteInternal fuel lib buf k0 c = Inr (rc, k, c')"
  shows "if rc = SUCCESS then k = length buf \<and> sent (oc_world c') = sent (oc_world c) @ buf
    else k = k0 \<and> sent (oc_world c') = sent (oc_world c)"
proof -
  obtain tot where "ssl_write_loop fuel lib buf 0 c = Inr (rc, tot, c')" "k = (if rc = SUCCESS then tot else k0)"
    using assms(5) by (auto simp: OpenSSL_WriteInternal_def bind_res_Inr_iff)
  with ssl_write_loop_effect [OF assms(1,4) this(1)] assms(2,3) show ?thesis by auto
qed

lemma tls_honest:
  assumes "write_laws lib sent"
  shows "honest_writer (openssl_connection fuel wakeups lib)"
proof -
  have "k \<le> length buf" if small: "length buf < 2 ^ 31"
    and w: "nc_WriteInternal (openssl_connection fuel wakeups lib) buf 0 c = (rc, k, c')" for buf c rc k c'
  proof (cases "ssl_write_loop fuel lib buf 0 c")
    case (Inl e)
    with w show ?thesis by (simp add: openssl_connection_def or_failed_def OpenSSL_WriteInternal_def)
  next
    case (Inr y)
    then obtain rc1 tot c1 where y: "ssl_write_loop fuel lib buf 0 c = Inr (rc1, tot, c1)" by (cases y) auto
    with w have "k = (if rc1 = SUCCESS then tot else 0)"
      by (auto simp: openssl_connection_def or_failed_def OpenSSL_WriteInternal_def)
    with ssl_write_loop_effect [OF assms small y] show ?thesis by auto
  qed
  then show ?thesis unfolding honest_writer_def by blast
qed

section \<open>A scripted library\<close>

text \<open>
  A library over an explicit state: the open sockets, the addresses the name server knows, whether the context has an
  authority, the data that has arrived and the data sent. \<open>SSL_read\<close> gives at most \<open>tw_record\<close> bytes and one more at a time;
  when nothing is there the wait times out. The witnesses evaluate the code on it.
\<close>

record tls_world =
  tw_open :: "int list"
  tw_hosts :: "bytes list"
  tw_trusted :: bool
  tw_input :: bytes
  tw_record :: nat
  tw_sent :: bytes

definition fresh_fd :: "int list \<Rightarrow> int" where
  "fresh_fd fds = fold max fds 2 + 1"

definition script_library :: "tls_world tls_library" where
  "script_library =
     \<lparr>lib_library_init = (\<lambda>w. (1, w)),
      lib_ctx_new = (\<lambda>w. (True, w\<lparr>tw_trusted := False\<rparr>)),
      lib_ctx_free = id,
      lib_load_verify_locations = (\<lambda>p w. (True, w\<lparr>tw_trusted := True\<rparr>)),
      lib_use_certificate_chain_file = (\<lambda>p w. (True, w)),
      lib_use_private_key_file = (\<lambda>p w. (1, w)),
      lib_ssl_new = (\<lambda>w. (True, w)),
      lib_ssl_free = id,
      lib_is_address = (\<lambda>a. False),
      lib_set_verify_ip = (\<lambda>a. id),
      lib_set_verify_host = (\<lambda>a. id),
      lib_set_alpn_protos = (\<lambda>p w. (0, w)),
      lib_set_verify_peer = id,
      lib_socket = (\<lambda>f w. (fresh_fd (tw_open w), w\<lparr>tw_open := fresh_fd (tw_open w) # tw_open w\<rparr>)),
      lib_close = (\<lambda>fd w. w\<lparr>tw_open := filter (\<lambda>x. x \<noteq> fd) (tw_open w)\<rparr>),
      lib_getaddrinfo = (\<lambda>f a w. ((0, tw_hosts w), w)),
      lib_connect = (\<lambda>fd a port w. (0, w)),
      lib_get_flags = (\<lambda>fd w. (0, w)),
      lib_set_nonblocking = (\<lambda>fd fl w. (0, w)),
      lib_set_fd = (\<lambda>fd. id),
      lib_ssl_connect = (\<lambda>w. (1, w)),
      lib_get_error = (\<lambda>r w. SSL_ERROR_WANT_READ),
      lib_select = (\<lambda>b fd t w. (0, w)),
      lib_verify_ok = tw_trusted,
      lib_peer_certificate = (\<lambda>w. True),
      lib_write = (\<lambda>buf n w. (n, if 0 < n then w\<lparr>tw_sent := tw_sent w @ take (nat n) buf\<rparr> else w)),
      lib_read = (\<lambda>n w. let k = min (Suc (tw_record w)) (min (nat n) (length (tw_input w)))
         in if k = 0 then ((-1, []), w) else ((int k, take k (tw_input w)), w\<lparr>tw_input := drop k (tw_input w)\<rparr>)),
      lib_shutdown = (\<lambda>w. (1, w))\<rparr>"

lemma script_library_simps:
  "lib_library_init script_library w = (1, w)"
  "lib_ctx_new script_library w = (True, w\<lparr>tw_trusted := False\<rparr>)"
  "lib_load_verify_locations script_library p w = (True, w\<lparr>tw_trusted := True\<rparr>)"
  "lib_use_certificate_chain_file script_library p w = (True, w)"
  "lib_use_private_key_file script_library p w = (1, w)"
  "lib_ssl_new script_library w = (True, w)" "lib_ssl_free script_library w = w"
  "lib_set_verify_ip script_library a w = w" "lib_set_verify_host script_library a w = w"
  "lib_set_alpn_protos script_library p w = (0, w)" "lib_set_verify_peer script_library w = w"
  "lib_socket script_library f w = (fresh_fd (tw_open w), w\<lparr>tw_open := fresh_fd (tw_open w) # tw_open w\<rparr>)"
  "lib_close script_library fd w = w\<lparr>tw_open := filter (\<lambda>x. x \<noteq> fd) (tw_open w)\<rparr>"
  "lib_getaddrinfo script_library f a w = ((0, tw_hosts w), w)"
  "lib_connect script_library fd a port w = (0, w)" "lib_get_flags script_library fd w = (0, w)"
  "lib_set_nonblocking script_library fd fl w = (0, w)" "lib_set_fd script_library fd w = w"
  "lib_ssl_connect script_library w = (1, w)" "lib_get_error script_library r w = SSL_ERROR_WANT_READ"
  "lib_select script_library b fd t w = (0, w)" "lib_verify_ok script_library w = tw_trusted w"
  "lib_peer_certificate script_library w = True" "lib_shutdown script_library w = (1, w)"
  "lib_is_address script_library a = False"
  "lib_read script_library n w = (let k = min (Suc (tw_record w)) (min (nat n) (length (tw_input w)))
     in if k = 0 then ((-1, []), w) else ((int k, take k (tw_input w)), w\<lparr>tw_input := drop k (tw_input w)\<rparr>))"
  by (simp_all add: script_library_def)

lemma fresh_fd_not_open: "fresh_fd fds \<notin> set fds" "0 < fresh_fd fds"
proof -
  have le: "x \<in> set fds \<or> x \<le> m \<Longrightarrow> x \<le> fold max fds m" for x m :: int
    by (induction fds arbitrary: m) fastforce+
  from le [of _ 2] show "fresh_fd fds \<notin> set fds" unfolding fresh_fd_def by fastforce
  from le [of 2 2] show "0 < fresh_fd fds" unfolding fresh_fd_def by simp
qed

lemma script_socket_laws: "socket_laws script_library (\<lambda>w. set (tw_open w))"
proof -
  have keep: "tw_open w' = tw_open w" if "lib_step script_library op w w'" "op \<noteq> OpSocket" "op \<noteq> OpClose" for op w w'
    using that by cases (auto simp: script_library_def Let_def split: if_splits)
  have fd: "fresh_fd fds \<noteq> -1" for fds using fresh_fd_not_open(2) [of fds] by linarith
  show ?thesis
    unfolding socket_laws_def using keep fresh_fd_not_open(1) fd by (auto simp: script_library_simps)
qed

lemma script_read_laws: "read_laws script_library tw_input"
  unfolding read_laws_def by (auto simp: script_library_def Let_def split: if_splits)

lemma script_read_available: "read_available script_library tw_input"
  unfolding read_available_def by (auto simp: script_library_def Let_def min_def split: if_splits)

lemma script_write_laws: "write_laws script_library tw_sent"
  unfolding write_laws_def by (auto simp: script_library_def split: if_splits)

definition sample_world :: "bytes \<Rightarrow> nat \<Rightarrow> tls_world" where
  "sample_world input record_size =
     \<lparr>tw_open = [], tw_hosts = [[1]], tw_trusted = False, tw_input = input, tw_record = record_size, tw_sent = []\<rparr>"

definition sample_port :: "tls_world \<Rightarrow> tls_world OpenSSLConnection" where
  "sample_port w = OpenSSLConnection_new (str ''host'') 8883 (str ''ca'') (str ''crt'') (str ''key'') 1000 1000 1000 True False w"

definition initialized_port :: "tls_world \<Rightarrow> tls_world OpenSSLConnection" where
  "initialized_port w = (sample_port (w\<lparr>tw_trusted := False\<rparr>))\<lparr>oc_ssl_context := Live\<rparr>"

definition connected_port :: "tls_world \<Rightarrow> tls_world OpenSSLConnection" where
  "connected_port w = (sample_port (w\<lparr>tw_open := fresh_fd (tw_open w) # tw_open w, tw_trusted := True\<rparr>))
     \<lparr>oc_ssl_context := Live, oc_ssl_handle := Live, oc_server_tcp_socket_fd := fresh_fd (tw_open w),
      oc_certificates_read_flag := True, oc_is_connected := True\<rparr>"

lemmas port_simps = sample_port_def initialized_port_def connected_port_def OpenSSLConnection_new_def

lemma sample_initialize: "OpenSSL_Initialize script_library (sample_port w) = (SUCCESS, initialized_port w)"
  by (simp add: OpenSSL_Initialize_def lib_call_def script_library_simps port_simps)

lemma fresh_fd_not_minus [simp]: "fresh_fd fds \<noteq> -1"
  using fresh_fd_not_open(2) [of fds] by linarith

lemma sample_tcp: "tw_hosts (oc_world c) \<noteq> [] \<Longrightarrow> ConnectTCPSocket script_library c = (SUCCESS, c)"
  by (cases "tw_hosts (oc_world c)") (simp_all add: ConnectTCPSocket_def lib_call_def script_library_simps)

lemma sample_ssl_connect:
  assumes "oc_ssl_handle c = Live" "tw_hosts (oc_world c) \<noteq> []" "tw_trusted (oc_world c)"
  shows "PerformSSLConnect (Suc fuel) script_library c = Inr (SUCCESS,
    c\<lparr>oc_world := (oc_world c)\<lparr>tw_open := fresh_fd (tw_open (oc_world c)) # tw_open (oc_world c)\<rparr>,
      oc_server_tcp_socket_fd := fresh_fd (tw_open (oc_world c))\<rparr>)"
  using assms
  by (simp add: PerformSSLConnect_def live_def lib_call_def lib_do_def sample_tcp SetSocketToNonBlocking_def verified_def
      script_library_simps)

lemma sample_connect_port:
  "tw_hosts w \<noteq> [] \<Longrightarrow> OpenSSL_ConnectInternal (Suc fuel) script_library (initialized_port w) = Inr (SUCCESS, connected_port w)"
  by (simp add: OpenSSL_ConnectInternal_def LoadCerts_def live_def lib_call_def lib_do_def set_verification_def Let_def
      sample_ssl_connect script_library_simps port_simps)

lemma sample_hosts [simp]: "tw_hosts (sample_world bs k) \<noteq> []" "tw_open (sample_world bs k) = []"
    "tw_input (sample_world bs k) = bs" "tw_record (sample_world bs k) = k" "tw_sent (sample_world bs k) = []"
  by (simp_all add: sample_world_def)

theorem connected_is_verified_witness:
  "oc_is_connected (connected_port (sample_world [] 0)) \<and> oc_ssl_handle (connected_port (sample_world [] 0)) = Live \<and>
   lib_verify_ok script_library (oc_world (connected_port (sample_world [] 0))) \<and>
   lib_peer_certificate script_library (oc_world (connected_port (sample_world [] 0)))"
  using connected_is_verified [OF sample_connect_port [OF sample_hosts(1), of 0 "[]" 0]] .

lemma sample_reachable:
  "(tls_step 1 0 script_library)\<^sup>*\<^sup>* (sample_port (sample_world bs k)) (connected_port (sample_world bs k))"
proof -
  have "tls_step 1 0 script_library (sample_port (sample_world bs k)) (initialized_port (sample_world bs k))"
    by (rule tls_initialize [OF sample_initialize])
  moreover have "tls_step 1 0 script_library (initialized_port (sample_world bs k)) (connected_port (sample_world bs k))"
    using sample_connect_port [of "sample_world bs k" 0] by (intro tls_connect) (simp_all add: port_simps)
  ultimately show ?thesis by auto
qed


lemma connected_tls_ok: "tls_ok (\<lambda>w. set (tw_open w)) (set (tw_open w)) (connected_port w)"
  using fresh_fd_not_open(1) [of "tw_open w"] by (simp add: tls_ok_def port_simps)

text \<open>The port, connected once more: two sockets are open.\<close>

lemma sample_connect_again:
  "tw_hosts w \<noteq> [] \<Longrightarrow> \<exists>c. OpenSSL_ConnectInternal 1 script_library (connected_port w) = Inr (SUCCESS, c)"
  by (simp add: OpenSSL_ConnectInternal_def live_def lib_call_def lib_do_def set_verification_def Let_def
      sample_ssl_connect [where fuel = 0, simplified] script_library_simps port_simps)

theorem reconnect_leaks_socket_witness:
  "\<exists>c1 rc c2. OpenSSL_ConnectInternal 1 script_library (connected_port (sample_world [] 0)) = Inr (SUCCESS, c1) \<and>
     OpenSSL_DisconnectInternal 0 script_library c1 = (rc, c2) \<and> 3 \<in> set (tw_open (oc_world c2)) \<and> \<not> oc_is_connected c2"
proof -
  obtain c1 where c1: "OpenSSL_ConnectInternal 1 script_library (connected_port (sample_world [] 0)) = Inr (SUCCESS, c1)"
    using sample_connect_again [OF sample_hosts(1)] by blast
  obtain rc c2 where c2: "OpenSSL_DisconnectInternal 0 script_library c1 = (rc, c2)" by fastforce
  have fd: "oc_server_tcp_socket_fd (connected_port (sample_world [] 0)) = 3" by (simp add: port_simps fresh_fd_def)
  have conn: "oc_is_connected (connected_port (sample_world [] 0))" by (simp add: port_simps)
  from reconnect_leaks_socket [OF script_socket_laws connected_tls_ok conn c1 c2] fd c1 c2 show ?thesis by auto
qed

theorem tls_read_exact_witness:
  "\<exists>c'. OpenSSL_ReadInternal 9 script_library [0, 0, 0] 0 3 0 (connected_port (sample_world [5, 6, 7, 8] 1)) = Inr (SUCCESS, [5, 6, 7], 3, c') \<and>
     tw_input (oc_world c') = [8]"
proof -
  let ?c = "connected_port (sample_world [5, 6, 7, 8] 1)"
  have ready: "tls_ready ?c" by (simp add: tls_ready_def port_simps)
  have input: "tw_input (oc_world ?c) = [5, 6, 7, 8]" by (simp add: port_simps)
  obtain buf' c' where loop: "ssl_read_loop 9 script_library 3 [0, 0, 0] 0 3 ?c = Inr (SUCCESS, buf', 3, c')"
    using ssl_read_loop_delivers [OF script_read_laws script_read_available ready, of 3 0 3 "[0, 0, 0]" 9] input by auto
  then have r: "OpenSSL_ReadInternal 9 script_library [0, 0, 0] 0 3 0 ?c = Inr (SUCCESS, buf', 3, c')"
    by (simp add: OpenSSL_ReadInternal_def)
  have "oc_is_connected ?c" by (simp add: port_simps)
  from tls_read_exact [OF script_read_laws this _ _ _ r] r input show ?thesis by simp
qed

theorem timeout_loses_bytes_witness:
  "\<exists>c'. OpenSSL_ReadInternal (Suc (Suc 0)) script_library [0, 0, 0] 0 3 0 (connected_port (sample_world [5, 6] 9)) =
      Inr (NETWORK_SSL_NOTHING_TO_READ, [5, 6, 0], 0, c') \<and> tw_input (oc_world c') = []"
proof -
  let ?c = "connected_port (sample_world [5, 6] 9)"
  have "oc_ssl_handle ?c = Live" "oc_is_connected ?c" by (simp_all add: port_simps)
  moreover have w: "tw_input (oc_world ?c) = [5, 6]" "tw_record (oc_world ?c) = 9" by (simp_all add: port_simps)
  ultimately show ?thesis
    using timeout_loses_bytes [OF script_read_laws, of ?c "[0, 0, 0]" 3 2 "[5, 6]" "(oc_world ?c)\<lparr>tw_input := []\<rparr>" "-1" "[]"
        "(oc_world ?c)\<lparr>tw_input := []\<rparr>" "(oc_world ?c)\<lparr>tw_input := []\<rparr>" 0 0]
    by (simp add: script_library_simps w)
qed

theorem offset_counted_as_read_witness:
  "\<exists>c'. OpenSSL_ReadInternal 1 script_library [1, 0, 0] 1 2 0 (connected_port (sample_world [5, 6] 0)) = Inr (SUCCESS, [1, 5, 0], 2, c') \<and>
     (\<exists>d. 2 = 1 + d \<and> tw_input (oc_world c') = drop d [5, 6 :: byte] \<and> d < 2)"
proof -
  let ?c = "connected_port (sample_world [5, 6] 0)"
  have conn: "oc_is_connected ?c" by (simp add: port_simps)
  have w: "tw_input (oc_world ?c) = [5, 6]" "tw_record (oc_world ?c) = 0" "oc_ssl_handle ?c = Live" by (simp_all add: port_simps)
  have "\<exists>c'. OpenSSL_ReadInternal 1 script_library [1, 0, 0] 1 2 0 ?c = Inr (SUCCESS, [1, 5, 0], 2, c')"
    by (simp add: OpenSSL_ReadInternal_def w lib_call_def script_library_simps to_int_small Let_def conn store_at_def
        size_add_def)
  then obtain c' where r: "OpenSSL_ReadInternal 1 script_library [1, 0, 0] 1 2 0 ?c = Inr (SUCCESS, [1, 5, 0], 2, c')" by blast
  from offset_counted_as_read [OF script_read_laws conn _ _ _ _ r] r w(1) show ?thesis by auto
qed

theorem tls_write_whole_witness:
  "\<exists>c'. OpenSSL_WriteInternal 1 script_library [1, 2] 0 (connected_port (sample_world [] 0)) = Inr (SUCCESS, 2, c') \<and>
     tw_sent (oc_world c') = [1, 2]"
proof -
  let ?c = "connected_port (sample_world [] 0)"
  have conn: "oc_is_connected ?c" by (simp add: port_simps)
  have sent: "tw_sent (oc_world ?c) = []" by (simp add: port_simps)
  have "\<exists>k c'. OpenSSL_WriteInternal 1 script_library [1, 2] 0 ?c = Inr (SUCCESS, k, c')"
    by (simp add: OpenSSL_WriteInternal_def port_simps lib_call_def script_library_def to_int_small Let_def size_add_def)
  then obtain k c' where r: "OpenSSL_WriteInternal 1 script_library [1, 2] 0 ?c = Inr (SUCCESS, k, c')" by blast
  from tls_write_whole [OF script_write_laws conn _ _ r] r sent show ?thesis by auto
qed

end
