(* ===== verification/MbedTLS.thy ===== *)
theory MbedTLS
  imports Network "HOL-Library.Signed_Division"
begin

text \<open>
  The second TLS port of the SDK (\<^verbatim>\<open>network/MbedTLS/MbedTLSConnection.cpp\<close>): every operation of the connection, and what
  they do to the stream of bytes, to the verification of the server and to the sockets.

  mbedTLS is a library: a record \<open>mbed_library\<close> of the calls the code makes and of the error numbers it looks at, over a
  state \<open>'w\<close> that holds the contexts of the library, the system, the clock and the peer. What a theorem relies on is a
  law of these calls. Calls whose result is only logged (version, cipher suite, record expansion, certificate texts)
  are left out.
\<close>

section \<open>The library\<close>

datatype mbed_context = Ctx_net | Ctx_ssl | Ctx_config | Ctx_ctr_drbg | Ctx_cacert | Ctx_clicert | Ctx_pkey | Ctx_entropy

datatype authmode = VERIFY_REQUIRED | VERIFY_OPTIONAL

record 'w mbed_library =
  ml_WANT_READ :: int
  ml_WANT_WRITE :: int
  ml_TIMEOUT :: int
  ml_SOCKET_FAILED :: int
  ml_UNKNOWN_HOST :: int
  ml_has_alpn :: bool
  ml_init :: "mbed_context \<Rightarrow> 'w \<Rightarrow> 'w"
  ml_free :: "mbed_context \<Rightarrow> 'w \<Rightarrow> 'w"
  ml_conf_alpn_protocols :: "bytes list \<Rightarrow> 'w \<Rightarrow> int \<times> 'w"
  ml_ctr_drbg_seed :: "bytes \<Rightarrow> 'w \<Rightarrow> int \<times> 'w"
  ml_x509_crt_parse_file :: "mbed_context \<Rightarrow> bytes \<Rightarrow> 'w \<Rightarrow> int \<times> 'w"
  ml_pk_parse_keyfile :: "bytes \<Rightarrow> 'w \<Rightarrow> int \<times> 'w"
  ml_net_connect :: "bytes \<Rightarrow> bytes \<Rightarrow> 'w \<Rightarrow> int \<times> 'w"
  ml_net_set_block :: "'w \<Rightarrow> int \<times> 'w"
  ml_config_defaults :: "'w \<Rightarrow> int \<times> 'w"
  ml_conf_verify :: "(int \<Rightarrow> u32 \<Rightarrow> int \<times> u32) \<Rightarrow> 'w \<Rightarrow> 'w"
  ml_conf_authmode :: "authmode \<Rightarrow> 'w \<Rightarrow> 'w"
  ml_conf_rng :: "'w \<Rightarrow> 'w"
  ml_conf_ca_chain :: "'w \<Rightarrow> 'w"
  ml_conf_own_cert :: "'w \<Rightarrow> int \<times> 'w"
  ml_conf_read_timeout :: "u32 \<Rightarrow> 'w \<Rightarrow> 'w"
  ml_set_hostname :: "bytes \<Rightarrow> 'w \<Rightarrow> int \<times> 'w"
  ml_set_bio :: "'w \<Rightarrow> 'w"
  ml_ssl_setup :: "'w \<Rightarrow> int \<times> 'w"
  ml_handshake :: "'w \<Rightarrow> int \<times> 'w"
  ml_get_verify_result :: "'w \<Rightarrow> u32"
  ml_write :: "bytes \<Rightarrow> 'w \<Rightarrow> int \<times> 'w"
  ml_read :: "nat \<Rightarrow> 'w \<Rightarrow> (int \<times> bytes) \<times> 'w"
  ml_close_notify :: "'w \<Rightarrow> int \<times> 'w"
  ml_clock :: "'w \<Rightarrow> int"

section \<open>The connection\<close>

text \<open>Timeouts are in milliseconds; \<open>flags_\<close> is the result of the last verification.\<close>

record 'w MbedTLSConnection =
  mc_root_ca_location :: bytes
  mc_device_cert_location :: bytes
  mc_device_private_key_location :: bytes
  mc_server_verification_flag :: bool
  mc_is_connected :: bool
  mc_tls_handshake_timeout :: int
  mc_tls_read_timeout :: int
  mc_tls_write_timeout :: int
  mc_endpoint_port :: u16
  mc_endpoint :: bytes
  mc_flags :: u32
  mc_enable_alpn :: bool
  mc_requires_free :: bool
  mc_world :: 'w

text \<open>The constructor without \<open>enable_alpn\<close> passes \<open>False\<close>.\<close>

definition MbedTLSConnection_new ::
  "bytes \<Rightarrow> u16 \<Rightarrow> bytes \<Rightarrow> bytes \<Rightarrow> bytes \<Rightarrow> int \<Rightarrow> int \<Rightarrow> int \<Rightarrow> bool \<Rightarrow> bool \<Rightarrow> 'w \<Rightarrow> 'w MbedTLSConnection" where
  "MbedTLSConnection_new endpoint endpoint_port root_ca_location device_cert_location device_private_key_location
      tls_handshake_timeout tls_read_timeout tls_write_timeout server_verification_flag enable_alpn w =
     \<lparr>mc_root_ca_location = root_ca_location, mc_device_cert_location = device_cert_location,
      mc_device_private_key_location = device_private_key_location,
      mc_server_verification_flag = server_verification_flag, mc_is_connected = False,
      mc_tls_handshake_timeout = tls_handshake_timeout, mc_tls_read_timeout = tls_read_timeout,
      mc_tls_write_timeout = tls_write_timeout, mc_endpoint_port = endpoint_port, mc_endpoint = endpoint,
      mc_flags = 0, mc_enable_alpn = enable_alpn, mc_requires_free = False, mc_world = w\<rparr>"

definition mbed_SetRootCAPath :: "bytes \<Rightarrow> 'w MbedTLSConnection \<Rightarrow> 'w MbedTLSConnection" where
  "mbed_SetRootCAPath root_ca_location c = c\<lparr>mc_root_ca_location := root_ca_location\<rparr>"

definition mbed_SetEndpointAndPort :: "bytes \<Rightarrow> u16 \<Rightarrow> 'w MbedTLSConnection \<Rightarrow> 'w MbedTLSConnection" where
  "mbed_SetEndpointAndPort endpoint endpoint_port c = c\<lparr>mc_endpoint := endpoint, mc_endpoint_port := endpoint_port\<rparr>"

text \<open>The callback for each certificate of the chain: it accepts and leaves the flags as they are.\<close>

definition VerifyCertificate :: "int \<Rightarrow> u32 \<Rightarrow> int \<times> u32" where
  "VerifyCertificate depth fl = (0, fl)"

definition mbed_call :: "('w \<Rightarrow> 'a \<times> 'w) \<Rightarrow> 'w MbedTLSConnection \<Rightarrow> 'a \<times> 'w MbedTLSConnection" where
  "mbed_call f c = (case f (mc_world c) of (r, w) \<Rightarrow> (r, c\<lparr>mc_world := w\<rparr>))"

definition mbed_do :: "('w \<Rightarrow> 'w) \<Rightarrow> 'w MbedTLSConnection \<Rightarrow> 'w MbedTLSConnection" where
  "mbed_do f c = c\<lparr>mc_world := f (mc_world c)\<rparr>"

text \<open>The pattern of the connect sequence: a call, an early return with \<open>err\<close> when its result is bad, or the rest.\<close>

type_synonym 'w connecting = "'w MbedTLSConnection \<Rightarrow> (ResponseCode \<times> 'w MbedTLSConnection) res"

definition attempt :: "('w \<Rightarrow> int \<times> 'w) \<Rightarrow> (int \<Rightarrow> bool) \<Rightarrow> (int \<Rightarrow> ResponseCode) \<Rightarrow> 'w connecting \<Rightarrow> 'w connecting" where
  "attempt f bad err rest c = (case mbed_call f c of (r, c) \<Rightarrow> if bad r then Inr (err r, c) else rest c)"

definition nonzero :: "int \<Rightarrow> bool" where
  "nonzero r \<longleftrightarrow> r \<noteq> 0"

section \<open>Connecting\<close>

definition init_contexts :: "'w mbed_library \<Rightarrow> 'w MbedTLSConnection \<Rightarrow> 'w MbedTLSConnection" where
  "init_contexts lib c =
     mbed_do (fold (ml_init lib) [Ctx_net, Ctx_ssl, Ctx_config, Ctx_ctr_drbg, Ctx_cacert, Ctx_clicert, Ctx_pkey]) c"

definition mbed_alpn_protocol_list :: "bytes list" where
  "mbed_alpn_protocol_list = [str ''x-amzn-mqtt-ca'']"

definition set_alpn :: "'w mbed_library \<Rightarrow> 'w connecting \<Rightarrow> 'w connecting" where
  "set_alpn lib rest c =
     (if mc_enable_alpn c then
        if ml_has_alpn lib
        then attempt (ml_conf_alpn_protocols lib mbed_alpn_protocol_list) nonzero (\<lambda>_. NETWORK_SSL_INIT_ERROR) rest c
        else Inr (NETWORK_SSL_INIT_ERROR, c)
      else rest c)"

definition load_credentials :: "'w mbed_library \<Rightarrow> 'w connecting \<Rightarrow> 'w connecting" where
  "load_credentials lib rest c =
     attempt (ml_ctr_drbg_seed lib (str ''aws_iot_tls_wrapper'')) nonzero (\<lambda>_. NETWORK_SSL_INIT_ERROR)
       (\<lambda>c. attempt (ml_x509_crt_parse_file lib Ctx_cacert (mc_root_ca_location c)) (\<lambda>r. r < 0)
              (\<lambda>_. NETWORK_SSL_ROOT_CRT_PARSE_ERROR)
       (\<lambda>c. attempt (ml_x509_crt_parse_file lib Ctx_clicert (mc_device_cert_location c)) nonzero
              (\<lambda>_. NETWORK_SSL_DEVICE_CRT_PARSE_ERROR)
       (\<lambda>c. attempt (ml_pk_parse_keyfile lib (mc_device_private_key_location c)) nonzero
              (\<lambda>_. NETWORK_SSL_KEY_PARSE_ERROR) rest c) c) c)
       (mbed_do (ml_init lib Ctx_entropy) (c\<lparr>mc_requires_free := True\<rparr>))"

definition port_text :: "u16 \<Rightarrow> bytes" where
  "port_text port = take 5 (nat_digits (unat port))"

definition open_socket :: "'w mbed_library \<Rightarrow> 'w connecting \<Rightarrow> 'w connecting" where
  "open_socket lib rest c =
     attempt (ml_net_connect lib (mc_endpoint c) (port_text (mc_endpoint_port c))) nonzero
       (\<lambda>r. if r = ml_SOCKET_FAILED lib then NETWORK_TCP_SETUP_ERROR
             else if r = ml_UNKNOWN_HOST lib then NETWORK_TCP_UNKNOWN_HOST else NETWORK_TCP_CONNECT_ERROR)
       (attempt (ml_net_set_block lib) nonzero (\<lambda>_. NETWORK_SSL_UNKNOWN_ERROR) rest) c"

text \<open>A number of milliseconds as \<open>uint32_t\<close>.\<close>

definition timeout_u32 :: "int \<Rightarrow> u32" where
  "timeout_u32 t = of_int t"

definition configure :: "'w mbed_library \<Rightarrow> 'w connecting \<Rightarrow> 'w connecting" where
  "configure lib rest c =
     attempt (ml_config_defaults lib) nonzero (\<lambda>_. NETWORK_SSL_UNKNOWN_ERROR)
       (\<lambda>c. attempt (ml_conf_own_cert lib) nonzero (\<lambda>_. NETWORK_SSL_UNKNOWN_ERROR)
         (\<lambda>c. attempt (ml_set_hostname lib (mc_endpoint c)) nonzero (\<lambda>_. NETWORK_SSL_UNKNOWN_ERROR)
           (\<lambda>c. attempt (ml_ssl_setup lib) nonzero (\<lambda>_. NETWORK_SSL_UNKNOWN_ERROR) rest (mbed_do (ml_set_bio lib) c))
           (mbed_do (ml_conf_read_timeout lib (timeout_u32 (mc_tls_handshake_timeout c))) c))
         (mbed_do (\<lambda>w. ml_conf_ca_chain lib (ml_conf_rng lib
            (ml_conf_authmode lib (if mc_server_verification_flag c then VERIFY_REQUIRED else VERIFY_OPTIONAL)
              (ml_conf_verify lib VerifyCertificate w)))) c)) c"

text \<open>The handshake is called again as long as the library asks for it; the fuel bounds that.\<close>

fun handshake_loop :: "nat \<Rightarrow> 'w mbed_library \<Rightarrow> 'w MbedTLSConnection \<Rightarrow> (bool \<times> 'w MbedTLSConnection) res" where
  "handshake_loop 0 lib c = Inl OutOfFuel"
| "handshake_loop (Suc fuel) lib c =
     (case mbed_call (ml_handshake lib) c of
        (r, c) \<Rightarrow>
          if r = 0 then Inr (True, c)
          else if r \<noteq> ml_WANT_READ lib \<and> r \<noteq> ml_WANT_WRITE lib then Inr (False, c)
          else handshake_loop fuel lib c)"

text \<open>The last part: whatever the verification says, the connection is connected afterwards.\<close>

definition check_server :: "'w mbed_library \<Rightarrow> 'w MbedTLSConnection \<Rightarrow> ResponseCode \<times> 'w MbedTLSConnection" where
  "check_server lib c =
     (let (rc, c) = (if mc_server_verification_flag c then
                       let fl = ml_get_verify_result lib (mc_world c); c = c\<lparr>mc_flags := fl\<rparr>
                       in (if fl \<noteq> 0 then NETWORK_SSL_SERVER_VERIFICATION_ERROR else SUCCESS, c)
                     else (SUCCESS, c))
      in (rc, (mbed_do (ml_conf_read_timeout lib (timeout_u32 (mc_tls_read_timeout c))) c)\<lparr>mc_is_connected := True\<rparr>))"

definition mbed_ConnectInternal :: "nat \<Rightarrow> 'w mbed_library \<Rightarrow> 'w connecting" where
  "mbed_ConnectInternal fuel lib c =
     set_alpn lib (load_credentials lib (open_socket lib (configure lib (\<lambda>c.
       bind_res (handshake_loop fuel lib c) (\<lambda>(finished, c).
         if \<not> finished then Inr (NETWORK_SSL_TLS_HANDSHAKE_ERROR, c) else Inr (check_server lib c)))))) (init_contexts lib c)"

section \<open>Writing and reading\<close>

text \<open>The clock is in nanoseconds; the elapsed time is cut to milliseconds. (The code does so through a \<open>double\<close>.)\<close>

definition elapsed_ms :: "int \<Rightarrow> int \<Rightarrow> int" where
  "elapsed_ms start now = (now - start) sdiv 1000000"

text \<open>The result: whether an error ended the loop, the bytes written, the time that had elapsed, the connection.\<close>

fun mbed_write_loop ::
  "nat \<Rightarrow> 'w mbed_library \<Rightarrow> int \<Rightarrow> bytes \<Rightarrow> nat \<Rightarrow> int \<Rightarrow> 'w MbedTLSConnection
   \<Rightarrow> (bool \<times> nat \<times> int \<times> 'w MbedTLSConnection) res" where
  "mbed_write_loop 0 lib start buf tot elapsed c = Inl OutOfFuel"
| "mbed_write_loop (Suc fuel) lib start buf tot elapsed c =
     (case mbed_call (ml_write lib (drop tot buf)) c of
        (r, c) \<Rightarrow>
          if \<not> 0 < r \<and> r \<noteq> ml_WANT_READ lib \<and> r \<noteq> ml_WANT_WRITE lib then Inr (True, tot, elapsed, c)
          else
            let tot = (if 0 < r then size_add tot (nat r) else tot);
                elapsed = elapsed_ms start (ml_clock lib (mc_world c))
            in if elapsed < mc_tls_write_timeout c \<and> tot < length buf then mbed_write_loop fuel lib start buf tot elapsed c
               else Inr (False, tot, elapsed, c))"

definition mbed_WriteInternal ::
  "nat \<Rightarrow> 'w mbed_library \<Rightarrow> bytes \<Rightarrow> nat \<Rightarrow> 'w MbedTLSConnection \<Rightarrow> (ResponseCode \<times> nat \<times> 'w MbedTLSConnection) res" where
  "mbed_WriteInternal fuel lib buf size_written c =
     bind_res (mbed_write_loop fuel lib (ml_clock lib (mc_world c)) buf 0 0 c)
       (\<lambda>(is_error, tot, elapsed, c).
          Inr (if is_error then NETWORK_SSL_WRITE_ERROR
               else if elapsed < mc_tls_write_timeout c \<and> tot \<noteq> length buf then NETWORK_SSL_WRITE_TIMEOUT_ERROR
               else SUCCESS, tot, c))"

text \<open>The result: whether an error ended the loop, the buffer, the bytes read, the output parameter, the connection.\<close>

fun mbed_read_loop ::
  "nat \<Rightarrow> 'w mbed_library \<Rightarrow> int \<Rightarrow> bytes \<Rightarrow> nat \<Rightarrow> nat \<Rightarrow> nat \<Rightarrow> nat \<Rightarrow> 'w MbedTLSConnection
   \<Rightarrow> (bool \<times> bytes \<times> nat \<times> nat \<times> 'w MbedTLSConnection) res" where
  "mbed_read_loop 0 lib start buf off tot remaining out c = Inl OutOfFuel"
| "mbed_read_loop (Suc fuel) lib start buf off tot remaining out c =
     (if length buf \<le> off then Inl OutOfBounds
      else case mbed_call (ml_read lib remaining) c of
        ((r, bs), c) \<Rightarrow>
          bind_res (if 0 < r then bind_res (store_at buf off bs) (\<lambda>buf.
                      Inr (buf, size_add off (nat r), size_add tot (nat r), size_sub remaining (nat r), size_add tot (nat r)))
                    else Inr (buf, off, tot, remaining, out))
            (\<lambda>(buf, off, tot, remaining, out).
               if \<not> 0 < r \<and> r \<noteq> ml_WANT_READ lib \<and> r \<noteq> ml_WANT_WRITE lib \<and> r \<noteq> ml_TIMEOUT lib
               then Inr (True, buf, tot, out, c)
               else if 0 < remaining \<and> elapsed_ms start (ml_clock lib (mc_world c)) < mc_tls_read_timeout c
               then mbed_read_loop fuel lib start buf off tot remaining out c
               else Inr (False, buf, tot, out, c)))"

definition mbed_ReadInternal ::
  "nat \<Rightarrow> 'w mbed_library \<Rightarrow> bytes \<Rightarrow> nat \<Rightarrow> nat \<Rightarrow> nat \<Rightarrow> 'w MbedTLSConnection
   \<Rightarrow> (ResponseCode \<times> bytes \<times> nat \<times> 'w MbedTLSConnection) res" where
  "mbed_ReadInternal fuel lib buf buf_read_offset size_bytes_to_read size_read c =
     bind_res (mbed_read_loop fuel lib (ml_clock lib (mc_world c)) buf buf_read_offset 0 size_bytes_to_read size_read c)
       (\<lambda>(is_error, buf, tot, out, c).
          Inr (if is_error then NETWORK_SSL_READ_ERROR
               else if tot = 0 then NETWORK_SSL_NOTHING_TO_READ
               else if out = size_bytes_to_read then SUCCESS
               else if 0 < tot then NETWORK_SSL_READ_TIMEOUT_ERROR
               else NETWORK_SSL_READ_ERROR, buf, out, c))"

section \<open>Disconnecting\<close>

fun close_loop :: "nat \<Rightarrow> 'w mbed_library \<Rightarrow> 'w MbedTLSConnection \<Rightarrow> 'w MbedTLSConnection res" where
  "close_loop 0 lib c = Inl OutOfFuel"
| "close_loop (Suc fuel) lib c =
     (case mbed_call (ml_close_notify lib) c of
        (r, c) \<Rightarrow> if r = ml_WANT_WRITE lib then close_loop fuel lib c else Inr c)"

definition free_contexts :: "'w mbed_library \<Rightarrow> 'w MbedTLSConnection \<Rightarrow> 'w MbedTLSConnection" where
  "free_contexts lib c =
     (if mc_requires_free c
      then (mbed_do (fold (ml_free lib)
              [Ctx_net, Ctx_clicert, Ctx_cacert, Ctx_pkey, Ctx_ssl, Ctx_config, Ctx_ctr_drbg, Ctx_entropy]) c)
            \<lparr>mc_requires_free := False\<rparr>
      else c)"

definition mbed_DisconnectInternal :: "nat \<Rightarrow> 'w mbed_library \<Rightarrow> 'w connecting" where
  "mbed_DisconnectInternal fuel lib c =
     bind_res (if mc_is_connected c then close_loop fuel lib c else Inr c)
       (\<lambda>c. Inr (SUCCESS, (free_contexts lib c)\<lparr>mc_is_connected := False\<rparr>))"

definition MbedTLSConnection_destroy :: "nat \<Rightarrow> 'w mbed_library \<Rightarrow> 'w MbedTLSConnection \<Rightarrow> 'w MbedTLSConnection res" where
  "MbedTLSConnection_destroy fuel lib c = bind_res (mbed_DisconnectInternal fuel lib c) (\<lambda>(rc, c). Inr c)"

text \<open>
  The port behind the interface. Where the code would fault, or the bound on a loop is used up, the operation fails
  here and changes nothing; the theorems say when that does not happen.
\<close>

definition mbedtls_connection :: "nat \<Rightarrow> 'w mbed_library \<Rightarrow> 'w MbedTLSConnection NetworkConnection" where
  "mbedtls_connection fuel lib =
     \<lparr>nc_IsConnected = mc_is_connected,
      nc_ConnectInternal = (\<lambda>c. or_failed (NETWORK_SSL_CONNECT_ERROR, c) (mbed_ConnectInternal fuel lib c)),
      nc_DisconnectInternal = (\<lambda>c. or_failed (FAILURE, c) (mbed_DisconnectInternal fuel lib c)),
      nc_WriteInternal = (\<lambda>buf k c. or_failed (NETWORK_SSL_WRITE_ERROR, k, c) (mbed_WriteInternal fuel lib buf k c)),
      nc_ReadInternal = (\<lambda>buf off sz k c.
        or_failed (NETWORK_SSL_READ_ERROR, buf, k, c) (mbed_ReadInternal fuel lib buf off sz k c))\<rparr>"

section \<open>What the connect sequence does\<close>

text \<open>A call leaves an observation \<open>J\<close> of the state of the library alone.\<close>

definition quiet :: "('w \<Rightarrow> 'x) \<Rightarrow> ('w \<Rightarrow> 'a \<times> 'w) \<Rightarrow> bool" where
  "quiet J f \<longleftrightarrow> (\<forall>w r w'. f w = (r, w') \<longrightarrow> J w' = J w)"

text \<open>So do all calls but those of the network context and the transfer of data.\<close>

definition keeps :: "'w mbed_library \<Rightarrow> ('w \<Rightarrow> 'x) \<Rightarrow> bool" where
  "keeps lib J \<longleftrightarrow>
     (\<forall>x w. x \<noteq> Ctx_net \<longrightarrow> J (ml_init lib x w) = J w \<and> J (ml_free lib x w) = J w) \<and>
     (\<forall>p. quiet J (ml_conf_alpn_protocols lib p)) \<and> (\<forall>p. quiet J (ml_ctr_drbg_seed lib p)) \<and>
     (\<forall>x p. quiet J (ml_x509_crt_parse_file lib x p)) \<and> (\<forall>p. quiet J (ml_pk_parse_keyfile lib p)) \<and>
     quiet J (ml_net_set_block lib) \<and> quiet J (ml_config_defaults lib) \<and> quiet J (ml_conf_own_cert lib) \<and>
     (\<forall>p. quiet J (ml_set_hostname lib p)) \<and> quiet J (ml_ssl_setup lib) \<and> quiet J (ml_handshake lib) \<and>
     quiet J (ml_close_notify lib) \<and>
     (\<forall>f w. J (ml_conf_verify lib f w) = J w) \<and> (\<forall>m w. J (ml_conf_authmode lib m w) = J w) \<and>
     (\<forall>w. J (ml_conf_rng lib w) = J w) \<and> (\<forall>w. J (ml_conf_ca_chain lib w) = J w) \<and>
     (\<forall>t w. J (ml_conf_read_timeout lib t w) = J w) \<and> (\<forall>w. J (ml_set_bio lib w) = J w)"

lemma keeps_quiet:
  assumes "keeps lib J"
  shows "quiet J (ml_conf_alpn_protocols lib ps)" "quiet J (ml_ctr_drbg_seed lib p)"
    "quiet J (ml_x509_crt_parse_file lib x p)" "quiet J (ml_pk_parse_keyfile lib p)" "quiet J (ml_net_set_block lib)"
    "quiet J (ml_config_defaults lib)" "quiet J (ml_conf_own_cert lib)" "quiet J (ml_set_hostname lib p)"
    "quiet J (ml_ssl_setup lib)" "quiet J (ml_handshake lib)" "quiet J (ml_close_notify lib)"
  using assms by (simp_all add: keeps_def)

lemma keeps_do:
  assumes "keeps lib J"
  shows "x \<noteq> Ctx_net \<Longrightarrow> J (ml_init lib x w) = J w" "x \<noteq> Ctx_net \<Longrightarrow> J (ml_free lib x w) = J w"
    "J (ml_conf_verify lib f w) = J w" "J (ml_conf_authmode lib m w) = J w" "J (ml_conf_rng lib w) = J w"
    "J (ml_conf_ca_chain lib w) = J w" "J (ml_conf_read_timeout lib t w) = J w" "J (ml_set_bio lib w) = J w"
  using assms by (simp_all add: keeps_def)

definition early_codes :: "ResponseCode set" where
  "early_codes = {NETWORK_SSL_INIT_ERROR, NETWORK_SSL_ROOT_CRT_PARSE_ERROR, NETWORK_SSL_DEVICE_CRT_PARSE_ERROR,
     NETWORK_SSL_KEY_PARSE_ERROR, NETWORK_TCP_SETUP_ERROR, NETWORK_TCP_UNKNOWN_HOST, NETWORK_TCP_CONNECT_ERROR,
     NETWORK_SSL_UNKNOWN_ERROR}"

lemma early_codes_in:
  "NETWORK_SSL_INIT_ERROR \<in> early_codes" "NETWORK_SSL_ROOT_CRT_PARSE_ERROR \<in> early_codes"
  "NETWORK_SSL_DEVICE_CRT_PARSE_ERROR \<in> early_codes" "NETWORK_SSL_KEY_PARSE_ERROR \<in> early_codes"
  "NETWORK_TCP_SETUP_ERROR \<in> early_codes" "NETWORK_TCP_UNKNOWN_HOST \<in> early_codes"
  "NETWORK_TCP_CONNECT_ERROR \<in> early_codes" "NETWORK_SSL_UNKNOWN_ERROR \<in> early_codes"
  by (simp_all add: early_codes_def)

lemma keeps_trivial: "keeps lib (\<lambda>_. ())"
  by (simp add: keeps_def quiet_def)

text \<open>What stays of the connection and of the observation during the sequence.\<close>

definition moves :: "('w \<Rightarrow> 'x) \<Rightarrow> 'w MbedTLSConnection \<Rightarrow> 'w MbedTLSConnection \<Rightarrow> bool" where
  "moves J c c' \<longleftrightarrow>
     mc_is_connected c' = mc_is_connected c \<and> mc_server_verification_flag c' = mc_server_verification_flag c \<and>
     J (mc_world c') = J (mc_world c)"

lemma moves_refl [simp]: "moves J c c"
  by (simp add: moves_def)

lemma moves_do: "moves J c0 c \<Longrightarrow> (\<And>w. J (g w) = J w) \<Longrightarrow> moves J c0 (mbed_do g c)"
  by (simp add: moves_def mbed_do_def)

lemma moves_requires_free [simp]: "moves J c0 (c\<lparr>mc_requires_free := b\<rparr>) = moves J c0 c"
  by (simp add: moves_def)

text \<open>A part of the sequence ends in an early return or goes on with the rest.\<close>

definition reaches ::
  "('w \<Rightarrow> 'x) \<Rightarrow> 'w MbedTLSConnection \<Rightarrow> ResponseCode \<times> 'w MbedTLSConnection \<Rightarrow> 'w connecting \<Rightarrow> bool" where
  "reaches J c0 y rest \<longleftrightarrow>
     fst y \<in> early_codes \<and> moves J c0 (snd y) \<or> (\<exists>c1. moves J c0 c1 \<and> rest c1 = Inr y)"

lemma reachesI: "rest c = Inr y \<Longrightarrow> moves J c0 c \<Longrightarrow> reaches J c0 y rest"
  by (auto simp: reaches_def)

lemma reaches_trans:
  assumes "reaches J c0 y rest" and "\<And>c. moves J c0 c \<Longrightarrow> rest c = Inr y \<Longrightarrow> reaches J c0 y rest'"
  shows "reaches J c0 y rest'"
  using assms unfolding reaches_def by blast

lemma attempt_cases:
  assumes "attempt f bad err rest c = Inr y"
  obtains r w where "f (mc_world c) = (r, w)" "bad r" "y = (err r, c\<lparr>mc_world := w\<rparr>)"
    | r w where "f (mc_world c) = (r, w)" "\<not> bad r" "rest (c\<lparr>mc_world := w\<rparr>) = Inr y"
  using assms by (auto simp: attempt_def mbed_call_def split: prod.splits if_splits)

lemma attempt_reaches:
  assumes "attempt f bad err rest c = Inr y" "quiet J f" "moves J c0 c" "\<And>r. err r \<in> early_codes"
  shows "reaches J c0 y rest"
  using assms(1)
proof (cases rule: attempt_cases)
  case (1 r w)
  then show ?thesis using assms(2-4) by (auto simp: reaches_def moves_def quiet_def)
next
  case (2 r w)
  then have "moves J c0 (c\<lparr>mc_world := w\<rparr>)" using assms(2,3) by (auto simp: moves_def quiet_def)
  with 2 show ?thesis by (intro reachesI)
qed

lemma set_alpn_reaches:
  assumes "set_alpn lib rest c = Inr y" "keeps lib J" "moves J c0 c"
  shows "reaches J c0 y rest"
proof (cases "mc_enable_alpn c \<and> ml_has_alpn lib")
  case True
  then have "attempt (ml_conf_alpn_protocols lib mbed_alpn_protocol_list) nonzero (\<lambda>_. NETWORK_SSL_INIT_ERROR) rest c = Inr y"
    using assms(1) by (simp add: set_alpn_def)
  then show ?thesis by (rule attempt_reaches [OF _ keeps_quiet(1) [OF assms(2)] assms(3) early_codes_in(1)])
next
  case False
  then show ?thesis using assms(1,3) by (auto simp: set_alpn_def reaches_def early_codes_def split: if_splits)
qed

lemma load_credentials_reaches:
  assumes "load_credentials lib rest c = Inr y" "keeps lib J" "moves J c0 c"
  shows "reaches J c0 y rest"
proof -
  have start: "moves J c0 (mbed_do (ml_init lib Ctx_entropy) (c\<lparr>mc_requires_free := True\<rparr>))"
    by (intro moves_do) (simp_all add: assms(3) keeps_do [OF assms(2)])
  note quiet = keeps_quiet [OF assms(2)]
  show ?thesis
    by (rule reaches_trans [OF attempt_reaches [OF assms(1) [unfolded load_credentials_def] quiet(2) start early_codes_in(1)]],
        rule reaches_trans [OF attempt_reaches [OF _ quiet(3) _ early_codes_in(2)]], assumption, assumption,
        rule reaches_trans [OF attempt_reaches [OF _ quiet(3) _ early_codes_in(3)]], assumption, assumption,
        rule attempt_reaches [OF _ quiet(4) _ early_codes_in(4)])
qed

lemma configure_reaches:
  assumes "configure lib rest c = Inr y" "keeps lib J" "moves J c0 c"
  shows "reaches J c0 y rest"
proof -
  note quiet = keeps_quiet [OF assms(2)]
  have more: "moves J c0 (mbed_do (ml_set_bio lib) c)" "moves J c0 (mbed_do (ml_conf_read_timeout lib t) c)"
    "moves J c0 (mbed_do (\<lambda>w. ml_conf_ca_chain lib (ml_conf_rng lib (ml_conf_authmode lib m (ml_conf_verify lib f w)))) c)"
    if "moves J c0 c" for c t m f
    by (intro moves_do that; simp add: keeps_do [OF assms(2)])+
  show ?thesis
    by (rule reaches_trans [OF attempt_reaches [OF assms(1) [unfolded configure_def] quiet(6) assms(3) early_codes_in(8)]],
        rule reaches_trans [OF attempt_reaches [OF _ quiet(7) more(3) early_codes_in(8)]], assumption, assumption,
        rule reaches_trans [OF attempt_reaches [OF _ quiet(8) more(2) early_codes_in(8)]], assumption, assumption,
        rule attempt_reaches [OF _ quiet(9) more(1) early_codes_in(8)])
qed

lemma handshake_loop_moves:
  assumes "handshake_loop fuel lib c = Inr (finished, c')" "keeps lib J" "moves J c0 c"
  shows "moves J c0 c'" and "finished \<Longrightarrow> \<exists>w. ml_handshake lib w = (0, mc_world c')"
proof -
  have "moves J c0 c' \<and> (finished \<longrightarrow> (\<exists>w. ml_handshake lib w = (0, mc_world c')))"
    using assms
  proof (induction fuel arbitrary: c)
    case (Suc fuel)
    obtain r w where h: "ml_handshake lib (mc_world c) = (r, w)" by fastforce
    have nxt: "moves J c0 (c\<lparr>mc_world := w\<rparr>)"
      using Suc.prems(3) h keeps_quiet(10) [OF Suc.prems(2)] by (simp add: quiet_def moves_def)
    show ?case
    proof (cases "r \<noteq> 0 \<and> (r = ml_WANT_READ lib \<or> r = ml_WANT_WRITE lib)")
      case True
      then have "handshake_loop fuel lib (c\<lparr>mc_world := w\<rparr>) = Inr (finished, c')"
        using Suc.prems(1) h by (auto simp: mbed_call_def)
      then show ?thesis using Suc.IH Suc.prems(2) nxt by blast
    next
      case False
      then show ?thesis using Suc.prems(1) h nxt by (auto simp: mbed_call_def split: if_splits)
    qed
  qed simp
  then show "moves J c0 c'" "finished \<Longrightarrow> \<exists>w. ml_handshake lib w = (0, mc_world c')" by blast+
qed

lemma check_server_moves: "keeps lib J \<Longrightarrow> J (mc_world (snd (check_server lib c))) = J (mc_world c)"
  by (simp add: check_server_def mbed_do_def keeps_do Let_def)

text \<open>The sequence: before the socket, at the socket, and behind it.\<close>

lemma mbed_connect_cases:
  assumes "mbed_ConnectInternal fuel lib c = Inr (rc, c')" "keeps lib J"
  obtains "rc \<in> early_codes" "moves J (mbed_do (ml_init lib Ctx_net) c) c'"
    | host port c1 r w where "moves J (mbed_do (ml_init lib Ctx_net) c) c1" "ml_net_connect lib host port (mc_world c1) = (r, w)"
        "r \<noteq> 0" "rc \<in> early_codes" "c' = c1\<lparr>mc_world := w\<rparr>"
    | host port c1 w where "moves J (mbed_do (ml_init lib Ctx_net) c) c1" "ml_net_connect lib host port (mc_world c1) = (0, w)"
        "moves J (c1\<lparr>mc_world := w\<rparr>) c'" "rc \<in> insert NETWORK_SSL_TLS_HANDSHAKE_ERROR early_codes"
    | host port c1 w w1 c2 where "moves J (mbed_do (ml_init lib Ctx_net) c) c1"
        "ml_net_connect lib host port (mc_world c1) = (0, w)" "moves J (c1\<lparr>mc_world := w\<rparr>) c2"
        "ml_handshake lib w1 = (0, mc_world c2)" "(rc, c') = check_server lib c2"
proof -
  let ?c = "mbed_do (ml_init lib Ctx_net) c"
  let ?last = "\<lambda>c. bind_res (handshake_loop fuel lib c) (\<lambda>(finished, c).
    if \<not> finished then Inr (NETWORK_SSL_TLS_HANDSHAKE_ERROR, c) else Inr (check_server lib c))"
  have "moves J ?c (init_contexts lib c)"
    by (simp add: init_contexts_def mbed_do_def moves_def keeps_do [OF assms(2)])
  note 1 = set_alpn_reaches [OF assms(1) [unfolded mbed_ConnectInternal_def] assms(2) this]
  have "reaches J ?c (rc, c') (open_socket lib (configure lib ?last))"
    by (rule reaches_trans [OF 1]) (rule load_credentials_reaches [OF _ assms(2)])
  then consider "rc \<in> early_codes" "moves J ?c c'"
    | c1 where "moves J ?c c1" "open_socket lib (configure lib ?last) c1 = Inr (rc, c')" by (auto simp: reaches_def)
  then show thesis
  proof cases
    case 1
    then show thesis by (rule that(1))
  next
    case (2 c1)
    show thesis
      using 2(2) [unfolded open_socket_def]
    proof (cases rule: attempt_cases)
      case (1 r w)
      then show thesis using 2(1) by (intro that(2)) (auto simp: nonzero_def early_codes_def)
    next
      case s: (2 r w)
      then have r: "r = 0" by (simp add: nonzero_def)
      have "reaches J (c1\<lparr>mc_world := w\<rparr>) (rc, c') (configure lib ?last)"
        by (rule attempt_reaches [OF s(3) keeps_quiet(5) [OF assms(2)] moves_refl early_codes_in(8)])
      then have "reaches J (c1\<lparr>mc_world := w\<rparr>) (rc, c') ?last"
        by (rule reaches_trans) (rule configure_reaches [OF _ assms(2)])
      then consider "rc \<in> early_codes" "moves J (c1\<lparr>mc_world := w\<rparr>) c'"
        | c2 finished c3 where "moves J (c1\<lparr>mc_world := w\<rparr>) c2" "handshake_loop fuel lib c2 = Inr (finished, c3)"
          "(if \<not> finished then (NETWORK_SSL_TLS_HANDSHAKE_ERROR, c3) else check_server lib c3) = (rc, c')"
        by (fastforce simp: reaches_def bind_res_Inr_iff split: if_splits)
      then show thesis
      proof cases
        case 1
        then show thesis using 2(1) s(1) r by (intro that(3)) auto
      next
        case e: (2 c2 finished c3)
        note h = handshake_loop_moves [OF e(2) assms(2) e(1)]
        show thesis
        proof (cases "finished")
          case True
          with h(2) obtain w1 where "ml_handshake lib w1 = (0, mc_world c3)" by blast
          then show thesis using True e(3) 2(1) s(1) r h(1) by (intro that(4) [of c1 _ _ w c3 w1]) auto
        next
          case False
          then show thesis using e(3) 2(1) s(1) r h(1) by (intro that(3)) auto
        qed
      qed
    qed
  qed
qed

section \<open>The verification of the server\<close>

text \<open>a connect that succeeds with verification on has finished a handshake whose verification result is zero. When the
  result is not zero the connect reports it, yet the connection counts as connected; after every other failure it is
  as connected as before.\<close>

theorem mbed_connect_verdict:
  assumes "mbed_ConnectInternal fuel lib c = Inr (rc, c')"
  shows "(rc = SUCCESS \<longrightarrow> mc_is_connected c' \<and>
      (mc_server_verification_flag c \<longrightarrow> (\<exists>w0 w. ml_handshake lib w0 = (0, w) \<and> ml_get_verify_result lib w = 0))) \<and>
    (rc = NETWORK_SSL_SERVER_VERIFICATION_ERROR \<longrightarrow> mc_is_connected c' \<and> mc_flags c' \<noteq> 0) \<and>
    (rc \<noteq> SUCCESS \<and> rc \<noteq> NETWORK_SSL_SERVER_VERIFICATION_ERROR \<longrightarrow> mc_is_connected c' = mc_is_connected c)"
  using assms keeps_trivial
  by (cases rule: mbed_connect_cases)
    (auto simp: early_codes_def moves_def mbed_do_def check_server_def Let_def split: if_splits)

section \<open>Sockets\<close>

text \<open>
  \<open>socks\<close> are the open sockets, \<open>cur\<close> is the one of the network context. Initialising the context forgets it, connecting
  opens a new one, freeing the context closes its own.
\<close>

definition mbed_socket_laws :: "'w mbed_library \<Rightarrow> ('w \<Rightarrow> int set) \<Rightarrow> ('w \<Rightarrow> int option) \<Rightarrow> bool" where
  "mbed_socket_laws lib socks cur \<longleftrightarrow>
     keeps lib (\<lambda>w. (socks w, cur w)) \<and>
     (\<forall>w. socks (ml_init lib Ctx_net w) = socks w \<and> cur (ml_init lib Ctx_net w) = None) \<and>
     (\<forall>w. socks (ml_free lib Ctx_net w) = socks w - set_option (cur w) \<and> cur (ml_free lib Ctx_net w) = None) \<and>
     (\<forall>host port w r w'. ml_net_connect lib host port w = (r, w') \<longrightarrow>
        (if r = 0 then \<exists>fd. fd \<notin> socks w \<and> socks w' = insert fd (socks w) \<and> cur w' = Some fd else socks w' = socks w))"

lemma mbed_socket_open:
  assumes "mbed_socket_laws lib socks cur" "mbed_ConnectInternal fuel lib c = Inr (rc, c')"
    and "rc = SUCCESS \<or> rc = NETWORK_SSL_TLS_HANDSHAKE_ERROR"
  shows "\<exists>fd. fd \<notin> socks (mc_world c) \<and> socks (mc_world c') = insert fd (socks (mc_world c)) \<and> cur (mc_world c') = Some fd"
proof -
  have laws: "keeps lib (\<lambda>w. (socks w, cur w))"
    "\<And>w. socks (ml_init lib Ctx_net w) = socks w"
    "\<And>host port w w'. ml_net_connect lib host port w = (0, w') \<Longrightarrow>
      \<exists>fd. fd \<notin> socks w \<and> socks w' = insert fd (socks w) \<and> cur w' = Some fd"
    using assms(1) unfolding mbed_socket_laws_def by (blast, blast, metis)
  have late: "rc \<notin> early_codes" using assms(3) by (auto simp: early_codes_def)
  from assms(2) laws(1) show ?thesis
  proof (cases rule: mbed_connect_cases)
    case (3 host port c1 w)
    with laws(3) [OF 3(2)] show ?thesis by (auto simp: moves_def mbed_do_def laws(2))
  next
    case (4 host port c1 w w1 c2)
    have "mc_world c' = ml_conf_read_timeout lib (timeout_u32 (mc_tls_read_timeout c2)) (mc_world c2)"
      using 4(5) by (auto simp: check_server_def mbed_do_def Let_def split: if_splits)
    with keeps_do(7) [OF laws(1)] have "socks (mc_world c') = socks (mc_world c2)" "cur (mc_world c') = cur (mc_world c2)"
      by auto
    with laws(3) [OF 4(2)] 4(1,3) show ?thesis by (auto simp: moves_def mbed_do_def laws(2))
  qed (use late in auto)
qed

lemma close_loop_keeps:
  assumes "close_loop fuel lib c = Inr c'" "keeps lib J"
  shows "J (mc_world c') = J (mc_world c)"
  using assms(1)
proof (induction fuel arbitrary: c)
  case (Suc fuel)
  obtain r w where h: "ml_close_notify lib (mc_world c) = (r, w)" by fastforce
  have "J w = J (mc_world c)" using h keeps_quiet(11) [OF assms(2)] by (simp add: quiet_def)
  then show ?case
    using Suc.prems Suc.IH [of "c\<lparr>mc_world := w\<rparr>"] h by (auto simp: mbed_call_def split: if_splits)
qed simp

lemma mbed_socket_close:
  assumes "mbed_socket_laws lib socks cur" "mbed_DisconnectInternal fuel lib c = Inr (rc, c')"
  shows "socks (mc_world c) - set_option (cur (mc_world c)) \<subseteq> socks (mc_world c')"
proof -
  have laws: "keeps lib (\<lambda>w. (socks w, cur w))"
    "\<And>w. socks (ml_free lib Ctx_net w) = socks w - set_option (cur w)"
    using assms(1) unfolding mbed_socket_laws_def by blast+
  obtain c1 where c1: "(if mc_is_connected c then close_loop fuel lib c else Inr c) = Inr c1"
    and c': "c' = (free_contexts lib c1)\<lparr>mc_is_connected := False\<rparr>"
    using assms(2) by (auto simp: mbed_DisconnectInternal_def bind_res_Inr_iff)
  have same: "socks (mc_world c1) = socks (mc_world c)" "cur (mc_world c1) = cur (mc_world c)"
    using c1 close_loop_keeps [OF _ laws(1), of fuel c c1] by (auto split: if_splits)
  have "socks (ml_free lib x w) = socks w" if "x \<noteq> Ctx_net" for x w using keeps_do(2) [OF laws(1) that] by simp
  then show ?thesis using same by (auto simp: c' free_contexts_def mbed_do_def laws(2))
qed

text \<open>a handshake that fails leaves its socket open, and connecting again forgets it: after the retry succeeded and
  the connection was closed, a socket is open that was not open before the first attempt.\<close>

theorem failed_handshake_leaks_socket:
  assumes "mbed_socket_laws lib socks cur"
    and "mbed_ConnectInternal fuel lib c = Inr (NETWORK_SSL_TLS_HANDSHAKE_ERROR, c1)"
    and "mbed_ConnectInternal fuel lib c1 = Inr (SUCCESS, c2)" "mbed_DisconnectInternal fuel lib c2 = Inr (rc, c3)"
  shows "\<exists>fd. fd \<notin> socks (mc_world c) \<and> fd \<in> socks (mc_world c3)"
proof -
  obtain fd where fd: "fd \<notin> socks (mc_world c)" "socks (mc_world c1) = insert fd (socks (mc_world c))"
    using mbed_socket_open [OF assms(1,2)] by blast
  obtain fd' where "fd' \<notin> socks (mc_world c1)" "socks (mc_world c2) = insert fd' (socks (mc_world c1))" "cur (mc_world c2) = Some fd'"
    using mbed_socket_open [OF assms(1,3)] by blast
  with fd mbed_socket_close [OF assms(1,4)] show ?thesis by auto
qed

section \<open>Writing\<close>

text \<open>\<open>sent\<close> is what the library has taken for sending: with a positive result a prefix of what it was given.\<close>

definition mbed_write_laws :: "'w mbed_library \<Rightarrow> ('w \<Rightarrow> bytes) \<Rightarrow> bool" where
  "mbed_write_laws lib sent \<longleftrightarrow>
     (\<forall>bs w r w'. ml_write lib bs w = (r, w') \<longrightarrow>
        (if 0 < r then nat r \<le> length bs \<and> sent w' = sent w @ take (nat r) bs else sent w' = sent w))"

lemma mbed_write_loop_effect:
  assumes laws: "mbed_write_laws lib sent" and "length buf < 2 ^ 64"
    and "mbed_write_loop fuel lib start buf tot el c = Inr (err, tot', el', c')" "tot \<le> length buf"
  shows "tot \<le> tot' \<and> tot' \<le> length buf \<and>
    sent (mc_world c') = sent (mc_world c) @ take (tot' - tot) (drop tot buf) \<and>
    mc_tls_write_timeout c' = mc_tls_write_timeout c \<and>
    (\<not> err \<longrightarrow> el' = elapsed_ms start (ml_clock lib (mc_world c')) \<and> (tot' = length buf \<or> mc_tls_write_timeout c \<le> el'))"
  using assms(3,4)
proof (induction fuel arbitrary: tot el c)
  case (Suc fuel)
  obtain r w where w: "ml_write lib (drop tot buf) (mc_world c) = (r, w)" by fastforce
  let ?c = "c\<lparr>mc_world := w\<rparr>" and ?k = "if 0 < r then nat r else 0"
  have step: "tot + ?k \<le> length buf" "sent w = sent (mc_world c) @ take ?k (drop tot buf)"
    using laws w Suc.prems(2) unfolding mbed_write_laws_def by fastforce+
  then have add: "(if 0 < r then size_add tot (nat r) else tot) = tot + ?k"
    using assms(2) by (auto simp: size_add_small)
  let ?el = "elapsed_ms start (ml_clock lib w)"
  consider "err" "tot' = tot" "c' = ?c" "\<not> 0 < r"
    | "?el < mc_tls_write_timeout c" "tot + ?k < length buf"
      "mbed_write_loop fuel lib start buf (tot + ?k) ?el ?c = Inr (err, tot', el', c')"
    | "\<not> err" "tot' = tot + ?k" "el' = ?el" "c' = ?c" "tot' = length buf \<or> mc_tls_write_timeout c \<le> el'"
    using Suc.prems(1) step(1)
    by (auto simp: mbed_call_def w Let_def add simp del: One_nat_def split: if_splits)
  then show ?case
  proof cases
    case 1
    then show ?thesis using step Suc.prems(2) by simp
  next
    case 2
    note IH = Suc.IH [OF 2(3) step(1)]
    then have "take (tot' - tot) (drop tot buf) = take ?k (drop tot buf) @ take (tot' - (tot + ?k)) (drop (tot + ?k) buf)"
      using take_add [of ?k "tot' - (tot + ?k)" "drop tot buf"] by (simp add: add.commute)
    with IH step(2) show ?thesis by (cases err) auto
  next
    case 3
    then show ?thesis using step by simp
  qed
qed simp

text \<open>C37: a write never reports a timeout. The library has taken exactly the prefix of the buffer whose length is
  reported; a write that ran out of time is reported as a success with a smaller number.\<close>

theorem mbed_write_never_times_out:
  assumes "mbed_write_laws lib sent" "length buf < 2 ^ 64"
    and "mbed_WriteInternal fuel lib buf k0 c = Inr (rc, k, c')"
  shows "(rc = SUCCESS \<or> rc = NETWORK_SSL_WRITE_ERROR) \<and> k \<le> length buf \<and>
    sent (mc_world c') = sent (mc_world c) @ take k buf \<and>
    (rc = SUCCESS \<and> k < length buf \<longrightarrow>
      mc_tls_write_timeout c \<le> elapsed_ms (ml_clock lib (mc_world c)) (ml_clock lib (mc_world c')))"
  using assms mbed_write_loop_effect [OF assms(1,2)]
  by (fastforce simp: mbed_WriteInternal_def bind_res_Inr_iff split: if_splits)

lemma mbed_honest:
  assumes "mbed_write_laws lib sent"
  shows "honest_writer (mbedtls_connection fuel lib)"
proof -
  have "k \<le> length buf" if small: "length buf < 2 ^ 31"
    and w: "nc_WriteInternal (mbedtls_connection fuel lib) buf 0 c = (rc, k, c')" for buf c rc k c'
  proof (cases "mbed_WriteInternal fuel lib buf 0 c")
    case (Inl e)
    with w show ?thesis by (simp add: mbedtls_connection_def or_failed_def)
  next
    case (Inr y)
    with w have "mbed_WriteInternal fuel lib buf 0 c = Inr (rc, k, c')" by (simp add: mbedtls_connection_def or_failed_def)
    from mbed_write_never_times_out [OF assms _ this] small show ?thesis by simp
  qed
  then show ?thesis unfolding honest_writer_def by blast
qed


section \<open>Reading\<close>

text \<open>\<open>input\<close> is the decrypted data that has arrived and has not been read; a positive result gives its next bytes.\<close>

definition mbed_read_laws :: "'w mbed_library \<Rightarrow> ('w \<Rightarrow> bytes) \<Rightarrow> bool" where
  "mbed_read_laws lib input \<longleftrightarrow>
     (\<forall>n w r bs w'. ml_read lib n w = ((r, bs), w') \<longrightarrow>
        (if 0 < r then nat r \<le> n \<and> nat r \<le> length (input w) \<and> bs = take (nat r) (input w) \<and> input w' = drop (nat r) (input w)
         else input w' = input w))"

text \<open>One iteration: what it does to the buffer and the counters, and when another one follows.\<close>

lemma mbed_read_step:
  fixes out :: nat
  assumes laws: "mbed_read_laws lib input" and sizes: "off + remaining \<le> length buf" "length buf < 2 ^ 64" "tot + remaining < 2 ^ 64"
    and inside: "off < length buf" and r: "ml_read lib remaining (mc_world c) = ((r, bs), w)"
  defines "k \<equiv> if 0 < r then nat r else 0"
  defines "buf1 \<equiv> take off buf @ take k (input (mc_world c)) @ drop (off + k) buf"
  defines "out1 \<equiv> if 0 < r then tot + k else out"
  shows "k \<le> remaining" "k \<le> length (input (mc_world c))" "input w = drop k (input (mc_world c))" "length buf1 = length buf"
    "mbed_read_loop (Suc fuel) lib start buf off tot remaining out c =
     (if \<not> 0 < r \<and> r \<noteq> ml_WANT_READ lib \<and> r \<noteq> ml_WANT_WRITE lib \<and> r \<noteq> ml_TIMEOUT lib
      then Inr (True, buf, tot, out, c\<lparr>mc_world := w\<rparr>)
      else if 0 < remaining - k \<and> elapsed_ms start (ml_clock lib w) < mc_tls_read_timeout c
      then mbed_read_loop fuel lib start buf1 (off + k) (tot + k) (remaining - k) out1 (c\<lparr>mc_world := w\<rparr>)
      else Inr (False, buf1, tot + k, out1, c\<lparr>mc_world := w\<rparr>))"
proof -
  show k: "k \<le> remaining" and len: "k \<le> length (input (mc_world c))" and "input w = drop k (input (mc_world c))"
    using laws r unfolding mbed_read_laws_def k_def by (fastforce split: if_splits)+
  show "length buf1 = length buf" using k len sizes(1) by (simp add: buf1_def)
  show "mbed_read_loop (Suc fuel) lib start buf off tot remaining out c =
     (if \<not> 0 < r \<and> r \<noteq> ml_WANT_READ lib \<and> r \<noteq> ml_WANT_WRITE lib \<and> r \<noteq> ml_TIMEOUT lib
      then Inr (True, buf, tot, out, c\<lparr>mc_world := w\<rparr>)
      else if 0 < remaining - k \<and> elapsed_ms start (ml_clock lib w) < mc_tls_read_timeout c
      then mbed_read_loop fuel lib start buf1 (off + k) (tot + k) (remaining - k) out1 (c\<lparr>mc_world := w\<rparr>)
      else Inr (False, buf1, tot + k, out1, c\<lparr>mc_world := w\<rparr>))"
  proof (cases "0 < r")
    case True
    then have bs: "bs = take k (input (mc_world c))" using laws r unfolding mbed_read_laws_def k_def by (fastforce split: if_splits)
    then have "store_at buf off bs = Inr buf1" using store_at_in [of off bs buf] k len sizes(1) by (simp add: buf1_def)
    moreover have "size_add off k = off + k" "size_add tot k = tot + k" "size_sub remaining k = remaining - k"
      using k sizes by (simp_all add: size_add_small size_sub_small)
    ultimately show ?thesis using True inside by (simp add: mbed_call_def r k_def out1_def)
  next
    case False
    then show ?thesis using inside by (simp add: mbed_call_def r k_def out1_def buf1_def)
  qed
qed

lemma mbed_read_loop_input:
  assumes laws: "mbed_read_laws lib input" and "length buf < 2 ^ 64"
    and "mbed_read_loop fuel lib start buf off tot remaining out c = Inr (err, buf', tot', out', c')"
    and "off + remaining \<le> length buf" "tot + remaining < 2 ^ 64"
  shows "\<exists>d \<le> remaining. d \<le> length (input (mc_world c)) \<and> tot' = tot + d \<and> out' = (if d = 0 then out else tot + d) \<and>
    input (mc_world c') = drop d (input (mc_world c)) \<and>
    buf' = take off buf @ take d (input (mc_world c)) @ drop (off + d) buf"
  using assms(2-)
proof (induction fuel arbitrary: buf off tot remaining out c)
  case (Suc fuel)
  obtain r bs w where r: "ml_read lib remaining (mc_world c) = ((r, bs), w)" by (metis prod.collapse)
  have inside: "off < length buf" using Suc.prems(2) by (auto simp: not_le split: if_splits)
  define k where "k = (if 0 < r then nat r else 0)"
  define buf1 where "buf1 = take off buf @ take k (input (mc_world c)) @ drop (off + k) buf"
  define out1 where "out1 = (if 0 < r then tot + k else out)"
  note step = mbed_read_step [OF laws Suc.prems(3,1,4) inside r, folded k_def, folded buf1_def]
  have none: "k = 0" if "\<not> 0 < r" using that by (simp add: k_def)
  have out1: "out1 = (if k = 0 then out else tot + k)" by (auto simp: out1_def k_def)
  define failed where "failed \<longleftrightarrow> \<not> 0 < r \<and> r \<noteq> ml_WANT_READ lib \<and> r \<noteq> ml_WANT_WRITE lib \<and> r \<noteq> ml_TIMEOUT lib"
  define more where "more \<longleftrightarrow> 0 < remaining - k \<and> elapsed_ms start (ml_clock lib w) < mc_tls_read_timeout c"
  have loop: "(if failed then Inr (True, buf, tot, out, c\<lparr>mc_world := w\<rparr>)
    else if more then mbed_read_loop fuel lib start buf1 (off + k) (tot + k) (remaining - k) out1 (c\<lparr>mc_world := w\<rparr>)
    else Inr (False, buf1, tot + k, out1, c\<lparr>mc_world := w\<rparr>)) = Inr (err, buf', tot', out', c')"
    using Suc.prems(2) unfolding step(5) failed_def more_def out1_def .
  have "failed \<Longrightarrow> k = 0" using none by (simp add: failed_def)
  then consider "err" "buf' = buf" "tot' = tot" "out' = out" "c' = c\<lparr>mc_world := w\<rparr>" "k = 0"
    | "mbed_read_loop fuel lib start buf1 (off + k) (tot + k) (remaining - k) out1 (c\<lparr>mc_world := w\<rparr>) = Inr (err, buf', tot', out', c')"
    | "buf' = buf1" "tot' = tot + k" "out' = out1" "c' = c\<lparr>mc_world := w\<rparr>"
    using loop by (cases failed; cases more) auto
  then show ?case
  proof cases
    case 1
    then show ?thesis using step(3) by (intro exI [of _ 0]) simp
  next
    case 2
    have pre: "length buf1 < 2 ^ 64" "off + k + (remaining - k) \<le> length buf1" "tot + k + (remaining - k) < 2 ^ 64"
      using step(1,4) Suc.prems by simp_all
    obtain d where d: "d \<le> remaining - k" "d \<le> length (input w)" "tot' = tot + k + d"
      "out' = (if d = 0 then out1 else tot + k + d)" "input (mc_world c') = drop d (input w)"
      "buf' = take (off + k) buf1 @ take d (input w) @ drop (off + k + d) buf1"
      using Suc.IH [OF pre(1) 2 pre(2,3)] by auto
    have parts: "take (off + k) buf1 = take off buf @ take k (input (mc_world c))" "drop (off + k + d) buf1 = drop (off + (k + d)) buf"
      using step(2) inside by (simp_all add: buf1_def ac_simps)
    have "buf' = take off buf @ take (k + d) (input (mc_world c)) @ drop (off + (k + d)) buf"
      using d(6) unfolding parts step(3) by (simp add: take_add)
    moreover have "k + d \<le> remaining" "k + d \<le> length (input (mc_world c))" using d(1,2) step(1-3) by simp_all
    ultimately show ?thesis using d(3-5) step(3) out1 by (intro exI [of _ "k + d"]) (auto simp: add.commute add.left_commute)
  next
    case 3
    then show ?thesis using step(1-3) out1 buf1_def by (intro exI [of _ k]) simp
  qed
qed simp

text \<open>whatever code a read returns, the bytes it took off the stream are in the buffer, from the offset on, and their
  number is what is reported (a read that took none leaves the number alone). Success means all that was wanted,
  a timeout some but not all, nothing to read none.\<close>

theorem mbed_read_accounts:
  assumes "mbed_read_laws lib input" "off + sz \<le> length buf" "length buf < 2 ^ 64" "0 < sz"
    and "mbed_ReadInternal fuel lib buf off sz k0 c = Inr (rc, buf', k, c')"
  shows "\<exists>d \<le> sz. k = (if d = 0 then k0 else d) \<and> d \<le> length (input (mc_world c)) \<and>
    buf' = take off buf @ take d (input (mc_world c)) @ drop (off + d) buf \<and>
    input (mc_world c') = drop d (input (mc_world c)) \<and>
    (rc = SUCCESS \<longrightarrow> d = sz) \<and> (rc = NETWORK_SSL_NOTHING_TO_READ \<longrightarrow> d = 0) \<and>
    (rc = NETWORK_SSL_READ_TIMEOUT_ERROR \<longrightarrow> 0 < d \<and> d < sz)"
proof -
  obtain err tot out where loop: "mbed_read_loop fuel lib (ml_clock lib (mc_world c)) buf off 0 sz k0 c = Inr (err, buf', tot, out, c')"
    and rc: "rc = (if err then NETWORK_SSL_READ_ERROR else if tot = 0 then NETWORK_SSL_NOTHING_TO_READ else if out = sz then SUCCESS
      else if 0 < tot then NETWORK_SSL_READ_TIMEOUT_ERROR else NETWORK_SSL_READ_ERROR)" "k = out"
    using assms(5) by (auto simp: mbed_ReadInternal_def bind_res_Inr_iff)
  have "0 + sz < 2 ^ 64" using assms(2,3) by simp
  from mbed_read_loop_input [OF assms(1,3) loop assms(2) this] obtain d where
    d: "d \<le> sz" "d \<le> length (input (mc_world c))" "tot = d" "out = (if d = 0 then k0 else d)"
      "input (mc_world c') = drop d (input (mc_world c))" "buf' = take off buf @ take d (input (mc_world c)) @ drop (off + d) buf"
    by auto
  then show ?thesis using rc by (intro exI [of _ d]) (auto split: if_splits)
qed

end
