(* ===== verification/MbedStream.thy ===== *)
theory MbedStream
  imports MbedTLS TlsStream
begin

text \<open>
  The mbedTLS port delivers the bytes that have arrived, like the OpenSSL port; and the witnesses of the theorems on it,
  on a scripted library.
\<close>

section \<open>Reading what has arrived\<close>

text \<open>When data has arrived a read gives some of it, and does so within one tick of the clock.\<close>

definition mbed_available :: "'w mbed_library \<Rightarrow> ('w \<Rightarrow> bytes) \<Rightarrow> bool" where
  "mbed_available lib input \<longleftrightarrow>
     (\<forall>n w r bs w'. 0 < n \<and> input w \<noteq> [] \<and> ml_read lib n w = ((r, bs), w') \<longrightarrow> 0 < r \<and> ml_clock lib w' = ml_clock lib w)"

definition mbed_ready :: "'w MbedTLSConnection \<Rightarrow> bool" where
  "mbed_ready c \<longleftrightarrow> mc_is_connected c \<and> 0 < mc_tls_read_timeout c"

lemma elapsed_ms_same [simp]: "elapsed_ms t t = 0"
  by (simp add: elapsed_ms_def)

lemma mbed_read_loop_delivers:
  assumes laws: "mbed_read_laws lib input" "mbed_available lib input"
    and "mbed_ready c" "start = ml_clock lib (mc_world c)" "0 < remaining" "remaining \<le> length (input (mc_world c))"
    and "off + remaining \<le> length buf" "length buf < 2 ^ 64" "tot + remaining < 2 ^ 64" "remaining \<le> fuel"
  shows "\<exists>buf' c'. mbed_read_loop fuel lib start buf off tot remaining out c =
      Inr (False, buf', tot + remaining, tot + remaining, c') \<and> mbed_ready c'"
  using assms(3-)
proof (induction fuel arbitrary: buf off tot remaining out c)
  case (Suc fuel)
  obtain r bs w where r: "ml_read lib remaining (mc_world c) = ((r, bs), w)" by (metis prod.collapse)
  have inside: "off < length buf" using Suc.prems(3,5) by simp
  have "input (mc_world c) \<noteq> []" using Suc.prems(3,4) by auto
  then have pos: "0 < r" "ml_clock lib w = start"
    using laws(2) r Suc.prems(2,3) unfolding mbed_available_def by blast+
  define buf1 where "buf1 = take off buf @ take (nat r) (input (mc_world c)) @ drop (off + nat r) buf"
  note step = mbed_read_step [OF laws(1) Suc.prems(5-7) inside r, simplified pos(1) if_True, folded buf1_def]
  let ?c = "c\<lparr>mc_world := w\<rparr>" and ?k = "nat r"
  have ready: "mbed_ready ?c" using Suc.prems(1) by (simp add: mbed_ready_def)
  have loop: "mbed_read_loop (Suc fuel) lib start buf off tot remaining out c =
    (if 0 < remaining - ?k then mbed_read_loop fuel lib start buf1 (off + ?k) (tot + ?k) (remaining - ?k) (tot + ?k) ?c
     else Inr (False, buf1, tot + ?k, tot + ?k, ?c))"
    using step(5) pos Suc.prems(1) by (simp add: mbed_ready_def)
  show ?case
  proof (cases "0 < remaining - ?k")
    case True
    have "\<exists>buf' c'. mbed_read_loop fuel lib start buf1 (off + ?k) (tot + ?k) (remaining - ?k) (tot + ?k) ?c =
        Inr (False, buf', tot + ?k + (remaining - ?k), tot + ?k + (remaining - ?k), c') \<and> mbed_ready c'"
      using step(1-4) pos True Suc.prems by (intro Suc.IH [OF ready]) auto
    with loop True show ?thesis by simp
  next
    case False
    then have "?k = remaining" using step(1) by simp
    with loop False ready show ?thesis by auto
  qed
qed simp

lemma mbed_delivers_all:
  assumes "mbed_read_laws lib input" "mbed_available lib input" "read_limit \<le> fuel"
  shows "delivers_all (mbedtls_connection fuel lib) mbed_ready (\<lambda>c. input (mc_world c))"
proof -
  have "\<exists>c'. nc_ReadInternal (mbedtls_connection fuel lib) buf 0 (length buf) 0 c =
      (SUCCESS, take (length buf) (input (mc_world c)), length buf, c') \<and>
      input (mc_world c') = drop (length buf) (input (mc_world c)) \<and> mbed_ready c'"
    if c: "mbed_ready c" and buf: "buf \<noteq> []" "length buf \<le> read_limit" "length buf \<le> length (input (mc_world c))" for buf c
  proof -
    have small: "length buf < 2 ^ 64" using buf(2) by (rule read_limit_size)
    obtain buf' c' where loop: "mbed_read_loop fuel lib (ml_clock lib (mc_world c)) buf 0 0 (length buf) 0 c =
        Inr (False, buf', length buf, length buf, c')" "mbed_ready c'"
      using mbed_read_loop_delivers [OF assms(1,2) c refl _ buf(3), of 0 buf 0 fuel 0] buf(1,2) assms(3) small by auto
    then have r: "mbed_ReadInternal fuel lib buf 0 (length buf) 0 c = Inr (SUCCESS, buf', length buf, c')"
      using buf(1) by (simp add: mbed_ReadInternal_def)
    from mbed_read_loop_input [OF assms(1) small loop(1)] small
    have "buf' = take (length buf) (input (mc_world c))" "input (mc_world c') = drop (length buf) (input (mc_world c))" by auto
    with r loop(2) show ?thesis by (simp add: mbedtls_connection_def or_failed_def)
  qed
  then show ?thesis unfolding delivers_all_def by (auto simp: mbedtls_connection_def mbed_ready_def)
qed

section \<open>A scripted library\<close>

text \<open>
  The open sockets and the one of the context, the results of the handshakes to come (then they succeed), the result of
  the verification, the data that has arrived and the data sent. At most \<open>mw_record\<close> bytes and one more are read at a time;
  \<open>mw_accept\<close> bytes are taken for sending, then the library asks to be called again. A call that finds nothing to do
  lasts a minute.
\<close>

record mbed_world =
  mw_open :: "int list"
  mw_cur :: "int option"
  mw_handshakes :: "int list"
  mw_verify :: u32
  mw_input :: bytes
  mw_record :: nat
  mw_accept :: nat
  mw_sent :: bytes
  mw_clock :: int

definition later :: "mbed_world \<Rightarrow> mbed_world" where
  "later w = w\<lparr>mw_clock := mw_clock w + 60000000000\<rparr>"

definition script_mbed :: "mbed_world mbed_library" where
  "script_mbed =
     \<lparr>ml_WANT_READ = -1, ml_WANT_WRITE = -2, ml_TIMEOUT = -3, ml_SOCKET_FAILED = -4, ml_UNKNOWN_HOST = -5, ml_has_alpn = True,
      ml_init = (\<lambda>x w. if x = Ctx_net then w\<lparr>mw_cur := None\<rparr> else w),
      ml_free = (\<lambda>x w. if x = Ctx_net
        then w\<lparr>mw_open := filter (\<lambda>fd. mw_cur w \<noteq> Some fd) (mw_open w), mw_cur := None\<rparr> else w),
      ml_conf_alpn_protocols = (\<lambda>ps w. (0, w)), ml_ctr_drbg_seed = (\<lambda>p w. (0, w)),
      ml_x509_crt_parse_file = (\<lambda>x p w. (0, w)), ml_pk_parse_keyfile = (\<lambda>p w. (0, w)),
      ml_net_connect = (\<lambda>host port w. (0, w\<lparr>mw_open := fresh_fd (mw_open w) # mw_open w, mw_cur := Some (fresh_fd (mw_open w))\<rparr>)),
      ml_net_set_block = (\<lambda>w. (0, w)), ml_config_defaults = (\<lambda>w. (0, w)), ml_conf_verify = (\<lambda>f w. w),
      ml_conf_authmode = (\<lambda>m w. w), ml_conf_rng = (\<lambda>w. w), ml_conf_ca_chain = (\<lambda>w. w), ml_conf_own_cert = (\<lambda>w. (0, w)),
      ml_conf_read_timeout = (\<lambda>t w. w), ml_set_hostname = (\<lambda>h w. (0, w)), ml_set_bio = (\<lambda>w. w), ml_ssl_setup = (\<lambda>w. (0, w)),
      ml_handshake = (\<lambda>w. case mw_handshakes w of [] \<Rightarrow> (0, w) | r # rs \<Rightarrow> (r, w\<lparr>mw_handshakes := rs\<rparr>)),
      ml_get_verify_result = mw_verify,
      ml_write = (\<lambda>bs w. let k = min (mw_accept w) (length bs) in
        if k = 0 then (-2, later w) else (int k, w\<lparr>mw_accept := mw_accept w - k, mw_sent := mw_sent w @ take k bs\<rparr>)),
      ml_read = (\<lambda>n w. let k = min (Suc (mw_record w)) (min n (length (mw_input w))) in
        if k = 0 then ((-3, []), later w) else ((int k, take k (mw_input w)), w\<lparr>mw_input := drop k (mw_input w)\<rparr>)),
      ml_close_notify = (\<lambda>w. (0, w)), ml_clock = mw_clock\<rparr>"

lemma script_mbed_socket_laws: "mbed_socket_laws script_mbed (\<lambda>w. set (mw_open w)) mw_cur"
  unfolding mbed_socket_laws_def keeps_def quiet_def
  using fresh_fd_not_open(1) by (auto simp: script_mbed_def split: list.splits)

lemma script_mbed_write_laws: "mbed_write_laws script_mbed mw_sent"
  by (auto simp: mbed_write_laws_def script_mbed_def Let_def later_def split: if_splits)

lemma script_mbed_read_laws: "mbed_read_laws script_mbed mw_input"
  by (auto simp: mbed_read_laws_def script_mbed_def Let_def later_def split: if_splits)

lemma script_mbed_available: "mbed_available script_mbed mw_input"
  by (auto simp: mbed_available_def script_mbed_def Let_def min_def split: if_splits)

definition mbed_sample :: "bytes \<Rightarrow> nat \<Rightarrow> int list \<Rightarrow> u32 \<Rightarrow> mbed_world MbedTLSConnection" where
  "mbed_sample input accept handshakes verify =
     MbedTLSConnection_new (str ''host'') 8883 (str ''ca'') (str ''crt'') (str ''key'') 1000 1000 1000 True False
       \<lparr>mw_open = [], mw_cur = None, mw_handshakes = handshakes, mw_verify = verify, mw_input = input, mw_record = 1,
        mw_accept = accept, mw_sent = [], mw_clock = 0\<rparr>"

text \<open>The sample port behind a connect that has finished its handshake.\<close>

definition mbed_connected :: "bytes \<Rightarrow> nat \<Rightarrow> u32 \<Rightarrow> mbed_world MbedTLSConnection" where
  "mbed_connected input accept verify =
     (mbed_sample input accept [] verify)
       \<lparr>mc_is_connected := True, mc_requires_free := True, mc_flags := verify,
        mc_world := (mc_world (mbed_sample input accept [] verify))\<lparr>mw_open := [3], mw_cur := Some 3\<rparr>\<rparr>"

lemmas mbed_connect_defs = mbed_ConnectInternal_def set_alpn_def load_credentials_def open_socket_def configure_def
  attempt_def mbed_call_def mbed_do_def init_contexts_def check_server_def nonzero_def

lemma mbed_sample_connects:
  "mbed_ConnectInternal (Suc fuel) script_mbed (mbed_sample input accept [] verify) =
    Inr (if verify \<noteq> 0 then NETWORK_SSL_SERVER_VERIFICATION_ERROR else SUCCESS, mbed_connected input accept verify)"
  by (simp add: mbed_connect_defs script_mbed_def mbed_sample_def mbed_connected_def MbedTLSConnection_new_def fresh_fd_def Let_def)

theorem mbed_connect_verdict_witness:
  "mc_is_connected (mbed_connected [] 0 1) \<and> mc_flags (mbed_connected [] 0 1) \<noteq> 0"
  using mbed_connect_verdict [OF mbed_sample_connects [of 0 "[]" 0 1]] by simp

theorem failed_handshake_leaks_socket_witness:
  "\<exists>c1 c2 c3 fd. mbed_ConnectInternal 1 script_mbed (mbed_sample [] 0 [-9] 0) = Inr (NETWORK_SSL_TLS_HANDSHAKE_ERROR, c1) \<and>
     mbed_ConnectInternal 1 script_mbed c1 = Inr (SUCCESS, c2) \<and> mbed_DisconnectInternal 1 script_mbed c2 = Inr (SUCCESS, c3) \<and>
     fd \<in> set (mw_open (mc_world c3))"
proof -
  let ?s = "mbed_sample [] 0 [-9] 0"
  let ?c1 = "?s\<lparr>mc_requires_free := True, mc_world := (mc_world ?s)\<lparr>mw_open := [3], mw_cur := Some 3, mw_handshakes := []\<rparr>\<rparr>"
  have c1: "mbed_ConnectInternal 1 script_mbed ?s = Inr (NETWORK_SSL_TLS_HANDSHAKE_ERROR, ?c1)"
    by (simp add: mbed_connect_defs script_mbed_def mbed_sample_def MbedTLSConnection_new_def fresh_fd_def Let_def)
  obtain c2 where c2: "mbed_ConnectInternal 1 script_mbed ?c1 = Inr (SUCCESS, c2)"
    by (simp add: mbed_connect_defs script_mbed_def mbed_sample_def MbedTLSConnection_new_def Let_def)
  obtain c3 where c3: "mbed_DisconnectInternal 1 script_mbed c2 = Inr (SUCCESS, c3)"
    by (simp add: mbed_DisconnectInternal_def mbed_call_def script_mbed_def)
  from failed_handshake_leaks_socket [OF script_mbed_socket_laws c1 c2 c3] c1 c2 c3 show ?thesis by blast
qed

theorem mbed_write_never_times_out_witness:
  "\<exists>c'. mbed_WriteInternal (Suc (Suc 0)) script_mbed [5, 6, 7] 0 (mbed_connected [] 2 0) = Inr (SUCCESS, 2, c') \<and>
     mw_sent (mc_world c') = [5, 6]"
proof -
  obtain c' where w: "mbed_WriteInternal (Suc (Suc 0)) script_mbed [5, 6, 7] 0 (mbed_connected [] 2 0) = Inr (SUCCESS, 2, c')"
    by (simp add: mbed_WriteInternal_def mbed_call_def script_mbed_def mbed_connected_def mbed_sample_def
        MbedTLSConnection_new_def elapsed_ms_def later_def Let_def size_add_small)
  from mbed_write_never_times_out [OF script_mbed_write_laws _ w] w show ?thesis
    by (simp add: mbed_connected_def mbed_sample_def MbedTLSConnection_new_def)
qed


text \<open>Three bytes are wanted at offset one, two have arrived: both are in the buffer and reported.\<close>

theorem mbed_read_accounts_witness:
  "\<exists>c'. mbed_ReadInternal (Suc (Suc 0)) script_mbed [0, 0, 0, 0] 1 3 0 (mbed_connected [5, 6] 0 0) =
     Inr (NETWORK_SSL_READ_TIMEOUT_ERROR, [0, 5, 6, 0], 2, c') \<and> mw_input (mc_world c') = []"
proof -
  obtain buf' k c' where r: "mbed_ReadInternal (Suc (Suc 0)) script_mbed [0, 0, 0, 0] 1 3 0 (mbed_connected [5, 6] 0 0) =
      Inr (NETWORK_SSL_READ_TIMEOUT_ERROR, buf', k, c')" "k = 2"
    by (simp add: mbed_ReadInternal_def mbed_call_def script_mbed_def mbed_connected_def mbed_sample_def
        MbedTLSConnection_new_def elapsed_ms_def later_def Let_def size_add_small size_sub_small store_at_def)
  from mbed_read_accounts [OF script_mbed_read_laws _ _ _ r(1)] r show ?thesis
    by (auto simp: mbed_connected_def mbed_sample_def MbedTLSConnection_new_def split: if_splits)
qed

end
