(* ===== verification/Wslay.thy ===== *)
theory Wslay
  imports Prelude
begin

unbundle bit_operations_syntax

text \<open>
  The frame layer of the WebSocket connection (\<^verbatim>\<open>network/WebSocket/wslay/wslay_frame.cpp\<close>, \<^verbatim>\<open>wslay_frame.hpp\<close>,
  \<^verbatim>\<open>wslay_net.cpp\<close>): the library the SDK carries with it, with the change the SDK made to the amount that is read.

  Both directions are state machines that go on where the last call stopped. The input buffer is kept as the bytes
  between its two marks; where they lie in the 4096 bytes of the array makes no difference, because the code moves
  them to the front before it reads. The output header is the bytes that are still to be sent. \<open>htons\<close>, \<open>ntoh64\<close>
  and the copying of integers to bytes are big-endian numbers of two and eight bytes.
\<close>

section \<open>Data\<close>

record wslay_frame_iocb =
  iocb_fin :: u8
  iocb_rsv :: u8
  iocb_opcode :: u8
  iocb_payload_length :: nat
  iocb_mask :: u8
  iocb_data :: bytes

datatype wslay_frame_state =
    PREP_HEADER | SEND_HEADER | SEND_PAYLOAD
  | RECV_HEADER1 | RECV_PAYLOADLEN | RECV_EXT_PAYLOADLEN | RECV_MASKKEY | RECV_PAYLOAD

record wslay_frame_opcode_memo =
  iom_fin :: u8
  iom_opcode :: u8
  iom_rsv :: u8

record wslay_frame_context =
  wfc_ibuf :: bytes
  wfc_iom :: wslay_frame_opcode_memo
  wfc_ipayloadlen :: nat
  wfc_ipayloadoff :: nat
  wfc_imask :: u8
  wfc_imaskkey :: bytes
  wfc_istate :: wslay_frame_state
  wfc_ireqread :: nat
  wfc_oheader :: bytes
  wfc_opayloadlen :: nat
  wfc_opayloadoff :: nat
  wfc_omask :: u8
  wfc_omaskkey :: bytes
  wfc_ostate :: wslay_frame_state

record 'n wslay_frame_callbacks =
  send_callback :: "bytes \<Rightarrow> nat \<Rightarrow> 'n \<Rightarrow> int \<times> 'n"
  recv_callback :: "nat \<Rightarrow> 'n \<Rightarrow> (int \<times> bytes) \<times> 'n"
  genmask_callback :: "nat \<Rightarrow> 'n \<Rightarrow> (int \<times> bytes) \<times> 'n"

abbreviation WSLAY_ERR_WANT_READ :: int where "WSLAY_ERR_WANT_READ \<equiv> - 100"

abbreviation WSLAY_ERR_WANT_WRITE :: int where "WSLAY_ERR_WANT_WRITE \<equiv> - 101"

abbreviation WSLAY_ERR_PROTO :: int where "WSLAY_ERR_PROTO \<equiv> - 200"

abbreviation WSLAY_ERR_INVALID_ARGUMENT :: int where "WSLAY_ERR_INVALID_ARGUMENT \<equiv> - 300"

abbreviation WSLAY_ERR_INVALID_CALLBACK :: int where "WSLAY_ERR_INVALID_CALLBACK \<equiv> - 301"

definition WSLAY_MSG_MORE :: nat where "WSLAY_MSG_MORE = 1"

definition WSLAY_BINARY_FRAME :: u8 where "WSLAY_BINARY_FRAME = 0x2"

definition WSLAY_CONNECTION_CLOSE :: u8 where "WSLAY_CONNECTION_CLOSE = 0x8"

definition WSLAY_PING :: u8 where "WSLAY_PING = 0x9"

definition WSLAY_PONG :: u8 where "WSLAY_PONG = 0xa"

definition wslay_is_ctrl_frame :: "u8 \<Rightarrow> bool" where
  "wslay_is_ctrl_frame opcode \<longleftrightarrow> drop_bit 3 opcode AND 1 = 1"

definition IBUF_SIZE :: nat where "IBUF_SIZE = 4096"

definition wslay_frame_context_init :: wslay_frame_context where
  "wslay_frame_context_init =
     \<lparr>wfc_ibuf = [], wfc_iom = \<lparr>iom_fin = 0, iom_opcode = 0, iom_rsv = 0\<rparr>, wfc_ipayloadlen = 0, wfc_ipayloadoff = 0,
      wfc_imask = 0, wfc_imaskkey = [0, 0, 0, 0], wfc_istate = RECV_HEADER1, wfc_ireqread = 2,
      wfc_oheader = [], wfc_opayloadlen = 0, wfc_opayloadoff = 0, wfc_omask = 0, wfc_omaskkey = [0, 0, 0, 0],
      wfc_ostate = PREP_HEADER\<rparr>"

text \<open>Numbers in network byte order, and the mask, which repeats the four bytes of its key.\<close>

fun be_bytes :: "nat \<Rightarrow> nat \<Rightarrow> bytes" where
  "be_bytes 0 v = []"
| "be_bytes (Suc k) v = be_bytes k (v div 256) @ [of_nat v]"

definition be_value :: "bytes \<Rightarrow> nat" where
  "be_value bs = foldl (\<lambda>a b. 256 * a + unat b) 0 bs"

fun apply_mask :: "bytes \<Rightarrow> nat \<Rightarrow> bytes \<Rightarrow> bytes" where
  "apply_mask key off [] = []"
| "apply_mask key off (b # bs) = (b XOR key ! (off mod 4)) # apply_mask key (off + 1) bs"

section \<open>Sending\<close>

text \<open>The header of a frame; \<open>None\<close> when the frame is refused. The key of the mask is not part of it yet.\<close>

definition frame_header :: "wslay_frame_iocb \<Rightarrow> bytes option" where
  "frame_header iocb =
     (let b0 = (push_bit 7 (iocb_fin iocb) AND 0x80) OR (push_bit 4 (iocb_rsv iocb) AND 0x70) OR (iocb_opcode iocb AND 0xf);
          b1 = push_bit 7 (iocb_mask iocb) AND 0x80;
          len = iocb_payload_length iocb
      in if wslay_is_ctrl_frame (iocb_opcode iocb) \<and> len > 125 then None
         else if len < 126 then Some [b0, b1 OR of_nat len]
         else if len < 2 ^ 16 then Some ([b0, b1 OR 126] @ be_bytes 2 len)
         else if len < 2 ^ 63 then Some ([b0, b1 OR 127] @ be_bytes 8 len)
         else None)"

definition prepare_header ::
  "'n wslay_frame_callbacks \<Rightarrow> wslay_frame_iocb \<Rightarrow> wslay_frame_context \<Rightarrow> 'n \<Rightarrow> int option \<times> wslay_frame_context \<times> 'n" where
  "prepare_header cb iocb ctx n =
     (case frame_header iocb of
        None \<Rightarrow> (Some WSLAY_ERR_INVALID_ARGUMENT, ctx, n)
      | Some hdr \<Rightarrow>
          if iocb_mask iocb \<noteq> 0 then
            (case genmask_callback cb 4 n of
               ((r, key), n) \<Rightarrow>
                 if r \<noteq> 0 then (Some WSLAY_ERR_INVALID_CALLBACK, ctx\<lparr>wfc_omaskkey := key\<rparr>, n)
                 else (None, ctx\<lparr>wfc_omaskkey := key, wfc_omask := 1, wfc_ostate := SEND_HEADER, wfc_oheader := hdr @ key,
                                 wfc_opayloadlen := iocb_payload_length iocb, wfc_opayloadoff := 0\<rparr>, n))
          else (None, ctx\<lparr>wfc_ostate := SEND_HEADER, wfc_oheader := hdr,
                          wfc_opayloadlen := iocb_payload_length iocb, wfc_opayloadoff := 0\<rparr>, n))"

definition send_header ::
  "'n wslay_frame_callbacks \<Rightarrow> wslay_frame_iocb \<Rightarrow> wslay_frame_context \<Rightarrow> 'n \<Rightarrow> int option \<times> wslay_frame_context \<times> 'n" where
  "send_header cb iocb ctx n =
     (let hdr = wfc_oheader ctx in
      case send_callback cb hdr (if 0 < length (iocb_data iocb) then WSLAY_MSG_MORE else 0) n of
        (r, n) \<Rightarrow>
          if 0 < r then
            (if r > int (length hdr) then (Some WSLAY_ERR_INVALID_CALLBACK, ctx, n)
             else if nat r = length hdr then (None, ctx\<lparr>wfc_oheader := [], wfc_ostate := SEND_PAYLOAD\<rparr>, n)
             else (Some WSLAY_ERR_WANT_WRITE, ctx\<lparr>wfc_oheader := drop (nat r) hdr\<rparr>, n))
          else (Some WSLAY_ERR_WANT_WRITE, ctx, n))"

text \<open>The payload in pieces of at most 4096 bytes. The result has the new offset and the number of bytes sent.\<close>

function send_masked ::
  "'n wslay_frame_callbacks \<Rightarrow> bytes \<Rightarrow> bytes \<Rightarrow> nat \<Rightarrow> nat \<Rightarrow> 'n \<Rightarrow> int option \<times> nat \<times> nat \<times> 'n" where
  "send_masked cb key data off totallen n =
     (if data = [] then (None, off, totallen, n)
      else
        let writelen = min IBUF_SIZE (length data);
            temp = apply_mask key off (take writelen data)
        in case send_callback cb temp 0 n of
             (r, n) \<Rightarrow>
               if 0 < r then
                 (if nat r > writelen then (Some WSLAY_ERR_INVALID_CALLBACK, off, totallen, n)
                  else send_masked cb key (drop (nat r) data) (off + nat r) (totallen + nat r) n)
               else if 0 < totallen then (None, off, totallen, n)
               else (Some WSLAY_ERR_WANT_WRITE, off, totallen, n))"
  by pat_completeness auto

termination send_masked
  by (relation "measure (\<lambda>(cb, key, data, off, totallen, n). length data)") auto

declare send_masked.simps [simp del]

definition send_payload ::
  "'n wslay_frame_callbacks \<Rightarrow> wslay_frame_iocb \<Rightarrow> wslay_frame_context \<Rightarrow> 'n \<Rightarrow> int \<times> wslay_frame_context \<times> 'n" where
  "send_payload cb iocb ctx n =
     (let data = iocb_data iocb in
      case (if data = [] then (None, wfc_opayloadoff ctx, 0, n)
            else if wfc_omask ctx \<noteq> 0 then send_masked cb (wfc_omaskkey ctx) data (wfc_opayloadoff ctx) 0 n
            else case send_callback cb data 0 n of
              (r, n) \<Rightarrow>
                if 0 < r then
                  (if nat r > length data then (Some WSLAY_ERR_INVALID_CALLBACK, wfc_opayloadoff ctx, 0, n)
                   else (None, wfc_opayloadoff ctx + nat r, nat r, n))
                else (Some WSLAY_ERR_WANT_WRITE, wfc_opayloadoff ctx, 0, n)) of
        (err, off, totallen, n) \<Rightarrow>
          let ctx = ctx\<lparr>wfc_opayloadoff := off\<rparr> in
          case err of
            Some e \<Rightarrow> (e, ctx, n)
          | None \<Rightarrow> (int totallen, if off = wfc_opayloadlen ctx then ctx\<lparr>wfc_ostate := PREP_HEADER\<rparr> else ctx, n))"

definition wslay_frame_send ::
  "'n wslay_frame_callbacks \<Rightarrow> wslay_frame_iocb \<Rightarrow> wslay_frame_context \<Rightarrow> 'n \<Rightarrow> int \<times> wslay_frame_context \<times> 'n" where
  "wslay_frame_send cb iocb ctx n =
     (if length (iocb_data iocb) > iocb_payload_length iocb then (WSLAY_ERR_INVALID_ARGUMENT, ctx, n)
      else
        case (if wfc_ostate ctx = PREP_HEADER then prepare_header cb iocb ctx n else (None, ctx, n)) of
          (Some e, ctx, n) \<Rightarrow> (e, ctx, n)
        | (None, ctx, n) \<Rightarrow>
            (case (if wfc_ostate ctx = SEND_HEADER then send_header cb iocb ctx n else (None, ctx, n)) of
               (Some e, ctx, n) \<Rightarrow> (e, ctx, n)
             | (None, ctx, n) \<Rightarrow>
                 if wfc_ostate ctx = SEND_PAYLOAD then send_payload cb iocb ctx n
                 else (WSLAY_ERR_INVALID_ARGUMENT, ctx, n)))"

section \<open>Receiving\<close>

definition wslay_recv :: "'n wslay_frame_callbacks \<Rightarrow> wslay_frame_context \<Rightarrow> 'n \<Rightarrow> int \<times> wslay_frame_context \<times> 'n" where
  "wslay_recv cb ctx n =
     (case recv_callback cb (min (wfc_ireqread ctx) (IBUF_SIZE - length (wfc_ibuf ctx))) n of
        ((r, bs), n) \<Rightarrow>
          if 0 < r then (r, ctx\<lparr>wfc_ibuf := wfc_ibuf ctx @ bs\<rparr>, n) else (WSLAY_ERR_WANT_READ, ctx, n))"

text \<open>The bytes of a stage: one read when there are too few, then they must be there.\<close>

definition fill_ibuf :: "'n wslay_frame_callbacks \<Rightarrow> wslay_frame_context \<Rightarrow> 'n \<Rightarrow> int option \<times> wslay_frame_context \<times> 'n" where
  "fill_ibuf cb ctx n =
     (if length (wfc_ibuf ctx) < wfc_ireqread ctx then
        (case wslay_recv cb ctx n of
           (r, ctx, n) \<Rightarrow>
             if r \<le> 0 then (Some r, ctx, n)
             else if length (wfc_ibuf ctx) < wfc_ireqread ctx then (Some WSLAY_ERR_WANT_READ, ctx, n)
             else (None, ctx, n))
      else (None, ctx, n))"

definition recv_header :: "wslay_frame_context \<Rightarrow> int option \<times> wslay_frame_context" where
  "recv_header ctx =
     (let b0 = wfc_ibuf ctx ! 0; b1 = wfc_ibuf ctx ! 1;
          fin = drop_bit 7 b0 AND 1; opcode = b0 AND 0xf; payloadlen = b1 AND 0x7f;
          ctx = ctx\<lparr>wfc_iom := \<lparr>iom_fin = fin, iom_opcode = opcode, iom_rsv = drop_bit 4 b0 AND 7\<rparr>,
                    wfc_imask := drop_bit 7 b1 AND 1, wfc_ibuf := drop 2 (wfc_ibuf ctx)\<rparr>
      in if wslay_is_ctrl_frame opcode \<and> (payloadlen > 125 \<or> fin = 0) then (Some WSLAY_ERR_PROTO, ctx)
         else if payloadlen = 126 then (None, ctx\<lparr>wfc_istate := RECV_EXT_PAYLOADLEN, wfc_ireqread := 2\<rparr>)
         else if payloadlen = 127 then (None, ctx\<lparr>wfc_istate := RECV_EXT_PAYLOADLEN, wfc_ireqread := 8\<rparr>)
         else
           let ctx = ctx\<lparr>wfc_ipayloadlen := unat payloadlen, wfc_ipayloadoff := 0\<rparr> in
           (None, if wfc_imask ctx \<noteq> 0 then ctx\<lparr>wfc_istate := RECV_MASKKEY, wfc_ireqread := 4\<rparr>
                  else ctx\<lparr>wfc_istate := RECV_PAYLOAD, wfc_ireqread := unat payloadlen\<rparr>))"

definition recv_ext_payloadlen :: "wslay_frame_context \<Rightarrow> int option \<times> wslay_frame_context" where
  "recv_ext_payloadlen ctx =
     (let req = wfc_ireqread ctx; len = be_value (take req (wfc_ibuf ctx));
          ctx = ctx\<lparr>wfc_ipayloadlen := len, wfc_ipayloadoff := 0, wfc_ibuf := drop req (wfc_ibuf ctx)\<rparr>
      in if (if req = 8 then len < 2 ^ 16 \<or> 2 ^ 63 \<le> len else len < 126) then (Some WSLAY_ERR_PROTO, ctx)
         else (None, if wfc_imask ctx \<noteq> 0 then ctx\<lparr>wfc_istate := RECV_MASKKEY, wfc_ireqread := 4\<rparr>
                     else ctx\<lparr>wfc_istate := RECV_PAYLOAD, wfc_ireqread := len\<rparr>))"

definition recv_maskkey :: "wslay_frame_context \<Rightarrow> int option \<times> wslay_frame_context" where
  "recv_maskkey ctx =
     (None, ctx\<lparr>wfc_imaskkey := take 4 (wfc_ibuf ctx), wfc_ibuf := drop 4 (wfc_ibuf ctx),
                wfc_istate := RECV_PAYLOAD, wfc_ireqread := wfc_ipayloadlen ctx\<rparr>)"

text \<open>A stage before the payload: skipped in other states, otherwise its bytes are fetched and decoded.\<close>

definition recv_stage ::
  "wslay_frame_state \<Rightarrow> (wslay_frame_context \<Rightarrow> int option \<times> wslay_frame_context) \<Rightarrow> 'n wslay_frame_callbacks
   \<Rightarrow> wslay_frame_context \<Rightarrow> 'n \<Rightarrow> int option \<times> wslay_frame_context \<times> 'n" where
  "recv_stage s decode cb ctx n =
     (if wfc_istate ctx \<noteq> s then (None, ctx, n)
      else case fill_ibuf cb ctx n of
        (Some r, ctx, n) \<Rightarrow> (Some r, ctx, n)
      | (None, ctx, n) \<Rightarrow> (case decode ctx of (e, ctx) \<Rightarrow> (e, ctx, n)))"

definition recv_payload ::
  "'n wslay_frame_callbacks \<Rightarrow> wslay_frame_context \<Rightarrow> wslay_frame_iocb \<Rightarrow> 'n
   \<Rightarrow> int \<times> wslay_frame_context \<times> wslay_frame_iocb \<times> 'n" where
  "recv_payload cb ctx iocb n =
     (let rempayloadlen = size_sub (wfc_ipayloadlen ctx) (wfc_ipayloadoff ctx);
          ctx = ctx\<lparr>wfc_ireqread := rempayloadlen\<rparr>
      in case (if wfc_ibuf ctx = [] \<and> 0 < rempayloadlen then wslay_recv cb ctx n else (1, ctx, n)) of
           (r, ctx, n) \<Rightarrow>
             if r \<le> 0 then (r, ctx, iocb, n)
             else
               let k = min (length (wfc_ibuf ctx)) rempayloadlen;
                   piece = take k (wfc_ibuf ctx);
                   data = (if wfc_imask ctx \<noteq> 0 then apply_mask (wfc_imaskkey ctx) (wfc_ipayloadoff ctx) piece else piece);
                   ctx = ctx\<lparr>wfc_ibuf := drop k (wfc_ibuf ctx), wfc_ipayloadoff := wfc_ipayloadoff ctx + k\<rparr>;
                   iocb = \<lparr>iocb_fin = iom_fin (wfc_iom ctx), iocb_rsv = iom_rsv (wfc_iom ctx),
                           iocb_opcode = iom_opcode (wfc_iom ctx), iocb_payload_length = wfc_ipayloadlen ctx,
                           iocb_mask = wfc_imask ctx, iocb_data = data\<rparr>
               in (int k,
                   if wfc_ipayloadlen ctx = wfc_ipayloadoff ctx then ctx\<lparr>wfc_istate := RECV_HEADER1, wfc_ireqread := 2\<rparr> else ctx,
                   iocb, n))"

definition wslay_frame_recv ::
  "'n wslay_frame_callbacks \<Rightarrow> wslay_frame_context \<Rightarrow> wslay_frame_iocb \<Rightarrow> 'n
   \<Rightarrow> int \<times> wslay_frame_context \<times> wslay_frame_iocb \<times> 'n" where
  "wslay_frame_recv cb ctx iocb n =
     (case recv_stage RECV_HEADER1 recv_header cb ctx n of
        (Some r, ctx, n) \<Rightarrow> (r, ctx, iocb, n)
      | (None, ctx, n) \<Rightarrow>
     (case recv_stage RECV_EXT_PAYLOADLEN recv_ext_payloadlen cb ctx n of
        (Some r, ctx, n) \<Rightarrow> (r, ctx, iocb, n)
      | (None, ctx, n) \<Rightarrow>
     (case recv_stage RECV_MASKKEY recv_maskkey cb ctx n of
        (Some r, ctx, n) \<Rightarrow> (r, ctx, iocb, n)
      | (None, ctx, n) \<Rightarrow>
          if wfc_istate ctx = RECV_PAYLOAD then recv_payload cb ctx iocb n
          else (WSLAY_ERR_INVALID_ARGUMENT, ctx, iocb, n))))"

section \<open>Numbers, masks and headers\<close>

lemma length_be_bytes [simp]: "length (be_bytes k v) = k"
  by (induction k arbitrary: v) simp_all

lemma be_value_snoc: "be_value (bs @ [b]) = 256 * be_value bs + unat b"
  by (simp add: be_value_def)

lemma be_value_be_bytes: "be_value (be_bytes k v) = v mod 256 ^ k"
proof (induction k arbitrary: v)
  case (Suc k)
  have "unat (of_nat v :: u8) = v mod 256" by (simp add: unat_of_nat)
  then show ?case using mod_mult2_eq [of v 256 "256 ^ k"] by (simp add: be_value_snoc Suc.IH)
qed (simp add: be_value_def)

lemma unat_8bit: "unat (b :: u8) < 256"
  using unsigned_less [of b] by simp

lemma be_value_less: "be_value bs < 256 ^ length bs"
proof (induction bs rule: rev_induct)
  case (snoc b bs)
  have "unat b < 256" by (rule unat_8bit)
  with snoc show ?case by (simp add: be_value_snoc)
qed (simp add: be_value_def)

lemma length_apply_mask [simp]: "length (apply_mask key off bs) = length bs"
  by (induction bs arbitrary: off) simp_all

lemma apply_mask_append: "apply_mask key off (xs @ ys) = apply_mask key off xs @ apply_mask key (off + length xs) ys"
  by (induction xs arbitrary: off) simp_all

lemma apply_mask_twice: "apply_mask key off (apply_mask key off bs) = bs"
  by (induction bs arbitrary: off) (simp_all add: xor.assoc)

lemma unat_7bit: "unat (b AND 0x7f :: u8) < 128"
proof -
  have "b AND 0x7f \<le> 0x7f" by (rule word_and_le1)
  then show ?thesis by (simp add: word_le_nat_alt)
qed

lemma length_bits:
  assumes "len < 128"
  shows "(of_nat len :: u8) AND 0x7f = of_nat len" "(of_nat len :: u8) AND 0x80 = 0"
proof -
  have small: "unat (of_nat len :: u8) = len" using assms by (simp add: unat_of_nat)
  have "(of_nat len :: u8) = take_bit 7 (of_nat len)"
    unfolding word_unat_eq_iff unsigned_take_bit_eq small using assms by (simp add: take_bit_nat_eq_self)
  moreover have "take_bit 7 w = w AND 0x7f" for w :: u8 by (simp add: take_bit_eq_mask mask_eq_exp_minus_1)
  ultimately show m: "(of_nat len :: u8) AND 0x7f = of_nat len" by metis
  have "(of_nat len AND 0x7f) AND 0x80 = (0 :: u8)" by (simp add: and.assoc)
  then show "(of_nat len :: u8) AND 0x80 = 0" unfolding m .
qed

text \<open>
  The frame as RFC 6455 describes it: the first frame of a byte sequence, unmasked, and the bytes behind it. It is
  there only when it is complete and keeps the rules on lengths and on control frames.
\<close>

definition ext_length :: "u8 \<Rightarrow> nat" where
  "ext_length p = (if p = 126 then 2 else if p = 127 then 8 else 0)"

definition frame_length :: "bytes \<Rightarrow> nat" where
  "frame_length bs =
     (let p = bs ! 1 AND 0x7f; ext = ext_length p in if ext = 0 then unat p else be_value (take ext (drop 2 bs)))"

definition frame_rules :: "u8 \<Rightarrow> u8 \<Rightarrow> nat \<Rightarrow> nat \<Rightarrow> bool" where
  "frame_rules fin opcode ext len \<longleftrightarrow>
     (wslay_is_ctrl_frame opcode \<longrightarrow> ext = 0 \<and> len \<le> 125 \<and> fin = 1) \<and>
     (ext = 2 \<longrightarrow> 126 \<le> len) \<and> (ext = 8 \<longrightarrow> 2 ^ 16 \<le> len \<and> len < 2 ^ 63)"

definition parse_frame :: "bytes \<Rightarrow> (wslay_frame_iocb \<times> bytes) option" where
  "parse_frame bs =
     (let ext = ext_length (bs ! 1 AND 0x7f); len = frame_length bs; mask = drop_bit 7 (bs ! 1) AND 1;
          fin = drop_bit 7 (bs ! 0) AND 1; opcode = bs ! 0 AND 0xf;
          start = 2 + ext + (if mask = 0 then 0 else 4); key = take 4 (drop (2 + ext) bs); data = take len (drop start bs)
      in if 2 \<le> length bs \<and> start + len \<le> length bs \<and> frame_rules fin opcode ext len then
           Some (\<lparr>iocb_fin = fin, iocb_rsv = drop_bit 4 (bs ! 0) AND 7, iocb_opcode = opcode, iocb_payload_length = len,
                  iocb_mask = mask, iocb_data = if mask = 0 then data else apply_mask key 0 data\<rparr>, drop (start + len) bs)
         else None)"

text \<open>What a frame without extensions looks like on the wire, and that it is read back.\<close>

definition plain_frame :: "wslay_frame_iocb \<Rightarrow> bool" where
  "plain_frame iocb \<longleftrightarrow>
     iocb_fin iocb \<in> {0, 1} \<and> iocb_rsv iocb = 0 \<and> iocb_opcode iocb AND 0xf = iocb_opcode iocb \<and> iocb_mask iocb \<in> {0, 1} \<and>
     iocb_payload_length iocb = length (iocb_data iocb) \<and> (wslay_is_ctrl_frame (iocb_opcode iocb) \<longrightarrow> iocb_fin iocb = 1)"

definition frame_bytes :: "bytes \<Rightarrow> wslay_frame_iocb \<Rightarrow> bytes" where
  "frame_bytes key iocb =
     the (frame_header iocb) @ (if iocb_mask iocb = 0 then iocb_data iocb else key @ apply_mask key 0 (iocb_data iocb))"

lemma first_byte:
  assumes "fin \<in> {0, 1}" "opcode AND 0xf = opcode"
  shows "drop_bit 7 ((push_bit 7 fin AND 0x80) OR (push_bit 4 0 AND 0x70) OR (opcode AND 0xf)) AND 1 = (fin :: u8)"
    and "drop_bit 4 ((push_bit 7 fin AND 0x80) OR (push_bit 4 0 AND 0x70) OR (opcode AND 0xf)) AND 7 = (0 :: u8)"
    and "((push_bit 7 fin AND 0x80) OR (push_bit 4 0 AND 0x70) OR (opcode AND 0xf)) AND 0xf = (opcode :: u8)"
proof -
  have "drop_bit 7 (opcode AND 0xf) = 0" "drop_bit 4 (opcode AND 0xf) = 0" by (simp_all add: drop_bit_and)
  then have "drop_bit 7 opcode = 0" "drop_bit 4 opcode = 0" by (simp_all add: assms(2))
  then show "drop_bit 7 ((push_bit 7 fin AND 0x80) OR (push_bit 4 0 AND 0x70) OR (opcode AND 0xf)) AND 1 = fin"
    "drop_bit 4 ((push_bit 7 fin AND 0x80) OR (push_bit 4 0 AND 0x70) OR (opcode AND 0xf)) AND 7 = 0"
    "((push_bit 7 fin AND 0x80) OR (push_bit 4 0 AND 0x70) OR (opcode AND 0xf)) AND 0xf = opcode"
    using assms(1) by (auto simp: bit.conj_disj_distrib2 and.assoc drop_bit_or assms(2))
qed

lemma second_byte:
  assumes "m \<in> {0, 1 :: u8}" "p AND 0x7f = p"
  shows "drop_bit 7 ((push_bit 7 m AND 0x80) OR p) AND 1 = m"
    and "((push_bit 7 m AND 0x80) OR p) AND 0x7f = p"
proof -
  have "drop_bit 7 (p AND 0x7f) AND 1 = (0 :: u8)" by (simp add: drop_bit_and)
  then have "drop_bit 7 p AND 1 = 0" by (simp add: assms(2))
  then show "drop_bit 7 ((push_bit 7 m AND 0x80) OR p) AND 1 = m"
    using assms(1) by (auto simp: drop_bit_or bit.conj_disj_distrib2)
  show "((push_bit 7 m AND 0x80) OR p) AND 0x7f = p"
    using assms by (auto simp: bit.conj_disj_distrib2)
qed

lemma frame_header_shape:
  assumes "plain_frame iocb" "frame_header iocb = Some hdr"
  obtains p where "p AND 0x7f = p"
    "hdr = [(push_bit 7 (iocb_fin iocb) AND 0x80) OR (push_bit 4 0 AND 0x70) OR (iocb_opcode iocb AND 0xf),
            (push_bit 7 (iocb_mask iocb) AND 0x80) OR p] @ be_bytes (ext_length p) (iocb_payload_length iocb)"
    "if ext_length p = 0 then unat p = iocb_payload_length iocb else iocb_payload_length iocb < 256 ^ ext_length p"
    "frame_rules (iocb_fin iocb) (iocb_opcode iocb) (ext_length p) (iocb_payload_length iocb)"
proof -
  let ?len = "iocb_payload_length iocb"
  have ctrl: "wslay_is_ctrl_frame (iocb_opcode iocb) \<Longrightarrow> ?len \<le> 125 \<and> iocb_fin iocb = 1"
    using assms by (auto simp: frame_header_def plain_frame_def Let_def split: if_splits)
  let ?b0 = "(push_bit 7 (iocb_fin iocb) AND 0x80) OR (push_bit 4 0 AND 0x70) OR (iocb_opcode iocb AND 0xf)"
  let ?b1 = "push_bit 7 (iocb_mask iocb) AND 0x80"
  have rsv: "iocb_rsv iocb = 0" using assms(1) by (simp add: plain_frame_def)
  have hdr: "hdr = (if ?len < 126 then [?b0, ?b1 OR of_nat ?len]
      else if ?len < 2 ^ 16 then [?b0, ?b1 OR 126] @ be_bytes 2 ?len else [?b0, ?b1 OR 127] @ be_bytes 8 ?len)"
    using assms(2) unfolding frame_header_def Let_def rsv by (auto split: if_splits)
  consider "?len < 126" | "126 \<le> ?len" "?len < 2 ^ 16" | "2 ^ 16 \<le> ?len" "?len < 2 ^ 63"
    using assms(2) by (auto simp: frame_header_def Let_def not_less split: if_splits)
  then show thesis
  proof cases
    case 1
    have small: "unat (of_nat ?len :: u8) = ?len" using 1 by (simp add: unat_of_nat)
    have "(of_nat ?len :: u8) \<noteq> 126" "(of_nat ?len :: u8) \<noteq> 127" using 1 small by auto
    then have ext: "ext_length (of_nat ?len) = 0" by (simp add: ext_length_def)
    show thesis
      by (rule that [of "of_nat ?len"]) (use 1 hdr length_bits(1) [of ?len] small ctrl in \<open>auto simp: ext frame_rules_def\<close>)
  next
    case 2
    have ext: "ext_length 126 = 2" by (simp add: ext_length_def)
    show thesis
      by (rule that [of 126]) (use 2 hdr ctrl in \<open>auto simp: ext frame_rules_def\<close>)
  next
    case 3
    have ext: "ext_length 127 = 8" by (simp add: ext_length_def)
    show thesis
      by (rule that [of 127]) (use 3 hdr ctrl in \<open>auto simp: ext frame_rules_def\<close>)
  qed
qed

lemma parse_frame_bytes:
  assumes plain: "plain_frame iocb" and hdr: "frame_header iocb = Some hdr" and key: "iocb_mask iocb \<noteq> 0 \<Longrightarrow> length key = 4"
  shows "parse_frame (frame_bytes key iocb @ rest) = Some (iocb, rest)"
proof -
  obtain p where p: "p AND 0x7f = p"
    "hdr = [(push_bit 7 (iocb_fin iocb) AND 0x80) OR (push_bit 4 0 AND 0x70) OR (iocb_opcode iocb AND 0xf),
            (push_bit 7 (iocb_mask iocb) AND 0x80) OR p] @ be_bytes (ext_length p) (iocb_payload_length iocb)"
    "if ext_length p = 0 then unat p = iocb_payload_length iocb else iocb_payload_length iocb < 256 ^ ext_length p"
    "frame_rules (iocb_fin iocb) (iocb_opcode iocb) (ext_length p) (iocb_payload_length iocb)"
    using frame_header_shape [OF plain hdr] by blast
  let ?bs = "frame_bytes key iocb @ rest" and ?ext = "ext_length p" and ?len = "length (iocb_data iocb)"
  have fields: "iocb_fin iocb \<in> {0, 1}" "iocb_opcode iocb AND 0xf = iocb_opcode iocb" "iocb_mask iocb \<in> {0, 1}"
    "iocb_rsv iocb = 0" "iocb_payload_length iocb = ?len"
    using plain by (simp_all add: plain_frame_def)
  define body where "body = (if iocb_mask iocb = 0 then iocb_data iocb else key @ apply_mask key 0 (iocb_data iocb))"
  define k where "k = (if iocb_mask iocb = 0 then 0 else 4 :: nat)"
  have bs: "?bs = hdr @ body @ rest" by (simp add: frame_bytes_def hdr body_def)
  have nth: "?bs ! 0 = (push_bit 7 (iocb_fin iocb) AND 0x80) OR (push_bit 4 0 AND 0x70) OR (iocb_opcode iocb AND 0xf)"
    "?bs ! 1 = (push_bit 7 (iocb_mask iocb) AND 0x80) OR p"
    unfolding bs p(2) by simp_all
  have tail: "drop 2 ?bs = be_bytes ?ext ?len @ body @ rest" "2 + ?ext + length body \<le> length ?bs"
    unfolding bs p(2) fields(5) by simp_all
  have len: "frame_length ?bs = ?len"
  proof -
    have m: "?bs ! 1 AND 0x7f = p" unfolding nth(2) by (rule second_byte [OF fields(3) p(1)])
    have "take ?ext (drop 2 ?bs) = be_bytes ?ext ?len" unfolding tail(1) by simp
    then show ?thesis using p(3) unfolding frame_length_def Let_def m by (auto simp: be_value_be_bytes fields(5))
  qed
  have body: "length body = k + ?len" "k \<noteq> 0 \<Longrightarrow> take 4 (body @ rest) = key"
    "take ?len (drop k (body @ rest)) = (if iocb_mask iocb = 0 then iocb_data iocb else apply_mask key 0 (iocb_data iocb))"
    using key by (auto simp: body_def k_def)
  have behind: "drop (2 + ?ext) ?bs = body @ rest"
    using tail(1) by (metis add.commute append_eq_conv_conj drop_drop length_be_bytes)
  then have drops: "drop (2 + ?ext + k) ?bs = drop k (body @ rest)" "drop (2 + ?ext + k + ?len) ?bs = rest"
    using body(1) by (metis add.commute drop_drop, metis add.assoc add.commute append_eq_conv_conj drop_drop)
  have "parse_frame ?bs = Some (\<lparr>iocb_fin = iocb_fin iocb, iocb_rsv = 0, iocb_opcode = iocb_opcode iocb,
      iocb_payload_length = ?len, iocb_mask = iocb_mask iocb, iocb_data = iocb_data iocb\<rparr>, rest)"
  proof -
    have m: "drop_bit 7 (?bs ! 1) AND 1 = iocb_mask iocb" "?bs ! 1 AND 0x7f = p"
      unfolding nth(2) by (rule second_byte [OF fields(3) p(1)])+
    have b: "drop_bit 7 (?bs ! 0) AND 1 = iocb_fin iocb" "drop_bit 4 (?bs ! 0) AND 7 = 0" "?bs ! 0 AND 0xf = iocb_opcode iocb"
      unfolding nth(1) by (rule first_byte [OF fields(1,2)])+
    have room: "2 \<le> length ?bs" "2 + ?ext + k + ?len \<le> length ?bs" using tail(2) body(1) by simp_all
    have data: "(if iocb_mask iocb = 0 then take ?len (drop k (body @ rest))
       else apply_mask (take 4 (body @ rest)) 0 (take ?len (drop k (body @ rest)))) = iocb_data iocb"
      using key by (simp add: body_def k_def apply_mask_twice)
    show ?thesis
      unfolding parse_frame_def Let_def m b len k_def [symmetric] drops behind
      using room p(4) data by (simp add: fields(5))
  qed
  then show ?thesis by (simp add: fields(4) flip: fields(5))
qed

section \<open>Sending a frame\<close>

text \<open>Callbacks that take all they are given, as long as the state is \<open>ok\<close>; \<open>out\<close> is what they have taken.\<close>

definition accepts_all :: "'n wslay_frame_callbacks \<Rightarrow> ('n \<Rightarrow> bool) \<Rightarrow> ('n \<Rightarrow> bytes) \<Rightarrow> bool" where
  "accepts_all cb ok out \<longleftrightarrow>
     (\<forall>data flags n. ok n \<and> data \<noteq> [] \<and> length data \<le> IBUF_SIZE \<longrightarrow>
        (\<exists>n'. send_callback cb data flags n = (int (length data), n') \<and> ok n' \<and> out n' = out n @ data)) \<and>
     (\<forall>k n. ok n \<longrightarrow>
        (\<exists>key n'. genmask_callback cb k n = ((0, key), n') \<and> length key = k \<and> ok n' \<and> out n' = out n))"

lemma accepts_all_send:
  assumes "accepts_all cb ok out" "ok n" "data \<noteq> []" "length data \<le> IBUF_SIZE"
  obtains n' where "send_callback cb data flags n = (int (length data), n')" "ok n'" "out n' = out n @ data"
  using assms unfolding accepts_all_def by blast

lemma accepts_all_mask:
  assumes "accepts_all cb ok out" "ok n"
  obtains key n' where "genmask_callback cb k n = ((0, key), n')" "length key = k" "ok n'" "out n' = out n"
  using assms unfolding accepts_all_def by blast

lemma send_masked_all:
  assumes "accepts_all cb ok out" "ok n"
  shows "\<exists>n'. send_masked cb key data off tot n = (None, off + length data, tot + length data, n') \<and> ok n' \<and>
    out n' = out n @ apply_mask key off data"
  using assms(2)
proof (induction data arbitrary: off tot n rule: length_induct)
  case (1 data)
  show ?case
  proof (cases "data = []")
    case True
    with 1 show ?thesis by (simp add: send_masked.simps)
  next
    case False
    let ?k = "min IBUF_SIZE (length data)"
    have k: "0 < ?k" "?k \<le> length data" using False by (simp_all add: IBUF_SIZE_def)
    let ?temp = "apply_mask key off (take ?k data)"
    have temp: "?temp \<noteq> []" "length ?temp = ?k"
      using k by (simp_all flip: length_greater_0_conv)
    obtain n1 where n1: "send_callback cb ?temp 0 n = (int ?k, n1)" "ok n1" "out n1 = out n @ ?temp"
      using accepts_all_send [OF assms(1) "1.prems" temp(1), of 0] temp(2) by auto
    have "length (drop ?k data) < length data" using k by simp
    from "1.IH" [rule_format, OF this n1(2), of "off + ?k" "tot + ?k"] obtain n2 where
      n2: "send_masked cb key (drop ?k data) (off + ?k) (tot + ?k) n1 = (None, off + length data, tot + length data, n2)"
        "ok n2" "out n2 = out n1 @ apply_mask key (off + ?k) (drop ?k data)"
      using k(2) by auto
    have "apply_mask key off data = ?temp @ apply_mask key (off + ?k) (drop ?k data)"
      using apply_mask_append [of key off "take ?k data" "drop ?k data"] k(2) by (simp add: min_def)
    then show ?thesis
      using n1(1) n2 k False by (simp add: send_masked.simps [of cb key data] n1(3) Let_def)
  qed
qed

text \<open>
  A masked frame that is sent from the start reaches the callbacks as the bytes of the frame, under a new key, and
  the context is ready for the next one.
\<close>

lemma frame_header_length:
  assumes "frame_header iocb = Some hdr"
  shows "2 \<le> length hdr" "length hdr \<le> 10"
  using assms by (auto simp: frame_header_def Let_def split: if_splits)

lemma wslay_frame_send_all:
  assumes laws: "accepts_all cb ok out" "ok n" and ctx: "wfc_ostate ctx = PREP_HEADER"
    and frame: "plain_frame iocb" "iocb_mask iocb = 1" "frame_header iocb = Some hdr"
  shows "\<exists>key ctx' n'. wslay_frame_send cb iocb ctx n = (int (length (iocb_data iocb)), ctx', n') \<and> length key = 4 \<and>
    out n' = out n @ frame_bytes key iocb \<and> ok n' \<and> wfc_ostate ctx' = PREP_HEADER \<and>
    (\<exists>m k l. ctx' = ctx\<lparr>wfc_oheader := [], wfc_opayloadlen := l, wfc_opayloadoff := l, wfc_omask := m, wfc_omaskkey := k,
      wfc_ostate := PREP_HEADER\<rparr>)"
proof -
  let ?data = "iocb_data iocb"
  have len: "iocb_payload_length iocb = length ?data" using frame(1) by (simp add: plain_frame_def)
  obtain key n1 where n1: "genmask_callback cb 4 n = ((0, key), n1)" "length key = 4" "ok n1" "out n1 = out n"
    using accepts_all_mask [OF laws, of 4] by blast
  have hdr: "hdr @ key \<noteq> []" "length (hdr @ key) \<le> IBUF_SIZE"
    using frame_header_length [OF frame(3)] n1(2) by (auto simp: IBUF_SIZE_def)
  obtain n2 where n2: "send_callback cb (hdr @ key) (if 0 < length ?data then WSLAY_MSG_MORE else 0) n1 =
      (int (length (hdr @ key)), n2)" "ok n2" "out n2 = out n1 @ hdr @ key"
    using accepts_all_send [OF laws(1) n1(3) hdr] by blast
  define ctx1 where "ctx1 = ctx\<lparr>wfc_omaskkey := key, wfc_omask := 1, wfc_ostate := SEND_HEADER, wfc_oheader := hdr @ key,
    wfc_opayloadlen := length ?data, wfc_opayloadoff := 0\<rparr>"
  have prep: "prepare_header cb iocb ctx n = (None, ctx1, n1)"
    by (simp add: prepare_header_def frame n1(1) ctx1_def len)
  define ctx2 where "ctx2 = ctx1\<lparr>wfc_oheader := [], wfc_ostate := SEND_PAYLOAD\<rparr>"
  have head: "send_header cb iocb ctx1 n1 = (None, ctx2, n2)"
    using n2(1) frame_header_length(1) [OF frame(3)] n1(2) by (simp add: send_header_def ctx1_def ctx2_def Let_def nat_int_add)
  obtain n3 where n3: "send_masked cb key ?data 0 0 n2 = (None, length ?data, length ?data, n3)" "ok n3"
    "out n3 = out n2 @ apply_mask key 0 ?data"
    using send_masked_all [OF laws(1) n2(2), of key ?data 0 0] by auto
  have pay: "send_payload cb iocb ctx2 n2 =
    (int (length ?data), ctx2\<lparr>wfc_opayloadoff := length ?data, wfc_ostate := PREP_HEADER\<rparr>, n3)"
    using n3(1) by (auto simp: send_payload_def ctx2_def ctx1_def send_masked.simps Let_def)
  have "wslay_frame_send cb iocb ctx n =
      (int (length ?data), ctx2\<lparr>wfc_opayloadoff := length ?data, wfc_ostate := PREP_HEADER\<rparr>, n3)"
    using ctx pay by (simp add: wslay_frame_send_def len prep head) (simp add: ctx1_def ctx2_def)
  moreover have "out n3 = out n @ frame_bytes key iocb"
    using n1(4) n2(3) n3(3) frame(2,3) by (simp add: frame_bytes_def)
  moreover have "ctx2\<lparr>wfc_opayloadoff := length ?data, wfc_ostate := PREP_HEADER\<rparr> =
    ctx\<lparr>wfc_oheader := [], wfc_opayloadlen := length ?data, wfc_opayloadoff := length ?data, wfc_omask := 1,
      wfc_omaskkey := key, wfc_ostate := PREP_HEADER\<rparr>"
    by (simp add: ctx1_def ctx2_def)
  ultimately show ?thesis using n1(2) n3(2) by (intro exI [of _ key] exI conjI) auto
qed

section \<open>Receiving a frame\<close>

text \<open>Callbacks that give the next bytes of the input when they are there, as long as the state is \<open>ready\<close>.\<close>

definition feeds :: "'n wslay_frame_callbacks \<Rightarrow> ('n \<Rightarrow> bool) \<Rightarrow> ('n \<Rightarrow> bytes) \<Rightarrow> bool" where
  "feeds cb ready input \<longleftrightarrow>
     (\<forall>k n. ready n \<and> 0 < k \<and> k \<le> IBUF_SIZE \<and> k \<le> length (input n) \<longrightarrow>
        (\<exists>n'. recv_callback cb k n = ((int k, take k (input n)), n') \<and> input n' = drop k (input n) \<and> ready n'))"

lemma feeds_recv:
  assumes "feeds cb ready input" "ready n" "0 < k" "k \<le> IBUF_SIZE" "k \<le> length (input n)"
  obtains n' where "recv_callback cb k n = ((int k, take k (input n)), n')" "input n' = drop k (input n)" "ready n'"
  using assms unfolding feeds_def by blast

lemma fill_ibuf_feeds:
  assumes "feeds cb ready input" "ready n" "wfc_ibuf ctx = []" "0 < wfc_ireqread ctx" "wfc_ireqread ctx \<le> IBUF_SIZE"
    "wfc_ireqread ctx \<le> length (input n)"
  obtains n' where "fill_ibuf cb ctx n = (None, ctx\<lparr>wfc_ibuf := take (wfc_ireqread ctx) (input n)\<rparr>, n')"
    "input n' = drop (wfc_ireqread ctx) (input n)" "ready n'"
proof -
  obtain n' where "recv_callback cb (wfc_ireqread ctx) n = ((int (wfc_ireqread ctx), take (wfc_ireqread ctx) (input n)), n')"
    "input n' = drop (wfc_ireqread ctx) (input n)" "ready n'"
    using feeds_recv [OF assms(1,2,4,5,6)] .
  with that assms(3-6) show thesis by (simp add: fill_ibuf_def wslay_recv_def min_def)
qed

lemma recv_stage_skip: "wfc_istate ctx \<noteq> s \<Longrightarrow> recv_stage s decode cb ctx n = (None, ctx, n)"
  by (simp add: recv_stage_def)

lemma recv_stage_feeds:
  assumes "feeds cb ready input" "ready n" "wfc_ibuf ctx = []" "0 < wfc_ireqread ctx" "wfc_ireqread ctx \<le> IBUF_SIZE"
    "wfc_ireqread ctx \<le> length (input n)" "wfc_istate ctx = s"
  obtains n' where "recv_stage s decode cb ctx n =
      (let (e, ctx) = decode (ctx\<lparr>wfc_ibuf := take (wfc_ireqread ctx) (input n)\<rparr>) in (e, ctx, n'))"
    "input n' = drop (wfc_ireqread ctx) (input n)" "ready n'"
proof -
  obtain n' where "fill_ibuf cb ctx n = (None, ctx\<lparr>wfc_ibuf := take (wfc_ireqread ctx) (input n)\<rparr>, n')"
    "input n' = drop (wfc_ireqread ctx) (input n)" "ready n'"
    using fill_ibuf_feeds [OF assms(1-6)] .
  with that [of n'] assms(7) show thesis by (simp add: recv_stage_def)
qed

text \<open>
  Between frames: the next bytes are a header. In a payload: so many bytes of it are missing.
\<close>

definition at_header :: "wslay_frame_context \<Rightarrow> bool" where
  "at_header ctx \<longleftrightarrow> wfc_istate ctx = RECV_HEADER1 \<and> wfc_ireqread ctx = 2 \<and> wfc_ibuf ctx = []"

definition in_payload :: "wslay_frame_context \<Rightarrow> nat \<Rightarrow> bool" where
  "in_payload ctx rem \<longleftrightarrow>
     wfc_istate ctx = RECV_PAYLOAD \<and> wfc_ibuf ctx = [] \<and> wfc_imask ctx = 0 \<and>
     wfc_ipayloadoff ctx + rem = wfc_ipayloadlen ctx \<and> wfc_ipayloadlen ctx < 2 ^ 63"

text \<open>A piece of the payload: all that is missing, at most the size of the buffer.\<close>

lemma recv_payload_feeds:
  assumes laws: "feeds cb ready input" "ready n" and ctx: "in_payload ctx rem" and room: "rem \<le> length (input n)"
  defines "k \<equiv> min rem IBUF_SIZE"
  obtains ctx' n' where "recv_payload cb ctx iocb n = (int k, ctx',
      \<lparr>iocb_fin = iom_fin (wfc_iom ctx), iocb_rsv = iom_rsv (wfc_iom ctx), iocb_opcode = iom_opcode (wfc_iom ctx),
       iocb_payload_length = wfc_ipayloadlen ctx, iocb_mask = 0, iocb_data = take k (input n)\<rparr>, n')"
    "input n' = drop k (input n)" "ready n'" "wfc_iom ctx' = wfc_iom ctx"
    "if rem \<le> IBUF_SIZE then at_header ctx' else in_payload ctx' (rem - k)"
proof -
  let ?ctx = "ctx\<lparr>wfc_ireqread := rem\<rparr>"
  have ctx': "wfc_istate ctx = RECV_PAYLOAD" "wfc_ibuf ctx = []" "wfc_imask ctx = 0"
    "wfc_ipayloadoff ctx + rem = wfc_ipayloadlen ctx" "wfc_ipayloadlen ctx < 2 ^ 63"
    using ctx by (simp_all add: in_payload_def)
  have sub: "size_sub (wfc_ipayloadlen ctx) (wfc_ipayloadoff ctx) = rem"
    using ctx'(4,5) by (subst size_sub_small) auto
  have k: "k \<le> rem" "k \<le> IBUF_SIZE" "rem \<le> IBUF_SIZE \<longleftrightarrow> k = rem" by (auto simp: k_def)
  have "\<exists>r n'. (if wfc_ibuf ?ctx = [] \<and> 0 < rem then wslay_recv cb ?ctx n else (1, ?ctx, n)) =
      (r, ?ctx\<lparr>wfc_ibuf := take k (input n)\<rparr>, n') \<and> 0 < r \<and> input n' = drop k (input n) \<and> ready n'"
  proof (cases "rem = 0")
    case True
    then show ?thesis using laws(2) ctx'(2) by (simp add: k_def)
  next
    case False
    then have "0 < k" by (simp add: k_def IBUF_SIZE_def)
    then obtain n' where "recv_callback cb k n = ((int k, take k (input n)), n')" "input n' = drop k (input n)" "ready n'"
      using feeds_recv [OF laws, of k] k room by auto
    with False ctx'(2) \<open>0 < k\<close> show ?thesis by (simp add: wslay_recv_def k_def)
  qed
  then obtain r n' where fetch: "(if wfc_ibuf ?ctx = [] \<and> 0 < rem then wslay_recv cb ?ctx n else (1, ?ctx, n)) =
      (r, ?ctx\<lparr>wfc_ibuf := take k (input n)\<rparr>, n')" "0 < r" "input n' = drop k (input n)" "ready n'"
    by blast
  have "length (take k (input n)) = k" using k(1) room by simp
  moreover have "wfc_ipayloadlen ctx = wfc_ipayloadoff ctx + k \<longleftrightarrow> k = rem" using ctx'(4) by auto
  ultimately show thesis
    using that fetch k ctx' unfolding recv_payload_def Let_def sub fetch(1)
    by (cases "k = rem") (simp_all add: at_header_def in_payload_def)
qed

text \<open>The stages before the payload read the header of the frame and nothing behind it.\<close>

lemma parse_frame_unmasked:
  assumes "parse_frame bs = Some (f, rest)" "iocb_mask f = 0"
  defines "ext \<equiv> ext_length (bs ! 1 AND 0x7f)"
  shows "drop_bit 7 (bs ! 1) AND 1 = 0" "frame_length bs = length (iocb_data f)" "iocb_payload_length f = length (iocb_data f)"
    "bs = take (2 + ext) bs @ iocb_data f @ rest" "2 + ext \<le> length bs" "iocb_fin f = drop_bit 7 (bs ! 0) AND 1"
    "iocb_opcode f = bs ! 0 AND 0xf" "iocb_rsv f = drop_bit 4 (bs ! 0) AND 7"
    "frame_rules (iocb_fin f) (iocb_opcode f) ext (length (iocb_data f))"
proof -
  let ?len = "frame_length bs"
  have m: "drop_bit 7 (bs ! 1) AND 1 = 0" using assms(1,2) by (auto simp: parse_frame_def Let_def split: if_splits)
  then have p: "2 + ext + ?len \<le> length bs" "frame_rules (drop_bit 7 (bs ! 0) AND 1) (bs ! 0 AND 0xf) ext ?len"
    "f = \<lparr>iocb_fin = drop_bit 7 (bs ! 0) AND 1, iocb_rsv = drop_bit 4 (bs ! 0) AND 7, iocb_opcode = bs ! 0 AND 0xf,
      iocb_payload_length = ?len, iocb_mask = 0, iocb_data = take ?len (drop (2 + ext) bs)\<rparr>" "rest = drop (2 + ext + ?len) bs"
    using assms(1) by (auto simp: parse_frame_def Let_def ext_def split: if_splits)
  then show "drop_bit 7 (bs ! 1) AND 1 = 0" "frame_length bs = length (iocb_data f)"
    "iocb_payload_length f = length (iocb_data f)" "2 + ext \<le> length bs" "iocb_fin f = drop_bit 7 (bs ! 0) AND 1"
    "iocb_opcode f = bs ! 0 AND 0xf" "iocb_rsv f = drop_bit 4 (bs ! 0) AND 7"
    "frame_rules (iocb_fin f) (iocb_opcode f) ext (length (iocb_data f))"
    using m by simp_all
  have "drop (2 + ext) bs = take ?len (drop (2 + ext) bs) @ drop (2 + ext + ?len) bs"
    by (metis add.commute append_take_drop_id drop_drop)
  then show "bs = take (2 + ext) bs @ iocb_data f @ rest" using p(3,4) by (metis append_take_drop_id wslay_frame_iocb.select_convs(6))
qed

lemma recv_header_unmasked:
  assumes "drop_bit 7 (wfc_ibuf c ! 1) AND 1 = 0" "drop_bit 7 (wfc_ibuf c ! 0) AND 1 = fin" "drop_bit 4 (wfc_ibuf c ! 0) AND 7 = rsv"
    "wfc_ibuf c ! 0 AND 0xf = opcode" "wfc_ibuf c ! 1 AND 0x7f = p" "\<not> (wslay_is_ctrl_frame opcode \<and> (p > 125 \<or> fin = 0))"
  shows "recv_header c = (None,
    let c = c\<lparr>wfc_iom := \<lparr>iom_fin = fin, iom_opcode = opcode, iom_rsv = rsv\<rparr>, wfc_imask := 0, wfc_ibuf := drop 2 (wfc_ibuf c)\<rparr> in
    if p = 126 then c\<lparr>wfc_istate := RECV_EXT_PAYLOADLEN, wfc_ireqread := 2\<rparr>
    else if p = 127 then c\<lparr>wfc_istate := RECV_EXT_PAYLOADLEN, wfc_ireqread := 8\<rparr>
    else c\<lparr>wfc_ipayloadlen := unat p, wfc_ipayloadoff := 0, wfc_istate := RECV_PAYLOAD, wfc_ireqread := unat p\<rparr>)"
  unfolding recv_header_def Let_def assms(1-5) using assms(6) by simp

lemma recv_frame_header:
  assumes laws: "feeds cb ready input" "ready n" and ctx: "at_header ctx"
    and frame: "parse_frame (input n) = Some (f, rest)" "iocb_mask f = 0"
  obtains ctx1 n1 where "wslay_frame_recv cb ctx iocb n = recv_payload cb ctx1 iocb n1" "in_payload ctx1 (length (iocb_data f))"
    "wfc_iom ctx1 = \<lparr>iom_fin = iocb_fin f, iom_opcode = iocb_opcode f, iom_rsv = iocb_rsv f\<rparr>"
    "wfc_ipayloadlen ctx1 = length (iocb_data f)" "input n1 = iocb_data f @ rest" "ready n1"
proof -
  let ?in = "input n"
  define ext where "ext = ext_length (?in ! 1 AND 0x7f)"
  note pf = parse_frame_unmasked [OF frame, folded ext_def]
  have at: "wfc_istate ctx = RECV_HEADER1" "wfc_ireqread ctx = 2" "wfc_ibuf ctx = []"
    using ctx by (simp_all add: at_header_def)
  have two: "2 \<le> length ?in" using pf(5) by simp
  define iom where "iom = \<lparr>iom_fin = iocb_fin f, iom_opcode = iocb_opcode f, iom_rsv = iocb_rsv f\<rparr>"
  define p where "p = ?in ! 1 AND 0x7f"
  obtain n1 where n1: "recv_stage RECV_HEADER1 recv_header cb ctx n =
      (let (e, ctx) = recv_header (ctx\<lparr>wfc_ibuf := take 2 ?in\<rparr>) in (e, ctx, n1))" "input n1 = drop 2 ?in" "ready n1"
    using recv_stage_feeds [OF laws at(3), of RECV_HEADER1 recv_header] at two by (auto simp: IBUF_SIZE_def)
  have nth: "take 2 ?in ! 0 = ?in ! 0" "take 2 ?in ! 1 = ?in ! 1" by simp_all
  have len: "frame_length ?in = length (iocb_data f)" by (rule pf(2))
  have short: "unat p = length (iocb_data f)" if "ext = 0"
    using that len by (simp add: frame_length_def Let_def ext_def p_def)
  have ctrl: "\<not> (wslay_is_ctrl_frame (iocb_opcode f) \<and> (p > 125 \<or> iocb_fin f = 0))"
    using pf(9) short by (auto simp: frame_rules_def word_less_nat_alt)
  define c0 where "c0 = ctx\<lparr>wfc_iom := iom, wfc_imask := 0, wfc_ibuf := []\<rparr>"
  have decode: "recv_header (ctx\<lparr>wfc_ibuf := take 2 ?in\<rparr>) = (None,
     if ext = 0 then c0\<lparr>wfc_ipayloadlen := unat p, wfc_ipayloadoff := 0, wfc_istate := RECV_PAYLOAD, wfc_ireqread := unat p\<rparr>
     else c0\<lparr>wfc_istate := RECV_EXT_PAYLOADLEN, wfc_ireqread := ext\<rparr>)"
  proof -
    let ?c = "ctx\<lparr>wfc_ibuf := take 2 ?in\<rparr>"
    have "recv_header ?c = (None, let c = ?c\<lparr>wfc_iom := iom, wfc_imask := 0, wfc_ibuf := drop 2 (wfc_ibuf ?c)\<rparr> in
        if p = 126 then c\<lparr>wfc_istate := RECV_EXT_PAYLOADLEN, wfc_ireqread := 2\<rparr>
        else if p = 127 then c\<lparr>wfc_istate := RECV_EXT_PAYLOADLEN, wfc_ireqread := 8\<rparr>
        else c\<lparr>wfc_ipayloadlen := unat p, wfc_ipayloadoff := 0, wfc_istate := RECV_PAYLOAD, wfc_ireqread := unat p\<rparr>)"
      unfolding iom_def by (rule recv_header_unmasked) (use pf(1,6-8) ctrl in \<open>simp_all add: p_def\<close>)
    moreover have "drop 2 (wfc_ibuf ?c) = []" by simp
    moreover have "ext = (if p = 126 then 2 else if p = 127 then 8 else 0)" by (simp add: ext_def p_def ext_length_def)
    ultimately show ?thesis by (simp add: c0_def)
  qed
  show thesis
  proof (cases "ext = 0")
    case True
    let ?c = "c0\<lparr>wfc_ipayloadlen := unat p, wfc_ipayloadoff := 0, wfc_istate := RECV_PAYLOAD, wfc_ireqread := unat p\<rparr>"
    have "recv_stage RECV_HEADER1 recv_header cb ctx n = (None, ?c, n1)" using n1(1) decode True by simp
    then have "wslay_frame_recv cb ctx iocb n = recv_payload cb ?c iocb n1"
      by (simp add: wslay_frame_recv_def recv_stage_skip)
    moreover have "in_payload ?c (length (iocb_data f))"
      using short [OF True] unat_7bit [of "?in ! 1"] by (simp add: in_payload_def c0_def p_def)
    moreover have "input n1 = iocb_data f @ rest"
      using n1(2) pf(4,5) True by (metis add_0_right append_eq_conv_conj length_take min.absorb2)
    ultimately show thesis using that n1(3) short [OF True] by (simp add: c0_def iom_def)
  next
    case False
    let ?c = "c0\<lparr>wfc_istate := RECV_EXT_PAYLOADLEN, wfc_ireqread := ext\<rparr>"
    have ext: "ext = 2 \<or> ext = 8" using False by (auto simp: ext_def ext_length_def split: if_splits)
    have head: "recv_stage RECV_HEADER1 recv_header cb ctx n = (None, ?c, n1)" using n1(1) decode False by simp
    have c: "wfc_ibuf ?c = []" "wfc_ireqread ?c = ext" "wfc_istate ?c = RECV_EXT_PAYLOADLEN" "wfc_imask ?c = 0"
      by (simp_all add: c0_def)
    have room: "0 < ext" "ext \<le> IBUF_SIZE" "ext \<le> length (input n1)"
      using ext pf(5) n1(2) by (auto simp: IBUF_SIZE_def)
    obtain n2 where n2: "recv_stage RECV_EXT_PAYLOADLEN recv_ext_payloadlen cb ?c n1 =
        (let (e, ctx) = recv_ext_payloadlen (?c\<lparr>wfc_ibuf := take ext (input n1)\<rparr>) in (e, ctx, n2))"
      "input n2 = drop ext (input n1)" "ready n2"
      using recv_stage_feeds [OF laws(1) n1(3) c(1), of RECV_EXT_PAYLOADLEN recv_ext_payloadlen] room c(2,3) by auto
    let ?d = "?c\<lparr>wfc_ipayloadlen := length (iocb_data f), wfc_ipayloadoff := 0, wfc_istate := RECV_PAYLOAD,
      wfc_ireqread := length (iocb_data f)\<rparr>"
    have val: "be_value (take ext (drop 2 ?in)) = length (iocb_data f)"
      using len False by (simp add: frame_length_def Let_def ext_def)
    then have "recv_ext_payloadlen (?c\<lparr>wfc_ibuf := take ext (input n1)\<rparr>) = (None, ?d)"
      using ext pf(9) n1(2) by (auto simp: recv_ext_payloadlen_def Let_def c0_def frame_rules_def)
    then have "recv_stage RECV_EXT_PAYLOADLEN recv_ext_payloadlen cb ?c n1 = (None, ?d, n2)" using n2(1) by simp
    then have "wslay_frame_recv cb ctx iocb n = recv_payload cb ?d iocb n2"
      by (simp add: wslay_frame_recv_def head recv_stage_skip c0_def)
    moreover have "in_payload ?d (length (iocb_data f))"
    proof -
      have "length (take ext (drop 2 ?in)) = ext" using pf(5) by simp
      then have "length (iocb_data f) < 256 ^ ext" using be_value_less [of "take ext (drop 2 ?in)"] val by simp
      then show ?thesis using ext pf(9) by (auto simp: in_payload_def c0_def frame_rules_def)
    qed
    moreover have "input n2 = iocb_data f @ rest"
      using n2(2) n1(2) pf(4,5) by (metis add.commute append_eq_conv_conj drop_drop length_take min.absorb2)
    ultimately show thesis using that n2(3) by (simp add: c0_def iom_def)
  qed
qed

end
