(* ===== verification/WebSocket.thy ===== *)
theory WebSocket
  imports Wslay Network
begin

text \<open>
  MQTT over WebSocket (\<^verbatim>\<open>network/WebSocket/WebSocketConnection.cpp\<close>): a port behind \<open>NetworkConnection\<close> that puts
  every buffer into a binary frame and takes the payload of the frames it receives, over a TLS connection it owns.

  The TLS connection is the device state \<open>'n\<close> of another port; \<open>Initialize\<close>, the random device, the clock and the
  hash functions are parameters beside it. The callbacks the constructor binds to the object only use that
  connection and the random device, so they are callbacks over \<open>'n\<close>.
\<close>

section \<open>State\<close>

record 'n ws_platform =
  wp_port :: "'n NetworkConnection"
  wp_Initialize :: "'n \<Rightarrow> ResponseCode \<times> 'n"
  wp_random :: "'n \<Rightarrow> u32 \<times> 'n"
  wp_utc_time :: "'n \<Rightarrow> (bytes \<times> bytes) option"
  wp_HMAC :: "bytes \<Rightarrow> bytes \<Rightarrow> bytes"
  wp_SHA256 :: "bytes \<Rightarrow> bytes"
  wp_SHA1 :: "bytes \<Rightarrow> bytes"
  wp_Base64 :: "bytes \<Rightarrow> bytes"

record 'n WebSocketConnection =
  ws_root_ca_location :: bytes
  ws_aws_access_key_id :: bytes
  ws_aws_secret_access_key :: bytes
  ws_aws_session_token :: bytes
  ws_custom_authorizer_name :: bytes
  ws_custom_authorizer_signature :: bytes
  ws_custom_authorizer_token_name :: bytes
  ws_custom_authorizer_token :: bytes
  ws_aws_region :: bytes
  ws_endpoint :: bytes
  ws_endpoint_port :: u16
  ws_tls :: 'n
  ws_is_connected :: bool
  ws_frame_Context :: "wslay_frame_context option"
  ws_read_buf :: bytes
  ws_curr_read_buf_size :: nat
  ws_frame_read :: wslay_frame_iocb
  ws_frame_write :: wslay_frame_iocb

definition empty_frame :: wslay_frame_iocb where
  "empty_frame =
     \<lparr>iocb_fin = 0, iocb_rsv = 0, iocb_opcode = 0, iocb_payload_length = 0, iocb_mask = 0, iocb_data = []\<rparr>"

text \<open>The constructors; \<open>tls\<close> is the constructor of the TLS connection.\<close>

definition WebSocketConnection_new ::
  "(bytes \<Rightarrow> u16 \<Rightarrow> bytes \<Rightarrow> int \<Rightarrow> int \<Rightarrow> int \<Rightarrow> bool \<Rightarrow> 'n) \<Rightarrow> bytes \<Rightarrow> u16 \<Rightarrow> bytes \<Rightarrow> bytes \<Rightarrow> bytes \<Rightarrow> bytes \<Rightarrow> bytes
   \<Rightarrow> int \<Rightarrow> int \<Rightarrow> int \<Rightarrow> bool \<Rightarrow> 'n WebSocketConnection" where
  "WebSocketConnection_new tls endpoint endpoint_port root_ca_location aws_region aws_access_key_id
      aws_secret_access_key aws_session_token handshake_timeout read_timeout write_timeout server_verification_flag =
     \<lparr>ws_root_ca_location = root_ca_location, ws_aws_access_key_id = aws_access_key_id,
      ws_aws_secret_access_key = aws_secret_access_key, ws_aws_session_token = aws_session_token,
      ws_custom_authorizer_name = [], ws_custom_authorizer_signature = [], ws_custom_authorizer_token_name = [],
      ws_custom_authorizer_token = [], ws_aws_region = aws_region, ws_endpoint = endpoint,
      ws_endpoint_port = endpoint_port,
      ws_tls = tls endpoint endpoint_port root_ca_location handshake_timeout read_timeout write_timeout server_verification_flag,
      ws_is_connected = False, ws_frame_Context = None, ws_read_buf = [], ws_curr_read_buf_size = 0,
      ws_frame_read = empty_frame, ws_frame_write = empty_frame\<rparr>"

definition WebSocketConnection_custom ::
  "(bytes \<Rightarrow> u16 \<Rightarrow> bytes \<Rightarrow> int \<Rightarrow> int \<Rightarrow> int \<Rightarrow> bool \<Rightarrow> 'n) \<Rightarrow> bytes \<Rightarrow> u16 \<Rightarrow> bytes \<Rightarrow> int \<Rightarrow> int \<Rightarrow> int
   \<Rightarrow> bytes \<Rightarrow> bytes \<Rightarrow> bytes \<Rightarrow> bytes \<Rightarrow> bool \<Rightarrow> 'n WebSocketConnection" where
  "WebSocketConnection_custom tls endpoint endpoint_port root_ca_location handshake_timeout read_timeout write_timeout
      custom_authorizer_name custom_authorizer_signature custom_authorizer_token_name custom_authorizer_token
      server_verification_flag =
     (WebSocketConnection_new tls endpoint endpoint_port root_ca_location [] [] [] [] handshake_timeout read_timeout
        write_timeout False)
     \<lparr>ws_custom_authorizer_name := custom_authorizer_name, ws_custom_authorizer_signature := custom_authorizer_signature,
      ws_custom_authorizer_token_name := custom_authorizer_token_name, ws_custom_authorizer_token := custom_authorizer_token\<rparr>"

section \<open>The callbacks of the frame layer\<close>

text \<open>One call of the TLS connection each; a part of the buffer is an error.\<close>

definition ws_ReadFromNetworkBuffer :: "'n ws_platform \<Rightarrow> bytes \<Rightarrow> nat \<Rightarrow> 'n \<Rightarrow> ResponseCode \<times> bytes \<times> 'n" where
  "ws_ReadFromNetworkBuffer P read_buf bytes_to_read n =
     (case Read_nc (wp_port P) (vec_resize bytes_to_read read_buf) 0 bytes_to_read 0 n of
        (rc, buf, tot, n) \<Rightarrow> (if rc = SUCCESS \<and> tot \<noteq> bytes_to_read then NETWORK_SSL_READ_ERROR else rc, buf, n))"

definition ws_WriteToNetworkBuffer :: "'n ws_platform \<Rightarrow> bytes \<Rightarrow> 'n \<Rightarrow> ResponseCode \<times> 'n" where
  "ws_WriteToNetworkBuffer P write_buf n =
     (if length write_buf = 0 then (NETWORK_NOTHING_TO_WRITE_ERROR, n)
      else case Write_nc (wp_port P) write_buf 0 n of
        (rc, tot, n) \<Rightarrow> (if rc = SUCCESS \<and> tot \<noteq> length write_buf then NETWORK_SSL_WRITE_ERROR else rc, n))"

fun GetRandomBytesOfLength :: "'n ws_platform \<Rightarrow> nat \<Rightarrow> 'n \<Rightarrow> (int \<times> bytes) \<times> 'n" where
  "GetRandomBytesOfLength P 0 n = ((0, []), n)"
| "GetRandomBytesOfLength P (Suc k) n =
     (case wp_random P n of
        (r, n) \<Rightarrow> (case GetRandomBytesOfLength P k n of ((rc, bs), n) \<Rightarrow> ((rc, ucast (r mod 256) # bs), n)))"

definition WssFrameSendCallback :: "'n ws_platform \<Rightarrow> bytes \<Rightarrow> nat \<Rightarrow> 'n \<Rightarrow> int \<times> 'n" where
  "WssFrameSendCallback P data flags n =
     (case ws_WriteToNetworkBuffer P data n of
        (rc, n) \<Rightarrow> (if rc \<noteq> SUCCESS then - 1 else int (length data), n))"

definition WssFrameRecvCallback :: "'n ws_platform \<Rightarrow> nat \<Rightarrow> 'n \<Rightarrow> (int \<times> bytes) \<times> 'n" where
  "WssFrameRecvCallback P bytes_to_read n =
     (case ws_ReadFromNetworkBuffer P [] bytes_to_read n of
        (rc, read_buf, n) \<Rightarrow>
          (if rc = NETWORK_SSL_NOTHING_TO_READ then (0, [])
           else if rc \<noteq> SUCCESS then (- 1, [])
           else (int bytes_to_read, read_buf), n))"

definition WssFrameGenMaskCallback :: "'n ws_platform \<Rightarrow> nat \<Rightarrow> 'n \<Rightarrow> (int \<times> bytes) \<times> 'n" where
  "WssFrameGenMaskCallback P len n = GetRandomBytesOfLength P len n"

definition ws_callbacks :: "'n ws_platform \<Rightarrow> 'n wslay_frame_callbacks" where
  "ws_callbacks P =
     \<lparr>send_callback = WssFrameSendCallback P, recv_callback = WssFrameRecvCallback P,
      genmask_callback = WssFrameGenMaskCallback P\<rparr>"

section \<open>Reading and writing\<close>

definition AppendBytesToBuffer :: "bytes \<Rightarrow> 'n WebSocketConnection \<Rightarrow> 'n WebSocketConnection" where
  "AppendBytesToBuffer bs w =
     w\<lparr>ws_read_buf := ws_read_buf w @ bs, ws_curr_read_buf_size := size_add (ws_curr_read_buf_size w) (length bs)\<rparr>"

definition ClearBuffer :: "'n WebSocketConnection \<Rightarrow> 'n WebSocketConnection" where
  "ClearBuffer w = w\<lparr>ws_read_buf := [], ws_curr_read_buf_size := 0\<rparr>"

definition ViolateServerToClientWsProtocol :: "wslay_frame_iocb \<Rightarrow> bool" where
  "ViolateServerToClientWsProtocol f \<longleftrightarrow> iocb_rsv f \<noteq> 0 \<or> iocb_mask f \<noteq> 0"

definition EncodeWsFrameAsFinNoRsvNoExt :: "wslay_frame_iocb option \<Rightarrow> u8 \<Rightarrow> u8 \<Rightarrow> bytes \<Rightarrow> wslay_frame_iocb res" where
  "EncodeWsFrameAsFinNoRsvNoExt p_frame op_code m data =
     bind_res (deref p_frame) (\<lambda>f.
       Inr (f\<lparr>iocb_opcode := op_code, iocb_data := data, iocb_fin := 1, iocb_mask := m,
              iocb_payload_length := length data, iocb_rsv := 0\<rparr>))"

text \<open>The frame of the answer to a PING is a \<open>std::unique_ptr\<close> that was given no object.\<close>

definition SendPongFromClient :: "'n ws_platform \<Rightarrow> 'n WebSocketConnection \<Rightarrow> 'n WebSocketConnection res" where
  "SendPongFromClient P w =
     bind_res (EncodeWsFrameAsFinNoRsvNoExt None WSLAY_PONG 1 []) (\<lambda>f.
     bind_res (deref (ws_frame_Context w)) (\<lambda>ctx.
       case wslay_frame_send (ws_callbacks P) f ctx (ws_tls w) of
         (_, ctx, n) \<Rightarrow> Inr (w\<lparr>ws_frame_Context := Some ctx, ws_tls := n\<rparr>)))"

text \<open>
  The loop of \<open>ReadInternal\<close>: bytes that are buffered are taken from the front, otherwise a frame, or a piece of one, is
  received. The fuel bounds the number of iterations.
\<close>

fun ws_read_loop ::
  "nat \<Rightarrow> 'n ws_platform \<Rightarrow> bytes \<Rightarrow> nat \<Rightarrow> nat \<Rightarrow> nat \<Rightarrow> 'n WebSocketConnection
   \<Rightarrow> (ResponseCode \<times> bytes \<times> nat \<times> 'n WebSocketConnection) res" where
  "ws_read_loop 0 P buf offset sz size_read w = Inl OutOfFuel"
| "ws_read_loop (Suc fuel) P buf offset sz size_read w =
     (if sz \<le> ws_curr_read_buf_size w then
        (if length buf < offset \<or> length (ws_read_buf w) < sz then Inl InvalidIterator
         else Inr (SUCCESS, take offset buf @ take sz (ws_read_buf w), sz,
                w\<lparr>ws_read_buf := drop sz (ws_read_buf w), ws_curr_read_buf_size := ws_curr_read_buf_size w - sz\<rparr>))
      else
        bind_res (deref (ws_frame_Context w)) (\<lambda>ctx.
          case wslay_frame_recv (ws_callbacks P) ctx (ws_frame_read w) (ws_tls w) of
            (ws_read_res, ctx, f, n) \<Rightarrow>
              let w = w\<lparr>ws_frame_Context := Some ctx, ws_frame_read := f, ws_tls := n\<rparr> in
              if ws_read_res < 0 then Inr (WEBSOCKET_FRAME_RECEIVE_ERROR, buf, size_read, ClearBuffer w)
              else if ViolateServerToClientWsProtocol f then Inr (WEBSOCKET_PROTOCOL_VIOLATION, buf, size_read, ClearBuffer w)
              else if iocb_opcode f = WSLAY_CONNECTION_CLOSE then
                Inr (WEBSOCKET_MAX_LIFETIME_REACHED, buf, size_read, ClearBuffer w)
              else if iocb_opcode f = WSLAY_PING then
                bind_res (SendPongFromClient P w) (\<lambda>w. ws_read_loop fuel P buf offset sz size_read w)
              else if iocb_opcode f = WSLAY_PONG then ws_read_loop fuel P buf offset sz size_read w
              else ws_read_loop fuel P buf offset sz size_read (AppendBytesToBuffer (iocb_data f) w)))"

definition WebSocket_ReadInternal ::
  "nat \<Rightarrow> 'n ws_platform \<Rightarrow> bytes \<Rightarrow> nat \<Rightarrow> nat \<Rightarrow> nat \<Rightarrow> 'n WebSocketConnection
   \<Rightarrow> (ResponseCode \<times> bytes \<times> nat \<times> 'n WebSocketConnection) res" where
  "WebSocket_ReadInternal fuel P buf offset sz size_read w = ws_read_loop fuel P buf offset sz size_read w"

text \<open>The result of sending is compared as a \<open>size_t\<close>: a negative one is large.\<close>

definition WebSocket_WriteInternal ::
  "'n ws_platform \<Rightarrow> bytes \<Rightarrow> nat \<Rightarrow> 'n WebSocketConnection \<Rightarrow> (ResponseCode \<times> nat \<times> 'n WebSocketConnection) res" where
  "WebSocket_WriteInternal P buf size_written w =
     bind_res (EncodeWsFrameAsFinNoRsvNoExt (Some (ws_frame_write w)) WSLAY_BINARY_FRAME 1 buf) (\<lambda>f.
     bind_res (deref (ws_frame_Context w)) (\<lambda>ctx.
       case wslay_frame_send (ws_callbacks P) f ctx (ws_tls w) of
         (data_len_sent, ctx, n) \<Rightarrow>
           let w = w\<lparr>ws_frame_write := f, ws_frame_Context := Some ctx, ws_tls := n\<rparr> in
           Inr (if nat (data_len_sent mod 2 ^ 64) < length buf then (WEBSOCKET_FRAME_TRANSMIT_ERROR, size_written, w)
                else (SUCCESS, length buf, w))))"

definition WebSocket_DisconnectInternal :: "'n ws_platform \<Rightarrow> 'n WebSocketConnection \<Rightarrow> ResponseCode \<times> 'n WebSocketConnection" where
  "WebSocket_DisconnectInternal P w =
     (let w = ClearBuffer (w\<lparr>ws_is_connected := False\<rparr>)
      in case Disconnect_nc (wp_port P) (ws_tls w) of (rc, n) \<Rightarrow> (rc, w\<lparr>ws_tls := n\<rparr>))"

section \<open>Connecting\<close>

text \<open>\<open>snprintf\<close> with \<open>%02x\<close>, and with \<open>std::hex\<close>, \<open>std::uppercase\<close> and \<open>std::setw(2)\<close>: the stream pads with a blank.\<close>

definition hex_digit :: "byte \<Rightarrow> nat \<Rightarrow> byte" where
  "hex_digit ten d = (if d < 10 then 48 + of_nat d else ten + of_nat (d - 10))"

definition hex02 :: "byte \<Rightarrow> bytes" where
  "hex02 c = [hex_digit 97 (unat c div 16), hex_digit 97 (unat c mod 16)]"

definition hex_setw2 :: "byte \<Rightarrow> bytes" where
  "hex_setw2 c = [if unat c < 16 then 32 else hex_digit 65 (unat c div 16), hex_digit 65 (unat c mod 16)]"

definition isalnum :: "byte \<Rightarrow> bool" where
  "isalnum c \<longleftrightarrow> 48 \<le> c \<and> c \<le> 57 \<or> 65 \<le> c \<and> c \<le> 90 \<or> 97 \<le> c \<and> c \<le> 122"

definition UrlEncode :: "bytes \<Rightarrow> bytes \<Rightarrow> bytes" where
  "UrlEncode ignore_chars s =
     concat (map (\<lambda>c. if isalnum c \<or> c \<in> set ignore_chars then [c] else 37 # hex_setw2 c) s)"

definition NOT_ENCODED_CHARS :: bytes where
  "NOT_ENCODED_CHARS = str ''/''"

definition InitializeCredentialScope :: "bytes \<Rightarrow> 'n WebSocketConnection \<Rightarrow> bytes \<times> bytes" where
  "InitializeCredentialScope date_stamp w =
     (date_stamp @ str ''/'' @ ws_aws_region w @ str ''/'' @ str ''iotdata'' @ str ''/'' @ str ''aws4_request'',
      date_stamp @ str ''%2F'' @ ws_aws_region w @ str ''%2F'' @ str ''iotdata'' @ str ''%2F'' @ str ''aws4_request'')"

definition InitializeSigningKey :: "'n ws_platform \<Rightarrow> bytes \<Rightarrow> 'n WebSocketConnection \<Rightarrow> bytes" where
  "InitializeSigningKey P date_stamp w =
     (let signing_date = wp_HMAC P (str ''AWS4'' @ ws_aws_secret_access_key w) date_stamp;
          signing_region = wp_HMAC P signing_date (ws_aws_region w);
          signing_service = wp_HMAC P signing_region (str ''iotdata'')
      in wp_HMAC P signing_service (str ''aws4_request''))"

definition InitializeSignedString ::
  "'n ws_platform \<Rightarrow> bytes \<Rightarrow> bytes \<Rightarrow> bytes \<Rightarrow> bytes \<Rightarrow> 'n WebSocketConnection \<Rightarrow> bytes" where
  "InitializeSignedString P amz_date date_stamp credential_scope canonical_request w =
     (let string_to_sign = str ''AWS4-HMAC-SHA256'' @ [10] @ amz_date @ [10] @ credential_scope @ [10] @
            concat (map hex02 (wp_SHA256 P canonical_request))
      in wp_HMAC P (InitializeSigningKey P date_stamp w) string_to_sign)"

definition InitializeCanonicalQueryString :: "'n ws_platform \<Rightarrow> 'n WebSocketConnection \<Rightarrow> ResponseCode \<times> bytes" where
  "InitializeCanonicalQueryString P w =
     (case wp_utc_time P (ws_tls w) of
        None \<Rightarrow> (WEBSOCKET_GET_UTC_TIME_FAILED, [])
      | Some (amz_date, date_stamp) \<Rightarrow>
          if length amz_date = 0 \<or> length date_stamp = 0 then (WEBSOCKET_GET_UTC_TIME_FAILED, [])
          else
            let (credential_scope, credential_scope_url_encode) = InitializeCredentialScope date_stamp w;
                query = str ''X-Amz-Algorithm'' @ str ''='' @ str ''AWS4-HMAC-SHA256'' @
                  str ''&'' @ str ''X-Amz-Credential'' @ str ''='' @ ws_aws_access_key_id w @ str ''%2F'' @ credential_scope_url_encode @
                  str ''&'' @ str ''X-Amz-Date'' @ str ''='' @ amz_date @
                  str ''&'' @ str ''X-Amz-Expires'' @ str ''=86400'' @
                  str ''&'' @ str ''X-Amz-SignedHeaders'' @ str ''=host'';
                canonical_headers = str ''host:'' @ ws_endpoint w;
                canonical_request = str ''GET'' @ [10] @ str ''/mqtt'' @ [10] @ query @ [10] @ canonical_headers @
                  [10, 10] @ str ''host'' @ [10] @ str ''e3b0c44298fc1c149afbf4c8996fb92427ae41e4649b934ca495991b7852b855'';
                signed_str = InitializeSignedString P amz_date date_stamp credential_scope canonical_request w;
                query = query @ str ''&'' @ str ''X-Amz-Signature'' @ str ''='' @ concat (map hex02 signed_str)
            in (SUCCESS,
                if 0 < length (ws_aws_session_token w) then
                  query @ str ''&'' @ str ''X-Amz-Security-Token'' @ str ''='' @ UrlEncode NOT_ENCODED_CHARS (ws_aws_session_token w)
                else query))"

definition GenerateClientKey :: "'n ws_platform \<Rightarrow> 'n \<Rightarrow> (ResponseCode \<times> bytes) \<times> 'n" where
  "GenerateClientKey P n =
     (case GetRandomBytesOfLength P 16 n of
        ((isRandomGot, bs), n) \<Rightarrow>
          (if isRandomGot < 0 then (WEBSOCKET_GEN_CLIENT_KEY_ERROR, []) else (SUCCESS, wp_Base64 P bs), n))"

text \<open>C strings end at the first zero; \<open>strncmp\<close> compares at most so many characters and stops behind that zero.\<close>

definition c_str :: "bytes \<Rightarrow> bytes" where
  "c_str s = takeWhile (\<lambda>c. c \<noteq> 0) s"

definition strncmp_equal :: "bytes \<Rightarrow> bytes \<Rightarrow> nat \<Rightarrow> bool" where
  "strncmp_equal s t k \<longleftrightarrow> take k (c_str s @ [0]) = take k (c_str t @ [0])"

definition WSSGUID :: bytes where
  "WSSGUID = str ''258EAFA5-E914-47DA-95CA-C5AB0DC85B11''"

definition client_accept_key :: "'n ws_platform \<Rightarrow> bytes \<Rightarrow> bytes" where
  "client_accept_key P client_key = wp_Base64 P (wp_SHA1 P (c_str (take 63 (c_str client_key @ WSSGUID))))"

definition VerifyWssAcceptKey :: "'n ws_platform \<Rightarrow> bytes \<Rightarrow> bytes \<Rightarrow> bool" where
  "VerifyWssAcceptKey P accept_key client_key \<longleftrightarrow>
     strncmp_equal accept_key (client_accept_key P client_key) (length (client_accept_key P client_key))"

definition WSS_SUCCESS_HANDSHAKE_RESP_HEADER :: bytes where
  "WSS_SUCCESS_HANDSHAKE_RESP_HEADER = str ''sec-websocket-accept''"

definition VerifyHandshakeResponse :: "'n ws_platform \<Rightarrow> bytes \<Rightarrow> bytes \<Rightarrow> ResponseCode res" where
  "VerifyHandshakeResponse P resp client_key =
     (case find_text WSS_SUCCESS_HANDSHAKE_RESP_HEADER resp of
        None \<Rightarrow> Inr WEBSOCKET_HANDSHAKE_VERIFY_ERROR
      | Some i \<Rightarrow>
          bind_res (str_substr resp (i + length WSS_SUCCESS_HANDSHAKE_RESP_HEADER + 2)) (\<lambda>rest.
            Inr (if \<not> VerifyWssAcceptKey P (take 28 rest) client_key then WEBSOCKET_HANDSHAKE_VERIFY_ERROR else SUCCESS)))"

definition SERVER_WSS_RESP_LEN :: nat where
  "SERVER_WSS_RESP_LEN = 182"

definition crlf :: bytes where
  "crlf = [13, 10]"

definition handshake_request :: "bytes \<Rightarrow> bytes \<Rightarrow> 'n WebSocketConnection \<Rightarrow> bytes" where
  "handshake_request query client_key w =
     (if ws_custom_authorizer_name w = [] then str ''GET /mqtt?'' @ query @ str '' '' @ str ''HTTP/1.1'' @ crlf
      else str ''GET /mqtt '' @ str ''HTTP/1.1'' @ crlf @
        str ''X-Amz-CustomAuthorizer-Name'' @ str '': '' @ ws_custom_authorizer_name w @ crlf @
        str ''X-Amz-CustomAuthorizer-Signature'' @ str '': '' @ ws_custom_authorizer_signature w @ crlf @
        ws_custom_authorizer_token_name w @ str '': '' @ ws_custom_authorizer_token w @ crlf) @
     str ''Host: '' @ ws_endpoint w @ crlf @ str ''Connection: '' @ str ''Upgrade'' @ crlf @
     str ''Upgrade: '' @ str ''WebSocket'' @ crlf @ str ''Sec-WebSocket-Version: '' @ str ''13'' @ crlf @
     str ''sec-websocket-key: '' @ c_str client_key @ crlf @
     str ''Sec-WebSocket-Protocol: '' @ str ''mqttv3.1.1'' @ crlf @ crlf"

definition WssHandshake :: "'n ws_platform \<Rightarrow> 'n WebSocketConnection \<Rightarrow> (ResponseCode \<times> 'n WebSocketConnection) res" where
  "WssHandshake P w =
     (case GenerateClientKey P (ws_tls w) of
        ((rc, client_key), n) \<Rightarrow>
          let w = w\<lparr>ws_tls := n\<rparr> in
          if rc \<noteq> SUCCESS then Inr (rc, w)
          else case (if ws_custom_authorizer_name w = [] then InitializeCanonicalQueryString P w else (SUCCESS, [])) of
            (rc, query) \<Rightarrow>
              if rc \<noteq> SUCCESS then Inr (rc, w)
              else case ws_WriteToNetworkBuffer P (handshake_request query client_key w) (ws_tls w) of
                (rc, n) \<Rightarrow>
                  let w = w\<lparr>ws_tls := n\<rparr> in
                  if rc \<noteq> SUCCESS then Inr (rc, w)
                  else case ws_ReadFromNetworkBuffer P (replicate SERVER_WSS_RESP_LEN 0) SERVER_WSS_RESP_LEN n of
                    (rc, r_buf, n) \<Rightarrow>
                      let w = w\<lparr>ws_tls := n\<rparr> in
                      if rc \<noteq> SUCCESS then Inr (rc, w)
                      else bind_res (VerifyHandshakeResponse P (take SERVER_WSS_RESP_LEN r_buf) client_key) (\<lambda>rc. Inr (rc, w)))"

text \<open>The size of the decode buffer is not reset here, only the buffer is emptied.\<close>

definition WebSocket_ConnectInternal :: "'n ws_platform \<Rightarrow> 'n WebSocketConnection \<Rightarrow> (ResponseCode \<times> 'n WebSocketConnection) res" where
  "WebSocket_ConnectInternal P w =
     (case wp_Initialize P (ws_tls w) of
        (rc, n) \<Rightarrow>
          let w = w\<lparr>ws_tls := n\<rparr> in
          if rc \<noteq> SUCCESS then Inr (rc, w)
          else case Connect_nc (wp_port P) n of
            (rc, n) \<Rightarrow>
              let w = w\<lparr>ws_tls := n\<rparr> in
              if rc \<noteq> SUCCESS then Inr (rc, w)
              else
                bind_res (WssHandshake P w) (\<lambda>(rc, w).
                  if rc \<noteq> SUCCESS then Inr (rc, w)
                  else Inr (rc, w\<lparr>ws_frame_Context := Some wslay_frame_context_init, ws_is_connected := True, ws_read_buf := []\<rparr>)))"

section \<open>The port\<close>

text \<open>A fault of an operation, and a loop that would go on, fail here and change nothing, as for the TLS port.\<close>

definition websocket_connection :: "nat \<Rightarrow> 'n ws_platform \<Rightarrow> 'n WebSocketConnection NetworkConnection" where
  "websocket_connection fuel P =
     \<lparr>nc_IsConnected = ws_is_connected,
      nc_ConnectInternal = (\<lambda>w. case WebSocket_ConnectInternal P w of Inl _ \<Rightarrow> (FAILURE, w) | Inr r \<Rightarrow> r),
      nc_DisconnectInternal = WebSocket_DisconnectInternal P,
      nc_WriteInternal = (\<lambda>buf k w. case WebSocket_WriteInternal P buf k w of Inl _ \<Rightarrow> (FAILURE, k, w) | Inr r \<Rightarrow> r),
      nc_ReadInternal = (\<lambda>buf off sz k w.
        case WebSocket_ReadInternal fuel P buf off sz k w of Inl _ \<Rightarrow> (FAILURE, buf, k, w) | Inr r \<Rightarrow> r)\<rparr>"

end
