(* ===== verification/WsStream.thy ===== *)
theory WsStream
  imports WebSocket
begin

text \<open>
  The WebSocket port as a stream of bytes: what its \<open>ReadInternal\<close> and \<open>WriteInternal\<close> do with the frames, when the TLS
  connection below delivers the bytes and takes them, and what they do when it does not.
\<close>

section \<open>The payload of a sequence of frames\<close>

text \<open>
  The bytes the frames at the front of the input carry: the payload of the data frames that are complete and keep the
  rules; a PONG carries nothing, and a CLOSE, a PING or a frame against the rules ends the sequence.
\<close>

lemma parse_frame_shorter: "parse_frame bs = Some (f, rest) \<Longrightarrow> length rest < length bs"
  by (auto simp: parse_frame_def Let_def split: if_splits)

function payload_stream :: "bytes \<Rightarrow> bytes" where
  "payload_stream bs =
     (case parse_frame bs of
        None \<Rightarrow> []
      | Some (f, rest) \<Rightarrow>
          if ViolateServerToClientWsProtocol f \<or> iocb_opcode f = WSLAY_CONNECTION_CLOSE \<or> iocb_opcode f = WSLAY_PING then []
          else if iocb_opcode f = WSLAY_PONG then payload_stream rest
          else iocb_data f @ payload_stream rest)"
  by pat_completeness auto

termination payload_stream
  by (relation "measure length") (auto dest: parse_frame_shorter)

declare payload_stream.simps [simp del]

text \<open>What is still to come when the frame layer may be in the middle of a frame.\<close>

definition missing :: "wslay_frame_context \<Rightarrow> nat" where
  "missing ctx = wfc_ipayloadlen ctx - wfc_ipayloadoff ctx"

definition pending :: "wslay_frame_context \<Rightarrow> bytes \<Rightarrow> bytes" where
  "pending ctx bs =
     (if wfc_istate ctx = RECV_PAYLOAD then
        (if missing ctx \<le> length bs then take (missing ctx) bs @ payload_stream (drop (missing ctx) bs) else [])
      else payload_stream bs)"

definition context_ok :: "wslay_frame_context \<Rightarrow> bool" where
  "context_ok ctx \<longleftrightarrow>
     at_header ctx \<or>
     in_payload ctx (missing ctx) \<and> 0 < missing ctx \<and> iom_rsv (wfc_iom ctx) = 0 \<and>
     iom_opcode (wfc_iom ctx) \<notin> {WSLAY_CONNECTION_CLOSE, WSLAY_PING, WSLAY_PONG}"

lemma in_payload_missing: "in_payload ctx rem \<Longrightarrow> missing ctx = rem"
  by (auto simp: in_payload_def missing_def)

section \<open>Receiving\<close>

lemma ws_feeds:
  assumes "delivers_all (wp_port P) ready input"
  shows "feeds (ws_callbacks P) ready input"
proof -
  have "\<exists>n'. recv_callback (ws_callbacks P) k n = ((int k, take k (input n)), n') \<and> input n' = drop k (input n) \<and> ready n'"
    if n: "ready n" and k: "0 < k" "k \<le> IBUF_SIZE" "k \<le> length (input n)" for k n
  proof -
    have "replicate k (0 :: byte) \<noteq> []" "k \<le> read_limit" using k by (simp_all add: IBUF_SIZE_def read_limit_def)
    then obtain n' where "nc_ReadInternal (wp_port P) (replicate k 0) 0 k 0 n = (SUCCESS, take k (input n), k, n')"
      "input n' = drop k (input n)" "ready n'"
      using assms [unfolded delivers_all_def, THEN conjunct2, rule_format, of n "replicate k 0"] n k by auto
    moreover have "nc_IsConnected (wp_port P) n" using assms n by (simp add: delivers_all_def)
    ultimately show ?thesis
      by (simp add: ws_callbacks_def WssFrameRecvCallback_def ws_ReadFromNetworkBuffer_def Read_nc_def vec_resize_def)
  qed
  then show ?thesis unfolding feeds_def by blast
qed

text \<open>A piece of a payload, and what is to come behind it.\<close>

lemma recv_payload_stream:
  assumes laws: "feeds cb ready input" "ready n" and ctx: "in_payload ctx rem" "rem \<le> length (input n)"
    and iom: "iom_rsv (wfc_iom ctx) = 0" "iom_opcode (wfc_iom ctx) \<notin> {WSLAY_CONNECTION_CLOSE, WSLAY_PING}"
      "iom_opcode (wfc_iom ctx) = WSLAY_PONG \<Longrightarrow> rem \<le> IBUF_SIZE"
  shows "\<exists>r ctx' f n'. recv_payload cb ctx iocb n = (r, ctx', f, n') \<and> 0 \<le> r \<and> \<not> ViolateServerToClientWsProtocol f \<and>
    iocb_opcode f = iom_opcode (wfc_iom ctx) \<and> length (iocb_data f) \<le> IBUF_SIZE \<and> ready n' \<and> context_ok ctx' \<and>
    length (input n') + min rem IBUF_SIZE = length (input n) \<and>
    (iocb_opcode f = WSLAY_PONG \<longrightarrow> pending ctx' (input n') = payload_stream (drop rem (input n))) \<and>
    iocb_data f @ pending ctx' (input n') = take rem (input n) @ payload_stream (drop rem (input n))"
proof -
  let ?k = "min rem IBUF_SIZE"
  obtain ctx' n' where r: "recv_payload cb ctx iocb n = (int ?k, ctx',
      \<lparr>iocb_fin = iom_fin (wfc_iom ctx), iocb_rsv = iom_rsv (wfc_iom ctx), iocb_opcode = iom_opcode (wfc_iom ctx),
       iocb_payload_length = wfc_ipayloadlen ctx, iocb_mask = 0, iocb_data = take ?k (input n)\<rparr>, n')"
    "input n' = drop ?k (input n)" "ready n'" "wfc_iom ctx' = wfc_iom ctx"
    "if rem \<le> IBUF_SIZE then at_header ctx' else in_payload ctx' (rem - ?k)"
    using recv_payload_feeds [OF laws ctx, of iocb] .
  have "context_ok ctx' \<and> take ?k (input n) @ pending ctx' (input n') = take rem (input n) @ payload_stream (drop rem (input n)) \<and>
    (iom_opcode (wfc_iom ctx) = WSLAY_PONG \<longrightarrow> pending ctx' (input n') = payload_stream (drop rem (input n)))"
  proof (cases "rem \<le> IBUF_SIZE")
    case True
    then have "at_header ctx'" "?k = rem" using r(5) by simp_all
    then show ?thesis by (simp add: context_ok_def pending_def at_header_def r(2))
  next
    case False
    then have in': "in_payload ctx' (rem - IBUF_SIZE)" "?k = IBUF_SIZE" using r(5) by simp_all
    have miss: "missing ctx' = rem - IBUF_SIZE" using in'(1) by (rule in_payload_missing)
    have "take rem (input n) = take IBUF_SIZE (input n) @ take (rem - IBUF_SIZE) (drop IBUF_SIZE (input n))"
      using False by (metis le_add_diff_inverse nat_le_linear take_add)
    with False in' iom r(4) ctx(2) show ?thesis
      by (auto simp: context_ok_def pending_def miss r(2)) (auto simp: in_payload_def)
  qed
  with r iom ctx(2) show ?thesis by (auto simp: ViolateServerToClientWsProtocol_def)
qed

text \<open>One call of the frame layer, when there is payload to come.\<close>

lemma recv_step:
  assumes laws: "feeds cb ready input" "ready n" and ctx: "context_ok ctx" and more: "pending ctx (input n) \<noteq> []"
  shows "\<exists>r ctx' f n'. wslay_frame_recv cb ctx iocb n = (r, ctx', f, n') \<and> 0 \<le> r \<and> \<not> ViolateServerToClientWsProtocol f \<and>
    iocb_opcode f \<notin> {WSLAY_CONNECTION_CLOSE, WSLAY_PING} \<and> length (iocb_data f) \<le> IBUF_SIZE \<and> ready n' \<and> context_ok ctx' \<and>
    length (input n') < length (input n) \<and>
    pending ctx (input n) = (if iocb_opcode f = WSLAY_PONG then [] else iocb_data f) @ pending ctx' (input n')"
proof (cases "at_header ctx")
  case True
  then have st: "wfc_istate ctx = RECV_HEADER1" by (simp add: at_header_def)
  with more have ne: "payload_stream (input n) \<noteq> []" by (simp add: pending_def)
  then obtain f rest where f: "parse_frame (input n) = Some (f, rest)" "\<not> ViolateServerToClientWsProtocol f"
    "iocb_opcode f \<notin> {WSLAY_CONNECTION_CLOSE, WSLAY_PING}"
    by (subst (asm) payload_stream.simps) (auto split: option.splits if_splits)
  have stream: "pending ctx (input n) = (if iocb_opcode f = WSLAY_PONG then [] else iocb_data f) @ payload_stream rest"
    using st f by (simp add: pending_def payload_stream.simps [of "input n"])
  have "iocb_mask f = 0" "iocb_rsv f = 0" using f(2) by (simp_all add: ViolateServerToClientWsProtocol_def)
  obtain ctx1 n1 where h: "wslay_frame_recv cb ctx iocb n = recv_payload cb ctx1 iocb n1" "in_payload ctx1 (length (iocb_data f))"
    "wfc_iom ctx1 = \<lparr>iom_fin = iocb_fin f, iom_opcode = iocb_opcode f, iom_rsv = iocb_rsv f\<rparr>"
    "input n1 = iocb_data f @ rest" "ready n1"
    using recv_frame_header [OF laws True f(1) \<open>iocb_mask f = 0\<close>, of iocb] by metis
  note pf = parse_frame_unmasked [OF f(1) \<open>iocb_mask f = 0\<close>]
  have pong: "iocb_opcode f = WSLAY_PONG \<Longrightarrow> length (iocb_data f) \<le> IBUF_SIZE"
    using pf(9) by (simp add: frame_rules_def WSLAY_PONG_def wslay_is_ctrl_frame_def IBUF_SIZE_def)
  have "length (input n) = length (take (2 + ext_length (input n ! 1 AND 0x7f)) (input n)) + length (input n1)"
    using pf(4) h(4) by (metis length_append)
  then have longer: "length (input n1) < length (input n)" using pf(5) by simp
  have "length (iocb_data f) \<le> length (input n1)" using h(4) by simp
  from recv_payload_stream [OF laws(1) h(5,2) this, of iocb] f(3) pong \<open>iocb_rsv f = 0\<close> h(3)
  obtain r ctx' g n' where g: "recv_payload cb ctx1 iocb n1 = (r, ctx', g, n')" "0 \<le> r" "\<not> ViolateServerToClientWsProtocol g"
    "iocb_opcode g = iocb_opcode f" "length (iocb_data g) \<le> IBUF_SIZE" "ready n'" "context_ok ctx'"
    "length (input n') + min (length (iocb_data f)) IBUF_SIZE = length (input n1)"
    "iocb_opcode g = WSLAY_PONG \<Longrightarrow> pending ctx' (input n') = payload_stream rest"
    "iocb_data g @ pending ctx' (input n') = iocb_data f @ payload_stream rest"
    by (auto simp: h(4))
  have "length (input n') < length (input n)" using g(8) longer by simp
  then show ?thesis using h(1) g f(3) stream by (intro exI conjI) auto
next
  case False
  then have c: "in_payload ctx (missing ctx)" "0 < missing ctx" "iom_rsv (wfc_iom ctx) = 0"
    "iom_opcode (wfc_iom ctx) \<notin> {WSLAY_CONNECTION_CLOSE, WSLAY_PING, WSLAY_PONG}"
    using ctx by (simp_all add: context_ok_def)
  have st: "wfc_istate ctx = RECV_PAYLOAD" using c(1) by (simp add: in_payload_def)
  then have room: "missing ctx \<le> length (input n)" using more by (simp add: pending_def split: if_splits)
  have recv: "wslay_frame_recv cb ctx iocb n = recv_payload cb ctx iocb n"
    by (simp add: wslay_frame_recv_def recv_stage_skip st)
  from recv_payload_stream [OF laws c(1) room c(3), of iocb] c(4)
  obtain r ctx' g n' where g: "recv_payload cb ctx iocb n = (r, ctx', g, n')" "0 \<le> r" "\<not> ViolateServerToClientWsProtocol g"
    "iocb_opcode g = iom_opcode (wfc_iom ctx)" "length (iocb_data g) \<le> IBUF_SIZE" "ready n'" "context_ok ctx'"
    "length (input n') + min (missing ctx) IBUF_SIZE = length (input n)"
    "iocb_data g @ pending ctx' (input n') = take (missing ctx) (input n) @ payload_stream (drop (missing ctx) (input n))"
    by auto
  have "0 < min (missing ctx) IBUF_SIZE" using c(2) by (simp add: IBUF_SIZE_def)
  then have "length (input n') < length (input n)" using g(8) by linarith
  moreover have "pending ctx (input n) = iocb_data g @ pending ctx' (input n')"
    using g(9) st room by (simp add: pending_def)
  ultimately show ?thesis using recv g c(4) by (intro exI conjI) auto
qed

text \<open>
  The state of a connected WebSocket whose TLS connection is \<open>ready\<close>, and the bytes it still has to give. The decode
  buffer never holds more than one read and one piece of a frame.
\<close>

definition ws_ready :: "nat \<Rightarrow> ('n \<Rightarrow> bool) \<Rightarrow> ('n \<Rightarrow> bytes) \<Rightarrow> 'n WebSocketConnection \<Rightarrow> bool" where
  "ws_ready fuel ready input w \<longleftrightarrow>
     ws_is_connected w \<and> ready (ws_tls w) \<and> length (input (ws_tls w)) < fuel \<and>
     ws_curr_read_buf_size w = length (ws_read_buf w) \<and> length (ws_read_buf w) \<le> read_limit + IBUF_SIZE \<and>
     (case ws_frame_Context w of None \<Rightarrow> False | Some ctx \<Rightarrow> context_ok ctx)"

definition ws_input :: "('n \<Rightarrow> bytes) \<Rightarrow> 'n WebSocketConnection \<Rightarrow> bytes" where
  "ws_input input w =
     ws_read_buf w @ (case ws_frame_Context w of None \<Rightarrow> [] | Some ctx \<Rightarrow> pending ctx (input (ws_tls w)))"

lemma ws_read_loop_stream:
  assumes laws: "feeds (ws_callbacks P) ready input"
    and "ws_ready fuel ready input w" "sz \<le> read_limit" "sz \<le> length (ws_input input w)"
  shows "\<exists>w'. ws_read_loop fuel P buf 0 sz k0 w = Inr (SUCCESS, take sz (ws_input input w), sz, w') \<and>
    ws_input input w' = drop sz (ws_input input w) \<and> ws_ready fuel ready input w'"
  using assms(2-)
proof (induction fuel arbitrary: w)
  case (Suc fuel)
  obtain ctx where ctx: "ws_frame_Context w = Some ctx" "context_ok ctx"
    using Suc.prems(1) by (auto simp: ws_ready_def split: option.splits)
  note st = Suc.prems(1) [unfolded ws_ready_def]
  show ?case
  proof (cases "sz \<le> ws_curr_read_buf_size w")
    case True
    with st ctx show ?thesis by (auto simp: ws_input_def ws_ready_def)
  next
    case False
    then have few: "length (ws_read_buf w) < sz" using st by simp
    have stream: "ws_input input w = ws_read_buf w @ pending ctx (input (ws_tls w))" by (simp add: ws_input_def ctx(1))
    then have "pending ctx (input (ws_tls w)) \<noteq> []" using few Suc.prems(3) by auto
    then obtain r ctx' f n' where f: "wslay_frame_recv (ws_callbacks P) ctx (ws_frame_read w) (ws_tls w) = (r, ctx', f, n')" "0 \<le> r"
      "\<not> ViolateServerToClientWsProtocol f" "iocb_opcode f \<notin> {WSLAY_CONNECTION_CLOSE, WSLAY_PING}"
      "length (iocb_data f) \<le> IBUF_SIZE" "ready n'" "context_ok ctx'" "length (input n') < length (input (ws_tls w))"
      "pending ctx (input (ws_tls w)) = (if iocb_opcode f = WSLAY_PONG then [] else iocb_data f) @ pending ctx' (input n')"
      using recv_step [OF laws _ ctx(2), of "ws_tls w" "ws_frame_read w"] st by blast
    let ?d = "if iocb_opcode f = WSLAY_PONG then [] else iocb_data f"
    let ?w = "w\<lparr>ws_frame_Context := Some ctx', ws_frame_read := f, ws_tls := n'\<rparr>"
    let ?next = "if iocb_opcode f = WSLAY_PONG then ?w else AppendBytesToBuffer (iocb_data f) ?w"
    have add: "size_add (ws_curr_read_buf_size w) (length (iocb_data f)) = length (ws_read_buf w) + length (iocb_data f)"
      using few Suc.prems(2) f(5) st by (subst size_add_small) (auto simp: read_limit_def IBUF_SIZE_def)
    have loop: "ws_read_loop (Suc fuel) P buf 0 sz k0 w = ws_read_loop fuel P buf 0 sz k0 ?next"
      using False ctx(1) f(1-4) by (simp add: Let_def)
    have "ws_input input ?next = ws_input input w"
      unfolding stream f(9) by (simp add: ws_input_def AppendBytesToBuffer_def)
    moreover have "ws_ready fuel ready input ?next"
      using st f(5-8) few Suc.prems(2) add by (simp add: ws_ready_def AppendBytesToBuffer_def)
    ultimately show ?thesis
      using Suc.IH [of ?next] Suc.prems(2,3) loop by (fastforce simp: ws_ready_def)
  qed
qed (simp add: ws_ready_def)

text \<open>So the WebSocket port gives the reader the payload of the frames, as the TLS port gives the decrypted bytes.\<close>

lemma ws_delivers_all:
  assumes "delivers_all (wp_port P) ready input"
  shows "delivers_all (websocket_connection fuel P) (ws_ready fuel ready input) (ws_input input)"
proof -
  have "\<exists>w'. nc_ReadInternal (websocket_connection fuel P) buf 0 (length buf) 0 w =
      (SUCCESS, take (length buf) (ws_input input w), length buf, w') \<and>
      ws_input input w' = drop (length buf) (ws_input input w) \<and> ws_ready fuel ready input w'"
    if "ws_ready fuel ready input w" "length buf \<le> read_limit" "length buf \<le> length (ws_input input w)" for buf w
    using ws_read_loop_stream [OF ws_feeds [OF assms] that, of buf 0]
    by (auto simp: websocket_connection_def WebSocket_ReadInternal_def)
  then show ?thesis unfolding delivers_all_def by (auto simp: websocket_connection_def ws_ready_def)
qed

text \<open>C8: a read of a connected WebSocket at offset zero gives exactly the next bytes of the payload of the frames the
  server sent, however the messages are cut into frames, whatever length encoding they have, and with PONG frames
  between them, as long as the TLS connection delivers the frames; and the state stays one of which this holds.\<close>

theorem ws_read_exact:
  assumes "delivers_all (wp_port P) ready input" "ws_ready fuel ready input w" "sz \<le> read_limit" "sz \<le> length (ws_input input w)"
  shows "\<exists>w'. WebSocket_ReadInternal fuel P buf 0 sz k0 w = Inr (SUCCESS, take sz (ws_input input w), sz, w') \<and>
    ws_input input w' = drop sz (ws_input input w) \<and> ws_ready fuel ready input w'"
  unfolding WebSocket_ReadInternal_def by (rule ws_read_loop_stream [OF ws_feeds [OF assms(1)] assms(2-4)])

text \<open>The payload of the frames of a server: the data frames count, and the PONGs do not.\<close>

definition server_frame :: "wslay_frame_iocb \<Rightarrow> bool" where
  "server_frame f \<longleftrightarrow>
     plain_frame f \<and> iocb_mask f = 0 \<and> frame_header f \<noteq> None \<and> iocb_opcode f \<noteq> WSLAY_CONNECTION_CLOSE \<and> iocb_opcode f \<noteq> WSLAY_PING"

definition carried :: "wslay_frame_iocb \<Rightarrow> bytes" where
  "carried f = (if iocb_opcode f = WSLAY_PONG then [] else iocb_data f)"

lemma payload_stream_frame:
  assumes "server_frame f"
  shows "payload_stream (frame_bytes key f @ bs) = carried f @ payload_stream bs"
proof -
  obtain hdr where f: "plain_frame f" "frame_header f = Some hdr" "iocb_mask f = 0" "iocb_rsv f = 0"
    "iocb_opcode f \<noteq> WSLAY_CONNECTION_CLOSE" "iocb_opcode f \<noteq> WSLAY_PING"
    using assms by (auto simp: server_frame_def plain_frame_def)
  have "parse_frame (frame_bytes key f @ bs) = Some (f, bs)"
    using f by (intro parse_frame_bytes [OF f(1,2)]) simp
  with f show ?thesis
    by (simp add: payload_stream.simps [of "frame_bytes key f @ bs"] ViolateServerToClientWsProtocol_def carried_def)
qed

lemma payload_stream_frames:
  assumes "\<forall>f \<in> set fs. server_frame f"
  shows "payload_stream (concat (map (frame_bytes []) fs)) = concat (map carried fs)"
  using assms
proof (induction fs)
  case Nil
  then show ?case by (simp add: payload_stream.simps [of "[]"] parse_frame_def)
next
  case (Cons f fs)
  then show ?case using payload_stream_frame [of f "[]"] by simp
qed

text \<open>the stream the reader gets is what the server sent: for any sequence of unmasked frames without reserved bits,
  none of them a CLOSE or a PING, it is the payloads of the data frames one after the other.\<close>

theorem payload_of_frames:
  assumes "\<forall>f \<in> set fs. server_frame f"
  shows "payload_stream (concat (map (frame_bytes []) fs)) = concat (map carried fs)"
  using assms by (rule payload_stream_frames)

section \<open>Sending\<close>

text \<open>A port that takes whole buffers while it is \<open>ok\<close>; \<open>out\<close> is what it has taken. Random bytes change neither.\<close>

definition takes_all :: "'n ws_platform \<Rightarrow> ('n \<Rightarrow> bool) \<Rightarrow> ('n \<Rightarrow> bytes) \<Rightarrow> bool" where
  "takes_all P ok out \<longleftrightarrow>
     (\<forall>n. ok n \<longrightarrow> nc_IsConnected (wp_port P) n) \<and>
     (\<forall>buf n. ok n \<and> buf \<noteq> [] \<and> length buf \<le> IBUF_SIZE \<longrightarrow>
        (\<exists>n'. nc_WriteInternal (wp_port P) buf 0 n = (SUCCESS, length buf, n') \<and> ok n' \<and> out n' = out n @ buf)) \<and>
     (\<forall>n r n'. ok n \<longrightarrow> wp_random P n = (r, n') \<longrightarrow> ok n' \<and> out n' = out n)"

lemma random_bytes:
  assumes "takes_all P ok out" "ok n"
  shows "\<exists>bs n'. GetRandomBytesOfLength P k n = ((0, bs), n') \<and> length bs = k \<and> ok n' \<and> out n' = out n"
  using assms(2)
proof (induction k arbitrary: n)
  case (Suc k)
  obtain r n1 where r: "wp_random P n = (r, n1)" by fastforce
  then have "ok n1" "out n1 = out n" using assms(1) Suc.prems unfolding takes_all_def by blast+
  with Suc.IH [of n1] r show ?case by auto
qed simp

lemma ws_accepts_all:
  assumes "takes_all P ok out"
  shows "accepts_all (ws_callbacks P) ok out"
proof -
  have "\<exists>n'. send_callback (ws_callbacks P) data flags n = (int (length data), n') \<and> ok n' \<and> out n' = out n @ data"
    if data: "ok n" "data \<noteq> []" "length data \<le> IBUF_SIZE" for data flags n
  proof -
    obtain n' where "nc_WriteInternal (wp_port P) data 0 n = (SUCCESS, length data, n')" "ok n'" "out n' = out n @ data"
      using assms [unfolded takes_all_def, THEN conjunct2, THEN conjunct1, rule_format, of n data] data by blast
    moreover have "nc_IsConnected (wp_port P) n" using assms data(1) by (simp add: takes_all_def)
    ultimately show ?thesis
      using data(2) by (simp add: ws_callbacks_def WssFrameSendCallback_def ws_WriteToNetworkBuffer_def Write_nc_def)
  qed
  moreover have "\<exists>key n'. genmask_callback (ws_callbacks P) k n = ((0, key), n') \<and> length key = k \<and> ok n' \<and> out n' = out n"
    if "ok n" for k n
    using random_bytes [OF assms that, of k] by (auto simp: ws_callbacks_def WssFrameGenMaskCallback_def)
  ultimately show ?thesis unfolding accepts_all_def by blast
qed

definition binary_frame :: "bytes \<Rightarrow> wslay_frame_iocb" where
  "binary_frame buf =
     \<lparr>iocb_fin = 1, iocb_rsv = 0, iocb_opcode = WSLAY_BINARY_FRAME, iocb_payload_length = length buf, iocb_mask = 1,
      iocb_data = buf\<rparr>"

lemma encode_binary:
  "EncodeWsFrameAsFinNoRsvNoExt (Some f) WSLAY_BINARY_FRAME 1 buf = Inr (binary_frame buf)"
  by (cases f) (simp add: EncodeWsFrameAsFinNoRsvNoExt_def binary_frame_def)

lemma plain_binary: "plain_frame (binary_frame buf)" "iocb_mask (binary_frame buf) = 1" "iocb_data (binary_frame buf) = buf"
  by (simp_all add: plain_frame_def binary_frame_def wslay_is_ctrl_frame_def WSLAY_BINARY_FRAME_def)

lemma binary_header: "length buf < 2 ^ 63 \<Longrightarrow> \<exists>hdr. frame_header (binary_frame buf) = Some hdr"
  by (auto simp: frame_header_def binary_frame_def Let_def wslay_is_ctrl_frame_def WSLAY_BINARY_FRAME_def)

text \<open>C9: over a TLS connection that takes what it is given, a write between frames sends one frame that RFC 6455 reads
  back as a final, masked binary frame with exactly the buffer as its payload and nothing behind it, reports the whole
  buffer, and leaves the frame layer between frames again.\<close>

theorem write_sends_frame:
  assumes "takes_all P ok out" "ok (ws_tls w)" "ws_frame_Context w = Some ctx" "wfc_ostate ctx = PREP_HEADER"
    and "length buf < 2 ^ 63"
  shows "\<exists>sent w' ctx'. WebSocket_WriteInternal P buf k w = Inr (SUCCESS, length buf, w') \<and>
    out (ws_tls w') = out (ws_tls w) @ sent \<and> parse_frame sent = Some (binary_frame buf, []) \<and>
    ok (ws_tls w') \<and> ws_frame_Context w' = Some ctx' \<and> wfc_ostate ctx' = PREP_HEADER"
proof -
  obtain hdr where hdr: "frame_header (binary_frame buf) = Some hdr" using binary_header [OF assms(5)] by blast
  obtain key ctx' n' where s: "wslay_frame_send (ws_callbacks P) (binary_frame buf) ctx (ws_tls w) = (int (length buf), ctx', n')"
    "length key = 4" "out n' = out (ws_tls w) @ frame_bytes key (binary_frame buf)" "ok n'" "wfc_ostate ctx' = PREP_HEADER"
    using wslay_frame_send_all [OF ws_accepts_all [OF assms(1)] assms(2,4) plain_binary(1,2) hdr] by (auto simp: plain_binary(3))
  have "int (length buf) mod 2 ^ 64 = int (length buf)" using assms(5) by simp
  then have w: "WebSocket_WriteInternal P buf k w = Inr (SUCCESS, length buf,
      w\<lparr>ws_frame_write := binary_frame buf, ws_frame_Context := Some ctx', ws_tls := n'\<rparr>)"
    by (simp add: WebSocket_WriteInternal_def encode_binary assms(3) s(1) Let_def)
  have "parse_frame (frame_bytes key (binary_frame buf) @ []) = Some (binary_frame buf, [])"
    using s(2) by (intro parse_frame_bytes [OF plain_binary(1) hdr])
  then show ?thesis using w s(3-5) by (intro exI [of _ "frame_bytes key (binary_frame buf)"]) auto
qed

text \<open>As a port it never reports more than it was given, which is what the actions rely on.\<close>

lemma ws_honest: "honest_writer (websocket_connection fuel P)"
proof -
  have "k \<le> length buf" if w: "nc_WriteInternal (websocket_connection fuel P) buf 0 n = (rc, k, n')" for buf n rc k n'
  proof (cases "ws_frame_Context n")
    case None
    with w show ?thesis by (simp add: websocket_connection_def WebSocket_WriteInternal_def encode_binary)
  next
    case (Some ctx)
    obtain r ctx' m where "wslay_frame_send (ws_callbacks P) (binary_frame buf) ctx (ws_tls n) = (r, ctx', m)"
      by (metis prod_cases3)
    with w Some show ?thesis
      by (auto simp: websocket_connection_def WebSocket_WriteInternal_def encode_binary Let_def split: if_splits)
  qed
  then show ?thesis unfolding honest_writer_def by blast
qed

section \<open>When the TLS connection does not take or give bytes\<close>

text \<open>
  A write that fails in the header: the frame layer reports it as a negative number, which is a large one to the
  comparison with the length of the buffer.
\<close>

definition write_fails :: "'n ws_platform \<Rightarrow> bool" where
  "write_fails P \<longleftrightarrow> (\<forall>buf n rc k n'. Write_nc (wp_port P) buf 0 n = (rc, k, n') \<longrightarrow> rc \<noteq> SUCCESS)"

lemma GetRandomBytes_ok: "\<exists>bs n'. GetRandomBytesOfLength P k n = ((0, bs), n') \<and> length bs = k"
proof (induction k arbitrary: n)
  case (Suc k)
  obtain r n1 where r: "wp_random P n = (r, n1)" by fastforce
  with Suc.IH [of n1] show ?case by auto
qed simp

lemma failed_send:
  assumes "write_fails P" "WssFrameSendCallback P data flags n = (r, n')"
  shows "r = - 1"
proof (cases "data = []")
  case False
  obtain rc k n1 where w: "Write_nc (wp_port P) data 0 n = (rc, k, n1)" by (metis prod_cases3)
  then have "rc \<noteq> SUCCESS" using assms(1) unfolding write_fails_def by blast
  with w False assms(2) show ?thesis by (simp add: WssFrameSendCallback_def ws_WriteToNetworkBuffer_def)
qed (use assms(2) in \<open>simp add: WssFrameSendCallback_def ws_WriteToNetworkBuffer_def\<close>)

text \<open>C21: when every write of the TLS connection fails, sending a packet over the WebSocket still reports success with
  all bytes written; the header of the frame that was not sent stays in the frame layer, to be sent by a later write.\<close>

theorem failed_send_reported_success:
  assumes "write_fails P" "ws_frame_Context w = Some ctx" "wfc_ostate ctx = PREP_HEADER" "length buf < 2 ^ 63"
  shows "\<exists>w' ctx' hdr key. WebSocket_WriteInternal P buf k w = Inr (SUCCESS, length buf, w') \<and>
    ws_frame_Context w' = Some ctx' \<and> wfc_ostate ctx' = SEND_HEADER \<and> frame_header (binary_frame buf) = Some hdr \<and>
    wfc_oheader ctx' = hdr @ key \<and> wfc_opayloadlen ctx' = length buf \<and> wfc_opayloadoff ctx' = 0"
proof -
  let ?f = "binary_frame buf"
  obtain hdr where hdr: "frame_header ?f = Some hdr" using binary_header [OF assms(4)] by blast
  obtain key n1 where g: "genmask_callback (ws_callbacks P) 4 (ws_tls w) = ((0, key), n1)" "length key = 4"
    using GetRandomBytes_ok [of P 4 "ws_tls w"] by (auto simp: ws_callbacks_def WssFrameGenMaskCallback_def)
  define ctx1 where "ctx1 = ctx\<lparr>wfc_omaskkey := key, wfc_omask := 1, wfc_ostate := SEND_HEADER, wfc_oheader := hdr @ key,
    wfc_opayloadlen := length buf, wfc_opayloadoff := 0\<rparr>"
  have prep: "prepare_header (ws_callbacks P) ?f ctx (ws_tls w) = (None, ctx1, n1)"
    by (simp add: prepare_header_def hdr g(1) ctx1_def) (simp add: binary_frame_def)
  let ?fl = "if 0 < length buf then WSLAY_MSG_MORE else 0"
  obtain r n2 where s: "WssFrameSendCallback P (hdr @ key) ?fl n1 = (r, n2)" by fastforce
  then have "r = - 1" by (rule failed_send [OF assms(1)])
  then have "send_header (ws_callbacks P) ?f ctx1 n1 = (Some WSLAY_ERR_WANT_WRITE, ctx1, n2)"
    using s by (cases "buf = []") (simp_all add: send_header_def ctx1_def plain_binary(3) ws_callbacks_def Let_def)
  then have send: "wslay_frame_send (ws_callbacks P) ?f ctx (ws_tls w) = (WSLAY_ERR_WANT_WRITE, ctx1, n2)"
    using prep assms(3) by (simp add: wslay_frame_send_def) (simp add: ctx1_def binary_frame_def)
  have "\<not> nat (WSLAY_ERR_WANT_WRITE mod 2 ^ 64) < length buf" using assms(4) by simp
  then have "WebSocket_WriteInternal P buf k w = Inr (SUCCESS, length buf,
      w\<lparr>ws_frame_write := ?f, ws_frame_Context := Some ctx1, ws_tls := n2\<rparr>)"
    by (simp add: WebSocket_WriteInternal_def encode_binary assms(2) send Let_def)
  with hdr show ?thesis by (auto simp: ctx1_def)
qed

text \<open>C36: a PING of the server, which RFC 6455 lets it send at any time, makes the client write through a null pointer.\<close>

theorem ping_crashes:
  assumes "delivers_all (wp_port P) ready input" "ready (ws_tls w)" "ws_curr_read_buf_size w < sz"
    and "ws_frame_Context w = Some ctx" "at_header ctx"
    and "parse_frame (input (ws_tls w)) = Some (f, rest)" "iocb_opcode f = WSLAY_PING" "\<not> ViolateServerToClientWsProtocol f"
  shows "WebSocket_ReadInternal (Suc fuel) P buf off sz k w = Inl NullPointer"
proof -
  have m: "iocb_mask f = 0" "iocb_rsv f = 0" using assms(8) by (simp_all add: ViolateServerToClientWsProtocol_def)
  note feeds = ws_feeds [OF assms(1)]
  obtain ctx1 n1 where h: "wslay_frame_recv (ws_callbacks P) ctx (ws_frame_read w) (ws_tls w) =
      recv_payload (ws_callbacks P) ctx1 (ws_frame_read w) n1" "in_payload ctx1 (length (iocb_data f))"
    "wfc_iom ctx1 = \<lparr>iom_fin = iocb_fin f, iom_opcode = iocb_opcode f, iom_rsv = iocb_rsv f\<rparr>"
    "input n1 = iocb_data f @ rest" "ready n1"
    using recv_frame_header [OF feeds assms(2,5,6) m(1), of "ws_frame_read w"] by metis
  have "length (iocb_data f) \<le> length (input n1)" using h(4) by simp
  from recv_payload_feeds [OF feeds h(5,2) this, of "ws_frame_read w"]
  obtain ctx2 n2 g where "recv_payload (ws_callbacks P) ctx1 (ws_frame_read w) n1 =
      (int (min (length (iocb_data f)) IBUF_SIZE), ctx2, g, n2)"
    "iocb_opcode g = iom_opcode (wfc_iom ctx1)" "iocb_mask g = 0" "iocb_rsv g = iom_rsv (wfc_iom ctx1)"
    by (metis wslay_frame_iocb.select_convs(2,3,5))
  then have "recv_payload (ws_callbacks P) ctx1 (ws_frame_read w) n1 =
      (int (min (length (iocb_data f)) IBUF_SIZE), ctx2, g, n2)"
    "iocb_opcode g = WSLAY_PING" "iocb_mask g = 0" "iocb_rsv g = 0"
    using h(3) assms(7) m(2) by simp_all
  with h(1) assms(3,4) show ?thesis
    by (simp add: WebSocket_ReadInternal_def Let_def ViolateServerToClientWsProtocol_def SendPongFromClient_def
        EncodeWsFrameAsFinNoRsvNoExt_def WSLAY_PING_def WSLAY_CONNECTION_CLOSE_def)
qed

text \<open>A TLS connection on which nothing has arrived.\<close>

definition idle :: "'n ws_platform \<Rightarrow> 'n \<Rightarrow> bool" where
  "idle P n \<longleftrightarrow>
     (\<forall>m. 0 < m \<longrightarrow> m \<le> IBUF_SIZE \<longrightarrow>
        (\<exists>buf k n'. Read_nc (wp_port P) (vec_resize m []) 0 m 0 n = (NETWORK_SSL_NOTHING_TO_READ, buf, k, n')))"

lemma idle_read:
  assumes "ws_frame_Context w = Some ctx" "context_ok ctx" "ws_curr_read_buf_size w < sz" "idle P (ws_tls w)"
  shows "\<exists>w'. WebSocket_ReadInternal (Suc fuel) P buf off sz k w = Inr (WEBSOCKET_FRAME_RECEIVE_ERROR, buf, k, w') \<and>
    ws_read_buf w' = [] \<and> ws_curr_read_buf_size w' = 0 \<and> ws_is_connected w' = ws_is_connected w"
proof -
  have recv: "\<exists>n'. wslay_recv (ws_callbacks P) c (ws_tls w) = (WSLAY_ERR_WANT_READ, c, n')"
    if c: "wfc_ibuf c = []" "0 < wfc_ireqread c" for c
  proof -
    let ?m = "min (wfc_ireqread c) IBUF_SIZE"
    have "0 < ?m" "?m \<le> IBUF_SIZE" using c(2) by (simp_all add: IBUF_SIZE_def)
    then obtain b k n' where "Read_nc (wp_port P) (vec_resize ?m []) 0 ?m 0 (ws_tls w) = (NETWORK_SSL_NOTHING_TO_READ, b, k, n')"
      using assms(4) unfolding idle_def by blast
    with c(1) show ?thesis
      by (simp add: wslay_recv_def ws_callbacks_def WssFrameRecvCallback_def ws_ReadFromNetworkBuffer_def)
  qed
  have "\<exists>c n'. wslay_frame_recv (ws_callbacks P) ctx (ws_frame_read w) (ws_tls w) = (WSLAY_ERR_WANT_READ, c, ws_frame_read w, n')"
  proof (cases "at_header ctx")
    case True
    then obtain n' where "wslay_recv (ws_callbacks P) ctx (ws_tls w) = (WSLAY_ERR_WANT_READ, ctx, n')"
      using recv [of ctx] by (auto simp: at_header_def)
    with True show ?thesis by (simp add: wslay_frame_recv_def recv_stage_def fill_ibuf_def at_header_def)
  next
    case False
    then have c: "in_payload ctx (missing ctx)" "0 < missing ctx" using assms(2) by (simp_all add: context_ok_def)
    have "size_sub (wfc_ipayloadlen ctx) (wfc_ipayloadoff ctx) = missing ctx"
      using c(1) unfolding missing_def by (subst size_sub_small) (auto simp: in_payload_def)
    moreover obtain n' where "wslay_recv (ws_callbacks P) (ctx\<lparr>wfc_ireqread := missing ctx\<rparr>) (ws_tls w) =
        (WSLAY_ERR_WANT_READ, ctx\<lparr>wfc_ireqread := missing ctx\<rparr>, n')"
      using recv [of "ctx\<lparr>wfc_ireqread := missing ctx\<rparr>"] c by (auto simp: in_payload_def)
    ultimately show ?thesis
      using c by (simp add: wslay_frame_recv_def recv_stage_def in_payload_def recv_payload_def Let_def)
  qed
  then show ?thesis using assms(1,3) by (auto simp: WebSocket_ReadInternal_def ClearBuffer_def Let_def)
qed

text \<open>a read for which nothing has arrived yet, which the TLS port reports as nothing to read, is an error of the
  WebSocket port, and it throws away the bytes of the packet that had arrived before.\<close>

theorem idle_read_is_error:
  assumes "ws_frame_Context w = Some ctx" "context_ok ctx" "ws_curr_read_buf_size w < sz" "idle P (ws_tls w)"
  shows "\<exists>w'. WebSocket_ReadInternal (Suc fuel) P buf off sz k w = Inr (WEBSOCKET_FRAME_RECEIVE_ERROR, buf, k, w') \<and>
    ws_read_buf w' = [] \<and> ws_curr_read_buf_size w' = 0 \<and> ws_is_connected w' = ws_is_connected w"
  using assms by (rule idle_read)

end
