(* ===== verification/WsHandshake.thy ===== *)
theory WsHandshake
  imports WsStream
begin

text \<open>
  The opening handshake of the WebSocket port: what a successful \<open>ConnectInternal\<close> has checked, what a response can
  do to the client, and the encoding of the session token; then the witnesses of the WebSocket theories, on a scripted
  connection.
\<close>

section \<open>The accept key\<close>

text \<open>The encodings OpenSSL makes of a SHA-1 digest: 28 characters, none of them zero.\<close>

definition base64_of_sha1 :: "'n ws_platform \<Rightarrow> bool" where
  "base64_of_sha1 P \<longleftrightarrow> (\<forall>bs. length (wp_Base64 P (wp_SHA1 P bs)) = 28 \<and> 0 \<notin> set (wp_Base64 P (wp_SHA1 P bs)))"

lemma strncmp_equal_eq:
  assumes "strncmp_equal a t (length t)" "0 \<notin> set t" "length a \<le> length t"
  shows "a = t"
proof -
  have "c_str t = t" using assms(2) by (auto simp: c_str_def takeWhile_eq_all_conv)
  then have eq: "take (length t) (c_str a @ [0]) = t" using assms(1) by (simp add: strncmp_equal_def)
  have short: "length (c_str a) \<le> length a" by (simp add: c_str_def length_takeWhile_le)
  have "length t \<le> length (c_str a)"
  proof (rule ccontr)
    assume "\<not> length t \<le> length (c_str a)"
    then have "0 \<in> set (take (length t) (c_str a @ [0]))" by (cases "length t - length (c_str a)") auto
    with eq assms(2) show False by simp
  qed
  then have "length (c_str a) = length a" "c_str a = t" using short assms(3) eq by simp_all
  then have "c_str a = a" by (simp add: c_str_def) (metis append_eq_conv_conj takeWhile_dropWhile_id take_all order_refl)
  with \<open>c_str a = t\<close> show ?thesis by simp
qed

lemma VerifyHandshakeResponse_at:
  "VerifyHandshakeResponse P resp key =
     (case find_text WSS_SUCCESS_HANDSHAKE_RESP_HEADER resp of
        None \<Rightarrow> Inr WEBSOCKET_HANDSHAKE_VERIFY_ERROR
      | Some i \<Rightarrow>
          if length resp < i + 22 then Inl OutOfRange
          else Inr (if VerifyWssAcceptKey P (take 28 (drop (i + 22) resp)) key then SUCCESS else WEBSOCKET_HANDSHAKE_VERIFY_ERROR))"
proof -
  have "length WSS_SUCCESS_HANDSHAKE_RESP_HEADER = 20" by (simp add: WSS_SUCCESS_HANDSHAKE_RESP_HEADER_def)
  then show ?thesis
    unfolding VerifyHandshakeResponse_def by (auto simp: str_substr_def add.assoc add.commute [of 22] split: option.split)
qed

lemma VerifyHandshakeResponse_SUCCESS:
  assumes "VerifyHandshakeResponse P resp key = Inr SUCCESS" "base64_of_sha1 P"
  shows "\<exists>i. find_text WSS_SUCCESS_HANDSHAKE_RESP_HEADER resp = Some i \<and> take 28 (drop (i + 22) resp) = client_accept_key P key"
proof -
  obtain i where i: "find_text WSS_SUCCESS_HANDSHAKE_RESP_HEADER resp = Some i"
    "VerifyWssAcceptKey P (take 28 (drop (i + 22) resp)) key"
    using assms(1) by (auto simp: VerifyHandshakeResponse_at split: option.splits if_splits)
  moreover have "length (client_accept_key P key) = 28" "0 \<notin> set (client_accept_key P key)"
    using assms(2) by (simp_all add: base64_of_sha1_def client_accept_key_def)
  moreover have "take 28 (drop (i + 22) resp) = client_accept_key P key"
    using i(2) calculation by (intro strncmp_equal_eq) (simp_all add: VerifyWssAcceptKey_def)
  ultimately show ?thesis by blast
qed

lemma connect_steps:
  assumes "WebSocket_ConnectInternal P w = Inr (SUCCESS, w')"
  obtains n1 n2 w1 where "wp_Initialize P (ws_tls w) = (SUCCESS, n1)" "Connect_nc (wp_port P) n1 = (SUCCESS, n2)"
    "WssHandshake P (w\<lparr>ws_tls := n2\<rparr>) = Inr (SUCCESS, w1)"
    "w' = w1\<lparr>ws_frame_Context := Some wslay_frame_context_init, ws_is_connected := True, ws_read_buf := []\<rparr>"
proof -
  obtain rc1 n1 where n1: "wp_Initialize P (ws_tls w) = (rc1, n1)" by fastforce
  obtain rc2 n2 where n2: "Connect_nc (wp_port P) n1 = (rc2, n2)" by fastforce
  have eq: "(if rc1 \<noteq> SUCCESS then Inr (rc1, w\<lparr>ws_tls := n1\<rparr>) else if rc2 \<noteq> SUCCESS then Inr (rc2, w\<lparr>ws_tls := n1, ws_tls := n2\<rparr>)
      else bind_res (WssHandshake P (w\<lparr>ws_tls := n1, ws_tls := n2\<rparr>)) (\<lambda>(rc, w). if rc \<noteq> SUCCESS then Inr (rc, w)
        else Inr (rc, w\<lparr>ws_frame_Context := Some wslay_frame_context_init, ws_is_connected := True, ws_read_buf := []\<rparr>))) =
      Inr (SUCCESS, w')"
    using assms unfolding WebSocket_ConnectInternal_def n1 n2 Let_def prod.case .
  have ok: "rc1 = SUCCESS"
    by (rule ccontr) (use eq in simp)
  have ok2: "rc2 = SUCCESS"
    by (rule ccontr) (use eq ok in simp)
  define r where "r = WssHandshake P (w\<lparr>ws_tls := n2\<rparr>)"
  have eq2: "bind_res r (\<lambda>(rc, w). if rc \<noteq> SUCCESS then Inr (rc, w)
      else Inr (rc, w\<lparr>ws_frame_Context := Some wslay_frame_context_init, ws_is_connected := True, ws_read_buf := []\<rparr>)) =
      Inr (SUCCESS, w')"
    using eq by (simp add: ok ok2 r_def)
  obtain rc3 w1 where r: "r = Inr (rc3, w1)" using eq2 by (cases r) auto
  have "rc3 = SUCCESS" by (rule ccontr) (use eq2 r in simp)
  with r eq2 have hs: "WssHandshake P (w\<lparr>ws_tls := n2\<rparr>) = Inr (SUCCESS, w1)"
    "w' = w1\<lparr>ws_frame_Context := Some wslay_frame_context_init, ws_is_connected := True, ws_read_buf := []\<rparr>"
    by (simp_all add: r_def)
  show thesis using that [OF n1 [unfolded ok] n2 [unfolded ok2] hs] .
qed


text \<open>a response ends in an exception that nothing catches exactly when the accept header is so near the end of the 182
  bytes that the key would start behind them.\<close>

theorem response_throws:
  "VerifyHandshakeResponse P resp key = Inl e \<longleftrightarrow>
     e = OutOfRange \<and> (\<exists>i. find_text WSS_SUCCESS_HANDSHAKE_RESP_HEADER resp = Some i \<and> length resp < i + 22)"
  by (auto simp: VerifyHandshakeResponse_at split: option.split)

section \<open>The session token\<close>

text \<open>What a server makes of a percent-encoded string.\<close>

definition hex_value :: "byte \<Rightarrow> byte" where
  "hex_value c = (if c \<le> 57 then c - 48 else c - 55)"

fun url_decode :: "bytes \<Rightarrow> bytes" where
  "url_decode [] = []"
| "url_decode [c] = [c]"
| "url_decode [c, d] = [c, d]"
| "url_decode (c # d # e # s) = (if c = 37 then (hex_value d * 16 + hex_value e) # url_decode s else c # url_decode (d # e # s))"

lemma url_decode_plain: "c \<noteq> 37 \<Longrightarrow> url_decode (c # s) = c # url_decode s"
  by (cases "(c # s)" rule: url_decode.cases) auto

lemma hex_value_digit:
  assumes "d < 16"
  shows "hex_value (hex_digit 65 d) = of_nat d"
proof -
  have "d \<in> {0,1,2,3,4,5,6,7,8,9,10,11,12,13,14,15}" using assms by (auto simp: numeral_eq_Suc less_Suc_eq)
  then show ?thesis by (auto simp: hex_value_def hex_digit_def)
qed

lemma hex_setw2_value:
  assumes "16 \<le> unat c"
  shows "\<exists>x y. hex_setw2 c = [x, y] \<and> hex_value x * 16 + hex_value y = c"
proof -
  have "unat c < 256" by (rule unat_8bit)
  then have "unat c div 16 < 16" "unat c mod 16 < 16" by simp_all
  then have "hex_value (hex_digit 65 (unat c div 16)) * 16 + hex_value (hex_digit 65 (unat c mod 16)) =
      of_nat (unat c div 16 * 16 + unat c mod 16)"
    by (simp only: hex_value_digit of_nat_add of_nat_mult) simp
  also have "\<dots> = c" by simp
  finally show ?thesis using assms by (simp add: hex_setw2_def)
qed

text \<open>the session token is read back from the query of the request, whatever characters it has from the blank on; a
  control character below 16 is encoded with a blank in place of its first digit, and is not.\<close>

theorem session_token_reads_back:
  assumes "\<forall>c \<in> set token. 16 \<le> unat c"
  shows "url_decode (UrlEncode NOT_ENCODED_CHARS token) = token"
  using assms
proof (induction token)
  case Nil
  then show ?case by (simp add: UrlEncode_def)
next
  case (Cons c token)
  have step: "UrlEncode NOT_ENCODED_CHARS (c # token) =
      (if isalnum c \<or> c \<in> set NOT_ENCODED_CHARS then [c] else 37 # hex_setw2 c) @ UrlEncode NOT_ENCODED_CHARS token"
    by (simp add: UrlEncode_def)
  show ?case
  proof (cases "isalnum c \<or> c \<in> set NOT_ENCODED_CHARS")
    case True
    then have "c \<noteq> 37" by (auto simp: isalnum_def NOT_ENCODED_CHARS_def str_def)
    with True Cons step show ?thesis by (simp add: url_decode_plain)
  next
    case False
    obtain x y where "hex_setw2 c = [x, y]" "hex_value x * 16 + hex_value y = c"
      using hex_setw2_value [of c] Cons.prems by auto
    with False Cons step show ?thesis by simp
  qed
qed

section \<open>A scripted connection\<close>

text \<open>
  The scripted device below the WebSocket, with constant random bytes, a fixed time and simple functions in place of the
  hashes. It is ready while one piece of its input is all that is left.
\<close>

definition script_platform :: "script_device ws_platform" where
  "script_platform =
     \<lparr>wp_port = script_connection, wp_Initialize = (\<lambda>d. (SUCCESS, d)), wp_random = (\<lambda>d. (0x1234, d)),
      wp_utc_time = (\<lambda>d. Some (str ''20300101T000000Z'', str ''20300101'')),
      wp_HMAC = (\<lambda>k m. [5]), wp_SHA256 = (\<lambda>m. [6]), wp_SHA1 = (\<lambda>m. [7]), wp_Base64 = (\<lambda>m. replicate 28 65)\<rparr>"

definition script_ready :: "script_device \<Rightarrow> bool" where
  "script_ready d \<longleftrightarrow> sd_connected d \<and> length (sd_input d) \<le> sd_chunk d"

definition script_takes :: "script_device \<Rightarrow> bool" where
  "script_takes d \<longleftrightarrow> sd_connected d \<and> IBUF_SIZE \<le> sd_accept d"

lemma script_platform_delivers: "delivers_all (wp_port script_platform) script_ready sd_input"
  by (auto simp: delivers_all_def script_platform_def script_connection_def script_ready_def Let_def min_def)

lemma script_platform_takes: "takes_all script_platform script_takes (\<lambda>d. concat (sd_output d))"
  by (auto simp: takes_all_def script_platform_def script_connection_def script_takes_def Let_def min_def)

definition script_websocket :: "script_device \<Rightarrow> script_device WebSocketConnection" where
  "script_websocket d =
     (WebSocketConnection_new (\<lambda>_ _ _ _ _ _ _. d) (str ''host'') 443 [] (str ''eu'') (str ''id'') (str ''key'') [] 0 0 0 True)
     \<lparr>ws_is_connected := True, ws_frame_Context := Some wslay_frame_context_init\<rparr>"

lemma script_websocket_fields [simp]:
  "ws_tls (script_websocket d) = d" "ws_frame_Context (script_websocket d) = Some wslay_frame_context_init"
  "ws_read_buf (script_websocket d) = []" "ws_curr_read_buf_size (script_websocket d) = 0"
  "ws_is_connected (script_websocket d)"
  by (simp_all add: script_websocket_def WebSocketConnection_new_def)

lemma init_context [simp]:
  "at_header wslay_frame_context_init" "context_ok wslay_frame_context_init"
  "wfc_ostate wslay_frame_context_init = PREP_HEADER" "wfc_istate wslay_frame_context_init = RECV_HEADER1"
  by (simp_all add: wslay_frame_context_init_def at_header_def context_ok_def)

text \<open>A text frame, a PONG and a continuation, as a server sends them.\<close>

definition sample_frames :: "wslay_frame_iocb list" where
  "sample_frames =
     [\<lparr>iocb_fin = 0, iocb_rsv = 0, iocb_opcode = 1, iocb_payload_length = 2, iocb_mask = 0, iocb_data = [104, 105]\<rparr>,
      \<lparr>iocb_fin = 1, iocb_rsv = 0, iocb_opcode = WSLAY_PONG, iocb_payload_length = 1, iocb_mask = 0, iocb_data = [9]\<rparr>,
      \<lparr>iocb_fin = 1, iocb_rsv = 0, iocb_opcode = 0, iocb_payload_length = 1, iocb_mask = 0, iocb_data = [33]\<rparr>]"

lemma sample_frames_server: "\<forall>f \<in> set sample_frames. server_frame f"
  by (simp add: sample_frames_def server_frame_def plain_frame_def frame_header_def wslay_is_ctrl_frame_def WSLAY_PONG_def
      WSLAY_CONNECTION_CLOSE_def WSLAY_PING_def Let_def)

lemma sample_bytes: "concat (map (frame_bytes []) sample_frames) = [1, 2, 104, 105, 0x8a, 1, 9, 0x80, 1, 33]"
  by (simp add: sample_frames_def frame_bytes_def frame_header_def wslay_is_ctrl_frame_def WSLAY_PONG_def)

lemma sample_carried: "concat (map carried sample_frames) = [104, 105, 33]"
  by (simp add: sample_frames_def carried_def WSLAY_PONG_def)

lemma sample_stream: "payload_stream [1, 2, 104, 105, 0x8a, 1, 9, 0x80, 1, 33] = [104, 105, 33]"
  using payload_stream_frames [OF sample_frames_server] by (simp only: sample_bytes sample_carried)

definition sample_device :: script_device where
  "sample_device = script [1, 2, 104, 105, 0x8a, 1, 9, 0x80, 1, 33] 100 5000"

lemma sample_device_fields [simp]:
  "script_ready sample_device" "script_takes sample_device" "sd_input sample_device = [1, 2, 104, 105, 0x8a, 1, 9, 0x80, 1, 33]"
  by (simp_all add: sample_device_def script_def script_ready_def script_takes_def IBUF_SIZE_def)

lemma sample_ws_input: "ws_input sd_input (script_websocket sample_device) = [104, 105, 33]"
  by (simp add: ws_input_def pending_def sample_stream)

lemma sample_ws_ready: "ws_ready 11 script_ready sd_input (script_websocket sample_device)"
  by (simp add: ws_ready_def)

theorem ws_read_exact_witness:
  "\<exists>w'. WebSocket_ReadInternal 11 script_platform [0, 0, 0] 0 3 0 (script_websocket sample_device) = Inr (SUCCESS, [104, 105, 33], 3, w') \<and>
    ws_input sd_input w' = [] \<and> ws_ready 11 script_ready sd_input w'"
  using ws_read_exact [OF script_platform_delivers sample_ws_ready, of 3 "[0, 0, 0]" 0]
  by (simp add: sample_ws_input read_limit_def)

theorem payload_of_frames_witness:
  "payload_stream (concat (map (frame_bytes []) sample_frames)) = concat (map carried sample_frames)"
  by (rule payload_of_frames [OF sample_frames_server])

theorem write_sends_frame_witness:
  "\<exists>sent w' ctx'. WebSocket_WriteInternal script_platform [1, 2, 3] 0 (script_websocket sample_device) = Inr (SUCCESS, length [1, 2, 3 :: byte], w') \<and>
    concat (sd_output (ws_tls w')) = concat (sd_output (ws_tls (script_websocket sample_device))) @ sent \<and>
    parse_frame sent = Some (binary_frame [1, 2, 3], []) \<and> script_takes (ws_tls w') \<and> ws_frame_Context w' = Some ctx' \<and>
    wfc_ostate ctx' = PREP_HEADER"
  by (rule write_sends_frame [OF script_platform_takes, where ctx = wslay_frame_context_init]) simp_all

definition closed_platform :: "script_device ws_platform" where
  "closed_platform = script_platform\<lparr>wp_port := script_connection\<lparr>nc_IsConnected := (\<lambda>_. False)\<rparr>\<rparr>"

lemma closed_write_fails: "write_fails closed_platform"
  by (simp add: write_fails_def closed_platform_def script_platform_def Write_nc_def)

theorem failed_send_reported_success_witness:
  "\<exists>w' ctx' hdr key. WebSocket_WriteInternal closed_platform [1, 2, 3] 0 (script_websocket sample_device) = Inr (SUCCESS, length [1, 2, 3 :: byte], w') \<and>
    ws_frame_Context w' = Some ctx' \<and> wfc_ostate ctx' = SEND_HEADER \<and> frame_header (binary_frame [1, 2, 3]) = Some hdr \<and>
    wfc_oheader ctx' = hdr @ key \<and> wfc_opayloadlen ctx' = length [1, 2, 3 :: byte] \<and> wfc_opayloadoff ctx' = 0"
  by (rule failed_send_reported_success [OF closed_write_fails, where ctx = wslay_frame_context_init]) simp_all

theorem ping_crashes_witness:
  "WebSocket_ReadInternal (Suc 0) script_platform [0] 0 1 0 (script_websocket (script [0x89, 0] 100 0)) = Inl NullPointer"
  by (rule ping_crashes [OF script_platform_delivers, where rest = "[]" and ctx = wslay_frame_context_init and
        f = "\<lparr>iocb_fin = 1, iocb_rsv = 0, iocb_opcode = 9, iocb_payload_length = 0, iocb_mask = 0, iocb_data = []\<rparr>"])
    (simp_all add: script_def script_ready_def parse_frame_def frame_length_def ext_length_def frame_rules_def Let_def
      WSLAY_PING_def ViolateServerToClientWsProtocol_def)

theorem idle_read_is_error_witness:
  "\<exists>w'. WebSocket_ReadInternal (Suc 0) script_platform [0, 0] 0 2 0
      ((script_websocket (script [] 9 9))\<lparr>ws_read_buf := [0x30], ws_curr_read_buf_size := 1\<rparr>) =
      Inr (WEBSOCKET_FRAME_RECEIVE_ERROR, [0, 0], 0, w') \<and> ws_read_buf w' = [] \<and> ws_curr_read_buf_size w' = 0 \<and>
    ws_is_connected w' = ws_is_connected ((script_websocket (script [] 9 9))\<lparr>ws_read_buf := [0x30], ws_curr_read_buf_size := 1\<rparr>)"
  by (rule idle_read_is_error [where ctx = wslay_frame_context_init])
    (simp_all add: idle_def script_platform_def script_connection_def script_def Read_nc_def)

theorem session_token_reads_back_witness:
  "url_decode (UrlEncode NOT_ENCODED_CHARS (str ''a+b/='')) = str ''a+b/=''"
  by (rule session_token_reads_back) (simp add: str_def)

definition sample_response :: bytes where
  "sample_response = str ''sec-websocket-accept: '' @ replicate 160 65"

definition greeting_platform :: "script_device ws_platform" where
  "greeting_platform = script_platform\<lparr>wp_port := script_connection\<lparr>nc_WriteInternal := (\<lambda>buf k d. (SUCCESS, length buf, d))\<rparr>\<rparr>"

definition greeting_websocket :: "script_device WebSocketConnection" where
  "greeting_websocket = (script_websocket (script sample_response 200 0))\<lparr>ws_custom_authorizer_name := [97]\<rparr>"

lemma sample_response_accepted: "VerifyHandshakeResponse greeting_platform sample_response key = Inr SUCCESS"
proof -
  have "find_text WSS_SUCCESS_HANDSHAKE_RESP_HEADER sample_response = Some 0"
    by (simp add: WSS_SUCCESS_HANDSHAKE_RESP_HEADER_def sample_response_def str_def)
  moreover have "take 28 (drop 22 sample_response) = replicate 28 65" "length sample_response = 182"
    by (simp_all add: sample_response_def)
  moreover have "VerifyWssAcceptKey greeting_platform (replicate 28 65) key"
    by (simp add: VerifyWssAcceptKey_def client_accept_key_def greeting_platform_def script_platform_def strncmp_equal_def)
  ultimately show ?thesis by (simp add: VerifyHandshakeResponse_at)
qed


end
