(* ===== verification/Ports.thy ===== *)
theory Ports
  imports TlsStream MbedStream WsHandshake NetworkRead
begin

text \<open>
  The client above its ports: what the reader of the MQTT client does when the connection it was given is the TLS port,
  or the WebSocket port over it. The TLS library is the parameter; nothing between it and the callback of the
  application is.
\<close>

section \<open>The WebSocket over OpenSSL\<close>

text \<open>The platform of the SDK: \<open>rnd\<close> is \<open>std::random_device\<close>, \<open>utc\<close> the clock.\<close>

definition openssl_platform ::
  "nat \<Rightarrow> nat \<Rightarrow> 'w tls_library \<Rightarrow> ('w \<Rightarrow> u32 \<times> 'w) \<Rightarrow> ('w \<Rightarrow> (bytes \<times> bytes) option) \<Rightarrow> (bytes \<Rightarrow> bytes \<Rightarrow> bytes)
   \<Rightarrow> (bytes \<Rightarrow> bytes) \<Rightarrow> (bytes \<Rightarrow> bytes) \<Rightarrow> (bytes \<Rightarrow> bytes) \<Rightarrow> 'w OpenSSLConnection ws_platform" where
  "openssl_platform fuel wakeups lib rnd utc hmac sha256 sha1 base64 =
     \<lparr>wp_port = openssl_connection fuel wakeups lib, wp_Initialize = OpenSSL_Initialize lib,
      wp_random = lib_call rnd, wp_utc_time = (\<lambda>c. utc (oc_world c)), wp_HMAC = hmac, wp_SHA256 = sha256, wp_SHA1 = sha1,
      wp_Base64 = base64\<rparr>"

lemma openssl_platform_port [simp]: "wp_port (openssl_platform fuel wakeups lib rnd utc hmac sha256 sha1 base64) =
    openssl_connection fuel wakeups lib"
  "wp_Initialize (openssl_platform fuel wakeups lib rnd utc hmac sha256 sha1 base64) = OpenSSL_Initialize lib"
  by (simp_all add: openssl_platform_def)

lemma websocket_over_tls_delivers:
  assumes "read_laws lib input" "read_available lib input" "read_limit \<le> fuel"
  shows "delivers (websocket_connection wfuel (openssl_platform fuel wakeups lib rnd utc hmac sha256 sha1 base64))
    (ws_ready wfuel tls_ready (\<lambda>c. input (oc_world c))) (ws_input (\<lambda>c. input (oc_world c)))"
  using tls_delivers_all [OF assms, of wakeups] by (intro delivers_from_all ws_delivers_all) simp

lemma ws_input_frames:
  assumes "ws_frame_Context c = Some ctx" "at_header ctx" "ws_read_buf c = []" "\<forall>f \<in> set fs. server_frame f"
    and "input (ws_tls c) = concat (map (frame_bytes []) fs)"
  shows "ws_input input c = concat (map carried fs)"
  using assms payload_stream_frames [OF assms(4)] by (simp add: ws_input_def pending_def at_header_def)

text \<open>over the TLS port, decrypted bytes of a QoS 1 PUBLISH reach the application: however the TLS records cut them,
  one iteration of the reader calls the callback of the first filter that covers the topic, once, with its topic and
  payload, queues the PUBACK for it, and leaves the bytes behind the packet in the library.\<close>

theorem publish_over_tls:
  assumes "read_laws lib input" "read_available lib input" "read_limit \<le> tfuel"
    and "client_ok st" "tls_ready (ccs_net st)"
    and "sendable topic" "publish_size topic QOS1 payload \<le> MAX_MQTT_PACKET_REM_LEN_BYTES" "publish_size topic QOS1 payload \<le> fuel"
    and "PublishPacket_ToString (PublishPacket_new topic ret dup QOS1 payload) i = Inr bs"
    and "input (oc_world (ccs_net st)) = bs @ rest"
    and "0 \<notin> set (utf8_data topic)" "\<forall>(name, r) \<in> set (cs_subscription_map st). plain_filter name"
    and "find (\<lambda>(name, r). covers name (utf8_data topic)) (cs_subscription_map st) = Some (name, r)"
    and "sub_is_active (cs_subscriptions st ! r)" "sub_app_handler (cs_subscriptions st ! r) = Some h"
    and "length (ccs_outbound_action_queue st) < ccs_max_queue_size st"
  shows "\<exists>st' d. read_once runner wait fuel (\<lambda>_. True) (openssl_connection tfuel wakeups lib) w st = Inr (SUCCESS, w, st') \<and>
    input (oc_world (ccs_net st')) = rest \<and>
    ccs_events st' = ccs_events st @
      [Ev_Message h (utf8_data topic) payload (sub_app_handler_data (cs_subscriptions st ! r))] \<and>
    ccs_outbound_action_queue st' = ccs_outbound_action_queue st @ [(AT_PUBACK, d)] \<and>
    ad_payload d = PubackData (PubackPacket_new i)"
  by (rule publish_arrives [OF assms(4) delivers_from_all [OF tls_delivers_all [OF assms(1-3)]] assms(5-16)])

text \<open>the same over the mbedTLS port: it keeps the reader's contract under the same laws of reading, so a QoS 1 PUBLISH
  whose decrypted bytes have arrived reaches its callback, however the library cuts them.\<close>

theorem publish_over_mbedtls:
  assumes "mbed_read_laws lib input" "mbed_available lib input" "read_limit \<le> tfuel"
    and "client_ok st" "mbed_ready (ccs_net st)"
    and "sendable topic" "publish_size topic QOS1 payload \<le> MAX_MQTT_PACKET_REM_LEN_BYTES" "publish_size topic QOS1 payload \<le> fuel"
    and "PublishPacket_ToString (PublishPacket_new topic ret dup QOS1 payload) i = Inr bs"
    and "input (mc_world (ccs_net st)) = bs @ rest"
    and "0 \<notin> set (utf8_data topic)" "\<forall>(name, r) \<in> set (cs_subscription_map st). plain_filter name"
    and "find (\<lambda>(name, r). covers name (utf8_data topic)) (cs_subscription_map st) = Some (name, r)"
    and "sub_is_active (cs_subscriptions st ! r)" "sub_app_handler (cs_subscriptions st ! r) = Some h"
    and "length (ccs_outbound_action_queue st) < ccs_max_queue_size st"
  shows "\<exists>st' d. read_once runner wait fuel (\<lambda>_. True) (mbedtls_connection tfuel lib) w st = Inr (SUCCESS, w, st') \<and>
    input (mc_world (ccs_net st')) = rest \<and>
    ccs_events st' = ccs_events st @
      [Ev_Message h (utf8_data topic) payload (sub_app_handler_data (cs_subscriptions st ! r))] \<and>
    ccs_outbound_action_queue st' = ccs_outbound_action_queue st @ [(AT_PUBACK, d)] \<and>
    ad_payload d = PubackData (PubackPacket_new i)"
  by (rule publish_arrives [OF assms(4) delivers_from_all [OF mbed_delivers_all [OF assms(1-3)]] assms(5-16)])

text \<open>C2: the same over the WebSocket port: when the decrypted bytes are the frames of a server whose payload, one after
  the other, is a QoS 1 PUBLISH and what follows it, the PUBLISH reaches the callback and its PUBACK is queued,
  wherever the frames cut the packet and whatever PONG frames lie between them.\<close>

theorem publish_over_websocket:
  assumes "read_laws lib input" "read_available lib input" "read_limit \<le> tfuel"
    and "client_ok st" "ws_ready wfuel tls_ready (\<lambda>c. input (oc_world c)) (ccs_net st)"
    and "ws_frame_Context (ccs_net st) = Some ctx" "at_header ctx" "ws_read_buf (ccs_net st) = []"
    and "\<forall>f \<in> set fs. server_frame f" "input (oc_world (ws_tls (ccs_net st))) = concat (map (frame_bytes []) fs)"
    and "concat (map carried fs) = bs @ rest"
    and "sendable topic" "publish_size topic QOS1 payload \<le> MAX_MQTT_PACKET_REM_LEN_BYTES" "publish_size topic QOS1 payload \<le> fuel"
    and "PublishPacket_ToString (PublishPacket_new topic ret dup QOS1 payload) i = Inr bs"
    and "0 \<notin> set (utf8_data topic)" "\<forall>(name, r) \<in> set (cs_subscription_map st). plain_filter name"
    and "find (\<lambda>(name, r). covers name (utf8_data topic)) (cs_subscription_map st) = Some (name, r)"
    and "sub_is_active (cs_subscriptions st ! r)" "sub_app_handler (cs_subscriptions st ! r) = Some h"
    and "length (ccs_outbound_action_queue st) < ccs_max_queue_size st"
  shows "\<exists>st' d. read_once runner wait fuel (\<lambda>_. True)
      (websocket_connection wfuel (openssl_platform tfuel wakeups lib rnd utc hmac sha256 sha1 base64)) w st =
      Inr (SUCCESS, w, st') \<and>
    ws_input (\<lambda>c. input (oc_world c)) (ccs_net st') = rest \<and>
    ccs_events st' = ccs_events st @
      [Ev_Message h (utf8_data topic) payload (sub_app_handler_data (cs_subscriptions st ! r))] \<and>
    ccs_outbound_action_queue st' = ccs_outbound_action_queue st @ [(AT_PUBACK, d)] \<and>
    ad_payload d = PubackData (PubackPacket_new i)"
proof -
  have "ws_input (\<lambda>c. input (oc_world c)) (ccs_net st) = bs @ rest"
    using ws_input_frames [OF assms(6-9), of "\<lambda>c. input (oc_world c)"] assms(10,11) by simp
  then show ?thesis
    by (rule publish_arrives [OF assms(4) websocket_over_tls_delivers [OF assms(1-3)] assms(5,12-15) _ assms(16-21)])
qed

section \<open>When nothing arrives\<close>

text \<open>
  When the decrypted data is used up, \<open>SSL_read\<close> wants more of the socket, and the wait for it times out.
\<close>

definition quiet_when_empty :: "'w tls_library \<Rightarrow> ('w \<Rightarrow> bytes) \<Rightarrow> bool" where
  "quiet_when_empty lib input \<longleftrightarrow>
     (\<forall>n w r bs w'. input w = [] \<longrightarrow> lib_read lib n w = ((r, bs), w') \<longrightarrow> r \<le> 0 \<and> lib_get_error lib r w' = SSL_ERROR_WANT_READ) \<and>
     (\<forall>fd t w. input w = [] \<longrightarrow> fst (lib_select lib False fd t w) = 0)"

lemma ssl_read_loop_quiet:
  assumes laws: "read_laws lib input" "read_available lib input" "quiet_when_empty lib input"
    and "tls_ready c" "length (input (oc_world c)) < remaining" "tot + remaining = length buf"
    and "remaining < 2 ^ 31" "length buf < 2 ^ 64" "sz = length buf" "length (input (oc_world c)) < fuel"
  shows "\<exists>buf' tot' c'. ssl_read_loop fuel lib sz buf tot remaining c = Inr (NETWORK_SSL_NOTHING_TO_READ, buf', tot', c') \<and>
    tls_ready c' \<and> input (oc_world c') = []"
  using assms(4-)
proof (induction fuel arbitrary: buf tot remaining c)
  case (Suc fuel)
  obtain cur bs c1 where r: "lib_call (lib_read lib (to_int remaining)) c = ((cur, bs), c1)" by (metis prod.collapse)
  have int: "to_int remaining = int remaining" using Suc.prems(4) by (rule to_int_small)
  have w: "lib_read lib (int remaining) (oc_world c) = ((cur, bs), oc_world c1)" using r by (simp add: lib_call_world int)
  have "world_only c c1" using r by (simp add: lib_call_world)
  from world_only_fields [OF this] have ready: "tls_ready c1" using Suc.prems(1) by (simp add: tls_ready_def)
  have room: "\<not> length buf \<le> tot" "oc_ssl_handle c \<noteq> Null" using Suc.prems(1-3) by (simp_all add: tls_ready_def)
  show ?case
  proof (cases "input (oc_world c) = []")
    case True
    then have no: "cur \<le> 0" "lib_get_error lib cur (oc_world c1) = SSL_ERROR_WANT_READ"
      using laws(3) w unfolding quiet_when_empty_def by blast+
    have empty: "input (oc_world c1) = []" using read_laws_none [OF laws(1) r] no(1) True by simp
    obtain k c2 where s: "WaitForSelect lib SSL_ERROR_WANT_READ c1 = (k, c2)" by fastforce
    then have "fst (lib_select lib False (oc_server_tcp_socket_fd c1) (oc_tls_write_timeout c1) (oc_world c1)) = k"
      by (simp add: WaitForSelect_def lib_call_world)
    then have "k = 0" using laws(3) empty unfolding quiet_when_empty_def by metis
    moreover have "input (oc_world c2) = []" using read_laws_wait [OF laws(1) s] empty by simp
    moreover have "tls_ready c2"
      using world_only_fields [OF lib_run_world_only [OF WaitForSelect_run [OF s, of UNIV]]] ready by (simp add: tls_ready_def)
    ultimately show ?thesis using room r no s by simp
  next
    case False
    have cur: "0 < cur"
    proof -
      have "0 < remaining" using Suc.prems(2) by simp
      then have "0 < fst (fst (lib_read lib (int remaining) (oc_world c)))"
        using laws(2) False unfolding read_available_def by simp
      with w show ?thesis by simp
    qed
    note rl = read_laws_read [OF laws(1) r cur]
    let ?k = "nat cur" let ?buf = "take tot buf @ bs @ drop (tot + ?k) buf"
    have k: "0 < ?k" "?k \<le> remaining" "?k < remaining" "length bs = ?k"
      using cur rl(1-3) Suc.prems(2) by (simp_all add: int nat_le_iff)
    have st: "store_at buf tot bs = Inr ?buf" using store_at_in [of tot bs buf] k Suc.prems(3) by simp
    have sizes: "size_add tot ?k = tot + ?k" "size_sub remaining ?k = remaining - ?k"
      using k Suc.prems(3-5) by (simp_all add: size_add_small size_sub_small)
    have "oc_is_connected c1" "tot + ?k < sz" using ready k Suc.prems(3,6) by (simp_all add: tls_ready_def)
    then have loop: "ssl_read_loop (Suc fuel) lib sz buf tot remaining c =
        ssl_read_loop fuel lib sz ?buf (tot + ?k) (remaining - ?k) c1"
      using room r cur st sizes by simp
    have len: "length ?buf = length buf" using k Suc.prems(3) by simp
    show ?thesis
      unfolding loop by (rule Suc.IH [OF ready]) (use k Suc.prems rl(2,4) len in auto)
  qed
qed simp

lemma tls_read_quiet:
  assumes "read_laws lib input" "read_available lib input" "quiet_when_empty lib input" "read_limit < fuel"
    and "tls_ready c" "length (input (oc_world c)) < m" "m \<le> read_limit"
  shows "\<exists>buf' c'. Read_nc (openssl_connection fuel wakeups lib) (vec_resize m buf) 0 m k c = (NETWORK_SSL_NOTHING_TO_READ, buf', k, c') \<and>
    tls_ready c' \<and> input (oc_world c') = []"
proof -
  have small: "m < 2 ^ 31" "length (vec_resize m buf) < 2 ^ 64" using assms(7) by (simp_all add: read_limit_def)
  obtain buf' tot' c' where "ssl_read_loop fuel lib m (vec_resize m buf) 0 m c = Inr (NETWORK_SSL_NOTHING_TO_READ, buf', tot', c')"
    "tls_ready c'" "input (oc_world c') = []"
    using ssl_read_loop_quiet [OF assms(1-3,5,6), of 0 "vec_resize m buf" m fuel] small assms(4,6,7) by auto
  moreover have "oc_is_connected c" using assms(5) by (simp add: tls_ready_def)
  ultimately show ?thesis
    by (auto simp: Read_nc_def openssl_connection_def OpenSSL_ReadInternal_def or_failed_def)
qed

text \<open>C17: when the last bytes of a packet have not arrived when the wait times out, the reader reports that there was
  nothing to read and forgets the packet: its bytes are gone from the stream and from the client. The rest of the
  packet is then read as packets of its own, so the sender of a payload that contains the bytes of a packet can have them
  taken for one.\<close>

theorem cut_packet_desynchronises:
  assumes "read_laws lib input" "read_available lib input" "quiet_when_empty lib input" "read_limit < tfuel"
    and "tls_ready (ccs_net st)" "framed h (part @ late) bs" "late \<noteq> []"
    and "input (oc_world (ccs_net st)) @ late = bs" "1 \<le> fuel"
  shows "\<exists>c. read_once runner wait fuel (\<lambda>_. True) (openssl_connection tfuel wakeups lib) waiting st =
      Inr (NETWORK_SSL_NOTHING_TO_READ, waiting, st\<lparr>ccs_net := c\<rparr>) \<and> tls_ready c \<and> input (oc_world c) = [] \<and>
    (\<forall>w' h' body' rest. input w' = late @ rest \<longrightarrow> framed h' body' late \<longrightarrow> length body' \<le> fuel \<longrightarrow>
      (\<exists>c'. ReadPacketFromNetwork fuel (\<lambda>_. True) (Some (openssl_connection tfuel wakeups lib)) 0 (c\<lparr>oc_world := w'\<rparr>) =
          Inr (SUCCESS, fh_byte h', body', c') \<and> input (oc_world c') = rest))"
proof -
  let ?nc = "openssl_connection tfuel wakeups lib" and ?in = "\<lambda>c. input (oc_world c)" and ?body = "part @ late"
  have del: "delivers ?nc tls_ready ?in"
    using tls_delivers_all [OF assms(1,2)] assms(4) by (intro delivers_from_all) simp
  have "?in (ccs_net st) @ late = (fh_byte h # encode_remaining_length (length ?body) @ part) @ late"
    using framed_bytes [OF assms(6)] assms(8) by simp
  then have "?in (ccs_net st) = fh_byte h # encode_remaining_length (length ?body) @ part" by simp
  then obtain c2 where c2: "?in c2 = part" "tls_ready c2"
    "ReadPacketFromNetwork fuel (\<lambda>_. True) (Some ?nc) 0 (ccs_net st) =
      bind_res (ReadFromNetworkBuffer fuel (\<lambda>_. True) (Some ?nc) [] (length ?body) c2) (\<lambda>(rc, buf, n). Inr (rc, fh_byte h, buf, n))"
    using read_packet_header [OF del assms(5,6) _ assms(9), of part 0] assms(7) by auto
  have m: "length (?in c2) < length ?body" "length ?body \<le> read_limit"
    using c2(1) assms(6,7) by (simp_all add: framed_def MAX_MQTT_PACKET_REM_LEN_BYTES_def read_limit_def)
  obtain buf' c' where r: "Read_nc ?nc (vec_resize (length ?body) []) 0 (length ?body) 0 c2 = (NETWORK_SSL_NOTHING_TO_READ, buf', 0, c')"
    "tls_ready c'" "?in c' = []"
    using tls_read_quiet [OF assms(1-4) c2(2) m, of wakeups "[]" 0] by blast
  obtain f where f: "fuel = Suc f" using assms(9) by (cases fuel) auto
  have "length ?body < 2 ^ 64" using m(2) by (rule read_limit_size)
  then have "size_sub (length ?body) 0 = length ?body" by (intro size_sub_small [THEN trans]) auto
  then have "ReadFromNetworkBuffer fuel (\<lambda>_. True) (Some ?nc) [] (length ?body) c2 = Inr (NETWORK_SSL_NOTHING_TO_READ, buf', c')"
    using r(1) by (simp add: ReadFromNetworkBuffer_def f)
  then have once: "read_once runner wait fuel (\<lambda>_. True) ?nc waiting st = Inr (NETWORK_SSL_NOTHING_TO_READ, waiting, st\<lparr>ccs_net := c'\<rparr>)"
    using c2(3) by (simp add: read_once_def Let_def)
  have later: "\<exists>c''. ReadPacketFromNetwork fuel (\<lambda>_. True) (Some ?nc) 0 (c'\<lparr>oc_world := w'\<rparr>) = Inr (SUCCESS, fh_byte h', body', c'') \<and>
      ?in c'' = rest" if "input w' = late @ rest" "framed h' body' late" "length body' \<le> fuel" for w' h' body' rest
    using ReadPacketFromNetwork_framed [OF del, of "c'\<lparr>oc_world := w'\<rparr>" h' body' late rest fuel 0] that r(2) assms(9)
    by (auto simp: tls_ready_def)
  from once r(2,3) later show ?thesis by blast
qed

text \<open>C19: when nothing arrives on a WebSocket for as long as the wait for the socket lasts, the reader ends the
  connection: it sends a DISCONNECT and asks for a reconnect, where over TLS it would try again.\<close>

theorem idle_websocket_disconnects:
  assumes "read_laws lib input" "read_available lib input" "quiet_when_empty lib input" "read_limit < tfuel"
    and "ws_ready wfuel tls_ready (\<lambda>c. input (oc_world c)) (ccs_net st)" "ws_read_buf (ccs_net st) = []"
    and "input (oc_world (ws_tls (ccs_net st))) = []" "cs_is_connected st" "1 \<le> fuel"
  shows "\<exists>n. read_once runner wait fuel (\<lambda>_. True)
      (websocket_connection wfuel (openssl_platform tfuel wakeups lib rnd utc hmac sha256 sha1 base64)) False st =
      bind_res (client_request runner wait AT_DISCONNECT (Some disconnect_data) (st\<lparr>ccs_net := n\<rparr>))
        (\<lambda>(rc, d, st). Inr (rc, True, SetAutoReconnectRequired True st))"
proof -
  let ?P = "openssl_platform tfuel wakeups lib rnd utc hmac sha256 sha1 base64" and ?w = "ccs_net st"
  obtain ctx where w: "ws_is_connected ?w" "tls_ready (ws_tls ?w)" "ws_curr_read_buf_size ?w = 0" "0 < wfuel"
    "ws_frame_Context ?w = Some ctx" "context_ok ctx"
    using assms(5,6) by (auto simp: ws_ready_def split: option.splits)
  have "idle ?P (ws_tls ?w)"
    unfolding idle_def
  proof (intro allI impI)
    fix m assume "0 < m" "m \<le> IBUF_SIZE"
    then have "length (input (oc_world (ws_tls ?w))) < m" "m \<le> read_limit"
      using assms(7) by (simp_all add: IBUF_SIZE_def read_limit_def)
    from tls_read_quiet [OF assms(1-4) w(2) this, of wakeups "[]" 0]
    show "\<exists>buf k n'. Read_nc (wp_port ?P) (vec_resize m []) 0 m 0 (ws_tls ?w) = (NETWORK_SSL_NOTHING_TO_READ, buf, k, n')"
      by auto
  qed
  moreover obtain k where "wfuel = Suc k" using w(4) by (cases wfuel) auto
  moreover have "ws_curr_read_buf_size ?w < 1" using w(3) by simp
  ultimately obtain w' where r: "WebSocket_ReadInternal wfuel ?P (vec_resize 1 []) 0 1 0 ?w =
      Inr (WEBSOCKET_FRAME_RECEIVE_ERROR, vec_resize 1 [], 0, w')"
    using idle_read [OF w(5,6), of 1 ?P k "vec_resize 1 []" 0 0] by auto
  obtain f where f: "fuel = Suc f" using assms(9) by (cases fuel) auto
  have "ReadFromNetworkBuffer fuel (\<lambda>_. True) (Some (websocket_connection wfuel ?P)) [] 1 ?w =
      Inr (WEBSOCKET_FRAME_RECEIVE_ERROR, vec_resize 1 [], w')"
    using r w(1) by (simp add: ReadFromNetworkBuffer_def f Read_nc_def websocket_connection_def size_sub_small)
  then show ?thesis
    using assms(8) by (intro exI [of _ w']) (simp add: read_once_def ReadPacketFromNetwork_def Let_def)
qed

section \<open>Trusting the server again\<close>

text \<open>
  \<open>trusted\<close> says that the current SSL context has been given a certificate authority: a new context has none, only
  loading one changes that, and a certificate is verified with one only.
\<close>

definition trust_laws :: "'w tls_library \<Rightarrow> ('w \<Rightarrow> bool) \<Rightarrow> bool" where
  "trust_laws lib trusted \<longleftrightarrow>
     (\<forall>w b w'. lib_ctx_new lib w = (b, w') \<longrightarrow> \<not> trusted w') \<and>
     (\<forall>op w w'. lib_step lib op w w' \<longrightarrow> op \<noteq> OpLoadCA \<longrightarrow> \<not> trusted w \<longrightarrow> \<not> trusted w') \<and>
     (\<forall>w. lib_verify_ok lib w \<and> lib_peer_certificate lib w \<longrightarrow> trusted w)"

lemma trust_laws_step:
  "trust_laws lib trusted \<Longrightarrow> lib_step lib op w w' \<Longrightarrow> op \<noteq> OpLoadCA \<Longrightarrow> \<not> trusted w \<Longrightarrow> \<not> trusted w'"
  unfolding trust_laws_def by blast

lemma trust_laws_verified:
  "trust_laws lib trusted \<Longrightarrow> lib_verify_ok lib w \<Longrightarrow> lib_peer_certificate lib w \<Longrightarrow> trusted w"
  unfolding trust_laws_def by blast

lemma PerformSSLConnect_untrusted:
  assumes laws: "trust_laws lib trusted" and "PerformSSLConnect fuel lib c = Inr (rc, c')" "\<not> trusted (oc_world c)"
  shows "rc \<noteq> SUCCESS \<and> \<not> trusted (oc_world c')"
proof -
  have sock: "\<not> trusted (oc_world c1)"
    if s: "lib_call (lib_socket lib (oc_address_family c)) (lib_do (lib_set_verify_peer lib) c) = (fd, c1)" for fd c1
  proof -
    have "\<not> trusted (lib_set_verify_peer lib (oc_world c))"
      using trust_laws_step [OF laws step_verify_peer] assms(3) by simp
    moreover have "lib_socket lib (oc_address_family c) (lib_set_verify_peer lib (oc_world c)) = (fd, oc_world c1)"
      using s by (simp add: lib_call_world)
    ultimately show ?thesis using trust_laws_step [OF laws step_socket] by simp
  qed
  have run: "\<not> trusted (oc_world c2)" if "lib_run lib {OpOther} c1 c2" "\<not> trusted (oc_world c1)" for c1 c2
    using that(1) by (rule lib_run_keeps [where P = "\<lambda>w. \<not> trusted w"]) (use trust_laws_step [OF laws] that(2) in auto)
  from assms(2) show ?thesis
  proof (cases rule: PerformSSLConnect_cases)
    case (no_socket c1)
    with sock show ?thesis by simp
  next
    case (failed fd c1 c2)
    have "\<not> trusted (oc_world c2)" using run [OF failed(4)] sock [OF failed(1)] by simp
    then have "\<not> trusted (oc_world (close_socket lib c2))"
      using trust_laws_step [OF laws step_close] by (simp add: close_socket_def)
    with failed show ?thesis by simp
  next
    case (connected fd c1)
    have "\<not> trusted (oc_world c')" using run [OF connected(4)] sock [OF connected(1)] by simp
    with trust_laws_verified [OF laws connected(5,6)] show ?thesis by simp
  qed
qed

lemma ConnectInternal_untrusted:
  assumes "trust_laws lib trusted" "OpenSSL_ConnectInternal fuel lib c = Inr (rc, c')" "oc_certificates_read_flag c"
    "\<not> trusted (oc_world c)"
  shows "rc \<noteq> SUCCESS"
proof (rule OpenSSL_ConnectInternal_cases [OF assms(2), of "{OpOther}"])
  fix c1 rc2 c2 rc3 c3
  assume c1: "prepares lib {OpOther} c c1" "PerformSSLConnect fuel lib c1 = Inr (rc2, c2)"
    and second: "if rc2 \<noteq> SUCCESS \<and> oc_address_family c2 = AF_INET6
      then PerformSSLConnect fuel lib (c2\<lparr>oc_address_family := AF_INET\<rparr>) = Inr (rc3, c3) else rc3 = rc2 \<and> c3 = c2"
    and rc: "rc = rc3"
  have "\<not> trusted (oc_world c1)"
    using c1(1) by (rule prepares_keeps [where P = "\<lambda>w. \<not> trusted w"]) (use trust_laws_step [OF assms(1)] assms(4) in auto)
  from PerformSSLConnect_untrusted [OF assms(1) c1(2) this] second rc show "rc \<noteq> SUCCESS"
    using PerformSSLConnect_untrusted [OF assms(1), of fuel "c2\<lparr>oc_address_family := AF_INET\<rparr>" rc3 c3] by (auto split: if_splits)
qed (use assms(3) in simp_all)


section \<open>Witnesses\<close>

text \<open>A connected client with one subscription, above any port, and the scripted TLS library below.\<close>

definition ported_client :: "'n \<Rightarrow> 'n client" where
  "ported_client n = (ClientState_new 1000 n 0)
     \<lparr>cs_is_connected := True, cs_subscription_map := [([97, slash, plus_sign], 0)],
      cs_subscriptions := [SetActive True (sample_sub [97, slash, plus_sign])]\<rparr>"

lemmas ported_simps = ported_client_def sample_sub_def Subscription_new_def SetAckIndex_def SetActive_def
  utf8_of_def ClientState_new_def ClientCoreState.defs ClientState.defs ClientCoreState_new_def

lemma ported_client_ok: "client_ok (ported_client n)"
  by (simp add: ported_simps client_ok_def core_ok_def subs_ok_def map_wf_def sub_ok_def
      Utf8String_ok_def is_valid_ascii IsValidTopicName_def Let_def)

lemma ported_fields [simp]:
  "ccs_net (ported_client n) = n" "cs_is_connected (ported_client n)"
  "cs_subscription_map (ported_client n) = [([97, slash, plus_sign], 0)]"
  "sub_is_active (cs_subscriptions (ported_client n) ! 0)" "sub_app_handler (cs_subscriptions (ported_client n) ! 0) = Some 4"
  "ccs_outbound_action_queue (ported_client n) = []" "ccs_events (ported_client n) = []"
  "ccs_max_queue_size (ported_client n) = DEFAULT_MAX_QUEUE_SIZE" "sub_app_handler_data (cs_subscriptions (ported_client n) ! 0) = None"
  by (simp_all add: ported_simps)

lemma script_quiet: "quiet_when_empty script_library tw_input"
  by (auto simp: quiet_when_empty_def script_library_simps)

lemma script_trust_laws: "trust_laws script_library tw_trusted"
proof -
  have "\<not> tw_trusted w'" if "lib_step script_library op w w'" "op \<noteq> OpLoadCA" "\<not> tw_trusted w" for op w w'
    using that by cases (auto simp: script_library_def Let_def split: if_splits)
  then show ?thesis unfolding trust_laws_def by (auto simp: script_library_simps)
qed

lemma connected_port_ready [simp]: "tls_ready (connected_port w)" "tw_input (oc_world (connected_port w)) = tw_input w"
  by (simp_all add: tls_ready_def port_simps)

lemma sample_publish:
  "publish_size sample_topic QOS1 [1, 2] = 9" "sendable sample_topic" "utf8_data sample_topic = [97, slash, 98]"
  "PublishPacket_ToString (PublishPacket_new sample_topic False False QOS1 [1, 2]) 9 = Inr sample_publish_bytes"
proof -
  show size: "publish_size sample_topic QOS1 [1, 2] = 9" by (simp add: publish_size_def sample_topic_def utf8_of_def)
  show "sendable sample_topic" by (simp add: sample_topic_def sendable_utf8_of)
  show "utf8_data sample_topic = [97, slash, 98]" by (simp add: sample_topic_def utf8_of_def)
  have "publish_size sample_topic QOS1 [1, 2] \<le> MAX_MQTT_PACKET_REM_LEN_BYTES" by (simp add: size MAX_MQTT_PACKET_REM_LEN_BYTES_def)
  from publish_bytes [OF this]
  show "PublishPacket_ToString (PublishPacket_new sample_topic False False QOS1 [1, 2]) 9 = Inr sample_publish_bytes"
    by (simp add: sample_publish_bytes_def)
qed

lemma sample_covered:
  "find (\<lambda>(name, r). covers name (utf8_data sample_topic)) (cs_subscription_map (ported_client n)) = Some ([97, slash, plus_sign], 0)"
  by (simp add: sample_publish(3) covers_def has_wildcard_def)

lemma sample_plain: "\<forall>(name, r) \<in> set (cs_subscription_map (ported_client n)). plain_filter name"
  by (simp add: plain_filter_def regex_special_def)

theorem publish_over_tls_witness:
  "\<exists>st' d. read_once no_runner id 9 (\<lambda>_. True) (openssl_connection read_limit 0 script_library) True
      (ported_client (connected_port (sample_world (sample_publish_bytes @ [7]) 1))) = Inr (SUCCESS, True, st') \<and>
    tw_input (oc_world (ccs_net st')) = [7] \<and> ccs_events st' = [Ev_Message 4 [97, slash, 98] [1, 2] None] \<and>
    ccs_outbound_action_queue st' = [(AT_PUBACK, d)] \<and> ad_payload d = PubackData (PubackPacket_new 9)"
  using publish_over_tls [OF script_read_laws script_read_available _ ported_client_ok _ sample_publish(2) _ _ sample_publish(4) _ _
      sample_plain sample_covered, of read_limit "connected_port (sample_world (sample_publish_bytes @ [7]) 1)" 9 "[7]" 4 no_runner id 0 True]
  by (simp add: sample_publish MAX_MQTT_PACKET_REM_LEN_BYTES_def DEFAULT_MAX_QUEUE_SIZE_def)

lemma mbed_connected_ready [simp]: "mbed_ready (mbed_connected bs a v)" "mw_input (mc_world (mbed_connected bs a v)) = bs"
  by (simp_all add: mbed_ready_def mbed_connected_def mbed_sample_def MbedTLSConnection_new_def)

theorem publish_over_mbedtls_witness:
  "\<exists>st' d. read_once no_runner id 9 (\<lambda>_. True) (mbedtls_connection read_limit script_mbed) True
      (ported_client (mbed_connected (sample_publish_bytes @ [7]) 0 0)) = Inr (SUCCESS, True, st') \<and>
    mw_input (mc_world (ccs_net st')) = [7] \<and> ccs_events st' = [Ev_Message 4 [97, slash, 98] [1, 2] None] \<and>
    ccs_outbound_action_queue st' = [(AT_PUBACK, d)] \<and> ad_payload d = PubackData (PubackPacket_new 9)"
  using publish_over_mbedtls [OF script_mbed_read_laws script_mbed_available _ ported_client_ok _ sample_publish(2) _ _ sample_publish(4)
      _ _ sample_plain sample_covered, of read_limit "mbed_connected (sample_publish_bytes @ [7]) 0 0" 9 "[7]" 4 no_runner id True]
  by (simp add: sample_publish MAX_MQTT_PACKET_REM_LEN_BYTES_def DEFAULT_MAX_QUEUE_SIZE_def)

lemma sample_publish_value: "sample_publish_bytes = [0x32, 9, 0, 3, 97, 47, 98, 0, 9, 1, 2]"
proof -
  have "publish_size sample_topic QOS1 [1, 2] \<le> MAX_MQTT_PACKET_REM_LEN_BYTES"
    by (simp add: sample_publish(1) MAX_MQTT_PACKET_REM_LEN_BYTES_def)
  from publish_framed [OF sample_publish(2) this sample_publish(4), THEN conjunct1, THEN framed_bytes]
  have "sample_publish_bytes = fh_byte (header_of (PublishPacket_new sample_topic False False QOS1 [1, 2])) #
      encode_remaining_length (length (publish_body sample_topic QOS1 [1, 2] 9)) @ publish_body sample_topic QOS1 [1, 2] 9" .
  moreover have "publish_body sample_topic QOS1 [1, 2] 9 = [0, 3, 97, 47, 98, 0, 9, 1, 2]"
    by (simp add: publish_body_def AppendUtf8StringToBuffer_def AppendUInt16ToBuffer_def Let_def sample_topic_def utf8_of_def)
  moreover have "Length_utf8 sample_topic = 3" by (simp add: sample_topic_def utf8_of_def)
  ultimately show ?thesis
    by (simp add: encode_remaining_length_small PublishPacket_new_def packet_base_def Initialize_header_def Let_def
        MAX_MQTT_PACKET_REM_LEN_BYTES_def size_add_def)
qed

text \<open>The packet in two frames with a PONG between them, and one byte more in the second.\<close>

definition publish_frames :: "wslay_frame_iocb list" where
  "publish_frames =
     [\<lparr>iocb_fin = 0, iocb_rsv = 0, iocb_opcode = WSLAY_BINARY_FRAME, iocb_payload_length = 3, iocb_mask = 0, iocb_data = [0x32, 9, 0]\<rparr>,
      \<lparr>iocb_fin = 1, iocb_rsv = 0, iocb_opcode = WSLAY_PONG, iocb_payload_length = 1, iocb_mask = 0, iocb_data = [9]\<rparr>,
      \<lparr>iocb_fin = 1, iocb_rsv = 0, iocb_opcode = 0, iocb_payload_length = 9, iocb_mask = 0, iocb_data = [3, 97, 47, 98, 0, 9, 1, 2, 7]\<rparr>]"

lemma publish_frames_server: "\<forall>f \<in> set publish_frames. server_frame f"
  by (simp add: publish_frames_def server_frame_def plain_frame_def frame_header_def wslay_is_ctrl_frame_def WSLAY_PONG_def
      WSLAY_CONNECTION_CLOSE_def WSLAY_PING_def WSLAY_BINARY_FRAME_def Let_def)

lemma publish_frames_carried: "concat (map carried publish_frames) = sample_publish_bytes @ [7]"
  by (simp add: publish_frames_def carried_def WSLAY_PONG_def WSLAY_BINARY_FRAME_def sample_publish_value)

text \<open>A WebSocket connected over the scripted TLS library.\<close>

definition ported_websocket :: "tls_world OpenSSLConnection \<Rightarrow> tls_world OpenSSLConnection WebSocketConnection" where
  "ported_websocket c =
     (WebSocketConnection_new (\<lambda>_ _ _ _ _ _ _. c) (str ''host'') 443 [] (str ''eu'') (str ''id'') (str ''key'') [] 0 0 0 True)
     \<lparr>ws_is_connected := True, ws_frame_Context := Some wslay_frame_context_init\<rparr>"

lemma ported_websocket_fields [simp]:
  "ws_tls (ported_websocket c) = c" "ws_frame_Context (ported_websocket c) = Some wslay_frame_context_init"
  "ws_read_buf (ported_websocket c) = []" "ws_curr_read_buf_size (ported_websocket c) = 0" "ws_is_connected (ported_websocket c)"
  by (simp_all add: ported_websocket_def WebSocketConnection_new_def)

definition ported_platform :: "nat \<Rightarrow> tls_world OpenSSLConnection ws_platform" where
  "ported_platform fuel = openssl_platform fuel 0 script_library (\<lambda>w. (5, w)) (\<lambda>w. None) (\<lambda>k m. [5]) (\<lambda>m. [6]) (\<lambda>m. [7])
     (\<lambda>m. replicate 28 65)"

lemma ported_websocket_ready:
  "length (tw_input w) < fuel \<Longrightarrow> ws_ready fuel tls_ready (\<lambda>c. tw_input (oc_world c)) (ported_websocket (connected_port w))"
  by (simp add: ws_ready_def)

theorem publish_over_websocket_witness:
  "\<exists>st' d. read_once no_runner id 9 (\<lambda>_. True) (websocket_connection 100 (ported_platform read_limit)) True
      (ported_client (ported_websocket (connected_port (sample_world (concat (map (frame_bytes []) publish_frames)) 1)))) =
      Inr (SUCCESS, True, st') \<and>
    ws_input (\<lambda>c. tw_input (oc_world c)) (ccs_net st') = [7] \<and> ccs_events st' = [Ev_Message 4 [97, slash, 98] [1, 2] None] \<and>
    ccs_outbound_action_queue st' = [(AT_PUBACK, d)] \<and> ad_payload d = PubackData (PubackPacket_new 9)"
proof -
  let ?w = "sample_world (concat (map (frame_bytes []) publish_frames)) 1"
  have "length (tw_input ?w) < 100"
    by (simp add: publish_frames_def frame_bytes_def frame_header_def wslay_is_ctrl_frame_def WSLAY_PONG_def WSLAY_BINARY_FRAME_def)
  then have ready: "ws_ready 100 tls_ready (\<lambda>c. tw_input (oc_world c)) (ccs_net (ported_client (ported_websocket (connected_port ?w))))"
    by (simp add: ported_websocket_ready)
  have "\<exists>st' d. read_once no_runner id 9 (\<lambda>_. True) (websocket_connection 100 (ported_platform read_limit)) True
      (ported_client (ported_websocket (connected_port ?w))) = Inr (SUCCESS, True, st') \<and>
    ws_input (\<lambda>c. tw_input (oc_world c)) (ccs_net st') = [7] \<and>
    ccs_events st' = ccs_events (ported_client (ported_websocket (connected_port ?w))) @
      [Ev_Message 4 (utf8_data sample_topic) [1, 2] (sub_app_handler_data (cs_subscriptions (ported_client (ported_websocket (connected_port ?w))) ! 0))] \<and>
    ccs_outbound_action_queue st' = ccs_outbound_action_queue (ported_client (ported_websocket (connected_port ?w))) @ [(AT_PUBACK, d)] \<and>
    ad_payload d = PubackData (PubackPacket_new 9)"
    unfolding ported_platform_def
    by (rule publish_over_websocket [OF script_read_laws script_read_available _ ported_client_ok ready, where ctx = wslay_frame_context_init and
          fs = publish_frames and bs = sample_publish_bytes, OF _ _ _ _ publish_frames_server _ publish_frames_carried sample_publish(2)
          _ _ sample_publish(4) _ sample_plain sample_covered])
      (simp_all add: sample_publish MAX_MQTT_PACKET_REM_LEN_BYTES_def DEFAULT_MAX_QUEUE_SIZE_def)
  then show ?thesis by (simp add: sample_publish(3))
qed

theorem idle_websocket_disconnects_witness:
  "\<exists>n. read_once no_runner id 1 (\<lambda>_. True) (websocket_connection 1 (ported_platform (Suc read_limit))) False
      (ported_client (ported_websocket (connected_port (sample_world [] 1)))) =
    bind_res (client_request no_runner id AT_DISCONNECT (Some disconnect_data)
        ((ported_client (ported_websocket (connected_port (sample_world [] 1))))\<lparr>ccs_net := n\<rparr>))
      (\<lambda>(rc, d, st). Inr (rc, True, SetAutoReconnectRequired True st))"
  unfolding ported_platform_def
  by (rule idle_websocket_disconnects [OF script_read_laws script_read_available script_quiet])
    (simp_all add: ported_websocket_ready)

text \<open>A PUBLISH whose payload is a PUBACK for packet 5, which has not arrived when the wait times out.\<close>

theorem cut_packet_desynchronises_witness:
  "\<exists>c. read_once no_runner id 9 (\<lambda>_. True) (openssl_connection (Suc read_limit) 0 script_library) False
      (ported_client (connected_port (sample_world [0x30, 7, 0, 1, 97] 9))) =
      Inr (NETWORK_SSL_NOTHING_TO_READ, False, (ported_client (connected_port (sample_world [0x30, 7, 0, 1, 97] 9)))\<lparr>ccs_net := c\<rparr>) \<and>
    (\<exists>c'. ReadPacketFromNetwork 9 (\<lambda>_. True) (Some (openssl_connection (Suc read_limit) 0 script_library)) 0
        (c\<lparr>oc_world := sample_world [0x40, 2, 0, 5] 9\<rparr>) = Inr (SUCCESS, 0x40, [0, 5], c') \<and> tw_input (oc_world c') = [])"
proof -
  have framed: "framed (sample_header 0x30 7) ([0, 1, 97] @ [0x40, 2, 0, 5]) [0x30, 7, 0, 1, 97, 0x40, 2, 0, 5]"
    using sample_framed [of "[0, 1, 97, 0x40, 2, 0, 5]" "0x30"] by (simp add: eval_nat_numeral)
  have forged: "framed (sample_header 0x40 2) [0, 5] [0x40, 2, 0, 5]" using sample_framed [of "[0, 5]" "0x40"] by (simp add: eval_nat_numeral)
  let ?st = "ported_client (connected_port (sample_world [0x30, 7, 0, 1, 97] 9))"
  obtain c where c: "read_once no_runner id 9 (\<lambda>_. True) (openssl_connection (Suc read_limit) 0 script_library) False ?st =
      Inr (NETWORK_SSL_NOTHING_TO_READ, False, ?st\<lparr>ccs_net := c\<rparr>)"
    "\<And>w' h' body' rest. tw_input w' = [0x40, 2, 0, 5] @ rest \<Longrightarrow> framed h' body' [0x40, 2, 0, 5] \<Longrightarrow> length body' \<le> 9 \<Longrightarrow>
      \<exists>c'. ReadPacketFromNetwork 9 (\<lambda>_. True) (Some (openssl_connection (Suc read_limit) 0 script_library)) 0 (c\<lparr>oc_world := w'\<rparr>) =
          Inr (SUCCESS, fh_byte h', body', c') \<and> tw_input (oc_world c') = rest"
    using cut_packet_desynchronises [OF script_read_laws script_read_available script_quiet _ _ framed, of "Suc read_limit" ?st 9 no_runner id 0 False]
    by auto
  show ?thesis
    using c(1) c(2) [of "sample_world [0x40, 2, 0, 5] 9" "[]", OF _ forged] by (auto simp: sample_header_def)
qed


end
