(* ===== verification/Config.thy ===== *)
theory Config
  imports Json
begin

text \<open>
  \<open>ConfigCommon\<close> (\<^verbatim>\<open>common/ConfigCommon.cpp\<close>): the configuration the programs on top of the SDK share, read from a JSON
  file. \<open>InitializeCommon\<close> is a sequence of blocks, one per setting, each with an early return; a block that fails leaves
  the settings before it changed. The static members are the record, the working directory of the process is an
  argument, files and parser are those of \<open>InitializeFromJsonFile\<close>. A path of a Unix system is written, the branch for
  Windows is left out, and so is the logging of errors.
\<close>

record ConfigCommon =
  cfg_sdk_config_json :: json
  cfg_endpoint_mqtt_port :: u16
  cfg_endpoint_https_port :: u16
  cfg_endpoint_greengrass_discovery_port :: u16
  cfg_endpoint :: bytes
  cfg_root_ca_path :: bytes
  cfg_client_cert_path :: bytes
  cfg_client_key_path :: bytes
  cfg_base_client_id :: bytes
  cfg_thing_name :: bytes
  cfg_aws_region :: bytes
  cfg_aws_access_key_id :: bytes
  cfg_aws_secret_access_key :: bytes
  cfg_aws_session_token :: bytes
  cfg_mqtt_command_timeout :: nat
  cfg_tls_handshake_timeout :: nat
  cfg_tls_read_timeout :: nat
  cfg_tls_write_timeout :: nat
  cfg_discover_action_timeout :: nat
  cfg_keep_alive_timeout_secs :: nat
  cfg_is_clean_session :: bool
  cfg_minimum_reconnect_interval :: nat
  cfg_maximum_reconnect_interval :: nat
  cfg_max_pending_acks :: nat
  cfg_maximum_outgoing_action_queue_length :: nat
  cfg_action_processing_rate_hz :: u32

text \<open>\<open>getcwd\<close> gives no path, or one without a zero.\<close>

definition GetCurrentPath :: "bytes option \<Rightarrow> bytes" where
  "GetCurrentPath cwd = (case cwd of None \<Rightarrow> [] | Some p \<Rightarrow> p)"

definition in_directory :: "bytes \<Rightarrow> bytes \<Rightarrow> bytes" where
  "in_directory path name = path @ [47] @ name"

section \<open>The blocks\<close>

type_synonym config_block = "ConfigCommon \<Rightarrow> (ResponseCode \<times> ConfigCommon) res"

definition read_setting ::
  "(json \<Rightarrow> bytes \<Rightarrow> (ResponseCode \<times> 'a option) res) \<Rightarrow> string \<Rightarrow> ('a \<Rightarrow> ConfigCommon \<Rightarrow> ConfigCommon) \<Rightarrow> config_block" where
  "read_setting getter key store c =
     bind_res (getter (cfg_sdk_config_json c) (str key)) (\<lambda>(rc, v).
       Inr (rc, case v of None \<Rightarrow> c | Some x \<Rightarrow> store x c))"

definition string_setting :: "string \<Rightarrow> (bytes \<Rightarrow> ConfigCommon \<Rightarrow> ConfigCommon) \<Rightarrow> config_block" where
  "string_setting = read_setting GetStringValue"

definition number_setting :: "string \<Rightarrow> (nat \<Rightarrow> ConfigCommon \<Rightarrow> ConfigCommon) \<Rightarrow> config_block" where
  "number_setting key store = read_setting GetUint32Value key (\<lambda>x. store (unat x))"

text \<open>A path is relative to the working directory, which is asked for again; without one the member is emptied.\<close>

definition path_setting :: "bytes option \<Rightarrow> string \<Rightarrow> (bytes \<Rightarrow> ConfigCommon \<Rightarrow> ConfigCommon) \<Rightarrow> config_block" where
  "path_setting cwd key store c =
     bind_res (GetStringValue (cfg_sdk_config_json c) (str key)) (\<lambda>(rc, v).
       Inr (case v of
              None \<Rightarrow> (rc, c)
            | Some x \<Rightarrow> if GetCurrentPath cwd = [] then (FILE_OPEN_ERROR, store [] c)
                         else (rc, store (in_directory (GetCurrentPath cwd) x) c)))"

definition config_blocks :: "bytes option \<Rightarrow> config_block list" where
  "config_blocks cwd =
     [string_setting ''endpoint'' (\<lambda>x c. c\<lparr>cfg_endpoint := x\<rparr>),
      read_setting GetUint16Value ''mqtt_port'' (\<lambda>x c. c\<lparr>cfg_endpoint_mqtt_port := x\<rparr>),
      read_setting GetUint16Value ''https_port'' (\<lambda>x c. c\<lparr>cfg_endpoint_https_port := x\<rparr>),
      read_setting GetUint16Value ''greengrass_discovery_port'' (\<lambda>x c. c\<lparr>cfg_endpoint_greengrass_discovery_port := x\<rparr>),
      path_setting cwd ''root_ca_relative_path'' (\<lambda>x c. c\<lparr>cfg_root_ca_path := x\<rparr>),
      path_setting cwd ''device_certificate_relative_path'' (\<lambda>x c. c\<lparr>cfg_client_cert_path := x\<rparr>),
      path_setting cwd ''device_private_key_relative_path'' (\<lambda>x c. c\<lparr>cfg_client_key_path := x\<rparr>),
      string_setting ''client_id'' (\<lambda>x c. c\<lparr>cfg_base_client_id := x\<rparr>),
      string_setting ''thing_name'' (\<lambda>x c. c\<lparr>cfg_thing_name := x\<rparr>),
      string_setting ''aws_region'' (\<lambda>x c. c\<lparr>cfg_aws_region := x\<rparr>),
      string_setting ''aws_access_key_id'' (\<lambda>x c. c\<lparr>cfg_aws_access_key_id := x\<rparr>),
      string_setting ''aws_secret_access_key'' (\<lambda>x c. c\<lparr>cfg_aws_secret_access_key := x\<rparr>),
      string_setting ''aws_session_token'' (\<lambda>x c. c\<lparr>cfg_aws_session_token := x\<rparr>),
      number_setting ''mqtt_command_timeout_msecs'' (\<lambda>x c. c\<lparr>cfg_mqtt_command_timeout := x\<rparr>),
      number_setting ''tls_handshake_timeout_msecs'' (\<lambda>x c. c\<lparr>cfg_tls_handshake_timeout := x\<rparr>),
      number_setting ''tls_read_timeout_msecs'' (\<lambda>x c. c\<lparr>cfg_tls_read_timeout := x\<rparr>),
      number_setting ''tls_write_timeout_msecs'' (\<lambda>x c. c\<lparr>cfg_tls_write_timeout := x\<rparr>),
      number_setting ''keepalive_interval_secs'' (\<lambda>x c. c\<lparr>cfg_keep_alive_timeout_secs := x\<rparr>),
      number_setting ''minimum_reconnect_interval_secs'' (\<lambda>x c. c\<lparr>cfg_minimum_reconnect_interval := x\<rparr>),
      number_setting ''maximum_reconnect_interval_secs'' (\<lambda>x c. c\<lparr>cfg_maximum_reconnect_interval := x\<rparr>),
      read_setting GetSizeTValue ''maximum_outgoing_action_queue_length''
        (\<lambda>x c. c\<lparr>cfg_maximum_outgoing_action_queue_length := x\<rparr>),
      read_setting GetSizeTValue ''maximum_acks_to_wait_for'' (\<lambda>x c. c\<lparr>cfg_max_pending_acks := x\<rparr>),
      read_setting GetBoolValue ''is_clean_session'' (\<lambda>x c. c\<lparr>cfg_is_clean_session := x\<rparr>),
      read_setting GetUint32Value ''action_processing_rate_hz'' (\<lambda>x c. c\<lparr>cfg_action_processing_rate_hz := x\<rparr>),
      number_setting ''discover_action_timeout_msecs'' (\<lambda>x c. c\<lparr>cfg_discover_action_timeout := x\<rparr>)]"

fun run_blocks :: "config_block list \<Rightarrow> config_block" where
  "run_blocks [] c = Inr (SUCCESS, c)"
| "run_blocks (b # bs) c = bind_res (b c) (\<lambda>(rc, c). if rc \<noteq> SUCCESS then Inr (rc, c) else run_blocks bs c)"

definition InitializeCommon ::
  "bytes option \<Rightarrow> (bytes \<Rightarrow> bytes option) \<Rightarrow> (bytes \<Rightarrow> json option) \<Rightarrow> bytes \<Rightarrow> config_block" where
  "InitializeCommon cwd fopen parse config_file_relative_path c =
     (if GetCurrentPath cwd = [] then Inr (FILE_OPEN_ERROR, c)
      else
        bind_res (InitializeFromJsonFile fopen parse (cfg_sdk_config_json c)
            (in_directory (GetCurrentPath cwd) config_file_relative_path)) (\<lambda>(rc, doc).
          let c = c\<lparr>cfg_sdk_config_json := doc\<rparr> in
          if rc \<noteq> SUCCESS then Inr (rc, c) else run_blocks (config_blocks cwd) c))"

section \<open>What a configuration file must hold\<close>

text \<open>The settings by name and type, in the order in which they are looked at.\<close>

datatype setting_type = Text_setting | Number_setting | Bool_setting

definition config_keys :: "(string \<times> setting_type) list" where
  "config_keys =
     (''endpoint'', Text_setting)
     # map (\<lambda>k. (k, Number_setting)) [''mqtt_port'', ''https_port'', ''greengrass_discovery_port'']
     @ map (\<lambda>k. (k, Text_setting)) [''root_ca_relative_path'', ''device_certificate_relative_path'',
         ''device_private_key_relative_path'', ''client_id'', ''thing_name'', ''aws_region'', ''aws_access_key_id'',
         ''aws_secret_access_key'', ''aws_session_token'']
     @ map (\<lambda>k. (k, Number_setting)) [''mqtt_command_timeout_msecs'', ''tls_handshake_timeout_msecs'',
         ''tls_read_timeout_msecs'', ''tls_write_timeout_msecs'', ''keepalive_interval_secs'',
         ''minimum_reconnect_interval_secs'', ''maximum_reconnect_interval_secs'', ''maximum_outgoing_action_queue_length'',
         ''maximum_acks_to_wait_for'']
     @ [(''is_clean_session'', Bool_setting), (''action_processing_rate_hz'', Number_setting),
        (''discover_action_timeout_msecs'', Number_setting)]"

fun has_type :: "setting_type \<Rightarrow> json \<Rightarrow> bool" where
  "has_type Text_setting v \<longleftrightarrow> (case v of JString s \<Rightarrow> True | _ \<Rightarrow> False)"
| "has_type Number_setting v \<longleftrightarrow> (case v of JInt n \<Rightarrow> 0 \<le> n \<and> n < 2 ^ 32 | _ \<Rightarrow> False)"
| "has_type Bool_setting v \<longleftrightarrow> (case v of JBool b \<Rightarrow> True | _ \<Rightarrow> False)"

definition setting_problem :: "(bytes \<times> json) list \<Rightarrow> string \<times> setting_type \<Rightarrow> ResponseCode" where
  "setting_problem ms s =
     (case map_of ms (str (fst s)) of
        None \<Rightarrow> JSON_PARSE_KEY_NOT_FOUND_ERROR
      | Some v \<Rightarrow> if has_type (snd s) v then SUCCESS else JSON_PARSE_KEY_UNEXPECTED_TYPE_ERROR)"

fun first_problem :: "(bytes \<times> json) list \<Rightarrow> (string \<times> setting_type) list \<Rightarrow> ResponseCode" where
  "first_problem ms [] = SUCCESS"
| "first_problem ms (s # ss) = (if setting_problem ms s \<noteq> SUCCESS then setting_problem ms s else first_problem ms ss)"

text \<open>A block reads the setting \<open>s\<close>: it keeps the document and reports the problem of the setting, if there is one.\<close>

definition block_reads :: "(bytes \<times> json) list \<Rightarrow> config_block \<Rightarrow> string \<times> setting_type \<Rightarrow> bool" where
  "block_reads ms b s \<longleftrightarrow>
     (\<forall>c. cfg_sdk_config_json c = JObject ms \<longrightarrow>
        (\<exists>c'. b c = Inr (setting_problem ms s, c') \<and> cfg_sdk_config_json c' = JObject ms))"

lemma run_blocks_problem:
  assumes "list_all2 (block_reads ms) bs ss" "cfg_sdk_config_json c = JObject ms"
  shows "\<exists>c'. run_blocks bs c = Inr (first_problem ms ss, c')"
  using assms
proof (induction arbitrary: c rule: list_all2_induct)
  case (Cons b bs s ss)
  then obtain c' where "b c = Inr (setting_problem ms s, c')" "cfg_sdk_config_json c' = JObject ms"
    unfolding block_reads_def by blast
  with Cons.IH show ?case by auto
qed simp

lemma read_setting_reads:
  assumes "\<And>x c. cfg_sdk_config_json (store x c) = cfg_sdk_config_json c" "\<And>v. has_type t v \<longleftrightarrow> (\<exists>x. conv v = Some x)"
  shows "block_reads ms (read_setting (read_value conv) key store) (key, t)"
  using assms
  by (auto simp: block_reads_def read_setting_def read_value_def find_member_def setting_problem_def split: option.split)

lemma conversions:
  "has_type Text_setting v \<longleftrightarrow> (\<exists>x. as_c_string v = Some x)" "has_type Number_setting v \<longleftrightarrow> (\<exists>x. as_uint v = Some x)"
  "has_type Bool_setting v \<longleftrightarrow> (\<exists>x. as_bool v = Some x)"
  by (cases v; simp add: as_c_string_def as_uint_def as_bool_def)+

lemma config_block_reads:
  assumes "\<And>x c. cfg_sdk_config_json (store x c) = cfg_sdk_config_json c"
  shows "block_reads ms (string_setting key store) (key, Text_setting)"
  unfolding string_setting_def GetStringValue_def using assms conversions(1) by (rule read_setting_reads)

lemma number_block_reads:
  assumes "\<And>x c. cfg_sdk_config_json (store x c) = cfg_sdk_config_json c"
  shows "block_reads ms (number_setting key store) (key, Number_setting)"
  unfolding number_setting_def GetUint32Value_def using assms conversions(2) by (intro read_setting_reads)

lemma typed_block_reads:
  assumes "\<And>x c. cfg_sdk_config_json (store x c) = cfg_sdk_config_json c"
  shows "block_reads ms (read_setting GetUint16Value key store) (key, Number_setting)"
  unfolding GetUint16Value_def using assms by (rule read_setting_reads) (simp add: conversions del: has_type.simps)

lemma size_block_reads:
  assumes "\<And>x c. cfg_sdk_config_json (store x c) = cfg_sdk_config_json c"
  shows "block_reads ms (read_setting GetSizeTValue key store) (key, Number_setting)"
  unfolding GetSizeTValue_def using assms by (rule read_setting_reads) (simp add: conversions del: has_type.simps)

lemma word_block_reads:
  assumes "\<And>x c. cfg_sdk_config_json (store x c) = cfg_sdk_config_json c"
  shows "block_reads ms (read_setting GetUint32Value key store) (key, Number_setting)"
  unfolding GetUint32Value_def using assms conversions(2) by (rule read_setting_reads)

lemma bool_block_reads:
  assumes "\<And>x c. cfg_sdk_config_json (store x c) = cfg_sdk_config_json c"
  shows "block_reads ms (read_setting GetBoolValue key store) (key, Bool_setting)"
  unfolding GetBoolValue_def using assms conversions(3) by (rule read_setting_reads)

lemma path_block_reads:
  assumes "\<And>x c. cfg_sdk_config_json (store x c) = cfg_sdk_config_json c" "p \<noteq> []"
  shows "block_reads ms (path_setting (Some p) key store) (key, Text_setting)"
  using assms
  by (auto simp: block_reads_def path_setting_def GetStringValue_def read_value_def find_member_def setting_problem_def
      GetCurrentPath_def conversions simp del: has_type.simps split: option.split)

lemmas block_reads_intros = config_block_reads number_block_reads typed_block_reads size_block_reads word_block_reads
  bool_block_reads path_block_reads

lemma config_blocks_read:
  assumes "p \<noteq> []"
  shows "list_all2 (block_reads ms) (config_blocks (Some p)) config_keys"
  unfolding config_blocks_def config_keys_def list.map append.simps list_all2_Cons
  using assms by (intro conjI block_reads_intros) (simp_all add: list_all2_Nil)

text \<open>C38: reading a configuration file that holds an object succeeds exactly when every setting is there with its type;
  otherwise the code of the first setting that is missing or has another type is returned.\<close>

theorem config_complete_iff:
  assumes "p \<noteq> []" "fopen (in_directory p name) = Some content" "4 \<le> length content" "parse content = Some (JObject ms)"
  shows "\<exists>c'. InitializeCommon (Some p) fopen parse name c = Inr (first_problem ms config_keys, c')"
proof -
  have "\<exists>c'. run_blocks (config_blocks (Some p)) (c\<lparr>cfg_sdk_config_json := JObject ms\<rparr>) = Inr (first_problem ms config_keys, c')"
    using run_blocks_problem [OF config_blocks_read [OF assms(1)]] by simp
  with assms show ?thesis
    by (simp add: InitializeCommon_def GetCurrentPath_def InitializeFromJsonFile_def in_directory_def)
qed

text \<open>A file that is JSON but no object violates an assertion of the library.\<close>

theorem config_no_object_faults:
  assumes "p \<noteq> []" "fopen (in_directory p name) = Some content" "4 \<le> length content" "parse content = Some doc"
    and "\<not> is_object doc"
  shows "InitializeCommon (Some p) fopen parse name c = Inl AssertionFailed"
  using assms
  by (simp add: InitializeCommon_def GetCurrentPath_def InitializeFromJsonFile_def in_directory_def config_blocks_def
      string_setting_def read_setting_def GetStringValue_def read_value_def find_member_def)

text \<open>What the blocks store.\<close>

lemma uint_of_json: "0 \<le> n \<Longrightarrow> n < 2 ^ 32 \<Longrightarrow> as_uint (JInt n) = Some (of_int n)"
  by (simp add: as_uint_def)

lemma unat_of_int_u32: "0 \<le> n \<Longrightarrow> n < 2 ^ 32 \<Longrightarrow> unat (of_int n :: u32) = nat n"
  by (simp add: unat_eq_nat_uint uint_word_of_int)

lemma no_zero: "0 \<notin> set t \<Longrightarrow> takeWhile (\<lambda>b. b \<noteq> 0) t = t"
  by (auto simp: takeWhile_eq_all_conv)

lemma blocks_read:
  "cfg_sdk_config_json c = JObject ms \<Longrightarrow> map_of ms (str k) = Some (JString t) \<Longrightarrow> 0 \<notin> set t \<Longrightarrow>
    string_setting k store c = Inr (SUCCESS, store t c)"
  "cfg_sdk_config_json c = JObject ms \<Longrightarrow> map_of ms (str k) = Some (JString t) \<Longrightarrow> 0 \<notin> set t \<Longrightarrow> p \<noteq> [] \<Longrightarrow>
    path_setting (Some p) k store c = Inr (SUCCESS, store (in_directory p t) c)"
  "cfg_sdk_config_json c = JObject ms \<Longrightarrow> map_of ms (str k) = Some (JInt n) \<Longrightarrow> 0 \<le> n \<Longrightarrow> n < 2 ^ 32 \<Longrightarrow>
    number_setting k store2 c = Inr (SUCCESS, store2 (nat n) c)"
  "cfg_sdk_config_json c = JObject ms \<Longrightarrow> map_of ms (str k) = Some (JInt n) \<Longrightarrow> 0 \<le> n \<Longrightarrow> n < 2 ^ 32 \<Longrightarrow>
    read_setting GetSizeTValue k store2 c = Inr (SUCCESS, store2 (nat n) c)"
  "cfg_sdk_config_json c = JObject ms \<Longrightarrow> map_of ms (str k) = Some (JInt n) \<Longrightarrow> 0 \<le> n \<Longrightarrow> n < 2 ^ 32 \<Longrightarrow>
    read_setting GetUint32Value k store3 c = Inr (SUCCESS, store3 (of_int n) c)"
  "cfg_sdk_config_json c = JObject ms \<Longrightarrow> map_of ms (str k) = Some (JInt n) \<Longrightarrow> 0 \<le> n \<Longrightarrow> n < 2 ^ 32 \<Longrightarrow>
    read_setting GetUint16Value k store4 c = Inr (SUCCESS, store4 (ucast (of_int n :: u32)) c)"
  "cfg_sdk_config_json c = JObject ms \<Longrightarrow> map_of ms (str k) = Some (JBool b) \<Longrightarrow>
    read_setting GetBoolValue k store5 c = Inr (SUCCESS, store5 b c)"
  by (simp_all add: string_setting_def number_setting_def path_setting_def read_setting_def GetStringValue_def
      GetUint32Value_def GetUint16Value_def GetSizeTValue_def GetBoolValue_def read_value_def find_member_def as_c_string_def
      as_bool_def uint_of_json unat_of_int_u32 GetCurrentPath_def no_zero)

text \<open>a file with every setting in its type is read into exactly these values: texts as they are, paths below the working
  directory, numbers as they are, but ports cut to 16 bits.\<close>

theorem config_values:
  assumes "p \<noteq> []" "fopen (in_directory p name) = Some content" "4 \<le> length content" "parse content = Some (JObject ms)"
    and texts: "\<And>k. (k, Text_setting) \<in> set config_keys \<Longrightarrow> map_of ms (str k) = Some (JString (txt k)) \<and> 0 \<notin> set (txt k)"
    and numbers: "\<And>k. (k, Number_setting) \<in> set config_keys \<Longrightarrow> map_of ms (str k) = Some (JInt (num k)) \<and> 0 \<le> num k \<and> num k < 4294967296"
    and flag: "map_of ms (str ''is_clean_session'') = Some (JBool flag)"
  shows "InitializeCommon (Some p) fopen parse name c = Inr (SUCCESS,
    \<lparr>cfg_sdk_config_json = JObject ms, cfg_endpoint_mqtt_port = ucast (of_int (num ''mqtt_port'') :: u32),
     cfg_endpoint_https_port = ucast (of_int (num ''https_port'') :: u32),
     cfg_endpoint_greengrass_discovery_port = ucast (of_int (num ''greengrass_discovery_port'') :: u32),
     cfg_endpoint = txt ''endpoint'', cfg_root_ca_path = in_directory p (txt ''root_ca_relative_path''),
     cfg_client_cert_path = in_directory p (txt ''device_certificate_relative_path''),
     cfg_client_key_path = in_directory p (txt ''device_private_key_relative_path''),
     cfg_base_client_id = txt ''client_id'', cfg_thing_name = txt ''thing_name'', cfg_aws_region = txt ''aws_region'',
     cfg_aws_access_key_id = txt ''aws_access_key_id'', cfg_aws_secret_access_key = txt ''aws_secret_access_key'',
     cfg_aws_session_token = txt ''aws_session_token'',
     cfg_mqtt_command_timeout = nat (num ''mqtt_command_timeout_msecs''),
     cfg_tls_handshake_timeout = nat (num ''tls_handshake_timeout_msecs''),
     cfg_tls_read_timeout = nat (num ''tls_read_timeout_msecs''), cfg_tls_write_timeout = nat (num ''tls_write_timeout_msecs''),
     cfg_discover_action_timeout = nat (num ''discover_action_timeout_msecs''),
     cfg_keep_alive_timeout_secs = nat (num ''keepalive_interval_secs''), cfg_is_clean_session = flag,
     cfg_minimum_reconnect_interval = nat (num ''minimum_reconnect_interval_secs''),
     cfg_maximum_reconnect_interval = nat (num ''maximum_reconnect_interval_secs''),
     cfg_max_pending_acks = nat (num ''maximum_acks_to_wait_for''),
     cfg_maximum_outgoing_action_queue_length = nat (num ''maximum_outgoing_action_queue_length''),
     cfg_action_processing_rate_hz = of_int (num ''action_processing_rate_hz'')\<rparr>)"
proof -
  note known = texts [THEN conjunct1] texts [THEN conjunct2] numbers [THEN conjunct1] numbers [THEN conjunct2, THEN conjunct1]
    numbers [THEN conjunct2, THEN conjunct2] flag
  show ?thesis
    using assms(1-4)
    by (simp add: InitializeCommon_def InitializeFromJsonFile_def config_blocks_def blocks_read known config_keys_def
        GetCurrentPath_def in_directory_def)
qed

section \<open>Witnesses\<close>

definition sample_config :: "(bytes \<times> json) list" where
  "sample_config = map (\<lambda>(k, t). (str k, case t of Text_setting \<Rightarrow> JString [97] | Number_setting \<Rightarrow> JInt 70000
     | Bool_setting \<Rightarrow> JBool True)) config_keys"

text \<open>The members as they are before the first call.\<close>

definition no_config :: ConfigCommon where
  "no_config = \<lparr>cfg_sdk_config_json = JNull, cfg_endpoint_mqtt_port = 0, cfg_endpoint_https_port = 0,
     cfg_endpoint_greengrass_discovery_port = 0, cfg_endpoint = [], cfg_root_ca_path = [], cfg_client_cert_path = [],
     cfg_client_key_path = [], cfg_base_client_id = [], cfg_thing_name = [], cfg_aws_region = [], cfg_aws_access_key_id = [],
     cfg_aws_secret_access_key = [], cfg_aws_session_token = [], cfg_mqtt_command_timeout = 0, cfg_tls_handshake_timeout = 0,
     cfg_tls_read_timeout = 0, cfg_tls_write_timeout = 0, cfg_discover_action_timeout = 0, cfg_keep_alive_timeout_secs = 0,
     cfg_is_clean_session = False, cfg_minimum_reconnect_interval = 0, cfg_maximum_reconnect_interval = 0,
     cfg_max_pending_acks = 0, cfg_maximum_outgoing_action_queue_length = 0, cfg_action_processing_rate_hz = 0\<rparr>"

theorem config_complete_iff_witness:
  "\<exists>c'. InitializeCommon (Some [47]) (\<lambda>_. Some [1, 2, 3, 4]) (\<lambda>_. Some (JObject [(str ''endpoint'', JString [97])])) [99] no_config =
     Inr (JSON_PARSE_KEY_NOT_FOUND_ERROR, c')"
  using config_complete_iff [of "[47]" "\<lambda>_. Some [1, 2, 3, 4]" "[99]" "[1, 2, 3, 4]" "\<lambda>_. Some (JObject [(str ''endpoint'', JString [97])])"
      "[(str ''endpoint'', JString [97])]" no_config]
  by (simp add: config_keys_def setting_problem_def str_def)

lemma sample_config_lookup:
  "(k, t) \<in> set config_keys \<Longrightarrow> map_of sample_config (str k) = Some (case t of Text_setting \<Rightarrow> JString [97]
     | Number_setting \<Rightarrow> JInt 70000 | Bool_setting \<Rightarrow> JBool True)"
proof -
  have "distinct (map fst sample_config)"
    by (simp add: sample_config_def config_keys_def str_def)
  moreover assume "(k, t) \<in> set config_keys"
  ultimately show ?thesis by (force intro: map_of_is_SomeI simp: sample_config_def)
qed

theorem config_values_witness:
  "\<exists>c'. InitializeCommon (Some [47]) (\<lambda>_. Some [1, 2, 3, 4]) (\<lambda>_. Some (JObject sample_config)) [99] no_config = Inr (SUCCESS, c') \<and>
     cfg_endpoint_mqtt_port c' = 4464 \<and> cfg_root_ca_path c' = [47, 47, 97]"
  using config_values [of "[47]" "\<lambda>_. Some [1, 2, 3, 4]" "[99]" "[1, 2, 3, 4]" "\<lambda>_. Some (JObject sample_config)" sample_config
      "\<lambda>_. [97]" "\<lambda>_. 70000" True no_config] sample_config_lookup [of _ Text_setting] sample_config_lookup [of _ Number_setting]
    sample_config_lookup [of "''is_clean_session''" Bool_setting]
  by (simp add: in_directory_def config_keys_def)

end
