(* ===== verification/Greengrass.thy ===== *)
theory Greengrass
  imports Discovery MqttClient
begin

text \<open>
  The client of Greengrass (\<^verbatim>\<open>src/mqtt/GreengrassMqttClient.cpp\<close>): its construction, which registers the discover action
  beside those of MQTT, and a discovery through it from the request to the document. The state of its core is the
  client; the thread of the outbound queue is that of the MQTT client.
\<close>

section \<open>Construction\<close>

type_synonym ('n, 'a, 'p) greengrass_client = "('n, 'a greengrass_action, 'p greengrass_payload) ClientState"

fun register_actions ::
  "(ActionType \<times> 'a) list \<Rightarrow> ('n, 'a, 'p, 'z) ClientCoreState_scheme \<Rightarrow> ('n, 'a, 'p, 'z) ClientCoreState_scheme" where
  "register_actions [] st = st"
| "register_actions ((t, a) # acts) st = register_actions acts (snd (RegisterAction t (Some (Some a)) st))"

definition GreengrassMqttClient_new ::
  "'n NetworkConnection \<Rightarrow> nat \<Rightarrow> callbacks \<Rightarrow> 'n \<Rightarrow> nat \<Rightarrow> ('n, mqtt_action, 'p) greengrass_client" where
  "GreengrassMqttClient_new nc mqtt_command_timeout cb net now =
     register_actions (map (\<lambda>(t, a). (t, MqttAction a)) client_actions @ [(GREENGRASS_DISCOVER, DiscoverAction)])
       ((ClientState_new mqtt_command_timeout net now)
          \<lparr>ccs_network_connection := Some nc,
           ccs_disconnect_handler := cb_disconnect cb, ccs_disconnect_app_handler_data := cb_disconnect_data cb,
           ccs_reconnect_handler := cb_reconnect cb, ccs_reconnect_app_handler_data := cb_reconnect_data cb,
           ccs_resubscribe_handler := cb_resubscribe cb, ccs_resubscribe_app_handler_data := cb_resubscribe_data cb\<rparr>)"

definition GreengrassMqttClient_Create ::
  "'n NetworkConnection option \<Rightarrow> nat \<Rightarrow> callbacks \<Rightarrow> 'n \<Rightarrow> nat \<Rightarrow> ('n, mqtt_action, 'p) greengrass_client option" where
  "GreengrassMqttClient_Create p_nc mqtt_command_timeout cb net now =
     map_option (\<lambda>nc. GreengrassMqttClient_new nc mqtt_command_timeout cb net now) p_nc"

section \<open>A discovery through a new client\<close>

lemma register_actions_effect:
  assumes "map_wf (ccs_action_map st)" "map_wf (ccs_action_create_handler_map st)" "distinct (map fst acts)"
    and "\<forall>(t, a) \<in> set acts. map_find (ccs_action_map st) t = None \<and> map_find (ccs_action_create_handler_map st) t = None"
  shows "map_find (ccs_action_map (register_actions acts st)) t =
      (case map_of acts t of Some a \<Rightarrow> Some a | None \<Rightarrow> map_find (ccs_action_map st) t) \<and>
    ccs_network_connection (register_actions acts st) = ccs_network_connection st \<and>
    ccs_net (register_actions acts st) = ccs_net st"
  using assms
proof (induction acts arbitrary: st)
  case (Cons e acts)
  obtain t' a where e: "e = (t', a)" by fastforce
  let ?st = "st\<lparr>ccs_action_create_handler_map := map_insert t' (Some a) (ccs_action_create_handler_map st),
    ccs_action_map := map_insert t' a (ccs_action_map st)\<rparr>"
  have new: "map_find (ccs_action_map st) t' = None" "map_find (ccs_action_create_handler_map st) t' = None"
    using Cons.prems(4) by (simp_all add: e)
  have step: "snd (RegisterAction t' (Some (Some a)) st) = ?st"
    using Cons.prems(2) new(2) by (simp add: RegisterAction_def GetActionCreateHandler_def map_find_insert Let_def)
  have "map_find (ccs_action_map (register_actions acts ?st)) t =
      (case map_of acts t of Some a \<Rightarrow> Some a | None \<Rightarrow> map_find (ccs_action_map ?st) t) \<and>
    ccs_network_connection (register_actions acts ?st) = ccs_network_connection ?st \<and>
    ccs_net (register_actions acts ?st) = ccs_net ?st"
    using Cons.prems by (intro Cons.IH) (force simp: e map_find_insert map_wf_insert)+
  moreover have "map_of acts t' = None" using Cons.prems(3) by (simp add: e map_of_eq_None_iff)
  ultimately show ?case
    using Cons.prems(1) new(1) by (cases "t = t'") (simp_all add: e step map_find_insert cong: option.case_cong)
qed simp

lemma new_greengrass_client:
  fixes nc :: "'n NetworkConnection" and tmo t :: nat and cb :: callbacks and net :: 'n
  defines "st \<equiv> GreengrassMqttClient_new nc tmo cb net t :: ('n, mqtt_action, 'p) greengrass_client"
  shows "map_find (ccs_action_map st) GREENGRASS_DISCOVER = Some DiscoverAction" "ccs_network_connection st = Some nc" "ccs_net st = net"
proof -
  let ?acts = "map (\<lambda>(t, a). (t, MqttAction a)) client_actions @ [(GREENGRASS_DISCOVER, DiscoverAction)]"
  let ?st = "(ClientState_new tmo net t)
          \<lparr>ccs_network_connection := Some nc,
           ccs_disconnect_handler := cb_disconnect cb, ccs_disconnect_app_handler_data := cb_disconnect_data cb,
           ccs_reconnect_handler := cb_reconnect cb, ccs_reconnect_app_handler_data := cb_reconnect_data cb,
           ccs_resubscribe_handler := cb_resubscribe cb, ccs_resubscribe_app_handler_data := cb_resubscribe_data cb\<rparr>
        :: ('n, mqtt_action, 'p) greengrass_client"
  have empty: "ccs_action_map ?st = []" "ccs_action_create_handler_map ?st = []" "ccs_net ?st = net"
    by (simp_all add: ClientState_new_def ClientCoreState_new_def ClientCoreState.extend_def ClientState.fields_def)
  have "distinct (map fst ?acts)" by (simp add: client_actions_def)
  note eff = register_actions_effect [of ?st ?acts GREENGRASS_DISCOVER, unfolded empty, simplified map_find_def, OF _ _ this]
  have st: "st = register_actions ?acts ?st" by (simp add: st_def GreengrassMqttClient_new_def)
  from eff show "map_find (ccs_action_map st) GREENGRASS_DISCOVER = Some DiscoverAction" "ccs_network_connection st = Some nc" "ccs_net st = net"
    unfolding st by (simp_all add: client_actions_def map_find_def map_wf_def empty)
qed


text \<open>The scripted device of \<open>Discovery\<close>, not yet connected.\<close>

definition discovery_connection :: "script_device NetworkConnection" where
  "discovery_connection = script_connection\<lparr>nc_ReadInternal := (\<lambda>buf off sz k d.
     let k = min sz (length (sd_input d))
     in if k = 0 then (NETWORK_SSL_NOTHING_TO_READ, buf, 0, d)
        else (SUCCESS, take off buf @ take k (sd_input d) @ drop (off + k) buf, k, d\<lparr>sd_input := drop k (sd_input d)\<rparr>))\<rparr>"

definition discovery_device :: script_device where
  "discovery_device =
     script (sample_status @ [97, 13, 10] @ sample_length_line @ [98, 13, 10, 13, 10] @ [123, 125] @ [1]) 0 99"


end
