(* ===== verification/ProgramTls.thy ===== *)
theory ProgramTls
  imports OpenSSL MqttClient Config
begin

text \<open>
  What the programs on top of the SDK have in common: \<open>InitializeTLS\<close>, which makes the connection from the configuration,
  here in its default build with OpenSSL, and the call of \<open>Connect\<close> with the configuration
  (\<^verbatim>\<open>samples/JobsAgent/JobsAgent.cpp\<close>, and with the same text in the other samples and in \<^verbatim>\<open>cli/cli.cpp\<close>).
\<close>

type_synonym 'w tls_client = "'w OpenSSLConnection MqttClient"

text \<open>Every failure of the initialisation is reported as \<open>FAILURE\<close>, and leaves the pointer to the connection null.\<close>

definition InitializeTLS :: "'w tls_library \<Rightarrow> ConfigCommon \<Rightarrow> 'w \<Rightarrow> ResponseCode \<times> 'w OpenSSLConnection option" where
  "InitializeTLS lib cfg w =
     (case OpenSSL_Initialize lib
             (OpenSSLConnection_new (cfg_endpoint cfg) (cfg_endpoint_mqtt_port cfg) (cfg_root_ca_path cfg)
                (cfg_client_cert_path cfg) (cfg_client_key_path cfg) (int (cfg_tls_handshake_timeout cfg))
                (int (cfg_tls_read_timeout cfg)) (int (cfg_tls_write_timeout cfg)) True False w) of
        (rc, c) \<Rightarrow> if rc \<noteq> SUCCESS then (FAILURE, None) else (SUCCESS, Some c))"

definition connect_as ::
  "(action_data option \<Rightarrow> 'n client \<Rightarrow> (ResponseCode \<times> action_data option \<times> 'n client) res)
   \<Rightarrow> ('n client \<Rightarrow> 'n client) \<Rightarrow> ('n client \<Rightarrow> 'n client) \<Rightarrow> bytes \<Rightarrow> ConfigCommon \<Rightarrow> bytes
   \<Rightarrow> 'n MqttClient \<Rightarrow> (ResponseCode \<times> 'n MqttClient) res" where
  "connect_as runner wait others sdk_version cfg client_id =
     Connect runner wait others sdk_version (cfg_is_clean_session cfg) MQTT_3_1_1 (int (cfg_keep_alive_timeout_secs cfg))
       (Create_Utf8String client_id) None True"

text \<open>The assertion of \<open>GetString\<close> is that the value is a string.\<close>

definition the_string :: "json \<Rightarrow> bytes res" where
  "the_string v = (case as_c_string v of None \<Rightarrow> Inl AssertionFailed | Some s \<Rightarrow> Inr s)"

end
