(* ===== verification/Failover.thy ===== *)
theory Failover
  imports Discovery ProgramTls
begin

text \<open>
  What a device does with a discovery response (\<^verbatim>\<open>samples/Discovery/Discovery.cpp\<close>): it writes the certificates of the
  groups to files and tries to connect to the endpoints in the order of their identifiers, with each certificate of the
  group, until a connection is accepted. The client is that of \<open>MqttClient\<close> over the TLS connection of \<open>OpenSSL\<close>: the
  sample holds the connection too and changes its endpoint and its authority between the attempts. What the sample does
  before (the discovery itself, see \<open>Greengrass\<close>) and after (subscribing and publishing) is left out.
\<close>

type_synonym CA_map = "(bytes \<times> bytes list) list"

definition ConnectivitySortFunction :: "ConnectivityInfo \<Rightarrow> ConnectivityInfo \<Rightarrow> bool" where
  "ConnectivitySortFunction info1 info2 \<longleftrightarrow> ci_id info1 < ci_id info2"

text \<open>\<open>std::sort\<close>; endpoints of the same identifier may come in any order, here in the order of the response.\<close>

definition sort_endpoints :: "ConnectivityInfo list \<Rightarrow> ConnectivityInfo list" where
  "sort_endpoints infos = sort_key ci_id infos"

section \<open>The files of the certificates\<close>

definition ca_path :: "bytes \<Rightarrow> bytes \<Rightarrow> nat \<Rightarrow> bytes" where
  "ca_path directory group_name suffix = directory @ group_name @ str ''_root_ca'' @ nat_digits suffix @ str ''.pem''"

text \<open>A file that cannot be opened is not noticed.\<close>

fun store_cas ::
  "(bytes \<Rightarrow> bool) \<Rightarrow> bytes \<Rightarrow> bytes \<Rightarrow> nat \<Rightarrow> bytes list \<Rightarrow> (bytes \<Rightarrow> bytes option) \<Rightarrow> bytes \<Rightarrow> bytes option" where
  "store_cas can_write directory group_name suffix [] files = files"
| "store_cas can_write directory group_name suffix (ca # cas) files =
     store_cas can_write directory group_name (suffix + 1) cas
       (if can_write (ca_path directory group_name suffix) then files(ca_path directory group_name suffix \<mapsto> ca) else files)"

fun store_ca_map ::
  "(bytes \<Rightarrow> bool) \<Rightarrow> bytes \<Rightarrow> CA_map \<Rightarrow> (bytes \<Rightarrow> bytes option) \<Rightarrow> bytes \<Rightarrow> bytes option" where
  "store_ca_map can_write directory [] files = files"
| "store_ca_map can_write directory ((group_name, cas) # m) files =
     store_ca_map can_write directory m (store_cas can_write directory group_name 1 cas files)"

section \<open>The attempts\<close>

definition set_endpoint :: "bytes \<Rightarrow> u16 \<Rightarrow> 'w tls_client \<Rightarrow> 'w tls_client" where
  "set_endpoint host port = on_state (\<lambda>st. st\<lparr>ccs_net := SetEndpointAndPort host port (ccs_net st)\<rparr>)"

definition set_authority :: "bytes \<Rightarrow> 'w tls_client \<Rightarrow> 'w tls_client" where
  "set_authority path = on_state (\<lambda>st. st\<lparr>ccs_net := SetRootCAPath path (ccs_net st)\<rparr>)"

text \<open>\<open>Connect\<close> with the settings of the configuration; \<open>attempt\<close> below is this with everything but the client fixed.\<close>

definition connect_configured ::
  "(action_data option \<Rightarrow> 'n client \<Rightarrow> (ResponseCode \<times> action_data option \<times> 'n client) res)
   \<Rightarrow> ('n client \<Rightarrow> 'n client) \<Rightarrow> ('n client \<Rightarrow> 'n client) \<Rightarrow> bytes \<Rightarrow> ConfigCommon
   \<Rightarrow> 'n MqttClient \<Rightarrow> (ResponseCode \<times> 'n MqttClient) res" where
  "connect_configured runner wait others sdk_version cfg =
     connect_as runner wait others sdk_version cfg (cfg_base_client_id cfg)"

fun try_authorities ::
  "('w tls_client \<Rightarrow> (ResponseCode \<times> 'w tls_client) res) \<Rightarrow> bytes \<Rightarrow> bytes \<Rightarrow> nat \<Rightarrow> bytes list
   \<Rightarrow> ResponseCode \<Rightarrow> 'w tls_client \<Rightarrow> (ResponseCode \<times> 'w tls_client) res" where
  "try_authorities attempt directory group_name suffix [] rc c = Inr (rc, c)"
| "try_authorities attempt directory group_name suffix (ca # cas) rc c =
     bind_res (attempt (set_authority (ca_path directory group_name suffix) c)) (\<lambda>(rc, c).
       if rc = MQTT_CONNACK_CONNECTION_ACCEPTED then Inr (rc, c)
       else try_authorities attempt directory group_name (suffix + 1) cas rc c)"

text \<open>The iterator of a group that is not in the map is dereferenced without a check.\<close>

fun try_endpoints ::
  "('w tls_client \<Rightarrow> (ResponseCode \<times> 'w tls_client) res) \<Rightarrow> bytes \<Rightarrow> CA_map \<Rightarrow> ConnectivityInfo list
   \<Rightarrow> ResponseCode \<Rightarrow> 'w tls_client \<Rightarrow> (ResponseCode \<times> 'w tls_client) res" where
  "try_endpoints attempt directory ca_map [] rc c = Inr (rc, c)"
| "try_endpoints attempt directory ca_map (info # infos) rc c =
     (let c = set_endpoint (ci_host_address info) (ci_port info) c in
      bind_res (deref (map_find ca_map (ci_group_name info))) (\<lambda>cas.
      bind_res (try_authorities attempt directory (ci_group_name info) 1 cas rc c) (\<lambda>(rc, c).
        if rc = MQTT_CONNACK_CONNECTION_ACCEPTED then Inr (rc, c)
        else try_endpoints attempt directory ca_map infos rc c)))"

text \<open>
  From the discovery response to a connection. The responses of writing the response to a file and of parsing it are
  overwritten: \<open>rc\<close> of the first goes nowhere, that of the second is what is returned when nothing is tried.
\<close>

definition connect_to_core ::
  "(bytes \<Rightarrow> bool) \<Rightarrow> (json \<Rightarrow> bytes) \<Rightarrow> bytes option
   \<Rightarrow> ('w tls_client \<Rightarrow> (ResponseCode \<times> 'w tls_client) res) \<Rightarrow> json \<Rightarrow> (bytes \<Rightarrow> bytes option) \<Rightarrow> 'w tls_client
   \<Rightarrow> (ResponseCode \<times> (bytes \<Rightarrow> bytes option) \<times> 'w tls_client) res" where
  "connect_to_core can_write writer cwd attempt discovery_response files c =
     (if GetCurrentPath cwd = [] then Inr (FILE_OPEN_ERROR, files, c)
      else
        let directory = GetCurrentPath cwd @ [47];
            files = snd (WriteToFile writer can_write discovery_response (directory @ str ''discovery_output.json'') files)
        in bind_res (GetParsedResponse discovery_response [] []) (\<lambda>(rc, parsed_response, ca_map).
             let parsed_response = sort_endpoints parsed_response;
                 files = store_ca_map can_write directory ca_map files
             in bind_res (try_endpoints attempt directory ca_map parsed_response rc c) (\<lambda>(rc, c).
                  Inr (rc, files, c))))"

section \<open>Every endpoint has authorities\<close>

definition all_have_cas :: "ConnectivityInfo list \<Rightarrow> CA_map \<Rightarrow> bool" where
  "all_have_cas infos cas \<longleftrightarrow> map_wf cas \<and> (\<forall>i \<in> set infos. map_find cas (ci_group_name i) \<noteq> None)"

lemma all_have_cas_add:
  "all_have_cas infos cas \<Longrightarrow> all_have_cas (infos @ [i]) (map_insert (ci_group_name i) l cas)"
  by (auto simp: all_have_cas_def map_wf_insert map_find_insert split: option.splits)

lemma connectivity_loop_cas:
  "connectivity_loop grp g n infos (rc, eps, cas) = Inr (rc', eps', cas') \<Longrightarrow> all_have_cas eps cas \<Longrightarrow> all_have_cas eps' cas'"
proof (induction infos arbitrary: eps cas)
  case (Cons info infos)
  obtain b where b: "has_members info [ID_KEY, HOST_ADDRESS_KEY, PORT_KEY] = Inr b"
    using Cons.prems(1) by (auto simp: bind_res_Inr_iff)
  show ?case
  proof (cases b)
    case False
    with Cons.prems b show ?thesis by auto
  next
    case True
    with Cons.prems(1) b obtain i l where
      "connectivity_loop grp g n infos (rc, eps @ [i], map_insert g l cas) = Inr (rc', eps', cas')" and "ci_group_name i = g"
      by (auto simp: bind_res_Inr_iff)
    with Cons.IH all_have_cas_add [OF Cons.prems(2), of i l] show ?thesis by blast
  qed
qed simp

lemma core_loop_cas:
  "core_loop grp g cores (rc, eps, cas) = Inr (rc', eps', cas') \<Longrightarrow> all_have_cas eps cas \<Longrightarrow> all_have_cas eps' cas'"
proof (induction cores arbitrary: rc eps cas)
  case (Cons core cores)
  obtain b where b: "has_members core [GGC_THING_ARN_KEY, CONNECTIVITY_INFO_ARRAY_KEY] = Inr b"
    using Cons.prems(1) by (auto simp: bind_res_Inr_iff)
  show ?case
  proof (cases b)
    case False
    with Cons.prems b show ?thesis by auto
  next
    case True
    with Cons.prems(1) b obtain n infos rc1 eps1 cas1 where
      "connectivity_loop grp g n infos (rc, eps, cas) = Inr (rc1, eps1, cas1)"
      "core_loop grp g cores (rc1, eps1, cas1) = Inr (rc', eps', cas')"
      by (auto simp: bind_res_Inr_iff)
    with Cons.IH connectivity_loop_cas Cons.prems(2) show ?thesis by blast
  qed
qed simp

lemma group_loop_cas:
  "group_loop groups (rc, eps, cas) = Inr (rc', eps', cas') \<Longrightarrow> all_have_cas eps cas \<Longrightarrow> all_have_cas eps' cas'"
proof (induction groups arbitrary: rc eps cas)
  case (Cons grp groups)
  obtain b where b: "has_members grp [GROUP_ID_KEY, GGC_ARRAY_KEY, ROOT_CA_KEY] = Inr b"
    using Cons.prems(1) by (auto simp: bind_res_Inr_iff)
  show ?case
  proof (cases b)
    case False
    with Cons.prems b show ?thesis by auto
  next
    case True
    with Cons.prems(1) b obtain g cores rc1 eps1 cas1 where
      c: "core_loop grp g cores (rc, eps, cas) = Inr (rc1, eps1, cas1)" and
      "(if rc1 \<noteq> SUCCESS then Inr (rc1, eps1, cas1) else group_loop groups (rc1, eps1, cas1)) = Inr (rc', eps', cas')"
      by (auto simp: bind_res_Inr_iff)
    with Cons.IH core_loop_cas [OF c Cons.prems(2)] show ?thesis by (auto split: if_splits)
  qed
qed simp

lemma parsed_have_cas: "GetParsedResponse doc [] [] = Inr (rc, eps, cas) \<Longrightarrow> all_have_cas eps cas"
  by (auto simp: GetParsedResponse_def bind_res_Inr_iff all_have_cas_def dest!: group_loop_cas)

text \<open>The response is success or the one for a malformed document.\<close>

definition parse_responses :: "ResponseCode set" where
  "parse_responses = {SUCCESS, DISCOVER_RESPONSE_UNEXPECTED_JSON_STRUCTURE_ERROR}"

lemma malformed_response [simp]: "DISCOVER_RESPONSE_UNEXPECTED_JSON_STRUCTURE_ERROR \<in> parse_responses"
  by (simp add: parse_responses_def)

lemma connectivity_loop_response:
  "connectivity_loop grp g n infos (rc, eps, cas) = Inr (rc', eps', cas') \<Longrightarrow> rc \<in> parse_responses \<Longrightarrow> rc' \<in> parse_responses"
proof (induction infos arbitrary: eps cas)
  case (Cons info infos)
  then show ?case by (auto simp: bind_res_Inr_iff split: if_splits)
qed simp

lemma core_loop_response:
  "core_loop grp g cores (rc, eps, cas) = Inr (rc', eps', cas') \<Longrightarrow> rc \<in> parse_responses \<Longrightarrow> rc' \<in> parse_responses"
proof (induction cores arbitrary: rc eps cas)
  case (Cons core cores)
  then show ?case
    by (auto simp: bind_res_Inr_iff split: if_splits dest: connectivity_loop_response)
qed simp

lemma group_loop_response:
  "group_loop groups (rc, eps, cas) = Inr (rc', eps', cas') \<Longrightarrow> rc \<in> parse_responses \<Longrightarrow> rc' \<in> parse_responses"
proof (induction groups arbitrary: rc eps cas)
  case (Cons grp groups)
  then show ?case
    by (auto simp: bind_res_Inr_iff split: if_splits dest: core_loop_response)
qed simp

lemma parsed_response_code: "GetParsedResponse doc [] [] = Inr (rc, eps, cas) \<Longrightarrow> rc \<noteq> MQTT_CONNACK_CONNECTION_ACCEPTED"
  by (auto simp: GetParsedResponse_def bind_res_Inr_iff parse_responses_def dest!: group_loop_response)

section \<open>Which file is which\<close>

lemma digit_suffix:
  assumes "xs @ [97] @ ds = ys @ [97] @ es" "set ds \<subseteq> {48..57}" "set es \<subseteq> {48..(57::byte)}"
  shows "ds = es \<and> xs = ys"
proof -
  have rest: "takeWhile (\<lambda>b. b \<in> {48..57}) (rev (zs @ [97] @ fs)) = rev fs" if "set fs \<subseteq> {48..(57::byte)}" for zs fs
  proof -
    have "takeWhile (\<lambda>b. b \<in> {48..57}) (rev fs @ (97 # rev zs)) = rev fs @ takeWhile (\<lambda>b. b \<in> {48..57}) (97 # rev zs)"
      using that by (intro takeWhile_append2) auto
    then show ?thesis by simp
  qed
  have "rev ds = rev es" using rest [OF assms(2), of xs] rest [OF assms(3), of ys] unfolding assms(1) by (rule trans [OF sym])
  with assms(1) show ?thesis by simp
qed

lemma ca_path_inj: "ca_path dir g n = ca_path dir h m \<longleftrightarrow> g = h \<and> n = m"
proof
  assume "ca_path dir g n = ca_path dir h m"
  then have "(g @ str ''_root_c'') @ [97] @ nat_digits n = (h @ str ''_root_c'') @ [97] @ nat_digits m"
    by (simp add: ca_path_def str_def)
  from digit_suffix [OF this] nat_digits_range have "nat_digits n = nat_digits m" "g = h" by fastforce+
  then show "g = h \<and> n = m" using nat_digits_inj by blast
qed simp

lemma store_cas_elsewhere:
  "q \<notin> ca_path dir g ` {n..<n + length cas} \<Longrightarrow> store_cas cw dir g n cas fl q = fl q"
proof (induction cas arbitrary: n fl)
  case (Cons ca cas)
  have "q \<noteq> ca_path dir g n" and "q \<notin> ca_path dir g ` {n + 1..<n + 1 + length cas}"
    using Cons.prems by auto
  with Cons.IH show ?case by simp
qed simp

lemma store_cas_at:
  "k < length cas \<Longrightarrow> cw (ca_path dir g (n + k)) \<Longrightarrow> store_cas cw dir g n cas fl (ca_path dir g (n + k)) = Some (cas ! k)"
proof (induction cas arbitrary: n k fl)
  case (Cons ca cas)
  show ?case
  proof (cases k)
    case 0
    have "ca_path dir g n \<notin> ca_path dir g ` {n + 1..<n + 1 + length cas}" by (auto simp: ca_path_inj)
    with 0 Cons.prems show ?thesis by (simp add: store_cas_elsewhere)
  next
    case (Suc j)
    with Cons.IH [of j "n + 1"] Cons.prems show ?thesis by simp
  qed
qed simp

lemma store_ca_map_elsewhere:
  "\<forall>n. \<forall>g \<in> fst ` set m. q \<noteq> ca_path dir g n \<Longrightarrow> store_ca_map cw dir m fl q = fl q"
proof (induction m arbitrary: fl)
  case (Cons e m)
  then show ?case by (cases e) (auto simp: store_cas_elsewhere image_iff)
qed simp

lemma store_ca_map_at:
  "distinct (map fst m) \<Longrightarrow> (g, cas) \<in> set m \<Longrightarrow> k < length cas \<Longrightarrow> cw (ca_path dir g (Suc k)) \<Longrightarrow>
   store_ca_map cw dir m fl (ca_path dir g (Suc k)) = Some (cas ! k)"
proof (induction m arbitrary: fl)
  case (Cons e m)
  obtain h l where e: "e = (h, l)" by force
  show ?case
  proof (cases "(g, cas) \<in> set m")
    case True
    with Cons e show ?thesis by simp
  next
    case False
    with Cons.prems e have "h = g" "l = cas" "g \<notin> fst ` set m" by auto
    with e Cons.prems show ?thesis
      using store_cas_at [of k cas cw dir g 1] store_ca_map_elsewhere [of m "ca_path dir g (Suc k)" dir]
      by (fastforce simp: ca_path_inj)
  qed
qed simp

section \<open>A connection is found\<close>

definition tls_target :: "'w tls_client \<Rightarrow> bytes \<times> u16 \<times> bytes" where
  "tls_target c = (let t = ccs_net (core_client_state c) in (oc_endpoint t, oc_endpoint_port t, oc_root_ca_location t))"

lemma tls_target_set [simp]:
  "tls_target (set_endpoint h p c) = (h, p, snd (snd (tls_target c)))"
  "tls_target (set_authority ca c) = (fst (tls_target c), fst (snd (tls_target c)), ca)"
  by (simp_all add: tls_target_def set_endpoint_def set_authority_def on_state_def SetEndpointAndPort_def SetRootCAPath_def Let_def)

text \<open>An attempt returns and leaves the endpoint and the authority of the connection as they were set.\<close>

definition keeps_target :: "('w tls_client \<Rightarrow> (ResponseCode \<times> 'w tls_client) res) \<Rightarrow> bool" where
  "keeps_target attempt \<longleftrightarrow> (\<forall>c. \<exists>rc c'. attempt c = Inr (rc, c') \<and> tls_target c' = tls_target c)"

definition accepts :: "('w tls_client \<Rightarrow> (ResponseCode \<times> 'w tls_client) res) \<Rightarrow> bytes \<Rightarrow> u16 \<Rightarrow> bytes \<Rightarrow> bool" where
  "accepts attempt host port ca \<longleftrightarrow>
     (\<forall>c. tls_target c = (host, port, ca) \<longrightarrow> (\<exists>c'. attempt c = Inr (MQTT_CONNACK_CONNECTION_ACCEPTED, c')))"

lemma try_authorities_result:
  assumes "keeps_target attempt" "tls_target c = (h, p, ca0)"
  shows "\<exists>rc' c' ca. try_authorities attempt dir g n cas rc c = Inr (rc', c') \<and> tls_target c' = (h, p, ca) \<and>
    (rc' = MQTT_CONNACK_CONNECTION_ACCEPTED \<and> rc \<noteq> MQTT_CONNACK_CONNECTION_ACCEPTED \<longrightarrow>
       (\<exists>k < length cas. ca = ca_path dir g (n + k))) \<and>
    ((\<exists>k < length cas. accepts attempt h p (ca_path dir g (n + k))) \<longrightarrow> rc' = MQTT_CONNACK_CONNECTION_ACCEPTED)"
  using assms(2)
proof (induction cas arbitrary: n rc c ca0)
  case (Cons cert cas)
  obtain rc1 c1 where a: "attempt (set_authority (ca_path dir g n) c) = Inr (rc1, c1)" and
    t: "tls_target c1 = (h, p, ca_path dir g n)"
    using assms(1) Cons.prems unfolding keeps_target_def by (metis tls_target_set(2) fst_conv snd_conv)
  show ?case
  proof (cases "rc1 = MQTT_CONNACK_CONNECTION_ACCEPTED")
    case True
    with a t show ?thesis by (auto intro: exI [of _ 0])
  next
    case False
    have "\<not> accepts attempt h p (ca_path dir g n)" using a False Cons.prems
      by (auto simp: accepts_def intro!: exI [of _ "set_authority (ca_path dir g n) c"])
    then have later: "(\<exists>k < length (cert # cas). accepts attempt h p (ca_path dir g (n + k))) \<longleftrightarrow>
        (\<exists>k < length cas. accepts attempt h p (ca_path dir g (n + 1 + k)))"
      by (auto simp: less_Suc_eq_0_disj)
    obtain rc' c' ca where r: "try_authorities attempt dir g (n + 1) cas rc1 c1 = Inr (rc', c')" "tls_target c' = (h, p, ca)"
      "rc' = MQTT_CONNACK_CONNECTION_ACCEPTED \<longrightarrow> (\<exists>k < length cas. ca = ca_path dir g (n + 1 + k))"
      "(\<exists>k < length cas. accepts attempt h p (ca_path dir g (n + 1 + k))) \<longrightarrow> rc' = MQTT_CONNACK_CONNECTION_ACCEPTED"
      using Cons.IH [OF t, of "n + 1" rc1] False by blast
    have "rc' = MQTT_CONNACK_CONNECTION_ACCEPTED \<longrightarrow> (\<exists>k < length (cert # cas). ca = ca_path dir g (n + k))"
      using r(3) by force
    with r a False later show ?thesis by auto
  qed
qed simp

text \<open>The certificate of a group that the connection trusts.\<close>

definition trusted_by :: "bytes \<Rightarrow> ConnectivityInfo list \<Rightarrow> CA_map \<Rightarrow> bytes \<times> u16 \<times> bytes \<Rightarrow> bool" where
  "trusted_by dir infos ca_map target \<longleftrightarrow>
     (\<exists>i \<in> set infos. \<exists>cas k. map_find ca_map (ci_group_name i) = Some cas \<and> k < length cas \<and>
        target = (ci_host_address i, ci_port i, ca_path dir (ci_group_name i) (Suc k)))"

definition reachable_core ::
  "('w tls_client \<Rightarrow> (ResponseCode \<times> 'w tls_client) res) \<Rightarrow> bytes \<Rightarrow> ConnectivityInfo list \<Rightarrow> CA_map \<Rightarrow> bool" where
  "reachable_core attempt dir infos ca_map \<longleftrightarrow>
     (\<exists>i \<in> set infos. \<exists>cas k. map_find ca_map (ci_group_name i) = Some cas \<and> k < length cas \<and>
        accepts attempt (ci_host_address i) (ci_port i) (ca_path dir (ci_group_name i) (Suc k)))"

lemma try_endpoints_result:
  assumes "keeps_target attempt" "\<forall>i \<in> set infos. map_find ca_map (ci_group_name i) \<noteq> None"
    and "rc \<noteq> MQTT_CONNACK_CONNECTION_ACCEPTED"
  shows "\<exists>rc' c'. try_endpoints attempt dir ca_map infos rc c = Inr (rc', c') \<and>
    (rc' = MQTT_CONNACK_CONNECTION_ACCEPTED \<longrightarrow> trusted_by dir infos ca_map (tls_target c')) \<and>
    (reachable_core attempt dir infos ca_map \<longrightarrow> rc' = MQTT_CONNACK_CONNECTION_ACCEPTED)"
  using assms(2,3)
proof (induction infos arbitrary: rc c)
  case (Cons i infos)
  let ?g = "ci_group_name i" and ?c = "set_endpoint (ci_host_address i) (ci_port i) c"
  obtain cas where cas: "map_find ca_map ?g = Some cas" using Cons.prems(1) by auto
  obtain rc1 c1 ca where r: "try_authorities attempt dir ?g 1 cas rc ?c = Inr (rc1, c1)"
    "tls_target c1 = (ci_host_address i, ci_port i, ca)"
    "rc1 = MQTT_CONNACK_CONNECTION_ACCEPTED \<longrightarrow> (\<exists>k < length cas. ca = ca_path dir ?g (1 + k))"
    "(\<exists>k < length cas. accepts attempt (ci_host_address i) (ci_port i) (ca_path dir ?g (1 + k))) \<longrightarrow>
       rc1 = MQTT_CONNACK_CONNECTION_ACCEPTED"
    using try_authorities_result [OF assms(1), of ?c _ _ _ dir ?g 1 cas rc] Cons.prems(2) by auto
  show ?case
  proof (cases "rc1 = MQTT_CONNACK_CONNECTION_ACCEPTED")
    case True
    then have "trusted_by dir (i # infos) ca_map (tls_target c1)" using r(2,3) cas by (auto simp: trusted_by_def)
    with True r(1) cas show ?thesis by (simp add: Let_def)
  next
    case False
    then have "reachable_core attempt dir (i # infos) ca_map \<Longrightarrow> reachable_core attempt dir infos ca_map"
      using r(4) cas by (auto simp: reachable_core_def)
    moreover have "trusted_by dir infos ca_map t \<Longrightarrow> trusted_by dir (i # infos) ca_map t" for t
      by (auto simp: trusted_by_def)
    moreover obtain rc' c' where e: "try_endpoints attempt dir ca_map infos rc1 c1 = Inr (rc', c')"
      and IH: "rc' = MQTT_CONNACK_CONNECTION_ACCEPTED \<longrightarrow> trusted_by dir infos ca_map (tls_target c')"
        "reachable_core attempt dir infos ca_map \<longrightarrow> rc' = MQTT_CONNACK_CONNECTION_ACCEPTED"
      using Cons.IH [of rc1 c1] Cons.prems(1) False by auto
    have "try_endpoints attempt dir ca_map (i # infos) rc c = Inr (rc', c')" using False r(1) cas e by (simp add: Let_def)
    ultimately show ?thesis using IH by blast
  qed
qed (simp add: reachable_core_def)

text \<open>The code's call: the attempt is \<open>Connect\<close> with the configuration.\<close>

definition connect_to_discovered_core ::
  "(action_data option \<Rightarrow> 'w OpenSSLConnection client \<Rightarrow>
     (ResponseCode \<times> action_data option \<times> 'w OpenSSLConnection client) res)
   \<Rightarrow> ('w OpenSSLConnection client \<Rightarrow> 'w OpenSSLConnection client) \<Rightarrow> ('w OpenSSLConnection client \<Rightarrow> 'w OpenSSLConnection client)
   \<Rightarrow> bytes \<Rightarrow> ConfigCommon \<Rightarrow> (bytes \<Rightarrow> bool) \<Rightarrow> (json \<Rightarrow> bytes) \<Rightarrow> bytes option \<Rightarrow> json \<Rightarrow> (bytes \<Rightarrow> bytes option)
   \<Rightarrow> 'w tls_client \<Rightarrow> (ResponseCode \<times> (bytes \<Rightarrow> bytes option) \<times> 'w tls_client) res" where
  "connect_to_discovered_core runner wait others sdk_version cfg can_write writer cwd =
     connect_to_core can_write writer cwd (connect_configured runner wait others sdk_version cfg)"

text \<open>The files written for the authorities hold them.\<close>

definition authorities_stored :: "bytes \<Rightarrow> CA_map \<Rightarrow> (bytes \<Rightarrow> bytes option) \<Rightarrow> bool" where
  "authorities_stored dir ca_map files \<longleftrightarrow>
     (\<forall>g cas k. map_find ca_map g = Some cas \<and> k < length cas \<longrightarrow> files (ca_path dir g (Suc k)) = Some (cas ! k))"

lemma store_ca_map_stored:
  assumes "map_wf m" "\<forall>path. cw path"
  shows "authorities_stored dir m (store_ca_map cw dir m fl)"
proof -
  have "distinct (map fst m)" using assms(1) by (simp add: map_wf_def strict_sorted_iff)
  then show ?thesis
    using store_ca_map_at [of m _ _ _ cw dir fl] assms map_find_in_set
    by (fastforce simp: authorities_stored_def)
qed


text \<open>without an endpoint in the response nothing is tried and the response of the parsing is what comes back: a device
  that found no core reports success.\<close>

theorem no_core_is_success:
  assumes "p \<noteq> []" "GetParsedResponse doc [] [] = Inr (SUCCESS, [], [])"
  shows "\<exists>files'. connect_to_core can_write writer (Some p) attempt doc files c = Inr (SUCCESS, files', c)"
  using assms by (simp add: connect_to_core_def GetCurrentPath_def Let_def sort_endpoints_def)

section \<open>At a concrete response\<close>

text \<open>The response of \<open>Discovery\<close> with two endpoints; only the second accepts.\<close>

definition second_accepts :: "'w tls_client \<Rightarrow> (ResponseCode \<times> 'w tls_client) res" where
  "second_accepts c =
     Inr (if fst (snd (tls_target c)) = 8443 then MQTT_CONNACK_CONNECTION_ACCEPTED else NETWORK_TCP_CONNECT_ERROR, c)"


theorem no_core_is_success_witness:
  "\<forall>c :: nat tls_client. \<exists>files'. connect_to_core (\<lambda>_. True) (\<lambda>_. []) (Some [47]) second_accepts (response_json []) (\<lambda>_. None) c =
     Inr (SUCCESS, files', c)"
  by (intro allI no_core_is_success)
    (simp_all add: GetParsedResponse_def response_json_def get_member_def find_member_def get_array_def)

end
