(* ===== verification/JobsAgent.thy ===== *)
theory JobsAgent
  imports Jobs Shadow Config
begin

text \<open>
  The jobs agent (\<^verbatim>\<open>samples/JobsAgent/JobsAgentOperations.cpp\<close>, \<^verbatim>\<open>JobsAgent.cpp\<close>): a program on top of the jobs service that
  installs, starts, stops and removes packages, reports the state of the system and shuts it down.

  The agent is the record of its members with the client its jobs object publishes through. Files are a map from paths
  to contents: different paths are different files, and a file that can be opened for writing is emptied by that. The
  process table, the shell, the download library and the identification of the system are arguments over a state \<open>'w\<close>.
  The map of status details is the ordered map of the library. What is only logged or printed is left out.
\<close>

section \<open>The platform and the agent\<close>

text \<open>
  What a forked child does: it changes the directory, if there is one, and becomes the program; or it violates an
  assertion of the JSON library, which ends the child only.
\<close>

datatype child = Child_program "bytes option" bytes | Child_abort

record 'w agent_platform =
  ap_can_write :: "bytes \<Rightarrow> bool"
  ap_writer :: "json \<Rightarrow> bytes"
  ap_parse :: "bytes \<Rightarrow> json option"
  ap_cwd :: "bytes option"
  ap_machine :: bytes
  ap_sysname :: bytes
  ap_system :: "bytes \<Rightarrow> 'w \<Rightarrow> int \<times> 'w"
  ap_curl_init :: "'w \<Rightarrow> bool \<times> 'w"
  ap_download :: "bytes \<Rightarrow> 'w \<Rightarrow> (int \<times> bytes) \<times> 'w"
  ap_curl_strerror :: "int \<Rightarrow> bytes"
  ap_fork :: "child \<Rightarrow> 'w \<Rightarrow> int \<times> 'w"
  ap_alive :: "int \<Rightarrow> 'w \<Rightarrow> bool"
  ap_terminate :: "int \<Rightarrow> 'w \<Rightarrow> bool \<times> 'w"
  ap_waitpid :: "int \<Rightarrow> 'w \<Rightarrow> 'w"

type_synonym files = "bytes \<Rightarrow> bytes option"

type_synonym details = "(bytes \<times> bytes) list"

record ('n, 'w) JobsAgent =
  ja_client :: "'n MqttClient"
  ja_jobs :: Jobs
  ja_process_title :: bytes
  ja_installed_packages_filename :: bytes
  ja_installed_packages :: json
  ja_package_runtimes :: "(bytes \<times> int) list"
  ja_files :: files
  ja_world :: 'w

text \<open>\<open>statusDetailsMap[key] = value\<close>.\<close>

definition set_detail :: "string \<Rightarrow> bytes \<Rightarrow> details \<Rightarrow> details" where
  "set_detail key v m = map_insert (str key) v (map_erase (str key) m)"

definition set_error :: "string \<Rightarrow> string \<Rightarrow> details \<Rightarrow> details" where
  "set_error code message m = set_detail ''errorMessage'' (str message) (set_detail ''errorCode'' (str code) m)"

definition send_update ::
  "bytes \<Rightarrow> JobExecutionStatus \<Rightarrow> details \<Rightarrow> bool \<Rightarrow> bool \<Rightarrow> ('n, 'w) JobsAgent \<Rightarrow> (ResponseCode \<times> ('n, 'w) JobsAgent) res" where
  "send_update jobId status m includeState includeDocument a =
     bind_res (SendJobsUpdate (ja_jobs a) jobId status m 0 0 includeState includeDocument (ja_client a)) (\<lambda>(rc, c).
       Inr (rc, a\<lparr>ja_client := c\<rparr>))"

section \<open>Shutting down\<close>

definition GetShutdownSystemCommand :: "bool \<Rightarrow> bool \<Rightarrow> bytes" where
  "GetShutdownSystemCommand dryRun reboot =
     str ''sudo /sbin/shutdown ''
     @ (if dryRun \<or> reboot
        then str ''-'' @ (if reboot then str ''r'' else []) @ (if dryRun then str ''k'' else []) @ str '' '' else [])
     @ str ''+0''"

definition run_command :: "'w agent_platform \<Rightarrow> bytes \<Rightarrow> ('n, 'w) JobsAgent \<Rightarrow> int \<times> ('n, 'w) JobsAgent" where
  "run_command P command a = (case ap_system P command (ja_world a) of (r, w) \<Rightarrow> (r, a\<lparr>ja_world := w\<rparr>))"

definition ShutdownHandler ::
  "'w agent_platform \<Rightarrow> bytes \<Rightarrow> bytes \<Rightarrow> bool \<Rightarrow> ('n, 'w) JobsAgent \<Rightarrow> (ResponseCode \<times> ('n, 'w) JobsAgent) res" where
  "ShutdownHandler P jobId step reboot a =
     (let m = set_detail ''operation'' (str (if reboot then ''reboot'' else ''shutdown'')) [] in
      if step = [] then
        let systemCommand = GetShutdownSystemCommand True reboot in
        case run_command P systemCommand a of
          (systemRC, a) \<Rightarrow>
            if systemRC \<noteq> 0 then
              let errorMessage = str ''System command ('' @ systemCommand @ str '') returned error code: '' @ int_digits systemRC
              in send_update jobId JOB_EXECUTION_FAILED
                   (set_detail ''error'' errorMessage
                      (set_error ''ERR_SYSTEM_CALL_FAILED''
                         ''unable to execute shutdown, check passwordless sudo permissions on agent'' m)) True False a
            else
              send_update jobId (if reboot then JOB_EXECUTION_IN_PROGRESS else JOB_EXECUTION_SUCCEEDED)
                (set_detail ''step'' (str ''initiated'') m) True True a
      else if reboot \<and> step = str ''initiated'' then
        send_update jobId JOB_EXECUTION_SUCCEEDED (set_detail ''step'' (str ''completed'') m) False False a
      else Inr (SUCCESS, a))"

section \<open>Packages\<close>

text \<open>The string of a JSON value, if it is one.\<close>

definition text_member_of :: "json \<Rightarrow> string \<Rightarrow> bytes option res" where
  "text_member_of j key =
     bind_res (HasMember j (str key)) (\<lambda>b.
       if b then bind_res (get_member j (str key)) (\<lambda>v. Inr (as_c_string v)) else Inr None)"

definition PackageIsExecutable :: "bytes \<Rightarrow> ('n, 'w) JobsAgent \<Rightarrow> bool res" where
  "PackageIsExecutable packageName a =
     bind_res (HasMember (ja_installed_packages a) packageName) (\<lambda>b.
       if b then bind_res (get_member (ja_installed_packages a) packageName) (\<lambda>p. HasMember p (str ''launchCommand''))
       else Inr False)"

definition PackageIsRunning :: "'w agent_platform \<Rightarrow> bytes \<Rightarrow> ('n, 'w) JobsAgent \<Rightarrow> bool" where
  "PackageIsRunning P packageName a =
     (case map_find (ja_package_runtimes a) packageName of
        None \<Rightarrow> False
      | Some pid \<Rightarrow> 0 < pid \<and> ap_alive P pid (ja_world a))"

definition PackageIsAutoStart :: "bytes \<Rightarrow> ('n, 'w) JobsAgent \<Rightarrow> bool res" where
  "PackageIsAutoStart packageName a =
     bind_res (PackageIsExecutable packageName a) (\<lambda>b.
       if \<not> b then Inr False
       else bind_res (get_member (ja_installed_packages a) packageName) (\<lambda>p.
            bind_res (HasMember p (str ''autoStart'')) (\<lambda>b.
              if \<not> b then Inr False
              else bind_res (get_member p (str ''autoStart'')) (\<lambda>v. Inr (v = JBool True)))))"

text \<open>What the child of \<open>StartPackage\<close> does; the package is there and has a launch command.\<close>

definition start_child :: "json \<Rightarrow> child" where
  "start_child p =
     (case map_of (members p) (str ''launchCommand'') of
        Some v \<Rightarrow> (case as_c_string v of
          Some command \<Rightarrow> Child_program (case map_of (members p) (str ''workingDirectory'') of Some d \<Rightarrow> as_c_string d | None \<Rightarrow> None)
            (str ''exec '' @ command)
        | None \<Rightarrow> Child_abort)
      | None \<Rightarrow> Child_abort)"

definition StartPackage ::
  "'w agent_platform \<Rightarrow> details \<Rightarrow> bytes \<Rightarrow> ('n, 'w) JobsAgent \<Rightarrow> (ResponseCode \<times> details \<times> ('n, 'w) JobsAgent) res" where
  "StartPackage P m packageName a =
     (let m = set_detail ''step'' (str ''start package'') m in
      bind_res (PackageIsExecutable packageName a) (\<lambda>executable.
        if executable \<and> \<not> PackageIsRunning P packageName a then
          bind_res (get_member (ja_installed_packages a) packageName) (\<lambda>p.
            case ap_fork P (start_child p) (ja_world a) of
              (pid, w) \<Rightarrow>
                let a = a\<lparr>ja_world := w\<rparr> in
                if pid = -1 then Inr (FAILURE, set_error ''ERR_UNABLE_TO_START_PACKAGE'' ''error in call to fork'' m, a)
                else Inr (SUCCESS, m,
                       a\<lparr>ja_package_runtimes := map_insert packageName pid (map_erase packageName (ja_package_runtimes a))\<rparr>))
        else
          Inr (FAILURE, set_error ''ERR_UNABLE_TO_START_PACKAGE''
                 (if \<not> executable then ''package is not executable'' else ''package already running'') m, a)))"

definition StopPackage ::
  "'w agent_platform \<Rightarrow> details \<Rightarrow> bytes \<Rightarrow> ('n, 'w) JobsAgent \<Rightarrow> ResponseCode \<times> details \<times> ('n, 'w) JobsAgent" where
  "StopPackage P m packageName a =
     (let m = set_detail ''step'' (str ''stop package'') m in
      if PackageIsRunning P packageName a then
        (case map_find (ja_package_runtimes a) packageName of
           None \<Rightarrow> (FAILURE, m, a)
         | Some pid \<Rightarrow>
             (case ap_terminate P pid (ja_world a) of
                (ok, w) \<Rightarrow>
                  if ok then (SUCCESS, m, a\<lparr>ja_world := ap_waitpid P pid w\<rparr>)
                  else (FAILURE, set_error ''ERR_UNABLE_TO_STOP_PACKAGE'' ''error in call to kill'' m, a\<lparr>ja_world := w\<rparr>)))
      else (FAILURE, set_error ''ERR_UNABLE_TO_STOP_PACKAGE'' ''package is not running'' m, a))"

text \<open>The report of a handler: the step is completed, or the job has failed.\<close>

definition send_outcome ::
  "bytes \<Rightarrow> ResponseCode \<Rightarrow> details \<Rightarrow> ('n, 'w) JobsAgent \<Rightarrow> (ResponseCode \<times> ('n, 'w) JobsAgent) res" where
  "send_outcome jobId rc m a =
     (if rc = SUCCESS then send_update jobId JOB_EXECUTION_SUCCEEDED (set_detail ''step'' (str ''completed'') m) False False a
      else send_update jobId JOB_EXECUTION_FAILED m False False a)"

definition StartPackageHandler ::
  "'w agent_platform \<Rightarrow> bytes \<Rightarrow> bytes \<Rightarrow> ('n, 'w) JobsAgent \<Rightarrow> (ResponseCode \<times> ('n, 'w) JobsAgent) res" where
  "StartPackageHandler P jobId packageName a =
     bind_res (StartPackage P (set_detail ''operation'' (str ''start'') []) packageName a) (\<lambda>(rc, m, a).
       send_outcome jobId rc m a)"

definition StopPackageHandler ::
  "'w agent_platform \<Rightarrow> bytes \<Rightarrow> bytes \<Rightarrow> ('n, 'w) JobsAgent \<Rightarrow> (ResponseCode \<times> ('n, 'w) JobsAgent) res" where
  "StopPackageHandler P jobId packageName a =
     (case StopPackage P (set_detail ''operation'' (str ''stop'') []) packageName a of
        (rc, m, a) \<Rightarrow> send_outcome jobId rc m a)"

definition RestartPackageHandler ::
  "'w agent_platform \<Rightarrow> bytes \<Rightarrow> bytes \<Rightarrow> ('n, 'w) JobsAgent \<Rightarrow> (ResponseCode \<times> ('n, 'w) JobsAgent) res" where
  "RestartPackageHandler P jobId packageName a =
     (let m = set_detail ''operation'' (str ''restart'') [] in
      case (if PackageIsRunning P packageName a then StopPackage P m packageName a else (SUCCESS, m, a)) of
        (rc, m, a) \<Rightarrow>
          if rc \<noteq> SUCCESS then send_update jobId JOB_EXECUTION_FAILED m False False a
          else bind_res (StartPackage P m packageName a) (\<lambda>(rc, m, a). send_outcome jobId rc m a))"

text \<open>
  \<open>RemoveMember\<close> of the library moves the last member to the place of the removed one.
\<close>

definition remove_member :: "bytes \<Rightarrow> (bytes \<times> json) list \<Rightarrow> (bytes \<times> json) list" where
  "remove_member key ms =
     (let before = takeWhile (\<lambda>m. fst m \<noteq> key) ms in
      case drop (length before) ms of
        [] \<Rightarrow> ms
      | m # rest \<Rightarrow> if rest = [] then before else before @ last rest # butlast rest)"

definition write_packages :: "'w agent_platform \<Rightarrow> ('n, 'w) JobsAgent \<Rightarrow> ResponseCode \<times> ('n, 'w) JobsAgent" where
  "write_packages P a =
     (case WriteToFile (ap_writer P) (ap_can_write P) (ja_installed_packages a) (ja_installed_packages_filename a) (ja_files a) of
        (rc, fs) \<Rightarrow> (rc, a\<lparr>ja_files := fs\<rparr>))"

definition UpdateInstalledPackage ::
  "'w agent_platform \<Rightarrow> json \<Rightarrow> ('n, 'w) JobsAgent \<Rightarrow> (ResponseCode \<times> ('n, 'w) JobsAgent) res" where
  "UpdateInstalledPackage P packageJobDocument a =
     bind_res (text_member_of packageJobDocument ''packageName'') (\<lambda>n.
     case n of
       None \<Rightarrow> Inl AssertionFailed
     | Some packageName \<Rightarrow>
         if \<not> is_object (ja_installed_packages a) then Inl AssertionFailed
         else Inr (write_packages P (a\<lparr>ja_installed_packages :=
                JObject (remove_member packageName (members (ja_installed_packages a)) @ [(packageName, packageJobDocument)])\<rparr>)))"

definition UninstallPackageHandler ::
  "'w agent_platform \<Rightarrow> bytes \<Rightarrow> bytes \<Rightarrow> ('n, 'w) JobsAgent \<Rightarrow> (ResponseCode \<times> ('n, 'w) JobsAgent) res" where
  "UninstallPackageHandler P jobId packageName a =
     (let m = set_detail ''operation'' (str ''uninstall'') [] in
      bind_res (HasMember (ja_installed_packages a) packageName) (\<lambda>b.
        if \<not> b then
          send_update jobId JOB_EXECUTION_FAILED
            (set_detail ''errorMessage'' (str ''no package found with name '' @ packageName)
               (set_detail ''errorCode'' (str ''ERR_INVALID_PACKAGE_NAME'') m)) False False a
        else
          case (if PackageIsRunning P packageName a then StopPackage P m packageName a else (SUCCESS, m, a)) of
            (rc, m, a) \<Rightarrow>
              if rc \<noteq> SUCCESS then send_update jobId JOB_EXECUTION_FAILED m False False a
              else
                case write_packages P (a\<lparr>ja_installed_packages :=
                       JObject (remove_member packageName (members (ja_installed_packages a)))\<rparr>) of
                  (rc, a) \<Rightarrow>
                    if rc \<noteq> SUCCESS
                    then send_update jobId JOB_EXECUTION_FAILED (set_error ''ERR_FILE_COPY_FAILED'' ''uninstall package failed'' m)
                           False False a
                    else send_update jobId JOB_EXECUTION_SUCCEEDED m False False a))"

section \<open>The state of the system\<close>

text \<open>The two lists of packages: commas go between the installed packages, but not between the running ones.\<close>

fun status_packages ::
  "'w agent_platform \<Rightarrow> ('n, 'w) JobsAgent \<Rightarrow> bool \<Rightarrow> (bytes \<times> json) list \<Rightarrow> bytes \<times> bytes" where
  "status_packages P a firstPackage [] = ([], [])"
| "status_packages P a firstPackage ((name, v) # ms) =
     (if \<not> is_object v then status_packages P a firstPackage ms
      else
        let packageName = takeWhile (\<lambda>b. b \<noteq> 0) name in
        case status_packages P a False ms of
          (installed, running) \<Rightarrow>
            ((if firstPackage then [] else [44]) @ [34] @ packageName @ [34] @ installed,
             (if PackageIsRunning P packageName a then [34] @ packageName @ [34] else []) @ running))"

definition SystemStatusHandler ::
  "'w agent_platform \<Rightarrow> bytes \<Rightarrow> ('n, 'w) JobsAgent \<Rightarrow> (ResponseCode \<times> ('n, 'w) JobsAgent) res" where
  "SystemStatusHandler P jobId a =
     (if \<not> is_object (ja_installed_packages a) then Inl AssertionFailed
      else
        case status_packages P a True (members (ja_installed_packages a)) of
          (installed, running) \<Rightarrow>
            send_update jobId JOB_EXECUTION_SUCCEEDED
              (set_detail ''title'' (ja_process_title a) (set_detail ''platform'' (ap_sysname P)
                (set_detail ''cwd'' (GetCurrentPath (ap_cwd P)) (set_detail ''arch'' (ap_machine P)
                  (set_detail ''runningPackages'' ([91] @ running @ [93])
                    (set_detail ''installedPackages'' ([91] @ installed @ [93])
                      (set_detail ''operation'' (str ''systemStatus'') [])))))))
              False False a)"

section \<open>Installing\<close>

definition GetFullPath :: "bytes \<Rightarrow> bytes \<Rightarrow> bytes" where
  "GetFullPath workingDirectory fileName =
     (if workingDirectory \<noteq> [] \<and> last workingDirectory \<noteq> 47 then workingDirectory @ [47] @ fileName
      else workingDirectory @ fileName)"

definition old :: "bytes \<Rightarrow> bytes" where
  "old path = path @ str ''.old''"

text \<open>The loop over the files of a job; an element without a name is passed over.\<close>

fun BackupFiles_loop :: "(bytes \<Rightarrow> bool) \<Rightarrow> bytes \<Rightarrow> json list \<Rightarrow> details \<Rightarrow> files \<Rightarrow> (ResponseCode \<times> details \<times> files) res" where
  "BackupFiles_loop can_write dir [] m fs = Inr (SUCCESS, m, fs)"
| "BackupFiles_loop can_write dir (f # rest) m fs =
     bind_res (text_member_of f ''fileName'') (\<lambda>n.
       case n of
         None \<Rightarrow> BackupFiles_loop can_write dir rest m fs
       | Some name \<Rightarrow>
           let fileNameWithPath = GetFullPath dir name in
           case fs fileNameWithPath of
             None \<Rightarrow> BackupFiles_loop can_write dir rest m fs
           | Some content \<Rightarrow>
               if \<not> can_write (old fileNameWithPath) then
                 Inr (FAILURE, set_detail ''fileName'' fileNameWithPath
                                 (set_error ''ERR_FILE_COPY_FAILED'' ''unable to backup file'' m), fs)
               else BackupFiles_loop can_write dir rest m (fs(old fileNameWithPath \<mapsto> content)))"

definition BackupFiles ::
  "'w agent_platform \<Rightarrow> details \<Rightarrow> bytes \<Rightarrow> json list \<Rightarrow> ('n, 'w) JobsAgent \<Rightarrow> (ResponseCode \<times> details \<times> ('n, 'w) JobsAgent) res" where
  "BackupFiles P m workingDirectory fs a =
     bind_res (BackupFiles_loop (ap_can_write P) workingDirectory fs (set_detail ''step'' (str ''backup files'') m) (ja_files a))
       (\<lambda>(rc, m, files). Inr (rc, m, a\<lparr>ja_files := files\<rparr>))"

fun RollbackFiles_loop ::
  "(bytes \<Rightarrow> bool) \<Rightarrow> bytes \<Rightarrow> json list \<Rightarrow> ResponseCode \<Rightarrow> details \<Rightarrow> files \<Rightarrow> (ResponseCode \<times> details \<times> files) res" where
  "RollbackFiles_loop can_write dir [] rc m fs = Inr (rc, m, fs)"
| "RollbackFiles_loop can_write dir (f # rest) rc m fs =
     bind_res (text_member_of f ''fileName'') (\<lambda>n.
       case n of
         None \<Rightarrow> RollbackFiles_loop can_write dir rest rc m fs
       | Some name \<Rightarrow>
           let fileNameWithPath = GetFullPath dir name in
           case fs (old fileNameWithPath) of
             None \<Rightarrow> RollbackFiles_loop can_write dir rest rc m fs
           | Some content \<Rightarrow>
               if \<not> can_write fileNameWithPath then
                 RollbackFiles_loop can_write dir rest FAILURE
                   (set_detail ''rollbackError'' (str ''not all files were successfully rolled back'') m) fs
               else RollbackFiles_loop can_write dir rest rc m (fs(fileNameWithPath \<mapsto> content)))"

definition RollbackFiles ::
  "'w agent_platform \<Rightarrow> details \<Rightarrow> bytes \<Rightarrow> json list \<Rightarrow> ('n, 'w) JobsAgent \<Rightarrow> (ResponseCode \<times> details \<times> ('n, 'w) JobsAgent) res" where
  "RollbackFiles P m workingDirectory fs a =
     bind_res (RollbackFiles_loop (ap_can_write P) workingDirectory fs SUCCESS
         (set_detail ''step'' (str ''rollback files'') m) (ja_files a))
       (\<lambda>(rc, m, files). Inr (rc, m, a\<lparr>ja_files := files\<rparr>))"

text \<open>The name of a file and the address it comes from, if it has both.\<close>

definition download_of :: "json \<Rightarrow> (bytes \<times> bytes) option res" where
  "download_of f =
     bind_res (text_member_of f ''fileName'') (\<lambda>n.
       case n of
         None \<Rightarrow> Inr None
       | Some name \<Rightarrow>
           bind_res (HasMember f (str ''fileSource'')) (\<lambda>b.
             if \<not> b then Inr None
             else bind_res (get_member f (str ''fileSource'')) (\<lambda>source.
                  bind_res (text_member_of source ''url'') (\<lambda>u. Inr (map_option (Pair name) u)))))"

text \<open>A download that fails goes back to the copies of all files; what the rollback returns is not looked at.\<close>

definition rolled_back ::
  "'w agent_platform \<Rightarrow> details \<Rightarrow> bytes \<Rightarrow> json list \<Rightarrow> ('n, 'w) JobsAgent \<Rightarrow> (ResponseCode \<times> details \<times> ('n, 'w) JobsAgent) res" where
  "rolled_back P m workingDirectory fs a =
     bind_res (RollbackFiles P m workingDirectory fs a) (\<lambda>(rc, m, a). Inr (FAILURE, m, a))"

fun DownloadFiles_loop ::
  "'w agent_platform \<Rightarrow> bytes \<Rightarrow> json list \<Rightarrow> json list \<Rightarrow> details \<Rightarrow> ('n, 'w) JobsAgent
   \<Rightarrow> (ResponseCode \<times> details \<times> ('n, 'w) JobsAgent) res" where
  "DownloadFiles_loop P dir all [] m a = Inr (SUCCESS, m, a)"
| "DownloadFiles_loop P dir all (f # rest) m a =
     bind_res (download_of f) (\<lambda>d.
       case d of
         None \<Rightarrow> DownloadFiles_loop P dir all rest m a
       | Some (name, fileSourceUrl) \<Rightarrow>
           let fileNameWithPath = GetFullPath dir name in
           if \<not> ap_can_write P fileNameWithPath then
             rolled_back P (set_error ''ERR_DOWNLOAD_FAILED'' ''unable to open file for writing'' m) dir all a
           else
             case ap_download P fileSourceUrl (ja_world a) of
               ((result, body), w) \<Rightarrow>
                 let a = a\<lparr>ja_files := (ja_files a)(fileNameWithPath \<mapsto> body), ja_world := w\<rparr> in
                 if result \<noteq> 0 then
                   rolled_back P
                     (set_detail ''fileSourceUrl'' fileSourceUrl (set_detail ''curlError'' (ap_curl_strerror P result)
                       (set_error ''ERR_DOWNLOAD_FAILED'' ''curl error encountered'' m))) dir all a
                 else DownloadFiles_loop P dir all rest m a)"

definition DownloadFiles ::
  "'w agent_platform \<Rightarrow> details \<Rightarrow> bytes \<Rightarrow> json list \<Rightarrow> ('n, 'w) JobsAgent \<Rightarrow> (ResponseCode \<times> details \<times> ('n, 'w) JobsAgent) res" where
  "DownloadFiles P m workingDirectory fs a =
     (let m = set_detail ''step'' (str ''download files'') m in
      case ap_curl_init P (ja_world a) of
        (ok, w) \<Rightarrow>
          let a = a\<lparr>ja_world := w\<rparr> in
          if \<not> ok then Inr (FAILURE, set_error ''ERR_DOWNLOAD_FAILED'' ''unable to initialize curl'' m, a)
          else DownloadFiles_loop P workingDirectory fs fs m a)"

text \<open>\<open>IsArray\<close> and the elements.\<close>

definition as_array :: "json \<Rightarrow> json list option" where
  "as_array v = (case v of JArray xs \<Rightarrow> Some xs | _ \<Rightarrow> None)"

definition array_member_of :: "json \<Rightarrow> string \<Rightarrow> json list option res" where
  "array_member_of j key =
     bind_res (HasMember j (str key)) (\<lambda>b.
       if b then bind_res (get_member j (str key)) (\<lambda>v. Inr (as_array v)) else Inr None)"

text \<open>After the download: the package is registered and, if it asks for it, started.\<close>

definition install_downloaded ::
  "'w agent_platform \<Rightarrow> details \<Rightarrow> bytes \<Rightarrow> json \<Rightarrow> ('n, 'w) JobsAgent \<Rightarrow> (ResponseCode \<times> details \<times> ('n, 'w) JobsAgent) res" where
  "install_downloaded P m packageName jobDocument a =
     bind_res (UpdateInstalledPackage P jobDocument a) (\<lambda>(rc, a).
       if rc \<noteq> SUCCESS then Inr (rc, set_error ''ERR_FILE_COPY_FAILED'' ''unable to install package'' m, a)
       else bind_res (PackageIsAutoStart packageName a) (\<lambda>b.
         if \<not> b then Inr (SUCCESS, m, a)
         else bind_res (StartPackage P (set_detail ''step'' (str ''auto start package'') m) packageName a) (\<lambda>(rc, m, a).
              if rc \<noteq> SUCCESS
              then Inr (SUCCESS, set_detail ''warning'' (str ''package installed but unable to start'') m, a)
              else Inr (SUCCESS, m, a))))"

text \<open>The copies, the download and the registration; a response of the two reports in between is only logged.\<close>

definition install_files ::
  "'w agent_platform \<Rightarrow> bytes \<Rightarrow> details \<Rightarrow> bytes \<Rightarrow> bytes \<Rightarrow> json list \<Rightarrow> json \<Rightarrow> ('n, 'w) JobsAgent
   \<Rightarrow> (ResponseCode \<times> ('n, 'w) JobsAgent) res" where
  "install_files P jobId m packageName workingDirectory files jobDocument a =
     bind_res (send_update jobId JOB_EXECUTION_IN_PROGRESS m False False a) (\<lambda>(_, a).
     bind_res (BackupFiles P m workingDirectory files a) (\<lambda>(rc, m, a).
     if rc \<noteq> SUCCESS then send_outcome jobId rc m a
     else
       bind_res (send_update jobId JOB_EXECUTION_IN_PROGRESS m False False a) (\<lambda>(_, a).
       bind_res (DownloadFiles P m workingDirectory files a) (\<lambda>(rc, m, a).
       if rc \<noteq> SUCCESS then send_outcome jobId rc m a
       else
         bind_res (install_downloaded P m packageName jobDocument a) (\<lambda>(rc, m, a).
           send_outcome jobId rc m a)))))"

definition InstallPackageHandler ::
  "'w agent_platform \<Rightarrow> bytes \<Rightarrow> json \<Rightarrow> ('n, 'w) JobsAgent \<Rightarrow> (ResponseCode \<times> ('n, 'w) JobsAgent) res" where
  "InstallPackageHandler P jobId jobDocument a =
     (let m = set_detail ''operation'' (str ''install'') [] in
      bind_res (text_member_of jobDocument ''packageName'') (\<lambda>n.
      case n of
        None \<Rightarrow> send_update jobId JOB_EXECUTION_FAILED
                  (set_error ''ERR_UNNAMED_PACKAGE'' ''installed packages must have packageName string property'' m) False False a
      | Some packageName \<Rightarrow>
          bind_res (array_member_of jobDocument ''files'') (\<lambda>fs.
          case fs of
            None \<Rightarrow> send_update jobId JOB_EXECUTION_FAILED
                      (set_error ''ERR_FILE_COPY_FAILED'' ''files property missing or invalid'' m) False False a
          | Some [] \<Rightarrow> send_update jobId JOB_EXECUTION_FAILED
                      (set_error ''ERR_FILE_COPY_FAILED'' ''files property missing or invalid'' m) False False a
          | Some (f # rest) \<Rightarrow>
              let m = set_detail ''packageName'' packageName m; files = f # rest in
              bind_res (text_member_of jobDocument ''workingDirectory'') (\<lambda>d.
              let workingDirectory = (case d of None \<Rightarrow> [] | Some d \<Rightarrow> d) in
              install_files P jobId m packageName workingDirectory files jobDocument a))))"

section \<open>The callbacks\<close>

definition step_of :: "json \<Rightarrow> bytes option res" where
  "step_of execution =
     bind_res (HasMember execution (str ''statusDetails'')) (\<lambda>b.
       if \<not> b then Inr None
       else bind_res (get_member execution (str ''statusDetails'')) (\<lambda>d. text_member_of d ''step''))"

definition run_operation ::
  "'w agent_platform \<Rightarrow> bytes \<Rightarrow> json \<Rightarrow> json \<Rightarrow> bytes \<Rightarrow> ('n, 'w) JobsAgent \<Rightarrow> (ResponseCode \<times> ('n, 'w) JobsAgent) res" where
  "run_operation P jobId execution jobDocument operation a =
     (let m = set_detail ''operation'' operation [] in
      if operation = str ''systemStatus'' then SystemStatusHandler P jobId a
      else if operation = str ''reboot'' \<or> operation = str ''shutdown'' then
        bind_res (step_of execution) (\<lambda>s.
          ShutdownHandler P jobId (case s of None \<Rightarrow> [] | Some s \<Rightarrow> s) (operation = str ''reboot'') a)
      else if operation = str ''install'' then InstallPackageHandler P jobId jobDocument a
      else if operation \<in> str ` {''start'', ''stop'', ''restart'', ''uninstall''} then
        bind_res (text_member_of jobDocument ''packageName'') (\<lambda>n.
          case n of
            None \<Rightarrow> send_update jobId JOB_EXECUTION_FAILED
                      (set_error ''ERR_UNNAMED_PACKAGE'' ''must specify packageName'' m) False False a
          | Some packageName \<Rightarrow>
              if operation = str ''start'' then StartPackageHandler P jobId packageName a
              else if operation = str ''stop'' then StopPackageHandler P jobId packageName a
              else if operation = str ''restart'' then RestartPackageHandler P jobId packageName a
              else UninstallPackageHandler P jobId packageName a)
      else send_update jobId JOB_EXECUTION_FAILED (set_error ''ERR_UNEXPECTED'' ''unhandled operation'' m) False False a)"

definition NextJobCallback ::
  "'w agent_platform \<Rightarrow> bytes \<Rightarrow> bytes \<Rightarrow> ('n, 'w) JobsAgent \<Rightarrow> (ResponseCode \<times> ('n, 'w) JobsAgent) res" where
  "NextJobCallback P topic_name payload a =
     (case InitializeFromJsonString (ap_parse P) JNull payload of
        (rc, doc) \<Rightarrow>
          if rc \<noteq> SUCCESS then Inr (rc, a)
          else bind_res (HasMember doc (str ''execution'')) (\<lambda>b.
            if \<not> b then Inr (rc, a)
            else bind_res (get_member doc (str ''execution'')) (\<lambda>execution.
              bind_res (text_member_of execution ''jobId'') (\<lambda>j.
              case j of
                None \<Rightarrow> Inr (rc, a)
              | Some jobId \<Rightarrow>
                  bind_res (HasMember execution (str ''jobDocument'')) (\<lambda>b.
                    if \<not> b then
                      send_update jobId JOB_EXECUTION_FAILED
                        (set_error ''ERR_UNEXPECTED'' ''unable to process job document'' []) False False a
                    else bind_res (get_member execution (str ''jobDocument'')) (\<lambda>jobDocument.
                      bind_res (text_member_of jobDocument ''operation'') (\<lambda>opn.
                        case opn of
                          None \<Rightarrow> Inr (rc, a)
                        | Some operation \<Rightarrow> run_operation P jobId execution jobDocument operation a)))))))"

text \<open>The document of an update that was accepted says whether the machine is to be shut down or restarted now.\<close>

definition accepted_command :: "json \<Rightarrow> bytes option res" where
  "accepted_command doc =
     bind_res (HasMember doc (str ''executionState'')) (\<lambda>b.
       if \<not> b then Inr None
       else bind_res (get_member doc (str ''executionState'')) (\<lambda>executionState.
         bind_res (HasMember doc (str ''jobDocument'')) (\<lambda>b.
           if \<not> b then Inr None
           else bind_res (HasMember executionState (str ''statusDetails'')) (\<lambda>b.
             if \<not> b then Inr None
             else
               bind_res (get_member doc (str ''jobDocument'')) (\<lambda>jobDocument.
               bind_res (get_member executionState (str ''statusDetails'')) (\<lambda>statusDetails.
               bind_res (text_member_of jobDocument ''operation'') (\<lambda>opn.
                 case opn of
                   None \<Rightarrow> Inr None
                 | Some operation \<Rightarrow>
                     if operation \<noteq> str ''reboot'' \<and> operation \<noteq> str ''shutdown'' then Inr None
                     else bind_res (text_member_of statusDetails ''step'') (\<lambda>s.
                       Inr (if s = Some (str ''initiated'')
                            then Some (GetShutdownSystemCommand False (operation = str ''reboot'')) else None)))))))))"

definition UpdateAcceptedCallback ::
  "'w agent_platform \<Rightarrow> bytes \<Rightarrow> bytes \<Rightarrow> ('n, 'w) JobsAgent \<Rightarrow> (ResponseCode \<times> ('n, 'w) JobsAgent) res" where
  "UpdateAcceptedCallback P topic_name payload a =
     (case InitializeFromJsonString (ap_parse P) JNull payload of
        (rc, doc) \<Rightarrow>
          if rc \<noteq> SUCCESS then Inr (rc, a)
          else bind_res (accepted_command doc) (\<lambda>c.
            Inr (rc, case c of None \<Rightarrow> a | Some systemCommand \<Rightarrow> snd (run_command P systemCommand a))))"

definition UpdateRejectedCallback :: "bytes \<Rightarrow> bytes \<Rightarrow> ('n, 'w) JobsAgent \<Rightarrow> ResponseCode \<times> ('n, 'w) JobsAgent" where
  "UpdateRejectedCallback topic_name payload a = (SUCCESS, a)"

section \<open>Starting the agent\<close>

text \<open>The packages that are started with the agent; what is found out about them is thrown away.\<close>

fun start_installed ::
  "'w agent_platform \<Rightarrow> details \<Rightarrow> (bytes \<times> json) list \<Rightarrow> ('n, 'w) JobsAgent \<Rightarrow> ('n, 'w) JobsAgent res" where
  "start_installed P m [] a = Inr a"
| "start_installed P m ((name, v) # ms) a =
     (if \<not> is_object v then start_installed P m ms a
      else
        let packageName = takeWhile (\<lambda>b. b \<noteq> 0) name in
        bind_res (PackageIsAutoStart packageName a) (\<lambda>b.
          if \<not> b then start_installed P m ms a
          else bind_res (StartPackage P m packageName a) (\<lambda>(_, m, a). start_installed P m ms a)))"

definition StartInstalledPackages :: "'w agent_platform \<Rightarrow> ('n, 'w) JobsAgent \<Rightarrow> ('n, 'w) JobsAgent res" where
  "StartInstalledPackages P a =
     (if \<not> is_object (ja_installed_packages a) then Inl AssertionFailed
      else start_installed P [] (members (ja_installed_packages a)) a)"

text \<open>The first block of \<open>RunAgent\<close>: the packages are read from their file, and there are none when it cannot be opened;
  another response than success is what \<open>RunAgent\<close> returns.\<close>

definition load_installed_packages ::
  "'w agent_platform \<Rightarrow> bytes \<Rightarrow> ('n, 'w) JobsAgent \<Rightarrow> (ResponseCode \<times> ('n, 'w) JobsAgent) res" where
  "load_installed_packages P processTitle a =
     (let a = a\<lparr>ja_process_title := processTitle, ja_installed_packages_filename := str ''installedPackages.json''\<rparr> in
      bind_res (InitializeFromJsonFile (ja_files a) (ap_parse P) (ja_installed_packages a) (ja_installed_packages_filename a))
        (\<lambda>(rc, doc).
          if rc = FILE_OPEN_ERROR then
            (case InitializeFromJsonString (ap_parse P) doc (str ''{}'') of
               (_, doc) \<Rightarrow> Inr (SUCCESS, a\<lparr>ja_installed_packages := doc\<rparr>))
          else Inr (rc, a\<lparr>ja_installed_packages := doc\<rparr>)))"

text \<open>
  The four topics of the agent: both notifications of a next job have the same handler. The handlers are numbers.
\<close>

definition agent_subscriptions :: "Jobs \<Rightarrow> nat \<Rightarrow> nat \<Rightarrow> nat \<Rightarrow> Subscription option list" where
  "agent_subscriptions jobs p_next_handler p_update_accepted_handler p_update_rejected_handler =
     [CreateJobsSubscription jobs (Some p_next_handler) None JOB_DESCRIBE_TOPIC JOB_ACCEPTED_REPLY_TYPE (str ''$next''),
      CreateJobsSubscription jobs (Some p_next_handler) None JOB_NOTIFY_NEXT_TOPIC JOB_REQUEST_TYPE [],
      CreateJobsSubscription jobs (Some p_update_accepted_handler) None JOB_UPDATE_TOPIC JOB_ACCEPTED_REPLY_TYPE (str ''+''),
      CreateJobsSubscription jobs (Some p_update_rejected_handler) None JOB_UPDATE_TOPIC JOB_REJECTED_REPLY_TYPE (str ''+'')]"

definition JobsAgent_Subscribe ::
  "(action_data option \<Rightarrow> 'n client \<Rightarrow> (ResponseCode \<times> action_data option \<times> 'n client) res)
   \<Rightarrow> ('n client \<Rightarrow> 'n client) \<Rightarrow> nat \<Rightarrow> nat \<Rightarrow> nat \<Rightarrow> ('n, 'w) JobsAgent \<Rightarrow> (ResponseCode \<times> ('n, 'w) JobsAgent) res" where
  "JobsAgent_Subscribe runner wait p_next_handler p_update_accepted_handler p_update_rejected_handler a =
     (let subs = agent_subscriptions (ja_jobs a) p_next_handler p_update_accepted_handler p_update_rejected_handler;
          c = ja_client a;
          (ps, st) = alloc_subscriptions subs (core_client_state c)
      in bind_res (Subscribe_pointers runner wait ps (c\<lparr>core_client_state := st\<rparr>)) (\<lambda>(rc, c).
           Inr (rc, a\<lparr>ja_client := c\<rparr>)))"

end
