(* ===== verification/AgentInstall.thy ===== *)
theory AgentInstall
  imports JobsAgent
begin

text \<open>
  What an install of the jobs agent does to the files of the package: a failing one leaves those that were there as they
  were, as long as no file of the package is the copy of another; and what the agent tells about its packages.
\<close>

section \<open>The files of a package\<close>

fun listed_paths :: "bytes \<Rightarrow> json list \<Rightarrow> bytes list" where
  "listed_paths dir [] = []"
| "listed_paths dir (f # rest) =
     (case text_member_of f ''fileName'' of
        Inr (Some name) \<Rightarrow> GetFullPath dir name # listed_paths dir rest
      | _ \<Rightarrow> listed_paths dir rest)"

definition no_copies :: "bytes list \<Rightarrow> bool" where
  "no_copies ps \<longleftrightarrow> (\<forall>p \<in> set ps. \<forall>q \<in> set ps. p \<noteq> old q)"

lemma no_copiesD: "no_copies ps \<Longrightarrow> p \<in> set ps \<Longrightarrow> q \<in> set ps \<Longrightarrow> p \<noteq> old q"
  by (simp add: no_copies_def)

lemma old_inj [simp]: "old p = old q \<longleftrightarrow> p = q"
  by (simp add: old_def)

lemma old_neq [simp]: "old p \<noteq> p" "p \<noteq> old p"
  by (simp_all add: old_def str_def)

lemma backup_cases:
  assumes "BackupFiles_loop cw dir (f # fs) m fl = Inr (rc, m', fl')"
  obtains (skip) "listed_paths dir (f # fs) = listed_paths dir fs" "BackupFiles_loop cw dir fs m fl = Inr (rc, m', fl')"
  | (absent) p where "listed_paths dir (f # fs) = p # listed_paths dir fs" "fl p = None"
      "BackupFiles_loop cw dir fs m fl = Inr (rc, m', fl')"
  | (refused) "rc = FAILURE" "fl' = fl"
  | (copied) p c where "listed_paths dir (f # fs) = p # listed_paths dir fs" "fl p = Some c"
      "BackupFiles_loop cw dir fs m (fl(old p \<mapsto> c)) = Inr (rc, m', fl')"
proof (cases "text_member_of f ''fileName''")
  case (Inr n)
  show ?thesis
  proof (cases n)
    case None
    with assms Inr show ?thesis by (intro skip) auto
  next
    case (Some name)
    then show ?thesis using assms Inr refused absent [of "GetFullPath dir name"] copied [of "GetFullPath dir name"]
      by (auto simp: Let_def split: option.splits if_splits)
  qed
qed (use assms in simp)

lemma backup_elsewhere:
  "BackupFiles_loop cw dir fs m fl = Inr (rc, m', fl') \<Longrightarrow> q \<notin> old ` set (listed_paths dir fs) \<Longrightarrow> fl' q = fl q"
proof (induction fs arbitrary: m fl)
  case (Cons f fs)
  from Cons.prems(1) show ?case
    by (cases rule: backup_cases) (use Cons.IH Cons.prems(2) in force)+
qed simp

lemma backup_copies:
  assumes "BackupFiles_loop cw dir fs m fl = Inr (SUCCESS, m', fl')" and "p \<in> set (listed_paths dir fs)"
    and "\<forall>q \<in> set (listed_paths dir fs). p \<noteq> old q" and "fl p = Some c"
  shows "fl' (old p) = Some c"
  using assms
proof (induction fs arbitrary: m fl)
  case (Cons f fs)
  from Cons.prems(1) show ?case
  proof (cases rule: backup_cases)
    case (copied q d)
    show ?thesis
    proof (cases "p \<in> set (listed_paths dir fs)")
      case True
      with Cons.IH [OF copied(3)] Cons.prems copied show ?thesis by simp
    next
      case False
      with Cons.prems copied have "q = p" "d = c" by auto
      with backup_elsewhere [OF copied(3), of "old p"] False show ?thesis by (simp add: image_iff)
    qed
  qed (use Cons in auto)
qed simp

lemma rollback_cases:
  assumes "RollbackFiles_loop cw dir (f # fs) rc m fl = Inr (rc', m', fl')"
  obtains (skip) "listed_paths dir (f # fs) = listed_paths dir fs" "RollbackFiles_loop cw dir fs rc m fl = Inr (rc', m', fl')"
  | (absent) p where "listed_paths dir (f # fs) = p # listed_paths dir fs" "fl (old p) = None"
      "RollbackFiles_loop cw dir fs rc m fl = Inr (rc', m', fl')"
  | (refused) p n where "listed_paths dir (f # fs) = p # listed_paths dir fs" "\<not> cw p"
      "RollbackFiles_loop cw dir fs FAILURE n fl = Inr (rc', m', fl')"
  | (restored) p c where "listed_paths dir (f # fs) = p # listed_paths dir fs" "fl (old p) = Some c"
      "RollbackFiles_loop cw dir fs rc m (fl(p \<mapsto> c)) = Inr (rc', m', fl')"
proof (cases "text_member_of f ''fileName''")
  case (Inr n)
  show ?thesis
  proof (cases n)
    case None
    with assms Inr show ?thesis by (intro skip) auto
  next
    case (Some name)
    let ?p = "GetFullPath dir name"
    have l: "listed_paths dir (f # fs) = ?p # listed_paths dir fs" using Inr Some by simp
    show ?thesis
    proof (cases "fl (old ?p)")
      case None
      with assms Inr Some show ?thesis by (intro absent [OF l]) auto
    next
      case c: (Some c)
      show ?thesis
      proof (cases "cw ?p")
        case True
        with assms Inr Some c show ?thesis by (intro restored [OF l]) auto
      next
        case False
        with assms Inr Some c show ?thesis by (intro refused [OF l]) auto
      qed
    qed
  qed
qed (use assms in simp)

lemma rollback_elsewhere:
  "RollbackFiles_loop cw dir fs rc m fl = Inr (rc', m', fl') \<Longrightarrow> q \<notin> set (listed_paths dir fs) \<Longrightarrow> fl' q = fl q"
proof (induction fs arbitrary: rc m fl)
  case (Cons f fs)
  from Cons.prems(1) show ?case
    by (cases rule: rollback_cases) (use Cons.IH Cons.prems(2) in force)+
qed simp

lemma rollback_restores:
  assumes "RollbackFiles_loop cw dir fs rc m fl = Inr (rc', m', fl')" and "fl (old p) = Some c"
    and "fl p = Some c \<or> cw p \<and> p \<in> set (listed_paths dir fs)" and "\<forall>q \<in> set (listed_paths dir fs). q \<noteq> old p"
  shows "fl' p = Some c"
  using assms
proof (induction fs arbitrary: rc m fl)
  case (Cons f fs)
  from Cons.prems(1) show ?case
  proof (cases rule: rollback_cases)
    case (restored q d)
    then show ?thesis using Cons.IH [OF restored(3)] Cons.prems by (cases "q = p") auto
  next
    case (refused q n)
    then show ?thesis using Cons.IH [OF refused(3)] Cons.prems by auto
  qed (use Cons in auto)
qed simp

section \<open>The steps of an install\<close>

lemma send_update_keeps:
  "send_update jobId status m i d a = Inr (rc, a') \<Longrightarrow>
   ja_files a' = ja_files a \<and> ja_installed_packages a' = ja_installed_packages a"
  by (auto simp: send_update_def bind_res_Inr_iff)

lemma publish_job_returns: "\<exists>rc c'. publish_job jobs t payload c = Inr (rc, c')"
  by (auto simp: publish_job_def PublishAsync_def PerformActionAsync_def EnqueueOutboundAction_def Let_def
      split: option.split prod.split)

lemma send_update_returns: "\<exists>rc c. send_update jobId status m i d a = Inr (rc, a\<lparr>ja_client := c\<rparr>)"
proof -
  obtain rc c where "SendJobsUpdate (ja_jobs a) jobId status m 0 0 i d (ja_client a) = Inr (rc, c)"
    using publish_job_returns unfolding SendJobsUpdate_def by blast
  then show ?thesis by (intro exI [of _ rc] exI [of _ c]) (simp add: send_update_def)
qed

lemma send_outcome_keeps:
  "send_outcome jobId rc m a = Inr (rc', a') \<Longrightarrow>
   ja_files a' = ja_files a \<and> ja_installed_packages a' = ja_installed_packages a"
  by (auto simp: send_outcome_def dest: send_update_keeps split: if_splits)

lemma StartPackage_keeps:
  assumes "StartPackage P m packageName a = Inr (rc, m', a')"
  shows "ja_files a' = ja_files a \<and> ja_installed_packages a' = ja_installed_packages a"
proof -
  from assms obtain e where e: "PackageIsExecutable packageName a = Inr e" by (auto simp: StartPackage_def bind_res_Inr_iff Let_def)
  show ?thesis
  proof (cases "e \<and> \<not> PackageIsRunning P packageName a")
    case True
    then obtain p where p: "get_member (ja_installed_packages a) packageName = Inr p"
      using assms e by (auto simp: StartPackage_def bind_res_Inr_iff Let_def)
    obtain pid w where f: "ap_fork P (start_child p) (ja_world a) = (pid, w)" by force
    from True p f assms e show ?thesis by (auto simp: StartPackage_def Let_def split: if_splits)
  next
    case False
    with assms e show ?thesis by (auto simp: StartPackage_def Let_def)
  qed
qed

lemma Backup_keeps:
  assumes "BackupFiles P m dir fs a = Inr (rc, m', a')"
  shows "ja_installed_packages a' = ja_installed_packages a"
    and "q \<notin> old ` set (listed_paths dir fs) \<Longrightarrow> ja_files a' q = ja_files a q"
    and "rc = SUCCESS \<Longrightarrow> p \<in> set (listed_paths dir fs) \<Longrightarrow> no_copies (listed_paths dir fs) \<Longrightarrow> ja_files a p = Some c \<Longrightarrow>
         ja_files a' (old p) = Some c"
proof -
  from assms obtain fl where l: "BackupFiles_loop (ap_can_write P) dir fs (set_detail ''step'' (str ''backup files'') m) (ja_files a)
      = Inr (rc, m', fl)" and a': "a' = a\<lparr>ja_files := fl\<rparr>"
    by (auto simp: BackupFiles_def bind_res_Inr_iff)
  show "ja_installed_packages a' = ja_installed_packages a" using a' by simp
  show "q \<notin> old ` set (listed_paths dir fs) \<Longrightarrow> ja_files a' q = ja_files a q"
    using backup_elsewhere [OF l] a' by simp
  show "rc = SUCCESS \<Longrightarrow> p \<in> set (listed_paths dir fs) \<Longrightarrow> no_copies (listed_paths dir fs) \<Longrightarrow> ja_files a p = Some c \<Longrightarrow>
        ja_files a' (old p) = Some c"
    using backup_copies [of "ap_can_write P" dir fs _ "ja_files a" m' fl p c] l a' no_copiesD by fastforce
qed

lemma rolled_back_restores:
  assumes "rolled_back P m dir fs a = Inr (rc, m', a')" and "ja_files a (old p) = Some c"
    and "ja_files a p = Some c \<or> ap_can_write P p" and "p \<in> set (listed_paths dir fs)" and "no_copies (listed_paths dir fs)"
  shows "ja_files a' p = Some c \<and> ja_installed_packages a' = ja_installed_packages a"
proof -
  from assms(1) obtain rc2 fl where
    l: "RollbackFiles_loop (ap_can_write P) dir fs SUCCESS (set_detail ''step'' (str ''rollback files'') m) (ja_files a)
      = Inr (rc2, m', fl)" and a': "a' = a\<lparr>ja_files := fl\<rparr>"
    by (auto simp: rolled_back_def RollbackFiles_def bind_res_Inr_iff)
  have "fl p = Some c" using rollback_restores [OF l assms(2)] assms(3-5) by (auto dest: no_copiesD)
  with a' show ?thesis by simp
qed

lemma rolled_back_FAILURE:
  "rolled_back P m dir fs a = Inr (rc, m', a') \<Longrightarrow> rc = FAILURE \<and> ja_installed_packages a' = ja_installed_packages a"
  by (auto simp: rolled_back_def RollbackFiles_def bind_res_Inr_iff)

lemma download_of_listed:
  "download_of f = Inr (Some (name, u)) \<Longrightarrow> text_member_of f ''fileName'' = Inr (Some name)"
  by (auto simp: download_of_def bind_res_Inr_iff split: option.splits if_splits)

lemma download_cases:
  assumes "DownloadFiles_loop P dir all (f # fs) m a = Inr (rc, m', a')"
  obtains (skip) "DownloadFiles_loop P dir all fs m a = Inr (rc, m', a')"
  | (refused) n where "rolled_back P n dir all a = Inr (rc, m', a')"
  | (failed) p n body w where "p \<in> set (listed_paths dir (f # fs))" "ap_can_write P p"
      "rolled_back P n dir all (a\<lparr>ja_files := (ja_files a)(p \<mapsto> body), ja_world := w\<rparr>) = Inr (rc, m', a')"
  | (loaded) p body w where "p \<in> set (listed_paths dir (f # fs))" "ap_can_write P p"
      "DownloadFiles_loop P dir all fs m (a\<lparr>ja_files := (ja_files a)(p \<mapsto> body), ja_world := w\<rparr>) = Inr (rc, m', a')"
proof (cases "download_of f")
  case (Inr d)
  show ?thesis
  proof (cases d)
    case None
    with assms Inr show ?thesis by (intro skip) auto
  next
    case (Some nu)
    obtain name u where nu: "nu = (name, u)" by force
    let ?p = "GetFullPath dir name"
    have l: "?p \<in> set (listed_paths dir (f # fs))" using download_of_listed Inr Some nu by simp
    obtain r body w where dl: "ap_download P u (ja_world a) = ((r, body), w)" by (metis surj_pair)
    show ?thesis
    proof (cases "ap_can_write P ?p")
      case False
      then show ?thesis using assms Inr Some nu by (intro refused) (auto simp: Let_def)
    next
      case True
      show ?thesis
      proof (cases "r = 0")
        case False
        with True dl show ?thesis using assms Inr Some nu by (intro failed [OF l]) (auto simp: Let_def)
      next
        case True
        with \<open>ap_can_write P ?p\<close> dl show ?thesis using assms Inr Some nu by (intro loaded [OF l]) (auto simp: Let_def)
      qed
    qed
  qed
qed (use assms in simp)

lemma download_restores:
  assumes "DownloadFiles_loop P dir all fs m a = Inr (rc, m', a')" and "rc \<noteq> SUCCESS"
    and "ja_files a (old p) = Some c" and "ja_files a p = Some c \<or> ap_can_write P p" and "p \<in> set (listed_paths dir all)"
    and "no_copies (listed_paths dir all)" and "set (listed_paths dir fs) \<subseteq> set (listed_paths dir all)"
  shows "ja_files a' p = Some c \<and> ja_installed_packages a' = ja_installed_packages a"
  using assms
proof (induction fs arbitrary: m a)
  case (Cons f fs)
  have sub: "set (listed_paths dir fs) \<subseteq> set (listed_paths dir all)"
    using Cons.prems(7) by (auto split: sum.splits option.splits)
  from Cons.prems(1) show ?case
  proof (cases rule: download_cases)
    case skip
    from Cons.IH [OF skip Cons.prems(2-6) sub] show ?thesis .
  next
    case (refused n)
    from rolled_back_restores [OF refused Cons.prems(3-6)] show ?thesis .
  next
    case (failed q n body w)
    have "q \<noteq> old p" using no_copiesD Cons.prems(5-7) failed(1) by blast
    then show ?thesis using rolled_back_restores [OF failed(3) _ _ Cons.prems(5,6), of c] Cons.prems(3,4) failed(2) by auto
  next
    case (loaded q body w)
    have "q \<noteq> old p" using no_copiesD Cons.prems(5-7) loaded(1) by blast
    then show ?thesis using Cons.IH [OF loaded(3) Cons.prems(2) _ _ Cons.prems(5,6) sub] Cons.prems(3,4) loaded(2) by auto
  qed
qed simp

lemma download_keeps_packages:
  "DownloadFiles_loop P dir all fs m a = Inr (rc, m', a') \<Longrightarrow> ja_installed_packages a' = ja_installed_packages a"
proof (induction fs arbitrary: m a)
  case (Cons f fs)
  from Cons.prems show ?case
    by (cases rule: download_cases) (use Cons.IH rolled_back_FAILURE in fastforce)+
qed simp

lemma Download_keeps:
  assumes "DownloadFiles P m dir fs a = Inr (rc, m', a')"
  shows "ja_installed_packages a' = ja_installed_packages a"
    and "rc \<noteq> SUCCESS \<Longrightarrow> ja_files a (old p) = Some c \<Longrightarrow> ja_files a p = Some c \<Longrightarrow> p \<in> set (listed_paths dir fs) \<Longrightarrow>
         no_copies (listed_paths dir fs) \<Longrightarrow> ja_files a' p = Some c"
proof -
  obtain ok w where c: "ap_curl_init P (ja_world a) = (ok, w)" by force
  show "ja_installed_packages a' = ja_installed_packages a"
    using assms c download_keeps_packages by (fastforce simp: DownloadFiles_def Let_def split: if_splits)
  assume *: "rc \<noteq> SUCCESS" "ja_files a (old p) = Some c" "ja_files a p = Some c" "p \<in> set (listed_paths dir fs)"
    "no_copies (listed_paths dir fs)"
  show "ja_files a' p = Some c"
  proof (cases ok)
    case True
    with assms c have "DownloadFiles_loop P dir fs fs (set_detail ''step'' (str ''download files'') m) (a\<lparr>ja_world := w\<rparr>)
        = Inr (rc, m', a')" by (simp add: DownloadFiles_def Let_def)
    from download_restores [OF this *(1), of p c] * show ?thesis by simp
  next
    case False
    with assms c * show ?thesis by (auto simp: DownloadFiles_def Let_def)
  qed
qed

section \<open>A failing install\<close>

definition package_dir :: "json \<Rightarrow> bytes" where
  "package_dir doc = (case text_member_of doc ''workingDirectory'' of Inr (Some d) \<Rightarrow> d | _ \<Rightarrow> [])"

definition package_files :: "json \<Rightarrow> json list" where
  "package_files doc = (case array_member_of doc ''files'' of Inr (Some fs) \<Rightarrow> fs | _ \<Rightarrow> [])"

definition package_paths :: "json \<Rightarrow> bytes list" where
  "package_paths doc = listed_paths (package_dir doc) (package_files doc)"

definition with_package :: "bytes \<Rightarrow> json \<Rightarrow> json \<Rightarrow> json" where
  "with_package name doc j = JObject (remove_member name (members j) @ [(name, doc)])"

definition is_registered :: "json \<Rightarrow> ('n, 'w) JobsAgent \<Rightarrow> ('n, 'w) JobsAgent \<Rightarrow> bool" where
  "is_registered doc a a' \<longleftrightarrow>
     (case text_member_of doc ''packageName'' of
        Inr (Some name) \<Rightarrow> ja_installed_packages a' = with_package name doc (ja_installed_packages a)
      | _ \<Rightarrow> False)"

lemma is_registered_cong:
  "ja_installed_packages a = ja_installed_packages b \<Longrightarrow> ja_installed_packages a' = ja_installed_packages b' \<Longrightarrow>
   is_registered doc a a' = is_registered doc b b'"
  by (simp add: is_registered_def cong: sum.case_cong option.case_cong)

lemma install_downloaded_registers:
  assumes "install_downloaded P m name doc a = Inr (rc, m', a')"
  shows "is_registered doc a a'"
proof -
  from assms obtain rc1 a1 where u: "UpdateInstalledPackage P doc a = Inr (rc1, a1)"
    and a': "ja_installed_packages a' = ja_installed_packages a1"
    by (auto simp: install_downloaded_def bind_res_Inr_iff split: if_splits dest!: StartPackage_keeps)
  from u have "is_registered doc a a1"
    by (auto simp: UpdateInstalledPackage_def is_registered_def with_package_def write_packages_def bind_res_Inr_iff case_prod_beta
        split: option.splits if_splits)
  with a' show ?thesis using is_registered_cong by blast
qed

definition files_kept :: "json \<Rightarrow> ('n, 'w) JobsAgent \<Rightarrow> ('n, 'w) JobsAgent \<Rightarrow> bool" where
  "files_kept doc a a' \<longleftrightarrow>
     ja_installed_packages a' = ja_installed_packages a \<and>
     (\<forall>p \<in> set (package_paths doc). ja_files a p \<noteq> None \<longrightarrow> ja_files a' p = ja_files a p)"

lemma files_kept_same: "ja_files a' = ja_files a \<and> ja_installed_packages a' = ja_installed_packages a \<Longrightarrow> files_kept doc a a'"
  by (simp add: files_kept_def)

lemma send_update_kept: "send_update jobId status m i d a = Inr (rc, a') \<Longrightarrow> files_kept doc a a'"
  by (simp add: send_update_keeps files_kept_same)

lemma install_files_keeps:
  assumes "install_files P jobId m name (package_dir doc) (package_files doc) doc a = Inr (rc, a')"
    and nc: "no_copies (package_paths doc)"
  shows "is_registered doc a a' \<or> files_kept doc a a'"
proof -
  from assms(1) obtain rc1 a1 rc2 m1 a2 where
    s1: "send_update jobId JOB_EXECUTION_IN_PROGRESS m False False a = Inr (rc1, a1)"
    and b: "BackupFiles P m (package_dir doc) (package_files doc) a1 = Inr (rc2, m1, a2)"
    by (auto simp: install_files_def bind_res_Inr_iff)
  note k1 = send_update_keeps [OF s1] and kb = Backup_keeps [OF b]
  have other: "p \<notin> old ` set (package_paths doc)" if "p \<in> set (package_paths doc)" for p
    using no_copiesD [OF nc that] by blast
  show ?thesis
  proof (cases "rc2 = SUCCESS")
    case False
    then have "send_outcome jobId rc2 m1 a2 = Inr (rc, a')" using assms(1) s1 b by (simp add: install_files_def)
    from send_outcome_keeps [OF this] k1 kb(1,2) other show ?thesis
      by (auto simp: files_kept_def package_paths_def)
  next
    case True
    with assms(1) s1 b obtain rc3 a3 rc4 m2 a4 where
      s2: "send_update jobId JOB_EXECUTION_IN_PROGRESS m1 False False a2 = Inr (rc3, a3)"
      and d: "DownloadFiles P m1 (package_dir doc) (package_files doc) a3 = Inr (rc4, m2, a4)"
      by (auto simp: install_files_def bind_res_Inr_iff)
    note k2 = send_update_keeps [OF s2] and kd = Download_keeps [OF d]
    show ?thesis
    proof (cases "rc4 = SUCCESS")
      case False
      then have "send_outcome jobId rc4 m2 a4 = Inr (rc, a')" using assms(1) s1 b True s2 d by (simp add: install_files_def)
      note ko = send_outcome_keeps [OF this]
      have "ja_files a' p = ja_files a p" if p: "p \<in> set (package_paths doc)" and c: "ja_files a p = Some c" for p c
      proof -
        have "ja_files a3 (old p) = Some c" "ja_files a3 p = Some c"
          using k1 k2 kb(2) [of p] kb(3) [OF True] other [OF p] p c nc by (auto simp: package_paths_def)
        with kd(2) [OF False] p nc c ko show ?thesis by (simp add: package_paths_def)
      qed
      with ko kd(1) k2 kb(1) k1 show ?thesis by (auto simp: files_kept_def)
    next
      case rc4: True
      with assms(1) s1 b True s2 d obtain rc5 m3 a5 where "install_downloaded P m2 name doc a4 = Inr (rc5, m3, a5)"
        and "send_outcome jobId rc5 m3 a5 = Inr (rc, a')"
        by (auto simp: install_files_def bind_res_Inr_iff)
      with install_downloaded_registers send_outcome_keeps have "is_registered doc a4 a5"
        and "ja_installed_packages a' = ja_installed_packages a5" by blast+
      moreover have "ja_installed_packages a = ja_installed_packages a4" using kd(1) k2 kb(1) k1 by simp
      ultimately have "is_registered doc a a'" using is_registered_cong by blast
      then show ?thesis ..
    qed
  qed
qed

lemma install_keeps:
  assumes "InstallPackageHandler P jobId doc a = Inr (rc, a')" and nc: "no_copies (package_paths doc)"
  shows "is_registered doc a a' \<or> files_kept doc a a'"
proof (cases "text_member_of doc ''packageName''")
  case (Inr n)
  note unf = assms(1) [unfolded InstallPackageHandler_def Let_def Inr bind_res_simps]
  show ?thesis
  proof (cases n)
    case None
    with unf show ?thesis by (auto dest: send_update_kept)
  next
    case (Some name)
    obtain fs where fs: "array_member_of doc ''files'' = Inr fs" using unf Some by (auto simp: bind_res_Inr_iff)
    show ?thesis
    proof (cases "fs = None \<or> fs = Some []")
      case True
      with unf Some fs show ?thesis by (auto dest: send_update_kept)
    next
      case False
      then obtain f rest where fr: "fs = Some (f # rest)" by (metis list.exhaust option.exhaust)
      then have pf: "package_files doc = f # rest" using fs by (simp add: package_files_def)
      obtain d where d: "text_member_of doc ''workingDirectory'' = Inr d"
        using unf Some fs fr by (auto simp: bind_res_Inr_iff)
      then have "(case d of None \<Rightarrow> [] | Some d \<Rightarrow> d) = package_dir doc" by (simp add: package_dir_def split: option.split)
      with unf Some fs fr d have "\<exists>m. install_files P jobId m name (package_dir doc) (package_files doc) doc a = Inr (rc, a')"
        by (auto simp: pf)
      with install_files_keeps nc show ?thesis by blast
    qed
  qed
qed (use assms in \<open>simp add: InstallPackageHandler_def Let_def\<close>)


text \<open>A package of one file, which is there, and a download of it that fails half way.\<close>

definition sample_platform :: "'w agent_platform" where
  "sample_platform = \<lparr>ap_can_write = \<lambda>_. True, ap_writer = \<lambda>_. [], ap_parse = \<lambda>_. None, ap_cwd = None, ap_machine = [],
     ap_sysname = [], ap_system = \<lambda>_ w. (0, w), ap_curl_init = \<lambda>w. (True, w), ap_download = \<lambda>_ w. ((18, [9]), w),
     ap_curl_strerror = \<lambda>_. [], ap_fork = \<lambda>_ w. (1, w), ap_alive = \<lambda>_ _. True, ap_terminate = \<lambda>_ w. (True, w),
     ap_waitpid = \<lambda>_ w. w\<rparr>"

definition sample_package :: json where
  "sample_package = JObject [(str ''packageName'', JString [112]),
     (str ''files'', JArray [JObject [(str ''fileName'', JString [97]), (str ''fileSource'', JObject [(str ''url'', JString [104])])]])]"

definition sample_agent :: "'n MqttClient \<Rightarrow> 'w \<Rightarrow> ('n, 'w) JobsAgent" where
  "sample_agent c w = \<lparr>ja_client = c, ja_jobs = \<lparr>jobs_qos = QOS0, jobs_thing_name = [116], jobs_client_token = []\<rparr>,
     ja_process_title = [], ja_installed_packages_filename = [105], ja_installed_packages = JObject [],
     ja_package_runtimes = [], ja_files = [[97] \<mapsto> [1]], ja_world = w\<rparr>"

lemma sample_package_reads:
  "text_member_of sample_package ''packageName'' = Inr (Some [112])"
  "text_member_of sample_package ''workingDirectory'' = Inr None"
  "array_member_of sample_package ''files'' =
     Inr (Some [JObject [(str ''fileName'', JString [97]), (str ''fileSource'', JObject [(str ''url'', JString [104])])]])"
  by (simp_all add: sample_package_def text_member_of_def array_member_of_def HasMember_def get_member_def find_member_def
      as_c_string_def as_array_def str_def)


section \<open>Shutting down\<close>

text \<open>Two shells that do the same for the trial runs.\<close>

definition same_trial_runs :: "(bytes \<Rightarrow> 'w \<Rightarrow> int \<times> 'w) \<Rightarrow> (bytes \<Rightarrow> 'w \<Rightarrow> int \<times> 'w) \<Rightarrow> bool" where
  "same_trial_runs s s' \<longleftrightarrow> s (GetShutdownSystemCommand True True) = s' (GetShutdownSystemCommand True True) \<and>
     s (GetShutdownSystemCommand True False) = s' (GetShutdownSystemCommand True False)"

named_theorems no_shell \<open>operations that run no command\<close>

lemma PackageIsRunning_shell [no_shell]: "PackageIsRunning (P\<lparr>ap_system := s\<rparr>) = PackageIsRunning P"
  by (intro ext) (simp add: PackageIsRunning_def Let_def cong: if_cong option.case_cong)

lemma StartPackage_shell [no_shell]: "StartPackage (P\<lparr>ap_system := s\<rparr>) = StartPackage P"
  by (intro ext) (simp add: StartPackage_def no_shell Let_def cong: if_cong option.case_cong)

lemma StopPackage_shell [no_shell]: "StopPackage (P\<lparr>ap_system := s\<rparr>) = StopPackage P"
  by (intro ext) (simp add: StopPackage_def no_shell Let_def cong: if_cong option.case_cong)

lemma write_packages_shell [no_shell]: "write_packages (P\<lparr>ap_system := s\<rparr>) = write_packages P"
  by (intro ext) (simp add: write_packages_def Let_def cong: if_cong option.case_cong)

lemma UpdateInstalledPackage_shell [no_shell]: "UpdateInstalledPackage (P\<lparr>ap_system := s\<rparr>) = UpdateInstalledPackage P"
  by (intro ext) (simp add: UpdateInstalledPackage_def no_shell Let_def cong: if_cong option.case_cong)

lemma handlers_shell [no_shell]:
  "StartPackageHandler (P\<lparr>ap_system := s\<rparr>) = StartPackageHandler P"
  "StopPackageHandler (P\<lparr>ap_system := s\<rparr>) = StopPackageHandler P"
  "RestartPackageHandler (P\<lparr>ap_system := s\<rparr>) = RestartPackageHandler P"
  "UninstallPackageHandler (P\<lparr>ap_system := s\<rparr>) = UninstallPackageHandler P"
  by (intro ext, simp add: StartPackageHandler_def StopPackageHandler_def RestartPackageHandler_def
      UninstallPackageHandler_def no_shell Let_def cong: if_cong option.case_cong)+

lemma status_packages_shell [no_shell]: "status_packages (P\<lparr>ap_system := s\<rparr>) a b ms = status_packages P a b ms"
  by (induction ms arbitrary: b) (auto simp: no_shell)

lemma SystemStatusHandler_shell [no_shell]: "SystemStatusHandler (P\<lparr>ap_system := s\<rparr>) = SystemStatusHandler P"
  by (intro ext) (simp add: SystemStatusHandler_def no_shell Let_def cong: if_cong option.case_cong)

lemma RollbackFiles_shell [no_shell]:
  "BackupFiles (P\<lparr>ap_system := s\<rparr>) = BackupFiles P" "rolled_back (P\<lparr>ap_system := s\<rparr>) = rolled_back P"
  by (intro ext, simp add: BackupFiles_def rolled_back_def RollbackFiles_def Let_def cong: if_cong option.case_cong)+

lemma DownloadFiles_loop_shell [no_shell]:
  "DownloadFiles_loop (P\<lparr>ap_system := s\<rparr>) dir all fs m a = DownloadFiles_loop P dir all fs m a"
  by (induction fs arbitrary: m a) (simp_all add: no_shell Let_def cong: if_cong option.case_cong)

lemma InstallPackageHandler_shell [no_shell]: "InstallPackageHandler (P\<lparr>ap_system := s\<rparr>) = InstallPackageHandler P"
  by (intro ext) (simp add: InstallPackageHandler_def install_files_def install_downloaded_def DownloadFiles_def no_shell Let_def cong: if_cong option.case_cong)

lemma ShutdownHandler_shell:
  "same_trial_runs s s' \<Longrightarrow> ShutdownHandler (P\<lparr>ap_system := s\<rparr>) j t r a = ShutdownHandler (P\<lparr>ap_system := s'\<rparr>) j t r a"
  by (cases r) (simp_all add: ShutdownHandler_def run_command_def same_trial_runs_def Let_def)

lemma run_operation_shell:
  "same_trial_runs s s' \<Longrightarrow>
   run_operation (P\<lparr>ap_system := s\<rparr>) j e d opn a = run_operation (P\<lparr>ap_system := s'\<rparr>) j e d opn a"
  by (simp add: run_operation_def no_shell ShutdownHandler_shell [of s s'] Let_def cong: if_cong option.case_cong)


text \<open>A job that asks for a restart, and a shell that takes note of what is not a trial run.\<close>

definition restart_job :: json where
  "restart_job = JObject [(str ''execution'', JObject [(str ''jobId'', JString [106]),
     (str ''jobDocument'', JObject [(str ''operation'', JString (str ''reboot''))])])]"

definition noting_shell :: "bytes \<Rightarrow> nat \<Rightarrow> int \<times> nat" where
  "noting_shell command w =
     (if command \<in> {GetShutdownSystemCommand True True, GetShutdownSystemCommand True False} then (0, w) else (0, w + 1))"


section \<open>The state of the system\<close>

definition quoted :: "bytes \<Rightarrow> bytes" where
  "quoted s = [34] @ s @ [34]"

fun separated :: "bytes list \<Rightarrow> bytes" where
  "separated [] = []"
| "separated [s] = s"
| "separated (s # t # ss) = s @ [44] @ separated (t # ss)"

definition package_names :: "(bytes \<times> json) list \<Rightarrow> bytes list" where
  "package_names ms = map (\<lambda>(name, v). takeWhile (\<lambda>b. b \<noteq> 0) name) (filter (\<lambda>(name, v). is_object v) ms)"

lemma status_packages_lists:
  "status_packages P a first ms =
     ((if first \<or> package_names ms = [] then [] else [44]) @ separated (map quoted (package_names ms)),
      concat (map quoted (filter (\<lambda>n. PackageIsRunning P n a) (package_names ms))))"
proof (induction ms arbitrary: first)
  case (Cons m ms)
  then show ?case
    by (cases m; cases "package_names ms") (auto simp: package_names_def quoted_def Let_def)
qed (simp add: package_names_def)

text \<open>in the report of the system the installed packages are their quoted names separated by commas; of the running
  ones the quoted names follow each other with nothing between them, so with two of them the list is not JSON.\<close>

theorem status_report_lists:
  "status_packages P a True ms =
     (separated (map quoted (package_names ms)),
      concat (map quoted (filter (\<lambda>n. PackageIsRunning P n a) (package_names ms))))"
  by (simp add: status_packages_lists)

end
