(* ===== verification/AgentRun.thy ===== *)
theory AgentRun
  imports AgentInstall ProgramTls
begin

text \<open>
  \<open>RunAgent\<close> (\<^verbatim>\<open>samples/JobsAgent/JobsAgent.cpp\<close>): the agent reads its packages, connects, starts the packages that want it,
  subscribes to its jobs, asks for the pending ones and waits forever; what happens to it meanwhile, the callbacks and the
  threads of the client, is an argument. The handlers for the loss of the connection only print. The agent passed in is the
  new object: its client and its jobs are assigned before they are used.
\<close>

text \<open>The queries after the subscription; a failure disconnects the client, with a response nobody looks at.\<close>

definition ask_for_jobs ::
  "(action_data option \<Rightarrow> 'n client \<Rightarrow> (ResponseCode \<times> action_data option \<times> 'n client) res)
   \<Rightarrow> ('n client \<Rightarrow> 'n client) \<Rightarrow> ('n, 'v) JobsAgent \<Rightarrow> ('n, 'v) JobsAgent res" where
  "ask_for_jobs runner wait a =
     bind_res (SendJobsQuery (ja_jobs a) JOB_GET_PENDING_TOPIC [] (ja_client a)) (\<lambda>(rc, c).
     bind_res (if rc = SUCCESS then SendJobsQuery (ja_jobs a) JOB_DESCRIBE_TOPIC (str ''$next'') c else Inr (rc, c)) (\<lambda>(rc, c).
       if rc \<noteq> SUCCESS then bind_res (Disconnect runner wait c) (\<lambda>(_, c). Inr (a\<lparr>ja_client := c\<rparr>))
       else Inr (a\<lparr>ja_client := c\<rparr>)))"

definition work ::
  "(action_data option \<Rightarrow> 'n client \<Rightarrow> (ResponseCode \<times> action_data option \<times> 'n client) res)
   \<Rightarrow> ('n client \<Rightarrow> 'n client) \<Rightarrow> (('n, 'v) JobsAgent \<Rightarrow> ('n, 'v) JobsAgent) \<Rightarrow> nat \<Rightarrow> nat \<Rightarrow> nat
   \<Rightarrow> ('n, 'v) JobsAgent \<Rightarrow> (ResponseCode \<times> ('n, 'v) JobsAgent) res" where
  "work runner wait meanwhile p_next_handler p_update_accepted_handler p_update_rejected_handler a =
     bind_res (JobsAgent_Subscribe runner wait p_next_handler p_update_accepted_handler p_update_rejected_handler a) (\<lambda>(rc, a).
     bind_res (if rc \<noteq> SUCCESS then Inr a else ask_for_jobs runner wait a) (\<lambda>a.
       let a = meanwhile a in
       bind_res (Disconnect runner wait (ja_client a)) (\<lambda>(_, c). Inr (SUCCESS, a\<lparr>ja_client := c\<rparr>))))"

definition RunAgent ::
  "nat \<Rightarrow> nat \<Rightarrow> 'w tls_library \<Rightarrow> 'w \<Rightarrow> 'v agent_platform \<Rightarrow> ConfigCommon \<Rightarrow> bytes \<Rightarrow> callbacks \<Rightarrow> nat \<Rightarrow> int
   \<Rightarrow> (action_data option \<Rightarrow> 'w OpenSSLConnection client \<Rightarrow>
         (ResponseCode \<times> action_data option \<times> 'w OpenSSLConnection client) res)
   \<Rightarrow> ('w OpenSSLConnection client \<Rightarrow> 'w OpenSSLConnection client) \<Rightarrow> ('w OpenSSLConnection client \<Rightarrow> 'w OpenSSLConnection client)
   \<Rightarrow> (('w OpenSSLConnection, 'v) JobsAgent \<Rightarrow> ('w OpenSSLConnection, 'v) JobsAgent) \<Rightarrow> nat \<Rightarrow> nat \<Rightarrow> nat \<Rightarrow> bytes
   \<Rightarrow> ('w OpenSSLConnection, 'v) JobsAgent \<Rightarrow> (ResponseCode \<times> ('w OpenSSLConnection, 'v) JobsAgent) res" where
  "RunAgent fuel wakeups lib w P cfg sdk_version print_handlers now random_number runner wait others meanwhile
      p_next_handler p_update_accepted_handler p_update_rejected_handler processTitle a =
     bind_res (load_installed_packages P processTitle a) (\<lambda>(rc, a).
       if rc \<noteq> SUCCESS then Inr (rc, a)
       else case InitializeTLS lib cfg w of
         (rc, p_network_connection) \<Rightarrow>
           if rc \<noteq> SUCCESS then Inr (rc, a)
           else
             bind_res (deref p_network_connection) (\<lambda>connection.
             bind_res (MqttClient_Create (Some (openssl_connection fuel wakeups lib)) (cfg_mqtt_command_timeout cfg)
                 print_handlers connection now) (\<lambda>p_iot_client.
             case p_iot_client of
               None \<Rightarrow> Inr (FAILURE, a)
             | Some c \<Rightarrow>
                 let client_id_tagged = cfg_base_client_id cfg @ str ''_jobs_agent_'' @ int_digits random_number in
                 bind_res (connect_as runner wait others sdk_version cfg client_id_tagged c) (\<lambda>(rc, c).
                   let a = a\<lparr>ja_client := c\<rparr> in
                   if rc \<noteq> MQTT_CONNACK_CONNECTION_ACCEPTED then Inr (rc, a)
                   else
                     bind_res (StartInstalledPackages P a) (\<lambda>a.
                     bind_res (deref (Jobs_Create (Some (ja_client a)) QOS1 (cfg_thing_name cfg) client_id_tagged)) (\<lambda>jobs.
                       work runner wait meanwhile p_next_handler p_update_accepted_handler p_update_rejected_handler
                         (a\<lparr>ja_jobs := jobs\<rparr>)))))))"

section \<open>Starting the packages\<close>

text \<open>The packages are objects under names without a zero, each name once, and forking never fails.\<close>

definition packages_ok :: "json \<Rightarrow> bool" where
  "packages_ok j \<longleftrightarrow> is_object j \<and> distinct (map fst (members j)) \<and>
     (\<forall>(name, v) \<in> set (members j). is_object v \<and> 0 \<notin> set name)"

definition wants_start :: "json \<Rightarrow> bool" where
  "wants_start v \<longleftrightarrow> map_of (members v) (str ''launchCommand'') \<noteq> None \<and> map_of (members v) (str ''autoStart'') = Some (JBool True)"

definition forks :: "'w agent_platform \<Rightarrow> bool" where
  "forks P \<longleftrightarrow> (\<forall>child w. fst (ap_fork P child w) \<noteq> -1)"

lemma auto_start_iff:
  assumes "is_object (ja_installed_packages a)" "map_of (members (ja_installed_packages a)) name = Some v" "is_object v"
  shows "PackageIsAutoStart name a = Inr (wants_start v)"
    and "PackageIsExecutable name a = Inr (map_of (members v) (str ''launchCommand'') \<noteq> None)"
  using assms
  by (auto simp: PackageIsAutoStart_def PackageIsExecutable_def HasMember_def get_member_def find_member_def wants_start_def
      split: option.splits)

definition registered_pid :: "bytes \<Rightarrow> ('n, 'w) JobsAgent \<Rightarrow> bool" where
  "registered_pid name a \<longleftrightarrow> map_find (ja_package_runtimes a) name \<noteq> None"

lemma StartPackage_registers:
  assumes "is_object (ja_installed_packages a)" "map_of (members (ja_installed_packages a)) name = Some v" "is_object v"
    and "wants_start v" "forks P" "map_wf (ja_package_runtimes a)"
  shows "\<exists>rc m' a'. StartPackage P m name a = Inr (rc, m', a') \<and> ja_installed_packages a' = ja_installed_packages a \<and>
    map_wf (ja_package_runtimes a') \<and> registered_pid name a' \<and> (\<forall>n. registered_pid n a \<longrightarrow> registered_pid n a')"
proof (cases "PackageIsRunning P name a")
  case True
  then have "registered_pid name a" by (auto simp: PackageIsRunning_def registered_pid_def split: option.splits)
  with True assms auto_start_iff(2) [OF assms(1-3)] show ?thesis
    by (auto simp: StartPackage_def Let_def wants_start_def)
next
  case False
  obtain pid w where f: "ap_fork P (start_child v) (ja_world a) = (pid, w)" by force
  then have "pid \<noteq> -1" using assms(5) by (metis forks_def fst_conv)
  moreover have "get_member (ja_installed_packages a) name = Inr v"
    using assms(1,2) by (simp add: get_member_def find_member_def)
  ultimately show ?thesis
    using False f assms auto_start_iff(2) [OF assms(1-3)]
    by (auto simp: StartPackage_def Let_def wants_start_def registered_pid_def map_wf_insert map_wf_erase map_find_insert
        map_find_erase)
qed

lemma takeWhile_no_zero: "0 \<notin> set name \<Longrightarrow> takeWhile (\<lambda>b. b \<noteq> 0) name = name"
  by (auto simp: takeWhile_eq_all_conv)

lemma start_installed_object:
  assumes "is_object v" "0 \<notin> set name"
  shows "start_installed P m ((name, v) # ms) a =
   bind_res (PackageIsAutoStart name a) (\<lambda>b.
     if \<not> b then start_installed P m ms a
     else bind_res (StartPackage P m name a) (\<lambda>(_, m, a). start_installed P m ms a))"
  unfolding start_installed.simps takeWhile_no_zero [OF assms(2)] Let_def using assms(1) by simp

lemma start_installed_all:
  assumes "\<forall>(name, v) \<in> set ms. is_object v \<and> 0 \<notin> set name \<and> map_of (members (ja_installed_packages a)) name = Some v"
    and "is_object (ja_installed_packages a)" "forks P" "map_wf (ja_package_runtimes a)"
  shows "\<exists>a'. start_installed P m ms a = Inr a' \<and> (\<forall>(name, v) \<in> set ms. wants_start v \<longrightarrow> registered_pid name a') \<and>
    (\<forall>n. registered_pid n a \<longrightarrow> registered_pid n a')"
  using assms
proof (induction ms arbitrary: m a)
  case (Cons e ms)
  obtain name v where e: "e = (name, v)" by force
  with Cons.prems(1) have v: "is_object v" "0 \<notin> set name"
    "map_of (members (ja_installed_packages a)) name = Some v" by auto
  note auto = auto_start_iff(1) [OF Cons.prems(2) v(3,1)]
  show ?case
  proof (cases "wants_start v")
    case False
    with Cons.IH [of a m] Cons.prems e v auto show ?thesis
      by (auto simp: start_installed_object simp del: start_installed.simps)
  next
    case True
    from StartPackage_registers [OF Cons.prems(2) v(3,1) True Cons.prems(3,4)] obtain rc m' a1 where
      s: "StartPackage P m name a = Inr (rc, m', a1)" "ja_installed_packages a1 = ja_installed_packages a"
        "map_wf (ja_package_runtimes a1)" "registered_pid name a1" "\<forall>n. registered_pid n a \<longrightarrow> registered_pid n a1" by blast
    with Cons.IH [of a1 m'] Cons.prems obtain a' where
      "start_installed P m' ms a1 = Inr a'" "\<forall>(name, v) \<in> set ms. wants_start v \<longrightarrow> registered_pid name a'"
      "\<forall>n. registered_pid n a1 \<longrightarrow> registered_pid n a'" by auto
    with s e v auto True show ?thesis by (auto simp: start_installed_object simp del: start_installed.simps)
  qed
qed simp

text \<open>when the agent starts, every package with a launch command that asks to be started automatically
  is registered with a process afterwards, and no package that was registered is lost.\<close>

theorem installed_packages_started:
  assumes "packages_ok (ja_installed_packages a)" "forks P" "map_wf (ja_package_runtimes a)"
  shows "\<exists>a'. StartInstalledPackages P a = Inr a' \<and>
    (\<forall>(name, v) \<in> set (members (ja_installed_packages a)). wants_start v \<longrightarrow> registered_pid name a') \<and>
    (\<forall>n. registered_pid n a \<longrightarrow> registered_pid n a')"
proof -
  have "\<forall>(name, v) \<in> set (members (ja_installed_packages a)). is_object v \<and> 0 \<notin> set name \<and>
      map_of (members (ja_installed_packages a)) name = Some v"
    using assms(1) by (auto simp: packages_ok_def)
  from start_installed_all [OF this _ assms(2,3)] assms(1) show ?thesis
    by (auto simp: StartInstalledPackages_def packages_ok_def)
qed

definition sample_list :: json where
  "sample_list = JObject [([112], JObject [(str ''launchCommand'', JString [108]), (str ''autoStart'', JBool True)])]"

theorem installed_packages_started_witness:
  "\<exists>c a'. MqttClient_Create (Some script_connection) 0 no_callbacks (script [] 0 0) 0 = Inr (Some c) \<and>
     StartInstalledPackages sample_platform ((sample_agent c ())\<lparr>ja_installed_packages := sample_list\<rparr>) = Inr a' \<and>
     registered_pid [112] a'"
proof -
  obtain c :: "script_device MqttClient" where
    c: "MqttClient_Create (Some script_connection) 0 no_callbacks (script [] 0 0) 0 = Inr (Some c)"
    using new_client_works [of script_connection 0 no_callbacks "script [] 0 0" 0] by blast
  let ?a = "(sample_agent c ())\<lparr>ja_installed_packages := sample_list\<rparr>"
  have "packages_ok (ja_installed_packages ?a)" "forks (sample_platform :: unit agent_platform)"
    "map_wf (ja_package_runtimes ?a)"
    by (simp_all add: packages_ok_def sample_list_def forks_def sample_platform_def sample_agent_def)
  from installed_packages_started [OF this] obtain a' where a': "StartInstalledPackages sample_platform ?a = Inr a'"
    "\<forall>(name, v) \<in> set (members (ja_installed_packages ?a)). wants_start v \<longrightarrow> registered_pid name a'" by blast
  have "registered_pid [112] a'" using a'(2) by (simp add: sample_list_def wants_start_def str_def)
  with c a'(1) show ?thesis by blast
qed

section \<open>What the agent reports\<close>

text \<open>An agent that was connected reports success, whatever became of its subscription and its queries: when the
  subscription fails it waits for jobs that cannot arrive.\<close>

lemma failed_subscription_unnoticed:
  assumes "JobsAgent_Subscribe runner wait h1 h2 h3 a = Inr (rc, a1)" "rc \<noteq> SUCCESS"
    and "Disconnect runner wait (ja_client (meanwhile a1)) = Inr (rc2, c)"
  shows "work runner wait meanwhile h1 h2 h3 a = Inr (SUCCESS, (meanwhile a1)\<lparr>ja_client := c\<rparr>)"
  using assms by (simp add: work_def Let_def)

end
