(* ===== verification/Cli.thy ===== *)
theory Cli
  imports ProgramTls TlsStream
begin

text \<open>
  The command line program (\<^verbatim>\<open>cli/cli.cpp\<close>): it reads its configuration and its options, connects, and publishes a hundred
  numbered messages or subscribes to one topic. What \<^verbatim>\<open>getopt_long\<close> finds is a list of options, each with its argument;
  an argument is all the memory that can be read from its pointer on, so that it holds the text, its zero and what comes
  after. The lines the user enters are arguments, and so is what the other threads do while the program sleeps. The
  variant of \<open>RunPublish\<close> without a count, which nothing calls, and the output are left out.
\<close>

definition MAX_PATH_LENGTH :: nat where "MAX_PATH_LENGTH = 4096"

record 'n CLI =
  cli_port :: "bytes option"
  cli_qos :: "bytes option"
  cli_is_publish :: bool
  cli_is_subscribe :: bool
  cli_topic :: bytes
  cli_endpoint :: bytes
  cli_config :: ConfigCommon
  cli_iot_client :: "'n MqttClient option"

section \<open>The options\<close>

definition c_string :: "bytes \<Rightarrow> bytes" where
  "c_string memory = takeWhile (\<lambda>b. b \<noteq> 0) memory"

text \<open>
  The constructor of \<^verbatim>\<open>std::string\<close> with a length reads that many bytes. The port and the quality of service are not used
  by the program; their text is kept instead of what \<^verbatim>\<open>atoi\<close> makes of it. What is no option, or has no argument where it
  needs one, is reported and passed over.
\<close>

definition apply_option :: "char \<Rightarrow> bytes \<Rightarrow> 'n CLI \<Rightarrow> 'n CLI res" where
  "apply_option opt optarg cli =
     (if opt = CHR ''s'' then Inr (cli\<lparr>cli_is_subscribe := True\<rparr>)
      else if opt = CHR ''p'' then Inr (cli\<lparr>cli_is_publish := True\<rparr>)
      else if opt = CHR ''e'' then
        (if length optarg < MAX_PATH_LENGTH then Inl OutOfBounds
         else Inr (cli\<lparr>cli_endpoint := take MAX_PATH_LENGTH optarg\<rparr>))
      else if opt = CHR ''r'' then Inr (cli\<lparr>cli_port := Some (c_string optarg)\<rparr>)
      else if opt = CHR ''t'' then Inr (cli\<lparr>cli_topic := take (MAX_PATH_LENGTH - 1) (c_string optarg)\<rparr>)
      else if opt = CHR ''q'' then Inr (cli\<lparr>cli_qos := Some (c_string optarg)\<rparr>)
      else Inr cli)"

fun apply_options :: "(char \<times> bytes) list \<Rightarrow> 'n CLI \<Rightarrow> 'n CLI res" where
  "apply_options [] cli = Inr cli"
| "apply_options ((opt, optarg) # opts) cli = bind_res (apply_option opt optarg cli) (apply_options opts)"

definition InitializeCliConfig ::
  "bytes option \<Rightarrow> (bytes \<Rightarrow> bytes option) \<Rightarrow> (bytes \<Rightarrow> json option) \<Rightarrow> 'n CLI \<Rightarrow> (ResponseCode \<times> 'n CLI) res" where
  "InitializeCliConfig cwd fopen parse cli =
     bind_res (InitializeCommon cwd fopen parse (str ''CliConfig.json'') (cli_config cli)) (\<lambda>(rc, cfg).
       Inr (rc, cli\<lparr>cli_config := cfg\<rparr>))"

text \<open>
  Neither the response of reading the configuration nor the one of \<open>InitializeTLS\<close> is looked at; without a connection
  there is no client.
\<close>

definition InitializeCLI ::
  "nat \<Rightarrow> nat \<Rightarrow> 'w tls_library \<Rightarrow> bytes option \<Rightarrow> (bytes \<Rightarrow> bytes option) \<Rightarrow> (bytes \<Rightarrow> json option) \<Rightarrow> callbacks \<Rightarrow> nat \<Rightarrow> 'w
   \<Rightarrow> (char \<times> bytes) list \<Rightarrow> 'w OpenSSLConnection CLI \<Rightarrow> (ResponseCode \<times> 'w OpenSSLConnection CLI) res" where
  "InitializeCLI fuel wakeups lib cwd fopen parse no_handlers now w opts cli =
     bind_res (InitializeCliConfig cwd fopen parse cli) (\<lambda>(_, cli).
     bind_res (apply_options opts cli) (\<lambda>cli.
       if cli_is_publish cli = cli_is_subscribe cli then Inr (FAILURE, cli)
       else
         case InitializeTLS lib (cli_config cli) w of
           (_, None) \<Rightarrow> Inr (SUCCESS, cli\<lparr>cli_iot_client := None\<rparr>)
         | (_, Some connection) \<Rightarrow>
             bind_res (MqttClient_Create (Some (openssl_connection fuel wakeups lib))
                 (cfg_mqtt_command_timeout (cli_config cli)) no_handlers connection now) (\<lambda>c.
               Inr (SUCCESS, cli\<lparr>cli_iot_client := c\<rparr>))))"

section \<open>Running\<close>

definition Connect_cli ::
  "(action_data option \<Rightarrow> 'n client \<Rightarrow> (ResponseCode \<times> action_data option \<times> 'n client) res)
   \<Rightarrow> ('n client \<Rightarrow> 'n client) \<Rightarrow> ('n client \<Rightarrow> 'n client) \<Rightarrow> bytes \<Rightarrow> 'n CLI \<Rightarrow> (ResponseCode \<times> 'n CLI) res" where
  "Connect_cli runner wait others sdk_version cli =
     (if \<not> cli_is_subscribe cli \<and> \<not> cli_is_publish cli then Inr (FAILURE, cli)
      else
        let client_id = cfg_base_client_id (cli_config cli)
              @ (if cli_is_subscribe cli then str ''_subscribe'' else str ''_publish'')
        in bind_res (deref (cli_iot_client cli)) (\<lambda>c.
           bind_res (connect_as runner wait others sdk_version (cli_config cli) client_id c) (\<lambda>(rc, c).
             Inr (rc, cli\<lparr>cli_iot_client := Some c\<rparr>))))"

text \<open>\<open>sleep\<close> is what the other threads do in the pauses.\<close>

definition publish_numbered ::
  "(action_data option \<Rightarrow> 'n client \<Rightarrow> (ResponseCode \<times> action_data option \<times> 'n client) res)
   \<Rightarrow> ('n client \<Rightarrow> 'n client) \<Rightarrow> ('n client \<Rightarrow> 'n client) \<Rightarrow> bytes \<Rightarrow> int \<Rightarrow> 'n MqttClient \<Rightarrow> (ResponseCode \<times> 'n MqttClient) res" where
  "publish_numbered runner wait sleep topic itr c =
     bind_res (Publish runner wait (Create_Utf8String topic) False False QOS1 (str ''Hello from SDK : '' @ int_digits itr) c)
       (\<lambda>(rc, c). Inr (rc, on_state sleep c))"

text \<open>The loop as it is written: \<open>continue\<close> goes on with the condition.\<close>

function RunPublish_loop ::
  "(action_data option \<Rightarrow> 'n client \<Rightarrow> (ResponseCode \<times> action_data option \<times> 'n client) res)
   \<Rightarrow> ('n client \<Rightarrow> 'n client) \<Rightarrow> ('n client \<Rightarrow> 'n client) \<Rightarrow> bytes \<Rightarrow> int \<Rightarrow> int \<Rightarrow> int \<Rightarrow> 'n MqttClient
   \<Rightarrow> (ResponseCode \<times> 'n MqttClient) res" where
  "RunPublish_loop runner wait sleep topic msg_count itr error_count c =
     bind_res (publish_numbered runner wait sleep topic itr c) (\<lambda>(rc, c).
       if rc \<noteq> SUCCESS \<and> error_count > 5 then
         (let c = on_state sleep c in
          if itr + 1 < msg_count then RunPublish_loop runner wait sleep topic msg_count (itr + 1) error_count c
          else Inr (SUCCESS, c))
       else if itr + 1 < msg_count \<and> rc = SUCCESS then RunPublish_loop runner wait sleep topic msg_count (itr + 1) 0 c
       else Inr (rc, c))"
  by pat_completeness auto
termination
  by (relation "measure (\<lambda>(runner, wait, sleep, topic, msg_count, itr, error_count, c). nat (msg_count - itr))") auto

declare RunPublish_loop.simps [simp del]

definition RunPublish_count ::
  "(action_data option \<Rightarrow> 'n client \<Rightarrow> (ResponseCode \<times> action_data option \<times> 'n client) res)
   \<Rightarrow> ('n client \<Rightarrow> 'n client) \<Rightarrow> ('n client \<Rightarrow> 'n client) \<Rightarrow> bytes \<Rightarrow> int \<Rightarrow> 'n CLI \<Rightarrow> (ResponseCode \<times> 'n CLI) res" where
  "RunPublish_count runner wait sleep topic msg_count cli =
     bind_res (deref (cli_iot_client cli)) (\<lambda>c.
     bind_res (RunPublish_loop runner wait sleep topic msg_count 0 0 c) (\<lambda>(rc, c).
       Inr (rc, cli\<lparr>cli_iot_client := Some c\<rparr>)))"

text \<open>A topic that is not valid gives the null pointer, which the packet dereferences. \<open>p_handler\<close> is \<open>SubscribeCallback\<close>.\<close>

definition Subscribe_cli :: "nat \<Rightarrow> Utf8String option \<Rightarrow> QoS \<Rightarrow> 'n CLI \<Rightarrow> (ResponseCode \<times> 'n CLI) res" where
  "Subscribe_cli p_handler p_topic_name qos cli =
     bind_res (deref (cli_iot_client cli)) (\<lambda>c.
     bind_res (deref (Create_Subscription p_topic_name qos (Some p_handler) None)) (\<lambda>s.
       case sub_alloc s (core_client_state c) of
         (r, st) \<Rightarrow> bind_res (SubscribeAsync [r] None 0 (c\<lparr>core_client_state := st\<rparr>)) (\<lambda>(rc, packet_id, c).
           Inr (rc, cli\<lparr>cli_iot_client := Some c\<rparr>))))"

definition RunSubscribe :: "nat \<Rightarrow> ('n client \<Rightarrow> 'n client) \<Rightarrow> bytes \<Rightarrow> 'n CLI \<Rightarrow> (ResponseCode \<times> 'n CLI) res" where
  "RunSubscribe p_handler meanwhile topic cli =
     bind_res (Subscribe_cli p_handler (Create_Utf8String topic) QOS1 cli) (\<lambda>(rc, cli).
       Inr (rc, cli\<lparr>cli_iot_client := map_option (on_state meanwhile) (cli_iot_client cli)\<rparr>))"

definition RunCLI ::
  "(action_data option \<Rightarrow> 'n client \<Rightarrow> (ResponseCode \<times> action_data option \<times> 'n client) res)
   \<Rightarrow> ('n client \<Rightarrow> 'n client) \<Rightarrow> ('n client \<Rightarrow> 'n client) \<Rightarrow> ('n client \<Rightarrow> 'n client) \<Rightarrow> ('n client \<Rightarrow> 'n client) \<Rightarrow> bytes
   \<Rightarrow> nat \<Rightarrow> bytes \<Rightarrow> 'n CLI \<Rightarrow> (ResponseCode \<times> 'n CLI) res" where
  "RunCLI runner wait others sleep meanwhile sdk_version p_handler topic cli =
     bind_res (Connect_cli runner wait others sdk_version cli) (\<lambda>(rc, cli).
       if rc \<noteq> MQTT_CONNACK_CONNECTION_ACCEPTED then Inr (rc, cli)
       else if cli_is_publish cli then RunPublish_count runner wait sleep topic 100 cli
       else if cli_is_subscribe cli then RunSubscribe p_handler meanwhile topic cli
       else Inr (rc, cli))"

definition CLI_new :: "ConfigCommon \<Rightarrow> 'n CLI" where
  "CLI_new cfg = \<lparr>cli_port = None, cli_qos = None, cli_is_publish = False, cli_is_subscribe = False, cli_topic = [],
     cli_endpoint = [], cli_config = cfg, cli_iot_client = None\<rparr>"

section \<open>Properties\<close>

text \<open>Publishing until the first failure.\<close>

function publish_until_failure ::
  "(action_data option \<Rightarrow> 'n client \<Rightarrow> (ResponseCode \<times> action_data option \<times> 'n client) res)
   \<Rightarrow> ('n client \<Rightarrow> 'n client) \<Rightarrow> ('n client \<Rightarrow> 'n client) \<Rightarrow> bytes \<Rightarrow> int \<Rightarrow> int \<Rightarrow> 'n MqttClient
   \<Rightarrow> (ResponseCode \<times> 'n MqttClient) res" where
  "publish_until_failure runner wait sleep topic msg_count itr c =
     bind_res (publish_numbered runner wait sleep topic itr c) (\<lambda>(rc, c).
       if itr + 1 < msg_count \<and> rc = SUCCESS then publish_until_failure runner wait sleep topic msg_count (itr + 1) c
       else Inr (rc, c))"
  by pat_completeness auto
termination
  by (relation "measure (\<lambda>(runner, wait, sleep, topic, msg_count, itr, c). nat (msg_count - itr))") auto

declare publish_until_failure.simps [simp del]

text \<open>the program stops at the first message that is not published. The branch that waits and goes on after a
  failure is never taken, because the count of errors it asks for is never increased.\<close>

theorem publishing_stops_at_failure:
  "RunPublish_loop runner wait sleep topic msg_count itr 0 c = publish_until_failure runner wait sleep topic msg_count itr c"
proof (induction runner wait sleep topic msg_count itr c rule: publish_until_failure.induct)
  case (1 runner wait sleep topic msg_count itr c)
  show ?case
    by (subst RunPublish_loop.simps, subst publish_until_failure.simps) (auto simp: 1 intro!: bind_res_cong)
qed

definition keeps_client :: "'n CLI \<Rightarrow> 'n CLI \<Rightarrow> bool" where
  "keeps_client cli cli' \<longleftrightarrow> cli_config cli' = cli_config cli \<and> cli_iot_client cli' = cli_iot_client cli"

lemma apply_option_effect:
  "apply_option opt optarg cli = Inr cli' \<Longrightarrow>
   cli_is_publish cli' = (cli_is_publish cli \<or> opt = CHR ''p'') \<and>
   cli_is_subscribe cli' = (cli_is_subscribe cli \<or> opt = CHR ''s'') \<and> keeps_client cli cli'"
  by (auto simp: apply_option_def keeps_client_def split: if_splits)

lemma apply_options_effect:
  "apply_options opts cli = Inr cli' \<Longrightarrow>
   cli_is_publish cli' = (cli_is_publish cli \<or> CHR ''p'' \<in> fst ` set opts) \<and>
   cli_is_subscribe cli' = (cli_is_subscribe cli \<or> CHR ''s'' \<in> fst ` set opts) \<and> keeps_client cli cli'"
proof (induction opts arbitrary: cli)
  case (Cons o1 opts)
  obtain opt optarg where o1: "o1 = (opt, optarg)" by force
  with Cons.prems obtain cli1 where 1: "apply_option opt optarg cli = Inr cli1" "apply_options opts cli1 = Inr cli'"
    by (auto simp: bind_res_Inr_iff)
  from apply_option_effect [OF 1(1)] Cons.IH [OF 1(2)] show ?case by (auto simp: o1 keeps_client_def)
qed (simp add: keeps_client_def)

lemma InitializeCLI_cases:
  assumes "InitializeCLI fuel wakeups lib cwd fopen parse cb now w opts (CLI_new cfg) = Inr (rc, cli)"
  obtains (refused) "rc = FAILURE" "(CHR ''p'' \<in> fst ` set opts) = (CHR ''s'' \<in> fst ` set opts)"
  | (no_connection) "rc = SUCCESS" "(CHR ''p'' \<in> fst ` set opts) \<noteq> (CHR ''s'' \<in> fst ` set opts)"
      "cli_is_publish cli \<or> cli_is_subscribe cli" "snd (InitializeTLS lib (cli_config cli) w) = None" "cli_iot_client cli = None"
  | (connection) connection where "rc = SUCCESS" "(CHR ''p'' \<in> fst ` set opts) \<noteq> (CHR ''s'' \<in> fst ` set opts)"
      "snd (InitializeTLS lib (cli_config cli) w) = Some connection"
proof -
  from assms obtain rc0 cfg0 cli1 where
    opts: "apply_options opts ((CLI_new cfg :: 'a OpenSSLConnection CLI)\<lparr>cli_config := cfg0\<rparr>) = Inr cli1" and
    run: "(if cli_is_publish cli1 = cli_is_subscribe cli1 then Inr (FAILURE, cli1)
       else case InitializeTLS lib (cli_config cli1) w of
           (_, None) \<Rightarrow> Inr (SUCCESS, cli1\<lparr>cli_iot_client := None\<rparr>)
         | (_, Some connection) \<Rightarrow>
             bind_res (MqttClient_Create (Some (openssl_connection fuel wakeups lib))
                 (cfg_mqtt_command_timeout (cli_config cli1)) cb connection now) (\<lambda>c.
               Inr (SUCCESS, cli1\<lparr>cli_iot_client := c\<rparr>))) = Inr (rc, cli)"
    by (auto simp: InitializeCLI_def InitializeCliConfig_def bind_res_Inr_iff)
  have flags: "cli_is_publish cli1 = (CHR ''p'' \<in> fst ` set opts)" "cli_is_subscribe cli1 = (CHR ''s'' \<in> fst ` set opts)"
    using apply_options_effect [OF opts] by (auto simp: CLI_new_def)
  show ?thesis
  proof (cases "cli_is_publish cli1 = cli_is_subscribe cli1")
    case True
    with run flags show ?thesis by (intro refused) auto
  next
    case False
    show ?thesis
    proof (cases "snd (InitializeTLS lib (cli_config cli1) w)")
      case None
      with run False flags show ?thesis by (intro no_connection) (auto split: prod.splits option.splits)
    next
      case (Some connection)
      with run False flags show ?thesis
        by (intro connection) (auto simp: bind_res_Inr_iff split: prod.splits option.splits)
    qed
  qed
qed

text \<open>the program wants to publish or to subscribe, but not both: initialising it succeeds exactly when one of the two
  options was given, whether or not there is a configuration or a connection.\<close>

theorem one_mode:
  assumes "InitializeCLI fuel wakeups lib cwd fopen parse cb now w opts (CLI_new cfg) = Inr (rc, cli)"
  shows "rc = SUCCESS \<longleftrightarrow> (CHR ''p'' \<in> fst ` set opts) \<noteq> (CHR ''s'' \<in> fst ` set opts)"
  using assms by (cases rule: InitializeCLI_cases) auto

text \<open>a connection that could not be initialised goes unnoticed until the program dereferences the client it does not
  have.\<close>

theorem failed_tls_crashes:
  assumes "InitializeCLI fuel wakeups lib cwd fopen parse cb now w opts (CLI_new cfg) = Inr (SUCCESS, cli)"
    and "fst (InitializeTLS lib (cli_config cli) w) \<noteq> SUCCESS"
  shows "RunCLI runner wait others sleep meanwhile sdk_version p_handler topic cli = Inl NullPointer"
proof -
  have "snd (InitializeTLS lib (cli_config cli) w) = None"
    using assms(2) by (auto simp: InitializeTLS_def split: prod.splits if_splits)
  with assms(1) show ?thesis
    by (cases rule: InitializeCLI_cases) (auto simp: RunCLI_def Connect_cli_def Let_def)
qed

text \<open>an endpoint on the command line is read beyond its end, unless four kilobytes can be read from where it begins.\<close>

theorem endpoint_option_overreads:
  assumes "(CHR ''e'', optarg) \<in> set opts" "length optarg < 4096"
  shows "apply_options opts cli = Inl OutOfBounds"
  using assms(1)
proof (induction opts arbitrary: cli)
  case (Cons o1 opts)
  obtain opt arg where o1: "o1 = (opt, arg)" by force
  show ?case
  proof (cases "apply_option opt arg cli")
    case (Inl e)
    then have "e = OutOfBounds" by (auto simp: apply_option_def split: if_splits)
    with Inl o1 show ?thesis by simp
  next
    case (Inr cli1)
    then have "o1 \<noteq> (CHR ''e'', optarg)" using assms(2) o1 by (auto simp: apply_option_def MAX_PATH_LENGTH_def split: if_splits)
    with Inr o1 Cons show ?thesis by auto
  qed
qed simp

section \<open>At concrete options\<close>

lemma no_file_config: "InitializeCommon (Some [47]) (\<lambda>_. None) (\<lambda>_. None) (str ''CliConfig.json'') cfg =
    Inr (FILE_OPEN_ERROR, cfg)"
  by (simp add: InitializeCommon_def InitializeFromJsonFile_def GetCurrentPath_def in_directory_def)

text \<open>A library that cannot make a context; there is no configuration file.\<close>

definition broken_library :: "tls_world tls_library" where
  "broken_library = script_library\<lparr>lib_ctx_new := (\<lambda>w. (False, w))\<rparr>"

lemma broken_tls: "InitializeTLS broken_library cfg w = (FAILURE, None)"
  by (simp add: InitializeTLS_def OpenSSL_Initialize_def broken_library_def lib_call_def script_library_def OpenSSLConnection_new_def)

lemma broken_start: "InitializeCLI 9 9 broken_library (Some [47]) (\<lambda>_. None) (\<lambda>_. None) no_callbacks 0 w [(CHR ''p'', [])] (CLI_new cfg) =
    Inr (SUCCESS, (CLI_new cfg)\<lparr>cli_is_publish := True\<rparr>)"
  by (simp add: InitializeCLI_def InitializeCliConfig_def no_file_config apply_option_def broken_tls CLI_new_def)

theorem one_mode_witness:
  "\<forall>w. InitializeCLI 9 9 broken_library (Some [47]) (\<lambda>_. None) (\<lambda>_. None) no_callbacks 0 w [(CHR ''p'', [])] (CLI_new no_config) =
     Inr (SUCCESS, (CLI_new no_config)\<lparr>cli_is_publish := True\<rparr>) \<and> (CHR ''p'' \<in> {CHR ''p''}) \<noteq> (CHR ''s'' \<in> {CHR ''p''})"
  using one_mode [OF broken_start] broken_start by auto

theorem failed_tls_crashes_witness:
  "RunCLI (\<lambda>d st. Inr (SUCCESS, d, st)) id id id id [] 0 [116]
     ((CLI_new no_config)\<lparr>cli_is_publish := True\<rparr> :: tls_world OpenSSLConnection CLI) = Inl NullPointer"
  using failed_tls_crashes [OF broken_start] by (simp add: broken_tls)

theorem endpoint_option_overreads_witness:
  "apply_options [(CHR ''p'', []), (CHR ''e'', [104, 0])] (CLI_new no_config :: tls_world OpenSSLConnection CLI) = Inl OutOfBounds"
  by (rule endpoint_option_overreads [of "[104, 0]"]) simp_all

end
