(* ===== verification/PubSub.thy ===== *)
theory PubSub
  imports ProgramTls Shadow
begin

text \<open>
  The publish and subscribe sample (\<^verbatim>\<open>samples/PubSub/PubSub.cpp\<close>): it subscribes to a topic, publishes numbered messages to it
  as fast as the queue takes them, waits until they have come back, unsubscribes and disconnects. The two atomic counters
  and the client are the state; what the callback and the threads of the client do to it while the program sleeps is
  \<open>sleep\<close>. A full queue is tried again for as long as it is full, so the two loops have fuel. Output is left out.
\<close>

record 'n PubSub =
  ps_cur_pending_messages :: int
  ps_total_published_messages :: int
  ps_iot_client :: "'n MqttClient"

definition SDK_SAMPLE_TOPIC :: bytes where "SDK_SAMPLE_TOPIC = str ''sdk/test/cpp''"

definition numbered_payload :: "int \<Rightarrow> bytes" where
  "numbered_payload itr = str ''Hello from SDK : '' @ int_digits itr"

definition SubscribeCallback :: "bytes \<Rightarrow> bytes \<Rightarrow> 'n PubSub \<Rightarrow> ResponseCode \<times> 'n PubSub" where
  "SubscribeCallback topic_name payload s =
     (SUCCESS, s\<lparr>ps_cur_pending_messages := ps_cur_pending_messages s - 1\<rparr>)"

definition count_published :: "'n PubSub \<Rightarrow> 'n PubSub" where
  "count_published s = s\<lparr>ps_cur_pending_messages := ps_cur_pending_messages s + 1,
     ps_total_published_messages := ps_total_published_messages s + 1\<rparr>"

fun RunPublish_from ::
  "nat \<Rightarrow> ('n PubSub \<Rightarrow> 'n PubSub) \<Rightarrow> int \<Rightarrow> int \<Rightarrow> u16 \<Rightarrow> 'n PubSub \<Rightarrow> (ResponseCode \<times> 'n PubSub) res" where
  "RunPublish_from 0 sleep msg_count itr packet_id s = Inl OutOfFuel"
| "RunPublish_from (Suc fuel) sleep msg_count itr packet_id s =
     bind_res (PublishAsync (Create_Utf8String SDK_SAMPLE_TOPIC) False False QOS1 (numbered_payload itr) None packet_id
         (ps_iot_client s)) (\<lambda>(rc, packet_id, c).
       let s = s\<lparr>ps_iot_client := c\<rparr>;
           (itr, s) = (if rc = SUCCESS then (itr, count_published s)
                       else if rc = ACTION_QUEUE_FULL then (itr - 1, sleep s) else (itr, s))
       in if itr + 1 \<le> msg_count \<and> (rc = SUCCESS \<or> rc = ACTION_QUEUE_FULL)
          then RunPublish_from fuel sleep msg_count (itr + 1) packet_id s
          else Inr (rc, s))"

definition RunPublish :: "nat \<Rightarrow> ('n PubSub \<Rightarrow> 'n PubSub) \<Rightarrow> int \<Rightarrow> 'n PubSub \<Rightarrow> (ResponseCode \<times> 'n PubSub) res" where
  "RunPublish fuel sleep msg_count s = RunPublish_from fuel sleep msg_count 1 0 s"

definition Subscribe_sample ::
  "(action_data option \<Rightarrow> 'n client \<Rightarrow> (ResponseCode \<times> action_data option \<times> 'n client) res)
   \<Rightarrow> ('n client \<Rightarrow> 'n client) \<Rightarrow> ('n PubSub \<Rightarrow> 'n PubSub) \<Rightarrow> nat \<Rightarrow> 'n PubSub \<Rightarrow> (ResponseCode \<times> 'n PubSub) res" where
  "Subscribe_sample runner wait sleep p_sub_handler s =
     (let c = ps_iot_client s;
          (ps, st) = alloc_subscriptions
            [Create_Subscription (Create_Utf8String SDK_SAMPLE_TOPIC) QOS0 (Some p_sub_handler) None] (core_client_state c)
      in bind_res (Subscribe_pointers runner wait ps (c\<lparr>core_client_state := st\<rparr>)) (\<lambda>(rc, c).
           Inr (rc, sleep (s\<lparr>ps_iot_client := c\<rparr>))))"

definition Unsubscribe_sample ::
  "(action_data option \<Rightarrow> 'n client \<Rightarrow> (ResponseCode \<times> action_data option \<times> 'n client) res)
   \<Rightarrow> ('n client \<Rightarrow> 'n client) \<Rightarrow> ('n PubSub \<Rightarrow> 'n PubSub) \<Rightarrow> 'n PubSub \<Rightarrow> (ResponseCode \<times> 'n PubSub) res" where
  "Unsubscribe_sample runner wait sleep s =
     bind_res (Unsubscribe runner wait [Create_Utf8String SDK_SAMPLE_TOPIC] (ps_iot_client s)) (\<lambda>(rc, c).
       Inr (rc, sleep (s\<lparr>ps_iot_client := c\<rparr>)))"

fun unsubscribe_loop ::
  "nat \<Rightarrow> (action_data option \<Rightarrow> 'n client \<Rightarrow> (ResponseCode \<times> action_data option \<times> 'n client) res)
   \<Rightarrow> ('n client \<Rightarrow> 'n client) \<Rightarrow> ('n PubSub \<Rightarrow> 'n PubSub) \<Rightarrow> 'n PubSub \<Rightarrow> (ResponseCode \<times> 'n PubSub) res" where
  "unsubscribe_loop 0 runner wait sleep s = Inl OutOfFuel"
| "unsubscribe_loop (Suc fuel) runner wait sleep s =
     bind_res (Unsubscribe_sample runner wait sleep s) (\<lambda>(rc, s).
       if rc = ACTION_QUEUE_FULL then unsubscribe_loop fuel runner wait sleep (sleep s) else Inr (rc, s))"

text \<open>At most the given number of pauses, until no message is pending.\<close>

fun wait_for_messages :: "nat \<Rightarrow> ('n PubSub \<Rightarrow> 'n PubSub) \<Rightarrow> 'n PubSub \<Rightarrow> 'n PubSub" where
  "wait_for_messages 0 sleep s = s"
| "wait_for_messages (Suc n) sleep s =
     (let s = sleep s in if ps_cur_pending_messages s = 0 then s else wait_for_messages n sleep s)"

text \<open>After the connection: \<open>MESSAGE_COUNT\<close> is five.\<close>

definition exchange ::
  "nat \<Rightarrow> (action_data option \<Rightarrow> 'n client \<Rightarrow> (ResponseCode \<times> action_data option \<times> 'n client) res)
   \<Rightarrow> ('n client \<Rightarrow> 'n client) \<Rightarrow> ('n PubSub \<Rightarrow> 'n PubSub) \<Rightarrow> nat \<Rightarrow> 'n PubSub \<Rightarrow> (ResponseCode \<times> 'n PubSub) res" where
  "exchange fuel runner wait sleep p_sub_handler s =
     bind_res (Subscribe_sample runner wait sleep p_sub_handler s) (\<lambda>(rc, s).
     bind_res
       (if rc \<noteq> SUCCESS then Inr s
        else
          bind_res (RunPublish fuel sleep 5 s) (\<lambda>(rc, s).
          bind_res (if rc \<noteq> SUCCESS then bind_res (Disconnect runner wait (ps_iot_client s)) (\<lambda>(_, c). Inr (s\<lparr>ps_iot_client := c\<rparr>))
                    else Inr (wait_for_messages 100 sleep s)) (\<lambda>s.
          bind_res (unsubscribe_loop fuel runner wait sleep s) (\<lambda>(_, s). Inr s)))) (\<lambda>s.
     bind_res (Disconnect runner wait (ps_iot_client s)) (\<lambda>(_, c). Inr (SUCCESS, s\<lparr>ps_iot_client := c\<rparr>))))"

definition RunSample ::
  "nat \<Rightarrow> nat \<Rightarrow> nat \<Rightarrow> 'w tls_library \<Rightarrow> 'w \<Rightarrow> ConfigCommon \<Rightarrow> bytes \<Rightarrow> callbacks \<Rightarrow> nat \<Rightarrow> int
   \<Rightarrow> (action_data option \<Rightarrow> 'w OpenSSLConnection client \<Rightarrow>
         (ResponseCode \<times> action_data option \<times> 'w OpenSSLConnection client) res)
   \<Rightarrow> ('w OpenSSLConnection client \<Rightarrow> 'w OpenSSLConnection client) \<Rightarrow> ('w OpenSSLConnection client \<Rightarrow> 'w OpenSSLConnection client)
   \<Rightarrow> ('w OpenSSLConnection PubSub \<Rightarrow> 'w OpenSSLConnection PubSub) \<Rightarrow> nat
   \<Rightarrow> (ResponseCode \<times> 'w OpenSSLConnection PubSub option) res" where
  "RunSample fuel wakeups loops lib w cfg sdk_version print_handlers now random_number runner wait others sleep p_sub_handler =
     (case InitializeTLS lib cfg w of
        (rc, p_network_connection) \<Rightarrow>
          if rc \<noteq> SUCCESS then Inr (rc, None)
          else
            bind_res (deref p_network_connection) (\<lambda>connection.
            bind_res (MqttClient_Create (Some (openssl_connection fuel wakeups lib)) (cfg_mqtt_command_timeout cfg)
                print_handlers connection now) (\<lambda>p_iot_client.
            case p_iot_client of
              None \<Rightarrow> Inr (FAILURE, None)
            | Some c \<Rightarrow>
                bind_res (connect_as runner wait others sdk_version cfg
                    (cfg_base_client_id cfg @ str ''_pub_sub_tester_'' @ int_digits random_number) c) (\<lambda>(rc, c).
                  let s = \<lparr>ps_cur_pending_messages = 0, ps_total_published_messages = 0, ps_iot_client = c\<rparr>
                  in if rc \<noteq> MQTT_CONNACK_CONNECTION_ACCEPTED then Inr (rc, Some s)
                     else bind_res (exchange loops runner wait sleep p_sub_handler s) (\<lambda>(rc, s). Inr (rc, Some s))))))"

section \<open>Publishing all messages\<close>

lemma sample_topic_valid: "\<exists>topic. Create_Utf8String SDK_SAMPLE_TOPIC = Some topic"
proof -
  have "is_valid SDK_SAMPLE_TOPIC" by (rule is_valid_ascii) (simp add: SDK_SAMPLE_TOPIC_def str_def)
  then show ?thesis by (simp add: Create_Utf8String_def IsValidInput_def)
qed

definition room :: "'n MqttClient \<Rightarrow> bool" where
  "room c \<longleftrightarrow> length (ccs_outbound_action_queue (core_client_state c)) < ccs_max_queue_size (core_client_state c)"

abbreviation queue_size :: "'n MqttClient \<Rightarrow> nat" where "queue_size c \<equiv> ccs_max_queue_size (core_client_state c)"

text \<open>What a request does to the queue: it is appended when there is room.\<close>

lemma publish_room:
  "\<exists>pid c'. PublishAsync (Create_Utf8String SDK_SAMPLE_TOPIC) False False QOS1 payload None packet_id c =
     Inr (if room c then SUCCESS else ACTION_QUEUE_FULL, pid, if room c then c' else c) \<and> queue_size c' = queue_size c"
proof -
  obtain topic where "Create_Utf8String SDK_SAMPLE_TOPIC = Some topic" using sample_topic_valid by blast
  then show ?thesis
    by (auto simp: PublishAsync_def PerformActionAsync_def EnqueueOutboundAction_def room_def Let_def GetNextPacketId_def
        split: prod.split)
qed

text \<open>
  What the sleep may do: the callback and the threads leave the number of published messages and the bound of the queue
  alone, and by the end of a sleep the outbound thread has taken something from the queue.
\<close>

definition drains :: "('n PubSub \<Rightarrow> 'n PubSub) \<Rightarrow> bool" where
  "drains sleep \<longleftrightarrow> (\<forall>s. ps_total_published_messages (sleep s) = ps_total_published_messages s \<and>
     queue_size (ps_iot_client (sleep s)) = queue_size (ps_iot_client s) \<and>
     (0 < queue_size (ps_iot_client s) \<longrightarrow> room (ps_iot_client (sleep s))))"

text \<open>One message: at most two rounds of the loop, the second after a sleep.\<close>

lemma RunPublish_from_one:
  assumes "drains sleep" "0 < queue_size (ps_iot_client s)"
  obtains pid s' n where "n \<le> 1" "ps_total_published_messages s' = ps_total_published_messages s + 1"
    "queue_size (ps_iot_client s') = queue_size (ps_iot_client s)"
    "\<And>fuel msg_count. itr \<le> msg_count \<Longrightarrow> RunPublish_from (Suc (n + fuel)) sleep msg_count itr packet_id s =
       (if itr + 1 \<le> msg_count then RunPublish_from fuel sleep msg_count (itr + 1) pid s' else Inr (SUCCESS, s'))"
proof -
  have goes: "\<exists>pid s'. ps_total_published_messages s' = ps_total_published_messages s + 1 \<and>
      queue_size (ps_iot_client s') = queue_size (ps_iot_client s) \<and>
      (\<forall>fuel msg_count. RunPublish_from (Suc fuel) sleep msg_count itr packet_id s =
       (if itr + 1 \<le> msg_count then RunPublish_from fuel sleep msg_count (itr + 1) pid s' else Inr (SUCCESS, s')))"
    if "room (ps_iot_client s)" for s packet_id
  proof -
    obtain pid c where "PublishAsync (Create_Utf8String SDK_SAMPLE_TOPIC) False False QOS1 (numbered_payload itr) None packet_id
        (ps_iot_client s) = Inr (SUCCESS, pid, c)" "queue_size c = queue_size (ps_iot_client s)"
      using publish_room [of "numbered_payload itr" packet_id "ps_iot_client s"] \<open>room (ps_iot_client s)\<close> by auto
    then show ?thesis
      by (intro exI [of _ pid] exI [of _ "count_published (s\<lparr>ps_iot_client := c\<rparr>)"]) (simp add: count_published_def)
  qed
  show ?thesis
  proof (cases "room (ps_iot_client s)")
    case True
    from goes [OF this, of packet_id] show ?thesis using that [of 0] by auto
  next
    case False
    with publish_room [of "numbered_payload itr" packet_id "ps_iot_client s"]
    obtain pid where p: "PublishAsync (Create_Utf8String SDK_SAMPLE_TOPIC) False False QOS1 (numbered_payload itr) None packet_id
        (ps_iot_client s) = Inr (ACTION_QUEUE_FULL, pid, ps_iot_client s)" by auto
    have again: "RunPublish_from (Suc fuel) sleep msg_count itr packet_id s = RunPublish_from fuel sleep msg_count itr pid (sleep s)"
      if "itr \<le> msg_count" for fuel msg_count using p that by simp
    have "room (ps_iot_client (sleep s))" using assms by (simp add: drains_def)
    from goes [OF this, of pid] obtain pid' s' where
      g: "ps_total_published_messages s' = ps_total_published_messages (sleep s) + 1"
        "queue_size (ps_iot_client s') = queue_size (ps_iot_client (sleep s))"
        "\<And>fuel msg_count. RunPublish_from (Suc fuel) sleep msg_count itr pid (sleep s) =
         (if itr + 1 \<le> msg_count then RunPublish_from fuel sleep msg_count (itr + 1) pid' s' else Inr (SUCCESS, s'))" by auto
    show ?thesis
    proof (rule that [of 1 s' pid'])
      show "RunPublish_from (Suc (1 + fuel)) sleep msg_count itr packet_id s =
         (if itr + 1 \<le> msg_count then RunPublish_from fuel sleep msg_count (itr + 1) pid' s' else Inr (SUCCESS, s'))"
        if "itr \<le> msg_count" for fuel msg_count
        unfolding plus_1_eq_Suc again [OF that] by (rule g(3))
    qed (use g assms(1) in \<open>simp_all add: drains_def\<close>)
  qed
qed

lemma RunPublish_from_ends:
  assumes "drains sleep" "0 < queue_size (ps_iot_client s)" "itr \<le> msg_count" "2 * nat (msg_count - itr + 1) \<le> fuel"
  shows "\<exists>s'. RunPublish_from fuel sleep msg_count itr packet_id s = Inr (SUCCESS, s') \<and>
    ps_total_published_messages s' = ps_total_published_messages s + (msg_count - itr + 1)"
  using assms(2-4)
proof (induction "nat (msg_count - itr)" arbitrary: fuel itr packet_id s)
  case 0
  obtain pid s' n where one: "n \<le> 1" "ps_total_published_messages s' = ps_total_published_messages s + 1"
    "\<And>fuel msg_count. itr \<le> msg_count \<Longrightarrow> RunPublish_from (Suc (n + fuel)) sleep msg_count itr packet_id s =
       (if itr + 1 \<le> msg_count then RunPublish_from fuel sleep msg_count (itr + 1) pid s' else Inr (SUCCESS, s'))"
    using RunPublish_from_one [OF assms(1) 0(2)] by metis
  have fuel: "fuel = Suc (n + (fuel - n - 1))" using 0 one(1) by linarith
  show ?case using one(2) one(3) [OF 0(3), of "fuel - n - 1"] 0 fuel by simp
next
  case (Suc k)
  obtain pid s' n where one: "n \<le> 1" "ps_total_published_messages s' = ps_total_published_messages s + 1"
    "queue_size (ps_iot_client s') = queue_size (ps_iot_client s)"
    "\<And>fuel msg_count. itr \<le> msg_count \<Longrightarrow> RunPublish_from (Suc (n + fuel)) sleep msg_count itr packet_id s =
       (if itr + 1 \<le> msg_count then RunPublish_from fuel sleep msg_count (itr + 1) pid s' else Inr (SUCCESS, s'))"
    using RunPublish_from_one [OF assms(1) Suc.prems(1)] by metis
  have fuel: "fuel = Suc (n + (fuel - n - 1))" using Suc.prems(3) Suc.hyps(2) one(1) by linarith
  have "\<exists>s''. RunPublish_from (fuel - n - 1) sleep msg_count (itr + 1) pid s' = Inr (SUCCESS, s'') \<and>
      ps_total_published_messages s'' = ps_total_published_messages s' + (msg_count - (itr + 1) + 1)"
    by (rule Suc.hyps(1)) (use Suc.prems Suc.hyps(2) one in linarith)+
  then show ?case using one(2) one(4) [OF Suc.prems(2), of "fuel - n - 1"] Suc.hyps(2) fuel by auto
qed


text \<open>The witness: a queue of two for five messages, which every sleep empties.\<close>

definition empties :: "script_device PubSub \<Rightarrow> script_device PubSub" where
  "empties s = s\<lparr>ps_iot_client := (ps_iot_client s)\<lparr>core_client_state :=
     (core_client_state (ps_iot_client s))\<lparr>ccs_outbound_action_queue := []\<rparr>\<rparr>\<rparr>"

definition small_sample :: "script_device PubSub" where
  "small_sample = \<lparr>ps_cur_pending_messages = 0, ps_total_published_messages = 0,
     ps_iot_client = ClientCore_new script_connection ((ClientState_new 0 (script [] 0 0) 0)\<lparr>ccs_max_queue_size := 2\<rparr>)\<rparr>"


end
