(* ===== verification/JobsSample.thy ===== *)
theory JobsSample
  imports ProgramTls Jobs Shadow
begin

text \<open>
  The jobs sample (\<^verbatim>\<open>samples/Jobs/JobsSample.cpp\<close>): it asks for the pending jobs and for the next one, reports every job it
  is told about as done, and ends when it has heard of none for two seconds. \<open>sleep\<close> is what the callbacks and the threads
  of the client do in that time. The handlers of updates and of the loss of the connection only print.
\<close>

record 'n JobsSample =
  js_iot_client :: "'n MqttClient"
  js_jobs :: Jobs
  js_done :: bool

section \<open>The callbacks\<close>

text \<open>What is printed is looked up in a document, which has to be an object.\<close>

definition GetPendingCallback ::
  "(bytes \<Rightarrow> json option) \<Rightarrow> bytes \<Rightarrow> bytes \<Rightarrow> 'n JobsSample \<Rightarrow> (ResponseCode \<times> 'n JobsSample) res" where
  "GetPendingCallback parse topic_name payload s =
     (let s = s\<lparr>js_done := False\<rparr> in
      case InitializeFromJsonString parse JNull payload of
        (rc, doc) \<Rightarrow>
          if rc \<noteq> SUCCESS then Inr (rc, s)
          else bind_res (HasMember doc (str ''inProgressJobs'')) (\<lambda>_.
               bind_res (HasMember doc (str ''queuedJobs'')) (\<lambda>_. Inr (SUCCESS, s))))"

definition report_job :: "bytes \<Rightarrow> JobExecutionStatus \<Rightarrow> string \<Rightarrow> string \<Rightarrow> 'n JobsSample \<Rightarrow> (ResponseCode \<times> 'n JobsSample) res" where
  "report_job jobId status key detail s =
     bind_res (SendJobsUpdate (js_jobs s) jobId status [(str key, str detail)] 0 0 False False (js_iot_client s)) (\<lambda>(rc, c).
       Inr (rc, s\<lparr>js_iot_client := c\<rparr>))"

text \<open>The response of reporting a failure is overwritten.\<close>

definition NextJobCallback_sample ::
  "(bytes \<Rightarrow> json option) \<Rightarrow> bytes \<Rightarrow> bytes \<Rightarrow> 'n JobsSample \<Rightarrow> (ResponseCode \<times> 'n JobsSample) res" where
  "NextJobCallback_sample parse topic_name payload s =
     (let s = s\<lparr>js_done := False\<rparr> in
      case InitializeFromJsonString parse JNull payload of
        (rc, doc) \<Rightarrow>
          if rc \<noteq> SUCCESS then Inr (rc, s)
          else bind_res (HasMember doc (str ''execution'')) (\<lambda>b.
            if \<not> b then Inr (SUCCESS, s\<lparr>js_done := True\<rparr>)
            else bind_res (get_member doc (str ''execution'')) (\<lambda>execution.
              bind_res (HasMember execution (str ''jobId'')) (\<lambda>b.
                if \<not> b then Inr (SUCCESS, s)
                else bind_res (get_member execution (str ''jobId'')) (\<lambda>v.
                     bind_res (the_string v) (\<lambda>jobId.
                     bind_res (HasMember execution (str ''jobDocument'')) (\<lambda>b.
                       if b then
                         report_job jobId JOB_EXECUTION_SUCCEEDED ''exampleDetail''
                           ''a value appropriate for your successful job'' s
                       else
                         bind_res (report_job jobId JOB_EXECUTION_FAILED ''failureDetail'' ''Unable to process job document'' s)
                           (\<lambda>(rc, s). Inr (SUCCESS, s)))))))))"

section \<open>The sample\<close>

definition sample_subscriptions :: "Jobs \<Rightarrow> nat \<Rightarrow> nat \<Rightarrow> nat \<Rightarrow> nat \<Rightarrow> Subscription option list" where
  "sample_subscriptions jobs p_pending_handler p_next_handler p_update_accepted_handler p_update_rejected_handler =
     [CreateJobsSubscription jobs (Some p_pending_handler) None JOB_GET_PENDING_TOPIC JOB_ACCEPTED_REPLY_TYPE [],
      CreateJobsSubscription jobs (Some p_next_handler) None JOB_DESCRIBE_TOPIC JOB_ACCEPTED_REPLY_TYPE (str ''$next''),
      CreateJobsSubscription jobs (Some p_next_handler) None JOB_NOTIFY_NEXT_TOPIC JOB_REQUEST_TYPE [],
      CreateJobsSubscription jobs (Some p_update_accepted_handler) None JOB_UPDATE_TOPIC JOB_ACCEPTED_REPLY_TYPE (str ''+''),
      CreateJobsSubscription jobs (Some p_update_rejected_handler) None JOB_UPDATE_TOPIC JOB_REJECTED_REPLY_TYPE (str ''+'')]"

definition JobsSample_Subscribe ::
  "(action_data option \<Rightarrow> 'n client \<Rightarrow> (ResponseCode \<times> action_data option \<times> 'n client) res)
   \<Rightarrow> ('n client \<Rightarrow> 'n client) \<Rightarrow> nat \<Rightarrow> nat \<Rightarrow> nat \<Rightarrow> nat \<Rightarrow> 'n JobsSample \<Rightarrow> (ResponseCode \<times> 'n JobsSample) res" where
  "JobsSample_Subscribe runner wait p_pending_handler p_next_handler p_update_accepted_handler p_update_rejected_handler s =
     (let subs = sample_subscriptions (js_jobs s) p_pending_handler p_next_handler p_update_accepted_handler
                   p_update_rejected_handler;
          c = js_iot_client s;
          (ps, st) = alloc_subscriptions subs (core_client_state c)
      in bind_res (Subscribe_pointers runner wait ps (c\<lparr>core_client_state := st\<rparr>)) (\<lambda>(rc, c).
           Inr (rc, s\<lparr>js_iot_client := c\<rparr>)))"

definition query_jobs ::
  "(action_data option \<Rightarrow> 'n client \<Rightarrow> (ResponseCode \<times> action_data option \<times> 'n client) res)
   \<Rightarrow> ('n client \<Rightarrow> 'n client) \<Rightarrow> 'n JobsSample \<Rightarrow> 'n JobsSample res" where
  "query_jobs runner wait s =
     bind_res (SendJobsQuery (js_jobs s) JOB_GET_PENDING_TOPIC [] (js_iot_client s)) (\<lambda>(rc, c).
     bind_res (if rc = SUCCESS then SendJobsQuery (js_jobs s) JOB_DESCRIBE_TOPIC (str ''$next'') c else Inr (rc, c)) (\<lambda>(rc, c).
     bind_res (if rc \<noteq> SUCCESS then Disconnect runner wait c else Inr (rc, c)) (\<lambda>(rc, c). Inr (s\<lparr>js_iot_client := c\<rparr>))))"

text \<open>The loop at the end: it runs for as long as a callback has reset the flag during the sleep.\<close>

fun wait_for_jobs :: "nat \<Rightarrow> ('n JobsSample \<Rightarrow> 'n JobsSample) \<Rightarrow> 'n JobsSample \<Rightarrow> 'n JobsSample res" where
  "wait_for_jobs 0 sleep s = Inl OutOfFuel"
| "wait_for_jobs (Suc fuel) sleep s =
     (if js_done s then Inr s else wait_for_jobs fuel sleep (sleep (s\<lparr>js_done := True\<rparr>)))"

definition process_jobs ::
  "nat \<Rightarrow> (action_data option \<Rightarrow> 'n client \<Rightarrow> (ResponseCode \<times> action_data option \<times> 'n client) res)
   \<Rightarrow> ('n client \<Rightarrow> 'n client) \<Rightarrow> ('n JobsSample \<Rightarrow> 'n JobsSample) \<Rightarrow> nat \<Rightarrow> nat \<Rightarrow> nat \<Rightarrow> nat \<Rightarrow> 'n JobsSample
   \<Rightarrow> (ResponseCode \<times> 'n JobsSample) res" where
  "process_jobs fuel runner wait sleep p_pending_handler p_next_handler p_update_accepted_handler p_update_rejected_handler s =
     bind_res (JobsSample_Subscribe runner wait p_pending_handler p_next_handler p_update_accepted_handler
                 p_update_rejected_handler s) (\<lambda>(rc, s).
     bind_res (if rc \<noteq> SUCCESS then Inr s else query_jobs runner wait s) (\<lambda>s.
     bind_res (wait_for_jobs fuel sleep s) (\<lambda>s.
     bind_res (Disconnect runner wait (js_iot_client s)) (\<lambda>(_, c). Inr (SUCCESS, s\<lparr>js_iot_client := c\<rparr>)))))"

definition JobsSample_RunSample ::
  "nat \<Rightarrow> nat \<Rightarrow> nat \<Rightarrow> 'w tls_library \<Rightarrow> 'w \<Rightarrow> ConfigCommon \<Rightarrow> bytes \<Rightarrow> callbacks \<Rightarrow> nat \<Rightarrow> int
   \<Rightarrow> (action_data option \<Rightarrow> 'w OpenSSLConnection client \<Rightarrow>
         (ResponseCode \<times> action_data option \<times> 'w OpenSSLConnection client) res)
   \<Rightarrow> ('w OpenSSLConnection client \<Rightarrow> 'w OpenSSLConnection client) \<Rightarrow> ('w OpenSSLConnection client \<Rightarrow> 'w OpenSSLConnection client)
   \<Rightarrow> ('w OpenSSLConnection JobsSample \<Rightarrow> 'w OpenSSLConnection JobsSample) \<Rightarrow> nat \<Rightarrow> nat \<Rightarrow> nat \<Rightarrow> nat
   \<Rightarrow> (ResponseCode \<times> 'w OpenSSLConnection JobsSample option) res" where
  "JobsSample_RunSample fuel wakeups loops lib w cfg sdk_version print_handlers now random_number runner wait others sleep
      p_pending_handler p_next_handler p_update_accepted_handler p_update_rejected_handler =
     (case InitializeTLS lib cfg w of
        (rc, p_network_connection) \<Rightarrow>
          if rc \<noteq> SUCCESS then Inr (rc, None)
          else
            bind_res (deref p_network_connection) (\<lambda>connection.
            bind_res (MqttClient_Create (Some (openssl_connection fuel wakeups lib)) (cfg_mqtt_command_timeout cfg)
                print_handlers connection now) (\<lambda>p_iot_client.
            case p_iot_client of
              None \<Rightarrow> Inr (FAILURE, None)
            | Some c \<Rightarrow>
                let client_id_tagged = cfg_base_client_id cfg @ str ''_jobs_sample_'' @ int_digits random_number in
                bind_res (connect_as runner wait others sdk_version cfg client_id_tagged c) (\<lambda>(rc, c).
                  if rc \<noteq> MQTT_CONNACK_CONNECTION_ACCEPTED then Inr (rc, None)
                  else
                    bind_res (deref (Jobs_Create (Some c) QOS1 (cfg_thing_name cfg) client_id_tagged)) (\<lambda>jobs.
                    bind_res (process_jobs loops runner wait sleep p_pending_handler p_next_handler
                        p_update_accepted_handler p_update_rejected_handler
                        \<lparr>js_iot_client = c, js_jobs = jobs, js_done = False\<rparr>) (\<lambda>(rc, s). Inr (rc, Some s)))))))"

section \<open>Properties\<close>

text \<open>
  A job is answered with one update, and as failed only when it has no document; a failure to send the latter is not
  reported.
\<close>

lemma job_answered:
  assumes "parse payload = Some doc" "payload \<noteq> []" "is_object doc"
    and "map_of (members doc) (str ''execution'') = Some (JObject ms)" "map_of ms (str ''jobId'') = Some (JString jobId)"
  shows "NextJobCallback_sample parse topic payload s =
    bind_res (if map_of ms (str ''jobDocument'') \<noteq> None
      then report_job (takeWhile (\<lambda>b. b \<noteq> 0) jobId) JOB_EXECUTION_SUCCEEDED ''exampleDetail''
             ''a value appropriate for your successful job'' (s\<lparr>js_done := False\<rparr>)
      else report_job (takeWhile (\<lambda>b. b \<noteq> 0) jobId) JOB_EXECUTION_FAILED ''failureDetail''
             ''Unable to process job document'' (s\<lparr>js_done := False\<rparr>))
      (\<lambda>(rc, s). Inr (if map_of ms (str ''jobDocument'') \<noteq> None then rc else SUCCESS, s))"
  using assms
  by (auto simp: NextJobCallback_sample_def InitializeFromJsonString_def HasMember_def get_member_def find_member_def
      the_string_def as_c_string_def Let_def
      bind_res_def split: sum.splits)

text \<open>
  The sample ends: when every sleep that a callback disturbed leaves one notification less to come, it ends after as many
  sleeps as there are notifications, and one more.
\<close>

lemma waiting_ends:
  assumes "\<And>s. \<not> js_done (sleep s) \<Longrightarrow> left (sleep s) < (left s :: nat)"
    and "\<And>s. left (s\<lparr>js_done := True\<rparr>) = left s" "left s + 2 \<le> fuel"
  shows "\<exists>s'. wait_for_jobs fuel sleep s = Inr s' \<and> js_done s'"
  using assms(3)
proof (induction fuel arbitrary: s)
  case (Suc fuel)
  let ?s = "sleep (s\<lparr>js_done := True\<rparr>)"
  show ?case
  proof (cases "js_done s \<or> js_done ?s")
    case True
    then show ?thesis using Suc.prems by (cases fuel) auto
  next
    case False
    with assms(1) [of "s\<lparr>js_done := True\<rparr>"] assms(2) have "left ?s + 2 \<le> fuel" using Suc.prems by fastforce
    from Suc.IH [OF this] False show ?thesis by simp
  qed
qed simp

end
