(* ===== verification/ShadowDelta.thy ===== *)
theory ShadowDelta
  imports ProgramTls Shadow
begin

text \<open>
  The shadow sample (\<^verbatim>\<open>samples/ShadowDelta/ShadowDelta.cpp\<close>): it deletes the shadow of its thing, and then ten times writes a
  counter to the desired state and to the reported state, the latter in turn with an update of the shadow and with a message
  of its own to the topic of updates. \<open>await\<close> is what happens to the sample while it waits for a response, \<open>pause\<close> while it
  sleeps; both include the calls of its handler. A wait that times out cannot be told from one that did not: what is
  looked at is the last response the handler has left. The member starts with the value zero, which is \<open>SUCCESS\<close>.
\<close>

record 'n ShadowDelta =
  sd_iot_client :: "'n MqttClient"
  sd_shadow :: Shadow
  sd_sync_action_response :: ResponseCode

text \<open>The surroundings: the threads of the client, the libraries, and the handler of the subscriptions.\<close>

record 'n delta_env =
  de_runner :: "action_data option \<Rightarrow> 'n client \<Rightarrow> (ResponseCode \<times> action_data option \<times> 'n client) res"
  de_wait :: "'n client \<Rightarrow> 'n client"
  de_sleep :: "'n client \<Rightarrow> 'n client"
  de_meanwhile :: "Shadow \<Rightarrow> Shadow"
  de_sub_handler :: nat
  de_action_handler :: nat
  de_parse :: "bytes \<Rightarrow> json option"
  de_write :: "json \<Rightarrow> bytes"
  de_eq :: "json \<Rightarrow> json \<Rightarrow> bool"
  de_await :: "'n ShadowDelta \<Rightarrow> 'n ShadowDelta"
  de_pause :: "'n ShadowDelta \<Rightarrow> 'n ShadowDelta"

definition ActionResponseHandler ::
  "bytes \<Rightarrow> ShadowRequestType \<Rightarrow> ShadowResponseType \<Rightarrow> json \<Rightarrow> 'n ShadowDelta \<Rightarrow> ResponseCode \<times> 'n ShadowDelta" where
  "ActionResponseHandler thing_name request_type response_type payload s =
     (let rc = (case response_type of
                  Response_Accepted \<Rightarrow> SHADOW_REQUEST_ACCEPTED
                | Response_Rejected \<Rightarrow> SHADOW_REQUEST_REJECTED
                | Response_Delta \<Rightarrow> SHADOW_RECEIVED_DELTA)
      in (rc, s\<lparr>sd_sync_action_response := rc\<rparr>))"

section \<open>The documents\<close>

definition MSG_COUNT_KEY :: bytes where "MSG_COUNT_KEY = str ''cur_msg_count''"

definition sample_document :: bytes where
  "sample_document =
     str ''{    '' @ quoted ''state'' @ str '' : {        '' @ quoted ''desired'' @ str '' : {        '' @ [9] @
     quoted ''cur_msg_count'' @ str '' : 0        },        '' @ quoted ''reported'' @ str '' : {        '' @ [9] @
     quoted ''cur_msg_count'' @ str '' : 0        }    }}''"

text \<open>Erase the member, when there is one, and append it with its new value.\<close>

definition replace_member :: "bytes \<Rightarrow> json \<Rightarrow> json \<Rightarrow> json res" where
  "replace_member key val v =
     bind_res (HasMember v key) (\<lambda>b. Inr (JObject (members (if b then erase_member key v else v) @ [(key, val)])))"

definition set_in_state :: "bytes \<Rightarrow> bytes \<Rightarrow> json \<Rightarrow> json \<Rightarrow> json res" where
  "set_in_state section_key key val = modify_member STATE_KEY (modify_member section_key (replace_member key val))"

definition set_count :: "bytes \<Rightarrow> nat \<Rightarrow> json \<Rightarrow> json res" where
  "set_count section_key n = set_in_state section_key MSG_COUNT_KEY (JInt (int n))"

text \<open>The message the sample publishes itself: the difference without time stamp and version.\<close>

definition published_diff :: "(json \<Rightarrow> json \<Rightarrow> bool) \<Rightarrow> json \<Rightarrow> json \<Rightarrow> json res" where
  "published_diff eq server doc =
     (let diff = snd (DiffValues eq JNull server doc) in
      bind_res (HasMember diff TIMESTAMP_KEY) (\<lambda>b.
        let diff = (if b then erase_member TIMESTAMP_KEY diff else diff) in
        bind_res (HasMember diff VERSION_KEY) (\<lambda>b.
          Inr (if b then erase_member VERSION_KEY diff else diff))))"

section \<open>The requests\<close>

text \<open>A request of the shadow, which holds a weak pointer to the client the sample keeps.\<close>

definition shadow_request ::
  "(Shadow \<Rightarrow> 'n MqttClient option \<Rightarrow> (ResponseCode \<times> Shadow \<times> 'n MqttClient option) res)
   \<Rightarrow> 'n ShadowDelta \<Rightarrow> (ResponseCode \<times> 'n ShadowDelta) res" where
  "shadow_request f s =
     bind_res (f (sd_shadow s) (Some (sd_iot_client s))) (\<lambda>(rc, sh, p).
     bind_res (deref p) (\<lambda>c. Inr (rc, s\<lparr>sd_iot_client := c, sd_shadow := sh\<rparr>)))"

definition disconnect_sample :: "'n delta_env \<Rightarrow> 'n ShadowDelta \<Rightarrow> (ResponseCode \<times> 'n ShadowDelta) res" where
  "disconnect_sample E s =
     bind_res (Disconnect (de_runner E) (de_wait E) (sd_iot_client s)) (\<lambda>(rc, c). Inr (rc, s\<lparr>sd_iot_client := c\<rparr>))"

definition subscribe_all :: "'n delta_env \<Rightarrow> 'n ShadowDelta \<Rightarrow> (ResponseCode \<times> 'n ShadowDelta) res" where
  "subscribe_all E s =
     (let h = Some (de_action_handler E) in
      shadow_request (AddShadowSubscription (de_runner E) (de_wait E) (de_sleep E) (de_meanwhile E) (de_sub_handler E)
        [(Request_Get, h), (Request_Update, h), (Request_Delete, h), (Request_Delta, h)]) s)"

text \<open>Returned is the response to end the sample with, if it is to end.\<close>

definition remove_shadow :: "'n delta_env \<Rightarrow> 'n ShadowDelta \<Rightarrow> (ResponseCode option \<times> 'n ShadowDelta) res" where
  "remove_shadow E s =
     bind_res (shadow_request (PerformGetAsync (de_runner E) (de_wait E) (de_sleep E) (de_meanwhile E) (de_sub_handler E)) s)
       (\<lambda>(rc, s).
       if rc \<noteq> SUCCESS then Inr (None, s)
       else
         let s = de_await E s in
         if sd_sync_action_response s \<noteq> SHADOW_REQUEST_ACCEPTED then Inr (None, s)
         else
           bind_res (shadow_request
               (PerformDeleteAsync (de_runner E) (de_wait E) (de_sleep E) (de_meanwhile E) (de_sub_handler E)) s) (\<lambda>(_, s).
             let s = de_await E s in
             if sd_sync_action_response s \<noteq> SHADOW_REQUEST_ACCEPTED
             then bind_res (disconnect_sample E s) (\<lambda>(rc, s). Inr (Some rc, s))
             else Inr (None, s)))"

text \<open>The response of \<open>PerformUpdateAsync\<close> is overwritten with the one of the handler.\<close>

definition update_shadow :: "'n delta_env \<Rightarrow> json \<Rightarrow> 'n ShadowDelta \<Rightarrow> (ResponseCode \<times> 'n ShadowDelta) res" where
  "update_shadow E doc s =
     (let s = s\<lparr>sd_shadow := snd (UpdateDeviceShadow doc (sd_shadow s))\<rparr> in
      bind_res (shadow_request (PerformUpdateAsync (de_eq E) (de_write E) (de_runner E) (de_wait E) (de_sleep E)
          (de_meanwhile E) (de_sub_handler E)) s) (\<lambda>(_, s).
        let s = de_await E s in Inr (sd_sync_action_response s, s)))"

definition publish_diff :: "'n delta_env \<Rightarrow> bytes \<Rightarrow> json \<Rightarrow> 'n ShadowDelta \<Rightarrow> (ResponseCode \<times> 'n ShadowDelta) res" where
  "publish_diff E thing_name doc s =
     bind_res (published_diff (de_eq E) (GetServerDocument (sd_shadow s)) doc) (\<lambda>diff.
     bind_res (Publish (de_runner E) (de_wait E) (Create_Utf8String (topic_action_prefix thing_name @ str ''update''))
         False False QOS1 (de_write E diff) (sd_iot_client s)) (\<lambda>(rc, c). Inr (rc, s\<lparr>sd_iot_client := c\<rparr>)))"

text \<open>A pause and the message whether the shadow is in sync, which does not depend on what is found.\<close>

definition pause_and_check :: "'n delta_env \<Rightarrow> 'n ShadowDelta \<Rightarrow> 'n ShadowDelta res" where
  "pause_and_check E s =
     (let s = de_pause E s in bind_res (IsInSync (de_eq E) (sd_shadow s)) (\<lambda>_. Inr s))"

text \<open>One round of the loop; the flag says that it is to be left.\<close>

definition report_count ::
  "'n delta_env \<Rightarrow> bytes \<Rightarrow> nat \<Rightarrow> json \<Rightarrow> 'n ShadowDelta \<Rightarrow> (bool \<times> 'n ShadowDelta) res" where
  "report_count E thing_name request_itr doc s =
     (if request_itr mod 2 = 0
      then bind_res (update_shadow E doc s) (\<lambda>(rc, s). Inr (rc = SHADOW_REQUEST_REJECTED, s))
      else bind_res (publish_diff E thing_name doc s) (\<lambda>(rc, s). Inr (rc \<noteq> SUCCESS, s)))"

definition delta_round ::
  "'n delta_env \<Rightarrow> bytes \<Rightarrow> nat \<Rightarrow> json \<Rightarrow> 'n ShadowDelta \<Rightarrow> (bool \<times> 'n ShadowDelta) res" where
  "delta_round E thing_name request_itr doc s =
     (let doc = (if request_itr \<noteq> 0 then GetServerDocument (sd_shadow s) else doc) in
      bind_res (set_count DESIRED_KEY (request_itr + 1) doc) (\<lambda>doc.
      bind_res (update_shadow E doc s) (\<lambda>(rc, s).
        if rc = SHADOW_REQUEST_REJECTED then Inr (True, s)
        else
          bind_res (pause_and_check E s) (\<lambda>s.
          bind_res (set_count REPORTED_KEY (request_itr + 1) (GetServerDocument (sd_shadow s))) (\<lambda>doc.
          bind_res (report_count E thing_name request_itr doc s) (\<lambda>(leave, s).
            if leave then Inr (True, s)
            else bind_res (pause_and_check E s) (\<lambda>s. Inr (False, s))))))))"

text \<open>The rounds that are left.\<close>

fun delta_rounds ::
  "nat \<Rightarrow> 'n delta_env \<Rightarrow> bytes \<Rightarrow> nat \<Rightarrow> json \<Rightarrow> 'n ShadowDelta \<Rightarrow> 'n ShadowDelta res" where
  "delta_rounds 0 E thing_name request_itr doc s = Inr s"
| "delta_rounds (Suc n) E thing_name request_itr doc s =
     bind_res (delta_round E thing_name request_itr doc s) (\<lambda>(leave, s).
       if leave then Inr s else delta_rounds n E thing_name (request_itr + 1) doc s)"

definition destroy_shadow :: "'n delta_env \<Rightarrow> 'n ShadowDelta \<Rightarrow> 'n ShadowDelta res" where
  "destroy_shadow E s =
     bind_res (Shadow_destroy (de_runner E) (de_wait E) (sd_shadow s) (Some (sd_iot_client s))) (\<lambda>p.
     bind_res (deref p) (\<lambda>c. Inr (s\<lparr>sd_iot_client := c\<rparr>)))"

text \<open>After the connection; \<open>MESSAGE_COUNT\<close> is ten. The early returns leave the scope of the shadow as well.\<close>

definition exercise_shadow :: "'n delta_env \<Rightarrow> bytes \<Rightarrow> 'n ShadowDelta \<Rightarrow> (ResponseCode \<times> 'n ShadowDelta) res" where
  "exercise_shadow E thing_name s =
     bind_res (subscribe_all E s) (\<lambda>(_, s).
     bind_res (remove_shadow E s) (\<lambda>(ended, s).
       case ended of
         Some rc \<Rightarrow> bind_res (destroy_shadow E s) (\<lambda>s. Inr (rc, s))
       | None \<Rightarrow>
           (case InitializeFromJsonString (de_parse E) JNull sample_document of
              (rc, doc) \<Rightarrow>
                if rc \<noteq> SUCCESS then
                  bind_res (disconnect_sample E s) (\<lambda>(rc, s). bind_res (destroy_shadow E s) (\<lambda>s. Inr (rc, s)))
                else
                  bind_res (delta_rounds 10 E thing_name 0 doc s) (\<lambda>s.
                  bind_res (destroy_shadow E s) (\<lambda>s.
                  bind_res (disconnect_sample E s) (\<lambda>(_, s). Inr (SUCCESS, s)))))))"

definition ShadowDelta_RunSample ::
  "nat \<Rightarrow> nat \<Rightarrow> 'w tls_library \<Rightarrow> 'w \<Rightarrow> ConfigCommon \<Rightarrow> bytes \<Rightarrow> callbacks \<Rightarrow> nat \<Rightarrow> int \<Rightarrow> int
   \<Rightarrow> ('w OpenSSLConnection client \<Rightarrow> 'w OpenSSLConnection client) \<Rightarrow> 'w OpenSSLConnection delta_env
   \<Rightarrow> (ResponseCode \<times> 'w OpenSSLConnection ShadowDelta option) res" where
  "ShadowDelta_RunSample fuel wakeups lib w cfg sdk_version no_handlers now random_number stamp others E =
     (case InitializeTLS lib cfg w of
        (rc, p_network_connection) \<Rightarrow>
          if rc \<noteq> SUCCESS then Inr (rc, None)
          else
            bind_res (deref p_network_connection) (\<lambda>connection.
            bind_res (MqttClient_Create (Some (openssl_connection fuel wakeups lib)) (cfg_mqtt_command_timeout cfg)
                no_handlers connection now) (\<lambda>p_iot_client.
            case p_iot_client of
              None \<Rightarrow> Inr (FAILURE, None)
            | Some c \<Rightarrow>
                bind_res (connect_as (de_runner E) (de_wait E) others sdk_version cfg
                    (cfg_base_client_id cfg @ str ''_shadow_delta_tester_'' @ int_digits random_number) c) (\<lambda>(rc, c).
                  if rc \<noteq> MQTT_CONNACK_CONNECTION_ACCEPTED then Inr (rc, None)
                  else
                    bind_res (Shadow_new (de_parse E) stamp (cfg_thing_name cfg) (cfg_thing_name cfg)) (\<lambda>sh.
                    bind_res (exercise_shadow E (cfg_thing_name cfg)
                        \<lparr>sd_iot_client = c, sd_shadow = sh, sd_sync_action_response = SUCCESS\<rparr>) (\<lambda>(rc, s).
                      Inr (rc, Some s)))))))"

section \<open>Properties\<close>

text \<open>What setting a member of the state does: it is there with its value, all other members are as they were.\<close>

lemma replace_member_lookup:
  assumes "is_object v" "distinct (map fst (members v))"
  shows "\<exists>w. replace_member key val v = Inr w \<and> is_object w \<and> distinct (map fst (members w)) \<and>
    map_of (members w) = (map_of (members v))(key \<mapsto> val)"
proof -
  let ?w = "JObject (members (if map_of (members v) key \<noteq> None then erase_member key v else v) @ [(key, val)])"
  have w: "replace_member key val v = Inr ?w"
    using assms(1) by (simp add: replace_member_def HasMember_def find_member_def)
  moreover have "map_of (members ?w) k = ((map_of (members v))(key \<mapsto> val)) k" for k
    using assms(2) by (auto simp: erase_member_def map_of_erase_first map_add_def split: option.split)
  moreover have "distinct (map fst (members ?w))"
  proof (cases "map_of (members v) key")
    case None
    then show ?thesis using assms(2) by (simp add: map_of_eq_None_iff)
  next
    case (Some b)
    then show ?thesis
      using assms(2) by (simp add: erase_member_def keys_erase_first set_remove1_eq distinct_remove1 del: list.set_map)
  qed
  ultimately show ?thesis by (intro exI [of _ ?w]) (auto simp del: fun_upd_apply)
qed

lemma set_in_state_effect:
  assumes "is_object doc" "map_of (members doc) STATE_KEY = Some state" "is_object state"
    and "map_of (members state) section_key = Some v" "is_object v" "distinct (map fst (members v))"
  obtains doc' state' v' where "set_in_state section_key key val doc = Inr doc'" "is_object doc'"
    "map_of (members doc') = (map_of (members doc))(STATE_KEY \<mapsto> state')" "is_object state'"
    "map_of (members state') = (map_of (members state))(section_key \<mapsto> v')" "is_object v'"
    "distinct (map fst (members v'))" "map_of (members v') = (map_of (members v))(key \<mapsto> val)"
proof -
  obtain v' where v': "replace_member key val v = Inr v'" "is_object v'" "distinct (map fst (members v'))"
    "map_of (members v') = (map_of (members v))(key \<mapsto> val)"
    using replace_member_lookup [OF assms(5,6)] by blast
  let ?state' = "JObject (set_first section_key v' (members state))"
  have "modify_member section_key (replace_member key val) state = Inr ?state'"
    using assms(3,4) v'(1) by (simp add: modify_member_def get_member_def find_member_def)
  then have "set_in_state section_key key val doc = Inr (JObject (set_first STATE_KEY ?state' (members doc)))"
    using assms(1,2) by (simp add: set_in_state_def modify_member_def get_member_def find_member_def)
  from that [OF this _ _ _ _ v'(2-4), of ?state'] show ?thesis
    using assms(2,4) by (auto simp: map_of_set_first fun_eq_iff)
qed

text \<open>
  A server that accepts the deletion and does not answer the first update in time ends the program: the last response was
  not a rejection, so the sample goes on, and the document of the server has no state.
\<close>

lemma unanswered_update_crashes:
  assumes "set_count DESIRED_KEY (n + 1) (if n \<noteq> 0 then GetServerDocument (sd_shadow s) else doc) = Inr doc1"
    and "update_shadow E doc1 s = Inr (rc, s1)" "rc \<noteq> SHADOW_REQUEST_REJECTED"
    and "GetServerDocument (sd_shadow (de_pause E s1)) = JObject []"
  shows "delta_round E thing_name n doc s = Inl AssertionFailed"
proof -
  have "pause_and_check E s1 = Inr (de_pause E s1)"
    using assms(4) by (simp add: pause_and_check_def IsInSync_def GetServerDocument_def HasMember_def find_member_def Let_def)
  moreover have "set_count REPORTED_KEY (n + 1) (JObject []) = Inl AssertionFailed"
    by (simp add: set_count_def set_in_state_def modify_member_def get_member_def find_member_def)
  ultimately show ?thesis using assms by (simp add: delta_round_def Let_def)
qed

end
