(* ===== verification/Stories.thy ===== *)
theory Stories
  imports ShadowDelta Failover
begin

text \<open>
  The two stories (\<^verbatim>\<open>samples/StorySwitch/switch.cpp\<close>, \<^verbatim>\<open>samples/StoryRobotArm/robotArm.cpp\<close>): a switch that writes the
  desired state of an arm, and the arm, which takes it over and reports it. Both discover their core first, with retries,
  and connect to it as in \<open>Failover\<close>. The arm is the client, shadow and last response of \<open>ShadowDelta\<close>, whose handler it
  repeats, with its current state and the document it sends. The loop of the arm does not end; it is modelled by its
  rounds. The lines of the user are an argument of the switch.
\<close>

section \<open>Discovering with retries\<close>

text \<open>\<open>discover\<close> is one discovery, with the sleep after it when it failed; \<open>retries\<close> are those that are left, ten at first.\<close>

fun discover_loop :: "('s \<Rightarrow> (ResponseCode \<times> 's) res) \<Rightarrow> nat \<Rightarrow> 's \<Rightarrow> (ResponseCode \<times> 's) res" where
  "discover_loop discover retries s =
     bind_res (discover s) (\<lambda>(rc, s).
       if rc = DISCOVER_ACTION_SUCCESS \<or> rc = DISCOVER_ACTION_NO_INFORMATION_PRESENT then Inr (rc, s)
       else case retries of
              Suc (Suc n) \<Rightarrow> discover_loop discover (Suc n) s
            | _ \<Rightarrow> Inr (rc, s))"

declare discover_loop.simps [simp del]

definition DISCOVER_ACTION_RETRY_COUNT :: nat where "DISCOVER_ACTION_RETRY_COUNT = 10"

definition on_text :: bytes where "on_text = str ''on''"
definition off_text :: bytes where "off_text = str ''off''"
definition MY_STATE_KEY :: bytes where "MY_STATE_KEY = str ''myState''"

section \<open>The switch\<close>

definition ThingTargetGet :: "(bytes \<Rightarrow> bytes option) \<Rightarrow> (bytes \<Rightarrow> json option) \<Rightarrow> bytes res" where
  "ThingTargetGet fopen parse =
     bind_res (InitializeFromJsonFile fopen parse JNull (str ''config/SwitchConfig.json'')) (\<lambda>(_, doc).
     bind_res (GetStringValue doc (str ''switch_target_thing'')) (\<lambda>(_, s). Inr (case s of None \<Rightarrow> [] | Some t \<Rightarrow> t)))"

definition switch_document :: bytes where
  "switch_document =
     str ''{    '' @ quoted ''state'' @ str '' : {        '' @ quoted ''desired'' @ str '' : {           '' @
     quoted ''myState'' @ str '' : '' @ quoted ''off'' @ str ''        }    }}''"

text \<open>The last document is the one with the new desired state; \<open>sleep\<close> is what the threads do in the second after it.\<close>

fun switch_loop ::
  "(action_data option \<Rightarrow> 'n client \<Rightarrow> (ResponseCode \<times> action_data option \<times> 'n client) res)
   \<Rightarrow> ('n client \<Rightarrow> 'n client) \<Rightarrow> ('n client \<Rightarrow> 'n client) \<Rightarrow> (json \<Rightarrow> bytes) \<Rightarrow> bytes \<Rightarrow> bytes list \<Rightarrow> json
   \<Rightarrow> 'n MqttClient \<Rightarrow> 'n MqttClient res" where
  "switch_loop runner wait sleep write_json update_topic [] doc c = Inl OutOfFuel"
| "switch_loop runner wait sleep write_json update_topic (userInput # lines) doc c =
     (if userInput = str ''q'' then Inr c
      else if userInput \<noteq> str ''1'' \<and> userInput \<noteq> str ''0''
      then switch_loop runner wait sleep write_json update_topic lines doc c
      else
        bind_res (set_in_state DESIRED_KEY MY_STATE_KEY (JString (if userInput = str ''1'' then on_text else off_text)) doc)
          (\<lambda>doc.
        bind_res (Publish runner wait (Create_Utf8String update_topic) False False QOS0 (write_json doc) c) (\<lambda>(rc, c).
          if rc \<noteq> SUCCESS then Inr c
          else switch_loop runner wait sleep write_json update_topic lines doc (on_state sleep c))))"

definition run_switch ::
  "(action_data option \<Rightarrow> 'n client \<Rightarrow> (ResponseCode \<times> action_data option \<times> 'n client) res)
   \<Rightarrow> ('n client \<Rightarrow> 'n client) \<Rightarrow> ('n client \<Rightarrow> 'n client) \<Rightarrow> (bytes \<Rightarrow> bytes option) \<Rightarrow> (bytes \<Rightarrow> json option)
   \<Rightarrow> (json \<Rightarrow> bytes) \<Rightarrow> bytes list \<Rightarrow> 'n MqttClient \<Rightarrow> (ResponseCode \<times> 'n MqttClient) res" where
  "run_switch runner wait sleep fopen parse write_json lines c =
     bind_res (ThingTargetGet fopen parse) (\<lambda>thingTarget.
       case InitializeFromJsonString parse JNull switch_document of
         (rc, doc) \<Rightarrow>
           if rc \<noteq> SUCCESS then Disconnect runner wait c
           else
             bind_res (switch_loop runner wait sleep write_json (topic_action_prefix thingTarget @ str ''update'') lines doc c)
               (\<lambda>c. bind_res (Disconnect runner wait c) (\<lambda>(_, c). Inr (SUCCESS, c))))"

section \<open>The arm\<close>

definition METERING_TOPIC :: bytes where "METERING_TOPIC = str ''/topic/state''"

record 'n RobotArm =
  ra_things :: "'n ShadowDelta"
  ra_currentState :: bytes
  ra_sendMessage :: json

text \<open>The desired state of the server, if it has one.\<close>

definition desired_state :: "json \<Rightarrow> bytes option res" where
  "desired_state receivedMessage =
     bind_res (get_member2 receivedMessage STATE_KEY DESIRED_KEY) (\<lambda>d.
     bind_res (HasMember d MY_STATE_KEY) (\<lambda>b.
       if \<not> b then Inr None
       else bind_res (get_member d MY_STATE_KEY) (\<lambda>v. bind_res (the_string v) (\<lambda>s. Inr (Some s)))))"

definition metering_payload :: "bytes \<Rightarrow> bytes" where
  "metering_payload state =
     str ''{'' @ quoted ''state'' @ str '': '' @ quoted (if state = on_text then ''on'' else ''off'') @ str ''}''"

text \<open>The new state: it is published, reported and slept upon. A rejected report ends the program.\<close>

definition take_over :: "'n delta_env \<Rightarrow> bytes \<Rightarrow> 'n RobotArm \<Rightarrow> (ResponseCode option \<times> 'n RobotArm) res" where
  "take_over E state a =
     (let t = ra_things a in
      bind_res (PublishAsync (Create_Utf8String METERING_TOPIC) False False QOS0 (metering_payload state) None 0
          (sd_iot_client t)) (\<lambda>(rc, packet_id, c).
      bind_res (set_in_state REPORTED_KEY MY_STATE_KEY (JString (if state = on_text then on_text else off_text))
          (ra_sendMessage a)) (\<lambda>sendMessage.
      bind_res (update_shadow E sendMessage (t\<lparr>sd_iot_client := c\<rparr>)) (\<lambda>(rc, t).
        if rc = SHADOW_REQUEST_REJECTED
        then Inr (Some rc, \<lparr>ra_things = t, ra_currentState = state, ra_sendMessage = sendMessage\<rparr>)
        else Inr (None, \<lparr>ra_things = de_pause E t, ra_currentState = state, ra_sendMessage = sendMessage\<rparr>)))))"

definition arm_round :: "'n delta_env \<Rightarrow> 'n RobotArm \<Rightarrow> (ResponseCode option \<times> 'n RobotArm) res" where
  "arm_round E a =
     (let t = de_await E (ra_things a);
          a = a\<lparr>ra_things := t\<rparr>
      in if sd_sync_action_response t \<noteq> SHADOW_RECEIVED_DELTA then Inr (None, a)
         else
           bind_res (desired_state (GetServerDocument (sd_shadow t))) (\<lambda>received.
             case received of
               None \<Rightarrow> Inr (None, a)
             | Some state \<Rightarrow> if state = ra_currentState a then Inr (None, a) else take_over E state a))"

text \<open>The arm after so many rounds, unless it has ended before.\<close>

fun arm_rounds :: "nat \<Rightarrow> 'n delta_env \<Rightarrow> 'n RobotArm \<Rightarrow> (ResponseCode option \<times> 'n RobotArm) res" where
  "arm_rounds 0 E a = Inr (None, a)"
| "arm_rounds (Suc n) E a =
     bind_res (arm_round E a) (\<lambda>(ended, a). if ended \<noteq> None then Inr (ended, a) else arm_rounds n E a)"

definition arm_document :: "bool \<Rightarrow> bytes" where
  "arm_document has_desired =
     (let member = (\<lambda>name. quoted name @ str '' : {        '' @ [9] @ quoted ''myState'' @ str '' : '' @ quoted ''off'' @
            str ''        }'')
      in str ''{    '' @ quoted ''state'' @ str '' : {        '' @
         (if has_desired then member ''desired'' @ str '',        '' else []) @ member ''reported'' @ str ''    }}'')"

text \<open>Before the rounds. The first document is parsed and never read.\<close>

definition start_arm :: "'n delta_env \<Rightarrow> 'n ShadowDelta \<Rightarrow> (ResponseCode option \<times> 'n RobotArm) res" where
  "start_arm E t =
     bind_res (subscribe_all E t) (\<lambda>(_, t).
       let received = fst (InitializeFromJsonString (de_parse E) JNull (arm_document True));
           (rc, sendMessage) = InitializeFromJsonString (de_parse E) JNull (arm_document False)
       in if received \<noteq> SUCCESS \<or> rc \<noteq> SUCCESS then
            bind_res (disconnect_sample E t) (\<lambda>(rc, t).
              Inr (Some rc, \<lparr>ra_things = t, ra_currentState = off_text, ra_sendMessage = sendMessage\<rparr>))
          else
            bind_res (set_in_state REPORTED_KEY MY_STATE_KEY (JString off_text) sendMessage) (\<lambda>sendMessage.
            bind_res (update_shadow E sendMessage t) (\<lambda>(rc, t).
              if rc = SHADOW_REQUEST_REJECTED
              then Inr (Some rc, \<lparr>ra_things = t, ra_currentState = off_text, ra_sendMessage = sendMessage\<rparr>)
              else Inr (None, \<lparr>ra_things = de_pause E t, ra_currentState = off_text, ra_sendMessage = sendMessage\<rparr>))))"

text \<open>The function returns only when an update is rejected or a document cannot be parsed; it leaves the shadow then.\<close>

definition run_arm :: "nat \<Rightarrow> 'n delta_env \<Rightarrow> 'n ShadowDelta \<Rightarrow> (ResponseCode option \<times> 'n RobotArm) res" where
  "run_arm rounds E t =
     bind_res (start_arm E t) (\<lambda>(ended, a).
     bind_res (if ended \<noteq> None then Inr (ended, a) else arm_rounds rounds E a) (\<lambda>(ended, a).
       if ended = None then Inr (None, a)
       else bind_res (destroy_shadow E (ra_things a)) (\<lambda>t. Inr (ended, a\<lparr>ra_things := t\<rparr>))))"

section \<open>Properties\<close>

text \<open>
  Discovery is tried at most ten times: the result is that of the first answer, or, when there is none, the response of
  the last try. \<open>tries n\<close> is the state and the response after so many tries.
\<close>

fun tries :: "('s \<Rightarrow> (ResponseCode \<times> 's) res) \<Rightarrow> nat \<Rightarrow> 's \<Rightarrow> (ResponseCode \<times> 's) res" where
  "tries discover 0 s = discover s"
| "tries discover (Suc n) s = bind_res (discover s) (\<lambda>(rc, s). tries discover n s)"

definition answered :: "ResponseCode \<Rightarrow> bool" where
  "answered rc \<longleftrightarrow> rc = DISCOVER_ACTION_SUCCESS \<or> rc = DISCOVER_ACTION_NO_INFORMATION_PRESENT"

lemma discover_loop_first_answer:
  assumes "discover_loop discover (Suc retries) s = Inr (rc, s')"
  obtains n where "n \<le> retries" "tries discover n s = Inr (rc, s')" "answered rc \<or> n = retries"
    "\<forall>m < n. \<exists>rc' s''. tries discover m s = Inr (rc', s'') \<and> \<not> answered rc'"
  using assms
proof (induction retries arbitrary: s thesis)
  case 0
  then have "discover s = Inr (rc, s')"
    by (subst (asm) discover_loop.simps) (auto simp: bind_res_Inr_iff split: if_splits)
  then show ?case using 0(1) [of 0] by simp
next
  case (Suc k)
  obtain rc1 s1 where d: "discover s = Inr (rc1, s1)"
    using Suc.prems(2) by (subst (asm) discover_loop.simps) (auto simp: bind_res_Inr_iff)
  show ?case
  proof (cases "answered rc1")
    case True
    then have "Inr (rc, s') = discover s"
      using Suc.prems(2) d by (subst (asm) discover_loop.simps) (auto simp: answered_def)
    then show ?thesis using Suc.prems(1) [of 0] True d by simp
  next
    case False
    then have "discover_loop discover (Suc k) s1 = Inr (rc, s')"
      using Suc.prems(2) d by (subst (asm) discover_loop.simps) (auto simp: answered_def)
    then obtain n where n: "n \<le> k" "tries discover n s1 = Inr (rc, s')" "answered rc \<or> n = k"
      "\<forall>m < n. \<exists>rc' s''. tries discover m s1 = Inr (rc', s'') \<and> \<not> answered rc'"
      using Suc.IH by blast
    have "\<forall>m < Suc n. \<exists>rc' s''. tries discover m s = Inr (rc', s'') \<and> \<not> answered rc'"
      using n(4) False d by (auto simp: less_Suc_eq_0_disj)
    then show ?thesis using Suc.prems(1) [of "Suc n"] n d by auto
  qed
qed

text \<open>
  The arm looks only at the last response. When its own update is accepted after the notification of a new desired state,
  and before it wakes up, it never sees the notification: every later round does nothing until the next one.
\<close>

definition deaf :: "'n delta_env \<Rightarrow> 'n ShadowDelta \<Rightarrow> bool" where
  "deaf E t \<longleftrightarrow> (\<forall>n. sd_sync_action_response ((de_await E ^^ Suc n) t) \<noteq> SHADOW_RECEIVED_DELTA)"

lemma delta_overwritten:
  "sd_sync_action_response (snd (ActionResponseHandler name2 r2 Response_Accepted p2
     (snd (ActionResponseHandler name r Response_Delta p s)))) = SHADOW_REQUEST_ACCEPTED"
  by (simp add: ActionResponseHandler_def Let_def)

lemma arm_misses_delta:
  assumes "deaf E (ra_things a)"
  shows "\<exists>t. arm_rounds n E a = Inr (None, a\<lparr>ra_things := t\<rparr>)"
  using assms
proof (induction n arbitrary: a)
  case 0
  show ?case by (intro exI [of _ "ra_things a"]) simp
next
  case (Suc n)
  let ?a = "a\<lparr>ra_things := de_await E (ra_things a)\<rparr>"
  from Suc.prems have "sd_sync_action_response ((de_await E ^^ Suc 0) (ra_things a)) \<noteq> SHADOW_RECEIVED_DELTA"
    unfolding deaf_def by blast
  then have "arm_round E a = Inr (None, ?a)" by (simp add: arm_round_def Let_def)
  moreover have "deaf E (ra_things ?a)"
    unfolding deaf_def
  proof
    fix m
    have "sd_sync_action_response ((de_await E ^^ Suc (Suc m)) (ra_things a)) \<noteq> SHADOW_RECEIVED_DELTA"
      using Suc.prems unfolding deaf_def by blast
    then show "sd_sync_action_response ((de_await E ^^ Suc m) (ra_things ?a)) \<noteq> SHADOW_RECEIVED_DELTA"
      by (simp add: funpow_Suc_right del: funpow.simps)
  qed
  ultimately show ?case using Suc.IH [of ?a] by simp
qed

text \<open>
  What the arm reports is what the switch wants: a state that is taken over is reported, in the document that is sent, as
  on or off, and a second notification of the same state does nothing.
\<close>

lemma takes_over_reports:
  assumes "take_over E state a = Inr (ended, a')" "state = on_text \<or> state = off_text"
    and "is_object (ra_sendMessage a)" "map_of (members (ra_sendMessage a)) STATE_KEY = Some st" "is_object st"
    and "map_of (members st) REPORTED_KEY = Some r" "is_object r" "distinct (map fst (members r))"
  shows "ra_currentState a' = state" and "get_member2 (ra_sendMessage a') STATE_KEY REPORTED_KEY = Inr r' \<Longrightarrow>
    map_of (members r') = (map_of (members r))(MY_STATE_KEY \<mapsto> JString state)"
proof -
  obtain doc' st' v' where d: "set_in_state REPORTED_KEY MY_STATE_KEY (JString state) (ra_sendMessage a) = Inr doc'"
    "is_object doc'" "map_of (members doc') = (map_of (members (ra_sendMessage a)))(STATE_KEY \<mapsto> st')" "is_object st'"
    "map_of (members st') = (map_of (members st))(REPORTED_KEY \<mapsto> v')"
    "map_of (members v') = (map_of (members r))(MY_STATE_KEY \<mapsto> JString state)"
    using set_in_state_effect [OF assms(3-8)] by metis
  have "(if state = on_text then on_text else off_text) = state" using assms(2) by auto
  with assms(1) d(1) have a': "ra_currentState a' = state" "ra_sendMessage a' = doc'"
    by (auto simp: take_over_def Let_def bind_res_Inr_iff split: if_splits)
  then show "ra_currentState a' = state" by simp
  assume "get_member2 (ra_sendMessage a') STATE_KEY REPORTED_KEY = Inr r'"
  then have "r' = v'" using a'(2) d(2-5) by (simp add: get_member2_def get_member_def find_member_def)
  then show "map_of (members r') = (map_of (members r))(MY_STATE_KEY \<mapsto> JString state)" using d(6) by simp
qed

end
