(* ===== verification/Logs.thy ===== *)
theory Logs
  imports ResponseCodes
begin

text \<open>
  Logging (\<^verbatim>\<open>src/util/logging\<close>, \<^verbatim>\<open>include/util/logging\<close>): the levels, the registry of the log system in use, the lines the
  console system writes, and the guard of the macros. A log system is a console log system: an index into the store of
  their levels, and all of them write to the same output. What \<^verbatim>\<open>vsnprintf\<close> makes of the arguments is the message, the
  text of \<^verbatim>\<open>std::ctime\<close>, the milliseconds and the name of the thread are the \<open>moment\<close>.
\<close>

datatype LogLevel = Off | Fatal | Error | Warn | Info | Debug | Trace

fun LogLevel_value :: "LogLevel \<Rightarrow> nat" where
  "LogLevel_value Off = 0"
| "LogLevel_value Fatal = 1"
| "LogLevel_value Error = 2"
| "LogLevel_value Warn = 3"
| "LogLevel_value Info = 4"
| "LogLevel_value Debug = 5"
| "LogLevel_value Trace = 6"

fun GetLogLevelName :: "LogLevel \<Rightarrow> bytes" where
  "GetLogLevelName Off = str ''OFF''"
| "GetLogLevelName Fatal = str ''FATAL''"
| "GetLogLevelName Error = str ''ERROR''"
| "GetLogLevelName Warn = str ''WARN''"
| "GetLogLevelName Info = str ''INFO''"
| "GetLogLevelName Debug = str ''DEBUG''"
| "GetLogLevelName Trace = str ''TRACE''"

section \<open>The registry\<close>

record logging =
  lg_AWSLogSystem :: "nat option"
  lg_OldLogger :: "nat option"
  lg_levels :: "LogLevel list"
  lg_cout :: bytes

definition InitializeAWSLogging :: "nat option \<Rightarrow> logging \<Rightarrow> logging" where
  "InitializeAWSLogging logSystem g = g\<lparr>lg_AWSLogSystem := logSystem\<rparr>"

definition ShutdownAWSLogging :: "logging \<Rightarrow> logging" where
  "ShutdownAWSLogging = InitializeAWSLogging None"

definition GetLogSystem :: "logging \<Rightarrow> nat option" where
  "GetLogSystem = lg_AWSLogSystem"

definition PushLogger :: "nat option \<Rightarrow> logging \<Rightarrow> logging" where
  "PushLogger logSystem g = g\<lparr>lg_OldLogger := lg_AWSLogSystem g, lg_AWSLogSystem := logSystem\<rparr>"

definition PopLogger :: "logging \<Rightarrow> logging" where
  "PopLogger g = g\<lparr>lg_AWSLogSystem := lg_OldLogger g, lg_OldLogger := None\<rparr>"

section \<open>The console log system\<close>

definition GetLogLevel :: "nat \<Rightarrow> logging \<Rightarrow> LogLevel res" where
  "GetLogLevel s g = (if s < length (lg_levels g) then Inr (lg_levels g ! s) else Inl NullPointer)"

definition SetLogLevel :: "LogLevel \<Rightarrow> nat \<Rightarrow> logging \<Rightarrow> logging" where
  "SetLogLevel logLevel s g = g\<lparr>lg_levels := (lg_levels g)[s := logLevel]\<rparr>"

definition ConsoleLogSystem_new :: "LogLevel \<Rightarrow> logging \<Rightarrow> nat \<times> logging" where
  "ConsoleLogSystem_new logLevel g = (length (lg_levels g), g\<lparr>lg_levels := lg_levels g @ [logLevel]\<rparr>)"

definition ProcessFormattedStatement :: "bytes \<Rightarrow> logging \<Rightarrow> logging" where
  "ProcessFormattedStatement statement g = g\<lparr>lg_cout := lg_cout g @ statement\<rparr>"

record moment =
  mo_ctime :: "bytes option"
  mo_now_ms :: nat
  mo_thread :: bytes

definition CreateLogPrefixLine :: "moment \<Rightarrow> LogLevel \<Rightarrow> bytes \<Rightarrow> bytes option \<Rightarrow> nat \<Rightarrow> bytes" where
  "CreateLogPrefixLine t logLevel tag function_name line =
     str ''['' @ GetLogLevelName logLevel @ str ''] ''
     @ (case mo_ctime t of None \<Rightarrow> [] | Some time \<Rightarrow> time @ str '':'' @ nat_digits (mo_now_ms t mod 1000) @ str '' '')
     @ tag @ str '' ['' @ mo_thread t @ str ''] ''
     @ (case function_name of
          Some f \<Rightarrow> if line \<noteq> 0 then str ''['' @ f @ str '':L'' @ nat_digits line @ str ''] : '' else []
        | None \<Rightarrow> [])"

definition Log_console :: "moment \<Rightarrow> LogLevel \<Rightarrow> bytes \<Rightarrow> bytes option \<Rightarrow> nat \<Rightarrow> bytes \<Rightarrow> logging \<Rightarrow> logging" where
  "Log_console t logLevel tag function_name line message =
     ProcessFormattedStatement (CreateLogPrefixLine t logLevel tag function_name line @ message @ [10])"

definition LogStream :: "moment \<Rightarrow> LogLevel \<Rightarrow> bytes \<Rightarrow> bytes \<Rightarrow> logging \<Rightarrow> logging" where
  "LogStream t logLevel tag message =
     ProcessFormattedStatement (CreateLogPrefixLine t logLevel tag None 0 @ message @ [10])"

text \<open>The macros look the log system up and ask for its level before they format anything.\<close>

definition guarded :: "LogLevel \<Rightarrow> (logging \<Rightarrow> logging) \<Rightarrow> logging \<Rightarrow> logging res" where
  "guarded level write_line g =
     (case GetLogSystem g of
        None \<Rightarrow> Inr g
      | Some s \<Rightarrow> bind_res (GetLogLevel s g) (\<lambda>l.
          Inr (if LogLevel_value level \<le> LogLevel_value l then write_line g else g)))"

definition AWS_LOG :: "LogLevel \<Rightarrow> moment \<Rightarrow> bytes \<Rightarrow> bytes \<Rightarrow> nat \<Rightarrow> bytes \<Rightarrow> logging \<Rightarrow> logging res" where
  "AWS_LOG level t tag function_name line message = guarded level (Log_console t level tag (Some function_name) line message)"

definition AWS_LOGSTREAM :: "LogLevel \<Rightarrow> moment \<Rightarrow> bytes \<Rightarrow> bytes \<Rightarrow> logging \<Rightarrow> logging res" where
  "AWS_LOGSTREAM level t tag message = guarded level (LogStream t level tag message)"

section \<open>Properties\<close>

text \<open>A log system that is pushed and popped again leaves the one before in use, with the levels and the output as they
  are; but the registry keeps one old log system only, so of two nested pushes the outer pop leaves none.\<close>

lemma push_pop:
  "PopLogger (PushLogger s g) = g\<lparr>lg_OldLogger := None\<rparr> \<and>
   GetLogSystem (PopLogger (PopLogger (PushLogger s2 (PushLogger s1 g)))) = None"
  by (simp add: PushLogger_def PopLogger_def GetLogSystem_def)

text \<open>The text of \<^verbatim>\<open>std::ctime\<close> ends with a newline, and it is put into the prefix as it is: every line of the log is
  split after the time.\<close>

lemma log_line_split:
  assumes "mo_ctime t = Some (date @ [10])"
  shows "\<exists>rest. CreateLogPrefixLine t level tag f line = str ''['' @ GetLogLevelName level @ str ''] '' @ date @ [10] @ str '':'' @ rest"
  using assms by (simp add: CreateLogPrefixLine_def)

definition sample_moment :: moment where
  "sample_moment = \<lparr>mo_ctime = Some [83, 10], mo_now_ms = 7, mo_thread = [49]\<rparr>"

lemma log_line_split_witness:
  "\<exists>rest. CreateLogPrefixLine sample_moment Info [84] None 0 = str ''[INFO] '' @ [83, 10, 58] @ rest"
  using log_line_split [of sample_moment "[83]" Info "[84]" None 0] by (simp add: sample_moment_def str_def)

end
