(* ===== verification/Spec2Isabelle.thy ===== *)
theory Spec2Isabelle
  imports Prelude OrderedMap ResponseCodes Utf8 Wire Topics Network CoreState MqttState Packets Actions NetworkRead KeepAlive ClientCore MqttClient Requests System Json Shadow Jobs Discovery OpenSSL TlsStream MbedTLS MbedStream Wslay WebSocket WsStream WsHandshake Ports Config Greengrass
    ProgramTls Failover JobsAgent AgentInstall AgentRun Cli PubSub JobsSample ShadowDelta Stories Logs
begin

text \<open>
  The AWS IoT Device SDK for C++: its MQTT client, the transports below it, and the services above it.

  The development has one theory per part of the SDK. Names of definitions are those of the code; a suffix or a prefix
  is added where the name is taken (\<^verbatim>\<open>Connect_nc\<close>, \<^verbatim>\<open>OpenSSL_ReadInternal\<close>). Paths are relative to \<^verbatim>\<open>src/\<close>.

  \<^bold>\<open>The program.\<close> The application calls the MQTT client, Jobs or a device shadow. A request becomes an action:
  it is performed at once, or queued for the outbound thread. The actions serialise packets and write them to a
  network connection. The reader thread cuts the input of the connection into packets, acknowledges them, and calls
  the handler of a subscription or the handler of the pending acknowledgement. The keep-alive thread sends pings,
  reconnects and subscribes again. All of them share one client state. The connection is an abstract class; its ports
  are TLS over OpenSSL, TLS over mbedTLS, and WebSocket over the OpenSSL connection. Programs on top of the SDK are
  modelled as well: the jobs agent, the command line, the samples, and what a device does with a discovery response.

  \<^bold>\<open>Theories and sources.\<close>

  \<^item> \<open>Prelude\<close>, \<open>OrderedMap\<close>: results with faults, unsigned 64-bit sizes, vectors and strings of the standard library,
    and \<^verbatim>\<open>std::map\<close> as an association list in key order.
  \<^item> \<open>ResponseCodes\<close>: \<^verbatim>\<open>include/ResponseCode.hpp\<close>, \<^verbatim>\<open>src/ResponseCode.cpp\<close>.
  \<^item> \<open>Utf8\<close>: \<^verbatim>\<open>src/util/Utf8String.cpp\<close>, against an encoder of Unicode scalar values.
  \<^item> \<open>Wire\<close>: \<^verbatim>\<open>src/mqtt/Packet.cpp\<close>, fixed header, 16-bit numbers and strings, with a codec locale.
  \<^item> \<open>Topics\<close>: \<^verbatim>\<open>src/mqtt/Common.cpp\<close>, topic filters and the pattern built for them, subscriptions, will messages.
  \<^item> \<open>Network\<close>: \<^verbatim>\<open>include/NetworkConnection.hpp\<close> and the transfer loops of \<^verbatim>\<open>src/Action.cpp\<close>.
  \<^item> \<open>CoreState\<close>: \<^verbatim>\<open>src/ClientCoreState.cpp\<close>, registered actions, the outbound queue, pending acknowledgements and
    synchronous requests; \<open>MqttState\<close>: \<^verbatim>\<open>src/mqtt/ClientState.cpp\<close>, the flags of the connection and the subscription map.
  \<^item> \<open>Packets\<close>, \<open>Actions\<close>: the packets and the actions of \<^verbatim>\<open>src/mqtt/Publish.cpp\<close>, \<^verbatim>\<open>Subscribe.cpp\<close>, \<^verbatim>\<open>Connect.cpp\<close>.
  \<^item> \<open>NetworkRead\<close>: \<^verbatim>\<open>src/mqtt/NetworkRead.cpp\<close>, the reader; \<open>KeepAlive\<close>: \<^verbatim>\<open>KeepaliveActionRunner\<close> of \<^verbatim>\<open>src/mqtt/Connect.cpp\<close>.
  \<^item> \<open>ClientCore\<close>: \<^verbatim>\<open>src/ClientCore.cpp\<close> and \<^verbatim>\<open>src/util/threading/ThreadTask.cpp\<close>; \<open>MqttClient\<close>: \<^verbatim>\<open>src/mqtt/Client.cpp\<close>.
  \<^item> \<open>Requests\<close>, \<open>System\<close>: the running client, a step relation of the application and the three threads.
  \<^item> \<open>Json\<close>: \<^verbatim>\<open>src/util/JsonParser.cpp\<close>; \<open>Shadow\<close>: \<^verbatim>\<open>src/shadow/Shadow.cpp\<close>; \<open>Jobs\<close>: \<^verbatim>\<open>src/jobs/Jobs.cpp\<close>;
    \<open>Discovery\<close>: \<^verbatim>\<open>src/discovery\<close>; \<open>Greengrass\<close>: \<^verbatim>\<open>src/mqtt/GreengrassMqttClient.cpp\<close>, a client that discovers.
  \<^item> \<open>OpenSSL\<close>, \<open>TlsStream\<close>: \<^verbatim>\<open>network/OpenSSL/OpenSSLConnection.cpp\<close>, its operations and what they do to the stream.
  \<^item> \<open>MbedTLS\<close>, \<open>MbedStream\<close>: \<^verbatim>\<open>network/MbedTLS/MbedTLSConnection.cpp\<close>, likewise.
  \<^item> \<open>Wslay\<close>: the frame layer, \<^verbatim>\<open>network/WebSocket/wslay\<close>; \<open>WebSocket\<close>, \<open>WsStream\<close>, \<open>WsHandshake\<close>:
    \<^verbatim>\<open>network/WebSocket/WebSocketConnection.cpp\<close>, its operations, its stream, and the opening handshake.
  \<^item> \<open>Ports\<close>: the reader of the client above the real ports.
  \<^item> \<open>Config\<close>: \<^verbatim>\<open>common/ConfigCommon.cpp\<close>; \<open>JobsAgent\<close>, \<open>AgentInstall\<close>: \<^verbatim>\<open>samples/JobsAgent\<close>, the operations of the
    agent and what an install does to the files; \<open>ProgramTls\<close>, \<open>AgentRun\<close>: \<open>InitializeTLS\<close>, which the programs share,
    and \<open>RunAgent\<close>; \<open>Cli\<close>: \<^verbatim>\<open>cli/cli.cpp\<close>; \<open>PubSub\<close>, \<open>JobsSample\<close>, \<open>ShadowDelta\<close>, \<open>Stories\<close>: the samples
    \<^verbatim>\<open>samples/PubSub\<close>, \<^verbatim>\<open>Jobs\<close>, \<^verbatim>\<open>ShadowDelta\<close>, \<^verbatim>\<open>StorySwitch\<close> and \<^verbatim>\<open>StoryRobotArm\<close>; \<open>Failover\<close>: the part of \<^verbatim>\<open>samples/Discovery/Discovery.cpp\<close> between the
    discovery response and the connection; \<open>Logs\<close>: \<^verbatim>\<open>src/util/logging\<close>.

  \<^bold>\<open>How code becomes definitions.\<close> A class is a record of its members, an extension of the record of its base class
  where the code inherits. A member function takes the record and returns it changed. An exception, the dereference of
  a null pointer, an access outside a buffer or a read of an uninitialised member is a value of \<open>fault\<close>, so that a
  definition that returns \<open>Inr\<close> has shown that the code does none of these. Bytes are 8-bit words; \<^verbatim>\<open>size_t\<close> is a natural
  number with \<open>size_add\<close> and \<open>size_sub\<close>, which wrap at 64 bits; narrower integers are words. Objects the code shares
  (subscriptions, thread tasks) live in a store and are passed as indices. Handlers of the application are numbers, and
  a call of one is an entry of a log in the state. The virtual \<open>PerformAction\<close> is an argument of the engine and is
  instantiated with the actions of MQTT.

  \<^bold>\<open>Threads.\<close> A function that holds its mutexes for its whole duration is one step. Where the code waits or sleeps, an
  argument (\<open>wait\<close>, \<open>pause\<close>, \<open>runner\<close>, \<open>meanwhile\<close>) is what the other threads do to the state; \<open>System.client_step\<close> closes
  the loop: these arguments are exactly the runs of the same relation. Data races on members the code does not protect
  are outside of this and are noted where they occur.

  \<^bold>\<open>Locales.\<close> \<open>std_map\<close> (laws of the ordered map), \<open>codec\<close> (a writer and a reader that invert each other), \<open>id_source\<close>
  (identifiers that do not repeat within a cycle), \<open>state_property\<close> and its extensions \<open>request_property\<close>,
  \<open>thread_property\<close> and \<open>client_property\<close> (a property of the client state kept by the primitive changes is kept by every
  action, handler, thread and finally every step), \<open>shadow_listener\<close> (what may run while a shadow waits). Each is
  interpreted on the definitions of the code, the state properties with well-formedness and with several frames.

  \<^bold>\<open>What is shown.\<close>

  \<^item> Data: the validation of UTF-8 accepts exactly the encodings; packets parse back to what they were built from and
    announce their exact size; the subscription that gets a message is the first whose filter covers the topic level by
    level.
  \<^item> Reading: the bytes of a PUBLISH lead to one call of the right handler and one queued PUBACK, over any connection
    that delivers its input, and so over TLS and over WebSocket frames, wherever they are cut.
  \<^item> The client: in every reachable state it is well formed, and no request, queued action or thread faults on it; what a
    SUBACK, an UNSUBSCRIBE, a lost ping, a reconnect and the destructor leave behind.
  \<^item> The services: a shadow converges with the server after an accepted update and its versions go forward; the payloads
    of jobs are well-formed JSON with the given members; a discovery response is read to its last byte
    through a new client; a core that accepts is connected whatever the others do.
  \<^item> The agent: an install registers its package or leaves the files of the package as they were; a job that arrives runs
    only the trial run of a shutdown. The configuration: the first setting that is missing or wrong is what is reported.
  \<^item> The programs: the agent starts the packages that want it; the sample queues every message once, however often the
    queue is full; the command line stops at the first failure and crashes without a connection; the arm of the stories reports what the
    switch wants, and misses it when its own update is accepted in between.
  \<^item> The ports: connected means verified; which sockets are open; reads and writes are exact; the WebSocket frame sent is
    the masked binary frame of RFC 6455 for the buffer.
  \<^item> Faults of the code, as theorems: a packet cut by a timeout desynchronises the reader; an idle WebSocket is
    disconnected; a PING crashes; a failed send is reported as success; a retry over WebSocket has no trusted authority;
    over mbedTLS a server that was not verified still gets the data, and a write never times out.

  \<^bold>\<open>Bounds and fuel.\<close> A recursion on \<open>fuel\<close> gives \<open>OutOfFuel\<close> when it is used up, never a result. The write loop of
  \<open>Action\<close> runs one iteration, so one unit is enough (\<open>WriteToNetworkBuffer_fuel\<close>); a read of \<open>m\<close> bytes needs at most \<open>m\<close>
  (\<open>read_terminates\<close>). \<open>read_limit\<close>, \<open>2^28\<close>, is above the largest packet of MQTT (\<open>2^28 - 1\<close> bytes after the header)
  and is the fuel of the loops of the ports. The loops of the threads are unrolled by the step relation and need none.
  The bound of the HTTP loops of discovery is the length of the response.

  \<^bold>\<open>Libraries.\<close> RapidJSON, OpenSSL, mbedTLS, curl, the sockets, the files, the processes and the clock are arguments. What a theorem uses of them is a named
  definition and a hypothesis of it: \<open>read_laws\<close> and \<open>read_available\<close> (\<^verbatim>\<open>SSL_read\<close> gives the next bytes, and some when there are
  some), \<open>write_laws\<close> (\<^verbatim>\<open>SSL_write\<close> takes all or nothing), \<open>quiet_when_empty\<close> (a wait for input that does not come times
  out), \<open>socket_laws\<close> (which calls open and close descriptors), \<open>trust_laws\<close> (a new context trusts nobody until an
  authority is loaded), \<open>base64_of_sha1\<close> (the shape of an encoded digest), \<open>mbed_read_laws\<close>, \<open>mbed_available\<close>, \<open>mbed_write_laws\<close>
  and \<open>mbed_socket_laws\<close> (the same for mbedTLS), and for a connection as a whole
  \<open>delivers\<close>, \<open>delivers_all\<close>, \<open>takes_all\<close> and \<open>honest_writer\<close>. The theories of the ports show that the ports provide the
  latter from the former. The witnesses discharge all of them on scripted libraries.

  \<^bold>\<open>Not modelled.\<close> The type aliases for the standard library; the tests. Of modelled parts:
  the branches for Windows, the process-wide initialisation of OpenSSL, calls whose result is only logged, the release of
  memory, the failure of \<^verbatim>\<open>malloc\<close> and of \<^verbatim>\<open>new\<close>, a write to an open file that fails, what the discovery sample does
  besides the part named above (its messages are those of \<open>PubSub\<close> at another quality of service), the publishing of
  the command line that nothing calls, the builds of \<open>InitializeTLS\<close> in the programs for WebSocket and mbedTLS, and the formatting of a log message by \<^verbatim>\<open>vsnprintf\<close>.
\<close>

end
